(* ===== verification/Prelude.thy ===== *)
theory Prelude
  imports "HOL-Library.Word"
begin

text \<open>
  Shared vocabulary of the development: machine integers and byte strings, the
  big-endian and decimal encodings of \<open>encoding/binary\<close> and \<open>strconv\<close>, and the
  effect type of the Go code.

  A Go method that reads and writes the receiver's fields and may return an error is a
  function \<open>'s \<Rightarrow> (err + 'a) \<times> 's\<close>: the state is returned on the error path too,
  because Go does not undo the assignments made before an early return.
  \<open>Err\<close> is a returned error, \<open>Panic\<close> a run-time panic (nil dereference, index out of
  range).  \<open>keeps P m\<close> says that \<open>m\<close> preserves \<open>P\<close> on both outcomes; the rules
  collected in \<open>keeps_rules\<close> prove such facts by following the structure of the code.
\<close>

section \<open>Machine integers and byte strings\<close>

type_synonym u8 = "8 word"
type_synonym u32 = "32 word"
type_synonym u64 = "64 word"

text \<open>An \<open>int64\<close> is a 64-bit word read with \<^const>\<open>sint\<close>.\<close>

type_synonym i64 = "64 word"
type_synonym bytes = "8 word list"

named_theorems go_simps \<open>inversion of successful runs\<close>
named_theorems keeps_rules \<open>preservation rules that follow the code\<close>
named_theorems key_simps \<open>equality and disequality of store keys\<close>

text \<open>\<open>be n v\<close> is the big-endian encoding of \<open>v\<close> in \<open>n\<close> bytes, as \<open>binary.BigEndian\<close> writes it.\<close>

fun be :: "nat \<Rightarrow> nat \<Rightarrow> bytes" where
  "be 0 v = []"
| "be (Suc n) v = be n (v div 256) @ [of_nat (v mod 256)]"

definition un_be :: "bytes \<Rightarrow> nat" where
  "un_be bs = foldl (\<lambda>a b. 256 * a + unat b) 0 bs"

definition PutUint64 :: "u64 \<Rightarrow> bytes" where
  "PutUint64 w = be 8 (unat w)"

definition PutUint32 :: "u32 \<Rightarrow> bytes" where
  "PutUint32 w = be 4 (unat w)"

text \<open>\<open>Uint64 b\<close> reads the first eight bytes; the callers check the length before.\<close>

definition Uint64 :: "bytes \<Rightarrow> u64" where
  "Uint64 b = of_nat (un_be (take 8 b))"

definition Uint32 :: "bytes \<Rightarrow> u32" where
  "Uint32 b = of_nat (un_be (take 4 b))"

text \<open>Decimal formatting (\<open>strconv.FormatUint\<close> and \<open>FormatInt\<close> in base ten), as ASCII bytes.\<close>

fun dec_digits :: "nat \<Rightarrow> bytes" where
  "dec_digits n = (if n < 10 then [of_nat (48 + n)]
                   else dec_digits (n div 10) @ [of_nat (48 + n mod 10)])"

declare dec_digits.simps [simp del]

definition FormatUint :: "nat \<Rightarrow> bytes" where
  "FormatUint n = dec_digits n"

definition FormatInt :: "int \<Rightarrow> bytes" where
  "FormatInt i = (if i < 0 then 45 # dec_digits (nat (- i)) else dec_digits (nat i))"

text \<open>\<open>(*big.Int).Bytes\<close>: the absolute value, big-endian, without leading zeros.\<close>

fun big_digits :: "nat \<Rightarrow> bytes" where
  "big_digits n = (if n = 0 then [] else big_digits (n div 256) @ [of_nat (n mod 256)])"

declare big_digits.simps [simp del]

definition bigBytes :: "int \<Rightarrow> bytes" where
  "bigBytes i = big_digits (nat \<bar>i\<bar>)"

text \<open>A slice of numbers stored as consecutive eight-byte groups, and the loop that reads it.\<close>

fun read_u64s :: "nat \<Rightarrow> bytes \<Rightarrow> u64 list" where
  "read_u64s 0 b = []"
| "read_u64s (Suc n) b = Uint64 b # read_u64s n (drop 8 b)"

definition u64s_of :: "bytes \<Rightarrow> u64 list" where
  "u64s_of b = read_u64s (length b div 8) b"

section \<open>The effect type of the Go code\<close>

datatype err = Err string | Panic string

type_synonym ('s, 'a) go = "'s \<Rightarrow> (err + 'a) \<times> 's"

definition ret :: "'a \<Rightarrow> ('s, 'a) go" where
  "ret x s = (Inr x, s)"

definition fail :: "err \<Rightarrow> ('s, 'a) go" where
  "fail e s = (Inl e, s)"

definition bnd :: "('s, 'a) go \<Rightarrow> ('a \<Rightarrow> ('s, 'b) go) \<Rightarrow> ('s, 'b) go" where
  "bnd m f s = (case m s of (Inl e, t) \<Rightarrow> (Inl e, t) | (Inr x, t) \<Rightarrow> f x t)"

text \<open>\<open>if c { return err }\<close>\<close>

definition reject :: "bool \<Rightarrow> string \<Rightarrow> ('s, unit) go" where
  "reject c e s = (if c then (Inl (Err e), s) else (Inr (), s))"

definition gets :: "('s \<Rightarrow> 'a) \<Rightarrow> ('s, 'a) go" where
  "gets f s = (Inr (f s), s)"

definition modify :: "('s \<Rightarrow> 's) \<Rightarrow> ('s, unit) go" where
  "modify f s = (Inr (), f s)"

text \<open>Sequencing of two statements, and a statement list.\<close>

definition seq :: "('s, 'a) go \<Rightarrow> ('s, 'b) go \<Rightarrow> ('s, 'b) go" where
  "seq m n = bnd m (\<lambda>_. n)"

text \<open>Reading through a pointer that may be nil.\<close>

definition deref :: "string \<Rightarrow> 'a option \<Rightarrow> ('s, 'a) go" where
  "deref what p = (case p of None \<Rightarrow> fail (Panic what) | Some x \<Rightarrow> ret x)"

text \<open>A call whose error is a returned value that the caller propagates.\<close>

definition orErr :: "string \<Rightarrow> 'a option \<Rightarrow> ('s, 'a) go" where
  "orErr e p = (case p of None \<Rightarrow> fail (Err e) | Some x \<Rightarrow> ret x)"

text \<open>A call whose result is a value or an error that the caller propagates.\<close>

definition orFail :: "err + 'a \<Rightarrow> ('s, 'a) go" where
  "orFail r s = (r, s)"

text \<open>A call whose error is dropped; a panic still unwinds.\<close>

definition dropErr :: "('s, unit) go \<Rightarrow> ('s, unit) go" where
  "dropErr m s = (case m s of
      (Inl (Panic p), t) \<Rightarrow> (Inl (Panic p), t)
    | (_, t) \<Rightarrow> (Inr (), t))"

text \<open>\<open>for _, x := range xs { ... }\<close> with early return on error.\<close>

fun forM :: "'x list \<Rightarrow> ('x \<Rightarrow> ('s, unit) go) \<Rightarrow> ('s, unit) go" where
  "forM [] f = ret ()"
| "forM (x # xs) f = seq (f x) (forM xs f)"

text \<open>The same with loop variables carried from one round to the next.\<close>

fun foldM :: "'x list \<Rightarrow> 'c \<Rightarrow> ('x \<Rightarrow> 'c \<Rightarrow> ('s, 'c) go) \<Rightarrow> ('s, 'c) go" where
  "foldM [] c f = ret c"
| "foldM (x # xs) c f = bnd (f x c) (\<lambda>c'. foldM xs c' f)"

section \<open>Encodings\<close>

lemma unat_eq_iff [simp]: "unat a = unat b \<longleftrightarrow> a = b"
  by (simp add: word_unat_eq_iff)

lemma un_be_snoc [simp]: "un_be (bs @ [b]) = 256 * un_be bs + unat b"
  by (simp add: un_be_def)

lemma un_be_Nil [simp]: "un_be [] = 0"
  by (simp add: un_be_def)

lemma length_be [simp]: "length (be n v) = n"
  by (induction n arbitrary: v) auto

lemma unat_of_nat_mod256: "unat (of_nat (v mod 256) :: u8) = v mod 256"
  by (simp add: unat_of_nat)

lemma un_be_be: "un_be (be n v) = v mod 256 ^ n"
proof (induction n arbitrary: v)
  case 0
  then show ?case by simp
next
  case (Suc n)
  have "un_be (be (Suc n) v) = 256 * (v div 256 mod 256 ^ n) + v mod 256"
    by (simp add: Suc.IH unat_of_nat_mod256)
  also have "\<dots> = v mod 256 ^ Suc n"
    by (simp add: mod_mult2_eq add.commute)
  finally show ?case .
qed

lemma Uint64_PutUint64 [simp]: "Uint64 (PutUint64 w @ rest) = w"
proof -
  have "unat w < 256 ^ 8"
    using unsigned_less [of w, where 'a = nat] by simp
  then show ?thesis
    by (simp add: Uint64_def PutUint64_def un_be_be)
qed

lemma Uint64_PutUint64' [simp]: "Uint64 (PutUint64 w) = w"
  using Uint64_PutUint64 [of w "[]"] by simp

lemma Uint32_PutUint32 [simp]: "Uint32 (PutUint32 w @ rest) = w"
proof -
  have "unat w < 256 ^ 4"
    using unsigned_less [of w, where 'a = nat] by simp
  then show ?thesis
    by (simp add: Uint32_def PutUint32_def un_be_be)
qed

lemma length_PutUint64 [simp]: "length (PutUint64 w) = 8"
  by (simp add: PutUint64_def)

lemma length_PutUint32 [simp]: "length (PutUint32 w) = 4"
  by (simp add: PutUint32_def)

lemma PutUint64_inject [simp]: "PutUint64 v = PutUint64 w \<longleftrightarrow> v = w"
  by (metis Uint64_PutUint64')

text \<open>Appending one number to a stored slice appends it to the list that is read back.\<close>

lemma read_u64s_append:
  "length b = 8 * n \<Longrightarrow> read_u64s (n + m) (b @ c) = read_u64s n b @ read_u64s m c"
proof (induction n arbitrary: b)
  case 0
  then show ?case by simp
next
  case (Suc n)
  then have "length (drop 8 b) = 8 * n" and "8 \<le> length b"
    by auto
  with Suc.IH [of "drop 8 b"] show ?case
    by (simp add: Uint64_def)
qed

lemma u64s_of_snoc:
  assumes "8 dvd length b"
  shows "u64s_of (b @ PutUint64 w) = u64s_of b @ [w]"
proof -
  from assms obtain n where n: "length b = 8 * n" ..
  then have "u64s_of (b @ PutUint64 w) = read_u64s (n + 1) (b @ PutUint64 w)"
    by (simp add: u64s_of_def)
  also have "\<dots> = u64s_of b @ [w]"
    using read_u64s_append [OF n, of 1 "PutUint64 w"] n by (simp add: u64s_of_def)
  finally show ?thesis .
qed

lemma word_less_inc:
  fixes x :: "'a :: len word"
  assumes "x + 1 \<noteq> 0"
  shows "x < x + 1"
proof -
  have "Suc (unat x) \<noteq> 2 ^ LENGTH('a)"
    using assms by (metis mod_self unat_eq_zero unat_word_ariths(1) unat_1 Suc_eq_plus1)
  moreover have "unat x < 2 ^ LENGTH('a)"
    by (rule unsigned_less)
  ultimately have "Suc (unat x) < 2 ^ LENGTH('a)"
    by linarith
  then show ?thesis
    by (simp add: word_less_nat_alt unat_word_ariths)
qed

section \<open>Decimal strings\<close>

lemma unat_digit: "n < 10 \<Longrightarrow> unat (of_nat (48 + n) :: u8) = 48 + n"
  by (simp del: of_nat_add add: unsigned_of_nat take_bit_nat_eq_self_iff)

lemma digit_not_slash:
  assumes "n < 10"
  shows "(of_nat (48 + n) :: u8) \<noteq> 47"
proof
  assume "(of_nat (48 + n) :: u8) = 47"
  then have "unat (of_nat (48 + n) :: u8) = unat (47 :: u8)" by (rule arg_cong)
  then show False
    using unat_digit [OF assms] by simp
qed

lemma digit_inject:
  "n < 10 \<Longrightarrow> m < 10 \<Longrightarrow> (of_nat (48 + n) :: u8) = of_nat (48 + m) \<Longrightarrow> n = m"
  by (metis unat_digit add_left_cancel)

lemma dec_digits_no_slash: "47 \<notin> set (dec_digits n)"
proof (induction n rule: dec_digits.induct)
  case (1 n)
  then show ?case
    using digit_not_slash [of "n mod 10"] digit_not_slash [of n]
    by (subst dec_digits.simps) auto
qed

lemma dec_digits_nonempty [simp]: "dec_digits n \<noteq> []"
  by (subst dec_digits.simps) simp

lemma dec_digits_single: "n < 10 \<Longrightarrow> dec_digits n = [of_nat (48 + n)]"
  by (subst dec_digits.simps) simp

lemma dec_digits_snoc:
  "\<not> n < 10 \<Longrightarrow> dec_digits n = dec_digits (n div 10) @ [of_nat (48 + n mod 10)]"
  by (subst dec_digits.simps) simp

lemma dec_digits_inject: "dec_digits n = dec_digits m \<longleftrightarrow> n = m"
proof
  show "dec_digits n = dec_digits m \<Longrightarrow> n = m"
  proof (induction n arbitrary: m rule: dec_digits.induct)
    case (1 n)
    show ?case
    proof (cases "n < 10")
      case True
      with 1(2) have "m < 10"
        using dec_digits_snoc [of m] dec_digits_single [of n] dec_digits_nonempty [of "m div 10"]
        by (cases "m < 10") (auto simp del: of_nat_add dec_digits_nonempty)
      with True 1(2) show ?thesis
        by (auto simp del: of_nat_add simp add: dec_digits_single intro: digit_inject)
    next
      case False
      with 1(2) have m: "\<not> m < 10"
        using dec_digits_snoc [of n] dec_digits_single [of m] dec_digits_nonempty [of "n div 10"]
        by (cases "m < 10") (auto simp del: of_nat_add dec_digits_nonempty)
      with 1(2) False have eq: "dec_digits (n div 10) = dec_digits (m div 10)"
        and d: "(of_nat (48 + n mod 10) :: u8) = of_nat (48 + m mod 10)"
        by (simp_all del: of_nat_add add: dec_digits_snoc)
      from 1(1) [OF False eq] have "n div 10 = m div 10" .
      moreover from d have "n mod 10 = m mod 10"
        by (intro digit_inject) auto
      ultimately show ?thesis by (metis div_mult_mod_eq)
    qed
  qed
qed simp

section \<open>Rules for the effect type\<close>

lemma ret_Inr [go_simps]: "ret x s = (Inr y, t) \<longleftrightarrow> y = x \<and> t = s"
  by (auto simp: ret_def)

lemma ret_run [simp]: "ret x s = (Inr x, s)"
  by (simp add: ret_def)

lemma fail_run [simp]: "fail e s = (Inl e, s)"
  by (simp add: fail_def)

lemma gets_run [simp]: "gets f s = (Inr (f s), s)"
  by (simp add: gets_def)

lemma modify_run [simp]: "modify f s = (Inr (), f s)"
  by (simp add: modify_def)

lemma reject_True [simp]: "reject True e s = (Inl (Err e), s)"
  by (simp add: reject_def)

lemma reject_False [simp]: "reject False e s = (Inr (), s)"
  by (simp add: reject_def)

lemma reject_Inr [go_simps]: "reject c e s = (Inr u, t) \<longleftrightarrow> \<not> c \<and> t = s"
  by (auto simp: reject_def)

lemma bnd_Inr [go_simps]:
  "bnd m f s = (Inr y, t) \<longleftrightarrow> (\<exists>x s'. m s = (Inr x, s') \<and> f x s' = (Inr y, t))"
  by (auto simp: bnd_def split: prod.splits sum.splits)

lemma seq_Inr [go_simps]:
  "seq m n s = (Inr y, t) \<longleftrightarrow> (\<exists>x s'. m s = (Inr x, s') \<and> n s' = (Inr y, t))"
  by (auto simp: seq_def bnd_Inr)

lemma deref_Inr [go_simps]: "deref w p s = (Inr x, t) \<longleftrightarrow> p = Some x \<and> t = s"
  by (auto simp: deref_def split: option.splits)

lemma orErr_Inr [go_simps]: "orErr w p s = (Inr x, t) \<longleftrightarrow> p = Some x \<and> t = s"
  by (auto simp: orErr_def split: option.splits)

lemma orFail_Inr [go_simps]: "orFail r s = (Inr x, t) \<longleftrightarrow> r = Inr x \<and> t = s"
  by (auto simp: orFail_def)

lemma orFail_run [simp]: "orFail r s = (r, s)"
  by (simp add: orFail_def)

lemma bnd_run_Inr [simp]: "m s = (Inr x, t) \<Longrightarrow> bnd m f s = f x t"
  by (simp add: bnd_def)

lemma bnd_run_Inl [simp]: "m s = (Inl e, t) \<Longrightarrow> bnd m f s = (Inl e, t)"
  by (simp add: bnd_def)

lemma seq_run_Inr [simp]: "m s = (Inr x, t) \<Longrightarrow> seq m n s = n t"
  by (simp add: seq_def)

lemma seq_run_Inl [simp]: "m s = (Inl e, t) \<Longrightarrow> seq m n s = (Inl e, t)"
  by (simp add: seq_def)

lemma deref_Some [simp]: "deref w (Some x) s = (Inr x, s)"
  by (simp add: deref_def)

lemma deref_None [simp]: "deref w None s = (Inl (Panic w), s)"
  by (simp add: deref_def)

lemma orErr_Some [simp]: "orErr w (Some x) s = (Inr x, s)"
  by (simp add: orErr_def)

lemma orErr_None [simp]: "orErr w None s = (Inl (Err w), s)"
  by (simp add: orErr_def)

text \<open>A loop of checks that change nothing.\<close>

lemma forM_check:
  "(\<And>x s u t. f x s = (Inr u, t) \<longleftrightarrow> t = s \<and> Q x) \<Longrightarrow>
     forM xs f s = (Inr u, t) \<longleftrightarrow> t = s \<and> (\<forall>x \<in> set xs. Q x)"
  by (induction xs arbitrary: s) (auto simp: go_simps)

subsection \<open>Preservation\<close>

definition keeps :: "('s \<Rightarrow> bool) \<Rightarrow> ('s, 'a) go \<Rightarrow> bool" where
  "keeps P m \<longleftrightarrow> (\<forall>s. P s \<longrightarrow> P (snd (m s)))"

lemma keepsI: "(\<And>s. P s \<Longrightarrow> P (snd (m s))) \<Longrightarrow> keeps P m"
  by (simp add: keeps_def)

lemma keepsD: "keeps P m \<Longrightarrow> P s \<Longrightarrow> P (snd (m s))"
  by (simp add: keeps_def)

lemma keeps_run: "keeps P m \<Longrightarrow> m s = (r, t) \<Longrightarrow> P s \<Longrightarrow> P t"
  by (force simp: keeps_def)

lemma keeps_ret [keeps_rules]: "keeps P (ret x)"
  by (simp add: keeps_def)

lemma keeps_fail [keeps_rules]: "keeps P (fail e)"
  by (simp add: keeps_def)

lemma keeps_reject [keeps_rules]: "keeps P (reject c e)"
  by (simp add: keeps_def reject_def)

lemma keeps_gets [keeps_rules]: "keeps P (gets f)"
  by (simp add: keeps_def)

lemma keeps_deref [keeps_rules]: "keeps P (deref w p)"
  by (simp add: keeps_def deref_def split: option.splits)

lemma keeps_orErr [keeps_rules]: "keeps P (orErr w p)"
  by (simp add: keeps_def orErr_def split: option.splits)

lemma keeps_orFail [keeps_rules]: "keeps P (orFail r)"
  by (simp add: keeps_def)

lemma keeps_dropErr [keeps_rules]: "keeps P m \<Longrightarrow> keeps P (dropErr m)"
  by (force simp: keeps_def dropErr_def split: prod.splits sum.splits err.splits)

lemma keeps_bnd [keeps_rules]:
  "keeps P m \<Longrightarrow> (\<And>x. keeps P (f x)) \<Longrightarrow> keeps P (bnd m f)"
  by (force simp: keeps_def bnd_def split: prod.splits sum.splits)

text \<open>The same with what is known of the first result.\<close>

lemma keeps_bnd_res:
  "keeps P m \<Longrightarrow> (\<And>x s t. m s = (Inr x, t) \<Longrightarrow> keeps P (f x)) \<Longrightarrow> keeps P (bnd m f)"
  by (force simp: keeps_def bnd_def split: prod.splits sum.splits)

lemma keeps_seq [keeps_rules]: "keeps P m \<Longrightarrow> keeps P n \<Longrightarrow> keeps P (seq m n)"
  by (simp add: seq_def keeps_bnd)

lemma keeps_if [keeps_rules]:
  "(c \<Longrightarrow> keeps P m) \<Longrightarrow> (\<not> c \<Longrightarrow> keeps P n) \<Longrightarrow> keeps P (if c then m else n)"
  by simp

lemma keeps_option [keeps_rules]:
  "keeps P m \<Longrightarrow> (\<And>x. keeps P (f x)) \<Longrightarrow> keeps P (case p of None \<Rightarrow> m | Some x \<Rightarrow> f x)"
  by (cases p) auto

lemma keeps_let [keeps_rules]: "(\<And>x. keeps P (f x)) \<Longrightarrow> keeps P (Let v f)"
  by (simp add: Let_def)

lemma keeps_modify [keeps_rules]: "(\<And>s. P s \<Longrightarrow> P (f s)) \<Longrightarrow> keeps P (modify f)"
  by (simp add: keeps_def)

lemma keeps_forM [keeps_rules]: "(\<And>x. keeps P (f x)) \<Longrightarrow> keeps P (forM xs f)"
  by (induction xs) (auto intro: keeps_ret keeps_seq)

lemma keeps_foldM [keeps_rules]: "(\<And>x c. keeps P (f x c)) \<Longrightarrow> keeps P (foldM xs c f)"
  by (induction xs arbitrary: c) (auto intro: keeps_ret keeps_bnd)

lemma keeps_case_prod [keeps_rules]:
  "(\<And>x y. p = (x, y) \<Longrightarrow> keeps P (f x y)) \<Longrightarrow> keeps P (case p of (x, y) \<Rightarrow> f x y)"
  by (cases p) simp

end
