(* ===== verification/Store.thy ===== *)
theory Store
  imports Prelude
begin

text \<open>
  The key-value layer: \<open>lib/types/store\<close> (the \<open>Store\<close> interface and \<open>NewKey\<close>),
  the transactions of \<open>lib/backend/kv\<close> as the state manager uses them, the reference
  counting \<open>ValueStore\<close> of \<open>lib/backend/smt/valuestore.go\<close>, and the wrapper \<open>SMTree\<close>
  of \<open>lib/backend/smt/smt.go\<close> around the third-party sparse Merkle tree.

  The database behind \<open>Store\<close> (badger) and the Merkle tree are third-party code.  The
  database is the finite map its interface documents; the Merkle tree is a parameter
  (\<open>trie\<close>) from roots and keys to values and to new roots.
\<close>

section \<open>Keys\<close>

text \<open>
  \<open>NewKey\<close> dispatches on the dynamic kind of each argument: byte slices and strings are
  copied, signed and unsigned integers are printed in decimal, any other kind is skipped
  (with its delimiter).
\<close>

datatype key_arg = KSlice bytes | KString bytes | KInt int | KUint nat | KOther

fun key_part :: "key_arg \<Rightarrow> bytes" where
  "key_part (KSlice b) = b"
| "key_part (KString b) = b"
| "key_part (KInt i) = FormatInt i"
| "key_part (KUint n) = FormatUint n"
| "key_part KOther = []"

definition KeyDelimiter :: u8 where
  "KeyDelimiter = 47"

fun NewKey :: "key_arg list \<Rightarrow> bytes" where
  "NewKey [] = []"
| "NewKey [v] = key_part v"
| "NewKey (v # w # vs) =
     (if v = KOther then NewKey (w # vs)
      else key_part v @ KeyDelimiter # NewKey (w # vs))"

text \<open>The keys of the state: a \<open>pb.MetaType\<close> followed by unsigned numbers.\<close>

definition skey :: "nat \<Rightarrow> nat list \<Rightarrow> bytes" where
  "skey mt ns = NewKey (KInt (int mt) # map KUint ns)"

section \<open>Stores and transactions\<close>

type_synonym kvs = "bytes \<Rightarrow> bytes option"

text \<open>
  A read-write transaction (\<open>kv/txn.go\<close>): its own writes over the store it was opened on.
  \<open>Commit\<close> publishes the writes, \<open>Discard\<close> drops them.
\<close>

definition ds_put :: "kvs \<Rightarrow> bytes \<Rightarrow> bytes \<Rightarrow> kvs" where
  "ds_put d k v = d(k \<mapsto> v)"

definition ds_delete :: "kvs \<Rightarrow> bytes \<Rightarrow> kvs" where
  "ds_delete d k = d(k := None)"

record txn =
  txn_base :: kvs
  txn_writes :: "bytes \<Rightarrow> bytes option option"

definition txn_new :: "kvs \<Rightarrow> txn" where
  "txn_new d = \<lparr>txn_base = d, txn_writes = (\<lambda>_. None)\<rparr>"

definition txn_put :: "txn \<Rightarrow> bytes \<Rightarrow> bytes \<Rightarrow> txn" where
  "txn_put t k v = t\<lparr>txn_writes := (txn_writes t)(k \<mapsto> Some v)\<rparr>"

definition txn_delete :: "txn \<Rightarrow> bytes \<Rightarrow> txn" where
  "txn_delete t k = t\<lparr>txn_writes := (txn_writes t)(k \<mapsto> None)\<rparr>"

definition txn_get :: "txn \<Rightarrow> bytes \<Rightarrow> bytes option" where
  "txn_get t k = (case txn_writes t k of Some w \<Rightarrow> w | None \<Rightarrow> txn_base t k)"

definition txn_commit :: "txn \<Rightarrow> kvs" where
  "txn_commit t k = txn_get t k"

section \<open>The reference-counting value store\<close>

text \<open>
  \<open>wrappedPut\<close>, \<open>wrappedGet\<close> and \<open>wrappedDelete\<close> over any \<open>Store\<close>: the first byte of
  a stored value counts how often it was put.  \<open>v[0]\<close> on an empty slice panics.
\<close>

definition wrappedPut ::
  "('m \<Rightarrow> bytes \<Rightarrow> bytes option) \<Rightarrow> ('m \<Rightarrow> bytes \<Rightarrow> bytes \<Rightarrow> 'm) \<Rightarrow> bytes \<Rightarrow> bytes \<Rightarrow> ('m, unit) go" where
  "wrappedPut g p k v m = (case g m k of
      None \<Rightarrow> (Inr (), p m k (1 # v))
    | Some old \<Rightarrow>
        if length old > 1 \<and> tl old \<noteq> v then (Inr (), p m k (1 # v))
        else (case old of [] \<Rightarrow> (Inl (Panic ''index out of range''), m)
              | c # w \<Rightarrow> (Inr (), p m k ((c + 1) # w))))"

definition wrappedGet :: "('m \<Rightarrow> bytes \<Rightarrow> bytes option) \<Rightarrow> bytes \<Rightarrow> 'm \<Rightarrow> bytes option" where
  "wrappedGet g k m = (case g m k of
      None \<Rightarrow> None
    | Some v \<Rightarrow> if length v \<le> 1 then Some [] else Some (tl v))"

definition wrappedDelete ::
  "('m \<Rightarrow> bytes \<Rightarrow> bytes option) \<Rightarrow> ('m \<Rightarrow> bytes \<Rightarrow> bytes \<Rightarrow> 'm) \<Rightarrow> ('m \<Rightarrow> bytes \<Rightarrow> 'm) \<Rightarrow>
   bytes \<Rightarrow> ('m, unit) go" where
  "wrappedDelete g p d k m = (case g m k of
      None \<Rightarrow> (Inl (Err ''not found''), m)
    | Some [] \<Rightarrow> (Inl (Panic ''index out of range''), m)
    | Some (c # w) \<Rightarrow>
        if c = 1 then (Inr (), d m k) else (Inr (), p m k ((c - 1) # w)))"

section \<open>The sparse Merkle tree wrapper\<close>

text \<open>
  The third-party tree as the wrapper calls it.  \<open>trieGet root key\<close> and \<open>trieHas\<close> return
  \<open>None\<close> on an error; \<open>trieUpdate\<close> returns the new root; \<open>trieClean\<close> is
  \<open>RemovePath(key, cur, blk)\<close> and the commits of the node and value transactions, \<open>True\<close>
  when they succeed.
\<close>

record trie =
  trieEmptyRoot :: bytes
  trieGet :: "bytes \<Rightarrow> bytes \<Rightarrow> bytes option"
  trieHas :: "bytes \<Rightarrow> bytes \<Rightarrow> bool option"
  trieUpdate :: "bytes \<Rightarrow> bytes \<Rightarrow> bytes \<Rightarrow> bytes option"
  trieClean :: "bytes \<Rightarrow> bytes \<Rightarrow> bytes \<Rightarrow> bool"
  trieCommit :: "bytes \<Rightarrow> bool"

record SMTree =
  blkRoot :: bytes
  curRoot :: bytes

definition NewSMTree :: "trie \<Rightarrow> SMTree" where
  "NewSMTree T = \<lparr>blkRoot = trieEmptyRoot T, curRoot = trieEmptyRoot T\<rparr>"

definition smtSetRoot :: "bytes \<Rightarrow> SMTree \<Rightarrow> SMTree" where
  "smtSetRoot r t = t\<lparr>blkRoot := r, curRoot := r\<rparr>"

definition smtGet :: "trie \<Rightarrow> SMTree \<Rightarrow> bytes \<Rightarrow> bytes option" where
  "smtGet T t k = (case trieGet T (curRoot t) k of
      None \<Rightarrow> None
    | Some v \<Rightarrow> if v = [] then None else Some v)"

definition smtHas :: "trie \<Rightarrow> SMTree \<Rightarrow> bytes \<Rightarrow> bool option" where
  "smtHas T t k = trieHas T (curRoot t) k"

definition smtPut :: "trie \<Rightarrow> bytes \<Rightarrow> bytes \<Rightarrow> (SMTree, unit) go" where
  "smtPut T k v =
     bnd (gets curRoot) (\<lambda>cur.
     bnd (orErr ''smt put fail'' (trieUpdate T cur k v)) (\<lambda>newRoot.
     if cur = newRoot then ret () else
     bnd (gets blkRoot) (\<lambda>blk.
     seq (reject (cur \<noteq> blk \<and> \<not> trieClean T k cur blk) ''remove path'')
    (seq (reject (\<not> trieCommit T newRoot) ''commit'')
         (modify (\<lambda>t. t\<lparr>curRoot := newRoot\<rparr>))))))"

text \<open>What the tree documents: an update sets one key and no other.\<close>

definition trie_law :: "trie \<Rightarrow> bool" where
  "trie_law T \<longleftrightarrow> (\<forall>r k v r'. trieUpdate T r k v = Some r' \<longrightarrow>
     trieGet T r' k = Some v \<and> (\<forall>k'. k' \<noteq> k \<longrightarrow> trieGet T r' k' = trieGet T r k'))"

section \<open>Keys are determined by their arguments\<close>

lemma FormatInt_nat: "FormatInt (int n) = dec_digits n"
  by (simp add: FormatInt_def)

lemma key_part_number_no_slash:
  "47 \<notin> set (key_part (KUint n))" "47 \<notin> set (key_part (KInt (int n)))"
  by (simp_all add: FormatUint_def FormatInt_nat dec_digits_no_slash)

text \<open>Cutting at the first delimiter recovers the first part.\<close>

lemma append_slash_inject:
  "47 \<notin> set a \<Longrightarrow> 47 \<notin> set b \<Longrightarrow> a @ (47 :: u8) # x = b @ 47 # y \<longleftrightarrow> a = b \<and> x = y"
proof (induction a arbitrary: b)
  case Nil
  then show ?case by (cases b) auto
next
  case (Cons c a)
  then show ?case by (cases b) auto
qed

lemma append_slash_neq: "47 \<notin> set b \<Longrightarrow> a @ (47 :: u8) # x \<noteq> b"
  by auto

lemma NewKey_numbers_inject:
  "NewKey (map KUint ns) = NewKey (map KUint ms) \<longleftrightarrow> ns = ms \<or> ns = [] \<and> NewKey (map KUint ms) = []"
proof (induction ns arbitrary: ms rule: induct_list012)
  case 1
  then show ?case by auto
next
  case (2 n)
  show ?case
  proof (cases ms rule: list.exhaust)
    case Nil
    then show ?thesis by (simp add: FormatUint_def)
  next
    case (Cons m ms')
    then show ?thesis
      by (cases ms') (auto simp: FormatUint_def KeyDelimiter_def dec_digits_inject
          append_slash_neq [OF dec_digits_no_slash, symmetric])
  qed
next
  case (3 n n' ns)
  show ?case
  proof (cases ms rule: remdups_adj.cases)
    case 1
    then show ?thesis by (simp add: FormatUint_def)
  next
    case (2 m)
    then show ?thesis
      by (simp add: FormatUint_def KeyDelimiter_def append_slash_neq [OF dec_digits_no_slash])
  next
    case (3 m m' ms')
    then show ?thesis
      using "3.IH"(2) [of "m' # ms'"]
      by (auto simp: FormatUint_def KeyDelimiter_def dec_digits_inject
          append_slash_inject dec_digits_no_slash)
  qed
qed

lemma NewKey_first:
  "vs \<noteq> [] \<Longrightarrow> NewKey (KInt (int mt) # vs) = dec_digits mt @ 47 # NewKey vs"
  by (cases vs) (auto simp: KeyDelimiter_def FormatInt_nat)

lemma NewKey_numbers_nonempty: "ns \<noteq> [] \<Longrightarrow> NewKey (map KUint ns) \<noteq> []"
  by (cases ns rule: remdups_adj.cases) (auto simp: FormatUint_def)

lemma skey_inject [simp]: "skey mt ns = skey mt' ns' \<longleftrightarrow> mt = mt' \<and> ns = ns'"
proof (cases "ns = [] \<or> ns' = []")
  case True
  then show ?thesis
    by (cases "ns = []"; cases "ns' = []")
      (auto simp: skey_def NewKey_first FormatInt_nat dec_digits_inject
        append_slash_neq [OF dec_digits_no_slash] append_slash_neq [OF dec_digits_no_slash, symmetric])
next
  case False
  then show ?thesis
    by (auto simp: skey_def NewKey_first append_slash_inject dec_digits_no_slash
        dec_digits_inject NewKey_numbers_inject)
qed

text \<open>Whatever follows it, the leading \<open>MetaType\<close> separates the key spaces.\<close>

lemma NewKey_meta_neq:
  "mt \<noteq> mt' \<Longrightarrow> NewKey (KInt (int mt) # vs) \<noteq> NewKey (KInt (int mt') # ws)"
  by (cases "vs = []"; cases "ws = []")
    (auto simp: NewKey_first FormatInt_nat dec_digits_inject append_slash_inject
      append_slash_neq [OF dec_digits_no_slash] append_slash_neq [OF dec_digits_no_slash, symmetric]
      dec_digits_no_slash)

section \<open>The store interface\<close>

text \<open>
  What the code relies on of \<open>store.Store\<close>: a read after a write or a delete, at the same
  and at any other key.
\<close>

locale kv_store =
  fixes get :: "'m \<Rightarrow> bytes \<Rightarrow> bytes option"
    and put :: "'m \<Rightarrow> bytes \<Rightarrow> bytes \<Rightarrow> 'm"
    and del :: "'m \<Rightarrow> bytes \<Rightarrow> 'm"
  assumes get_put: "get (put m k v) k' = (if k' = k then Some v else get m k')"
    and get_del: "get (del m k) k' = (if k' = k then None else get m k')"
begin

text \<open>The value store is again a store, for values that are never empty.\<close>

lemma wrappedGet_wrappedPut:
  assumes "v \<noteq> []" and "\<forall>old. get m k = Some old \<longrightarrow> length old > 1"
    and "wrappedPut get put k v m = (r, m')"
  shows "r = Inr () \<and> wrappedGet get k m' = Some v"
  using assms
  by (cases "get m k")
    (auto simp: wrappedPut_def wrappedGet_def get_put Suc_le_eq split: if_splits list.splits)

lemma wrappedGet_other:
  assumes "k' \<noteq> k" and "wrappedPut get put k v m = (r, m')"
  shows "wrappedGet get k' m' = wrappedGet get k' m"
  using assms
  by (auto simp: wrappedPut_def wrappedGet_def get_put split: option.splits if_splits list.splits)

lemma wrappedDelete_after_put:
  assumes "get m k = None"
    and "wrappedPut get put k v m = (Inr (), m')"
    and "wrappedDelete get put del k m' = (r, m'')"
  shows "r = Inr () \<and> get m'' = get m"
  using assms by (auto simp: wrappedPut_def wrappedDelete_def get_put get_del fun_eq_iff)

text \<open>The count is one byte: the 256th put of a value brings it back to where it started.\<close>

fun put_times :: "nat \<Rightarrow> bytes \<Rightarrow> bytes \<Rightarrow> 'm \<Rightarrow> 'm" where
  "put_times 0 k v m = m"
| "put_times (Suc n) k v m = put_times n k v (snd (wrappedPut get put k v m))"

lemma put_times_count:
  "get m k = Some (c # v) \<Longrightarrow> v \<noteq> [] \<Longrightarrow> get (put_times n k v m) k = Some ((c + of_nat n) # v)"
  by (induction n arbitrary: m c) (auto simp: wrappedPut_def get_put add.assoc)

end

interpretation dsi: kv_store "\<lambda>d k. d k" ds_put ds_delete
  by unfold_locales (auto simp: ds_put_def ds_delete_def)

interpretation txni: kv_store txn_get txn_put txn_delete
  by unfold_locales (auto simp: txn_get_def txn_put_def txn_delete_def split: option.splits)

text \<open>What a transaction publishes is exactly what it reads, and discarding it changes nothing.\<close>

lemma txn_get_new [simp]: "txn_get (txn_new d) k = d k"
  by (simp add: txn_get_def txn_new_def)

lemma txn_get_put [simp]: "txn_get (txn_put t k v) k' = (if k' = k then Some v else txn_get t k')"
  by (rule txni.get_put)

lemma txn_commit_get [simp]: "txn_commit t k = txn_get t k"
  by (simp add: txn_commit_def)

lemma trie_lawD:
  "trie_law T \<Longrightarrow> trieUpdate T r k v = Some r' \<Longrightarrow>
     trieGet T r' k' = (if k' = k then Some v else trieGet T r k')"
  by (auto simp: trie_law_def)

text \<open>The wrapper around the tree reads what it wrote, on success and on failure.\<close>

lemma smtPut_get:
  assumes "trie_law T" and "smtPut T k v m = (r, m')"
  shows "smtGet T m' k' = (if k' = k \<and> r = Inr () then (if v = [] then None else Some v) else smtGet T m k')"
proof (cases "trieUpdate T (curRoot m) k v")
  case None
  with assms(2) show ?thesis
    by (auto simp: smtPut_def)
next
  case (Some new)
  then have new: "trieGet T new k'' = (if k'' = k then Some v else trieGet T (curRoot m) k'')" for k''
    by (rule trie_lawD [OF assms(1)])
  show ?thesis
  proof (cases "curRoot m = new")
    case True
    with assms(2) Some have "r = Inr ()" and "m' = m"
      by (auto simp: smtPut_def)
    moreover have "k' = k \<Longrightarrow> trieGet T (curRoot m) k = Some v"
      using new [of k] True by simp
    ultimately show ?thesis
      by (simp add: smtGet_def)
  next
    case False
    with assms(2) Some have "(r = Inr () \<and> m' = m\<lparr>curRoot := new\<rparr>) \<or> (r \<noteq> Inr () \<and> m' = m)"
      by (auto simp: smtPut_def seq_def bnd_def reject_def split: if_splits)
    with new [of k'] show ?thesis
      by (auto simp: smtGet_def)
  qed
qed
end
