(* ===== verification/Types.thy ===== *)
theory Types
  imports Store "HOL-Library.AList"
begin

text \<open>
  The data of the chain: the constants of \<open>build\<close>, the structs of \<open>lib/types\<close>, \<open>lib/tx\<close>
  and \<open>lib/pb\<close> that the state manager reads and writes, and their methods.

  Conventions.  A struct is a record whose fields carry a short prefix of the struct's
  name; an embedded struct is a field.  \<open>uint64\<close> and \<open>uint32\<close> are words; an \<open>int64\<close> is a
  word read with \<^const>\<open>sint\<close>; \<open>*big.Int\<close> is \<open>int option\<close> with \<open>None\<close> for nil.  A
  \<open>types.MsgID\<close> is its byte string, with \<open>MsgIDUndef\<close> the empty one.  Third-party hash
  functions and encoders are arguments.
\<close>

section \<open>Constants of the build package\<close>

definition DefaultSegSize :: u64 where "DefaultSegSize = 248 * 1024"
definition SlotDuration :: u64 where "SlotDuration = 30"
definition OrderMin :: int where "OrderMin = 100 * 86400"
definition OrderMax :: int where "OrderMax = 1000 * 86400"
definition Day :: int where "Day = 86400"

text \<open>\<open>time.Date(2021, time.December, 1, 0, 0, 0, 0, time.UTC).Unix()\<close>\<close>

definition BaseTime :: i64 where "BaseTime = 1638316800"

text \<open>
  The package variables that \<open>build/init.go\<close> sets and that the node builder overwrites
  from the configuration.  The two Go maps are association lists, read with \<^const>\<open>map_of\<close>.
\<close>

record build_vars =
  ContractVersion :: u32
  SMTVersion :: u32
  UpdateMap :: "(u32 \<times> u64) list"
  ChalDurMap :: "(u32 \<times> u64) list"

definition build_init :: build_vars where
  "build_init = \<lparr>ContractVersion = 0, SMTVersion = - 1,
     UpdateMap = [(1, 2880), (2, 2880 * 7), (3, 103000)],
     ChalDurMap = [(0, 120), (1, 960), (2, 2880), (3, 2880 * 7)]\<rparr>"

text \<open>\<open>submodule/node/builder.go\<close>: the genesis and contract sections of the configuration.\<close>

definition build_load :: "u32 \<Rightarrow> u64 \<Rightarrow> u32 \<Rightarrow> build_vars \<Rightarrow> build_vars" where
  "build_load smtVer smtHeight contractVer b =
     (let b1 = (if smtVer > 0 \<and> smtHeight > 0
                then b\<lparr>SMTVersion := smtVer,
                       UpdateMap := AList.update smtVer smtHeight (UpdateMap b),
                       ChalDurMap := AList.update smtVer 2880 (ChalDurMap b)\<rparr>
                else b)
      in if contractVer > 0 then b1\<lparr>ContractVersion := contractVer, SMTVersion := 0\<rparr> else b1)"

section \<open>Message identifiers\<close>

type_synonym MsgID = bytes

definition MsgIDUndef :: MsgID where "MsgIDUndef = []"

definition MsgLen :: nat where "MsgLen = 22"

text \<open>
  \<open>mh.Sum\<close> (the third-party multihash) is the argument \<open>mhsum\<close>; an error gives \<open>MsgIDUndef\<close>.
  \<open>mh.Decode\<close> is the argument \<open>dec\<close>: the hash code of a well-formed multihash.
\<close>

definition NewMsgID :: "(bytes \<Rightarrow> bytes option) \<Rightarrow> bytes \<Rightarrow> MsgID" where
  "NewMsgID mhsum data = (case mhsum data of None \<Rightarrow> MsgIDUndef | Some r \<Rightarrow> r)"

definition FromBytes :: "(bytes \<Rightarrow> nat option) \<Rightarrow> bytes \<Rightarrow> MsgID option" where
  "FromBytes dec b = (case dec b of
      None \<Rightarrow> None
    | Some code \<Rightarrow> if code \<noteq> 76 then None else Some b)"

section \<open>Signatures\<close>

definition SigSecp256k1 :: u8 where "SigSecp256k1 = 1"
definition SigBLS :: u8 where "SigBLS = 2"

record Signature =
  sig_Type :: u8
  sig_Data :: bytes

record MultiSignature =
  ms_Type :: u8
  ms_Signer :: "u64 list"
  ms_Data :: bytes

definition NewMultiSignature :: "u8 \<Rightarrow> MultiSignature" where
  "NewMultiSignature t = \<lparr>ms_Type = t, ms_Signer = [], ms_Data = []\<rparr>"

text \<open>\<open>bls.AggregateSignature\<close> is the argument \<open>agg\<close>.\<close>

definition MultiSignature_Add ::
  "(bytes \<Rightarrow> bytes \<Rightarrow> bytes option) \<Rightarrow> MultiSignature \<Rightarrow> u64 \<Rightarrow> Signature \<Rightarrow> err + MultiSignature" where
  "MultiSignature_Add agg ms sid sig =
     (if sig_Type sig \<noteq> ms_Type ms then Inl (Err ''type not equal'')
      else if sid \<in> set (ms_Signer ms) then Inl (Err ''signer exist'')
      else if ms_Type ms = SigBLS then
        (if length (ms_Data ms) = 0
         then Inr (ms\<lparr>ms_Data := sig_Data sig, ms_Signer := ms_Signer ms @ [sid]\<rparr>)
         else (case agg (ms_Data ms) (sig_Data sig) of
                 None \<Rightarrow> Inl (Err ''aggregate'')
               | Some a \<Rightarrow> Inr (ms\<lparr>ms_Data := a, ms_Signer := ms_Signer ms @ [sid]\<rparr>)))
      else Inr (ms\<lparr>ms_Data := ms_Data ms @ sig_Data sig, ms_Signer := ms_Signer ms @ [sid]\<rparr>))"

text \<open>\<open>SanityCheck\<close> walks the signers with a set of those seen.\<close>

fun SanityCheck_loop :: "u64 set \<Rightarrow> u64 list \<Rightarrow> bool" where
  "SanityCheck_loop tmp [] = True"
| "SanityCheck_loop tmp (s # ss) = (if s \<in> tmp then False else SanityCheck_loop (insert s tmp) ss)"

definition SanityCheck :: "MultiSignature \<Rightarrow> bool" where
  "SanityCheck ms = SanityCheck_loop {} (ms_Signer ms)"

definition MultiSignature_Len :: "MultiSignature \<Rightarrow> nat" where
  "MultiSignature_Len ms = length (ms_Signer ms)"

section \<open>Roles\<close>

definition RoleInfo_User :: nat where "RoleInfo_User = 1"
definition RoleInfo_Provider :: nat where "RoleInfo_Provider = 2"
definition RoleInfo_Keeper :: nat where "RoleInfo_Keeper = 3"

record RoleInfo =
  ri_Type :: nat
  ri_RoleID :: u64
  ri_GroupID :: u64
  ri_ChainVerifyKey :: bytes
  ri_BlsVerifyKey :: bytes
  ri_Extra :: bytes
  ri_Desc :: bytes
  ri_State :: bytes

section \<open>Orders\<close>

record NonceSeq =
  ns_Nonce :: u64
  ns_SeqNum :: u32
  ns_SubNonce :: u64

record OrderBase =
  ob_UserID :: u64
  ob_ProID :: u64
  ob_Nonce :: u64
  ob_Start :: i64
  ob_End :: i64
  ob_TokenIndex :: u32
  ob_SegPrice :: "int option"
  ob_PiecePrice :: "int option"

record SignedOrder =
  so_OrderBase :: OrderBase
  so_Size :: u64
  so_Price :: "int option"
  so_Usign :: Signature
  so_Psign :: Signature

record AggSegs =
  as_BucketID :: u64
  as_Start :: u64
  as_Length :: u64
  as_ChunkID :: u32

record OrderSeq =
  os_UserID :: u64
  os_ProID :: u64
  os_Nonce :: u64
  os_SeqNum :: u32
  os_Size :: u64
  os_Price :: "int option"
  os_Segments :: "AggSegs list"

record SignedOrderSeq =
  sos_OrderSeq :: OrderSeq
  sos_UserDataSig :: Signature
  sos_ProDataSig :: Signature
  sos_UserSig :: Signature
  sos_ProSig :: Signature

record OrderDelPart =
  dp_AccFr :: bytes
  dp_Size :: u64
  dp_Price :: "int option"

record OrderFull =
  of_SignedOrder :: SignedOrder
  of_SeqNum :: u32
  of_AccFr :: bytes
  of_DelPart :: OrderDelPart

record SeqFull =
  sf_OrderSeq :: OrderSeq
  sf_AccFr :: bytes
  sf_DelPart :: OrderDelPart
  sf_DelSegs :: "AggSegs list"

text \<open>\<open>utils.LeftPadBytes\<close>\<close>

definition LeftPadBytes :: "bytes \<Rightarrow> nat \<Rightarrow> bytes" where
  "LeftPadBytes b l = (if l \<le> length b then b else replicate (l - length b) 0 @ b)"

text \<open>
  \<open>SignedOrder.Hash\<close>: the settlement-chain hash.  The bytes written to the Keccak state,
  then the hash (the argument \<open>keccak\<close>).  A nil price panics in \<open>Price.Bytes\<close>.
\<close>

definition tokenIndexBytes :: "build_vars \<Rightarrow> u32 \<Rightarrow> bytes" where
  "tokenIndexBytes B ti = (if ContractVersion B \<noteq> 0 then [ucast ti] else PutUint32 ti)"

definition SignedOrder_preimage :: "build_vars \<Rightarrow> OrderBase \<Rightarrow> u64 \<Rightarrow> int \<Rightarrow> bytes" where
  "SignedOrder_preimage B ob sz price =
     PutUint64 (ob_UserID ob) @ PutUint64 (ob_ProID ob) @ PutUint64 (ob_Nonce ob) @
     PutUint64 (ob_Start ob) @ PutUint64 (ob_End ob) @ PutUint64 sz @
     tokenIndexBytes B (ob_TokenIndex ob) @ LeftPadBytes (bigBytes price) 32"

definition SignedOrder_Hash ::
  "(bytes \<Rightarrow> bytes) \<Rightarrow> build_vars \<Rightarrow> SignedOrder \<Rightarrow> ('s, bytes) go" where
  "SignedOrder_Hash keccak B so =
     bnd (deref ''nil Price'' (so_Price so)) (\<lambda>p.
     ret (keccak (SignedOrder_preimage B (so_OrderBase so) (so_Size so) p)))"

text \<open>\<open>OrderDuration.Add\<close>\<close>

record OrderDuration =
  od_Start :: "i64 list"
  od_End :: "i64 list"

definition OrderDuration_Add :: "OrderDuration \<Rightarrow> i64 \<Rightarrow> i64 \<Rightarrow> err + OrderDuration" where
  "OrderDuration_Add od start end' =
     (if sint start \<ge> sint end' then Inl (Err ''start is later than end'')
      else if od_Start od \<noteq> [] \<and> sint (last (od_Start od)) > sint start
      then Inl (Err ''start is later than previous'')
      else if od_Start od \<noteq> [] \<and> sint (last (od_End od)) > sint end'
      then Inl (Err ''end is early than previous'')
      else Inr (od\<lparr>od_Start := od_Start od @ [start], od_End := od_End od @ [end']\<rparr>))"

text \<open>
  \<open>lib.CheckOrder\<close>.  Go's \<open>%\<close> truncates, but its result is zero exactly when \<open>mod\<close>'s is.
\<close>

definition CheckOrder :: "OrderBase \<Rightarrow> ('s, unit) go" where
  "CheckOrder ob =
     seq (reject (ob_SegPrice ob = None) ''empty seg price'')
    (seq (reject (ob_PiecePrice ob = None) ''empty piece price'')
    (seq (reject (sint (ob_Start ob) \<le> sint BaseTime \<or> sint (ob_End ob) \<le> sint BaseTime)
            ''order start/end should greater than base time'')
    (seq (reject (sint (ob_End ob - ob_Start ob) > OrderMax) ''order duration is greater than max'')
         (reject (sint (ob_End ob) mod Day \<noteq> 0) ''order end is not aligned''))))"

section \<open>Challenge epochs and incomes\<close>

record ChalEpoch =
  ce_Epoch :: u64
  ce_Slot :: u64
  ce_Seed :: MsgID

record PostIncome =
  pi_UserID :: u64
  pi_ProID :: u64
  pi_TokenIndex :: u32
  pi_Value :: "int option"
  pi_Penalty :: "int option"

record AccPostIncome =
  api_ProID :: u64
  api_TokenIndex :: u32
  api_Value :: "int option"
  api_Penalty :: "int option"

record SignedAccPostIncome =
  sapi_AccPostIncome :: AccPostIncome
  sapi_Sig :: MultiSignature

definition AccPostIncome_Hash ::
  "(bytes \<Rightarrow> bytes) \<Rightarrow> build_vars \<Rightarrow> AccPostIncome \<Rightarrow> ('s, bytes) go" where
  "AccPostIncome_Hash keccak B api =
     bnd (deref ''nil Value'' (api_Value api)) (\<lambda>v.
     bnd (deref ''nil Penalty'' (api_Penalty api)) (\<lambda>p.
     ret (keccak (PutUint64 (api_ProID api) @ tokenIndexBytes B (api_TokenIndex api) @
                  LeftPadBytes (bigBytes v) 32 @ LeftPadBytes (bigBytes p) 32))))"

record AggStripe =
  ags_Order :: u64
  ags_ProID :: u64
  ags_Start :: u64
  ags_Length :: u64

section \<open>Messages and blocks (\<open>lib/tx\<close>)\<close>

definition AddRole :: u32 where "AddRole = 1"
definition UpdateNet :: u32 where "UpdateNet = 2"
definition UpdateChalEpoch :: u32 where "UpdateChalEpoch = 11"
definition ConfirmPostIncome :: u32 where "ConfirmPostIncome = 12"
definition CreateFs :: u32 where "CreateFs = 21"
definition CreateBucket :: u32 where "CreateBucket = 22"
definition PreDataOrder :: u32 where "PreDataOrder = 23"
definition AddDataOrder :: u32 where "AddDataOrder = 24"
definition CommitDataOrder :: u32 where "CommitDataOrder = 25"
definition AddBucMeta :: u32 where "AddBucMeta = 26"
definition AddObjMeta :: u32 where "AddObjMeta = 27"
definition SegmentProof :: u32 where "SegmentProof = 31"
definition SegmentFault :: u32 where "SegmentFault = 32"
definition SubDataOrder :: u32 where "SubDataOrder = 33"

lemmas method_defs = AddRole_def UpdateNet_def UpdateChalEpoch_def ConfirmPostIncome_def
  CreateFs_def CreateBucket_def PreDataOrder_def AddDataOrder_def CommitDataOrder_def
  AddBucMeta_def AddObjMeta_def SegmentProof_def SegmentFault_def SubDataOrder_def

record Message =
  msg_Version :: u32
  msg_From :: u64
  msg_To :: u64
  msg_Nonce :: u64
  msg_Value :: "int option"
  msg_GasLimit :: u64
  msg_GasPrice :: "int option"
  msg_Method :: u32
  msg_Params :: bytes

record SignedMessage =
  sm_Message :: Message
  sm_Signature :: Signature

record Receipt =
  rcpt_Err :: "16 word"
  rcpt_Extra :: bytes

record RawHeader =
  rh_Version :: u32
  rh_GroupID :: u64
  rh_Height :: u64
  rh_Slot :: u64
  rh_MinerID :: u64
  rh_PrevID :: MsgID

record MsgSet =
  mset_Msgs :: "SignedMessage list"
  mset_Receipts :: "Receipt list"
  mset_ParentRoot :: MsgID
  mset_Root :: MsgID

record RawBlock =
  rb_RawHeader :: RawHeader
  rb_MsgSet :: MsgSet

record SignedBlock =
  sb_RawBlock :: RawBlock
  sb_MultiSignature :: MultiSignature

abbreviation blk_header :: "SignedBlock \<Rightarrow> RawHeader" where
  "blk_header b \<equiv> rb_RawHeader (sb_RawBlock b)"

abbreviation blk_msgset :: "SignedBlock \<Rightarrow> MsgSet" where
  "blk_msgset b \<equiv> rb_MsgSet (sb_RawBlock b)"

subsection \<open>Message parameters\<close>

record BucketOption =
  bo_Version :: u32
  bo_Policy :: u32
  bo_DataCount :: u32
  bo_ParityCount :: u32
  bo_TagFlag :: u32
  bo_SegSize :: u32

record BucketParams =
  bp_BucketOption :: BucketOption
  bp_BucketID :: u64

record SignedEpochParams =
  sep_Epoch :: u64
  sep_Prev :: MsgID
  sep_Sig :: MultiSignature

record SegChalParams =
  scp_UserID :: u64
  scp_ProID :: u64
  scp_Epoch :: u64
  scp_OrderStart :: u64
  scp_OrderEnd :: u64
  scp_Size :: u64
  scp_Price :: "int option"
  scp_Proof :: bytes

record PostIncomeParams =
  pip_Epoch :: u64
  pip_Income :: AccPostIncome
  pip_Sig :: Signature

record SegRemoveParas =
  srp_UserID :: u64
  srp_ProID :: u64
  srp_Nonce :: u64
  srp_SeqNum :: u32
  srp_Segments :: "AggSegs list"

record OrderCommitParas =
  ocp_UserID :: u64
  ocp_ProID :: u64
  ocp_Nonce :: u64
  ocp_SeqNum :: u32

record OrderSubParas =
  osp_UserID :: u64
  osp_ProID :: u64
  osp_Nonce :: u64

record BucMetaParas =
  bmp_BucketID :: u64
  bmp_Name :: bytes
  bmp_NEncrypt :: bytes

record ObjMetaKey =
  omk_UserID :: u64
  omk_BucketID :: u64
  omk_ObjectID :: u64

record ObjMetaValue =
  omv_Offset :: u64
  omv_Length :: u64
  omv_ETag :: bytes
  omv_Encrypt :: bytes
  omv_Name :: bytes
  omv_NEncrypt :: bytes
  omv_Extra :: bytes

record ObjMetaParas =
  omp_ObjMetaValue :: ObjMetaValue
  omp_BucketID :: u64
  omp_ObjectID :: u64

section \<open>Multi-signatures\<close>

lemma MultiSignature_Add_Inr:
  "MultiSignature_Add agg ms sid sig = Inr ms' \<Longrightarrow>
     ms_Signer ms' = ms_Signer ms @ [sid] \<and> sid \<notin> set (ms_Signer ms) \<and>
     ms_Type ms' = ms_Type ms \<and> sig_Type sig = ms_Type ms"
  by (auto simp: MultiSignature_Add_def split: if_splits option.splits)

lemma SanityCheck_loop_iff: "SanityCheck_loop tmp ss \<longleftrightarrow> distinct ss \<and> set ss \<inter> tmp = {}"
  by (induction ss arbitrary: tmp) auto

lemma SanityCheck_distinct: "SanityCheck ms \<longleftrightarrow> distinct (ms_Signer ms)"
  by (simp add: SanityCheck_def SanityCheck_loop_iff)

lemma SanityCheck_New: "SanityCheck (NewMultiSignature t)"
  by (simp add: SanityCheck_distinct NewMultiSignature_def)

lemma SanityCheck_Add:
  "SanityCheck ms \<Longrightarrow> MultiSignature_Add agg ms sid sig = Inr ms' \<Longrightarrow> SanityCheck ms'"
  using MultiSignature_Add_Inr [of agg ms sid sig ms'] by (auto simp: SanityCheck_distinct)

section \<open>Orders\<close>

lemma length_LeftPadBytes: "length (LeftPadBytes b l) = max l (length b)"
  by (simp add: LeftPadBytes_def)

lemma CheckOrder_Inr:
  "CheckOrder ob s = (Inr u, t) \<longleftrightarrow>
     t = s \<and> ob_SegPrice ob \<noteq> None \<and> ob_PiecePrice ob \<noteq> None \<and>
     sint BaseTime < sint (ob_Start ob) \<and> sint BaseTime < sint (ob_End ob) \<and>
     sint (ob_End ob - ob_Start ob) \<le> OrderMax \<and> sint (ob_End ob) mod Day = 0"
  by (auto simp: CheckOrder_def go_simps)

lemma keeps_CheckOrder [keeps_rules]: "keeps P (CheckOrder ob)"
  by (simp add: CheckOrder_def keeps_seq keeps_reject)

lemma keeps_SignedOrder_Hash [keeps_rules]: "keeps P (SignedOrder_Hash k B so)"
  by (simp add: SignedOrder_Hash_def keeps_bnd keeps_deref keeps_ret)

lemma keeps_AccPostIncome_Hash [keeps_rules]: "keeps P (AccPostIncome_Hash k B api)"
  by (simp add: AccPostIncome_Hash_def keeps_bnd keeps_deref keeps_ret)

text \<open>The difference of two positive 64-bit integers does not wrap.\<close>

lemma sint_diff_pos:
  fixes a b :: i64
  assumes "0 \<le> sint a" and "0 \<le> sint b"
  shows "sint (a - b) = sint a - sint b"
proof -
  have "sint a < 2 ^ 63" and "sint b < 2 ^ 63"
    using sint_lt [of a] sint_lt [of b] by simp_all
  with assms have "signed_take_bit 63 (sint a - sint b) = sint a - sint b"
    by (intro signed_take_bit_int_eq_self) auto
  then show ?thesis
    by (simp add: sint_word_ariths)
qed

lemma BaseTime_pos: "0 < sint BaseTime"
  by (simp add: BaseTime_def)

end
