(* ===== verification/SegQueue.thy ===== *)
theory SegQueue
  imports Types
begin

text \<open>
  The run-length queues of \<open>lib/types/segment.go\<close>: \<open>SegJobsQueue\<close>, \<open>AggSegsQueue\<close> and
  \<open>StripeQueue\<close>.  Each element stands for the stripes \<open>Start, ..., Start+Length-1\<close>;
  \<open>Push\<close> and \<open>Merge\<close> fuse adjacent runs, \<open>Has\<close> scans a sorted queue with early exits.

  \<open>sort.Sort\<close> does not promise stability, so \<open>Merge\<close> takes the sorting function as an
  argument; \<open>go_sort\<close> is what \<open>sort.Sort\<close> documents: a permutation in which no later
  element is \<open>Less\<close> than an earlier one.

  The three types share one contract, the locale \<open>run_queue\<close>: under it pushing and merging
  neither lose nor invent a covered stripe.  It is interpreted on all three.
\<close>

section \<open>Aggregated segments\<close>

definition AggSegs_Less :: "AggSegs \<Rightarrow> AggSegs \<Rightarrow> bool" where
  "AggSegs_Less x y =
     (if as_BucketID x \<noteq> as_BucketID y then as_BucketID x < as_BucketID y
      else as_Start x < as_Start y)"

definition AggSegs_Size :: "AggSegs list \<Rightarrow> int" where
  "AggSegs_Size q = (\<Sum>as\<leftarrow>q. uint (as_Length as))"

fun AggSegs_Has :: "AggSegs list \<Rightarrow> u64 \<Rightarrow> u64 \<Rightarrow> u32 \<Rightarrow> bool" where
  "AggSegs_Has [] b i c = False"
| "AggSegs_Has (as # q) b i c =
     (if as_BucketID as > b then False
      else if as_BucketID as = b then
        (if as_Start as > i then False
         else if as_Start as \<le> i \<and> as_Start as + as_Length as > i \<and> as_ChunkID as = c then True
         else AggSegs_Has q b i c)
      else AggSegs_Has q b i c)"

definition AggSegs_Equal :: "AggSegs list \<Rightarrow> AggSegs list \<Rightarrow> bool" where
  "AggSegs_Equal p q = list_all2 (\<lambda>x y. as_BucketID x = as_BucketID y \<and>
     as_Start x = as_Start y \<and> as_Length x = as_Length y) p q"

definition AggSegs_Push :: "AggSegs list \<Rightarrow> AggSegs \<Rightarrow> AggSegs list" where
  "AggSegs_Push q s =
     (if q = [] then [s]
      else let l = last q in
        if as_BucketID l = as_BucketID s \<and> as_Start l + as_Length l = as_Start s
        then butlast q @ [l\<lparr>as_Length := as_Length l + as_Length s\<rparr>]
        else q @ [s])"

text \<open>
  The two loops of \<open>Merge\<close>: fuse each run into its first element (the absorbed elements get
  length zero), then drop the elements of length zero.
\<close>

fun AggSegs_runs :: "AggSegs \<Rightarrow> AggSegs list \<Rightarrow> AggSegs list" where
  "AggSegs_runs x [] = [x]"
| "AggSegs_runs x (y # ys) =
     (if as_BucketID x = as_BucketID y \<and> as_Start x + as_Length x = as_Start y
      then AggSegs_runs (x\<lparr>as_Length := as_Length x + as_Length y\<rparr>) ys
      else x # AggSegs_runs y ys)"

definition AggSegs_Merge :: "(AggSegs list \<Rightarrow> AggSegs list) \<Rightarrow> AggSegs list \<Rightarrow> AggSegs list" where
  "AggSegs_Merge srt q = (case srt q of [] \<Rightarrow> []
     | x # xs \<Rightarrow> filter (\<lambda>as. as_Length as \<noteq> 0) (AggSegs_runs x xs))"

section \<open>Segment jobs\<close>

record SegJob =
  sj_JobID :: u64
  sj_BucketID :: u64
  sj_Start :: u64
  sj_Length :: u64
  sj_ChunkID :: u32

definition SegJob_Less :: "SegJob \<Rightarrow> SegJob \<Rightarrow> bool" where
  "SegJob_Less x y =
     (if sj_BucketID x \<noteq> sj_BucketID y then sj_BucketID x < sj_BucketID y
      else if sj_JobID x \<noteq> sj_JobID y then sj_JobID x < sj_JobID y
      else sj_Start x < sj_Start y)"

fun SegJobs_Has :: "SegJob list \<Rightarrow> u64 \<Rightarrow> u64 \<Rightarrow> u64 \<Rightarrow> u32 \<Rightarrow> bool" where
  "SegJobs_Has [] b j i c = False"
| "SegJobs_Has (as # q) b j i c =
     (if sj_BucketID as < b then SegJobs_Has q b j i c
      else if sj_BucketID as > b then False
      else if sj_JobID as < j then SegJobs_Has q b j i c
      else if sj_JobID as > j then False
      else if sj_Start as > i then False
      else if sj_Start as \<le> i \<and> sj_Start as + sj_Length as > i \<and> sj_ChunkID as = c then True
      else SegJobs_Has q b j i c)"

definition SegJobs_Equal :: "SegJob list \<Rightarrow> SegJob list \<Rightarrow> bool" where
  "SegJobs_Equal p q = list_all2 (\<lambda>x y. sj_BucketID x = sj_BucketID y \<and>
     sj_JobID x = sj_JobID y \<and> sj_Start x = sj_Start y \<and> sj_Length x = sj_Length y) p q"

definition SegJobs_Push :: "SegJob list \<Rightarrow> SegJob \<Rightarrow> SegJob list" where
  "SegJobs_Push q s =
     (if q = [] then [s]
      else let l = last q in
        if sj_BucketID l = sj_BucketID s \<and> sj_JobID l = sj_JobID s \<and>
           sj_Start l + sj_Length l = sj_Start s
        then butlast q @ [l\<lparr>sj_Length := sj_Length l + sj_Length s\<rparr>]
        else q @ [s])"

fun SegJobs_runs :: "SegJob \<Rightarrow> SegJob list \<Rightarrow> SegJob list" where
  "SegJobs_runs x [] = [x]"
| "SegJobs_runs x (y # ys) =
     (if sj_BucketID x = sj_BucketID y \<and> sj_JobID x = sj_JobID y \<and>
         sj_Start x + sj_Length x = sj_Start y
      then SegJobs_runs (x\<lparr>sj_Length := sj_Length x + sj_Length y\<rparr>) ys
      else x # SegJobs_runs y ys)"

definition SegJobs_Merge :: "(SegJob list \<Rightarrow> SegJob list) \<Rightarrow> SegJob list \<Rightarrow> SegJob list" where
  "SegJobs_Merge srt q = (case srt q of [] \<Rightarrow> []
     | x # xs \<Rightarrow> filter (\<lambda>as. sj_Length as \<noteq> 0) (SegJobs_runs x xs))"

section \<open>Stripes of a provider\<close>

record Stripe =
  st_ChunkID :: u32
  st_Start :: u64
  st_Length :: u64

definition Stripe_Less :: "Stripe \<Rightarrow> Stripe \<Rightarrow> bool" where
  "Stripe_Less x y = (st_Start x < st_Start y)"

fun Stripe_Has :: "Stripe list \<Rightarrow> u64 \<Rightarrow> u32 \<Rightarrow> bool" where
  "Stripe_Has [] i c = False"
| "Stripe_Has (as # q) i c =
     (if st_Start as > i then False
      else if st_Start as \<le> i \<and> st_Start as + st_Length as > i \<and> st_ChunkID as = c then True
      else Stripe_Has q i c)"

fun Stripe_GetChunkID :: "Stripe list \<Rightarrow> u64 \<Rightarrow> u32 option" where
  "Stripe_GetChunkID [] i = None"
| "Stripe_GetChunkID (as # q) i =
     (if st_Start as > i then None
      else if st_Start as \<le> i \<and> st_Start as + st_Length as > i then Some (st_ChunkID as)
      else Stripe_GetChunkID q i)"

definition Stripe_Equal :: "Stripe list \<Rightarrow> Stripe list \<Rightarrow> bool" where
  "Stripe_Equal p q = list_all2 (\<lambda>x y. st_ChunkID x = st_ChunkID y \<and>
     st_Start x = st_Start y \<and> st_Length x = st_Length y) p q"

definition Stripe_Push :: "Stripe list \<Rightarrow> Stripe \<Rightarrow> Stripe list" where
  "Stripe_Push q s =
     (if q = [] then [s]
      else let l = last q in
        if st_ChunkID l = st_ChunkID s \<and> st_Start l + st_Length l = st_Start s
        then butlast q @ [l\<lparr>st_Length := st_Length l + st_Length s\<rparr>]
        else q @ [s])"

fun Stripe_runs :: "Stripe \<Rightarrow> Stripe list \<Rightarrow> Stripe list" where
  "Stripe_runs x [] = [x]"
| "Stripe_runs x (y # ys) =
     (if st_ChunkID x = st_ChunkID y \<and> st_Start x + st_Length x = st_Start y
      then Stripe_runs (x\<lparr>st_Length := st_Length x + st_Length y\<rparr>) ys
      else x # Stripe_runs y ys)"

definition Stripe_Merge :: "(Stripe list \<Rightarrow> Stripe list) \<Rightarrow> Stripe list \<Rightarrow> Stripe list" where
  "Stripe_Merge srt q = (case srt q of [] \<Rightarrow> []
     | x # xs \<Rightarrow> filter (\<lambda>as. st_Length as \<noteq> 0) (Stripe_runs x xs))"

section \<open>What sorting promises\<close>

definition go_sort :: "('a \<Rightarrow> 'a \<Rightarrow> bool) \<Rightarrow> ('a list \<Rightarrow> 'a list) \<Rightarrow> bool" where
  "go_sort lt srt \<longleftrightarrow>
     (\<forall>q. set (srt q) = set q \<and> length (srt q) = length q \<and>
          sorted_wrt (\<lambda>x y. \<not> lt y x) (srt q))"

section \<open>The contract of a run-length queue\<close>

text \<open>
  \<open>grp\<close> is what \<open>Push\<close> and \<open>Merge\<close> compare besides adjacency: the bucket, the bucket and
  job, or the chunk.  A run is well formed when its end does not wrap around.
\<close>

locale run_queue =
  fixes grp :: "'a \<Rightarrow> 'g"
    and start :: "'a \<Rightarrow> u64"
    and len :: "'a \<Rightarrow> u64"
    and setlen :: "u64 \<Rightarrow> 'a \<Rightarrow> 'a"
    and push :: "'a list \<Rightarrow> 'a \<Rightarrow> 'a list"
    and runs :: "'a \<Rightarrow> 'a list \<Rightarrow> 'a list"
    and merge :: "('a list \<Rightarrow> 'a list) \<Rightarrow> 'a list \<Rightarrow> 'a list"
  assumes setlen_simps [simp]: "len (setlen n x) = n" "start (setlen n x) = start x"
      "grp (setlen n x) = grp x"
    and push_Nil: "push [] s = [s]"
    and push_snoc: "push (q @ [l]) s =
      (if grp l = grp s \<and> start l + len l = start s
       then q @ [setlen (len l + len s) l] else q @ [l, s])"
    and runs_Nil: "runs x [] = [x]"
    and runs_Cons: "runs x (y # ys) =
      (if grp x = grp y \<and> start x + len x = start y
       then runs (setlen (len x + len y) x) ys else x # runs y ys)"
    and merge_eq: "merge srt q = (case srt q of [] \<Rightarrow> []
      | x # xs \<Rightarrow> filter (\<lambda>as. len as \<noteq> 0) (runs x xs))"
begin

definition wf_run :: "'a \<Rightarrow> bool" where
  "wf_run x \<longleftrightarrow> unat (start x) + unat (len x) < 2 ^ 64"

definition cover1 :: "'a \<Rightarrow> ('g \<times> nat) set" where
  "cover1 x = {grp x} \<times> {unat (start x)..<unat (start x) + unat (len x)}"

definition cover :: "'a list \<Rightarrow> ('g \<times> nat) set" where
  "cover q = (\<Union>x\<in>set q. cover1 x)"

definition total :: "'a list \<Rightarrow> nat" where
  "total q = (\<Sum>x\<leftarrow>q. unat (len x))"

lemma cover_simps [simp]:
  "cover [] = {}" "cover (x # q) = cover1 x \<union> cover q" "cover (p @ q) = cover p \<union> cover q"
  by (auto simp: cover_def)

lemma total_simps [simp]:
  "total [] = 0" "total (x # q) = unat (len x) + total q" "total (p @ q) = total p + total q"
  by (auto simp: total_def)

lemma unat_end: "wf_run x \<Longrightarrow> unat (start x + len x) = unat (start x) + unat (len x)"
  by (simp add: wf_run_def unat_word_ariths)

lemma fuse:
  assumes "wf_run l" and "wf_run s" and "start l + len l = start s"
  shows "unat (len l + len s) = unat (len l) + unat (len s)"
    and "wf_run (setlen (len l + len s) l)"
    and "unat (start s) = unat (start l) + unat (len l)"
proof -
  show eq: "unat (start s) = unat (start l) + unat (len l)"
    using unat_end [OF assms(1)] assms(3) by simp
  with assms(2) have "unat (len l) + unat (len s) < 2 ^ 64"
    by (simp add: wf_run_def)
  then show sum: "unat (len l + len s) = unat (len l) + unat (len s)"
    by (simp add: unat_word_ariths)
  show "wf_run (setlen (len l + len s) l)"
    using assms(2) eq sum by (simp add: wf_run_def)
qed

lemma fuse_cover:
  assumes "wf_run l" and "wf_run s" and "grp l = grp s" and "start l + len l = start s"
  shows "cover1 (setlen (len l + len s) l) = cover1 l \<union> cover1 s"
  using fuse [OF assms(1,2,4)] assms(3) by (auto simp: cover1_def)

lemma push_correct:
  assumes "\<forall>x\<in>set q. wf_run x" and "wf_run s"
  shows "cover (push q s) = cover q \<union> cover1 s"
    and "total (push q s) = total q + unat (len s)"
    and "\<forall>x\<in>set (push q s). wf_run x"
  using assms
  by (induction q rule: rev_induct)
    (auto simp: push_Nil push_snoc fuse_cover fuse)

lemma runs_correct:
  assumes "wf_run x" and "\<forall>y\<in>set ys. wf_run y"
  shows "cover (runs x ys) = cover1 x \<union> cover ys \<and> total (runs x ys) = unat (len x) + total ys \<and>
    (\<forall>y\<in>set (runs x ys). wf_run y)"
  using assms
proof (induction ys arbitrary: x)
  case Nil
  then show ?case by (simp add: runs_Nil)
next
  case (Cons y ys)
  show ?case
  proof (cases "grp x = grp y \<and> start x + len x = start y")
    case True
    with Cons.prems have wf: "wf_run (setlen (len x + len y) x)"
      and cov: "cover1 (setlen (len x + len y) x) = cover1 x \<union> cover1 y"
      and sum: "unat (len x + len y) = unat (len x) + unat (len y)"
      by (auto simp: fuse fuse_cover)
    from True Cons.IH [OF wf] Cons.prems show ?thesis
      by (auto simp: runs_Cons cov sum)
  next
    case False
    with Cons.IH [of y] Cons.prems show ?thesis
      by (auto simp: runs_Cons)
  qed
qed

lemma cover_filter: "cover (filter (\<lambda>x. len x \<noteq> 0) q) = cover q"
  by (induction q) (auto simp: cover1_def)

lemma total_filter: "total (filter (\<lambda>x. len x \<noteq> 0) q) = total q"
  by (induction q) auto

lemma cover_set_cong: "set p = set q \<Longrightarrow> cover p = cover q"
  by (simp add: cover_def)

lemma merge_cover:
  assumes "go_sort lt srt" and "\<forall>x\<in>set q. wf_run x"
  shows "cover (merge srt q) = cover q"
proof -
  have set_eq: "set (srt q) = set q"
    using assms(1) by (simp add: go_sort_def)
  show ?thesis
  proof (cases "srt q")
    case Nil
    with set_eq show ?thesis by (simp add: merge_eq)
  next
    case (Cons x xs)
    with set_eq assms(2) have "wf_run x" and "\<forall>y\<in>set xs. wf_run y"
      by (metis list.set_intros)+
    with Cons runs_correct [of x xs] have "cover (merge srt q) = cover (srt q)"
      by (simp add: merge_eq cover_filter)
    then show ?thesis using cover_set_cong [OF set_eq] by simp
  qed
qed

lemma merge_no_empty: "x \<in> set (merge srt q) \<Longrightarrow> len x \<noteq> 0"
  by (auto simp: merge_eq split: list.splits)

end

interpretation agg: run_queue as_BucketID as_Start as_Length "\<lambda>n x. x\<lparr>as_Length := n\<rparr>"
  AggSegs_Push AggSegs_runs AggSegs_Merge
  by unfold_locales (simp_all add: AggSegs_Push_def AggSegs_Merge_def Let_def)

interpretation jobs: run_queue "\<lambda>x. (sj_BucketID x, sj_JobID x)" sj_Start sj_Length
  "\<lambda>n x. x\<lparr>sj_Length := n\<rparr>" SegJobs_Push SegJobs_runs SegJobs_Merge
  by unfold_locales (simp_all add: SegJobs_Push_def SegJobs_Merge_def Let_def)

interpretation stripes: run_queue st_ChunkID st_Start st_Length "\<lambda>n x. x\<lparr>st_Length := n\<rparr>"
  Stripe_Push Stripe_runs Stripe_Merge
  by unfold_locales (simp_all add: Stripe_Push_def Stripe_Merge_def Let_def)

section \<open>Scanning a sorted queue\<close>

text \<open>
  The scans stop at the first element that lies beyond the wanted one; in a sorted queue no
  later element can then cover it.
\<close>

lemma AggSegs_not_Less:
  "\<not> AggSegs_Less y x \<Longrightarrow>
     as_BucketID x \<le> as_BucketID y \<and> (as_BucketID y = as_BucketID x \<longrightarrow> as_Start x \<le> as_Start y)"
  by (simp add: AggSegs_Less_def not_less split: if_splits)

lemma AggSegs_Has_sorted:
  "sorted_wrt (\<lambda>x y. \<not> AggSegs_Less y x) q \<Longrightarrow>
   AggSegs_Has q b i c \<longleftrightarrow>
     (\<exists>x\<in>set q. as_BucketID x = b \<and> as_Start x \<le> i \<and> i < as_Start x + as_Length x \<and> as_ChunkID x = c)"
proof (induction q)
  case Nil
  then show ?case by simp
next
  case (Cons x q)
  have later: "as_BucketID x \<le> as_BucketID y"
    "as_BucketID y = as_BucketID x \<Longrightarrow> as_Start x \<le> as_Start y" if "y \<in> set q" for y
    using Cons.prems that AggSegs_not_Less by auto
  consider "as_BucketID x > b" | "as_BucketID x = b" "as_Start x > i"
    | "as_BucketID x = b" "as_Start x \<le> i" | "as_BucketID x < b"
    by fastforce
  then show ?case
  proof cases
    case 1
    with later(1) have "as_BucketID y \<noteq> b" if "y \<in> set q" for y
      using that by (metis leD)
    with 1 show ?thesis by auto
  next
    case 2
    with later have "as_BucketID y = b \<Longrightarrow> \<not> as_Start y \<le> i" if "y \<in> set q" for y
      using that by (metis leD order_trans)
    with 2 show ?thesis by auto
  next
    case 3
    with Cons show ?thesis by auto
  next
    case 4
    with Cons show ?thesis by auto
  qed
qed

lemma Stripe_Has_sorted:
  "sorted_wrt (\<lambda>x y. \<not> Stripe_Less y x) q \<Longrightarrow>
   Stripe_Has q i c \<longleftrightarrow>
     (\<exists>x\<in>set q. st_Start x \<le> i \<and> i < st_Start x + st_Length x \<and> st_ChunkID x = c)"
proof (induction q)
  case Nil
  then show ?case by simp
next
  case (Cons x q)
  have later: "st_Start x \<le> st_Start y" if "y \<in> set q" for y
    using Cons.prems that by (simp add: Stripe_Less_def not_less)
  show ?case
  proof (cases "st_Start x > i")
    case True
    with later have "\<not> st_Start y \<le> i" if "y \<in> set q" for y
      using that by (metis leD order_trans)
    with True show ?thesis by auto
  next
    case False
    with Cons show ?thesis by auto
  qed
qed

end
