(* ===== verification/Segment.thy ===== *)
theory Segment
  imports Prelude
begin

text \<open>
  Segments of \<open>lib/segment\<close>: the 40-byte identifier of \<open>id.go\<close> (file system, bucket,
  stripe, chunk), the 24-byte prefix and the tagged content of \<open>content.go\<close>, and the file
  name of \<open>store.go\<close>.  Identifiers and prefixes are fixed layouts of big-endian fields;
  the lemmas are their round trips.
\<close>

section \<open>Identifiers\<close>

definition FSID_LEN :: nat where "FSID_LEN = 20"
definition SEGMENTID_LEN :: nat where "SEGMENTID_LEN = 40"

text \<open>\<open>copy(dst[:n], src)\<close> into a fresh slice of \<open>n\<close> zero bytes.\<close>

definition copy_into :: "nat \<Rightarrow> bytes \<Rightarrow> bytes" where
  "copy_into n src = take n src @ replicate (n - length src) 0"

definition CreateSegmentID :: "bytes \<Rightarrow> u64 \<Rightarrow> u64 \<Rightarrow> u32 \<Rightarrow> bytes" where
  "CreateSegmentID fid bid sid cid =
     copy_into FSID_LEN fid @ PutUint64 bid @ PutUint64 sid @ PutUint32 cid"

definition NewSegmentID :: "bytes \<Rightarrow> u64 \<Rightarrow> u64 \<Rightarrow> u32 \<Rightarrow> err + bytes" where
  "NewSegmentID fid bid sid cid =
     (if length fid \<noteq> FSID_LEN then Inl (Err ''segment length is wrong'')
      else Inr (CreateSegmentID fid bid sid cid))"

definition SegID_FromBytes :: "bytes \<Rightarrow> err + bytes" where
  "SegID_FromBytes b =
     (if length b \<noteq> SEGMENTID_LEN then Inl (Err ''segment length is wrong'') else Inr b)"

definition GetFsID :: "bytes \<Rightarrow> bytes" where "GetFsID buf = take 20 buf"
definition GetBucketID :: "bytes \<Rightarrow> u64" where "GetBucketID buf = Uint64 (drop 20 buf)"
definition GetStripeID :: "bytes \<Rightarrow> u64" where "GetStripeID buf = Uint64 (drop 28 buf)"
definition GetChunkID :: "bytes \<Rightarrow> u32" where "GetChunkID buf = Uint32 (drop 36 buf)"

definition SetBucketID :: "u64 \<Rightarrow> bytes \<Rightarrow> bytes" where
  "SetBucketID bid buf = take 20 buf @ PutUint64 bid @ drop 28 buf"

definition SetStripeID :: "u64 \<Rightarrow> bytes \<Rightarrow> bytes" where
  "SetStripeID sid buf = take 28 buf @ PutUint64 sid @ drop 36 buf"

definition SetChunkID :: "u32 \<Rightarrow> bytes \<Rightarrow> bytes" where
  "SetChunkID cid buf = take 36 buf @ PutUint32 cid"

definition ShortBytes :: "bytes \<Rightarrow> bytes" where
  "ShortBytes buf = take 20 (drop 20 buf)"

definition ShortString :: "bytes \<Rightarrow> bytes" where
  "ShortString buf = FormatUint (unat (GetBucketID buf)) @ 95 #
     FormatUint (unat (GetStripeID buf)) @ 95 # FormatUint (unat (GetChunkID buf))"

text \<open>The file name of a stored segment; \<open>base58.Encode\<close> is the argument \<open>b58\<close>.\<close>

definition convertKey :: "(bytes \<Rightarrow> bytes) \<Rightarrow> bytes \<Rightarrow> bytes" where
  "convertKey b58 segID =
     b58 (GetFsID segID) @ 47 # FormatUint (unat (GetStripeID segID) mod 1024) @ 47 # ShortString segID"

section \<open>Prefix and content\<close>

record Prefix =
  px_Version :: u32
  px_Policy :: u32
  px_DataCount :: u32
  px_ParityCount :: u32
  px_TagFlag :: u32
  px_SegSize :: u32

definition DefaultPrefixLen :: nat where "DefaultPrefixLen = 24"

definition Prefix_Serialize :: "Prefix \<Rightarrow> bytes" where
  "Prefix_Serialize p =
     PutUint32 (px_Version p) @ PutUint32 (px_Policy p) @ PutUint32 (px_DataCount p) @
     PutUint32 (px_ParityCount p) @ PutUint32 (px_TagFlag p) @ PutUint32 (px_SegSize p)"

definition DeserializePrefix :: "bytes \<Rightarrow> err + Prefix" where
  "DeserializePrefix b =
     (if length b < DefaultPrefixLen then Inl (Err ''data length is shorter'')
      else Inr \<lparr>px_Version = Uint32 b, px_Policy = Uint32 (drop 4 b),
        px_DataCount = Uint32 (drop 8 b), px_ParityCount = Uint32 (drop 12 b),
        px_TagFlag = Uint32 (drop 16 b), px_SegSize = Uint32 (drop 20 b)\<rparr>)"

text \<open>\<open>pdpcommon.TagMap\<close>; a missing flag reads as length zero.\<close>

definition TagMap :: "u32 \<Rightarrow> nat" where
  "TagMap f = (if f = 1 then 4 else if f = 2 then 32 else if f = 3 \<or> f = 4 \<or> f = 5 then 48 else 0)"

text \<open>\<open>2 + int((pre.ParityCount-1)/pre.DataCount)\<close>, evaluated only when both counts are positive.\<close>

definition tagCount :: "Prefix \<Rightarrow> nat" where
  "tagCount p = 2 + (unat (px_ParityCount p) - 1) div unat (px_DataCount p)"

record BaseSegment =
  bs_segID :: bytes
  bs_data :: bytes

definition Segment_Content :: "BaseSegment \<Rightarrow> err + bytes" where
  "Segment_Content bs = (case DeserializePrefix (bs_data bs) of
      Inl e \<Rightarrow> Inl e
    | Inr pre \<Rightarrow>
        if length (bs_data bs) < DefaultPrefixLen + unat (px_SegSize pre)
        then Inl (Err ''invalid seg length'')
        else Inr (take (unat (px_SegSize pre)) (drop DefaultPrefixLen (bs_data bs))))"

definition Segment_Tags :: "BaseSegment \<Rightarrow> err + bytes list" where
  "Segment_Tags bs = (case DeserializePrefix (bs_data bs) of
      Inl e \<Rightarrow> Inl e
    | Inr pre \<Rightarrow>
        if px_DataCount pre < 1 \<or> px_ParityCount pre < 1 then Inl (Err ''policy is not supported'')
        else let tagLen = TagMap (px_TagFlag pre); seg = unat (px_SegSize pre) in
          if DefaultPrefixLen + seg + tagCount pre * tagLen \<noteq> length (bs_data bs)
          then Inl (Err ''invalid tag length'')
          else Inr (map (\<lambda>i. take tagLen (drop (seg + DefaultPrefixLen + i * tagLen) (bs_data bs)))
                      [0..<tagCount pre]))"

definition Segment_Serialize :: "BaseSegment \<Rightarrow> bytes" where
  "Segment_Serialize bs = copy_into 40 (bs_segID bs) @ bs_data bs"

definition Segment_Deserialize :: "bytes \<Rightarrow> err + BaseSegment" where
  "Segment_Deserialize b =
     (if length b < 40 then Inl (Err ''data length is shorter than 40'')
      else case SegID_FromBytes (take 40 b) of
        Inl e \<Rightarrow> Inl e
      | Inr sid \<Rightarrow> (case DeserializePrefix (drop 40 b) of
          Inl e \<Rightarrow> Inl e
        | Inr pre \<Rightarrow>
            if px_DataCount pre < 1 \<or> px_ParityCount pre < 1
            then Inl (Err ''data/parity count is wrong'')
            else if 40 + DefaultPrefixLen + unat (px_SegSize pre) +
                    tagCount pre * TagMap (px_TagFlag pre) \<noteq> length b
            then Inl (Err ''invalid segment size'')
            else Inr \<lparr>bs_segID = sid, bs_data = drop 40 b\<rparr>))"

definition Segment_IsValid :: "nat \<Rightarrow> BaseSegment \<Rightarrow> bool" where
  "Segment_IsValid sz bs = (case DeserializePrefix (bs_data bs) of
      Inl e \<Rightarrow> False
    | Inr pre \<Rightarrow>
        sz = unat (px_SegSize pre) \<and> \<not> (px_DataCount pre < 1 \<or> px_ParityCount pre < 1) \<and>
        DefaultPrefixLen + unat (px_SegSize pre) + tagCount pre * TagMap (px_TagFlag pre) =
          length (bs_data bs))"

section \<open>Round trips\<close>

lemma length_copy_into [simp]: "length (copy_into n b) = n"
  by (simp add: copy_into_def)

lemma copy_into_id: "length b = n \<Longrightarrow> copy_into n b = b"
  by (simp add: copy_into_def)

lemma length_CreateSegmentID [simp]: "length (CreateSegmentID fid bid sid cid) = 40"
  by (simp add: CreateSegmentID_def FSID_LEN_def)

lemma PutUint32_take4 [simp]: "Uint32 (PutUint32 w) = w"
  using Uint32_PutUint32 [of w "[]"] by simp

lemma Create_getters [simp]:
  "GetFsID (CreateSegmentID fid bid sid cid) = copy_into 20 fid"
  "GetBucketID (CreateSegmentID fid bid sid cid) = bid"
  "GetStripeID (CreateSegmentID fid bid sid cid) = sid"
  "GetChunkID (CreateSegmentID fid bid sid cid) = cid"
  by (simp_all add: CreateSegmentID_def GetFsID_def GetBucketID_def GetStripeID_def
      GetChunkID_def FSID_LEN_def)

lemma Create_setters [simp]:
  "SetBucketID bid' (CreateSegmentID fid bid sid cid) = CreateSegmentID fid bid' sid cid"
  "SetStripeID sid' (CreateSegmentID fid bid sid cid) = CreateSegmentID fid bid sid' cid"
  "SetChunkID cid' (CreateSegmentID fid bid sid cid) = CreateSegmentID fid bid sid cid'"
  by (simp_all add: CreateSegmentID_def SetBucketID_def SetStripeID_def SetChunkID_def FSID_LEN_def)

lemma DeserializePrefix_Serialize [simp]:
  "DeserializePrefix (Prefix_Serialize p @ rest) = Inr p"
  by (simp add: DeserializePrefix_def Prefix_Serialize_def DefaultPrefixLen_def)

lemma length_Prefix_Serialize [simp]: "length (Prefix_Serialize p) = 24"
  by (simp add: Prefix_Serialize_def)

text \<open>A valid segment survives the wire.\<close>

lemma Segment_roundtrip:
  assumes "length (bs_segID bs) = 40" and "Segment_IsValid sz bs"
  shows "Segment_Deserialize (Segment_Serialize bs) = Inr bs"
  using assms
  by (auto simp: Segment_Serialize_def Segment_Deserialize_def Segment_IsValid_def
      SegID_FromBytes_def SEGMENTID_LEN_def copy_into_id split: sum.splits)

lemma Segment_Deserialize_valid:
  assumes "Segment_Deserialize b = Inr bs"
  shows "length (bs_segID bs) = 40 \<and> (\<exists>sz. Segment_IsValid sz bs) \<and> Segment_Serialize bs = b"
  using assms
  by (auto simp: Segment_Serialize_def Segment_Deserialize_def Segment_IsValid_def
      SegID_FromBytes_def SEGMENTID_LEN_def copy_into_id split: sum.splits if_splits)

text \<open>A valid segment is its prefix, its content and its tags.\<close>

lemma Segment_Tags_lengths:
  assumes "Segment_Tags bs = Inr ts"
  shows "\<exists>pre. DeserializePrefix (bs_data bs) = Inr pre \<and> length ts = tagCount pre \<and>
    (\<forall>t\<in>set ts. length t = TagMap (px_TagFlag pre))"
proof -
  from assms obtain pre where pre: "DeserializePrefix (bs_data bs) = Inr pre"
    by (auto simp: Segment_Tags_def split: sum.splits)
  let ?l = "TagMap (px_TagFlag pre)"
  from assms pre have len: "DefaultPrefixLen + unat (px_SegSize pre) + tagCount pre * ?l = length (bs_data bs)"
    and ts: "ts = map (\<lambda>i. take ?l (drop (unat (px_SegSize pre) + DefaultPrefixLen + i * ?l) (bs_data bs)))
                    [0..<tagCount pre]"
    by (auto simp: Segment_Tags_def Let_def split: if_splits)
  have "i * ?l + ?l \<le> tagCount pre * ?l" if "i < tagCount pre" for i
    using mult_le_mono1 [of "Suc i" "tagCount pre" ?l] that by simp
  with len ts have "\<forall>t\<in>set ts. length t = ?l"
    by fastforce
  with pre ts show ?thesis by simp
qed

end
