(* ===== verification/Outside.thy ===== *)
theory Outside
  imports SegQueue Segment
begin

text \<open>
  What the state manager calls outside this repository, as one record \<open>lib\<close>: CBOR and
  protobuf encoders, hashes, signature verification, the PDP scheme, field arithmetic, bit
  sets, the Merkle tree, and whether a database operation fails.  Every definition of the
  state manager takes it as its first argument.  The structs of \<open>submodule/state/common.go\<close>
  are here too, because the encoders mention them.
\<close>

section \<open>Encoders and other outside code\<close>

text \<open>
  \<open>cbor.Marshal\<close>/\<open>Unmarshal\<close> (and their protobuf namesakes) at one struct type.
  Unmarshalling writes into an existing value, and may leave it half written when it fails.
\<close>

record 'a codec =
  marshal :: "'a \<Rightarrow> bytes option"
  unmarshal :: "bytes \<Rightarrow> 'a \<Rightarrow> 'a \<times> bool"

definition Serialize :: "'a codec \<Rightarrow> 'a \<Rightarrow> ('s, bytes) go" where
  "Serialize c x = orErr ''marshal'' (marshal c x)"

text \<open>\<open>x := new(T); err := x.Deserialize(b)\<close>: \<open>zero\<close> is the zero value of the struct.\<close>

definition decode :: "'a codec \<Rightarrow> 'a \<Rightarrow> bytes \<Rightarrow> 'a option" where
  "decode c zero b = (case unmarshal c b zero of (x, ok) \<Rightarrow> if ok then Some x else None)"

text \<open>\<open>x.Deserialize(b)\<close> with the error ignored.\<close>

definition decode_into :: "'a codec \<Rightarrow> 'a \<Rightarrow> bytes \<Rightarrow> 'a" where
  "decode_into c old b = fst (unmarshal c b old)"

text \<open>What the encoders document: decoding an encoded struct gives it back.\<close>

definition codec_law :: "'a codec \<Rightarrow> bool" where
  "codec_law c \<longleftrightarrow> (\<forall>x b y. marshal c x = Some b \<longrightarrow> unmarshal c b y = (x, True))"

lemma codec_lawD: "codec_law c \<Longrightarrow> marshal c x = Some b \<Longrightarrow> unmarshal c b y = (x, True)"
  by (simp add: codec_law_def)

lemma decode_law: "codec_law c \<Longrightarrow> marshal c x = Some b \<Longrightarrow> decode c z b = Some x"
  by (simp add: decode_def codec_lawD)

lemma decode_into_law: "codec_law c \<Longrightarrow> marshal c x = Some b \<Longrightarrow> decode_into c y b = x"
  by (simp add: decode_into_def codec_lawD)

text \<open>The structs of \<open>common.go\<close>.\<close>

record roleValue =
  rv_Nonce :: u64
  rv_Value :: "int option"

record roleInfo =
  rl_base :: "RoleInfo option"
  rl_val :: roleValue

record chalEpochInfo =
  cei_epoch :: u64
  cei_current :: ChalEpoch
  cei_previous :: ChalEpoch

type_synonym fr = nat
type_synonym bitset = "u64 list"
type_synonym orderKey = "u64 \<times> u64"

record orderInfo =
  oi_prove :: u64
  oi_income :: PostIncome
  oi_ns :: NonceSeq
  oi_accFr :: fr
  oi_base :: "SignedOrder option"
  oi_preStart :: i64
  oi_preEnd :: i64

record bucketManage =
  bm_chunks :: "AggStripe option list"
  bm_stripes :: "u64 \<Rightarrow> bitset option"

record segPerUser =
  su_userID :: u64
  su_fsID :: bytes
  su_verifyKey :: bytes
  su_nextBucket :: u64
  su_buckets :: "u64 \<Rightarrow> bucketManage option"

text \<open>
  PDP keys, challenges and proofs are opaque byte strings; a bit set is the list of its
  words (\<open>BitSet.Bytes\<close>).
\<close>

record lib =
  lb_build :: build_vars
  lb_trie :: trie
  lb_putFail :: "bytes \<Rightarrow> bytes \<Rightarrow> bool"
  lb_newTxnFail :: bool
  lb_commitFail :: "txn \<Rightarrow> bool"
  lb_mhSum :: "bytes \<Rightarrow> bytes option"
  lb_mhDecode :: "bytes \<Rightarrow> nat option"
  lb_blake3 :: "bytes \<Rightarrow> bytes"
  lb_keccak :: "bytes \<Rightarrow> bytes"
  lb_sigVerify :: "bytes \<Rightarrow> bytes \<Rightarrow> bytes \<Rightarrow> bool option"
  lb_sigAggregate :: "bytes \<Rightarrow> bytes \<Rightarrow> bytes option"
  lb_frZero :: fr
  lb_frAdd :: "fr \<Rightarrow> fr \<Rightarrow> fr"
  lb_frFromBytes :: "bytes \<Rightarrow> fr"
  lb_frToBytes :: "fr \<Rightarrow> bytes"
  lb_frSubBytes :: "bytes \<Rightarrow> bytes \<Rightarrow> bytes"
  lb_pdpPublicKey :: "bytes \<Rightarrow> bytes option"
  lb_pdpVerifyKey :: "bytes \<Rightarrow> bytes option"
  lb_pdpProof :: "bytes \<Rightarrow> bytes option"
  lb_pkSerialize :: "bytes \<Rightarrow> bytes"
  lb_pkVerifyKey :: "bytes \<Rightarrow> bytes"
  lb_vkSerialize :: "bytes \<Rightarrow> bytes"
  lb_vkHash :: "bytes \<Rightarrow> bytes"
  lb_newChallenge :: "bytes \<Rightarrow> bytes \<Rightarrow> bytes option"
  lb_chalAdd :: "bytes \<Rightarrow> bytes \<Rightarrow> bytes"
  lb_verifyProof :: "bytes \<Rightarrow> bytes \<Rightarrow> bytes \<Rightarrow> bool option"
  lb_bsNew :: bitset
  lb_bsTest :: "bitset \<Rightarrow> nat \<Rightarrow> bool"
  lb_bsSet :: "bitset \<Rightarrow> nat \<Rightarrow> bitset"
  lb_sortAggSegs :: "AggSegs list \<Rightarrow> AggSegs list"
  lb_cRoleValue :: "roleValue codec"
  lb_cRoleInfo :: "RoleInfo codec"
  lb_cNonceSeq :: "NonceSeq codec"
  lb_cChalEpoch :: "ChalEpoch codec"
  lb_cPostIncome :: "PostIncome codec"
  lb_cAccPostIncome :: "AccPostIncome codec"
  lb_cSignedAccPostIncome :: "SignedAccPostIncome codec"
  lb_cOrderFull :: "OrderFull codec"
  lb_cSeqFull :: "SeqFull codec"
  lb_cAggStripe :: "AggStripe codec"
  lb_cBitset :: "bitset codec"
  lb_cBucketOption :: "BucketOption codec"
  lb_cSignedOrder :: "SignedOrder codec"
  lb_cOrderSeq :: "OrderSeq codec"
  lb_cSignedOrderSeq :: "SignedOrderSeq codec"
  lb_cSegRemoveParas :: "SegRemoveParas codec"
  lb_cOrderCommitParas :: "OrderCommitParas codec"
  lb_cOrderSubParas :: "OrderSubParas codec"
  lb_cSignedEpochParams :: "SignedEpochParams codec"
  lb_cSegChalParams :: "SegChalParams codec"
  lb_cPostIncomeParams :: "PostIncomeParams codec"
  lb_cBucketParams :: "BucketParams codec"
  lb_cBucMetaParas :: "BucMetaParas codec"
  lb_cObjMetaParas :: "ObjMetaParas codec"
  lb_cObjMetaValue :: "ObjMetaValue codec"
  lb_cObjMetaKey :: "ObjMetaKey codec"
  lb_cOrderDuration :: "OrderDuration codec"
  lb_cAddrInfo :: "bytes codec"
  lb_cRawHeader :: "RawHeader codec"
  lb_cRawBlock :: "RawBlock codec"

end
