(* ===== verification/StateBase.thy ===== *)
theory StateBase
  imports Outside
begin

text \<open>
  The state manager of the data chain (\<open>submodule/state\<close>): its record (\<open>state.go\<close>), the
  reads and writes of its three stores, start-up (\<open>load\<close>), and the caches of roles, orders
  and users with their loaders (\<open>mrole.go\<close>, \<open>morder.go\<close>, \<open>muser.go\<close>).

  The manager keeps every cache twice, once for applying blocks and once for validating
  proposals.  Pointers in the caches are values here: an assignment through such a pointer
  is an update of the cache entry.  \<open>tds\<close> is the open transaction, \<open>None\<close> outside
  \<open>ApplyBlock\<close>.
\<close>

section \<open>The state\<close>

record StateMgr =
  ds :: kvs
  smt :: SMTree
  tds :: "txn option"
  genesisBlockID :: MsgID
  keepers :: "u64 list"
  pros :: "u64 list"
  users :: "u64 list"
  threshold :: int
  blkID :: MsgID
  version :: u32
  height :: u64
  slot :: u64
  ceInfo :: chalEpochInfo
  root :: MsgID
  oInfo :: "orderKey \<Rightarrow> orderInfo option"
  sInfo :: "u64 \<Rightarrow> segPerUser option"
  rInfo :: "u64 \<Rightarrow> roleInfo option"
  validateVersion :: u32
  validateHeight :: u64
  validateSlot :: u64
  validateCeInfo :: chalEpochInfo
  validateRoot :: MsgID
  validateOInfo :: "orderKey \<Rightarrow> orderInfo option"
  validateSInfo :: "u64 \<Rightarrow> segPerUser option"
  validateRInfo :: "u64 \<Rightarrow> roleInfo option"

type_synonym 'a sgo = "(StateMgr, 'a) go"

abbreviation LSMT :: "lib \<Rightarrow> u32" where
  "LSMT L \<equiv> SMTVersion (lb_build L)"

abbreviation MsgIDOf :: "lib \<Rightarrow> bytes \<Rightarrow> MsgID" where
  "MsgIDOf L b \<equiv> NewMsgID (lb_mhSum L) b"

text \<open>The numbers of \<open>pb.MetaType\<close> used as key prefixes.\<close>

definition ST_RootKey :: nat where "ST_RootKey = 20"
definition ST_BlockHeightKey :: nat where "ST_BlockHeightKey = 21"
definition ST_ChalEpochKey :: nat where "ST_ChalEpochKey = 22"
definition ST_KeepersKey :: nat where "ST_KeepersKey = 25"
definition ST_UsersKey :: nat where "ST_UsersKey = 26"
definition ST_ProsKey :: nat where "ST_ProsKey = 27"
definition ST_PDPVerifyKey :: nat where "ST_PDPVerifyKey = 29"
definition ST_RoleBaseKey :: nat where "ST_RoleBaseKey = 30"
definition ST_RoleValueKey :: nat where "ST_RoleValueKey = 31"
definition ST_PDPPublicKey :: nat where "ST_PDPPublicKey = 32"
definition ST_NetKey :: nat where "ST_NetKey = 33"
definition ST_BucketOptKey :: nat where "ST_BucketOptKey = 35"
definition ST_SegLocKey :: nat where "ST_SegLocKey = 36"
definition ST_SegMapKey :: nat where "ST_SegMapKey = 37"
definition ST_OrderStateKey :: nat where "ST_OrderStateKey = 39"
definition ST_OrderBaseKey :: nat where "ST_OrderBaseKey = 40"
definition ST_OrderSeqKey :: nat where "ST_OrderSeqKey = 41"
definition ST_OrderDurationKey :: nat where "ST_OrderDurationKey = 42"
definition ST_SegProofKey :: nat where "ST_SegProofKey = 45"
definition ST_SegPayKey :: nat where "ST_SegPayKey = 46"
definition ST_SegPayComfirmKey :: nat where "ST_SegPayComfirmKey = 47"
definition ST_BucMetaKey :: nat where "ST_BucMetaKey = 48"
definition ST_ObjMetaKey :: nat where "ST_ObjMetaKey = 49"

lemmas meta_defs = ST_RootKey_def ST_BlockHeightKey_def ST_ChalEpochKey_def ST_KeepersKey_def
  ST_UsersKey_def ST_ProsKey_def ST_PDPVerifyKey_def ST_RoleBaseKey_def ST_RoleValueKey_def
  ST_PDPPublicKey_def ST_NetKey_def ST_BucketOptKey_def ST_SegLocKey_def ST_SegMapKey_def
  ST_OrderStateKey_def ST_OrderBaseKey_def ST_OrderSeqKey_def ST_OrderDurationKey_def
  ST_SegProofKey_def ST_SegPayKey_def ST_SegPayComfirmKey_def ST_BucMetaKey_def ST_ObjMetaKey_def

section \<open>Reading and writing the stores\<close>

text \<open>\<open>StateMgr.get\<close>: the Merkle tree first, then the transaction or the store.\<close>

definition base_get :: "StateMgr \<Rightarrow> bytes \<Rightarrow> bytes option" where
  "base_get s k = (case tds s of Some t \<Rightarrow> txn_get t k | None \<Rightarrow> ds s k)"

definition sget :: "lib \<Rightarrow> bytes \<Rightarrow> StateMgr \<Rightarrow> bytes option" where
  "sget L k s = (case smtGet (lb_trie L) (smt s) k of Some v \<Rightarrow> Some v | None \<Rightarrow> base_get s k)"

text \<open>
  \<open>StateMgr.has\<close>; \<open>None\<close> is an error.  \<open>Has\<close> of a transaction reports a missing key as an
  error, \<open>Has\<close> of the store as \<open>false\<close>.
\<close>

definition shas :: "lib \<Rightarrow> bytes \<Rightarrow> StateMgr \<Rightarrow> bool option" where
  "shas L k s = (case smtHas (lb_trie L) (smt s) k of
      Some b \<Rightarrow> Some b
    | None \<Rightarrow> (case tds s of
        Some t \<Rightarrow> (case txn_get t k of Some v \<Rightarrow> Some True | None \<Rightarrow> None)
      | None \<Rightarrow> Some (ds s k \<noteq> None)))"

text \<open>\<open>s.tds.Put\<close>: a nil transaction panics.\<close>

definition tds_put :: "lib \<Rightarrow> bytes \<Rightarrow> bytes \<Rightarrow> unit sgo" where
  "tds_put L k v =
     bnd (gets tds) (\<lambda>ot. bnd (deref ''nil tds'' ot) (\<lambda>t.
     seq (reject (lb_putFail L k v) ''put'')
         (modify (\<lambda>s. s\<lparr>tds := Some (txn_put t k v)\<rparr>))))"

definition lift_smt :: "(SMTree, 'a) go \<Rightarrow> 'a sgo" where
  "lift_smt m s = (case m (smt s) of (r, t) \<Rightarrow> (r, s\<lparr>smt := t\<rparr>))"

definition sput :: "lib \<Rightarrow> bytes \<Rightarrow> bytes \<Rightarrow> unit sgo" where
  "sput L k v =
     bnd (gets version) (\<lambda>ver.
     if ver < LSMT L then tds_put L k v else lift_smt (smtPut (lb_trie L) k v))"

definition newRoot :: "lib \<Rightarrow> bytes \<Rightarrow> unit sgo" where
  "newRoot L b =
     bnd (gets version) (\<lambda>ver.
     if ver < LSMT L then
       bnd (gets root) (\<lambda>r. let r' = MsgIDOf L (lb_blake3 L (r @ b)) in
       seq (modify (\<lambda>s. s\<lparr>root := r'\<rparr>))
           (tds_put L (skey ST_RootKey []) r'))
     else dropErr (sput L (skey ST_RootKey []) b))"

definition saveRoot :: "lib \<Rightarrow> unit sgo" where
  "saveRoot L =
     bnd (gets version) (\<lambda>ver.
     if LSMT L \<le> ver then
       seq (modify (\<lambda>s. s\<lparr>root := MsgIDOf L (curRoot (smt s))\<rparr>))
      (bnd (gets (\<lambda>s. curRoot (smt s))) (\<lambda>r.
       seq (tds_put L (skey ST_RootKey []) r)
      (bnd (gets height) (\<lambda>h. tds_put L (skey ST_RootKey [unat h]) r))))
     else ret ())"

text \<open>\<open>getThreshold\<close>; \<open>2*(len+1)/3\<close> is not negative, so Go's division agrees with \<open>div\<close>.\<close>

definition getThreshold :: "StateMgr \<Rightarrow> int" where
  "getThreshold s =
     (let thres = 2 * (int (length (keepers s)) + 1) div 3
      in if thres > threshold s then thres else threshold s)"

section \<open>Signatures\<close>

definition verify :: "lib \<Rightarrow> RoleInfo option \<Rightarrow> bytes \<Rightarrow> Signature \<Rightarrow> ('s, unit) go" where
  "verify L ri msg sig =
     (if sig_Type sig = SigSecp256k1 then
        bnd (deref ''nil role'' ri) (\<lambda>b.
        bnd (orErr ''verify'' (lb_sigVerify L (ri_ChainVerifyKey b) msg (sig_Data sig))) (\<lambda>ok.
        reject (\<not> ok) ''sign is wrong''))
      else if sig_Type sig = SigBLS then
        bnd (deref ''nil role'' ri) (\<lambda>b.
        bnd (orErr ''verify'' (lb_sigVerify L (ri_BlsVerifyKey b) msg (sig_Data sig))) (\<lambda>ok.
        reject (\<not> ok) ''sign is wrong''))
      else fail (Err ''sign type is not supported''))"

section \<open>Roles\<close>

definition zero_roleValue :: roleValue where
  "zero_roleValue = \<lparr>rv_Nonce = 0, rv_Value = Some 0\<rparr>"

definition zero_RoleInfo :: RoleInfo where
  "zero_RoleInfo = \<lparr>ri_Type = 0, ri_RoleID = 0, ri_GroupID = 0, ri_ChainVerifyKey = [],
     ri_BlsVerifyKey = [], ri_Extra = [], ri_Desc = [], ri_State = []\<rparr>"

definition loadVal :: "lib \<Rightarrow> u64 \<Rightarrow> StateMgr \<Rightarrow> roleValue" where
  "loadVal L roleID s = (case sget L (skey ST_RoleValueKey [unat roleID]) s of
      None \<Rightarrow> zero_roleValue
    | Some data \<Rightarrow> decode_into (lb_cRoleValue L) zero_roleValue data)"

definition saveVal :: "lib \<Rightarrow> u64 \<Rightarrow> roleValue \<Rightarrow> unit sgo" where
  "saveVal L roleID rv =
     bnd (Serialize (lb_cRoleValue L) rv) (\<lambda>data. sput L (skey ST_RoleValueKey [unat roleID]) data)"

definition loadRole :: "lib \<Rightarrow> u64 \<Rightarrow> StateMgr \<Rightarrow> roleInfo" where
  "loadRole L roleID s =
     \<lparr>rl_base = (case sget L (skey ST_RoleBaseKey [unat roleID]) s of
         None \<Rightarrow> None
       | Some data \<Rightarrow> if length data > 0 then decode (lb_cRoleInfo L) zero_RoleInfo data else None),
      rl_val = loadVal L roleID s\<rparr>"

text \<open>The block \<open>ri, ok := s.rInfo[id]; if !ok { ri = s.loadRole(id); s.rInfo[id] = ri }\<close>.\<close>

definition lookupRole :: "lib \<Rightarrow> u64 \<Rightarrow> roleInfo sgo" where
  "lookupRole L rid s = (case rInfo s rid of
      Some ri \<Rightarrow> (Inr ri, s)
    | None \<Rightarrow> (let ri = loadRole L rid s in (Inr ri, s\<lparr>rInfo := (rInfo s)(rid \<mapsto> ri)\<rparr>)))"

definition lookupValidateRole :: "lib \<Rightarrow> u64 \<Rightarrow> roleInfo sgo" where
  "lookupValidateRole L rid s = (case validateRInfo s rid of
      Some ri \<Rightarrow> (Inr ri, s)
    | None \<Rightarrow> (let ri = loadRole L rid s
               in (Inr ri, s\<lparr>validateRInfo := (validateRInfo s)(rid \<mapsto> ri)\<rparr>)))"

section \<open>Orders\<close>

definition zero_Signature :: Signature where
  "zero_Signature = \<lparr>sig_Type = 0, sig_Data = []\<rparr>"

definition zero_OrderBase :: OrderBase where
  "zero_OrderBase = \<lparr>ob_UserID = 0, ob_ProID = 0, ob_Nonce = 0, ob_Start = 0, ob_End = 0,
     ob_TokenIndex = 0, ob_SegPrice = None, ob_PiecePrice = None\<rparr>"

definition zero_SignedOrder :: SignedOrder where
  "zero_SignedOrder = \<lparr>so_OrderBase = zero_OrderBase, so_Size = 0, so_Price = None,
     so_Usign = zero_Signature, so_Psign = zero_Signature\<rparr>"

definition zero_DelPart :: OrderDelPart where
  "zero_DelPart = \<lparr>dp_AccFr = [], dp_Size = 0, dp_Price = None\<rparr>"

definition zero_OrderFull :: OrderFull where
  "zero_OrderFull = \<lparr>of_SignedOrder = zero_SignedOrder, of_SeqNum = 0, of_AccFr = [],
     of_DelPart = zero_DelPart\<rparr>"

definition new_PostIncome :: "u64 \<Rightarrow> u64 \<Rightarrow> PostIncome" where
  "new_PostIncome u p = \<lparr>pi_UserID = u, pi_ProID = p, pi_TokenIndex = 0,
     pi_Value = Some 0, pi_Penalty = Some 0\<rparr>"

definition get_OrderFull :: "lib \<Rightarrow> u64 \<Rightarrow> u64 \<Rightarrow> u64 \<Rightarrow> StateMgr \<Rightarrow> OrderFull option" where
  "get_OrderFull L u p n s =
     Option.bind (sget L (skey ST_OrderBaseKey [unat u, unat p, unat n]) s)
       (decode (lb_cOrderFull L) zero_OrderFull)"

definition loadOrder :: "lib \<Rightarrow> u64 \<Rightarrow> u64 \<Rightarrow> StateMgr \<Rightarrow> orderInfo" where
  "loadOrder L u p s =
     (let income = (case sget L (skey ST_SegPayKey [unat u, unat p]) s of
                      None \<Rightarrow> new_PostIncome u p
                    | Some d \<Rightarrow> decode_into (lb_cPostIncome L) (new_PostIncome u p) d);
          prove = (case sget L (skey ST_SegProofKey [unat u, unat p]) s of
                      None \<Rightarrow> 0
                    | Some d \<Rightarrow> if length d \<ge> 8 then Uint64 d else 0);
          ns0 = \<lparr>ns_Nonce = 0, ns_SeqNum = 0, ns_SubNonce = 0\<rparr>;
          ns = (case sget L (skey ST_OrderStateKey [unat u, unat p]) s of
                      None \<Rightarrow> ns0
                    | Some d \<Rightarrow> decode_into (lb_cNonceSeq L) ns0 d);
          oi = \<lparr>oi_prove = prove, oi_income = income, oi_ns = ns, oi_accFr = lb_frZero L,
                oi_base = None, oi_preStart = 0, oi_preEnd = 0\<rparr>
      in case get_OrderFull L u p (ns_Nonce ns) s of
           None \<Rightarrow> oi
         | Some full \<Rightarrow>
             (let oi1 = oi\<lparr>oi_base := Some (of_SignedOrder full),
                           oi_accFr := lb_frFromBytes L (of_AccFr full)\<rparr>
              in if ns_Nonce ns > 0 then
                   (case get_OrderFull L u p (ns_Nonce ns - 1) s of
                      None \<Rightarrow> oi1
                    | Some pre \<Rightarrow>
                        oi1\<lparr>oi_preStart := ob_Start (so_OrderBase (of_SignedOrder pre)),
                            oi_preEnd := ob_End (so_OrderBase (of_SignedOrder pre))\<rparr>)
                 else oi1))"

definition lookupOrder :: "lib \<Rightarrow> orderKey \<Rightarrow> orderInfo sgo" where
  "lookupOrder L okey s = (case oInfo s okey of
      Some oi \<Rightarrow> (Inr oi, s)
    | None \<Rightarrow> (let oi = loadOrder L (fst okey) (snd okey) s
               in (Inr oi, s\<lparr>oInfo := (oInfo s)(okey \<mapsto> oi)\<rparr>)))"

definition lookupValidateOrder :: "lib \<Rightarrow> orderKey \<Rightarrow> orderInfo sgo" where
  "lookupValidateOrder L okey s = (case validateOInfo s okey of
      Some oi \<Rightarrow> (Inr oi, s)
    | None \<Rightarrow> (let oi = loadOrder L (fst okey) (snd okey) s
               in (Inr oi, s\<lparr>validateOInfo := (validateOInfo s)(okey \<mapsto> oi)\<rparr>)))"

abbreviation setOrder :: "orderKey \<Rightarrow> orderInfo \<Rightarrow> unit sgo" where
  "setOrder okey oi \<equiv> modify (\<lambda>s. s\<lparr>oInfo := (oInfo s)(okey \<mapsto> oi)\<rparr>)"

abbreviation setValidateOrder :: "orderKey \<Rightarrow> orderInfo \<Rightarrow> unit sgo" where
  "setValidateOrder okey oi \<equiv> modify (\<lambda>s. s\<lparr>validateOInfo := (validateOInfo s)(okey \<mapsto> oi)\<rparr>)"

section \<open>Users\<close>

definition mk_segPerUser :: "lib \<Rightarrow> u64 \<Rightarrow> bytes \<Rightarrow> u64 \<Rightarrow> segPerUser" where
  "mk_segPerUser L u vk nb = \<lparr>su_userID = u, su_fsID = lb_vkHash L vk, su_verifyKey = vk,
     su_nextBucket = nb, su_buckets = (\<lambda>_. None)\<rparr>"

text \<open>
  \<open>loadUser\<close>: the verify key, or, where only the public key is stored, the verify key
  computed from it, which is then written to the store.
\<close>

definition loadUser :: "lib \<Rightarrow> u64 \<Rightarrow> segPerUser sgo" where
  "loadUser L u =
     bnd (gets (sget L (skey ST_PDPVerifyKey [unat u]))) (\<lambda>data.
     bnd (case data of
            None \<Rightarrow>
              bnd (gets (sget L (skey ST_PDPPublicKey [unat u]))) (\<lambda>d.
              bnd (orErr ''not found'' d) (\<lambda>pkb.
              bnd (orErr ''public key'' (lb_pdpPublicKey L pkb)) (\<lambda>pk.
              let vk = lb_pkVerifyKey L pk in
              seq (sput L (skey ST_PDPVerifyKey [unat u]) (lb_vkSerialize L vk)) (ret vk))))
          | Some vkb \<Rightarrow> orErr ''verify key'' (lb_pdpVerifyKey L vkb)) (\<lambda>vk.
     bnd (gets (sget L (skey ST_BucketOptKey [unat u]))) (\<lambda>b.
     ret (mk_segPerUser L u vk
            (case b of None \<Rightarrow> 0 | Some d \<Rightarrow> if length d \<ge> 8 then Uint64 d else 0)))))"

definition lookupUser :: "lib \<Rightarrow> u64 \<Rightarrow> segPerUser sgo" where
  "lookupUser L u =
     bnd (gets sInfo) (\<lambda>m. case m u of
       Some su \<Rightarrow> ret su
     | None \<Rightarrow> bnd (loadUser L u) (\<lambda>su.
         seq (modify (\<lambda>s. s\<lparr>sInfo := (sInfo s)(u \<mapsto> su)\<rparr>)) (ret su)))"

definition lookupValidateUser :: "lib \<Rightarrow> u64 \<Rightarrow> segPerUser sgo" where
  "lookupValidateUser L u =
     bnd (gets validateSInfo) (\<lambda>m. case m u of
       Some su \<Rightarrow> ret su
     | None \<Rightarrow> bnd (loadUser L u) (\<lambda>su.
         seq (modify (\<lambda>s. s\<lparr>validateSInfo := (validateSInfo s)(u \<mapsto> su)\<rparr>)) (ret su)))"

abbreviation setUser :: "u64 \<Rightarrow> segPerUser \<Rightarrow> unit sgo" where
  "setUser u su \<equiv> modify (\<lambda>s. s\<lparr>sInfo := (sInfo s)(u \<mapsto> su)\<rparr>)"

abbreviation setValidateUser :: "u64 \<Rightarrow> segPerUser \<Rightarrow> unit sgo" where
  "setValidateUser u su \<equiv> modify (\<lambda>s. s\<lparr>validateSInfo := (validateSInfo s)(u \<mapsto> su)\<rparr>)"

end
