(* ===== verification/StateUser.thy ===== *)
theory StateUser
  imports StateBase
begin

text \<open>
  Roles, file systems, buckets and their metadata: \<open>mrole.go\<close>, \<open>muser.go\<close>, \<open>mseg.go\<close>,
  \<open>fsmeta.go\<close>, \<open>net.go\<close>.  Each message has a handler that applies it and a \<open>can\<close> twin that
  validates it against the validation caches.
\<close>

section \<open>Roles\<close>

text \<open>
  The three blocks at the end of \<open>addRole\<close>: the identifier is appended to the list stored
  under \<open>mt\<close>, read and written through the transaction.
\<close>

definition appendId :: "lib \<Rightarrow> nat \<Rightarrow> u64 \<Rightarrow> unit sgo" where
  "appendId L mt rid =
     bnd (gets tds) (\<lambda>ot. bnd (deref ''nil tds'' ot) (\<lambda>t.
     let val = (case txn_get t (skey mt []) of None \<Rightarrow> [] | Some v \<Rightarrow> v) in
     tds_put L (skey mt []) (val @ PutUint64 rid)))"

text \<open>The role's base is set in the cache, next to the value the role has.\<close>

definition setRoleBase :: "lib \<Rightarrow> RoleInfo \<Rightarrow> unit sgo" where
  "setRoleBase L pri =
     bnd (gets (\<lambda>s. rInfo s (ri_RoleID pri))) (\<lambda>cached.
     bnd (case cached of
            Some ri \<Rightarrow> seq (reject (rl_base ri \<noteq> None) ''already has role'')
                           (ret (ri\<lparr>rl_base := Some pri\<rparr>))
          | None \<Rightarrow> gets (\<lambda>s. \<lparr>rl_base = Some pri, rl_val = loadVal L (ri_RoleID pri) s\<rparr>)) (\<lambda>ri.
     modify (\<lambda>s. s\<lparr>rInfo := (rInfo s)(ri_RoleID pri \<mapsto> ri)\<rparr>)))"

text \<open>The switch on the role's type: the identifier joins the list of its kind.\<close>

definition enlist :: "lib \<Rightarrow> nat \<Rightarrow> u64 \<Rightarrow> unit sgo" where
  "enlist L ty rid =
     (if ty = RoleInfo_Keeper then
        seq (modify (\<lambda>s. s\<lparr>keepers := keepers s @ [rid]\<rparr>)) (appendId L ST_KeepersKey rid)
      else if ty = RoleInfo_Provider then
        seq (modify (\<lambda>s. s\<lparr>pros := pros s @ [rid]\<rparr>)) (appendId L ST_ProsKey rid)
      else if ty = RoleInfo_User then
        seq (modify (\<lambda>s. s\<lparr>users := users s @ [rid]\<rparr>)) (appendId L ST_UsersKey rid)
      else ret ())"

definition addRole :: "lib \<Rightarrow> Message \<Rightarrow> unit sgo" where
  "addRole L msg =
     bnd (orErr ''unmarshal'' (decode (lb_cRoleInfo L) zero_RoleInfo (msg_Params msg))) (\<lambda>pri.
     seq (reject (ri_RoleID pri \<noteq> msg_From msg) ''wrong roleinfo'')
    (let key = skey ST_RoleBaseKey [unat (ri_RoleID pri)] in
     bnd (gets (shas L key)) (\<lambda>has.
     seq (reject (has = Some True) ''local already has role'')
    (seq (setRoleBase L pri)
    (seq (sput L key (msg_Params msg))
         (enlist L (ri_Type pri) (msg_From msg)))))))"

definition canAddRole :: "lib \<Rightarrow> Message \<Rightarrow> unit sgo" where
  "canAddRole L msg =
     bnd (orErr ''unmarshal'' (decode (lb_cRoleInfo L) zero_RoleInfo (msg_Params msg))) (\<lambda>pri.
     seq (reject (ri_RoleID pri \<noteq> msg_From msg) ''wrong roleinfo'')
    (bnd (gets (shas L (skey ST_RoleBaseKey [unat (ri_RoleID pri)]))) (\<lambda>has.
     seq (reject (has = Some True) ''local already has role'')
    (bnd (gets (\<lambda>s. validateRInfo s (ri_RoleID pri))) (\<lambda>cached.
     bnd (case cached of
            Some ri \<Rightarrow> seq (reject (rl_base ri \<noteq> None) ''already has role'')
                           (ret (ri\<lparr>rl_base := Some pri\<rparr>))
          | None \<Rightarrow> gets (\<lambda>s. \<lparr>rl_base = Some pri, rl_val = loadVal L (ri_RoleID pri) s\<rparr>)) (\<lambda>ri.
     modify (\<lambda>s. s\<lparr>validateRInfo := (validateRInfo s)(ri_RoleID pri \<mapsto> ri)\<rparr>)))))))"

section \<open>File systems\<close>

text \<open>The shared middle of \<open>addUser\<close> and \<open>canAddUser\<close>: the role is a user whose registered
  verify key matches the public key.\<close>

definition checkUserKey :: "lib \<Rightarrow> roleInfo \<Rightarrow> bytes \<Rightarrow> unit sgo" where
  "checkUserKey L ri pk =
     bnd (deref ''nil role'' (rl_base ri)) (\<lambda>b.
     seq (reject (ri_Type b \<noteq> RoleInfo_User) ''roletype is not user'')
    (bnd (orErr ''verify key'' (lb_pdpVerifyKey L (ri_Extra b))) (\<lambda>vk.
     reject (lb_vkHash L vk \<noteq> lb_vkHash L (lb_pkVerifyKey L pk))
       ''publickey does not match verifykey'')))"

definition addUser :: "lib \<Rightarrow> Message \<Rightarrow> unit sgo" where
  "addUser L msg =
     bnd (orErr ''public key'' (lb_pdpPublicKey L (msg_Params msg))) (\<lambda>pk.
     bnd (gets (\<lambda>s. sInfo s (msg_From msg))) (\<lambda>cached.
     if cached \<noteq> None then ret () else
     bnd (lookupRole L (msg_From msg)) (\<lambda>ri.
     seq (checkUserKey L ri pk)
    (let vk = lb_pkVerifyKey L pk in
     seq (setUser (msg_From msg) (mk_segPerUser L (msg_From msg) vk 0))
    (seq (sput L (skey ST_PDPPublicKey [unat (msg_From msg)]) (lb_pkSerialize L pk))
         (sput L (skey ST_PDPVerifyKey [unat (msg_From msg)]) (lb_vkSerialize L vk)))))))"

definition canAddUser :: "lib \<Rightarrow> Message \<Rightarrow> unit sgo" where
  "canAddUser L msg =
     bnd (orErr ''public key'' (lb_pdpPublicKey L (msg_Params msg))) (\<lambda>pk.
     bnd (gets (\<lambda>s. validateSInfo s (msg_From msg))) (\<lambda>cached.
     seq (reject (cached \<noteq> None) ''has create fs already'')
    (bnd (gets (shas L (skey ST_PDPPublicKey [unat (msg_From msg)]))) (\<lambda>has.
     seq (reject (has = Some True) ''has create fs already'')
    (bnd (lookupValidateRole L (msg_From msg)) (\<lambda>ri.
     seq (checkUserKey L ri pk)
         (setValidateUser (msg_From msg)
            (mk_segPerUser L (msg_From msg) (lb_pkVerifyKey L pk) 0))))))))"

section \<open>Buckets and chunks\<close>

definition new_bucketManage :: "u32 \<Rightarrow> bucketManage" where
  "new_bucketManage n = \<lparr>bm_chunks = replicate (unat n) None, bm_stripes = (\<lambda>_. None)\<rparr>"

definition zero_BucketOption :: BucketOption where
  "zero_BucketOption = \<lparr>bo_Version = 0, bo_Policy = 0, bo_DataCount = 0, bo_ParityCount = 0,
     bo_TagFlag = 0, bo_SegSize = 0\<rparr>"

definition zero_BucketParams :: BucketParams where
  "zero_BucketParams = \<lparr>bp_BucketOption = zero_BucketOption, bp_BucketID = 0\<rparr>"

definition zero_AggStripe :: AggStripe where
  "zero_AggStripe = \<lparr>ags_Order = 0, ags_ProID = 0, ags_Start = 0, ags_Length = 0\<rparr>"

text \<open>One round of the loop of \<open>getBucketManage\<close>: the latest stripe of chunk \<open>i\<close>, if stored.\<close>

definition load_chunk :: "lib \<Rightarrow> u64 \<Rightarrow> u64 \<Rightarrow> StateMgr \<Rightarrow> nat \<Rightarrow> AggStripe option" where
  "load_chunk L u b s i = (case sget L (skey ST_SegLocKey [unat u, unat b, i]) s of
      None \<Rightarrow> None
    | Some d \<Rightarrow>
        if length d < 8 then None
        else (case sget L (skey ST_SegLocKey [unat u, unat b, i, unat (Uint64 d)]) s of
            None \<Rightarrow> None
          | Some a \<Rightarrow> decode (lb_cAggStripe L) zero_AggStripe a))"

definition getBucketManage :: "lib \<Rightarrow> segPerUser \<Rightarrow> u64 \<Rightarrow> StateMgr \<Rightarrow> segPerUser \<times> bucketManage" where
  "getBucketManage L su b s = (case su_buckets su b of
      Some bm \<Rightarrow> (su, bm)
    | None \<Rightarrow>
        (let bm = (case sget L (skey ST_BucketOptKey [unat (su_userID su), unat b]) s of
                     None \<Rightarrow> new_bucketManage 0
                   | Some d \<Rightarrow> (case decode (lb_cBucketOption L) zero_BucketOption d of
                       None \<Rightarrow> new_bucketManage 0
                     | Some pbo \<Rightarrow> (new_bucketManage 0)\<lparr>bm_chunks :=
                         map (load_chunk L (su_userID su) b s)
                           [0..<unat (bo_DataCount pbo + bo_ParityCount pbo)]\<rparr>))
         in (su\<lparr>su_buckets := (su_buckets su)(b \<mapsto> bm)\<rparr>, bm)))"

definition getStripeBitMap ::
  "lib \<Rightarrow> bucketManage \<Rightarrow> u64 \<Rightarrow> u64 \<Rightarrow> u64 \<Rightarrow> StateMgr \<Rightarrow> bucketManage \<times> bitset" where
  "getStripeBitMap L bm u b pro s = (case bm_stripes bm pro of
      Some cm \<Rightarrow> (bm, cm)
    | None \<Rightarrow>
        (let cm = (case sget L (skey ST_SegMapKey [unat u, unat b, unat pro]) s of
                     None \<Rightarrow> lb_bsNew L
                   | Some d \<Rightarrow> (case decode (lb_cBitset L) [] d of
                       None \<Rightarrow> lb_bsNew L | Some ws \<Rightarrow> ws))
         in (bm\<lparr>bm_stripes := (bm_stripes bm)(pro \<mapsto> cm)\<rparr>, cm)))"

definition addBucket :: "lib \<Rightarrow> Message \<Rightarrow> unit sgo" where
  "addBucket L msg =
     bnd (orErr ''unmarshal'' (decode (lb_cBucketParams L) zero_BucketParams (msg_Params msg))) (\<lambda>tbp.
     bnd (lookupUser L (msg_From msg)) (\<lambda>su.
     seq (reject (su_nextBucket su \<noteq> bp_BucketID tbp) ''add bucket err'')
    (let opt = bp_BucketOption tbp;
         su' = su\<lparr>su_buckets := (su_buckets su)(bp_BucketID tbp \<mapsto>
                    new_bucketManage (bo_DataCount opt + bo_ParityCount opt)),
                  su_nextBucket := su_nextBucket su + 1\<rparr> in
     seq (setUser (msg_From msg) su')
    (bnd (Serialize (lb_cBucketOption L) opt) (\<lambda>data.
     seq (sput L (skey ST_BucketOptKey [unat (msg_From msg), unat (bp_BucketID tbp)]) data)
         (sput L (skey ST_BucketOptKey [unat (msg_From msg)]) (PutUint64 (su_nextBucket su'))))))))"

definition canAddBucket :: "lib \<Rightarrow> Message \<Rightarrow> unit sgo" where
  "canAddBucket L msg =
     bnd (orErr ''unmarshal'' (decode (lb_cBucketParams L) zero_BucketParams (msg_Params msg))) (\<lambda>tbp.
     bnd (lookupValidateUser L (msg_From msg)) (\<lambda>su.
     seq (reject (su_nextBucket su \<noteq> bp_BucketID tbp) ''add bucket err'')
    (let opt = bp_BucketOption tbp in
     setValidateUser (msg_From msg)
       (su\<lparr>su_buckets := (su_buckets su)(bp_BucketID tbp \<mapsto>
             new_bucketManage (bo_DataCount opt + bo_ParityCount opt)),
           su_nextBucket := su_nextBucket su + 1\<rparr>))))"

text \<open>
  \<open>for i := start; i < start+length; i++\<close> over \<open>uint64\<close>: the bound wraps around, the counter
  does not reach it then.
\<close>

definition stripe_range :: "u64 \<Rightarrow> u64 \<Rightarrow> nat list" where
  "stripe_range st len = [unat st..<unat (st + len)]"

text \<open>The new latest stripe of a chunk: extended when it continues the previous one.\<close>

definition extend_chunk :: "AggStripe option \<Rightarrow> u64 \<Rightarrow> u64 \<Rightarrow> u64 \<Rightarrow> u64 \<Rightarrow> AggStripe" where
  "extend_chunk old st len pro nonce =
     (let fresh = \<lparr>ags_Order = nonce, ags_ProID = pro, ags_Start = st, ags_Length = len\<rparr> in
      case old of
        None \<Rightarrow> fresh
      | Some c \<Rightarrow>
          if ags_ProID c = pro \<and> ags_Order c = nonce \<and> ags_Start c + ags_Length c = st
          then c\<lparr>ags_Length := ags_Length c + len\<rparr> else fresh)"

definition addChunk :: "lib \<Rightarrow> u64 \<Rightarrow> u64 \<Rightarrow> u64 \<Rightarrow> u64 \<Rightarrow> u64 \<Rightarrow> u64 \<Rightarrow> u32 \<Rightarrow> unit sgo" where
  "addChunk L u b st len pro nonce chunk =
     bnd (lookupUser L u) (\<lambda>su.
     seq (reject (su_nextBucket su \<le> b) ''add chunk bucket too large'')
    (bnd (gets (getBucketManage L su b)) (\<lambda>(su1, bm).
     seq (setUser u su1)
    (seq (reject (unat chunk \<ge> length (bm_chunks bm)) ''add chunk too large'')
    (bnd (gets (getStripeBitMap L bm u b pro)) (\<lambda>(bm1, cm).
     seq (setUser u (su1\<lparr>su_buckets := (su_buckets su1)(b \<mapsto> bm1)\<rparr>))
    (seq (reject (list_ex (lb_bsTest L cm) (stripe_range st len)) ''add duplicated chunk'')
    (let cinfo = extend_chunk (bm_chunks bm1 ! unat chunk) st len pro nonce;
         cm2 = foldl (lb_bsSet L) cm (stripe_range st len);
         bm2 = bm1\<lparr>bm_chunks := (bm_chunks bm1)[unat chunk := Some cinfo],
                   bm_stripes := (bm_stripes bm1)(pro \<mapsto> cm2)\<rparr> in
     seq (setUser u (su1\<lparr>su_buckets := (su_buckets su1)(b \<mapsto> bm2)\<rparr>))
    (bnd (Serialize (lb_cBitset L) cm2) (\<lambda>data.
     seq (sput L (skey ST_SegMapKey [unat u, unat b, unat pro]) data)
    (bnd (gets (\<lambda>s. cei_epoch (ceInfo s))) (\<lambda>epoch.
     seq (sput L (skey ST_SegMapKey [unat u, unat b, unat pro, unat epoch]) data)
    (bnd (Serialize (lb_cAggStripe L) cinfo) (\<lambda>adata.
     seq (sput L (skey ST_SegLocKey [unat u, unat b, unat chunk, unat st]) adata)
         (sput L (skey ST_SegLocKey [unat u, unat b, unat chunk]) (PutUint64 st))))))))))))))))"

definition canAddChunk :: "lib \<Rightarrow> u64 \<Rightarrow> u64 \<Rightarrow> u64 \<Rightarrow> u64 \<Rightarrow> u64 \<Rightarrow> u64 \<Rightarrow> u32 \<Rightarrow> unit sgo" where
  "canAddChunk L u b st len pro nonce chunk =
     bnd (lookupValidateUser L u) (\<lambda>su.
     seq (reject (su_nextBucket su \<le> b) ''add chunk bucket too large'')
    (bnd (gets (getBucketManage L su b)) (\<lambda>(su1, bm).
     seq (setValidateUser u su1)
    (seq (reject (unat chunk \<ge> length (bm_chunks bm)) ''add chunk too large'')
    (bnd (gets (getStripeBitMap L bm u b pro)) (\<lambda>(bm1, cm).
     seq (setValidateUser u (su1\<lparr>su_buckets := (su_buckets su1)(b \<mapsto> bm1)\<rparr>))
    (seq (reject (list_ex (lb_bsTest L cm) (stripe_range st len)) ''add duplicated chunk'')
    (let cinfo = extend_chunk (bm_chunks bm1 ! unat chunk) st len pro nonce;
         cm2 = foldl (lb_bsSet L) cm (stripe_range st len);
         bm2 = bm1\<lparr>bm_chunks := (bm_chunks bm1)[unat chunk := Some cinfo],
                   bm_stripes := (bm_stripes bm1)(pro \<mapsto> cm2)\<rparr> in
     setValidateUser u (su1\<lparr>su_buckets := (su_buckets su1)(b \<mapsto> bm2)\<rparr>)))))))))"

section \<open>Network addresses and metadata\<close>

definition updateNetAddr :: "lib \<Rightarrow> Message \<Rightarrow> unit sgo" where
  "updateNetAddr L msg = sput L (skey ST_NetKey [unat (msg_From msg)]) (msg_Params msg)"

definition canUpdateNetAddr :: "lib \<Rightarrow> Message \<Rightarrow> unit sgo" where
  "canUpdateNetAddr L msg = ret ()"

definition zero_BucMetaParas :: BucMetaParas where
  "zero_BucMetaParas = \<lparr>bmp_BucketID = 0, bmp_Name = [], bmp_NEncrypt = []\<rparr>"

definition zero_ObjMetaParas :: ObjMetaParas where
  "zero_ObjMetaParas = \<lparr>omp_ObjMetaValue = \<lparr>omv_Offset = 0, omv_Length = 0, omv_ETag = [],
       omv_Encrypt = [], omv_Name = [], omv_NEncrypt = [], omv_Extra = []\<rparr>,
     omp_BucketID = 0, omp_ObjectID = 0\<rparr>"

definition addBucMeta :: "lib \<Rightarrow> Message \<Rightarrow> unit sgo" where
  "addBucMeta L msg =
     bnd (orErr ''unmarshal'' (decode (lb_cBucMetaParas L) zero_BucMetaParas (msg_Params msg))) (\<lambda>bmp.
     bnd (lookupUser L (msg_From msg)) (\<lambda>su.
     seq (reject (su_nextBucket su \<le> bmp_BucketID bmp) ''add bucket meta err'')
         (sput L (skey ST_BucMetaKey [unat (msg_From msg), unat (bmp_BucketID bmp)]) (msg_Params msg))))"

definition canAddBucMeta :: "lib \<Rightarrow> Message \<Rightarrow> unit sgo" where
  "canAddBucMeta L msg =
     bnd (orErr ''unmarshal'' (decode (lb_cBucMetaParas L) zero_BucMetaParas (msg_Params msg))) (\<lambda>bmp.
     bnd (lookupValidateUser L (msg_From msg)) (\<lambda>su.
     reject (su_nextBucket su \<le> bmp_BucketID bmp) ''add bucket meta err''))"

text \<open>The keys of object metadata: by position, and by the client-supplied entity tag.\<close>

definition objKey :: "u64 \<Rightarrow> u64 \<Rightarrow> u64 \<Rightarrow> bytes" where
  "objKey u b i = skey ST_ObjMetaKey [unat u, unat b, unat i]"

definition etagKey :: "bytes \<Rightarrow> nat list \<Rightarrow> bytes" where
  "etagKey etag ns = NewKey (KInt (int ST_ObjMetaKey) # KSlice etag # map KUint ns)"

definition addObjMeta :: "lib \<Rightarrow> Message \<Rightarrow> unit sgo" where
  "addObjMeta L msg =
     bnd (orErr ''unmarshal'' (decode (lb_cObjMetaParas L) zero_ObjMetaParas (msg_Params msg))) (\<lambda>omp.
     bnd (Serialize (lb_cObjMetaValue L) (omp_ObjMetaValue omp)) (\<lambda>da.
     bnd (lookupUser L (msg_From msg)) (\<lambda>su.
     seq (reject (su_nextBucket su \<le> omp_BucketID omp) ''add object meta err'')
    (let etag = omv_ETag (omp_ObjMetaValue omp) in
     bnd (gets (sget L (etagKey etag [0]))) (\<lambda>val.
     let cnt = (case val of None \<Rightarrow> 0 | Some d \<Rightarrow> if length d \<ge> 8 then Uint64 d else 0) in
     seq (sput L (etagKey etag [0]) (PutUint64 (cnt + 1)))
    (bnd (Serialize (lb_cObjMetaKey L)
            \<lparr>omk_UserID = msg_From msg, omk_BucketID = omp_BucketID omp, omk_ObjectID = omp_ObjectID omp\<rparr>)
         (\<lambda>kb.
     seq (sput L (if cnt > 0 then etagKey etag [unat cnt] else etagKey etag []) kb)
         (sput L (objKey (msg_From msg) (omp_BucketID omp) (omp_ObjectID omp)) da))))))))"

definition canAddObjMeta :: "lib \<Rightarrow> Message \<Rightarrow> unit sgo" where
  "canAddObjMeta L msg =
     bnd (orErr ''unmarshal'' (decode (lb_cObjMetaParas L) zero_ObjMetaParas (msg_Params msg))) (\<lambda>omp.
     bnd (Serialize (lb_cObjMetaValue L) (omp_ObjMetaValue omp)) (\<lambda>_ :: bytes.
     bnd (lookupValidateUser L (msg_From msg)) (\<lambda>su.
     reject (su_nextBucket su \<le> omp_BucketID omp) ''add object meta err'')))"

end
