(* ===== verification/StateOrder.thy ===== *)
theory StateOrder
  imports StateUser
begin

text \<open>
  Orders of a user at a provider: \<open>submodule/state/morder.go\<close>.  An order is opened
  (\<open>createOrder\<close>), grows by sequences of segments (\<open>addSeq\<close>), is committed
  (\<open>commitOrder\<close>) and, after its end, retired (\<open>subOrder\<close>); \<open>removeSeg\<close> takes lost segments
  out of a sequence.  Each handler has its validating twin.

  Where the two twins have the same text up to the caches they use, the text is one
  definition that takes the cache lookup as an argument.
\<close>

section \<open>Opening an order\<close>

abbreviation so_UserID :: "SignedOrder \<Rightarrow> u64" where "so_UserID x \<equiv> ob_UserID (so_OrderBase x)"
abbreviation so_ProID :: "SignedOrder \<Rightarrow> u64" where "so_ProID x \<equiv> ob_ProID (so_OrderBase x)"
abbreviation so_Nonce :: "SignedOrder \<Rightarrow> u64" where "so_Nonce x \<equiv> ob_Nonce (so_OrderBase x)"
abbreviation so_Start :: "SignedOrder \<Rightarrow> i64" where "so_Start x \<equiv> ob_Start (so_OrderBase x)"
abbreviation so_End :: "SignedOrder \<Rightarrow> i64" where "so_End x \<equiv> ob_End (so_OrderBase x)"

definition checkNewOrder :: "lib \<Rightarrow> Message \<Rightarrow> SignedOrder sgo" where
  "checkNewOrder L msg =
     bnd (orErr ''unmarshal'' (decode (lb_cSignedOrder L) zero_SignedOrder (msg_Params msg))) (\<lambda>od.
     bnd (orErr ''wrong paras order price'' (so_Price od)) (\<lambda>p.
     seq (reject (so_Size od \<noteq> 0) ''order size should be zero'')
    (seq (reject (p \<noteq> 0) ''order price should be zero'')
    (seq (reject (sint (so_End od - so_Start od) < OrderMin) ''order duration is short'')
    (seq (CheckOrder (so_OrderBase od))
    (seq (reject (msg_From msg \<noteq> so_UserID od) ''wrong user'')
         (ret od)))))))"

text \<open>Both parties signed the order; \<open>lk\<close> is the role lookup of the handler.\<close>

definition verifyOrder :: "lib \<Rightarrow> (u64 \<Rightarrow> roleInfo sgo) \<Rightarrow> SignedOrder \<Rightarrow> unit sgo" where
  "verifyOrder L lk od =
     bnd (lk (so_UserID od)) (\<lambda>uri.
     bnd (SignedOrder_Hash (lb_keccak L) (lb_build L) od) (\<lambda>h.
     seq (verify L (rl_base uri) h (so_Usign od))
    (bnd (lk (so_ProID od)) (\<lambda>pri.
     verify L (rl_base pri) h (so_Psign od)))))"

text \<open>The checks against the previous order.\<close>

definition checkOrderTime :: "orderInfo \<Rightarrow> SignedOrder \<Rightarrow> unit sgo" where
  "checkOrderTime oi od =
     seq (reject (oi_base oi \<noteq> None) ''add order base wrong, should be empty'')
    (seq (reject (sint (so_Start od) \<ge> sint (so_End od)) ''start is later than end'')
    (seq (reject (sint (oi_preStart oi) > sint (so_Start od)) ''start is early than previous'')
         (reject (sint (oi_preEnd oi) > sint (so_End od)) ''end is early than previous'')))"

text \<open>``save state'' and ``save for challenge'': the nonces, now and at this epoch.\<close>

definition saveOrderState :: "lib \<Rightarrow> orderKey \<Rightarrow> NonceSeq \<Rightarrow> unit sgo" where
  "saveOrderState L okey ns =
     bnd (Serialize (lb_cNonceSeq L) ns) (\<lambda>data.
     seq (sput L (skey ST_OrderStateKey [unat (fst okey), unat (snd okey)]) data)
    (bnd (gets (\<lambda>s. cei_epoch (ceInfo s))) (\<lambda>e.
     sput L (skey ST_OrderStateKey [unat (fst okey), unat (snd okey), unat e]) data)))"

text \<open>``save up at first nonce'': append a number to the slice stored under the key.\<close>

definition appendAt :: "lib \<Rightarrow> bytes \<Rightarrow> u64 \<Rightarrow> unit sgo" where
  "appendAt L key x =
     bnd (gets (sget L key)) (\<lambda>v.
     sput L key ((case v of None \<Rightarrow> [] | Some d \<Rightarrow> d) @ PutUint64 x))"

definition new_OrderFull :: "lib \<Rightarrow> SignedOrder \<Rightarrow> u32 \<Rightarrow> OrderFull" where
  "new_OrderFull L od n = \<lparr>of_SignedOrder = od, of_SeqNum = n,
     of_AccFr = lb_frToBytes L (lb_frZero L),
     of_DelPart = \<lparr>dp_AccFr = lb_frToBytes L (lb_frZero L), dp_Size = 0, dp_Price = Some 0\<rparr>\<rparr>"

definition orderFullKey :: "orderKey \<Rightarrow> u64 \<Rightarrow> bytes" where
  "orderFullKey okey n = skey ST_OrderBaseKey [unat (fst okey), unat (snd okey), unat n]"

definition orderSeqKey :: "orderKey \<Rightarrow> u64 \<Rightarrow> u32 \<Rightarrow> bytes" where
  "orderSeqKey okey n q = skey ST_OrderSeqKey [unat (fst okey), unat (snd okey), unat n, unat q]"

definition createOrder :: "lib \<Rightarrow> Message \<Rightarrow> unit sgo" where
  "createOrder L msg =
     bnd (checkNewOrder L msg) (\<lambda>od.
     seq (verifyOrder L (lookupRole L) od)
    (let okey = (so_UserID od, so_ProID od) in
     bnd (lookupOrder L okey) (\<lambda>oi.
     seq (reject (so_Nonce od \<noteq> ns_Nonce (oi_ns oi)) ''add order nonce wrong'')
    (seq (reject (ns_SeqNum (oi_ns oi) \<noteq> 0) ''add order seq wrong'')
    (seq (checkOrderTime oi od)
    (seq (setOrder okey (oi\<lparr>oi_base := Some od\<rparr>))
    (bnd (Serialize (lb_cOrderFull L) (new_OrderFull L od (ns_SeqNum (oi_ns oi)))) (\<lambda>data.
     seq (sput L (orderFullKey okey (so_Nonce od)) data)
    (seq (saveOrderState L okey (oi_ns oi))
    (if so_Nonce od = 0 then
       seq (appendAt L (skey ST_ProsKey [unat (so_UserID od)]) (so_ProID od))
           (appendAt L (skey ST_UsersKey [unat (so_ProID od)]) (so_UserID od))
     else ret ()))))))))))"

definition canCreateOrder :: "lib \<Rightarrow> Message \<Rightarrow> unit sgo" where
  "canCreateOrder L msg =
     bnd (checkNewOrder L msg) (\<lambda>od.
     seq (verifyOrder L (lookupValidateRole L) od)
    (let okey = (so_UserID od, so_ProID od) in
     bnd (lookupValidateOrder L okey) (\<lambda>oi.
     seq (reject (so_Nonce od \<noteq> ns_Nonce (oi_ns oi)) ''add order nonce wrong'')
    (seq (checkOrderTime oi od)
         (setValidateOrder okey
            (oi\<lparr>oi_base := Some od, oi_ns := (oi_ns oi)\<lparr>ns_SeqNum := 0\<rparr>,
                oi_accFr := lb_frZero L\<rparr>))))))"

section \<open>Adding a sequence of segments\<close>

definition zero_OrderSeq :: OrderSeq where
  "zero_OrderSeq = \<lparr>os_UserID = 0, os_ProID = 0, os_Nonce = 0, os_SeqNum = 0, os_Size = 0,
     os_Price = None, os_Segments = []\<rparr>"

definition zero_SignedOrderSeq :: SignedOrderSeq where
  "zero_SignedOrderSeq = \<lparr>sos_OrderSeq = zero_OrderSeq, sos_UserDataSig = zero_Signature,
     sos_ProDataSig = zero_Signature, sos_UserSig = zero_Signature, sos_ProSig = zero_Signature\<rparr>"

definition SignedOrderSeq_Hash :: "lib \<Rightarrow> SignedOrderSeq \<Rightarrow> MsgID" where
  "SignedOrderSeq_Hash L so = (case marshal (lb_cOrderSeq L) (sos_OrderSeq so) of
      None \<Rightarrow> MsgIDUndef | Some b \<Rightarrow> MsgIDOf L b)"

text \<open>The number of segments: a \<open>uint64\<close> that wraps around.\<close>

definition segCount :: "AggSegs list \<Rightarrow> u64" where
  "segCount segs = foldl (\<lambda>n seg. n + as_Length seg) 0 segs"

text \<open>The field element of a run of segments, added to \<open>acc\<close>.\<close>

definition segFr :: "lib \<Rightarrow> bytes \<Rightarrow> fr \<Rightarrow> AggSegs \<Rightarrow> fr" where
  "segFr L fs acc seg = foldl (\<lambda>a i. lb_frAdd L a (lb_frFromBytes L (lb_blake3 L
       (CreateSegmentID fs (as_BucketID seg) (of_nat i) (as_ChunkID seg)))))
     acc (stripe_range (as_Start seg) (as_Length seg))"

definition segsFr :: "lib \<Rightarrow> bytes \<Rightarrow> AggSegs list \<Rightarrow> fr" where
  "segsFr L fs segs = foldl (segFr L fs) (lb_frZero L) segs"

definition checkNewSeq :: "lib \<Rightarrow> Message \<Rightarrow> (SignedOrderSeq \<times> int) sgo" where
  "checkNewSeq L msg =
     bnd (orErr ''unmarshal'' (decode (lb_cSignedOrderSeq L) zero_SignedOrderSeq (msg_Params msg))) (\<lambda>so.
     bnd (orErr ''wrong paras price'' (os_Price (sos_OrderSeq so))) (\<lambda>p.
     seq (reject (msg_From msg \<noteq> os_UserID (sos_OrderSeq so)) ''wrong user'')
         (ret (so, p))))"

text \<open>The signatures on the data; the result is the two roles.\<close>

definition verifySeqData ::
  "lib \<Rightarrow> (u64 \<Rightarrow> roleInfo sgo) \<Rightarrow> SignedOrderSeq \<Rightarrow> (roleInfo \<times> roleInfo) sgo" where
  "verifySeqData L lk so =
     bnd (lk (os_UserID (sos_OrderSeq so))) (\<lambda>uri.
     seq (verify L (rl_base uri) (SignedOrderSeq_Hash L so) (sos_UserDataSig so))
    (bnd (lk (os_ProID (sos_OrderSeq so))) (\<lambda>pri.
     seq (verify L (rl_base pri) (SignedOrderSeq_Hash L so) (sos_ProDataSig so))
         (ret (uri, pri)))))"

text \<open>The sequence continues the open order.\<close>

definition checkSeqNonce :: "orderInfo \<Rightarrow> OrderSeq \<Rightarrow> SignedOrder sgo" where
  "checkSeqNonce oi q =
     bnd (orErr ''add order base empty'' (oi_base oi)) (\<lambda>base.
     seq (reject (ns_Nonce (oi_ns oi) \<noteq> os_Nonce q) ''add seq nonce err'')
    (seq (reject (ns_SeqNum (oi_ns oi) \<noteq> os_SeqNum q) ''add seq seqnum err'')
         (ret base)))"

text \<open>``verify size and price'', and the signatures on the order as it will be.\<close>

definition checkSeqSize ::
  "lib \<Rightarrow> roleInfo \<times> roleInfo \<Rightarrow> SignedOrder \<Rightarrow> SignedOrderSeq \<Rightarrow> int \<Rightarrow> unit sgo" where
  "checkSeqSize L roles base so p =
     (let sCnt = segCount (os_Segments (sos_OrderSeq so)) in
     seq (reject (so_Size base + sCnt * DefaultSegSize \<noteq> os_Size (sos_OrderSeq so))
            ''add seq size wrong'')
    (bnd (deref ''nil SegPrice'' (ob_SegPrice (so_OrderBase base))) (\<lambda>sp.
     bnd (deref ''nil Price'' (so_Price base)) (\<lambda>bp.
     let price = sp * sint sCnt + bp in
     seq (reject (price \<noteq> p) ''add seq price wrong'')
    (bnd (SignedOrder_Hash (lb_keccak L) (lb_build L)
            \<lparr>so_OrderBase = so_OrderBase base, so_Size = os_Size (sos_OrderSeq so),
             so_Price = Some price, so_Usign = zero_Signature, so_Psign = zero_Signature\<rparr>) (\<lambda>h.
     seq (verify L (rl_base (fst roles)) h (sos_UserSig so))
         (verify L (rl_base (snd roles)) h (sos_ProSig so))))))))"

text \<open>The open order after the sequence: size, price and signatures replaced.\<close>

definition grow_base :: "SignedOrder \<Rightarrow> SignedOrderSeq \<Rightarrow> int \<Rightarrow> SignedOrder" where
  "grow_base base so p = base\<lparr>so_Size := os_Size (sos_OrderSeq so), so_Price := Some p,
     so_Usign := sos_UserSig so, so_Psign := sos_ProSig so\<rparr>"

text \<open>The writes at the end of \<open>addSeq\<close>.\<close>

definition saveSeq ::
  "lib \<Rightarrow> orderKey \<Rightarrow> SignedOrder \<Rightarrow> NonceSeq \<Rightarrow> fr \<Rightarrow> OrderSeq \<Rightarrow> fr \<Rightarrow> unit sgo" where
  "saveSeq L okey base ns oacc q acc =
     bnd (gets (get_OrderFull L (fst okey) (snd okey) (so_Nonce base))) (\<lambda>mof.
     bnd (orErr ''not found order'' mof) (\<lambda>full.
     bnd (Serialize (lb_cOrderFull L) (full\<lparr>of_SignedOrder := base, of_SeqNum := ns_SeqNum ns,
            of_AccFr := lb_frToBytes L oacc\<rparr>)) (\<lambda>data.
     seq (sput L (orderFullKey okey (so_Nonce base)) data)
    (bnd (Serialize (lb_cSeqFull L) \<lparr>sf_OrderSeq = q, sf_AccFr = lb_frToBytes L acc,
            sf_DelPart = \<lparr>dp_AccFr = lb_frToBytes L (lb_frZero L), dp_Size = 0, dp_Price = Some 0\<rparr>,
            sf_DelSegs = []\<rparr>) (\<lambda>sdata.
     seq (sput L (orderSeqKey okey (os_Nonce q) (os_SeqNum q)) sdata)
         (saveOrderState L okey ns))))))"

definition addSeq :: "lib \<Rightarrow> Message \<Rightarrow> unit sgo" where
  "addSeq L msg =
     bnd (checkNewSeq L msg) (\<lambda>(so, p).
     bnd (verifySeqData L (lookupRole L) so) (\<lambda>roles.
     let q = sos_OrderSeq so; okey = (os_UserID q, os_ProID q) in
     bnd (lookupOrder L okey) (\<lambda>oi.
     bnd (checkSeqNonce oi q) (\<lambda>base.
     bnd (lookupUser L (os_UserID q)) (\<lambda>uinfo.
     seq (checkSeqSize L roles base so p)
    (seq (forM (os_Segments q) (\<lambda>seg. addChunk L (os_UserID q) (as_BucketID seg) (as_Start seg)
            (as_Length seg) (os_ProID q) (os_Nonce q) (as_ChunkID seg)))
    (let acc = segsFr L (su_fsID uinfo) (os_Segments q);
         ns = (oi_ns oi)\<lparr>ns_SeqNum := ns_SeqNum (oi_ns oi) + 1\<rparr>;
         oacc = lb_frAdd L (oi_accFr oi) acc;
         base' = grow_base base so p in
     seq (setOrder okey (oi\<lparr>oi_ns := ns, oi_accFr := oacc, oi_base := Some base'\<rparr>))
         (saveSeq L okey base' ns oacc q acc))))))))"

definition canAddSeq :: "lib \<Rightarrow> Message \<Rightarrow> unit sgo" where
  "canAddSeq L msg =
     bnd (checkNewSeq L msg) (\<lambda>(so, p).
     bnd (verifySeqData L (lookupValidateRole L) so) (\<lambda>roles.
     let q = sos_OrderSeq so; okey = (os_UserID q, os_ProID q) in
     bnd (lookupValidateOrder L okey) (\<lambda>oi.
     bnd (checkSeqNonce oi q) (\<lambda>base.
     seq (checkSeqSize L roles base so p)
    (seq (forM (os_Segments q) (\<lambda>seg. canAddChunk L (os_UserID q) (as_BucketID seg) (as_Start seg)
            (as_Length seg) (os_ProID q) (os_Nonce q) (as_ChunkID seg)))
         (setValidateOrder okey
            (oi\<lparr>oi_ns := (oi_ns oi)\<lparr>ns_SeqNum := ns_SeqNum (oi_ns oi) + 1\<rparr>,
                oi_base := Some (grow_base base so p)\<rparr>)))))))"

section \<open>Committing and retiring an order\<close>

definition zero_OrderCommitParas :: OrderCommitParas where
  "zero_OrderCommitParas = \<lparr>ocp_UserID = 0, ocp_ProID = 0, ocp_Nonce = 0, ocp_SeqNum = 0\<rparr>"

text \<open>The guards of \<open>commitOrder\<close> on the open order; \<open>oinfo.base.Size\<close> panics without one.\<close>

definition checkCommit :: "OrderCommitParas \<Rightarrow> orderInfo \<Rightarrow> unit sgo" where
  "checkCommit p oi =
     seq (reject (ocp_Nonce p \<noteq> ns_Nonce (oi_ns oi)) ''commit order nonce wrong'')
    (seq (reject (ocp_SeqNum p \<noteq> ns_SeqNum (oi_ns oi)) ''commit order seqnum wrong'')
    (bnd (deref ''nil base'' (oi_base oi)) (\<lambda>base.
     reject (so_Size base = 0) ''commit order size is zero'')))"

definition close_order :: "lib \<Rightarrow> orderInfo \<Rightarrow> orderInfo" where
  "close_order L oi = oi\<lparr>oi_ns := (oi_ns oi)\<lparr>ns_Nonce := ns_Nonce (oi_ns oi) + 1, ns_SeqNum := 0\<rparr>,
     oi_accFr := lb_frZero L, oi_base := None\<rparr>"

definition commitOrder :: "lib \<Rightarrow> Message \<Rightarrow> unit sgo" where
  "commitOrder L msg =
     bnd (orErr ''unmarshal'' (decode (lb_cOrderCommitParas L) zero_OrderCommitParas (msg_Params msg))) (\<lambda>p.
     seq (reject (msg_From msg \<noteq> ocp_UserID p) ''wrong user'')
    (let okey = (ocp_UserID p, ocp_ProID p) in
     bnd (lookupOrder L okey) (\<lambda>oi.
     seq (checkCommit p oi)
    (seq (setOrder okey (close_order L oi))
         (saveOrderState L okey (oi_ns (close_order L oi)))))))"

definition canCommitOrder :: "lib \<Rightarrow> Message \<Rightarrow> unit sgo" where
  "canCommitOrder L msg =
     bnd (orErr ''unmarshal'' (decode (lb_cOrderCommitParas L) zero_OrderCommitParas (msg_Params msg))) (\<lambda>p.
     seq (reject (msg_From msg \<noteq> ocp_UserID p) ''wrong user'')
    (let okey = (ocp_UserID p, ocp_ProID p) in
     bnd (lookupValidateOrder L okey) (\<lambda>oi.
     seq (checkCommit p oi)
         (setValidateOrder okey (close_order L oi)))))"

definition zero_OrderSubParas :: OrderSubParas where
  "zero_OrderSubParas = \<lparr>osp_UserID = 0, osp_ProID = 0, osp_Nonce = 0\<rparr>"

text \<open>\<open>build.BaseTime + int64(slot*build.SlotDuration)\<close>\<close>

definition slotTime :: "u64 \<Rightarrow> i64" where
  "slotTime sl = BaseTime + sl * SlotDuration"

text \<open>The guards of \<open>subOrder\<close>: the oldest live order, and it ended before the previous epoch.\<close>

definition checkSub :: "lib \<Rightarrow> OrderSubParas \<Rightarrow> orderInfo \<Rightarrow> unit sgo" where
  "checkSub L p oi =
     seq (reject (osp_Nonce p \<noteq> ns_SubNonce (oi_ns oi)) ''sub order nonce wrong'')
    (seq (reject (osp_Nonce p > ns_Nonce (oi_ns oi)) ''sub order nonce wrong'')
    (bnd (gets (get_OrderFull L (osp_UserID p) (osp_ProID p) (osp_Nonce p))) (\<lambda>mof.
     bnd (orErr ''not found order'' mof) (\<lambda>full.
     bnd (gets (\<lambda>s. slotTime (ce_Slot (cei_previous (ceInfo s))))) (\<lambda>stime.
     reject (sint (so_End (of_SignedOrder full)) > sint stime) ''wrong time'')))))"

definition retire_order :: "orderInfo \<Rightarrow> orderInfo" where
  "retire_order oi = oi\<lparr>oi_ns := (oi_ns oi)\<lparr>ns_SubNonce := ns_SubNonce (oi_ns oi) + 1\<rparr>\<rparr>"

definition subOrder :: "lib \<Rightarrow> Message \<Rightarrow> unit sgo" where
  "subOrder L msg =
     bnd (orErr ''unmarshal'' (decode (lb_cOrderSubParas L) zero_OrderSubParas (msg_Params msg))) (\<lambda>p.
     seq (reject (msg_From msg \<noteq> osp_ProID p) ''wrong provider'')
    (let okey = (osp_UserID p, osp_ProID p) in
     bnd (lookupOrder L okey) (\<lambda>oi.
     seq (checkSub L p oi)
    (seq (setOrder okey (retire_order oi))
         (saveOrderState L okey (oi_ns (retire_order oi)))))))"

text \<open>Validation reads the time from \<open>s.ceInfo\<close>, as the handler does.\<close>

definition canSubOrder :: "lib \<Rightarrow> Message \<Rightarrow> unit sgo" where
  "canSubOrder L msg =
     bnd (orErr ''unmarshal'' (decode (lb_cOrderSubParas L) zero_OrderSubParas (msg_Params msg))) (\<lambda>p.
     seq (reject (msg_From msg \<noteq> osp_ProID p) ''wrong provider'')
    (let okey = (osp_UserID p, osp_ProID p) in
     bnd (lookupValidateOrder L okey) (\<lambda>oi.
     seq (checkSub L p oi)
         (setValidateOrder okey (retire_order oi)))))"

section \<open>Removing lost segments\<close>

definition zero_SegRemoveParas :: SegRemoveParas where
  "zero_SegRemoveParas = \<lparr>srp_UserID = 0, srp_ProID = 0, srp_Nonce = 0, srp_SeqNum = 0,
     srp_Segments = []\<rparr>"

definition zero_SeqFull :: SeqFull where
  "zero_SeqFull = \<lparr>sf_OrderSeq = zero_OrderSeq, sf_AccFr = [], sf_DelPart = zero_DelPart,
     sf_DelSegs = []\<rparr>"

definition get_SeqFull :: "lib \<Rightarrow> orderKey \<Rightarrow> u64 \<Rightarrow> u32 \<Rightarrow> StateMgr \<Rightarrow> SeqFull option" where
  "get_SeqFull L okey n q s =
     Option.bind (sget L (orderSeqKey okey n q) s) (decode (lb_cSeqFull L) zero_SeqFull)"

text \<open>The order the message names, live in the epochs \<open>ce\<close>.\<close>

definition checkRemoveTime :: "lib \<Rightarrow> (StateMgr \<Rightarrow> chalEpochInfo) \<Rightarrow> SegRemoveParas \<Rightarrow> OrderFull sgo" where
  "checkRemoveTime L ce p =
     bnd (gets (get_OrderFull L (srp_UserID p) (srp_ProID p) (srp_Nonce p))) (\<lambda>mof.
     bnd (orErr ''not found order'' mof) (\<lambda>full.
     bnd (gets ce) (\<lambda>c.
     seq (reject (sint (slotTime (ce_Slot (cei_previous c))) > sint (so_End (of_SignedOrder full)))
            ''wrong time expected before'')
    (seq (reject (sint (slotTime (ce_Slot (cei_current c))) < sint (so_Start (of_SignedOrder full)))
            ''wrong time expected after'')
         (ret full)))))"

text \<open>Every removed segment is one of the sequence.\<close>

definition segs_in_seq :: "AggSegs list \<Rightarrow> AggSegs list \<Rightarrow> bool" where
  "segs_in_seq own rm = list_all (\<lambda>seg. list_all
     (\<lambda>i. AggSegs_Has own (as_BucketID seg) (of_nat i) (as_ChunkID seg))
     (stripe_range (as_Start seg) (as_Length seg))) rm"

definition add_del :: "lib \<Rightarrow> OrderDelPart \<Rightarrow> int \<Rightarrow> int \<Rightarrow> u64 \<Rightarrow> fr \<Rightarrow> OrderDelPart" where
  "add_del L d old price sz acc = d\<lparr>dp_Price := Some (old + price), dp_Size := dp_Size d + sz,
     dp_AccFr := lb_frToBytes L (lb_frAdd L (lb_frFromBytes L (dp_AccFr d)) acc)\<rparr>"

definition zero_AccPostIncome :: AccPostIncome where
  "zero_AccPostIncome = \<lparr>api_ProID = 0, api_TokenIndex = 0, api_Value = None, api_Penalty = None\<rparr>"

definition new_AccPostIncome :: "u64 \<Rightarrow> AccPostIncome" where
  "new_AccPostIncome p = \<lparr>api_ProID = p, api_TokenIndex = 0, api_Value = Some 0, api_Penalty = Some 0\<rparr>"

text \<open>
  The tail shared by \<open>removeSeg\<close> and \<open>addSegProof\<close>: the income of the pair at this epoch and
  the accumulated income of the provider are read, updated (\<open>None\<close>: a nil number) and
  written.
\<close>

definition savePostIncomeAt ::
  "lib \<Rightarrow> orderKey \<Rightarrow> u64 \<Rightarrow> (PostIncome \<Rightarrow> PostIncome option) \<Rightarrow> unit sgo" where
  "savePostIncomeAt L okey epoch f =
     (let key = skey ST_SegPayKey [unat (fst okey), unat (snd okey), unat epoch];
          zero = new_PostIncome (fst okey) (snd okey) in
     bnd (gets (sget L key)) (\<lambda>d.
     bnd (deref ''nil income'' (f (case d of None \<Rightarrow> zero
                                 | Some b \<Rightarrow> decode_into (lb_cPostIncome L) zero b))) (\<lambda>pi.
     bnd (Serialize (lb_cPostIncome L) pi) (\<lambda>data.
     sput L key data))))"

definition saveAccIncome ::
  "lib \<Rightarrow> u64 \<Rightarrow> u64 \<Rightarrow> (AccPostIncome \<Rightarrow> AccPostIncome option) \<Rightarrow> unit sgo" where
  "saveAccIncome L pro epoch f =
     (let key = skey ST_SegPayKey [unat pro]; zero = new_AccPostIncome pro in
     bnd (gets (sget L key)) (\<lambda>d.
     bnd (deref ''nil income'' (f (case d of None \<Rightarrow> zero
                                 | Some b \<Rightarrow> decode_into (lb_cAccPostIncome L) zero b))) (\<lambda>spi.
     bnd (Serialize (lb_cAccPostIncome L) spi) (\<lambda>data.
     seq (sput L key data)
         (sput L (skey ST_SegPayKey [0, unat pro, unat epoch]) data)))))"

definition add_penalty :: "int \<Rightarrow> PostIncome \<Rightarrow> PostIncome option" where
  "add_penalty d pi = map_option (\<lambda>x. pi\<lparr>pi_Penalty := Some (x + d)\<rparr>) (pi_Penalty pi)"

definition add_acc_penalty :: "int \<Rightarrow> AccPostIncome \<Rightarrow> AccPostIncome option" where
  "add_acc_penalty d pi = map_option (\<lambda>x. pi\<lparr>api_Penalty := Some (x + d)\<rparr>) (api_Penalty pi)"

text \<open>``save post income'': the income of the pair.\<close>

definition saveIncome :: "lib \<Rightarrow> orderKey \<Rightarrow> PostIncome \<Rightarrow> unit sgo" where
  "saveIncome L okey pi =
     bnd (Serialize (lb_cPostIncome L) pi) (\<lambda>data.
     sput L (skey ST_SegPayKey [unat (fst okey), unat (snd okey)]) data)"

definition removeSeg :: "lib \<Rightarrow> Message \<Rightarrow> unit sgo" where
  "removeSeg L msg =
     bnd (orErr ''unmarshal'' (decode (lb_cSegRemoveParas L) zero_SegRemoveParas (msg_Params msg))) (\<lambda>p.
     seq (reject (msg_From msg \<noteq> srp_ProID p) ''wrong pro'')
    (let okey = (srp_UserID p, srp_ProID p) in
     bnd (lookupOrder L okey) (\<lambda>oi.
     bnd (lookupUser L (srp_UserID p)) (\<lambda>uinfo.
     bnd (checkRemoveTime L ceInfo p) (\<lambda>full.
     bnd (gets (get_SeqFull L okey (srp_Nonce p) (srp_SeqNum p))) (\<lambda>msf.
     bnd (orErr ''not found order seq'' msf) (\<lambda>sf.
     seq (reject (\<not> segs_in_seq (os_Segments (sf_OrderSeq sf)) (srp_Segments p)) ''seg is not found'')
    (let acc = segsFr L (su_fsID uinfo) (srp_Segments p);
         sCnt = segCount (srp_Segments p);
         dels = foldl AggSegs_Push (sf_DelSegs sf) (srp_Segments p);
         sz = sCnt * DefaultSegSize;
         base = of_SignedOrder full in
     bnd (gets (\<lambda>s. slotTime (ce_Slot (cei_previous (ceInfo s))))) (\<lambda>stime.
     bnd (deref ''nil SegPrice'' (ob_SegPrice (so_OrderBase base))) (\<lambda>sp.
     let price = sint sCnt * sp; penalty = price * sint (so_End base - stime) in
     bnd (deref ''nil Penalty'' (add_penalty penalty (oi_income oi))) (\<lambda>inc.
     seq (setOrder okey (oi\<lparr>oi_income := inc\<rparr>))
    (bnd (deref ''nil Price'' (dp_Price (of_DelPart full))) (\<lambda>odp.
     bnd (Serialize (lb_cOrderFull L)
            (full\<lparr>of_DelPart := add_del L (of_DelPart full) odp price sz acc\<rparr>)) (\<lambda>data.
     seq (sput L (orderFullKey okey (srp_Nonce p)) data)
    (bnd (deref ''nil Price'' (dp_Price (sf_DelPart sf))) (\<lambda>sdp.
     bnd (Serialize (lb_cSeqFull L)
            (sf\<lparr>sf_DelPart := add_del L (sf_DelPart sf) sdp price sz acc,
                sf_DelSegs := AggSegs_Merge (lb_sortAggSegs L) dels\<rparr>)) (\<lambda>sdata.
     seq (sput L (orderSeqKey okey (srp_Nonce p) (srp_SeqNum p)) sdata)
    (seq (saveIncome L okey inc)
    (bnd (gets (\<lambda>s. ce_Epoch (cei_current (ceInfo s)))) (\<lambda>epoch.
     seq (savePostIncomeAt L okey epoch (add_penalty penalty))
         (saveAccIncome L (srp_ProID p) epoch (add_acc_penalty penalty))))))))))))))))))))))"

definition canRemoveSeg :: "lib \<Rightarrow> Message \<Rightarrow> unit sgo" where
  "canRemoveSeg L msg =
     bnd (orErr ''unmarshal'' (decode (lb_cSegRemoveParas L) zero_SegRemoveParas (msg_Params msg))) (\<lambda>p.
     seq (reject (msg_From msg \<noteq> srp_ProID p) ''wrong pro'')
    (bnd (checkRemoveTime L validateCeInfo p) (\<lambda>_.
     bnd (gets (get_SeqFull L (srp_UserID p, srp_ProID p) (srp_Nonce p) (srp_SeqNum p))) (\<lambda>msf.
     bnd (orErr ''not found order seq'' msf) (\<lambda>sf.
     reject (\<not> segs_in_seq (os_Segments (sf_OrderSeq sf)) (srp_Segments p)) ''seg is not found'')))))"

end
