(* ===== verification/StateChal.thy ===== *)
theory StateChal
  imports StateOrder
begin

text \<open>
  Challenge epochs, storage proofs and the confirmation of incomes: \<open>epoch.go\<close>,
  \<open>challenge.go\<close> and \<open>pay.go\<close> of \<open>submodule/state\<close>.
\<close>

section \<open>Challenge epochs\<close>

definition zero_SignedEpochParams :: SignedEpochParams where
  "zero_SignedEpochParams = \<lparr>sep_Epoch = 0, sep_Prev = [], sep_Sig = NewMultiSignature 0\<rparr>"

text \<open>
  The checks of both twins: \<open>ce\<close>, \<open>ver\<close> and \<open>sl\<close> are the epochs, the version and the slot
  the twin looks at.  The slot difference is a \<open>uint64\<close>.
\<close>

definition checkEpoch ::
  "lib \<Rightarrow> (StateMgr \<Rightarrow> chalEpochInfo) \<Rightarrow> (StateMgr \<Rightarrow> u32) \<Rightarrow> (StateMgr \<Rightarrow> u64) \<Rightarrow> Message \<Rightarrow>
   SignedEpochParams sgo" where
  "checkEpoch L ce ver sl msg =
     bnd (orErr ''unmarshal'' (decode (lb_cSignedEpochParams L) zero_SignedEpochParams (msg_Params msg))) (\<lambda>sep.
     bnd (gets ce) (\<lambda>c.
     seq (reject (sep_Epoch sep \<noteq> cei_epoch c) ''add chal epoch err'')
    (seq (reject (sep_Prev sep \<noteq> ce_Seed (cei_current c)) ''add chal epoch seed err'')
    (bnd (gets (\<lambda>s. map_of (ChalDurMap (lb_build L)) (ver s))) (\<lambda>d.
     bnd (orErr ''duration is wrong'' d) (\<lambda>dur.
     bnd (gets sl) (\<lambda>now.
     seq (reject (now - ce_Slot (cei_current c) < dur) ''duration is wrong'')
         (ret sep))))))))"

text \<open>The assignments to the epochs; \<open>seed\<close> is the hash of the message's parameters.\<close>

definition next_epoch :: "chalEpochInfo \<Rightarrow> u64 \<Rightarrow> u64 \<Rightarrow> MsgID \<Rightarrow> chalEpochInfo" where
  "next_epoch c e sl seed = \<lparr>cei_epoch = cei_epoch c + 1,
     cei_current = \<lparr>ce_Epoch = e, ce_Slot = sl, ce_Seed = seed\<rparr>,
     cei_previous = cei_current c\<rparr>"

definition updateChalEpoch :: "lib \<Rightarrow> Message \<Rightarrow> unit sgo" where
  "updateChalEpoch L msg =
     bnd (checkEpoch L ceInfo version slot msg) (\<lambda>sep.
     seq (modify (\<lambda>s. s\<lparr>ceInfo := next_epoch (ceInfo s) (sep_Epoch sep) (slot s) (MsgIDOf L (msg_Params msg))\<rparr>))
    (bnd (gets ceInfo) (\<lambda>c.
     bnd (Serialize (lb_cChalEpoch L) (cei_current c)) (\<lambda>data.
     seq (sput L (skey ST_ChalEpochKey [unat (ce_Epoch (cei_current c))]) data)
         (sput L (skey ST_ChalEpochKey []) (PutUint64 (cei_epoch c)))))))"

text \<open>Validation checks the duration with \<open>validateSlot\<close> but records \<open>s.slot\<close>.\<close>

definition canUpdateChalEpoch :: "lib \<Rightarrow> Message \<Rightarrow> unit sgo" where
  "canUpdateChalEpoch L msg =
     bnd (checkEpoch L validateCeInfo validateVersion validateSlot msg) (\<lambda>sep.
     modify (\<lambda>s. s\<lparr>validateCeInfo :=
       next_epoch (validateCeInfo s) (sep_Epoch sep) (slot s) (MsgIDOf L (msg_Params msg))\<rparr>))"

section \<open>Storage proofs\<close>

definition zero_SegChalParams :: SegChalParams where
  "zero_SegChalParams = \<lparr>scp_UserID = 0, scp_ProID = 0, scp_Epoch = 0, scp_OrderStart = 0,
     scp_OrderEnd = 0, scp_Size = 0, scp_Price = None, scp_Proof = []\<rparr>"

text \<open>What the loops accumulate: \<open>orderDur\<close>, \<open>totalPrice\<close>, \<open>totalSize\<close>, \<open>delSize\<close>, \<open>chal\<close>.\<close>

record chal_acc =
  ca_orderDur :: i64
  ca_totalPrice :: int
  ca_totalSize :: u64
  ca_delSize :: u64
  ca_chal :: bytes

text \<open>
  How much of the challenged period \<open>[cs, ce]\<close> the order covers.  The three cases of the
  code; an order strictly inside the period leaves the value of the previous round.
\<close>

definition orderDur :: "i64 \<Rightarrow> i64 \<Rightarrow> SignedOrder \<Rightarrow> i64 \<Rightarrow> i64" where
  "orderDur cs ce ord old =
     (if sint (so_Start ord) \<le> sint cs \<and> sint (so_End ord) \<ge> sint ce then ce - cs
      else if sint (so_Start ord) \<ge> sint cs \<and> sint (so_End ord) \<ge> sint ce then ce - so_Start ord
      else if sint (so_Start ord) \<le> sint cs \<and> sint (so_End ord) \<le> sint ce then so_End ord - cs
      else old)"

text \<open>The body of the loop over the sequences of the open order.\<close>

definition seqStep :: "lib \<Rightarrow> orderKey \<Rightarrow> NonceSeq \<Rightarrow> nat \<Rightarrow> chal_acc \<Rightarrow> chal_acc sgo" where
  "seqStep L okey ns i a =
     bnd (gets (get_SeqFull L okey (ns_Nonce ns) (of_nat i))) (\<lambda>msf.
     bnd (orErr ''not found order seq'' msf) (\<lambda>sf.
     bnd (deref ''nil Price'' (dp_Price (sf_DelPart sf))) (\<lambda>dp.
     let a1 = a\<lparr>ca_totalPrice := ca_totalPrice a - dp * sint (ca_orderDur a),
                ca_delSize := ca_delSize a + dp_Size (sf_DelPart sf),
                ca_chal := lb_chalAdd L (ca_chal a)
                   (lb_frSubBytes L (sf_AccFr sf) (dp_AccFr (sf_DelPart sf)))\<rparr> in
     if (of_nat i :: u32) = ns_SeqNum ns - 1 then
       bnd (deref ''nil Price'' (os_Price (sf_OrderSeq sf))) (\<lambda>p.
       ret (a1\<lparr>ca_totalSize := ca_totalSize a1 + os_Size (sf_OrderSeq sf),
               ca_totalPrice := ca_totalPrice a1 + p * sint (ca_orderDur a1)\<rparr>))
     else ret a1)))"

text \<open>``always challenge latest one''\<close>

definition latestOrder :: "lib \<Rightarrow> orderKey \<Rightarrow> NonceSeq \<Rightarrow> i64 \<Rightarrow> i64 \<Rightarrow> chal_acc \<Rightarrow> chal_acc sgo" where
  "latestOrder L okey ns cs ce a =
     (if ns_SeqNum ns > 0 then
        bnd (gets (get_OrderFull L (fst okey) (snd okey) (ns_Nonce ns))) (\<lambda>mof.
        bnd (orErr ''not found order'' mof) (\<lambda>full.
        if sint (so_Start (of_SignedOrder full)) < sint ce then
          seq (reject (sint (so_End (of_SignedOrder full)) \<le> sint cs) ''chal order all expired'')
              (foldM [0..<unat (ns_SeqNum ns)]
                 (a\<lparr>ca_orderDur := orderDur cs ce (of_SignedOrder full) (ca_orderDur a)\<rparr>)
                 (seqStep L okey ns))
        else ret a))
      else ret a)"

text \<open>A committed order, added to the totals.\<close>

definition addCommitted :: "lib \<Rightarrow> i64 \<Rightarrow> i64 \<Rightarrow> OrderFull \<Rightarrow> chal_acc \<Rightarrow> chal_acc sgo" where
  "addCommitted L cs ce full a =
     (let ord = of_SignedOrder full; dur = orderDur cs ce ord (ca_orderDur a) in
     bnd (deref ''nil Price'' (so_Price ord)) (\<lambda>p.
     bnd (deref ''nil Price'' (dp_Price (of_DelPart full))) (\<lambda>dp.
     ret (a\<lparr>ca_orderDur := dur,
            ca_totalPrice := ca_totalPrice a + (p - dp) * sint dur,
            ca_totalSize := ca_totalSize a + so_Size ord,
            ca_delSize := ca_delSize a + dp_Size (of_DelPart full),
            ca_chal := lb_chalAdd L (ca_chal a)
               (lb_frSubBytes L (of_AccFr full) (dp_AccFr (of_DelPart full)))\<rparr>))))"

text \<open>
  The bodies of the loops over the committed orders.  The handler refuses an order that
  starts after the period; the validating twin skips it.
\<close>

definition orderStep ::
  "lib \<Rightarrow> orderKey \<Rightarrow> i64 \<Rightarrow> i64 \<Rightarrow> nat \<Rightarrow> chal_acc \<Rightarrow> chal_acc sgo" where
  "orderStep L okey cs ce i a =
     bnd (gets (get_OrderFull L (fst okey) (snd okey) (of_nat i))) (\<lambda>mof.
     bnd (orErr ''not found order'' mof) (\<lambda>full.
     seq (reject (sint (so_Start (of_SignedOrder full)) \<ge> sint ce \<or>
                  sint (so_End (of_SignedOrder full)) \<le> sint cs) ''chal order expired'')
         (addCommitted L cs ce full a)))"

definition canOrderStep ::
  "lib \<Rightarrow> orderKey \<Rightarrow> i64 \<Rightarrow> i64 \<Rightarrow> nat \<Rightarrow> chal_acc \<Rightarrow> chal_acc sgo" where
  "canOrderStep L okey cs ce i a =
     bnd (gets (get_OrderFull L (fst okey) (snd okey) (of_nat i))) (\<lambda>mof.
     bnd (orErr ''not found order'' mof) (\<lambda>full.
     if sint (so_Start (of_SignedOrder full)) \<ge> sint ce then ret a
     else seq (reject (sint (so_End (of_SignedOrder full)) \<le> sint cs) ''chal order expired'')
              (addCommitted L cs ce full a)))"

text \<open>The head of both twins: the parameters and the proof they carry.\<close>

definition checkChal ::
  "lib \<Rightarrow> (StateMgr \<Rightarrow> chalEpochInfo) \<Rightarrow> Message \<Rightarrow> (SegChalParams \<times> bytes \<times> int) sgo" where
  "checkChal L ce msg =
     bnd (orErr ''unmarshal'' (decode (lb_cSegChalParams L) zero_SegChalParams (msg_Params msg))) (\<lambda>scp.
     bnd (orErr ''proof'' (lb_pdpProof L (scp_Proof scp))) (\<lambda>prf.
     bnd (orErr ''wrong paras price'' (scp_Price scp)) (\<lambda>p.
     seq (reject (msg_From msg \<noteq> scp_ProID scp) ''wrong pro'')
    (bnd (gets ce) (\<lambda>c.
     seq (reject (scp_Epoch scp \<noteq> ce_Epoch (cei_current c)) ''wrong challenge epoch'')
         (ret (scp, prf, p)))))))"

definition newChal :: "lib \<Rightarrow> (StateMgr \<Rightarrow> chalEpochInfo) \<Rightarrow> u64 \<Rightarrow> segPerUser \<Rightarrow> bytes sgo" where
  "newChal L ce u uinfo =
     bnd (gets ce) (\<lambda>c.
     orErr ''challenge'' (lb_newChallenge L (su_verifyKey uinfo)
       (lb_blake3 L (PutUint64 u @ ce_Seed (cei_current c)))))"

text \<open>The nonces the proof is about: those saved at its epoch, else the current ones.\<close>

definition chalNonce :: "lib \<Rightarrow> orderKey \<Rightarrow> u64 \<Rightarrow> NonceSeq \<Rightarrow> StateMgr \<Rightarrow> NonceSeq" where
  "chalNonce L okey epoch ns s =
     (let ns0 = \<lparr>ns_Nonce = ns_Nonce ns, ns_SeqNum = ns_SeqNum ns, ns_SubNonce = 0\<rparr> in
      case sget L (skey ST_OrderStateKey [unat (fst okey), unat (snd okey), unat epoch]) s of
        None \<Rightarrow> ns0 | Some d \<Rightarrow> decode_into (lb_cNonceSeq L) ns0 d)"

text \<open>
  From the nonces to the totals: size, price and challenge of everything the provider has
  to prove.  \<open>step\<close> is the body of the loop over committed orders.
\<close>

definition chalTotals ::
  "lib \<Rightarrow> (StateMgr \<Rightarrow> chalEpochInfo) \<Rightarrow> (i64 \<Rightarrow> i64 \<Rightarrow> nat \<Rightarrow> chal_acc \<Rightarrow> chal_acc sgo) \<Rightarrow>
   orderKey \<Rightarrow> SegChalParams \<Rightarrow> NonceSeq \<Rightarrow> bytes \<Rightarrow> chal_acc sgo" where
  "chalTotals L cei step okey scp ns chal =
     seq (reject (ns_Nonce ns = 0 \<and> ns_SeqNum ns = 0) ''challenge on empty data'')
    (seq (reject (scp_OrderStart scp > scp_OrderEnd scp) ''chal has invalid orders'')
    (seq (reject (ns_Nonce ns \<noteq> scp_OrderEnd scp) ''chal has wrong order end'')
    (bnd (gets cei) (\<lambda>c.
     let cs = slotTime (ce_Slot (cei_previous c)); ce = slotTime (ce_Slot (cei_current c)) in
     seq (reject (sint (ce - cs) \<le> 0) ''chal at wrong epoch'')
    (bnd (latestOrder L okey ns cs ce \<lparr>ca_orderDur = 0, ca_totalPrice = 0, ca_totalSize = 0,
            ca_delSize = 0, ca_chal = chal\<rparr>) (\<lambda>a.
     bnd (if ns_Nonce ns > 0
          then foldM [unat (scp_OrderStart scp)..<unat (scp_OrderEnd scp)] a (step cs ce)
          else ret a) (\<lambda>a2.
     ret (a2\<lparr>ca_totalSize := ca_totalSize a2 - ca_delSize a2\<rparr>))))))))"

text \<open>The totals agree with the parameters and the proof verifies.\<close>

definition checkProof :: "lib \<Rightarrow> segPerUser \<Rightarrow> SegChalParams \<Rightarrow> int \<Rightarrow> bytes \<Rightarrow> chal_acc \<Rightarrow> unit sgo" where
  "checkProof L uinfo scp p prf a =
     seq (reject (ca_totalSize a \<noteq> scp_Size scp) ''wrong challenge proof size'')
    (seq (reject (ca_totalPrice a \<noteq> p) ''wrong challenge proof price'')
    (bnd (orErr ''verify'' (lb_verifyProof L (su_verifyKey uinfo) (ca_chal a) prf)) (\<lambda>ok.
     reject (\<not> ok) ''wrong challenge proof'')))"

definition add_value :: "int \<Rightarrow> PostIncome \<Rightarrow> PostIncome option" where
  "add_value d pi = map_option (\<lambda>x. pi\<lparr>pi_Value := Some (x + d)\<rparr>) (pi_Value pi)"

definition add_acc_value :: "int \<Rightarrow> AccPostIncome \<Rightarrow> AccPostIncome option" where
  "add_acc_value d pi = map_option (\<lambda>x. pi\<lparr>api_Value := Some (x + d)\<rparr>) (api_Value pi)"

text \<open>The assignments and writes after a successful check.\<close>

definition saveProof ::
  "lib \<Rightarrow> Message \<Rightarrow> orderKey \<Rightarrow> u64 \<Rightarrow> int \<Rightarrow> orderInfo \<Rightarrow> unit sgo" where
  "saveProof L msg okey epoch tot oi =
     (let oi1 = oi\<lparr>oi_prove := epoch + 1\<rparr> in
     seq (setOrder okey oi1)
    (bnd (deref ''nil Value'' (add_value tot (oi_income oi1))) (\<lambda>inc.
     let oi2 = oi1\<lparr>oi_income := inc\<rparr> in
     seq (setOrder okey oi2)
    (seq (sput L (skey ST_SegProofKey [unat (fst okey), unat (snd okey), unat epoch]) (msg_Params msg))
    (seq (sput L (skey ST_SegProofKey [unat (fst okey), unat (snd okey)]) (PutUint64 (oi_prove oi2)))
    (seq (saveIncome L okey inc)
    (seq (savePostIncomeAt L okey epoch (add_value tot))
    (seq (saveAccIncome L (snd okey) epoch (add_acc_value tot))
    (bnd (gets (\<lambda>s. cei_epoch (ceInfo s))) (\<lambda>e.
     bnd (Serialize (lb_cNonceSeq L) (oi_ns oi2)) (\<lambda>data.
     sput L (skey ST_OrderStateKey [unat (fst okey), unat (snd okey), unat e]) data)))))))))))"

definition addSegProof :: "lib \<Rightarrow> Message \<Rightarrow> unit sgo" where
  "addSegProof L msg =
     bnd (checkChal L ceInfo msg) (\<lambda>(scp, prf, p).
     let okey = (scp_UserID scp, scp_ProID scp) in
     bnd (lookupOrder L okey) (\<lambda>oi.
     seq (reject (oi_prove oi > scp_Epoch scp) ''challenge proof submitted or missed'')
    (bnd (lookupUser L (scp_UserID scp)) (\<lambda>uinfo.
     bnd (newChal L ceInfo (scp_UserID scp) uinfo) (\<lambda>chal.
     bnd (gets (chalNonce L okey (scp_Epoch scp) (oi_ns oi))) (\<lambda>ns.
     bnd (chalTotals L ceInfo (orderStep L okey) okey scp ns chal) (\<lambda>a.
     seq (checkProof L uinfo scp p prf a)
         (saveProof L msg okey (scp_Epoch scp) (ca_totalPrice a) oi))))))))"

text \<open>The user of the validating twin: the validation cache, the apply cache, the store.\<close>

definition lookupProofUser :: "lib \<Rightarrow> u64 \<Rightarrow> segPerUser sgo" where
  "lookupProofUser L u =
     bnd (gets (\<lambda>s. (validateSInfo s u, sInfo s u))) (\<lambda>(v, c). case v of
       Some su \<Rightarrow> ret su
     | None \<Rightarrow> (case c of
         Some su \<Rightarrow> ret su
       | None \<Rightarrow> bnd (loadUser L u) (\<lambda>su. seq (setValidateUser u su) (ret su))))"

definition canAddSegProof :: "lib \<Rightarrow> Message \<Rightarrow> unit sgo" where
  "canAddSegProof L msg =
     bnd (checkChal L validateCeInfo msg) (\<lambda>(scp, prf, p).
     let okey = (scp_UserID scp, scp_ProID scp) in
     bnd (lookupValidateOrder L okey) (\<lambda>oi.
     seq (reject (oi_prove oi > scp_Epoch scp) ''challenge proof submitted or missed'')
    (bnd (lookupProofUser L (scp_UserID scp)) (\<lambda>uinfo.
     bnd (newChal L validateCeInfo (scp_UserID scp) uinfo) (\<lambda>chal.
     bnd (gets (chalNonce L okey (scp_Epoch scp) (oi_ns oi))) (\<lambda>ns.
     bnd (chalTotals L validateCeInfo (canOrderStep L okey) okey scp ns chal) (\<lambda>a.
     seq (checkProof L uinfo scp p prf a)
         (setValidateOrder okey (oi\<lparr>oi_prove := scp_Epoch scp + 1\<rparr>)))))))))"

section \<open>Confirming incomes\<close>

text \<open>\<open>x.Cmp(y) == 0\<close> on \<open>*big.Int\<close>: two nil pointers are equal, one nil pointer panics.\<close>

definition bigEq :: "int option \<Rightarrow> int option \<Rightarrow> ('s, bool) go" where
  "bigEq a b = (case a of
      None \<Rightarrow> (case b of None \<Rightarrow> ret True | Some _ \<Rightarrow> fail (Panic ''nil Int''))
    | Some x \<Rightarrow> (case b of None \<Rightarrow> fail (Panic ''nil Int'') | Some y \<Rightarrow> ret (x = y)))"

definition rejectNe :: "int option \<Rightarrow> int option \<Rightarrow> string \<Rightarrow> ('s, unit) go" where
  "rejectNe a b e = bnd (bigEq a b) (\<lambda>eq. reject (\<not> eq) e)"

definition zero_PostIncomeParams :: PostIncomeParams where
  "zero_PostIncomeParams = \<lparr>pip_Epoch = 0, pip_Income = zero_AccPostIncome, pip_Sig = zero_Signature\<rparr>"

text \<open>
  Both twins up to the stored confirmation: the keeper, the accumulated income at the epoch
  (the result), and the keeper's signature.
\<close>

definition checkPay ::
  "lib \<Rightarrow> (StateMgr \<Rightarrow> chalEpochInfo) \<Rightarrow> (u64 \<Rightarrow> roleInfo sgo) \<Rightarrow> Message \<Rightarrow>
   (PostIncomeParams \<times> AccPostIncome) sgo" where
  "checkPay L ce lk msg =
     bnd (orErr ''unmarshal'' (decode (lb_cPostIncomeParams L) zero_PostIncomeParams (msg_Params msg))) (\<lambda>pip.
     bnd (gets ce) (\<lambda>c.
     seq (reject (pip_Epoch pip \<noteq> ce_Epoch (cei_previous c)) ''add post income epoch'')
    (bnd (lk (msg_From msg)) (\<lambda>kri.
     bnd (deref ''nil role'' (rl_base kri)) (\<lambda>b.
     seq (reject (ri_Type b \<noteq> RoleInfo_Keeper) ''add post income role type wrong'')
    (bnd (gets (sget L (skey ST_SegPayKey [0, unat (api_ProID (pip_Income pip)), unat (pip_Epoch pip)]))) (\<lambda>md.
     bnd (orErr ''not found'' md) (\<lambda>d.
     bnd (orErr ''unmarshal'' (decode (lb_cAccPostIncome L) zero_AccPostIncome d)) (\<lambda>spi.
     seq (rejectNe (api_Value spi) (api_Value (pip_Income pip)) ''income value not equal'')
    (seq (rejectNe (api_Penalty spi) (api_Penalty (pip_Income pip)) ''income penalty not equal'')
    (bnd (AccPostIncome_Hash (lb_keccak L) (lb_build L) (pip_Income pip)) (\<lambda>h.
     seq (verify L (rl_base kri) h (pip_Sig pip))
         (ret (pip, spi))))))))))))))"

text \<open>The stored confirmation agrees with the accumulated income.\<close>

definition checkConfirm :: "AccPostIncome \<Rightarrow> AccPostIncome \<Rightarrow> unit sgo" where
  "checkConfirm sapi spi =
     seq (reject (api_ProID sapi \<noteq> api_ProID spi) ''proID is not right'')
    (seq (rejectNe (api_Value sapi) (api_Value spi) ''income value is not right'')
         (rejectNe (api_Penalty sapi) (api_Penalty spi) ''income Penalty is not right''))"

definition addPay :: "lib \<Rightarrow> Message \<Rightarrow> unit sgo" where
  "addPay L msg =
     bnd (checkPay L ceInfo (lookupRole L) msg) (\<lambda>(pip, spi).
     let pro = api_ProID (pip_Income pip);
         key = skey ST_SegPayComfirmKey [unat pro, unat (pip_Epoch pip)];
         fresh = \<lparr>sapi_AccPostIncome = pip_Income pip, sapi_Sig = NewMultiSignature SigSecp256k1\<rparr> in
     bnd (gets (sget L key)) (\<lambda>d.
     let sapi = (case d of None \<Rightarrow> fresh
                 | Some b \<Rightarrow> decode_into (lb_cSignedAccPostIncome L) fresh b) in
     seq (checkConfirm (sapi_AccPostIncome sapi) spi)
    (bnd (orFail (MultiSignature_Add (lb_sigAggregate L) (sapi_Sig sapi) (msg_From msg) (pip_Sig pip))) (\<lambda>ms.
     bnd (Serialize (lb_cSignedAccPostIncome L) (sapi\<lparr>sapi_Sig := ms\<rparr>)) (\<lambda>data.
     seq (sput L key data)
         (sput L (skey ST_SegPayComfirmKey [unat pro]) data))))))"

text \<open>The twin decodes the stored confirmation into \<open>spi\<close>, not into \<open>sapi\<close>.\<close>

definition canAddPay :: "lib \<Rightarrow> Message \<Rightarrow> unit sgo" where
  "canAddPay L msg =
     bnd (checkPay L validateCeInfo (lookupValidateRole L) msg) (\<lambda>(pip, spi).
     bnd (gets (sget L (skey ST_SegPayComfirmKey
            [unat (api_ProID (pip_Income pip)), unat (pip_Epoch pip)]))) (\<lambda>d.
     let spi' = (case d of None \<Rightarrow> spi | Some b \<Rightarrow> decode_into (lb_cAccPostIncome L) spi b) in
     seq (checkConfirm (pip_Income pip) spi')
    (bnd (orFail (MultiSignature_Add (lb_sigAggregate L) (NewMultiSignature SigSecp256k1)
            (msg_From msg) (pip_Sig pip))) (\<lambda>_.
     ret ()))))"

end
