(* ===== verification/StateBlock.thy ===== *)
theory StateBlock
  imports StateChal
begin

text \<open>
  Blocks and messages: start-up and \<open>ApplyBlock\<close> (\<open>state.go\<close>), \<open>ValidateBlock\<close> and
  \<open>ValidateMsg\<close> (\<open>validate.go\<close>), and the queries (\<open>state_api.go\<close>).  The manager's lock makes
  each of these atomic, so a run of the manager is a sequence of them.
\<close>

section \<open>Start-up\<close>

definition newChalEpoch :: "MsgID \<Rightarrow> ChalEpoch" where
  "newChalEpoch seed = \<lparr>ce_Epoch = 0, ce_Slot = 0, ce_Seed = seed\<rparr>"

text \<open>The first two blocks of \<open>load\<close>: height, slot and version.\<close>

definition load_height :: "lib \<Rightarrow> StateMgr \<Rightarrow> StateMgr" where
  "load_height L s =
     (let s1 = (case ds s (skey ST_BlockHeightKey []) of
                  None \<Rightarrow> s
                | Some v \<Rightarrow>
                    (let h = (if length v \<ge> 8 then s\<lparr>height := Uint64 v + 1\<rparr> else s)
                     in if length v \<ge> 16 then h\<lparr>slot := Uint64 (drop 8 v)\<rparr> else h));
          ver = foldl (\<lambda>w (i, ue). if height s1 \<ge> ue \<and> w < i then i else w)
                  (version s1) (UpdateMap (lb_build L))
      in s1\<lparr>version := ver, validateVersion := ver\<rparr>)"

definition load_block :: "lib \<Rightarrow> StateMgr \<Rightarrow> StateMgr" where
  "load_block L s =
     (if height s > 0 then
        (case ds s (skey ST_BlockHeightKey [unat (height s - 1)]) of
           None \<Rightarrow> s
         | Some v \<Rightarrow>
             (let b = (if length v \<ge> MsgLen
                       then (case FromBytes (lb_mhDecode L) (take MsgLen v) of
                               None \<Rightarrow> s | Some rt \<Rightarrow> s\<lparr>blkID := rt\<rparr>)
                       else s)
              in if length v \<ge> MsgLen + 8 then b\<lparr>slot := Uint64 (drop MsgLen v)\<rparr> else b))
      else s)"

text \<open>A stored root: the tree's 32 bytes, or a message identifier.\<close>

definition set_root :: "lib \<Rightarrow> bytes option \<Rightarrow> StateMgr \<Rightarrow> StateMgr" where
  "set_root L mv s = (case mv of
      None \<Rightarrow> s
    | Some v \<Rightarrow>
        if length v = 32 then s\<lparr>root := MsgIDOf L v, smt := smtSetRoot v (smt s)\<rparr>
        else (case FromBytes (lb_mhDecode L) v of None \<Rightarrow> s | Some rt \<Rightarrow> s\<lparr>root := rt\<rparr>))"

definition load_root :: "lib \<Rightarrow> StateMgr \<Rightarrow> StateMgr" where
  "load_root L s =
     (let s1 = set_root L (ds s (skey ST_RootKey [])) s;
          s2 = (if height s1 > 0
                then set_root L (ds s1 (skey ST_RootKey [unat (height s1 - 1)])) s1 else s1)
      in s2\<lparr>validateRoot := root s2\<rparr>)"

text \<open>The stored identifiers whose role is stored.\<close>

definition load_ids :: "lib \<Rightarrow> nat \<Rightarrow> StateMgr \<Rightarrow> u64 list" where
  "load_ids L mt s = (case ds s (skey mt []) of
      None \<Rightarrow> []
    | Some v \<Rightarrow> filter (\<lambda>kid. shas L (skey ST_RoleBaseKey [unat kid]) s = Some True) (u64s_of v))"

definition load_roles :: "lib \<Rightarrow> StateMgr \<Rightarrow> StateMgr" where
  "load_roles L s = s\<lparr>keepers := keepers s @ load_ids L ST_KeepersKey s,
     pros := pros s @ load_ids L ST_ProsKey s, users := users s @ load_ids L ST_UsersKey s\<rparr>"

definition load_epoch :: "lib \<Rightarrow> StateMgr \<Rightarrow> StateMgr" where
  "load_epoch L s =
     (let e = (case sget L (skey ST_ChalEpochKey []) s of
                 None \<Rightarrow> cei_epoch (ceInfo s)
               | Some v \<Rightarrow> if length v \<ge> 8 then Uint64 v else cei_epoch (ceInfo s));
          at = (\<lambda>n old. case sget L (skey ST_ChalEpochKey [unat n]) s of
                 None \<Rightarrow> old | Some v \<Rightarrow> decode_into (lb_cChalEpoch L) old v);
          c = (ceInfo s)\<lparr>cei_epoch := e\<rparr>;
          c1 = (if e > 0 then c\<lparr>cei_current := at (e - 1) (cei_current c)\<rparr> else c);
          c2 = (if e > 1 then c1\<lparr>cei_previous := at (e - 2) (cei_previous c1)\<rparr> else c1)
      in s\<lparr>ceInfo := c2\<rparr>)"

definition load :: "lib \<Rightarrow> StateMgr \<Rightarrow> StateMgr" where
  "load L s = load_epoch L (load_roles L (load_root L (load_block L (load_height L s))))"

definition initStateMgr :: "lib \<Rightarrow> bytes \<Rightarrow> u64 \<Rightarrow> int \<Rightarrow> kvs \<Rightarrow> StateMgr" where
  "initStateMgr L base groupID thre d =
     (let gid = MsgIDOf L (base @ PutUint64 groupID);
          c = \<lparr>cei_epoch = 0, cei_current = newChalEpoch gid, cei_previous = newChalEpoch gid\<rparr>
      in \<lparr>ds = d, smt = NewSMTree (lb_trie L), tds = None, genesisBlockID = gid,
          keepers = [], pros = [], users = [], threshold = thre, blkID = gid,
          version = 0, height = 0, slot = 0, ceInfo = c, root = gid,
          oInfo = (\<lambda>_. None), sInfo = (\<lambda>_. None), rInfo = (\<lambda>_. None),
          validateVersion = 0, validateHeight = 0, validateSlot = 0, validateCeInfo = c,
          validateRoot = gid, validateOInfo = (\<lambda>_. None), validateSInfo = (\<lambda>_. None),
          validateRInfo = (\<lambda>_. None)\<rparr>)"

definition NewStateMgr :: "lib \<Rightarrow> bytes \<Rightarrow> u64 \<Rightarrow> int \<Rightarrow> kvs \<Rightarrow> StateMgr" where
  "NewStateMgr L base groupID thre d = load L (initStateMgr L base groupID thre d)"

section \<open>Applying messages\<close>

definition applyMethod :: "lib \<Rightarrow> Message \<Rightarrow> unit sgo" where
  "applyMethod L msg =
     (let m = msg_Method msg in
      if m = AddRole then addRole L msg
      else if m = CreateFs then addUser L msg
      else if m = CreateBucket then addBucket L msg
      else if m = PreDataOrder then createOrder L msg
      else if m = AddDataOrder then addSeq L msg
      else if m = CommitDataOrder then commitOrder L msg
      else if m = SubDataOrder then subOrder L msg
      else if m = SegmentFault then removeSeg L msg
      else if m = UpdateChalEpoch then updateChalEpoch L msg
      else if m = SegmentProof then addSegProof L msg
      else if m = ConfirmPostIncome then addPay L msg
      else if m = UpdateNet then updateNetAddr L msg
      else if m = AddBucMeta then addBucMeta L msg
      else if m = AddObjMeta then addObjMeta L msg
      else fail (Err ''unsupported method''))"

text \<open>The nonce is used up before the message is looked at, and also by a failed message.\<close>

definition applyMsg :: "lib \<Rightarrow> Message \<Rightarrow> Receipt \<Rightarrow> unit sgo" where
  "applyMsg L msg tr =
     bnd (lookupRole L (msg_From msg)) (\<lambda>ri.
     seq (reject (msg_Nonce msg \<noteq> rv_Nonce (rl_val ri)) ''wrong nonce'')
    (let rv = (rl_val ri)\<lparr>rv_Nonce := rv_Nonce (rl_val ri) + 1\<rparr> in
     seq (modify (\<lambda>s. s\<lparr>rInfo := (rInfo s)(msg_From msg \<mapsto> ri\<lparr>rl_val := rv\<rparr>)\<rparr>))
    (seq (saveVal L (msg_From msg) rv)
    (bnd (gets version) (\<lambda>ver.
     seq (if ver < LSMT L then newRoot L (msg_Params msg) else ret ())
         (if rcpt_Err tr \<noteq> 0 then ret () else applyMethod L msg))))))"

text \<open>The loop over \<open>blk.Msgs\<close>: \<open>blk.Receipts[i]\<close> panics when there are too few receipts.\<close>

fun applyMsgs :: "lib \<Rightarrow> SignedMessage list \<Rightarrow> Receipt list \<Rightarrow> unit sgo" where
  "applyMsgs L [] rs = ret ()"
| "applyMsgs L (m # ms) [] = fail (Panic ''index out of range'')"
| "applyMsgs L (m # ms) (r # rs) = seq (applyMsg L (sm_Message m) r) (applyMsgs L ms rs)"

section \<open>Applying blocks\<close>

definition RawBlock_Hash :: "lib \<Rightarrow> RawBlock \<Rightarrow> MsgID" where
  "RawBlock_Hash L b = (case marshal (lb_cRawBlock L) b of
      None \<Rightarrow> MsgIDUndef | Some d \<Rightarrow> MsgIDOf L d)"

text \<open>``set height to previous one for smt recovery'': a write to the store itself.\<close>

definition rewindHeight :: "lib \<Rightarrow> u64 \<Rightarrow> unit sgo" where
  "rewindHeight L h =
     bnd (gets version) (\<lambda>ver.
     if h > 0 \<and> LSMT L \<le> ver then
       (let k = skey ST_BlockHeightKey []; v = PutUint64 (if h > 1 then h - 2 else h - 1) in
        seq (reject (lb_putFail L k v) ''put'')
            (modify (\<lambda>s. s\<lparr>ds := ds_put (ds s) k v\<rparr>)))
     else ret ())"

text \<open>The guards before the transaction is opened.\<close>

definition checkHeader :: "lib \<Rightarrow> SignedBlock \<Rightarrow> unit sgo" where
  "checkHeader L blk =
     bnd (gets (\<lambda>s. s)) (\<lambda>s.
     seq (reject (rh_Height (blk_header blk) \<noteq> height s) ''apply block height is wrong'')
    (seq (reject (rh_Slot (blk_header blk) \<le> slot s) ''apply block epoch is wrong'')
    (seq (if rh_PrevID (blk_header blk) \<noteq> blkID s
          then seq (rewindHeight L (rh_Height (blk_header blk))) (fail (Err ''apply wrong block''))
          else ret ())
         (if root s \<noteq> mset_ParentRoot (blk_msgset blk)
          then seq (rewindHeight L (rh_Height (blk_header blk))) (fail (Err ''apply wrong block, state''))
          else ret ()))))"

text \<open>The signers that are keepers, each counted once (the set \<open>sset\<close>).\<close>

definition validSigners :: "u64 list \<Rightarrow> u64 list \<Rightarrow> u64 list" where
  "validSigners ks signers = remdups (filter (\<lambda>x. x \<in> set ks) signers)"

definition checkSigners :: "SignedBlock \<Rightarrow> unit sgo" where
  "checkSigners blk =
     bnd (gets getThreshold) (\<lambda>thr.
     seq (reject (int (MultiSignature_Len (sb_MultiSignature blk)) < thr) ''not enough signer'')
    (bnd (gets keepers) (\<lambda>ks.
     reject (int (length (validSigners ks (ms_Signer (sb_MultiSignature blk)))) < thr)
       ''not enough valid signer'')))"

text \<open>Block zero: only keepers are added.\<close>

definition checkBlockZero :: "lib \<Rightarrow> SignedBlock \<Rightarrow> unit sgo" where
  "checkBlockZero L blk = forM (mset_Msgs (blk_msgset blk)) (\<lambda>m.
     seq (reject (msg_Method (sm_Message m) \<noteq> AddRole) ''invalid message at block zero'')
    (bnd (orErr ''invalid message at block zero''
            (decode (lb_cRoleInfo L) zero_RoleInfo (msg_Params (sm_Message m)))) (\<lambda>pri.
     reject (ri_Type pri \<noteq> RoleInfo_Keeper) ''invalid message at block zero'')))"

definition commitTxn :: "lib \<Rightarrow> unit sgo" where
  "commitTxn L =
     bnd (gets tds) (\<lambda>ot. bnd (deref ''nil tds'' ot) (\<lambda>t.
     seq (reject (lb_commitFail L t) ''apply block txn commit fail'')
         (modify (\<lambda>s. s\<lparr>ds := txn_commit t\<rparr>))))"

text \<open>The block's height, slot and identifier, and the next version when its height is reached.\<close>

definition advance :: "lib \<Rightarrow> SignedBlock \<Rightarrow> StateMgr \<Rightarrow> StateMgr" where
  "advance L blk s =
     (let s1 = s\<lparr>height := height s + 1, slot := rh_Slot (blk_header blk),
                 blkID := RawBlock_Hash L (sb_RawBlock blk)\<rparr>
      in case map_of (UpdateMap (lb_build L)) (version s1 + 1) of
           None \<Rightarrow> s1
         | Some ue \<Rightarrow> if height s1 \<ge> ue then s1\<lparr>version := version s1 + 1\<rparr> else s1)"

text \<open>The block's two records: the current height, and identifier and slot at its height.\<close>

definition putBlockInfo :: "lib \<Rightarrow> SignedBlock \<Rightarrow> unit sgo" where
  "putBlockInfo L blk =
     (let hd = blk_header blk in
     seq (tds_put L (skey ST_BlockHeightKey []) (PutUint64 (rh_Height hd)))
         (tds_put L (skey ST_BlockHeightKey [unat (rh_Height hd)])
            (copy_into MsgLen (RawBlock_Hash L (sb_RawBlock blk)) @ PutUint64 (rh_Slot hd))))"

text \<open>From the signatures to the last write of the transaction.\<close>

definition applyPre :: "lib \<Rightarrow> SignedBlock \<Rightarrow> unit sgo" where
  "applyPre L blk =
     (let hd = blk_header blk; ms = blk_msgset blk in
     seq (if rh_Height hd > 0 then checkSigners blk else checkBlockZero L blk)
    (bnd (Serialize (lb_cRawHeader L) hd) (\<lambda>b.
     seq (putBlockInfo L blk)
    (seq (newRoot L b)
    (seq (applyMsgs L (mset_Msgs ms) (mset_Receipts ms))
    (bnd (gets (\<lambda>s. version s < LSMT L \<and> root s \<noteq> mset_Root ms)) (\<lambda>bad.
     seq (reject bad ''apply has wrong state end'')
    (seq (modify (\<lambda>s. s\<lparr>smt := smtSetRoot (curRoot (smt s)) (smt s)\<rparr>))
         (saveRoot L)))))))))"

definition applyBody :: "lib \<Rightarrow> SignedBlock \<Rightarrow> unit sgo" where
  "applyBody L blk =
     seq (applyPre L blk) (seq (commitTxn L) (modify (advance L blk)))"

text \<open>
  \<open>ApplyBlock\<close>: the deferred function discards the transaction on every way out of the body.
  An error result stands for the pair of \<open>s.root\<close> and the error.
\<close>

definition ApplyBlock :: "lib \<Rightarrow> SignedBlock option \<Rightarrow> MsgID sgo" where
  "ApplyBlock L mblk = (case mblk of
      None \<Rightarrow> gets root
    | Some blk \<Rightarrow>
        seq (checkHeader L blk)
       (seq (reject (lb_newTxnFail L) ''create new txn fail'')
       (seq (modify (\<lambda>s. s\<lparr>tds := Some (txn_new (ds s))\<rparr>))
            (\<lambda>s. case applyBody L blk s of
                   (r, t) \<Rightarrow> (map_sum id (\<lambda>_. root t) r, t\<lparr>tds := None\<rparr>)))))"

section \<open>Validating proposals\<close>

definition reset :: "StateMgr \<Rightarrow> StateMgr" where
  "reset s = s\<lparr>validateVersion := version s, validateHeight := height s, validateSlot := slot s,
     validateRoot := root s, validateCeInfo := ceInfo s, validateOInfo := (\<lambda>_. None),
     validateSInfo := (\<lambda>_. None), validateRInfo := (\<lambda>_. None)\<rparr>"

definition newValidateRoot :: "lib \<Rightarrow> bytes \<Rightarrow> StateMgr \<Rightarrow> StateMgr" where
  "newValidateRoot L b s =
     (let b' = (if validateVersion s \<ge> LSMT L then lb_blake3 L b else b)
      in s\<lparr>validateRoot := MsgIDOf L (lb_blake3 L (validateRoot s @ b'))\<rparr>)"

definition ValidateBlock :: "lib \<Rightarrow> SignedBlock option \<Rightarrow> MsgID sgo" where
  "ValidateBlock L mblk =
     seq (modify reset)
    (case mblk of
       None \<Rightarrow> gets validateRoot
     | Some blk \<Rightarrow>
         bnd (gets (\<lambda>s. s)) (\<lambda>s.
         seq (reject (rh_PrevID (blk_header blk) \<noteq> blkID s) ''validate block prvID is wrong'')
        (seq (reject (rh_Height (blk_header blk) \<noteq> validateHeight s) ''validate block height is wrong'')
        (seq (reject (rh_Slot (blk_header blk) \<le> validateSlot s) ''validate block epoch is wrong'')
        (bnd (Serialize (lb_cRawHeader L) (blk_header blk)) (\<lambda>b.
         seq (modify (\<lambda>s. s\<lparr>validateHeight := validateHeight s + 1,
                            validateSlot := rh_Slot (blk_header blk)\<rparr>))
        (seq (modify (newValidateRoot L b))
             (gets validateRoot))))))))"

definition canApplyMethod :: "lib \<Rightarrow> Message \<Rightarrow> unit sgo" where
  "canApplyMethod L msg =
     (let m = msg_Method msg in
      if m = AddRole then canAddRole L msg
      else if m = CreateFs then canAddUser L msg
      else if m = CreateBucket then canAddBucket L msg
      else if m = PreDataOrder then canCreateOrder L msg
      else if m = AddDataOrder then canAddSeq L msg
      else if m = CommitDataOrder then canCommitOrder L msg
      else if m = SubDataOrder then canSubOrder L msg
      else if m = SegmentFault then canRemoveSeg L msg
      else if m = UpdateChalEpoch then canUpdateChalEpoch L msg
      else if m = SegmentProof then canAddSegProof L msg
      else if m = ConfirmPostIncome then canAddPay L msg
      else if m = UpdateNet then canUpdateNetAddr L msg
      else if m = AddBucMeta then canAddBucMeta L msg
      else if m = AddObjMeta then canAddObjMeta L msg
      else fail (Err ''unsupported method''))"

text \<open>The sender's role: the validation cache, a copy from the apply cache, or the store.\<close>

definition validateRole :: "lib \<Rightarrow> u64 \<Rightarrow> StateMgr \<Rightarrow> roleInfo" where
  "validateRole L rid s = (case validateRInfo s rid of
      Some ri \<Rightarrow> ri
    | None \<Rightarrow> (case rInfo s rid of
        Some nri \<Rightarrow> \<lparr>rl_base = rl_base nri,
                     rl_val = \<lparr>rv_Nonce = rv_Nonce (rl_val nri), rv_Value = None\<rparr>\<rparr>
      | None \<Rightarrow> loadRole L rid s))"

definition ValidateMsg :: "lib \<Rightarrow> Message option \<Rightarrow> MsgID sgo" where
  "ValidateMsg L mmsg = (case mmsg of
      None \<Rightarrow> gets validateRoot
    | Some msg \<Rightarrow>
        bnd (gets (validateRole L (msg_From msg))) (\<lambda>ri.
        let setRole = (\<lambda>r. modify (\<lambda>s. s\<lparr>validateRInfo := (validateRInfo s)(msg_From msg \<mapsto> r)\<rparr>)) in
        seq (setRole ri)
       (seq (reject (msg_Nonce msg \<noteq> rv_Nonce (rl_val ri)) ''validate nonce is wrong'')
       (seq (setRole (ri\<lparr>rl_val := (rl_val ri)\<lparr>rv_Nonce := rv_Nonce (rl_val ri) + 1\<rparr>\<rparr>))
       (seq (modify (newValidateRoot L (msg_Params msg)))
       (seq (canApplyMethod L msg)
            (gets validateRoot)))))))"

end
