(* ===== verification/StateApi.thy ===== *)
theory StateApi
  imports StateBlock
begin

text \<open>
  The queries of the state manager, \<open>submodule/state/state_api.go\<close>.  They take the read lock
  and change nothing, so each is a function of the state.  An absent key and an undecodable
  value are both errors, \<open>None\<close>.
\<close>

section \<open>The chain\<close>

record StateInfo =
  si_Version :: u32
  si_Height :: u64
  si_Slot :: u64
  si_Epoch :: u64
  si_Root :: MsgID
  si_BlockID :: MsgID

definition StateGetInfo :: "StateMgr \<Rightarrow> StateInfo" where
  "StateGetInfo s = \<lparr>si_Version = version s, si_Height = height s, si_Slot = slot s,
     si_Epoch = cei_epoch (ceInfo s), si_Root = root s, si_BlockID = blkID s\<rparr>"

definition StateGetChalEpochInfo :: "StateMgr \<Rightarrow> ChalEpoch" where
  "StateGetChalEpochInfo s = cei_current (ceInfo s)"

definition zero_ChalEpoch :: ChalEpoch where
  "zero_ChalEpoch = \<lparr>ce_Epoch = 0, ce_Slot = 0, ce_Seed = []\<rparr>"

definition StateGetChalEpochInfoAt :: "lib \<Rightarrow> u64 \<Rightarrow> StateMgr \<Rightarrow> ChalEpoch option" where
  "StateGetChalEpochInfoAt L epoch s =
     (if epoch \<ge> cei_epoch (ceInfo s) then None
      else Option.bind (sget L (skey ST_ChalEpochKey [unat epoch]) s)
             (decode (lb_cChalEpoch L) zero_ChalEpoch))"

definition GetRoot :: "StateMgr \<Rightarrow> MsgID" where "GetRoot s = root s"
definition GetHeight :: "StateMgr \<Rightarrow> u64" where "GetHeight s = height s"
definition GetSlot :: "StateMgr \<Rightarrow> u64" where "GetSlot s = slot s"
definition GetBlockID :: "StateMgr \<Rightarrow> MsgID" where "GetBlockID s = blkID s"

text \<open>The slice \<open>data[:types.MsgLen]\<close> panics on a shorter value.\<close>

definition GetBlockIDAt :: "lib \<Rightarrow> u64 \<Rightarrow> MsgID sgo" where
  "GetBlockIDAt L ht =
     (if ht = - 1 then gets genesisBlockID
      else bnd (gets (sget L (skey ST_BlockHeightKey [unat ht]))) (\<lambda>md.
           bnd (orErr ''not found'' md) (\<lambda>data.
           if length data < MsgLen then fail (Panic ''slice bounds out of range'')
           else orErr ''invalid hash'' (FromBytes (lb_mhDecode L) (take MsgLen data)))))"

section \<open>Roles\<close>

definition StateGetNonce :: "lib \<Rightarrow> u64 \<Rightarrow> StateMgr \<Rightarrow> u64" where
  "StateGetNonce L rid s = (case rInfo s rid of
      Some ri \<Rightarrow> rv_Nonce (rl_val ri) | None \<Rightarrow> rv_Nonce (loadVal L rid s))"

definition StateGetRoleInfo :: "lib \<Rightarrow> u64 \<Rightarrow> StateMgr \<Rightarrow> RoleInfo option" where
  "StateGetRoleInfo L rid s = Option.bind (sget L (skey ST_RoleBaseKey [unat rid]) s)
     (decode (lb_cRoleInfo L) zero_RoleInfo)"

definition StateGetNetInfo :: "lib \<Rightarrow> u64 \<Rightarrow> StateMgr \<Rightarrow> bytes option" where
  "StateGetNetInfo L rid s = Option.bind (sget L (skey ST_NetKey [unat rid]) s)
     (decode (lb_cAddrInfo L) [])"

definition StateGetThreshold :: "StateMgr \<Rightarrow> int" where
  "StateGetThreshold s = getThreshold s"

definition StateGetAllKeepers :: "StateMgr \<Rightarrow> u64 list" where "StateGetAllKeepers s = keepers s"
definition StateGetAllUsers :: "StateMgr \<Rightarrow> u64 list" where "StateGetAllUsers s = users s"
definition StateGetAllProviders :: "StateMgr \<Rightarrow> u64 list" where "StateGetAllProviders s = pros s"

definition StateGetPDPPublicKey :: "lib \<Rightarrow> u64 \<Rightarrow> StateMgr \<Rightarrow> bytes option" where
  "StateGetPDPPublicKey L u s = sget L (skey ST_PDPPublicKey [unat u]) s"

definition StateGetProsAt :: "lib \<Rightarrow> u64 \<Rightarrow> StateMgr \<Rightarrow> u64 list" where
  "StateGetProsAt L u s = (case sget L (skey ST_ProsKey [unat u]) s of
      None \<Rightarrow> [] | Some d \<Rightarrow> u64s_of d)"

definition StateGetUsersAt :: "lib \<Rightarrow> u64 \<Rightarrow> StateMgr \<Rightarrow> u64 list" where
  "StateGetUsersAt L p s = (case sget L (skey ST_UsersKey [unat p]) s of
      None \<Rightarrow> [] | Some d \<Rightarrow> u64s_of d)"

section \<open>Orders and incomes\<close>

definition StateGetBucketAt :: "lib \<Rightarrow> u64 \<Rightarrow> StateMgr \<Rightarrow> u64" where
  "StateGetBucketAt L u s = (case sget L (skey ST_BucketOptKey [unat u]) s of
      None \<Rightarrow> 0 | Some d \<Rightarrow> if length d \<ge> 8 then Uint64 d else 0)"

definition StateGetProofEpoch :: "lib \<Rightarrow> u64 \<Rightarrow> u64 \<Rightarrow> StateMgr \<Rightarrow> u64" where
  "StateGetProofEpoch L u p s = (case oInfo s (u, p) of
      Some oi \<Rightarrow> oi_prove oi
    | None \<Rightarrow> (case sget L (skey ST_SegProofKey [unat u, unat p]) s of
        None \<Rightarrow> 0 | Some d \<Rightarrow> if length d \<ge> 8 then Uint64 d else 0))"

definition zero_PostIncome :: PostIncome where
  "zero_PostIncome = \<lparr>pi_UserID = 0, pi_ProID = 0, pi_TokenIndex = 0, pi_Value = None, pi_Penalty = None\<rparr>"

definition StateGetPostIncome :: "lib \<Rightarrow> u64 \<Rightarrow> u64 \<Rightarrow> StateMgr \<Rightarrow> PostIncome option" where
  "StateGetPostIncome L u p s = Option.bind (sget L (skey ST_SegPayKey [unat u, unat p]) s)
     (decode (lb_cPostIncome L) zero_PostIncome)"

definition StateGetPostIncomeAt :: "lib \<Rightarrow> u64 \<Rightarrow> u64 \<Rightarrow> u64 \<Rightarrow> StateMgr \<Rightarrow> PostIncome option" where
  "StateGetPostIncomeAt L u p e s = Option.bind (sget L (skey ST_SegPayKey [unat u, unat p, unat e]) s)
     (decode (lb_cPostIncome L) zero_PostIncome)"

definition StateGetAccPostIncomeAt :: "lib \<Rightarrow> u64 \<Rightarrow> u64 \<Rightarrow> StateMgr \<Rightarrow> AccPostIncome option" where
  "StateGetAccPostIncomeAt L p e s = Option.bind (sget L (skey ST_SegPayKey [0, unat p, unat e]) s)
     (decode (lb_cAccPostIncome L) zero_AccPostIncome)"

definition zero_SignedAccPostIncome :: SignedAccPostIncome where
  "zero_SignedAccPostIncome = \<lparr>sapi_AccPostIncome = zero_AccPostIncome, sapi_Sig = NewMultiSignature 0\<rparr>"

definition StateGetAccPostIncome :: "lib \<Rightarrow> u64 \<Rightarrow> StateMgr \<Rightarrow> SignedAccPostIncome option" where
  "StateGetAccPostIncome L p s = Option.bind (sget L (skey ST_SegPayComfirmKey [unat p]) s)
     (decode (lb_cSignedAccPostIncome L) zero_SignedAccPostIncome)"

text \<open>
  The nonces at an epoch, else the current ones.  A failed decoding leaves what it wrote in
  the struct that the next one fills.
\<close>

definition StateGetOrderNonce :: "lib \<Rightarrow> u64 \<Rightarrow> u64 \<Rightarrow> u64 \<Rightarrow> StateMgr \<Rightarrow> NonceSeq" where
  "StateGetOrderNonce L u p e s =
     (let ns0 = \<lparr>ns_Nonce = 0, ns_SeqNum = 0, ns_SubNonce = 0\<rparr>;
          latest = (\<lambda>ns. case sget L (skey ST_OrderStateKey [unat u, unat p]) s of
                      None \<Rightarrow> ns | Some d \<Rightarrow> decode_into (lb_cNonceSeq L) ns d)
      in if e \<noteq> - 1 then
           (case sget L (skey ST_OrderStateKey [unat u, unat p, unat e]) s of
              None \<Rightarrow> latest ns0
            | Some d \<Rightarrow> (case unmarshal (lb_cNonceSeq L) d ns0 of
                           (ns, ok) \<Rightarrow> if ok then ns else latest ns))
         else latest ns0)"

definition StateGetOrder :: "lib \<Rightarrow> u64 \<Rightarrow> u64 \<Rightarrow> u64 \<Rightarrow> StateMgr \<Rightarrow> OrderFull option" where
  "StateGetOrder L u p n s = (case sget L (skey ST_OrderBaseKey [unat u, unat p, unat n]) s of
      None \<Rightarrow> None
    | Some d \<Rightarrow> if length d > 0 then decode (lb_cOrderFull L) zero_OrderFull d else None)"

definition StateGetOrderSeq :: "lib \<Rightarrow> u64 \<Rightarrow> u64 \<Rightarrow> u64 \<Rightarrow> u32 \<Rightarrow> StateMgr \<Rightarrow> SeqFull option" where
  "StateGetOrderSeq L u p n q s = get_SeqFull L (u, p) n q s"

definition zero_OrderDuration :: OrderDuration where
  "zero_OrderDuration = \<lparr>od_Start = [], od_End = []\<rparr>"

text \<open>The struct is returned also when decoding it failed half way.\<close>

definition GetOrderDuration :: "lib \<Rightarrow> u64 \<Rightarrow> u64 \<Rightarrow> StateMgr \<Rightarrow> OrderDuration" where
  "GetOrderDuration L u p s = (case sget L (skey ST_OrderDurationKey [unat u, unat p]) s of
      None \<Rightarrow> zero_OrderDuration
    | Some d \<Rightarrow> decode_into (lb_cOrderDuration L) zero_OrderDuration d)"

section \<open>Buckets and objects\<close>

definition StateGetBucOpt :: "lib \<Rightarrow> u64 \<Rightarrow> u64 \<Rightarrow> StateMgr \<Rightarrow> BucketOption option" where
  "StateGetBucOpt L u b s = Option.bind (sget L (skey ST_BucketOptKey [unat u, unat b]) s)
     (decode (lb_cBucketOption L) zero_BucketOption)"

definition StateGetBucMeta :: "lib \<Rightarrow> u64 \<Rightarrow> u64 \<Rightarrow> StateMgr \<Rightarrow> BucMetaParas option" where
  "StateGetBucMeta L u b s = Option.bind (sget L (skey ST_BucMetaKey [unat u, unat b]) s)
     (decode (lb_cBucMetaParas L) zero_BucMetaParas)"

definition zero_ObjMetaKey :: ObjMetaKey where
  "zero_ObjMetaKey = \<lparr>omk_UserID = 0, omk_BucketID = 0, omk_ObjectID = 0\<rparr>"

definition StateGetObjMeta :: "lib \<Rightarrow> u64 \<Rightarrow> u64 \<Rightarrow> u64 \<Rightarrow> StateMgr \<Rightarrow> ObjMetaValue option" where
  "StateGetObjMeta L u b i s = Option.bind (sget L (objKey u b i) s)
     (decode (lb_cObjMetaValue L) (omp_ObjMetaValue zero_ObjMetaParas))"

definition StateGetObjMetaKey :: "lib \<Rightarrow> bytes \<Rightarrow> u64 \<Rightarrow> StateMgr \<Rightarrow> ObjMetaKey option" where
  "StateGetObjMetaKey L etag cnt s =
     Option.bind (sget L (if cnt > 0 then etagKey etag [unat cnt] else etagKey etag []) s)
       (decode (lb_cObjMetaKey L) zero_ObjMetaKey)"

end
