(* ===== verification/Instances.thy ===== *)
theory Instances
  imports Outside
begin

text \<open>
  Concrete instances of what the state manager calls outside the repository, for examples:
  encoders given by a table, a Merkle tree whose root is the list of its bindings, bit sets
  as lists of words, an insertion sort, and a library \<open>lib0\<close> made of them.  They satisfy the
  laws the properties assume of such code.
\<close>

section \<open>Encoders\<close>

text \<open>A struct is encoded as its position in a table.\<close>

fun tab_index :: "'a list \<Rightarrow> 'a \<Rightarrow> nat option" where
  "tab_index [] x = None"
| "tab_index (v # vs) x = (if v = x then Some 0 else map_option Suc (tab_index vs x))"

definition tab_codec :: "'a list \<Rightarrow> 'a codec" where
  "tab_codec vs = \<lparr>marshal = (\<lambda>x. map_option (\<lambda>i. replicate (Suc i) 0) (tab_index vs x)),
     unmarshal = (\<lambda>b y. if b \<noteq> [] \<and> length b \<le> length vs then (vs ! (length b - 1), True)
                        else (y, False))\<rparr>"

lemma tab_index_nth: "tab_index vs x = Some i \<Longrightarrow> i < length vs \<and> vs ! i = x"
  by (induction vs arbitrary: i) (auto split: if_splits)

lemma codec_law_tab [simp]: "codec_law (tab_codec vs)"
  using tab_index_nth by (fastforce simp: codec_law_def tab_codec_def)

lemma tab_codec_run [simp]:
  "marshal (tab_codec vs) x = map_option (\<lambda>i. replicate (Suc i) 0) (tab_index vs x)"
  "decode (tab_codec vs) z b = (if b \<noteq> [] \<and> length b \<le> length vs then Some (vs ! (length b - 1)) else None)"
  "decode_into (tab_codec vs) z b = (if b \<noteq> [] \<and> length b \<le> length vs then vs ! (length b - 1) else z)"
  by (simp_all add: tab_codec_def decode_def decode_into_def)

section \<open>Merkle trees\<close>

text \<open>Byte strings with an end mark, one after the other.\<close>

fun enc_bytes :: "bytes \<Rightarrow> bytes" where
  "enc_bytes [] = [0]"
| "enc_bytes (x # b) = 1 # x # enc_bytes b"

fun dec_bytes :: "bytes \<Rightarrow> bytes \<times> bytes" where
  "dec_bytes (t # x # r) = (if t = 1 then (case dec_bytes r of (b, r') \<Rightarrow> (x # b, r')) else ([], x # r))"
| "dec_bytes r = ([], [])"

lemma dec_enc_bytes [simp]: "dec_bytes (enc_bytes b @ r) = (b, r)"
  by (induction b) (cases r; simp)+

lemma dec_bytes_shorter: "dec_bytes r = (b, r') \<Longrightarrow> length r' \<le> length r - 1"
  by (induction r arbitrary: b r' rule: dec_bytes.induct) (fastforce split: if_splits prod.splits)+

function find_binding :: "bytes \<Rightarrow> bytes \<Rightarrow> bytes option" where
  "find_binding r k = (if r = [] then None
     else case dec_bytes r of (k', r1) \<Rightarrow> (case dec_bytes r1 of (v, r2) \<Rightarrow>
       if k' = k then Some v else find_binding r2 k))"
  by pat_completeness auto
termination
proof (relation "measure (length \<circ> fst)", goal_cases)
  case (2 r k k' r1 v r2)
  then show ?case
    using dec_bytes_shorter [of r k' r1] dec_bytes_shorter [of r1 v r2]
    by (cases r) auto
qed simp

declare find_binding.simps [simp del]

definition list_trie :: trie where
  "list_trie = \<lparr>trieEmptyRoot = [], trieGet = find_binding,
     trieHas = (\<lambda>r k. Some (find_binding r k \<noteq> None)),
     trieUpdate = (\<lambda>r k v. Some (enc_bytes k @ enc_bytes v @ r)),
     trieClean = (\<lambda>_ _ _. True), trieCommit = (\<lambda>_. True)\<rparr>"

lemma enc_bytes_nonempty [simp]: "enc_bytes b \<noteq> []"
  by (cases b) auto

lemma find_binding_update:
  "find_binding (enc_bytes k @ enc_bytes v @ r) k' = (if k' = k then Some v else find_binding r k')"
  by (subst find_binding.simps) simp

lemma find_binding_Nil [simp]: "find_binding [] k = None"
  by (subst find_binding.simps) simp

lemma trie_law_list [simp]: "trie_law list_trie"
  by (simp add: trie_law_def list_trie_def find_binding_update)

section \<open>Bit sets and sorting\<close>

definition words_test :: "bitset \<Rightarrow> nat \<Rightarrow> bool" where
  "words_test ws i = (i div 64 < length ws \<and> bit (ws ! (i div 64)) (i mod 64))"

definition words_set :: "bitset \<Rightarrow> nat \<Rightarrow> bitset" where
  "words_set ws i =
     (let ws' = ws @ replicate (Suc (i div 64) - length ws) 0
      in ws'[i div 64 := set_bit (i mod 64) (ws' ! (i div 64))])"

lemma words_test_set: "words_test (words_set ws i) j \<longleftrightarrow> j = i \<or> words_test ws j"
proof -
  define ws' where "ws' = ws @ replicate (Suc (i div 64) - length ws) (0 :: u64)"
  have len: "length ws' = max (length ws) (Suc (i div 64))"
    by (simp add: ws'_def)
  have same: "words_test ws' j = words_test ws j" for j
    by (auto simp: words_test_def ws'_def nth_append)
  have "j div 64 = i div 64 \<Longrightarrow> j \<noteq> i \<Longrightarrow> j mod 64 \<noteq> i mod 64"
    by (metis div_mult_mod_eq)
  moreover have "words_test (ws'[i div 64 := set_bit (i mod 64) (ws' ! (i div 64))]) j \<longleftrightarrow>
      words_test ws' j \<or> (j div 64 = i div 64 \<and> j mod 64 = i mod 64)"
    using len by (auto simp: words_test_def nth_list_update bit_set_bit_iff)
  ultimately show ?thesis
    unfolding words_set_def Let_def ws'_def [symmetric] same by metis
qed

fun insert_seg :: "AggSegs \<Rightarrow> AggSegs list \<Rightarrow> AggSegs list" where
  "insert_seg x [] = [x]"
| "insert_seg x (y # ys) = (if AggSegs_Less y x then y # insert_seg x ys else x # y # ys)"

definition insort_segs :: "AggSegs list \<Rightarrow> AggSegs list" where
  "insort_segs xs = foldr insert_seg xs []"

section \<open>A library\<close>

definition lib0 :: lib where
  "lib0 = \<lparr>lb_build = build_init,
     lb_trie = list_trie,
     lb_putFail = (\<lambda>_ _. False),
     lb_newTxnFail = False,
     lb_commitFail = (\<lambda>_. False),
     lb_mhSum = (\<lambda>b. Some (copy_into 22 b)),
     lb_mhDecode = (\<lambda>b. if length b = 22 then Some 76 else None),
     lb_blake3 = (\<lambda>b. b),
     lb_keccak = (\<lambda>b. b),
     lb_sigVerify = (\<lambda>k m d. Some (d = k)),
     lb_sigAggregate = (\<lambda>a b. Some (a @ b)),
     lb_frZero = 0,
     lb_frAdd = (+),
     lb_frFromBytes = un_be,
     lb_frToBytes = be 32,
     lb_frSubBytes = (\<lambda>a b. be 32 (un_be a - un_be b)),
     lb_pdpPublicKey = Some,
     lb_pdpVerifyKey = Some,
     lb_pdpProof = Some,
     lb_pkSerialize = (\<lambda>b. b),
     lb_pkVerifyKey = (\<lambda>b. b),
     lb_vkSerialize = (\<lambda>b. b),
     lb_vkHash = copy_into 20,
     lb_newChallenge = (\<lambda>v h. Some h),
     lb_chalAdd = (@),
     lb_verifyProof = (\<lambda>v c p. Some True),
     lb_bsNew = [],
     lb_bsTest = words_test,
     lb_bsSet = words_set,
     lb_sortAggSegs = insort_segs,
     lb_cRoleValue = tab_codec [],
     lb_cRoleInfo = tab_codec [],
     lb_cNonceSeq = tab_codec [],
     lb_cChalEpoch = tab_codec [],
     lb_cPostIncome = tab_codec [],
     lb_cAccPostIncome = tab_codec [],
     lb_cSignedAccPostIncome = tab_codec [],
     lb_cOrderFull = tab_codec [],
     lb_cSeqFull = tab_codec [],
     lb_cAggStripe = tab_codec [],
     lb_cBitset = tab_codec [],
     lb_cBucketOption = tab_codec [],
     lb_cSignedOrder = tab_codec [],
     lb_cOrderSeq = tab_codec [],
     lb_cSignedOrderSeq = tab_codec [],
     lb_cSegRemoveParas = tab_codec [],
     lb_cOrderCommitParas = tab_codec [],
     lb_cOrderSubParas = tab_codec [],
     lb_cSignedEpochParams = tab_codec [],
     lb_cSegChalParams = tab_codec [],
     lb_cPostIncomeParams = tab_codec [],
     lb_cBucketParams = tab_codec [],
     lb_cBucMetaParas = tab_codec [],
     lb_cObjMetaParas = tab_codec [],
     lb_cObjMetaValue = tab_codec [],
     lb_cObjMetaKey = tab_codec [],
     lb_cOrderDuration = tab_codec [],
     lb_cAddrInfo = tab_codec [],
     lb_cRawHeader = tab_codec [],
     lb_cRawBlock = tab_codec []\<rparr>"

lemma lib0_fields [simp]:
  "lb_build lib0 = build_init"
  "lb_trie lib0 = list_trie"
  "lb_putFail lib0 = (\<lambda>_ _. False)"
  "lb_newTxnFail lib0 = False"
  "lb_commitFail lib0 = (\<lambda>_. False)"
  "lb_mhSum lib0 = (\<lambda>b. Some (copy_into 22 b))"
  "lb_mhDecode lib0 = (\<lambda>b. if length b = 22 then Some 76 else None)"
  "lb_blake3 lib0 = (\<lambda>b. b)"
  "lb_keccak lib0 = (\<lambda>b. b)"
  "lb_sigVerify lib0 = (\<lambda>k m d. Some (d = k))"
  "lb_sigAggregate lib0 = (\<lambda>a b. Some (a @ b))"
  "lb_frZero lib0 = 0"
  "lb_frAdd lib0 = (+)"
  "lb_frFromBytes lib0 = un_be"
  "lb_frToBytes lib0 = be 32"
  "lb_frSubBytes lib0 = (\<lambda>a b. be 32 (un_be a - un_be b))"
  "lb_pdpPublicKey lib0 = Some"
  "lb_pdpVerifyKey lib0 = Some"
  "lb_pdpProof lib0 = Some"
  "lb_pkSerialize lib0 = (\<lambda>b. b)"
  "lb_pkVerifyKey lib0 = (\<lambda>b. b)"
  "lb_vkSerialize lib0 = (\<lambda>b. b)"
  "lb_vkHash lib0 = copy_into 20"
  "lb_newChallenge lib0 = (\<lambda>v h. Some h)"
  "lb_chalAdd lib0 = (@)"
  "lb_verifyProof lib0 = (\<lambda>v c p. Some True)"
  "lb_bsNew lib0 = []"
  "lb_bsTest lib0 = words_test"
  "lb_bsSet lib0 = words_set"
  "lb_sortAggSegs lib0 = insort_segs"
  "lb_cRoleValue lib0 = tab_codec []"
  "lb_cRoleInfo lib0 = tab_codec []"
  "lb_cNonceSeq lib0 = tab_codec []"
  "lb_cChalEpoch lib0 = tab_codec []"
  "lb_cPostIncome lib0 = tab_codec []"
  "lb_cAccPostIncome lib0 = tab_codec []"
  "lb_cSignedAccPostIncome lib0 = tab_codec []"
  "lb_cOrderFull lib0 = tab_codec []"
  "lb_cSeqFull lib0 = tab_codec []"
  "lb_cAggStripe lib0 = tab_codec []"
  "lb_cBitset lib0 = tab_codec []"
  "lb_cBucketOption lib0 = tab_codec []"
  "lb_cSignedOrder lib0 = tab_codec []"
  "lb_cOrderSeq lib0 = tab_codec []"
  "lb_cSignedOrderSeq lib0 = tab_codec []"
  "lb_cSegRemoveParas lib0 = tab_codec []"
  "lb_cOrderCommitParas lib0 = tab_codec []"
  "lb_cOrderSubParas lib0 = tab_codec []"
  "lb_cSignedEpochParams lib0 = tab_codec []"
  "lb_cSegChalParams lib0 = tab_codec []"
  "lb_cPostIncomeParams lib0 = tab_codec []"
  "lb_cBucketParams lib0 = tab_codec []"
  "lb_cBucMetaParas lib0 = tab_codec []"
  "lb_cObjMetaParas lib0 = tab_codec []"
  "lb_cObjMetaValue lib0 = tab_codec []"
  "lb_cObjMetaKey lib0 = tab_codec []"
  "lb_cOrderDuration lib0 = tab_codec []"
  "lb_cAddrInfo lib0 = tab_codec []"
  "lb_cRawHeader lib0 = tab_codec []"
  "lb_cRawBlock lib0 = tab_codec []"
  by (simp_all add: lib0_def)

end
