(* ===== verification/NodeBase.thy ===== *)
theory NodeBase
  imports StateApi Instances
begin

text \<open>
  What the node around the state manager shares: the code it calls outside the repository
  and through interfaces (record \<open>env\<close>), operations on a part of a larger state (\<open>zoom\<close>), and
  the identifiers of messages, headers and blocks.
\<close>

text \<open>The bytes of an ASCII string.\<close>

definition ascii :: "string \<Rightarrow> bytes" where
  "ascii s = map (\<lambda>c. of_nat (of_char c)) s"

section \<open>Outside code\<close>

text \<open>
  \<open>en_settleRole\<close> and \<open>en_addrCnt\<close> are the settlement chain (\<open>api.ISettle\<close>), \<open>en_walletSign\<close>
  the wallet (\<open>api.IWallet\<close>), \<open>en_fetch\<close>, \<open>en_pubMsgFail\<close> and \<open>en_pubBlkFail\<close> the network's
  \<open>Fetch\<close>, \<open>PublishTxMsg\<close> and \<open>PublishTxBlock\<close>; \<open>en_aggPub\<close> aggregates BLS keys; \<open>en_b58\<close> is
  base58; \<open>en_errText\<close> is the text of an error of the state manager.
\<close>

record MsgState =
  mst_BlockID :: MsgID
  mst_Height :: u64
  mst_Status :: Receipt

record env =
  en_settleRole :: "u64 \<Rightarrow> RoleInfo option"
  en_addrCnt :: u64
  en_walletSign :: "bytes \<Rightarrow> bytes \<Rightarrow> bytes option"
  en_aggPub :: "bytes list \<Rightarrow> bytes option"
  en_b58 :: "bytes \<Rightarrow> bytes"
  en_fetch :: "bytes \<Rightarrow> bytes option"
  en_pubMsgFail :: "SignedMessage \<Rightarrow> bool"
  en_pubBlkFail :: "SignedBlock \<Rightarrow> bool"
  en_errText :: "err \<Rightarrow> bytes"
  en_cMessage :: "Message codec"
  en_cSignedMessage :: "SignedMessage codec"
  en_cSignedBlock :: "SignedBlock codec"
  en_cMsgState :: "MsgState codec"

definition env0 :: env where
  "env0 = \<lparr>en_settleRole = (\<lambda>_. None), en_addrCnt = 0, en_walletSign = (\<lambda>a m. Some a),
     en_aggPub = (\<lambda>ks. Some (concat ks)), en_b58 = (\<lambda>b. b), en_fetch = (\<lambda>_. None),
     en_pubMsgFail = (\<lambda>_. False), en_pubBlkFail = (\<lambda>_. False), en_errText = (\<lambda>_. []),
     en_cMessage = tab_codec [], en_cSignedMessage = tab_codec [], en_cSignedBlock = tab_codec [],
     en_cMsgState = tab_codec []\<rparr>"

lemma env0_fields [simp]:
  "en_settleRole env0 = (\<lambda>_. None)" "en_addrCnt env0 = 0" "en_walletSign env0 = (\<lambda>a m. Some a)"
  "en_aggPub env0 = (\<lambda>ks. Some (concat ks))" "en_b58 env0 = (\<lambda>b. b)" "en_fetch env0 = (\<lambda>_. None)"
  "en_pubMsgFail env0 = (\<lambda>_. False)" "en_pubBlkFail env0 = (\<lambda>_. False)" "en_errText env0 = (\<lambda>_. [])"
  "en_cMessage env0 = tab_codec []" "en_cSignedMessage env0 = tab_codec []"
  "en_cSignedBlock env0 = tab_codec []" "en_cMsgState env0 = tab_codec []"
  by (simp_all add: env0_def)

section \<open>Parts of a state\<close>

text \<open>A method of an embedded struct, run on the struct that embeds it.\<close>

definition zoom :: "('s \<Rightarrow> 't) \<Rightarrow> ('t \<Rightarrow> 's \<Rightarrow> 's) \<Rightarrow> ('t, 'a) go \<Rightarrow> ('s, 'a) go" where
  "zoom part upd m s = (case m (part s) of (r, t) \<Rightarrow> (r, upd t s))"

lemma zoom_run [simp]: "m (part s) = (r, t) \<Longrightarrow> zoom part upd m s = (r, upd t s)"
  by (simp add: zoom_def)

lemma zoom_Inr [go_simps]:
  "zoom part upd m s = (Inr x, t) \<longleftrightarrow> (\<exists>p. m (part s) = (Inr x, p) \<and> t = upd p s)"
  by (auto simp: zoom_def split: prod.splits)

lemma keeps_zoom:
  assumes "\<And>s. P s \<Longrightarrow> Q s (part s)" and "\<And>s. keeps (Q s) m" and "\<And>s p. P s \<Longrightarrow> Q s p \<Longrightarrow> P (upd p s)"
  shows "keeps P (zoom part upd m)"
  using assms by (force simp: keeps_def zoom_def split: prod.splits)

text \<open>The error of a call is looked at, or its outcome is.\<close>

definition attempt :: "('s, 'a) go \<Rightarrow> ('s, err + 'a) go" where
  "attempt m s = (case m s of (r, t) \<Rightarrow> (case r of
      Inl (Panic w) \<Rightarrow> (Inl (Panic w), t) | _ \<Rightarrow> (Inr r, t)))"

lemma attempt_Inr_run [simp]: "m s = (Inr x, t) \<Longrightarrow> attempt m s = (Inr (Inr x), t)"
  by (simp add: attempt_def)

lemma attempt_Err_run [simp]: "m s = (Inl (Err w), t) \<Longrightarrow> attempt m s = (Inr (Inl (Err w)), t)"
  by (simp add: attempt_def)

lemma attempt_Inr [go_simps]:
  "attempt m s = (Inr r, t) \<longleftrightarrow> m s = (r, t) \<and> (\<forall>w. r \<noteq> Inl (Panic w))"
  by (auto simp: attempt_def split: prod.splits sum.splits err.splits)

lemma keeps_attempt [keeps_rules]: "keeps P m \<Longrightarrow> keeps P (attempt m)"
  by (force simp: keeps_def attempt_def split: prod.splits sum.splits err.splits)

lemma keeps_sum [keeps_rules]:
  "(\<And>x. keeps P (f x)) \<Longrightarrow> (\<And>y. keeps P (g y)) \<Longrightarrow> keeps P (case r of Inl x \<Rightarrow> f x | Inr y \<Rightarrow> g y)"
  by (cases r) auto

section \<open>Identifiers\<close>

definition MsgMaxLen :: nat where
  "MsgMaxLen = 2 ^ 19"

definition Message_Serialize :: "env \<Rightarrow> Message \<Rightarrow> bytes option" where
  "Message_Serialize E m = (case marshal (en_cMessage E) m of
      None \<Rightarrow> None | Some b \<Rightarrow> if length b > MsgMaxLen then None else Some b)"

definition Message_Hash :: "lib \<Rightarrow> env \<Rightarrow> Message \<Rightarrow> MsgID" where
  "Message_Hash L E m = (case Message_Serialize E m of None \<Rightarrow> MsgIDUndef | Some b \<Rightarrow> MsgIDOf L b)"

definition SignedMessage_Serialize :: "env \<Rightarrow> SignedMessage \<Rightarrow> bytes option" where
  "SignedMessage_Serialize E m = (case marshal (en_cSignedMessage E) m of
      None \<Rightarrow> None | Some b \<Rightarrow> if length b > MsgMaxLen then None else Some b)"

definition RawHeader_Hash :: "lib \<Rightarrow> RawHeader \<Rightarrow> MsgID" where
  "RawHeader_Hash L h = (case marshal (lb_cRawHeader L) h of None \<Rightarrow> MsgIDUndef | Some b \<Rightarrow> MsgIDOf L b)"

definition MsgID_String :: "env \<Rightarrow> MsgID \<Rightarrow> bytes" where
  "MsgID_String E m = en_b58 E m"

end
