(* ===== verification/RoleMgr.thy ===== *)
theory RoleMgr
  imports NodeBase
begin

text \<open>
  The role manager, \<open>submodule/role\<close>: a cache of the roles of a group over the local store and
  the settlement chain, and signing and verification with the keys it finds there.
\<close>

record RoleMgr =
  rm_roleID :: u64
  rm_groupID :: u64
  rm_infos :: "u64 \<Rightarrow> RoleInfo option"
  rm_users :: "u64 list"
  rm_keepers :: "u64 list"
  rm_providers :: "u64 list"
  rm_ds :: kvs

type_synonym 'a rgo = "(RoleMgr, 'a) go"

definition MT_RoleInfoKey :: nat where "MT_RoleInfoKey = 1"

text \<open>\<open>rm.ds.Put\<close>; every caller drops its error.\<close>

definition rm_put :: "lib \<Rightarrow> bytes \<Rightarrow> bytes \<Rightarrow> unit rgo" where
  "rm_put L k v = modify (\<lambda>r. if lb_putFail L k v then r else r\<lparr>rm_ds := ds_put (rm_ds r) k v\<rparr>)"

section \<open>The cache\<close>

text \<open>The kind lists of a role that is seen for the first time.\<close>

definition list_role :: "RoleInfo \<Rightarrow> RoleMgr \<Rightarrow> RoleMgr" where
  "list_role ri r =
     (if ri_Type ri = RoleInfo_Keeper then r\<lparr>rm_keepers := rm_keepers r @ [ri_RoleID ri]\<rparr>
      else if ri_Type ri = RoleInfo_Provider then r\<lparr>rm_providers := rm_providers r @ [ri_RoleID ri]\<rparr>
      else if ri_Type ri = RoleInfo_User then r\<lparr>rm_users := rm_users r @ [ri_RoleID ri]\<rparr>
      else r)"

text \<open>A new role of an unknown type is cached but not stored.\<close>

definition addRoleInfo :: "lib \<Rightarrow> RoleInfo \<Rightarrow> bool \<Rightarrow> unit rgo" where
  "addRoleInfo L ri save =
     bnd (gets (\<lambda>r. rm_infos r (ri_RoleID ri))) (\<lambda>old.
     seq (modify (\<lambda>r. r\<lparr>rm_infos := (rm_infos r)(ri_RoleID ri \<mapsto> ri)\<rparr>))
    (seq (modify (if old = None then list_role ri else (\<lambda>r. r)))
    (if old = None \<and> ri_Type ri \<notin> {RoleInfo_Keeper, RoleInfo_Provider, RoleInfo_User} then ret ()
     else if save then
       (case marshal (lb_cRoleInfo L) ri of None \<Rightarrow> ret ()
        | Some b \<Rightarrow> rm_put L (skey MT_RoleInfoKey [unat (ri_RoleID ri)]) b)
     else ret ())))"

text \<open>
  A role of another group: the log statement reads \<open>ri.GroupID\<close>, and \<open>ri\<close> is nil unless the
  store held something under the role's key.
\<close>

definition rm_get :: "lib \<Rightarrow> env \<Rightarrow> u64 \<Rightarrow> RoleInfo rgo" where
  "rm_get L E rid =
     bnd (gets (\<lambda>r. (rm_infos r rid, rm_ds r (skey MT_RoleInfoKey [unat rid]), rm_groupID r))) (\<lambda>(cached, stored, gid).
     case cached of Some ri \<Rightarrow> ret ri
     | None \<Rightarrow> (case Option.bind stored (decode (lb_cRoleInfo L) zero_RoleInfo) of
         Some ri \<Rightarrow> seq (addRoleInfo L ri False) (ret ri)
       | None \<Rightarrow>
           bnd (orErr ''settle'' (en_settleRole E rid)) (\<lambda>pri.
           if ri_GroupID pri \<noteq> gid then
             (if stored = None then fail (Panic ''nil role info'') else fail (Err ''not my group''))
           else seq (addRoleInfo L pri True) (ret pri))))"

definition RoleMgr_New :: "lib \<Rightarrow> env \<Rightarrow> u64 \<Rightarrow> u64 \<Rightarrow> kvs \<Rightarrow> RoleMgr option" where
  "RoleMgr_New L E rid gid d = map_option
     (\<lambda>ri. snd (addRoleInfo L (ri\<lparr>ri_GroupID := gid\<rparr>) True \<lparr>rm_roleID = rid, rm_groupID = gid,
        rm_infos = (\<lambda>_. None), rm_users = [], rm_keepers = [], rm_providers = [], rm_ds = d\<rparr>))
     (en_settleRole E rid)"

text \<open>The key of a kind list; \<open>pb.RoleInfo_Keeper.String()\<close> and its like.\<close>

definition kindKey :: "u64 \<Rightarrow> string \<Rightarrow> bytes" where
  "kindKey gid kind = NewKey [KInt (int MT_RoleInfoKey), KUint (unat gid), KString (ascii kind)]"

definition load_kind :: "lib \<Rightarrow> env \<Rightarrow> bytes \<Rightarrow> unit rgo" where
  "load_kind L E val = forM (u64s_of val) (\<lambda>pid. dropErr (seq (rm_get L E pid) (ret ())))"

definition rm_load :: "lib \<Rightarrow> env \<Rightarrow> unit rgo" where
  "rm_load L E =
     bnd (gets (\<lambda>r. rm_ds r (kindKey (rm_groupID r) ''Keeper''))) (\<lambda>val. case val of
       None \<Rightarrow> ret ()
     | Some ks \<Rightarrow> seq (load_kind L E ks)
        (bnd (gets (\<lambda>r. rm_ds r (kindKey (rm_groupID r) ''Provider''))) (\<lambda>val. case val of
           None \<Rightarrow> ret () | Some ps \<Rightarrow> load_kind L E ps)))"

definition rm_save :: "lib \<Rightarrow> unit rgo" where
  "rm_save L =
     bnd (gets (\<lambda>r. r)) (\<lambda>r.
     seq (rm_put L (kindKey (rm_groupID r) ''Keeper'') (concat (map PutUint64 (rm_keepers r))))
         (rm_put L (kindKey (rm_groupID r) ''Provider'') (concat (map PutUint64 (rm_providers r)))))"

section \<open>Following the settlement chain\<close>

text \<open>\<open>syncFromChain\<close> from \<open>i\<close> to \<open>acnt\<close>: the result is the number it stopped at.\<close>

fun syncRoles :: "lib \<Rightarrow> env \<Rightarrow> u64 list \<Rightarrow> u64 \<Rightarrow> u64 rgo" where
  "syncRoles L E [] done = ret done"
| "syncRoles L E (i # is) done = (case en_settleRole E i of
      None \<Rightarrow> ret i
    | Some pri \<Rightarrow>
        bnd (gets rm_groupID) (\<lambda>gid.
        seq (if ri_GroupID pri \<noteq> gid then ret () else addRoleInfo L pri True)
            (syncRoles L E is done)))"

definition syncFromChain :: "lib \<Rightarrow> env \<Rightarrow> u64 \<Rightarrow> u64 \<Rightarrow> u64 rgo" where
  "syncFromChain L E cnt acnt =
     syncRoles L E (map of_nat [unat cnt..<Suc (unat acnt)]) (if cnt \<le> acnt then acnt + 1 else cnt)"

text \<open>A tick of the loop of \<open>sync\<close>: \<open>cnt\<close> is its counter, which is also stored.\<close>

definition syncTick :: "lib \<Rightarrow> env \<Rightarrow> u64 \<Rightarrow> u64 rgo" where
  "syncTick L E cnt =
     bnd (gets rm_groupID) (\<lambda>gid.
     if gid = 0 then ret cnt
     else if en_addrCnt E > cnt then
       bnd (syncFromChain L E (cnt + 1) (en_addrCnt E)) (\<lambda>c.
       seq (rm_put L (skey MT_RoleInfoKey []) (PutUint64 c)) (ret c))
     else ret cnt)"

definition syncStart :: "RoleMgr \<Rightarrow> u64" where
  "syncStart r = (case rm_ds r (skey MT_RoleInfoKey []) of
      Some v \<Rightarrow> if length v = 8 then Uint64 v else 0 | None \<Rightarrow> 0)"

definition RoleExpand :: "lib \<Rightarrow> env \<Rightarrow> unit rgo" where
  "RoleExpand L E = seq (syncFromChain L E 1 (en_addrCnt E)) (ret ())"

section \<open>The interface\<close>

datatype KeyType = KT_Secp256k1 | KT_BLS

definition GetPubKey :: "lib \<Rightarrow> env \<Rightarrow> u64 \<Rightarrow> KeyType \<Rightarrow> bytes rgo" where
  "GetPubKey L E rid ty =
     bnd (rm_get L E rid) (\<lambda>ri.
     ret (case ty of KT_Secp256k1 \<Rightarrow> ri_ChainVerifyKey ri | KT_BLS \<Rightarrow> ri_BlsVerifyKey ri))"

definition RoleSelf :: "lib \<Rightarrow> env \<Rightarrow> RoleInfo rgo" where
  "RoleSelf L E = bnd (gets rm_roleID) (rm_get L E)"

text \<open>A role of another group: \<open>return nil, err\<close> with a nil \<open>err\<close>; \<open>None\<close> is the nil pointer.\<close>

definition RoleGet :: "lib \<Rightarrow> env \<Rightarrow> u64 \<Rightarrow> bool \<Rightarrow> RoleInfo option rgo" where
  "RoleGet L E rid update =
     bnd (if update then ret (Inl (Err ''update'')) else attempt (rm_get L E rid)) (\<lambda>res. case res of
       Inr ri \<Rightarrow> ret (Some ri)
     | Inl _ \<Rightarrow>
         bnd (orErr ''settle'' (en_settleRole E rid)) (\<lambda>pri.
         bnd (gets rm_groupID) (\<lambda>gid.
         if ri_GroupID pri \<noteq> gid then ret None
         else seq (addRoleInfo L pri True) (ret (Some pri)))))"

definition RoleGetRelated :: "nat \<Rightarrow> u64 list rgo" where
  "RoleGetRelated ty =
     (if ty = RoleInfo_Keeper then gets rm_keepers
      else if ty = RoleInfo_Provider then gets rm_providers
      else if ty = RoleInfo_User then gets rm_users
      else fail (Err ''roleinfo not supported''))"

definition keyTypeOf :: "u8 \<Rightarrow> KeyType option" where
  "keyTypeOf ty = (if ty = SigSecp256k1 then Some KT_Secp256k1 else if ty = SigBLS then Some KT_BLS else None)"

definition RoleSign :: "lib \<Rightarrow> env \<Rightarrow> u64 \<Rightarrow> bytes \<Rightarrow> u8 \<Rightarrow> Signature rgo" where
  "RoleSign L E rid msg ty =
     bnd (orErr ''sign type not supported'' (keyTypeOf ty)) (\<lambda>kt.
     bnd (GetPubKey L E rid kt) (\<lambda>addr.
     bnd (orErr ''wallet'' (en_walletSign E addr msg)) (\<lambda>d.
     ret \<lparr>sig_Type = ty, sig_Data = d\<rparr>)))"

definition RoleVerify :: "lib \<Rightarrow> env \<Rightarrow> u64 \<Rightarrow> bytes \<Rightarrow> Signature \<Rightarrow> bool rgo" where
  "RoleVerify L E rid msg sig =
     bnd (orErr ''sign type not supported'' (keyTypeOf (sig_Type sig))) (\<lambda>kt.
     bnd (GetPubKey L E rid kt) (\<lambda>pub.
     seq (reject (pub = []) ''local has no pubkey'')
         (orErr ''verify'' (lb_sigVerify L pub msg (sig_Data sig)))))"

definition SignatureSize :: nat where
  "SignatureSize = 65"

text \<open>The loop over the signers of a list of secp256k1 signatures; \<open>data\<close> is what is left of it.\<close>

fun verifyEach :: "lib \<Rightarrow> env \<Rightarrow> bytes \<Rightarrow> u64 list \<Rightarrow> bytes \<Rightarrow> bool rgo" where
  "verifyEach L E msg [] data = ret True"
| "verifyEach L E msg (i # is) data =
     seq (reject (length data < SignatureSize) ''sign size wrong'')
    (bnd (GetPubKey L E i KT_Secp256k1) (\<lambda>pub.
     bnd (orErr ''verify'' (lb_sigVerify L pub msg (take SignatureSize data))) (\<lambda>ok.
     if ok then verifyEach L E msg is (drop SignatureSize data) else ret False)))"

fun pubKeys :: "lib \<Rightarrow> env \<Rightarrow> u64 list \<Rightarrow> bytes list rgo" where
  "pubKeys L E [] = ret []"
| "pubKeys L E (i # is) =
     bnd (GetPubKey L E i KT_BLS) (\<lambda>pub. bnd (pubKeys L E is) (\<lambda>pubs. ret (pub # pubs)))"

definition RoleVerifyMulti :: "lib \<Rightarrow> env \<Rightarrow> bytes \<Rightarrow> MultiSignature \<Rightarrow> bool rgo" where
  "RoleVerifyMulti L E msg sig =
     seq (reject (\<not> SanityCheck sig) ''duplicate signers'')
    (if ms_Type sig = SigSecp256k1 then verifyEach L E msg (ms_Signer sig) (ms_Data sig)
     else if ms_Type sig = SigBLS then
       bnd (pubKeys L E (ms_Signer sig)) (\<lambda>pubs.
       bnd (orErr ''aggregate'' (en_aggPub E pubs)) (\<lambda>apk.
       orErr ''verify'' (lb_sigVerify L apk msg (ms_Data sig))))
     else fail (Err ''sign type not supported''))"

definition ConfirmDataOrder :: u32 where "ConfirmDataOrder = 13"
definition DataTxErr :: u32 where "DataTxErr = 0"

text \<open>Which roles may send a message of a method.\<close>

definition RoleSanityCheck :: "lib \<Rightarrow> env \<Rightarrow> SignedMessage \<Rightarrow> bool rgo" where
  "RoleSanityCheck L E sm =
     (let m = sm_Message sm in
     seq (reject (length (msg_Params m) \<ge> MsgMaxLen) ''msg length too long'')
    (bnd (rm_get L E (msg_From m)) (\<lambda>ri.
     if msg_Method m \<in> {UpdateChalEpoch, ConfirmPostIncome, ConfirmDataOrder} then
       seq (reject (ri_Type ri \<noteq> RoleInfo_Keeper) ''role type'') (ret True)
     else if msg_Method m \<in> {CreateFs, CreateBucket, PreDataOrder, AddDataOrder, CommitDataOrder} then
       seq (reject (ri_Type ri \<noteq> RoleInfo_User) ''role type'') (ret True)
     else if msg_Method m \<in> {SegmentProof, SegmentFault, SubDataOrder} then
       seq (reject (ri_Type ri \<noteq> RoleInfo_Provider) ''role type'') (ret True)
     else if msg_Method m = DataTxErr then fail (Err ''unsupported type'')
     else ret True)))"

section \<open>Invariant\<close>

text \<open>A role is listed once, under one kind, and is cached.\<close>

definition rm_ok :: "RoleMgr \<Rightarrow> bool" where
  "rm_ok r \<longleftrightarrow> distinct (rm_keepers r @ rm_providers r @ rm_users r) \<and>
     set (rm_keepers r @ rm_providers r @ rm_users r) \<subseteq> dom (rm_infos r)"

lemma rm_ok_put: "keeps rm_ok (rm_put L k v)"
  unfolding rm_put_def by (intro keeps_rules) (simp add: rm_ok_def)

lemma rm_ok_list:
  assumes "rm_ok r" and "rm_infos r (ri_RoleID ri) = None"
  shows "rm_ok (list_role ri (r\<lparr>rm_infos := (rm_infos r)(ri_RoleID ri \<mapsto> ri)\<rparr>))"
proof -
  have "ri_RoleID ri \<notin> set (rm_keepers r @ rm_providers r @ rm_users r)"
    using assms by (auto simp: rm_ok_def)
  with assms(1) show ?thesis
    by (auto simp: rm_ok_def list_role_def)
qed

lemma rm_ok_update: "rm_ok r \<Longrightarrow> rm_ok (r\<lparr>rm_infos := (rm_infos r)(i \<mapsto> ri)\<rparr>)"
  by (auto simp: rm_ok_def)

lemma addRoleInfo_ok: "keeps rm_ok (addRoleInfo L ri sv)"
proof (rule keepsI)
  fix r assume ok: "rm_ok r"
  let ?r = "(if rm_infos r (ri_RoleID ri) = None then list_role ri else (\<lambda>r. r))
      (r\<lparr>rm_infos := (rm_infos r)(ri_RoleID ri \<mapsto> ri)\<rparr>)"
  have "rm_ok ?r"
    using ok rm_ok_list rm_ok_update by simp
  then show "rm_ok (snd (addRoleInfo L ri sv r))"
    using rm_ok_put by (auto simp: addRoleInfo_def keepsD split: option.split)
qed

text \<open>Every operation keeps the invariant.\<close>

lemma rm_get_ok: "keeps rm_ok (rm_get L E i)"
  unfolding rm_get_def by (intro keeps_rules addRoleInfo_ok)

lemma rm_load_ok: "keeps rm_ok (rm_load L E)"
  unfolding rm_load_def load_kind_def by (intro keeps_rules rm_get_ok)

lemma rm_save_ok: "keeps rm_ok (rm_save L)"
  unfolding rm_save_def by (intro keeps_rules rm_ok_put)

lemma syncRoles_ok: "keeps rm_ok (syncRoles L E is d)"
  by (induction "is") (auto simp only: syncRoles.simps intro!: keeps_rules addRoleInfo_ok)

lemma sync_ok: "keeps rm_ok (syncFromChain L E a b)" "keeps rm_ok (syncTick L E c)" "keeps rm_ok (RoleExpand L E)"
  unfolding syncTick_def RoleExpand_def syncFromChain_def by (intro keeps_rules syncRoles_ok rm_ok_put)+

lemma GetPubKey_ok: "keeps rm_ok (GetPubKey L E i ty)"
  unfolding GetPubKey_def by (intro keeps_rules rm_get_ok)

lemma verifyEach_ok: "keeps rm_ok (verifyEach L E m is d)"
  by (induction L E m "is" d rule: verifyEach.induct)
    (auto simp only: verifyEach.simps intro!: keeps_rules GetPubKey_ok)

lemma pubKeys_ok: "keeps rm_ok (pubKeys L E is)"
  by (induction L E "is" rule: pubKeys.induct) (auto simp only: pubKeys.simps intro!: keeps_rules GetPubKey_ok)

lemma role_api_ok:
  "keeps rm_ok (RoleSelf L E)" "keeps rm_ok (RoleGet L E i up)" "keeps rm_ok (RoleGetRelated ty)"
  "keeps rm_ok (RoleSign L E i m sty)" "keeps rm_ok (RoleVerify L E i m sig)"
  "keeps rm_ok (RoleVerifyMulti L E m msig)" "keeps rm_ok (RoleSanityCheck L E sm)"
  unfolding RoleSelf_def RoleGet_def RoleGetRelated_def RoleSign_def RoleVerify_def RoleVerifyMulti_def
    RoleSanityCheck_def
  by (intro keeps_rules rm_get_ok addRoleInfo_ok GetPubKey_ok verifyEach_ok pubKeys_ok)+

section \<open>What the operations return\<close>

text \<open>A role found once is found again, as it was.\<close>

lemma addRoleInfo_cached:
  "addRoleInfo L ri sv r = (Inr u, t) \<Longrightarrow>
     rm_infos t = (rm_infos r)(ri_RoleID ri \<mapsto> ri) \<and> rm_groupID t = rm_groupID r"
  by (auto simp: addRoleInfo_def rm_put_def list_role_def go_simps split: option.splits if_splits)

text \<open>A multi-signature that verifies has distinct signers, each with a key.\<close>

lemma RoleVerifyMulti_distinct:
  "RoleVerifyMulti L E m sig r = (Inr True, t) \<Longrightarrow> distinct (ms_Signer sig) \<and> ms_Type sig \<in> {SigSecp256k1, SigBLS}"
  by (auto simp: RoleVerifyMulti_def SanityCheck_distinct go_simps split: if_splits)

text \<open>Every settled role of the group is cached after a synchronisation that was not cut short.\<close>

lemma syncRoles_all:
  assumes "syncRoles L E is d r = (Inr c, t)" and "\<And>i. i \<in> set is \<Longrightarrow> en_settleRole E i \<noteq> None"
  shows "c = d \<and> rm_groupID t = rm_groupID r \<and>
    (\<forall>i. i \<notin> (\<lambda>x. ri_RoleID (the (en_settleRole E x))) ` set is \<longrightarrow> rm_infos t i = rm_infos r i)"
  using assms
proof (induction "is" arbitrary: r)
  case (Cons i "is")
  from Cons.prems(2) [of i] obtain pri where pri: "en_settleRole E i = Some pri"
    by auto
  with Cons.prems(1) obtain r1 where add: "(if ri_GroupID pri \<noteq> rm_groupID r then ret () else addRoleInfo L pri True) r = (Inr (), r1)"
    and rest: "syncRoles L E is d r1 = (Inr c, t)"
    by (auto simp: go_simps)
  from add have "rm_groupID r1 = rm_groupID r \<and> (\<forall>j. j \<noteq> ri_RoleID pri \<longrightarrow> rm_infos r1 j = rm_infos r j)"
    using addRoleInfo_cached [of L pri True r "()" r1] by (auto split: if_splits)
  with Cons.IH [OF rest] Cons.prems(2) pri show ?case
    by auto
qed simp

lemma syncFromChain_one:
  "unat b + 1 < 2 ^ 64 \<Longrightarrow> syncFromChain L E b b = syncRoles L E [b] (b + 1)"
  by (simp add: syncFromChain_def)

lemma syncTick_full:
  assumes "syncTick L E cnt r = (Inr c, t)" and "rm_groupID r \<noteq> 0" and "cnt < en_addrCnt E"
    and "\<And>i. en_settleRole E i \<noteq> None"
  shows "c = en_addrCnt E + 1 \<and> rm_groupID t = rm_groupID r"
proof -
  from assms(1-3) obtain t1 where run: "syncFromChain L E (cnt + 1) (en_addrCnt E) r = (Inr c, t1)"
    and put: "rm_put L (skey MT_RoleInfoKey []) (PutUint64 c) t1 = (Inr (), t)"
    by (auto simp: syncTick_def go_simps)
  have "cnt + 1 \<le> en_addrCnt E"
    using assms(3) by (rule inc_le)
  with run have "syncRoles L E (map of_nat [unat (cnt + 1)..<Suc (unat (en_addrCnt E))]) (en_addrCnt E + 1) r = (Inr c, t1)"
    by (simp add: syncFromChain_def)
  from syncRoles_all [OF this] assms(4) put show ?thesis
    by (auto simp: rm_put_def)
qed

section \<open>Properties\<close>

text \<open>
  A run of the role manager: a start, and any sequence of its operations, whether they succeed
  or fail.
\<close>

inductive role_reach :: "lib \<Rightarrow> RoleMgr \<Rightarrow> bool" for L where
  start: "RoleMgr_New L E rid gid d = Some r \<Longrightarrow> role_reach L r"
| load: "role_reach L r \<Longrightarrow> role_reach L (snd (rm_load L E r))"
| save: "role_reach L r \<Longrightarrow> role_reach L (snd (rm_save L r))"
| tick: "role_reach L r \<Longrightarrow> role_reach L (snd (syncTick L E c r))"
| expand: "role_reach L r \<Longrightarrow> role_reach L (snd (RoleExpand L E r))"
| self: "role_reach L r \<Longrightarrow> role_reach L (snd (RoleSelf L E r))"
| get: "role_reach L r \<Longrightarrow> role_reach L (snd (RoleGet L E i up r))"
| sign: "role_reach L r \<Longrightarrow> role_reach L (snd (RoleSign L E i m ty r))"
| verify: "role_reach L r \<Longrightarrow> role_reach L (snd (RoleVerify L E i m sig r))"
| verify_multi: "role_reach L r \<Longrightarrow> role_reach L (snd (RoleVerifyMulti L E m msig r))"
| check: "role_reach L r \<Longrightarrow> role_reach L (snd (RoleSanityCheck L E sm r))"

lemma RoleMgr_New_ok:
  assumes "RoleMgr_New L E rid gid d = Some r"
  shows "rm_ok r"
proof -
  let ?r = "\<lparr>rm_roleID = rid, rm_groupID = gid, rm_infos = (\<lambda>_. None), rm_users = [], rm_keepers = [],
     rm_providers = [], rm_ds = d\<rparr>"
  have "rm_ok ?r"
    by (simp add: rm_ok_def)
  from assms obtain ri where "r = snd (addRoleInfo L ri True ?r)"
    by (auto simp: RoleMgr_New_def)
  then show ?thesis
    using keepsD [OF addRoleInfo_ok \<open>rm_ok ?r\<close>] by simp
qed

lemma role_reach_ok: "role_reach L r \<Longrightarrow> rm_ok r"
  by (induction rule: role_reach.induct)
    (simp_all add: RoleMgr_New_ok rm_load_ok rm_save_ok sync_ok role_api_ok keepsD)


definition ex_roles :: env where
  "ex_roles = env0\<lparr>en_settleRole := (\<lambda>i. Some (zero_RoleInfo\<lparr>ri_Type := RoleInfo_Keeper, ri_RoleID := i, ri_GroupID := 1\<rparr>)),
     en_addrCnt := 2\<rparr>"

definition ex_rm :: RoleMgr where
  "ex_rm = snd (addRoleInfo lib0 (zero_RoleInfo\<lparr>ri_Type := RoleInfo_Keeper, ri_RoleID := 1, ri_GroupID := 1\<rparr>) True
     \<lparr>rm_roleID = 1, rm_groupID = 1, rm_infos = (\<lambda>_. None), rm_users = [], rm_keepers = [], rm_providers = [],
      rm_ds = (\<lambda>_. None)\<rparr>)"

lemma ex_rm_fields: "rm_groupID ex_rm = 1" "rm_keepers ex_rm = [1]"
  by (simp_all add: ex_rm_def addRoleInfo_def list_role_def)


text \<open>
  Following the settlement chain skips roles: once the manager has caught up with \<open>n\<close>
  roles, the registration of role \<open>n + 1\<close> triggers nothing, and when role \<open>n + 2\<close> registers only
  that one is fetched.
\<close>

theorem sync_skips_role:
  assumes "syncTick L E cnt r = (Inr c, t)" and "rm_groupID r \<noteq> 0" and "cnt < n" and "en_addrCnt E = n"
    and "\<And>i. \<exists>ri. en_settleRole E i = Some ri \<and> ri_RoleID ri = i" and "unat n + 3 < 2 ^ 64"
  shows "c = n + 1 \<and> syncTick L (E\<lparr>en_addrCnt := n + 1\<rparr>) c t = (Inr c, t) \<and>
    (\<forall>c' t'. syncTick L (E\<lparr>en_addrCnt := n + 2\<rparr>) c t = (Inr c', t') \<longrightarrow> rm_infos t' (n + 1) = rm_infos t (n + 1))"
proof -
  have settled: "en_settleRole E i \<noteq> None" for i
    using assms(5) [of i] by auto
  have c: "c = n + 1" "rm_groupID t = rm_groupID r"
    using syncTick_full [OF assms(1,2)] assms(3,4) settled by simp_all
  have n2: "unat (n + 2) = unat n + 2"
    using assms(6) by (simp add: unat_word_ariths)
  have n1: "unat (n + 1) = unat n + 1"
    using assms(6) by (simp add: unat_word_ariths)
  have small: "unat (n + 2) + 1 < 2 ^ 64"
    using n2 assms(6) by simp
  have "rm_infos t' (n + 1) = rm_infos t (n + 1)" if run2: "syncTick L (E\<lparr>en_addrCnt := n + 2\<rparr>) c t = (Inr c', t')" for c' t'
  proof -
    let ?E = "E\<lparr>en_addrCnt := n + 2\<rparr>"
    have "n + 1 < n + 2"
      using n1 n2 by (simp add: word_less_nat_alt)
    then obtain t1 where one: "syncFromChain L ?E (n + 2) (n + 2) t = (Inr c', t1)"
      and t': "rm_put L (skey MT_RoleInfoKey []) (PutUint64 c') t1 = (Inr (), t')"
      using run2 assms(2) c by (auto simp: syncTick_def add.assoc go_simps)
    from one have "syncRoles L ?E [n + 2] (n + 2 + 1) t = (Inr c', t1)"
      unfolding syncFromChain_one [OF small] .
    from syncRoles_all [OF this] settled have "i \<noteq> ri_RoleID (the (en_settleRole E (n + 2))) \<Longrightarrow> rm_infos t1 i = rm_infos t i"
      for i by auto
    moreover have "ri_RoleID (the (en_settleRole E (n + 2))) = n + 2"
      using assms(5) [of "n + 2"] by auto
    moreover have "n + 1 \<noteq> n + 2"
      using \<open>n + 1 < n + 2\<close> by simp
    ultimately show ?thesis
      using t' by (auto simp: rm_put_def split: if_splits)
  qed
  moreover have "syncTick L (E\<lparr>en_addrCnt := n + 1\<rparr>) c t = (Inr c, t)"
    using c assms(2) by (simp add: syncTick_def)
  ultimately show ?thesis
    using c(1) by blast
qed

end
