(* ===== verification/StateFrame.thy ===== *)
theory StateFrame
  imports StateApi
begin

text \<open>
  What the message handlers leave alone.  The locales \<open>common_frame\<close>, \<open>role_frame\<close> and
  \<open>order_frame\<close> list the elementary changes that groups of handlers make to the state, and
  \<open>handler_frame\<close> those of all: a predicate that they preserve is preserved by every
  handler, whether it succeeds or fails.  They are interpreted on several predicates below:
  the fields a handler never touches, the open transaction, and the nonces of roles.
  \<open>validate_frame\<close> does the same for the validating twins.
\<close>

section \<open>Keys the handlers do not write\<close>

text \<open>
  The message nonce of a role, the block records and the root are written by \<open>applyMsg\<close> and
  \<open>ApplyBlock\<close> only.
\<close>

definition chain_key :: "bytes \<Rightarrow> bool" where
  "chain_key k \<longleftrightarrow> (\<exists>mt ns. k = skey mt ns \<and>
     mt \<in> {ST_RoleValueKey, ST_BlockHeightKey, ST_RootKey})"

lemma chain_key_skey [simp]:
  "chain_key (skey mt ns) \<longleftrightarrow> mt \<in> {ST_RoleValueKey, ST_BlockHeightKey, ST_RootKey}"
  by (auto simp: chain_key_def)

lemma etagKey_neq_skey: "mt \<noteq> ST_ObjMetaKey \<Longrightarrow> etagKey etag ns \<noteq> skey mt ms"
  unfolding etagKey_def skey_def by (rule NewKey_meta_neq) simp

lemma chain_key_etagKey [simp]: "\<not> chain_key (etagKey etag ns)"
  using etagKey_neq_skey by (auto simp: chain_key_def meta_defs)

text \<open>The keys that belong to one pair of user and provider, and the provider's own.\<close>

definition order_types :: "nat set" where
  "order_types = {ST_OrderStateKey, ST_OrderBaseKey, ST_OrderSeqKey, ST_SegProofKey, ST_SegPayKey}"

definition order_key :: "bytes \<Rightarrow> bool" where
  "order_key k \<longleftrightarrow> (\<exists>mt ns. k = skey mt ns \<and> mt \<in> order_types)"

lemma order_key_skey [simp]: "order_key (skey mt ns) \<longleftrightarrow> mt \<in> order_types"
  by (auto simp: order_key_def)

lemma order_key_etagKey [simp]: "\<not> order_key (etagKey etag ns)"
  using etagKey_neq_skey by (auto simp: order_key_def order_types_def meta_defs)

section \<open>The frame of the handlers\<close>

text \<open>The current value of a role, cached or stored.\<close>

definition role_val :: "lib \<Rightarrow> u64 \<Rightarrow> StateMgr \<Rightarrow> roleValue" where
  "role_val L r s = (case rInfo s r of Some ri \<Rightarrow> rl_val ri | None \<Rightarrow> loadVal L r s)"

subsection \<open>Handlers that touch neither orders nor the lists of roles\<close>

text \<open>A role enters the cache with the value it has, and no registered base is lost.\<close>

locale common_frame =
  fixes L :: lib and P :: "StateMgr \<Rightarrow> bool"
  assumes put: "\<not> chain_key k \<Longrightarrow> \<not> order_key k \<Longrightarrow> keeps P (sput L k v)"
    and role: "P s \<Longrightarrow> rl_val ri = role_val L r s \<Longrightarrow> rInfo s r = None \<or> rl_base ri \<noteq> None \<Longrightarrow>
      P (s\<lparr>rInfo := (rInfo s)(r \<mapsto> ri)\<rparr>)"
    and user: "P s \<Longrightarrow> P (s\<lparr>sInfo := u\<rparr>)"
    and epochs: "P s \<Longrightarrow> P (s\<lparr>ceInfo := c\<rparr>)"
begin

lemma meta_put:
  "keeps P (sput L (skey ST_RoleBaseKey ns) v)"
  "keeps P (sput L (skey ST_ChalEpochKey ns) v)"
  "keeps P (sput L (skey ST_KeepersKey ns) v)"
  "keeps P (sput L (skey ST_UsersKey ns) v)"
  "keeps P (sput L (skey ST_ProsKey ns) v)"
  "keeps P (sput L (skey ST_PDPVerifyKey ns) v)"
  "keeps P (sput L (skey ST_PDPPublicKey ns) v)"
  "keeps P (sput L (skey ST_NetKey ns) v)"
  "keeps P (sput L (skey ST_BucketOptKey ns) v)"
  "keeps P (sput L (skey ST_SegLocKey ns) v)"
  "keeps P (sput L (skey ST_SegMapKey ns) v)"
  "keeps P (sput L (skey ST_SegPayComfirmKey ns) v)"
  "keeps P (sput L (skey ST_BucMetaKey ns) v)"
  "keeps P (sput L (objKey a b c) v)"
  "keeps P (sput L (etagKey e ns) v)"
  "keeps P (sput L (if cond then etagKey e ns else etagKey e' ns') v)"
  by (simp_all add: objKey_def put order_types_def meta_defs)

lemma verify_frame: "keeps P (verify L ri m sig)"
  unfolding verify_def by (intro keeps_rules)

lemma Serialize_frame: "keeps P (Serialize c x)"
  unfolding Serialize_def by (intro keeps_rules)

lemma lookupRole_frame: "keeps P (lookupRole L r)"
proof (rule keepsI)
  fix s assume "P s"
  then show "P (snd (lookupRole L r s))"
    using role [of s "loadRole L r s" r]
    by (auto simp: lookupRole_def loadRole_def role_val_def Let_def split: option.splits)
qed

lemma loadUser_frame: "keeps P (loadUser L u)"
  unfolding loadUser_def by (intro keeps_rules meta_put)

lemma lookupUser_frame: "keeps P (lookupUser L u)"
  unfolding lookupUser_def by (intro keeps_rules loadUser_frame user)

lemmas common_prims = meta_put verify_frame Serialize_frame lookupRole_frame lookupUser_frame
  user epochs

lemma addUser_frame: "keeps P (addUser L msg)"
  unfolding addUser_def checkUserKey_def by (intro keeps_rules common_prims)

lemma addBucket_frame: "keeps P (addBucket L msg)"
  unfolding addBucket_def by (intro keeps_rules common_prims)

lemma addChunk_frame: "keeps P (addChunk L u b st len pro nonce chunk)"
  unfolding addChunk_def by (intro keeps_rules common_prims)

lemma updateNetAddr_frame: "keeps P (updateNetAddr L msg)"
  unfolding updateNetAddr_def by (intro keeps_rules common_prims)

lemma addBucMeta_frame: "keeps P (addBucMeta L msg)"
  unfolding addBucMeta_def by (intro keeps_rules common_prims)

lemma addObjMeta_frame: "keeps P (addObjMeta L msg)"
  unfolding addObjMeta_def by (intro keeps_rules common_prims)

lemma updateChalEpoch_frame: "keeps P (updateChalEpoch L msg)"
  unfolding updateChalEpoch_def checkEpoch_def by (intro keeps_rules common_prims)

lemma addPay_frame: "keeps P (addPay L msg)"
  unfolding addPay_def checkPay_def checkConfirm_def rejectNe_def bigEq_def Let_def
  by (intro keeps_rules common_prims)

text \<open>\<open>setRoleBase\<close> stores the role's current value next to the new base.\<close>

lemma setRoleBase_frame: "keeps P (setRoleBase L pri)"
proof (rule keepsI)
  fix s assume "P s"
  then show "P (snd (setRoleBase L pri s))"
    using role [of s]
    by (cases "rInfo s (ri_RoleID pri)")
      (auto simp: setRoleBase_def role_val_def reject_def bnd_def seq_def)
qed

end

subsection \<open>Registration of roles\<close>

locale role_frame = common_frame +
  assumes tput: "\<not> chain_key k \<Longrightarrow> \<not> order_key k \<Longrightarrow> keeps P (tds_put L k v)"
    and keeper_list: "P s \<Longrightarrow> P (s\<lparr>keepers := ks\<rparr>)"
    and pro_list: "P s \<Longrightarrow> P (s\<lparr>pros := ks\<rparr>)"
    and user_list: "P s \<Longrightarrow> P (s\<lparr>users := ks\<rparr>)"
begin

lemma appendId_frame:
  "mt \<in> {ST_KeepersKey, ST_UsersKey, ST_ProsKey} \<Longrightarrow> keeps P (appendId L mt r)"
  unfolding appendId_def
  by (intro keeps_rules tput) (auto simp: order_types_def meta_defs)

lemma enlist_frame: "keeps P (enlist L ty r)"
  unfolding enlist_def
  by (intro keeps_rules keeper_list pro_list user_list appendId_frame) auto

lemma addRole_frame: "keeps P (addRole L msg)"
  unfolding addRole_def Let_def
  by (intro keeps_rules common_prims setRoleBase_frame enlist_frame)

end

subsection \<open>Orders\<close>

text \<open>\<open>K\<close> holds of the pairs whose order may change.\<close>

locale order_frame = common_frame +
  fixes K :: "orderKey \<Rightarrow> bool"
  assumes order_put: "K okey \<Longrightarrow> mt \<in> order_types \<Longrightarrow>
      keeps P (sput L (skey mt (unat (fst okey) # unat (snd okey) # ns)) v)"
    and acc_put: "keeps P (sput L (skey ST_SegPayKey [n]) v)"
    and acc_epoch_put: "keeps P (sput L (skey ST_SegPayKey [0, n, e]) v)"
    and order: "P s \<Longrightarrow> K okey \<Longrightarrow> P (s\<lparr>oInfo := (oInfo s)(okey \<mapsto> oi)\<rparr>)"
begin

lemma pair_put:
  assumes "K okey"
  shows "keeps P (sput L (orderFullKey okey n) v)" "keeps P (sput L (orderSeqKey okey n q) v)"
    "keeps P (sput L (skey ST_OrderStateKey (unat (fst okey) # unat (snd okey) # ns)) v)"
    "keeps P (sput L (skey ST_SegProofKey (unat (fst okey) # unat (snd okey) # ns)) v)"
    "keeps P (sput L (skey ST_SegPayKey (unat (fst okey) # unat (snd okey) # ns)) v)"
  unfolding orderFullKey_def orderSeqKey_def using assms
  by (auto intro!: order_put simp: order_types_def)

lemma lookupOrder_frame: "K okey \<Longrightarrow> keeps P (lookupOrder L okey)"
  by (rule keepsI) (auto simp: lookupOrder_def Let_def order split: option.splits)

lemmas order_prims = common_prims lookupOrder_frame order pair_put acc_put acc_epoch_put

lemma verifyOrder_frame: "keeps P (verifyOrder L (lookupRole L) od)"
  unfolding verifyOrder_def by (intro keeps_rules common_prims)

lemma checkNewOrder_frame: "keeps P (checkNewOrder L msg)"
  unfolding checkNewOrder_def by (intro keeps_rules)

lemma saveOrderState_frame: "K okey \<Longrightarrow> keeps P (saveOrderState L okey ns)"
  unfolding saveOrderState_def by (intro keeps_rules order_prims)

text \<open>The pair of a message: read off the decoded parameters.\<close>

lemma createOrder_frame:
  assumes "\<And>od. decode (lb_cSignedOrder L) zero_SignedOrder (msg_Params msg) = Some od \<Longrightarrow>
    K (so_UserID od, so_ProID od)"
  shows "keeps P (createOrder L msg)"
  unfolding createOrder_def checkOrderTime_def appendAt_def Let_def
  by (rule keeps_bnd_res [OF checkNewOrder_frame])
    (intro keeps_rules order_prims verifyOrder_frame saveOrderState_frame;
      auto simp: checkNewOrder_def go_simps intro: assms)

lemma checkSeqSize_frame: "keeps P (checkSeqSize L roles base so p)"
  unfolding checkSeqSize_def by (intro keeps_rules common_prims)

lemma saveSeq_frame: "K okey \<Longrightarrow> keeps P (saveSeq L okey base ns oacc q acc)"
  unfolding saveSeq_def by (intro keeps_rules order_prims saveOrderState_frame)

lemma checkNewSeq_frame: "keeps P (checkNewSeq L msg)"
  unfolding checkNewSeq_def by (intro keeps_rules)

lemma addSeq_frame:
  assumes "\<And>so. decode (lb_cSignedOrderSeq L) zero_SignedOrderSeq (msg_Params msg) = Some so \<Longrightarrow>
    K (os_UserID (sos_OrderSeq so), os_ProID (sos_OrderSeq so))"
  shows "keeps P (addSeq L msg)"
  unfolding addSeq_def verifySeqData_def checkSeqNonce_def Let_def
  by (rule keeps_bnd_res [OF checkNewSeq_frame])
    (intro keeps_rules order_prims checkSeqSize_frame addChunk_frame saveSeq_frame;
      auto simp: checkNewSeq_def go_simps intro: assms)

lemma commitOrder_frame:
  assumes "\<And>p. decode (lb_cOrderCommitParas L) zero_OrderCommitParas (msg_Params msg) = Some p \<Longrightarrow>
    K (ocp_UserID p, ocp_ProID p)"
  shows "keeps P (commitOrder L msg)"
  unfolding commitOrder_def checkCommit_def Let_def
  by (rule keeps_bnd_res [OF keeps_orErr])
    (intro keeps_rules order_prims saveOrderState_frame; auto simp: go_simps intro: assms)

lemma subOrder_frame:
  assumes "\<And>p. decode (lb_cOrderSubParas L) zero_OrderSubParas (msg_Params msg) = Some p \<Longrightarrow>
    K (osp_UserID p, osp_ProID p)"
  shows "keeps P (subOrder L msg)"
  unfolding subOrder_def checkSub_def Let_def
  by (rule keeps_bnd_res [OF keeps_orErr])
    (intro keeps_rules order_prims saveOrderState_frame; auto simp: go_simps intro: assms)

lemma income_frames:
  "K okey \<Longrightarrow> keeps P (saveIncome L okey pi)"
  "K okey \<Longrightarrow> keeps P (savePostIncomeAt L okey e f)"
  "keeps P (saveAccIncome L p e g)"
  unfolding saveIncome_def savePostIncomeAt_def saveAccIncome_def Let_def
  by (intro keeps_rules order_prims; simp)+

lemma removeSeg_frame:
  assumes "\<And>p. decode (lb_cSegRemoveParas L) zero_SegRemoveParas (msg_Params msg) = Some p \<Longrightarrow>
    K (srp_UserID p, srp_ProID p)"
  shows "keeps P (removeSeg L msg)"
  unfolding removeSeg_def checkRemoveTime_def Let_def
  by (rule keeps_bnd_res [OF keeps_orErr])
    (intro keeps_rules order_prims income_frames; auto simp: go_simps intro: assms)

lemma totals_frame: "keeps P (chalTotals L cei (orderStep L okey) okey scp ns chal)"
  unfolding chalTotals_def latestOrder_def seqStep_def orderStep_def addCommitted_def
  by (intro keeps_rules)

lemma saveProof_frame: "K okey \<Longrightarrow> keeps P (saveProof L msg okey e tot oi)"
  unfolding saveProof_def Let_def by (intro keeps_rules order_prims income_frames)

lemma checkChal_frame: "keeps P (checkChal L ce msg)"
  unfolding checkChal_def by (intro keeps_rules)

lemma addSegProof_frame:
  assumes "\<And>p. decode (lb_cSegChalParams L) zero_SegChalParams (msg_Params msg) = Some p \<Longrightarrow>
    K (scp_UserID p, scp_ProID p)"
  shows "keeps P (addSegProof L msg)"
  unfolding addSegProof_def newChal_def checkProof_def Let_def
  by (rule keeps_bnd_res [OF checkChal_frame])
    (intro keeps_rules order_prims totals_frame saveProof_frame;
      auto simp: checkChal_def go_simps intro: assms)

end

subsection \<open>All handlers\<close>

locale handler_frame = role_frame L P + order_frame L P "\<lambda>_. True" for L P
begin

theorem applyMethod_frame: "keeps P (applyMethod L msg)"
  unfolding applyMethod_def
  by (intro keeps_rules addRole_frame addUser_frame addBucket_frame createOrder_frame addSeq_frame
      commitOrder_frame subOrder_frame removeSeg_frame updateChalEpoch_frame addSegProof_frame
      addPay_frame updateNetAddr_frame addBucMeta_frame addObjMeta_frame; simp)

end

text \<open>The frequent case: any key but those of the chain may be written, any order changed.\<close>

locale simple_frame =
  fixes L :: lib and P :: "StateMgr \<Rightarrow> bool"
  assumes any_put: "\<not> chain_key k \<Longrightarrow> keeps P (sput L k v)"
    and any_tput: "\<not> chain_key k \<Longrightarrow> keeps P (tds_put L k v)"
    and any_role: "P s \<Longrightarrow> rl_val ri = role_val L r s \<Longrightarrow> P (s\<lparr>rInfo := (rInfo s)(r \<mapsto> ri)\<rparr>)"
    and any_order: "P s \<Longrightarrow> P (s\<lparr>oInfo := m\<rparr>)"
    and any_user: "P s \<Longrightarrow> P (s\<lparr>sInfo := u\<rparr>)"
    and any_epochs: "P s \<Longrightarrow> P (s\<lparr>ceInfo := c\<rparr>)"
    and any_keepers: "P s \<Longrightarrow> P (s\<lparr>keepers := ks\<rparr>)"
    and any_pros: "P s \<Longrightarrow> P (s\<lparr>pros := ks\<rparr>)"
    and any_users: "P s \<Longrightarrow> P (s\<lparr>users := ks\<rparr>)"

sublocale simple_frame \<subseteq> handler_frame L P
proof unfold_locales
  have order_types: "mt \<in> order_types \<Longrightarrow> \<not> chain_key (skey mt ns)" for mt ns
    by (auto simp: order_types_def meta_defs)
  show "mt \<in> order_types \<Longrightarrow> keeps P (sput L (skey mt (unat (fst okey) # unat (snd okey) # ns)) v)"
    for mt okey ns v
    using any_put order_types by blast
  show "keeps P (sput L (skey ST_SegPayKey [n]) v)" "keeps P (sput L (skey ST_SegPayKey [0, n, e]) v)" for n e v
    using any_put order_types by (simp_all add: order_types_def)
qed (simp_all add: any_put any_tput any_role any_order any_user any_epochs any_keepers any_pros any_users)

section \<open>The frame of validation\<close>

text \<open>
  The validating twins change the validation caches; a user of an old state is loaded by
  writing its verify key, which is the one write of validation.
\<close>

locale validate_frame =
  fixes L :: lib and P :: "StateMgr \<Rightarrow> bool"
  assumes vk_put: "keeps P (sput L (skey ST_PDPVerifyKey ns) v)"
    and vrole: "P s \<Longrightarrow> P (s\<lparr>validateRInfo := r\<rparr>)"
    and vorder: "P s \<Longrightarrow> P (s\<lparr>validateOInfo := m\<rparr>)"
    and vuser: "P s \<Longrightarrow> P (s\<lparr>validateSInfo := u\<rparr>)"
    and vepochs: "P s \<Longrightarrow> P (s\<lparr>validateCeInfo := c\<rparr>)"
    and vroot: "P s \<Longrightarrow> P (s\<lparr>validateRoot := rt\<rparr>)"
    and vheight: "P s \<Longrightarrow> P (s\<lparr>validateHeight := h\<rparr>)"
    and vslot: "P s \<Longrightarrow> P (s\<lparr>validateSlot := sl\<rparr>)"
    and vversion: "P s \<Longrightarrow> P (s\<lparr>validateVersion := ver\<rparr>)"
begin

lemma verify_frame: "keeps P (verify L ri m sig)"
  unfolding verify_def by (intro keeps_rules)

lemma Serialize_frame: "keeps P (Serialize c x)"
  unfolding Serialize_def by (intro keeps_rules)

lemma lookupValidateRole_frame: "keeps P (lookupValidateRole L r)"
  by (rule keepsI) (auto simp: lookupValidateRole_def Let_def vrole split: option.splits)

lemma lookupValidateOrder_frame: "keeps P (lookupValidateOrder L okey)"
  by (rule keepsI) (auto simp: lookupValidateOrder_def Let_def vorder split: option.splits)

lemma loadUser_frame: "keeps P (loadUser L u)"
  unfolding loadUser_def by (intro keeps_rules vk_put)

lemma lookupValidateUser_frame: "keeps P (lookupValidateUser L u)"
  unfolding lookupValidateUser_def by (intro keeps_rules loadUser_frame vuser)

lemmas prim_frames = verify_frame Serialize_frame lookupValidateRole_frame
  lookupValidateOrder_frame lookupValidateUser_frame loadUser_frame vuser vorder vepochs vrole

lemma canAddRole_frame: "keeps P (canAddRole L msg)"
  unfolding canAddRole_def by (intro keeps_rules prim_frames)

lemma canAddUser_frame: "keeps P (canAddUser L msg)"
  unfolding canAddUser_def checkUserKey_def by (intro keeps_rules prim_frames)

lemma canAddBucket_frame: "keeps P (canAddBucket L msg)"
  unfolding canAddBucket_def by (intro keeps_rules prim_frames)

lemma canAddChunk_frame: "keeps P (canAddChunk L u b st len pro nonce chunk)"
  unfolding canAddChunk_def by (intro keeps_rules prim_frames)

lemma canCreateOrder_frame: "keeps P (canCreateOrder L msg)"
  unfolding canCreateOrder_def checkNewOrder_def verifyOrder_def checkOrderTime_def
  by (intro keeps_rules prim_frames)

lemma canAddSeq_frame: "keeps P (canAddSeq L msg)"
  unfolding canAddSeq_def checkNewSeq_def verifySeqData_def checkSeqNonce_def checkSeqSize_def
  by (intro keeps_rules prim_frames canAddChunk_frame)

lemma canCommitOrder_frame: "keeps P (canCommitOrder L msg)"
  unfolding canCommitOrder_def checkCommit_def by (intro keeps_rules prim_frames)

lemma canSubOrder_frame: "keeps P (canSubOrder L msg)"
  unfolding canSubOrder_def checkSub_def by (intro keeps_rules prim_frames)

lemma canRemoveSeg_frame: "keeps P (canRemoveSeg L msg)"
  unfolding canRemoveSeg_def checkRemoveTime_def by (intro keeps_rules prim_frames)

lemma canUpdateChalEpoch_frame: "keeps P (canUpdateChalEpoch L msg)"
  unfolding canUpdateChalEpoch_def checkEpoch_def by (intro keeps_rules prim_frames)

lemma totals_frame: "keeps P (chalTotals L cei (canOrderStep L okey) okey scp ns chal)"
  unfolding chalTotals_def latestOrder_def seqStep_def canOrderStep_def addCommitted_def
  by (intro keeps_rules)

lemma canAddSegProof_frame: "keeps P (canAddSegProof L msg)"
  unfolding canAddSegProof_def checkChal_def newChal_def checkProof_def lookupProofUser_def
  by (intro keeps_rules prim_frames totals_frame)

lemma canAddPay_frame: "keeps P (canAddPay L msg)"
  unfolding canAddPay_def checkPay_def checkConfirm_def rejectNe_def bigEq_def Let_def
  by (intro keeps_rules prim_frames)

lemma canAddMeta_frames: "keeps P (canAddBucMeta L msg)" "keeps P (canAddObjMeta L msg)"
  "keeps P (canUpdateNetAddr L msg)"
  unfolding canAddBucMeta_def canAddObjMeta_def canUpdateNetAddr_def
  by (intro keeps_rules prim_frames)+

theorem canApplyMethod_frame: "keeps P (canApplyMethod L msg)"
  unfolding canApplyMethod_def
  by (intro keeps_rules canAddRole_frame canAddUser_frame canAddBucket_frame canCreateOrder_frame
      canAddSeq_frame canCommitOrder_frame canSubOrder_frame canRemoveSeg_frame
      canUpdateChalEpoch_frame canAddSegProof_frame canAddPay_frame canAddMeta_frames)

lemma newValidateRoot_frame: "keeps P (modify (newValidateRoot L b))"
  by (intro keeps_rules) (simp add: newValidateRoot_def Let_def vroot)

theorem ValidateMsg_frame: "keeps P (ValidateMsg L mmsg)"
  unfolding ValidateMsg_def Let_def
  by (intro keeps_rules vrole newValidateRoot_frame canApplyMethod_frame)

lemma reset_frame: "P s \<Longrightarrow> P (reset s)"
  unfolding reset_def by (intro vversion vheight vslot vroot vepochs vorder vuser vrole)

theorem ValidateBlock_frame: "keeps P (ValidateBlock L mblk)"
  unfolding ValidateBlock_def
  by (intro keeps_rules reset_frame vheight vslot newValidateRoot_frame Serialize_frame)

end

section \<open>Writes and reads of the stores\<close>

lemma tds_put_shape: "tds_put L k v s = (r, t) \<Longrightarrow> \<exists>x. t = s\<lparr>tds := x\<rparr>"
  by (cases "tds s") (auto simp: tds_put_def bnd_def seq_def reject_def split: if_splits
      intro: exI [of _ "tds s"])

lemma sput_shape: "sput L k v s = (r, t) \<Longrightarrow> \<exists>x y. t = s\<lparr>tds := x, smt := y\<rparr>"
  using tds_put_shape [of L k v s r t]
  by (auto simp: sput_def lift_smt_def bnd_def split: if_splits prod.splits)
    (metis StateMgr.surjective StateMgr.update_convs(2,3))+

lemma keeps_tds_put_stable: "(\<And>s x. P s \<Longrightarrow> P (s\<lparr>tds := x\<rparr>)) \<Longrightarrow> keeps P (tds_put L k v)"
  by (rule keepsI) (metis prod.collapse tds_put_shape)

lemma keeps_sput_stable: "(\<And>s x y. P s \<Longrightarrow> P (s\<lparr>tds := x, smt := y\<rparr>)) \<Longrightarrow> keeps P (sput L k v)"
  by (rule keepsI) (metis prod.collapse sput_shape)

text \<open>What a read returns after a write, where the trees obey their law.\<close>

lemma base_get_smt [simp]: "base_get (s\<lparr>smt := t\<rparr>) k = base_get s k"
  by (simp add: base_get_def split: option.split)

lemma txn_base_put [simp]: "txn_base (txn_put t k v) = txn_base t"
  by (simp add: txn_put_def)

lemma sget_cong: "smt t = smt s \<Longrightarrow> ds t = ds s \<Longrightarrow> tds t = tds s \<Longrightarrow> sget L k t = sget L k s"
  by (simp add: sget_def base_get_def split: option.split)

lemma sget_updates [simp]:
  "sget L k (s\<lparr>keepers := x3\<rparr>) = sget L k s"
  "sget L k (s\<lparr>pros := x4\<rparr>) = sget L k s"
  "sget L k (s\<lparr>users := x5\<rparr>) = sget L k s"
  "sget L k (s\<lparr>ceInfo := x6\<rparr>) = sget L k s"
  "sget L k (s\<lparr>root := x7\<rparr>) = sget L k s"
  "sget L k (s\<lparr>oInfo := x8\<rparr>) = sget L k s"
  "sget L k (s\<lparr>sInfo := x9\<rparr>) = sget L k s"
  "sget L k (s\<lparr>rInfo := x10\<rparr>) = sget L k s"
  by (rule sget_cong; simp)+

lemma tds_put_base_get:
  "tds_put L k v s = (r, t) \<Longrightarrow>
     base_get t k' = (if k' = k \<and> r = Inr () then Some v else base_get s k') \<and> smt t = smt s \<and>
     (\<forall>u. tds s = Some u \<longrightarrow> (\<exists>u'. tds t = Some u' \<and> txn_base u' = txn_base u))"
  by (cases "tds s") (auto simp: tds_put_def base_get_def bnd_def seq_def reject_def split: if_splits)

lemma sget_sput_other:
  assumes law: "trie_law (lb_trie L)" and run: "sput L k v s = (r, t)" and "k' \<noteq> k"
  shows "sget L k' t = sget L k' s"
proof (cases "version s < LSMT L")
  case True
  with run have "tds_put L k v s = (r, t)"
    by (simp add: sput_def)
  from tds_put_base_get [OF this, of k'] \<open>k' \<noteq> k\<close> show ?thesis
    by (auto simp: sget_def split: option.splits)
next
  case False
  with run obtain m where "smtPut (lb_trie L) k v (smt s) = (r, m)" and t: "t = s\<lparr>smt := m\<rparr>"
    by (auto simp: sput_def lift_smt_def split: prod.splits)
  from smtPut_get [OF law this(1), of k'] \<open>k' \<noteq> k\<close> t show ?thesis
    by (simp add: sget_def split: option.split)
qed

text \<open>Before the tree is in use it holds no key.\<close>

definition smt_unused :: "lib \<Rightarrow> StateMgr \<Rightarrow> bool" where
  "smt_unused L s \<longleftrightarrow> (version s < LSMT L \<longrightarrow> (\<forall>k. smtGet (lb_trie L) (smt s) k = None))"

lemma sget_sput:
  assumes law: "trie_law (lb_trie L)" and run: "sput L k v s = (Inr u, t)"
    and "smt_unused L s" and "v \<noteq> []"
  shows "sget L k t = Some v"
proof (cases "version s < LSMT L")
  case True
  with run have "tds_put L k v s = (Inr (), t)"
    by (simp add: sput_def)
  from tds_put_base_get [OF this, of k] True \<open>smt_unused L s\<close> show ?thesis
    by (auto simp: sget_def smt_unused_def)
next
  case False
  with run obtain m where "smtPut (lb_trie L) k v (smt s) = (Inr (), m)" and t: "t = s\<lparr>smt := m\<rparr>"
    by (auto simp: sput_def lift_smt_def split: prod.splits)
  from smtPut_get [OF law this(1), of k] \<open>v \<noteq> []\<close> t show ?thesis
    by (simp add: sget_def)
qed

section \<open>Interpretations\<close>

text \<open>The fields no handler touches: the state with the others blanked out.\<close>

definition core :: "StateMgr \<Rightarrow> StateMgr" where
  "core s = s\<lparr>smt := \<lparr>blkRoot = [], curRoot = []\<rparr>, tds := None, keepers := [], pros := [], users := [],
     ceInfo := \<lparr>cei_epoch = 0, cei_current = zero_ChalEpoch, cei_previous = zero_ChalEpoch\<rparr>,
     root := [], oInfo := (\<lambda>_. None), sInfo := (\<lambda>_. None), rInfo := (\<lambda>_. None)\<rparr>"

lemma core_fields:
  assumes "core t = core s"
  shows "ds t = ds s" "genesisBlockID t = genesisBlockID s" "threshold t = threshold s"
    "blkID t = blkID s" "version t = version s" "height t = height s" "slot t = slot s"
    "validateVersion t = validateVersion s" "validateHeight t = validateHeight s"
    "validateSlot t = validateSlot s" "validateCeInfo t = validateCeInfo s"
    "validateRoot t = validateRoot s" "validateOInfo t = validateOInfo s"
    "validateSInfo t = validateSInfo s" "validateRInfo t = validateRInfo s"
  using assms by (cases s; cases t; simp add: core_def)+

lemma core_updates [simp]:
  "core (s\<lparr>smt := x1\<rparr>) = core s" "core (s\<lparr>tds := x2\<rparr>) = core s" "core (s\<lparr>keepers := x3\<rparr>) = core s"
  "core (s\<lparr>pros := x4\<rparr>) = core s" "core (s\<lparr>users := x5\<rparr>) = core s" "core (s\<lparr>ceInfo := x6\<rparr>) = core s"
  "core (s\<lparr>root := x7\<rparr>) = core s" "core (s\<lparr>oInfo := x8\<rparr>) = core s" "core (s\<lparr>sInfo := x9\<rparr>) = core s"
  "core (s\<lparr>rInfo := x10\<rparr>) = core s"
  by (simp_all add: core_def)

lemma core_sput: "keeps (\<lambda>s. core s = c) (sput L k v)"
  by (rule keeps_sput_stable) simp

lemma core_tds_put: "keeps (\<lambda>s. core s = c) (tds_put L k v)"
  by (rule keeps_tds_put_stable) simp

interpretation core_frame: simple_frame L "\<lambda>s. core s = c" for L c
  by unfold_locales (simp_all add: core_sput core_tds_put)

text \<open>The open transaction: its base, and the values of the keys of the chain.\<close>

definition txn_frame :: "kvs \<Rightarrow> (bytes \<Rightarrow> bool) \<Rightarrow> kvs \<Rightarrow> StateMgr \<Rightarrow> bool" where
  "txn_frame d K w s \<longleftrightarrow> (\<exists>t. tds s = Some t \<and> txn_base t = d \<and> (\<forall>k. K k \<longrightarrow> txn_get t k = w k))"

lemma txn_frame_tds_put:
  assumes "\<not> K k"
  shows "keeps (txn_frame d K w) (tds_put L k v)"
  using assms
  by (intro keepsI) (auto simp: txn_frame_def tds_put_def reject_def bnd_def seq_def)

lemma txn_frame_sput:
  assumes "\<not> K k"
  shows "keeps (txn_frame d K w) (sput L k v)"
proof (rule keepsI)
  fix s assume "txn_frame d K w s"
  with keepsD [OF txn_frame_tds_put [where K = K, OF assms], of d w s L v]
  show "txn_frame d K w (snd (sput L k v s))"
    by (cases "version s < LSMT L")
      (auto simp: sput_def lift_smt_def txn_frame_def split: prod.splits)
qed

lemma txn_frame_updates [simp]:
  "txn_frame d K w (s\<lparr>smt := x1\<rparr>) = txn_frame d K w s"
  "txn_frame d K w (s\<lparr>keepers := x3\<rparr>) = txn_frame d K w s"
  "txn_frame d K w (s\<lparr>pros := x4\<rparr>) = txn_frame d K w s"
  "txn_frame d K w (s\<lparr>users := x5\<rparr>) = txn_frame d K w s"
  "txn_frame d K w (s\<lparr>ceInfo := x6\<rparr>) = txn_frame d K w s"
  "txn_frame d K w (s\<lparr>root := x7\<rparr>) = txn_frame d K w s"
  "txn_frame d K w (s\<lparr>oInfo := x8\<rparr>) = txn_frame d K w s"
  "txn_frame d K w (s\<lparr>sInfo := x9\<rparr>) = txn_frame d K w s"
  "txn_frame d K w (s\<lparr>rInfo := x10\<rparr>) = txn_frame d K w s"
  by (simp_all add: txn_frame_def)

interpretation chain_frame: simple_frame L "txn_frame d (\<lambda>k. chain_key k \<and> K k) w" for L d K w
  by unfold_locales (simp_all add: txn_frame_sput txn_frame_tds_put)

text \<open>The value of a role, message nonce included.\<close>

lemma sget_tds_put_other:
  "tds_put L k v s = (r, t) \<Longrightarrow> k' \<noteq> k \<Longrightarrow> sget L k' t = sget L k' s"
  using tds_put_base_get [of L k v s r t k'] by (auto simp: sget_def split: option.splits)

lemma role_val_cong:
  "rInfo t = rInfo s \<Longrightarrow> sget L (skey ST_RoleValueKey [unat r]) t = sget L (skey ST_RoleValueKey [unat r]) s
     \<Longrightarrow> role_val L r t = role_val L r s"
  by (simp add: role_val_def loadVal_def split: option.split)

lemma role_val_updates [simp]:
  "role_val L r (s\<lparr>keepers := x3\<rparr>) = role_val L r s"
  "role_val L r (s\<lparr>pros := x4\<rparr>) = role_val L r s"
  "role_val L r (s\<lparr>users := x5\<rparr>) = role_val L r s"
  "role_val L r (s\<lparr>ceInfo := x6\<rparr>) = role_val L r s"
  "role_val L r (s\<lparr>root := x7\<rparr>) = role_val L r s"
  "role_val L r (s\<lparr>oInfo := x8\<rparr>) = role_val L r s"
  "role_val L r (s\<lparr>sInfo := x9\<rparr>) = role_val L r s"
  by (rule role_val_cong; simp)+

lemma role_val_role:
  "rl_val ri = role_val L r' s \<Longrightarrow> role_val L r (s\<lparr>rInfo := (rInfo s)(r' \<mapsto> ri)\<rparr>) = role_val L r s"
  by (auto simp: role_val_def loadVal_def split: option.split)

lemma role_val_sput:
  assumes "k \<noteq> skey ST_RoleValueKey [unat r]"
  shows "keeps (\<lambda>s. trie_law (lb_trie L) \<longrightarrow> role_val L r s = v) (sput L k x)"
proof (rule keepsI, rule impI)
  fix s assume P: "trie_law (lb_trie L) \<longrightarrow> role_val L r s = v" and law: "trie_law (lb_trie L)"
  obtain e t where run: "sput L k x s = (e, t)"
    by (cases "sput L k x s")
  from sput_shape [OF run] have "rInfo t = rInfo s"
    by auto
  with sget_sput_other [OF law run] assms run P law
  show "role_val L r (snd (sput L k x s)) = v"
    by (metis role_val_cong snd_conv)
qed

lemma role_val_tds_put:
  assumes "k \<noteq> skey ST_RoleValueKey [unat r]"
  shows "keeps (\<lambda>s. trie_law (lb_trie L) \<longrightarrow> role_val L r s = v) (tds_put L k x)"
proof (rule keepsI, rule impI)
  fix s assume P: "trie_law (lb_trie L) \<longrightarrow> role_val L r s = v" and law: "trie_law (lb_trie L)"
  obtain e t where run: "tds_put L k x s = (e, t)"
    by (cases "tds_put L k x s")
  from tds_put_shape [OF run] have "rInfo t = rInfo s"
    by auto
  with sget_tds_put_other [OF run] assms run P law
  show "role_val L r (snd (tds_put L k x s)) = v"
    by (metis role_val_cong snd_conv)
qed

interpretation nonce_frame: simple_frame L "\<lambda>s. trie_law (lb_trie L) \<longrightarrow> role_val L r s = v"
  for L r v
proof unfold_locales
  fix k x assume "\<not> chain_key k"
  then have k: "k \<noteq> skey ST_RoleValueKey [unat r]"
    by auto
  show "keeps (\<lambda>s. trie_law (lb_trie L) \<longrightarrow> role_val L r s = v) (sput L k x)"
    using k by (rule role_val_sput)
  show "keeps (\<lambda>s. trie_law (lb_trie L) \<longrightarrow> role_val L r s = v) (tds_put L k x)"
    using k by (rule role_val_tds_put)
qed (simp_all add: role_val_role)

text \<open>
  Validation, outside \<open>ApplyBlock\<close>: everything but the validation caches and the tree.
\<close>

definition applied :: "StateMgr \<Rightarrow> StateMgr" where
  "applied s = s\<lparr>smt := \<lparr>blkRoot = [], curRoot = []\<rparr>, validateVersion := 0, validateHeight := 0,
     validateSlot := 0, validateRoot := [], validateOInfo := (\<lambda>_. None), validateSInfo := (\<lambda>_. None),
     validateRInfo := (\<lambda>_. None), validateCeInfo := \<lparr>cei_epoch = 0, cei_current = zero_ChalEpoch,
     cei_previous = zero_ChalEpoch\<rparr>\<rparr>"

lemma applied_updates [simp]:
  "applied (s\<lparr>smt := x1\<rparr>) = applied s" "applied (s\<lparr>validateVersion := x2\<rparr>) = applied s"
  "applied (s\<lparr>validateHeight := x3\<rparr>) = applied s" "applied (s\<lparr>validateSlot := x4\<rparr>) = applied s"
  "applied (s\<lparr>validateRoot := x5\<rparr>) = applied s" "applied (s\<lparr>validateOInfo := x6\<rparr>) = applied s"
  "applied (s\<lparr>validateSInfo := x7\<rparr>) = applied s" "applied (s\<lparr>validateRInfo := x8\<rparr>) = applied s"
  "applied (s\<lparr>validateCeInfo := x9\<rparr>) = applied s"
  by (simp_all add: applied_def)

lemma applied_fields:
  assumes "applied t = applied s"
  shows "ds t = ds s" "tds t = tds s" "genesisBlockID t = genesisBlockID s" "keepers t = keepers s"
    "pros t = pros s" "users t = users s" "threshold t = threshold s" "blkID t = blkID s"
    "version t = version s" "height t = height s" "slot t = slot s" "ceInfo t = ceInfo s"
    "root t = root s" "oInfo t = oInfo s" "sInfo t = sInfo s" "rInfo t = rInfo s"
  using assms by (cases s; cases t; simp add: applied_def)+

lemma applied_sput: "keeps (\<lambda>s. applied s = c \<and> tds s = None) (sput L k v)"
  by (rule keepsI) (auto simp: sput_def tds_put_def lift_smt_def split: prod.splits)

interpretation validation: validate_frame L "\<lambda>s. applied s = c \<and> tds s = None" for L c
  by unfold_locales (simp_all add: applied_sput)

end
