(* ===== verification/StateChain.thy ===== *)
theory StateChain
  imports StateFrame Instances
begin

text \<open>
  Blocks: what \<open>ApplyBlock\<close> checks and changes, that a failed block leaves the committed
  chain alone, quorums of signers, message nonces, restarts, and the isolation of
  validation.
\<close>

section \<open>Messages\<close>

lemma core_newRoot: "keeps (\<lambda>s. core s = c) (newRoot L b)"
  unfolding newRoot_def by (intro keeps_rules core_sput core_tds_put) simp

lemma core_saveVal: "keeps (\<lambda>s. core s = c) (saveVal L r rv)"
  unfolding saveVal_def Serialize_def by (intro keeps_rules core_sput)

lemma core_applyMsg: "keeps (\<lambda>s. core s = c) (applyMsg L msg tr)"
  unfolding applyMsg_def
  by (intro keeps_rules core_frame.lookupRole_frame core_saveVal core_newRoot
      core_frame.applyMethod_frame) simp

lemma core_applyMsgs: "keeps (\<lambda>s. core s = c) (applyMsgs L ms rs)"
proof (induction L ms rs rule: applyMsgs.induct)
  case (3 L m ms r rs)
  then show ?case
    unfolding applyMsgs.simps by (intro keeps_rules core_applyMsg)
qed (simp_all only: applyMsgs.simps keeps_ret keeps_fail)

section \<open>The guards of a block\<close>

lemma checkHeader_Inr:
  "checkHeader L blk s = (Inr u, t) \<longleftrightarrow>
     t = s \<and> rh_Height (blk_header blk) = height s \<and> slot s < rh_Slot (blk_header blk) \<and>
     rh_PrevID (blk_header blk) = blkID s \<and> mset_ParentRoot (blk_msgset blk) = root s"
  by (auto simp: checkHeader_def go_simps not_le split: if_splits)

lemma checkSigners_Inr:
  "checkSigners blk s = (Inr u, t) \<longleftrightarrow>
     t = s \<and> getThreshold s \<le> int (length (ms_Signer (sb_MultiSignature blk))) \<and>
     getThreshold s \<le> int (length (validSigners (keepers s) (ms_Signer (sb_MultiSignature blk))))"
  by (auto simp: checkSigners_def go_simps MultiSignature_Len_def)

lemma checkBlockZero_Inr:
  "checkBlockZero L blk s = (Inr u, t) \<longleftrightarrow> t = s \<and>
     (\<forall>m \<in> set (mset_Msgs (blk_msgset blk)). msg_Method (sm_Message m) = AddRole \<and>
       (\<exists>pri. decode (lb_cRoleInfo L) zero_RoleInfo (msg_Params (sm_Message m)) = Some pri \<and>
              ri_Type pri = RoleInfo_Keeper))"
  unfolding checkBlockZero_def by (rule forM_check) (auto simp: go_simps)

lemma keeps_guards:
  "keeps P (checkSigners blk)" "keeps P (checkBlockZero L blk)"
  unfolding checkSigners_def checkBlockZero_def by (intro keeps_rules)+

lemma core_saveRoot: "keeps (\<lambda>s. core s = c) (saveRoot L)"
  unfolding saveRoot_def by (intro keeps_rules core_tds_put) simp

lemma core_applyPre: "keeps (\<lambda>s. core s = c) (applyPre L blk)"
  unfolding applyPre_def putBlockInfo_def Serialize_def Let_def
  by (intro keeps_rules keeps_guards core_tds_put core_newRoot core_applyMsgs core_saveRoot) simp

lemma commitTxn_Inr:
  "commitTxn L s = (Inr u, t) \<longleftrightarrow>
     (\<exists>tx. tds s = Some tx \<and> \<not> lb_commitFail L tx \<and> t = s\<lparr>ds := txn_commit tx\<rparr>)"
  by (auto simp: commitTxn_def go_simps)

lemma applyBody_Inr:
  "applyBody L blk s = (Inr u, t) \<longleftrightarrow>
     (\<exists>t1 tx. applyPre L blk s = (Inr (), t1) \<and> tds t1 = Some tx \<and> \<not> lb_commitFail L tx \<and>
        t = advance L blk (t1\<lparr>ds := txn_commit tx\<rparr>))"
  by (auto simp: applyBody_def go_simps commitTxn_Inr)

lemma advance_root [simp]: "root (advance L blk s) = root s"
  by (simp add: advance_def Let_def split: option.split)

lemma ApplyBlock_Inr:
  "ApplyBlock L (Some blk) s = (Inr r, t) \<longleftrightarrow>
     rh_Height (blk_header blk) = height s \<and> slot s < rh_Slot (blk_header blk) \<and>
     rh_PrevID (blk_header blk) = blkID s \<and> mset_ParentRoot (blk_msgset blk) = root s \<and>
     \<not> lb_newTxnFail L \<and>
     (\<exists>t1 tx. applyPre L blk (s\<lparr>tds := Some (txn_new (ds s))\<rparr>) = (Inr (), t1) \<and>
        tds t1 = Some tx \<and> \<not> lb_commitFail L tx \<and>
        t = advance L blk (t1\<lparr>ds := txn_commit tx\<rparr>)\<lparr>tds := None\<rparr> \<and> r = root t)"
  (is "?run \<longleftrightarrow> ?rhs")
proof -
  define s1 where "s1 = s\<lparr>tds := Some (txn_new (ds s))\<rparr>"
  have "?run \<longleftrightarrow> checkHeader L blk s = (Inr (), s) \<and> \<not> lb_newTxnFail L \<and>
      (\<exists>t'. applyBody L blk s1 = (Inr (), t') \<and> t = t'\<lparr>tds := None\<rparr> \<and> r = root t')"
    by (cases "applyBody L blk s1"; cases "fst (applyBody L blk s1)")
      (auto simp: ApplyBlock_def go_simps checkHeader_Inr s1_def)
  then show ?thesis
    by (auto simp: checkHeader_Inr applyBody_Inr s1_def)
qed

section \<open>What a successful block checks and changes\<close>

lemma advance_fields [simp]:
  "height (advance L blk s) = height s + 1" "slot (advance L blk s) = rh_Slot (blk_header blk)"
  "blkID (advance L blk s) = RawBlock_Hash L (sb_RawBlock blk)" "ds (advance L blk s) = ds s"
  "tds (advance L blk s) = tds s" "keepers (advance L blk s) = keepers s"
  "rInfo (advance L blk s) = rInfo s" "smt (advance L blk s) = smt s"
  by (simp_all add: advance_def Let_def split: option.split)

lemma saveRoot_low: "version s < LSMT L \<Longrightarrow> saveRoot L s = (Inr (), s)"
  by (simp add: saveRoot_def linorder_not_le [THEN iffD2])

lemma applyPre_root:
  assumes run: "applyPre L blk s = (Inr u, t)" and low: "version t < LSMT L"
  shows "root t = mset_Root (blk_msgset blk)"
proof -
  from run obtain s1 where ok: "\<not> (version s1 < LSMT L \<and> root s1 \<noteq> mset_Root (blk_msgset blk))"
    and save: "saveRoot L (s1\<lparr>smt := smtSetRoot (curRoot (smt s1)) (smt s1)\<rparr>) = (Inr u, t)"
    by (auto simp: applyPre_def Let_def go_simps)
  from core_fields(5) [OF keeps_run [OF core_saveRoot save refl]] have "version t = version s1"
    by simp
  with ok low save saveRoot_low [of _ L] show ?thesis
    by auto
qed

lemma applyPre_signers:
  "applyPre L blk s = (Inr u, t) \<Longrightarrow> 0 < rh_Height (blk_header blk) \<Longrightarrow> checkSigners blk s = (Inr (), s)"
  by (auto simp: applyPre_def Let_def go_simps checkSigners_Inr)

lemma ApplyBlock_core:
  assumes "ApplyBlock L (Some blk) s = (Inr r, t)"
  obtains t1 tx where "applyPre L blk (s\<lparr>tds := Some (txn_new (ds s))\<rparr>) = (Inr (), t1)"
    and "tds t1 = Some tx" and "core t1 = core s"
    and "t = advance L blk (t1\<lparr>ds := txn_commit tx\<rparr>)\<lparr>tds := None\<rparr>"
proof -
  from assms obtain t1 tx where pre: "applyPre L blk (s\<lparr>tds := Some (txn_new (ds s))\<rparr>) = (Inr (), t1)"
    and tx: "tds t1 = Some tx" and t: "t = advance L blk (t1\<lparr>ds := txn_commit tx\<rparr>)\<lparr>tds := None\<rparr>"
    by (auto simp: ApplyBlock_Inr)
  from keeps_run [OF core_applyPre pre] have "core t1 = core s"
    by simp
  from that [OF pre tx this t] show thesis .
qed

lemma ApplyBlock_effects:
  assumes "ApplyBlock L (Some blk) s = (Inr r, t)"
  shows "rh_Height (blk_header blk) = height s" and "height t = height s + 1"
    and "slot s < slot t" and "slot t = rh_Slot (blk_header blk)"
    and "rh_PrevID (blk_header blk) = blkID s" and "blkID t = RawBlock_Hash L (sb_RawBlock blk)"
    and "mset_ParentRoot (blk_msgset blk) = root s" and "r = root t"
    and "version s < LSMT L \<Longrightarrow> root t = mset_Root (blk_msgset blk)" and "tds t = None"
proof -
  from assms obtain t1 tx where pre: "applyPre L blk (s\<lparr>tds := Some (txn_new (ds s))\<rparr>) = (Inr (), t1)"
    and c: "core t1 = core s" and t: "t = advance L blk (t1\<lparr>ds := txn_commit tx\<rparr>)\<lparr>tds := None\<rparr>"
    by (rule ApplyBlock_core)
  from assms show "rh_Height (blk_header blk) = height s" "rh_PrevID (blk_header blk) = blkID s"
    "mset_ParentRoot (blk_msgset blk) = root s" "r = root t"
    by (auto simp: ApplyBlock_Inr)
  from assms t show "slot s < slot t"
    by (auto simp: ApplyBlock_Inr)
  from t core_fields [OF c] show "height t = height s + 1" "slot t = rh_Slot (blk_header blk)"
    "blkID t = RawBlock_Hash L (sb_RawBlock blk)" "tds t = None"
    by simp_all
  from applyPre_root [OF pre] t core_fields [OF c]
  show "version s < LSMT L \<Longrightarrow> root t = mset_Root (blk_msgset blk)"
    by simp
qed

section \<open>A failed block\<close>

lemma rewindHeight_shape:
  "rewindHeight L h s = (r, t) \<Longrightarrow> t = s \<or>
     0 < h \<and> LSMT L \<le> version s \<and>
     t = s\<lparr>ds := ds_put (ds s) (skey ST_BlockHeightKey []) (PutUint64 (if h > 1 then h - 2 else h - 1))\<rparr>"
  by (auto simp: rewindHeight_def Let_def seq_def bnd_def reject_def split: if_splits)

lemma checkHeader_Inl:
  assumes "checkHeader L blk s = (Inl e, t)"
  shows "t = s \<or> 0 < height s \<and> LSMT L \<le> version s \<and>
     (rh_PrevID (blk_header blk) \<noteq> blkID s \<or> mset_ParentRoot (blk_msgset blk) \<noteq> root s) \<and>
     t = s\<lparr>ds := ds_put (ds s) (skey ST_BlockHeightKey [])
            (PutUint64 (if height s > 1 then height s - 2 else height s - 1))\<rparr>"
proof (cases "rewindHeight L (height s) s")
  case (Pair r t')
  with assms rewindHeight_shape [OF Pair] show ?thesis
    by (cases r) (auto simp: checkHeader_def reject_def seq_def bnd_def split: if_splits)
qed

lemma applyBody_Inl: "applyBody L blk s = (Inl e, t) \<Longrightarrow> core t = core s"
proof -
  assume run: "applyBody L blk s = (Inl e, t)"
  obtain r t1 where pre: "applyPre L blk s = (r, t1)"
    by (cases "applyPre L blk s")
  from keeps_run [OF core_applyPre pre] have "core t1 = core s"
    by simp
  moreover from run pre have "t = t1"
    by (cases r; cases "tds t1")
      (auto simp: applyBody_def commitTxn_def seq_def bnd_def reject_def split: if_splits)
  ultimately show ?thesis
    by simp
qed

lemma ApplyBlock_Inl:
  assumes "ApplyBlock L (Some blk) s = (Inl e, t)"
  shows "checkHeader L blk s = (Inl e, t) \<or> t = s \<or> core t = core s"
proof (cases "checkHeader L blk s")
  case (Pair r t')
  show ?thesis
  proof (cases r)
    case (Inl e')
    with Pair assms show ?thesis
      by (simp add: ApplyBlock_def)
  next
    case (Inr u)
    with Pair have hdr: "checkHeader L blk s = (Inr (), s)"
      by (auto simp: checkHeader_Inr)
    obtain q t1 where body: "applyBody L blk (s\<lparr>tds := Some (txn_new (ds s))\<rparr>) = (q, t1)"
      by (cases "applyBody L blk (s\<lparr>tds := Some (txn_new (ds s))\<rparr>)")
    with hdr have run: "ApplyBlock L (Some blk) s = (if lb_newTxnFail L
        then (Inl (Err ''create new txn fail''), s) else (map_sum id (\<lambda>_. root t1) q, t1\<lparr>tds := None\<rparr>))"
      by (simp add: ApplyBlock_def)
    show ?thesis
    proof (cases q)
      case (Inl e1)
      with applyBody_Inl [of L blk "s\<lparr>tds := Some (txn_new (ds s))\<rparr>" e1 t1] body have "core t1 = core s"
        by simp
      with run assms show ?thesis
        by (auto split: if_splits)
    qed (use run assms in \<open>auto split: if_splits\<close>)
  qed
qed

lemma ApplyBlock_failure:
  assumes "ApplyBlock L (Some blk) s = (Inl e, t)"
  shows "height t = height s" and "slot t = slot s" and "blkID t = blkID s"
    and "version t = version s"
    and "ds t = ds s \<or> LSMT L \<le> version s \<and> 0 < height s \<and>
      (rh_PrevID (blk_header blk) \<noteq> blkID s \<or> mset_ParentRoot (blk_msgset blk) \<noteq> root s) \<and>
      ds t = ds_put (ds s) (skey ST_BlockHeightKey [])
        (PutUint64 (if height s > 1 then height s - 2 else height s - 1))"
  using ApplyBlock_Inl [OF assms] checkHeader_Inl [of L blk s e t] core_fields [of t s]
  by auto

section \<open>Quorums\<close>

lemma set_validSigners [simp]: "set (validSigners ks sg) = set ks \<inter> set sg"
  by (auto simp: validSigners_def)

lemma length_validSigners: "length (validSigners ks sg) = card (set ks \<inter> set sg)"
proof -
  have "distinct (validSigners ks sg)"
    by (simp add: validSigners_def)
  from distinct_card [OF this] show ?thesis
    by simp
qed

lemma getThreshold_tds [simp]: "getThreshold (s\<lparr>tds := x\<rparr>) = getThreshold s"
  by (simp add: getThreshold_def Let_def)

lemma getThreshold_bound: "2 * int (length (keepers s)) \<le> 3 * getThreshold s"
  by (simp add: getThreshold_def Let_def) linarith

lemma block_signers:
  assumes "ApplyBlock L (Some blk) s = (Inr r, t)" and "0 < height s"
  shows "getThreshold s \<le> int (card (set (keepers s) \<inter> set (ms_Signer (sb_MultiSignature blk))))"
proof -
  from assms obtain t1 where "applyPre L blk (s\<lparr>tds := Some (txn_new (ds s))\<rparr>) = (Inr (), t1)"
    and "0 < rh_Height (blk_header blk)"
    by (auto simp: ApplyBlock_Inr)
  from applyPre_signers [OF this] show ?thesis
    by (simp add: checkSigners_Inr length_validSigners)
qed

lemma ApplyBlock_quorum:
  assumes "ApplyBlock L (Some b1) s = (Inr r1, t1)" and "ApplyBlock L (Some b2) s = (Inr r2, t2)"
    and "0 < height s"
  shows "length (keepers s) \<le> 3 * card (set (keepers s) \<inter> set (ms_Signer (sb_MultiSignature b1))
           \<inter> set (ms_Signer (sb_MultiSignature b2)))"
proof -
  define A where "A = set (keepers s) \<inter> set (ms_Signer (sb_MultiSignature b1))"
  define B where "B = set (keepers s) \<inter> set (ms_Signer (sb_MultiSignature b2))"
  have "getThreshold s \<le> int (card A)" "getThreshold s \<le> int (card B)"
    using block_signers assms by (auto simp: A_def B_def)
  moreover have "card A + card B = card (A \<union> B) + card (A \<inter> B)"
    by (rule card_Un_Int) (simp_all add: A_def B_def)
  moreover have "card (A \<union> B) \<le> length (keepers s)"
    by (rule order_trans [OF card_mono card_length [of "keepers s"]]) (auto simp: A_def B_def)
  ultimately have "length (keepers s) \<le> 3 * card (A \<inter> B)"
    using getThreshold_bound [of s] by linarith
  moreover have "A \<inter> B = set (keepers s) \<inter> set (ms_Signer (sb_MultiSignature b1))
           \<inter> set (ms_Signer (sb_MultiSignature b2))"
    by (auto simp: A_def B_def)
  ultimately show ?thesis
    by simp
qed

section \<open>Message nonces\<close>

lemma StateGetNonce_role_val: "StateGetNonce L r s = rv_Nonce (role_val L r s)"
  by (simp add: StateGetNonce_def role_val_def split: option.split)

lemma role_val_newRoot: "keeps (\<lambda>s. trie_law (lb_trie L) \<longrightarrow> role_val L r s = v) (newRoot L b)"
  unfolding newRoot_def
  by (intro keeps_rules role_val_sput role_val_tds_put) (simp_all add: meta_defs)

lemma role_val_saveVal:
  "r' \<noteq> r \<Longrightarrow> keeps (\<lambda>s. trie_law (lb_trie L) \<longrightarrow> role_val L r s = v) (saveVal L r' rv)"
  unfolding saveVal_def Serialize_def by (intro keeps_rules role_val_sput) simp

lemma rInfo_saveVal: "keeps (\<lambda>s. rInfo s = m) (saveVal L r rv)"
  unfolding saveVal_def Serialize_def by (intro keeps_rules keeps_sput_stable) simp

lemma lookupRole_val: "lookupRole L r s = (Inr ri, t) \<Longrightarrow> rl_val ri = role_val L r s"
  by (auto simp: lookupRole_def loadRole_def role_val_def Let_def split: option.splits)

lemma applyMsg_tail:
  "keeps (\<lambda>s. trie_law (lb_trie L) \<longrightarrow> role_val L r s = v)
     (bnd (gets version) (\<lambda>ver.
        seq (if ver < LSMT L then newRoot L (msg_Params msg) else ret ())
            (if rcpt_Err tr \<noteq> 0 then ret () else applyMethod L msg)))"
  by (intro keeps_rules role_val_newRoot nonce_frame.applyMethod_frame)

lemma applyMsg_role_val:
  assumes law: "trie_law (lb_trie L)" and run: "applyMsg L msg tr s = (Inr u, t)"
  shows "msg_Nonce msg = rv_Nonce (role_val L (msg_From msg) s) \<and>
    role_val L r t = (if r = msg_From msg
      then (role_val L r s)\<lparr>rv_Nonce := msg_Nonce msg + 1\<rparr> else role_val L r s)"
proof -
  let ?f = "msg_From msg"
  from run obtain ri s1 s2 where look: "lookupRole L ?f s = (Inr ri, s1)"
    and nonce: "msg_Nonce msg = rv_Nonce (rl_val ri)"
    and save: "saveVal L ?f ((rl_val ri)\<lparr>rv_Nonce := rv_Nonce (rl_val ri) + 1\<rparr>)
       (s1\<lparr>rInfo := (rInfo s1)(?f \<mapsto> ri\<lparr>rl_val := (rl_val ri)\<lparr>rv_Nonce := rv_Nonce (rl_val ri) + 1\<rparr>\<rparr>)\<rparr>)
       = (Inr (), s2)"
    and tail: "bnd (gets version) (\<lambda>ver.
        seq (if ver < LSMT L then newRoot L (msg_Params msg) else ret ())
            (if rcpt_Err tr \<noteq> 0 then ret () else applyMethod L msg)) s2 = (Inr u, t)"
    by (auto simp: applyMsg_def Let_def go_simps)
  have ri: "rl_val ri = role_val L ?f s"
    using look by (rule lookupRole_val)
  have s1: "role_val L r s1 = role_val L r s" for r
    using keeps_run [OF nonce_frame.lookupRole_frame look] law by simp
  have "role_val L r s2 = (if r = ?f then (role_val L r s)\<lparr>rv_Nonce := msg_Nonce msg + 1\<rparr> else role_val L r s)"
  proof (cases "r = ?f")
    case True
    with keeps_run [OF rInfo_saveVal save refl] ri nonce show ?thesis
      by (simp add: role_val_def)
  next
    case False
    have "role_val L r (s1\<lparr>rInfo := (rInfo s1)(?f \<mapsto> x)\<rparr>) = role_val L r s1" for x
      using False by (simp add: role_val_def loadVal_def split: option.split)
    with False keeps_run [OF role_val_saveVal [of ?f r L "role_val L r s"] save] law s1
    show ?thesis
      by simp
  qed
  with keeps_run [OF applyMsg_tail tail] law nonce ri show ?thesis
    by auto
qed

lemma applyMsgs_nonces:
  assumes "trie_law (lb_trie L)" and "applyMsgs L ms rs s = (Inr u, t)"
  shows "map msg_Nonce (filter (\<lambda>m. msg_From m = r) (map sm_Message ms)) =
      map (\<lambda>i. StateGetNonce L r s + of_nat i) [0..<length (filter (\<lambda>m. msg_From m = r) (map sm_Message ms))]
    \<and> StateGetNonce L r t =
      StateGetNonce L r s + of_nat (length (filter (\<lambda>m. msg_From m = r) (map sm_Message ms)))"
  using assms
proof (induction L ms rs arbitrary: s rule: applyMsgs.induct)
  case (1 L rs)
  then show ?case by simp
next
  case (2 L m ms)
  then show ?case by simp
next
  case (3 L m ms x rs)
  from 3(3) obtain v s1 where m: "applyMsg L (sm_Message m) x s = (Inr v, s1)"
    and rest: "applyMsgs L ms rs s1 = (Inr u, t)"
    by (auto simp: go_simps)
  from applyMsg_role_val [OF 3(2) m, of r]
  have "msg_From (sm_Message m) = r \<Longrightarrow> msg_Nonce (sm_Message m) = StateGetNonce L r s"
    and "StateGetNonce L r s1 = StateGetNonce L r s + (if msg_From (sm_Message m) = r then 1 else 0)"
    by (auto simp: StateGetNonce_role_val)
  with 3(1) [OF 3(2) rest] show ?case
    by (auto simp: map_upt_Suc add_ac simp del: upt_Suc)
qed

section \<open>Restarts\<close>

text \<open>
  What \<open>mh.Sum\<close> and \<open>mh.Decode\<close> document for the hash function of \<open>lib/types/msg.go\<close>: a
  22-byte multihash that carries the code \<open>FromBytes\<close> asks for.
\<close>

definition mh_law :: "lib \<Rightarrow> bool" where
  "mh_law L \<longleftrightarrow> (\<forall>b r. lb_mhSum L b = Some r \<longrightarrow> length r = MsgLen \<and> lb_mhDecode L r = Some 76)"

abbreviation height_frame :: "kvs \<Rightarrow> kvs \<Rightarrow> StateMgr \<Rightarrow> bool" where
  "height_frame d w \<equiv> txn_frame d (\<lambda>k. chain_key k \<and> (\<exists>ns. k = skey ST_BlockHeightKey ns)) w"

lemma height_frame_newRoot: "keeps (height_frame d w) (newRoot L b)"
  unfolding newRoot_def
  by (intro keeps_rules txn_frame_sput txn_frame_tds_put) (auto simp: meta_defs)

lemma height_frame_saveRoot: "keeps (height_frame d w) (saveRoot L)"
  unfolding saveRoot_def by (intro keeps_rules txn_frame_tds_put) (auto simp: meta_defs)

lemma height_frame_saveVal: "keeps (height_frame d w) (saveVal L r rv)"
  unfolding saveVal_def Serialize_def
  by (intro keeps_rules txn_frame_sput) (auto simp: meta_defs)

lemma height_frame_applyMsg: "keeps (height_frame d w) (applyMsg L msg tr)"
  unfolding applyMsg_def
  by (intro keeps_rules chain_frame.lookupRole_frame height_frame_saveVal height_frame_newRoot
      chain_frame.applyMethod_frame) simp

lemma height_frame_applyMsgs: "keeps (height_frame d w) (applyMsgs L ms rs)"
proof (induction L ms rs rule: applyMsgs.induct)
  case (3 L m ms r rs)
  then show ?case
    unfolding applyMsgs.simps by (intro keeps_rules height_frame_applyMsg)
qed (simp_all only: applyMsgs.simps keeps_ret keeps_fail)

text \<open>The two records of the block are in the transaction when it is committed.\<close>

lemma applyPre_records:
  assumes run: "applyPre L blk s = (Inr u, t)"
  shows "\<exists>tx. tds t = Some tx \<and>
    txn_get tx (skey ST_BlockHeightKey []) = Some (PutUint64 (rh_Height (blk_header blk))) \<and>
    txn_get tx (skey ST_BlockHeightKey [unat (rh_Height (blk_header blk))]) =
      Some (copy_into MsgLen (RawBlock_Hash L (sb_RawBlock blk)) @ PutUint64 (rh_Slot (blk_header blk)))"
proof -
  from run obtain s1 s2 s3 s4 b where put: "putBlockInfo L blk s1 = (Inr (), s2)"
    and root: "newRoot L b s2 = (Inr (), s3)"
    and msgs: "applyMsgs L (mset_Msgs (blk_msgset blk)) (mset_Receipts (blk_msgset blk)) s3 = (Inr (), s4)"
    and save: "saveRoot L (s4\<lparr>smt := smtSetRoot (curRoot (smt s4)) (smt s4)\<rparr>) = (Inr (), t)"
    by (auto simp: applyPre_def Let_def go_simps)
  from put obtain tx where tx: "tds s2 = Some tx"
    and get: "txn_get tx (skey ST_BlockHeightKey []) = Some (PutUint64 (rh_Height (blk_header blk)))"
      "txn_get tx (skey ST_BlockHeightKey [unat (rh_Height (blk_header blk))]) =
      Some (copy_into MsgLen (RawBlock_Hash L (sb_RawBlock blk)) @ PutUint64 (rh_Slot (blk_header blk)))"
    by (auto simp: putBlockInfo_def tds_put_def Let_def go_simps)
  have "height_frame (txn_base tx) (txn_get tx) s2"
    using tx by (simp add: txn_frame_def)
  then have "height_frame (txn_base tx) (txn_get tx) s4"
    using keeps_run [OF height_frame_newRoot root] keeps_run [OF height_frame_applyMsgs msgs] by blast
  then have "height_frame (txn_base tx) (txn_get tx) t"
    using keeps_run [OF height_frame_saveRoot save] by simp
  with get show ?thesis
    by (auto simp: txn_frame_def)
qed

lemma load_tail_fields [simp]:
  "height (load_root L s) = height s" "slot (load_root L s) = slot s" "blkID (load_root L s) = blkID s"
  "height (load_roles L s) = height s" "slot (load_roles L s) = slot s" "blkID (load_roles L s) = blkID s"
  "height (load_epoch L s) = height s" "slot (load_epoch L s) = slot s" "blkID (load_epoch L s) = blkID s"
proof -
  have "height (set_root L v s) = height s \<and> slot (set_root L v s) = slot s \<and> blkID (set_root L v s) = blkID s"
    for v s
    by (simp add: set_root_def split: option.split)
  then show "height (load_root L s) = height s" "slot (load_root L s) = slot s" "blkID (load_root L s) = blkID s"
    by (simp_all add: load_root_def Let_def)
qed (simp_all add: load_roles_def load_epoch_def Let_def)

lemma load_height_block:
  assumes "ds s (skey ST_BlockHeightKey []) = Some (PutUint64 h)" and "h + 1 \<noteq> 0"
    and "ds s (skey ST_BlockHeightKey [unat h]) = Some (copy_into MsgLen bid @ PutUint64 sl)"
    and "lb_mhDecode L bid = Some 76" and "length bid = MsgLen"
  shows "height (load L s) = h + 1" "slot (load L s) = sl" "blkID (load L s) = bid"
proof -
  have h: "height (load_height L s) = h + 1" "ds (load_height L s) = ds s"
    using assms(1) by (simp_all add: load_height_def Let_def)
  have "0 < h + 1"
    using assms(2) by (simp add: word_neq_0_conv)
  then have b: "height (load_block L (load_height L s)) = h + 1 \<and>
      slot (load_block L (load_height L s)) = sl \<and> blkID (load_block L (load_height L s)) = bid"
    using h assms(3-5) by (simp add: load_block_def FromBytes_def copy_into_id Let_def)
  from b show "height (load L s) = h + 1" "slot (load L s) = sl" "blkID (load L s) = bid"
    by (simp_all add: load_def)
qed

section \<open>Blocks that are accepted\<close>

text \<open>Conditions under which \<open>ApplyBlock\<close> accepts a block, before the tree is in use.\<close>

lemma tds_put_ok:
  "tds s = Some t \<Longrightarrow> \<not> lb_putFail L k v \<Longrightarrow> tds_put L k v s = (Inr (), s\<lparr>tds := Some (txn_put t k v)\<rparr>)"
  by (simp add: tds_put_def)

text \<open>The state in which the messages of a block start, before the tree is in use.\<close>

definition block_start :: "lib \<Rightarrow> SignedBlock \<Rightarrow> bytes \<Rightarrow> StateMgr \<Rightarrow> StateMgr" where
  "block_start L blk b s =
     (let h = rh_Height (blk_header blk); r = MsgIDOf L (lb_blake3 L (root s @ b)) in
      s\<lparr>root := r, tds := Some (txn_put (txn_put (txn_put (txn_new (ds s))
        (skey ST_BlockHeightKey []) (PutUint64 h))
        (skey ST_BlockHeightKey [unat h])
          (copy_into MsgLen (RawBlock_Hash L (sb_RawBlock blk)) @ PutUint64 (rh_Slot (blk_header blk))))
        (skey ST_RootKey []) r)\<rparr>)"

lemma ApplyBlock_accepts:
  assumes "rh_Height (blk_header blk) = height s" "slot s < rh_Slot (blk_header blk)"
    "rh_PrevID (blk_header blk) = blkID s" "mset_ParentRoot (blk_msgset blk) = root s"
    and db: "\<not> lb_newTxnFail L" "\<And>k v. \<not> lb_putFail L k v" "\<And>t. \<not> lb_commitFail L t"
    and hdr: "marshal (lb_cRawHeader L) (blk_header blk) = Some b"
    and sgn: "if 0 < height s then checkSigners blk s = (Inr (), s) else checkBlockZero L blk s = (Inr (), s)"
    and msgs: "applyMsgs L (mset_Msgs (blk_msgset blk)) (mset_Receipts (blk_msgset blk))
      (block_start L blk b s) = (Inr (), s4)"
    and ver: "version s < LSMT L" and root: "root s4 = mset_Root (blk_msgset blk)"
  shows "\<exists>t. ApplyBlock L (Some blk) s = (Inr (root t), t)"
proof -
  define s1 where "s1 = s\<lparr>tds := Some (txn_new (ds s))\<rparr>"
  have guard: "(if rh_Height (blk_header blk) > 0 then checkSigners blk else checkBlockZero L blk) s1 = (Inr (), s1)"
    using sgn assms(1) by (auto simp: checkSigners_Inr checkBlockZero_Inr s1_def split: if_splits)
  have "version s4 = version s"
    using core_fields(5) [OF keeps_run [OF core_applyMsgs msgs refl]]
    by (simp add: block_start_def Let_def)
  moreover obtain tx where "tds (block_start L blk b s) = Some tx"
    by (simp add: block_start_def Let_def)
  then have "height_frame (txn_base tx) (txn_get tx) s4"
    using keeps_run [OF height_frame_applyMsgs msgs] by (simp add: txn_frame_def)
  then obtain tx4 where "tds s4 = Some tx4"
    by (auto simp: txn_frame_def)
  ultimately have "\<exists>t1 tx. applyPre L blk s1 = (Inr (), t1) \<and> tds t1 = Some tx"
    using guard db hdr msgs ver root
    by (simp add: applyPre_def Let_def Serialize_def putBlockInfo_def tds_put_ok s1_def newRoot_def
        saveRoot_low block_start_def)
  with assms(1-4) db show ?thesis
    unfolding ApplyBlock_Inr s1_def by blast
qed

section \<open>Nonces over a block\<close>

definition msgs_of :: "u64 \<Rightarrow> SignedBlock \<Rightarrow> Message list" where
  "msgs_of r blk = filter (\<lambda>m. msg_From m = r) (map sm_Message (mset_Msgs (blk_msgset blk)))"

lemma StateGetNonce_cong:
  "role_val L r t = role_val L r s \<Longrightarrow> StateGetNonce L r t = StateGetNonce L r s"
  by (simp add: StateGetNonce_role_val)

lemma role_val_setRoot:
  "role_val L r (s\<lparr>smt := smtSetRoot (curRoot (smt s)) (smt s)\<rparr>) = role_val L r s"
  by (rule role_val_cong) (simp_all add: sget_def smtSetRoot_def smtGet_def split: option.split)

lemma role_val_saveRoot: "keeps (\<lambda>s. trie_law (lb_trie L) \<longrightarrow> role_val L r s = v) (saveRoot L)"
  unfolding saveRoot_def by (intro keeps_rules role_val_tds_put) (simp_all add: meta_defs)

lemma role_val_open:
  "tds s = None \<Longrightarrow> role_val L r (s\<lparr>tds := Some (txn_new (ds s))\<rparr>) = role_val L r s"
  by (rule role_val_cong) (simp_all add: sget_def base_get_def split: option.split)

lemma role_val_close:
  "tds s = Some tx \<Longrightarrow>
     role_val L r (advance L blk (s\<lparr>ds := txn_commit tx\<rparr>)\<lparr>tds := None\<rparr>) = role_val L r s"
  by (rule role_val_cong) (simp_all add: sget_def base_get_def split: option.split)

lemma applyPre_nonces:
  assumes law: "trie_law (lb_trie L)" and run: "applyPre L blk s = (Inr u, t)"
  shows "map msg_Nonce (msgs_of r blk) = map (\<lambda>i. StateGetNonce L r s + of_nat i) [0..<length (msgs_of r blk)]
    \<and> StateGetNonce L r t = StateGetNonce L r s + of_nat (length (msgs_of r blk))"
proof -
  from run obtain s1 s2 s3 s4 b where "s1 = s" and put: "putBlockInfo L blk s1 = (Inr (), s2)"
    and root: "newRoot L b s2 = (Inr (), s3)"
    and msgs: "applyMsgs L (mset_Msgs (blk_msgset blk)) (mset_Receipts (blk_msgset blk)) s3 = (Inr (), s4)"
    and save: "saveRoot L (s4\<lparr>smt := smtSetRoot (curRoot (smt s4)) (smt s4)\<rparr>) = (Inr (), t)"
    using keeps_guards(1) [of "\<lambda>x. x = s"] keeps_guards(2) [of "\<lambda>x. x = s"]
    by (fastforce simp: applyPre_def Let_def Serialize_def go_simps dest: keeps_run split: if_splits)
  have "keeps (\<lambda>x. trie_law (lb_trie L) \<longrightarrow> role_val L r x = v) (putBlockInfo L blk)" for v
    unfolding putBlockInfo_def Let_def
    by (intro keeps_rules role_val_tds_put) (simp_all add: meta_defs)
  from keeps_run [OF this put] have "role_val L r s2 = role_val L r s"
    using law \<open>s1 = s\<close> by simp
  moreover from keeps_run [OF role_val_newRoot root] have "role_val L r s3 = role_val L r s2"
    using law by simp
  moreover from keeps_run [OF role_val_saveRoot save] have "role_val L r t = role_val L r s4"
    using law role_val_setRoot by simp
  ultimately have "StateGetNonce L r s3 = StateGetNonce L r s" "StateGetNonce L r t = StateGetNonce L r s4"
    by (auto intro: StateGetNonce_cong)
  with applyMsgs_nonces [OF law msgs, of r] show ?thesis
    by (simp add: msgs_of_def)
qed

lemma ApplyBlock_nonces:
  assumes law: "trie_law (lb_trie L)" and run: "ApplyBlock L (Some blk) s = (Inr x, t)"
    and closed: "tds s = None"
  shows "map msg_Nonce (msgs_of r blk) = map (\<lambda>i. StateGetNonce L r s + of_nat i) [0..<length (msgs_of r blk)]
    \<and> StateGetNonce L r t = StateGetNonce L r s + of_nat (length (msgs_of r blk))"
proof -
  from run obtain t1 tx where pre: "applyPre L blk (s\<lparr>tds := Some (txn_new (ds s))\<rparr>) = (Inr (), t1)"
    and tx: "tds t1 = Some tx" and t: "t = advance L blk (t1\<lparr>ds := txn_commit tx\<rparr>)\<lparr>tds := None\<rparr>"
    by (rule ApplyBlock_core)
  have "StateGetNonce L r (s\<lparr>tds := Some (txn_new (ds s))\<rparr>) = StateGetNonce L r s"
    using role_val_open [OF closed] by (rule StateGetNonce_cong)
  moreover have "StateGetNonce L r t = StateGetNonce L r t1"
    unfolding t using role_val_close [OF tx] by (rule StateGetNonce_cong)
  ultimately show ?thesis
    using applyPre_nonces [OF law pre, of r] by simp
qed

section \<open>An example chain\<close>

text \<open>
  A manager at height one with three keepers, a block with one message that failed when it
  was proposed (its receipt carries an error), and a library whose encoders know them.
\<close>

definition ex_state :: StateMgr where
  "ex_state = (initStateMgr lib0 [] 1 1 (\<lambda>_. None))\<lparr>height := 1, slot := 1, keepers := [1, 2, 3]\<rparr>"

definition ex_header :: RawHeader where
  "ex_header = \<lparr>rh_Version = 0, rh_GroupID = 1, rh_Height = 1, rh_Slot = 5, rh_MinerID = 1,
     rh_PrevID = blkID ex_state\<rparr>"

definition ex_msg :: Message where
  "ex_msg = \<lparr>msg_Version = 0, msg_From = 7, msg_To = 0, msg_Nonce = 0, msg_Value = None,
     msg_GasLimit = 0, msg_GasPrice = None, msg_Method = UpdateNet, msg_Params = [9]\<rparr>"

definition ex_block :: SignedBlock where
  "ex_block = \<lparr>sb_RawBlock = \<lparr>rb_RawHeader = ex_header,
     rb_MsgSet = \<lparr>mset_Msgs = [\<lparr>sm_Message = ex_msg, sm_Signature = zero_Signature\<rparr>],
       mset_Receipts = [\<lparr>rcpt_Err = 1, rcpt_Extra = []\<rparr>], mset_ParentRoot = root ex_state,
       mset_Root = MsgIDOf lib0 (MsgIDOf lib0 (root ex_state @ [0]) @ [9])\<rparr>\<rparr>,
     sb_MultiSignature = \<lparr>ms_Type = SigBLS, ms_Signer = [1, 2, 3], ms_Data = []\<rparr>\<rparr>"

definition ex_lib :: lib where
  "ex_lib = lib0\<lparr>lb_cRawHeader := tab_codec [ex_header], lb_cRawBlock := tab_codec [sb_RawBlock ex_block],
     lb_cRoleValue := tab_codec [\<lparr>rv_Nonce = 1, rv_Value = Some 0\<rparr>]\<rparr>"

lemma ex_lib_fields [simp]:
  "lb_trie ex_lib = list_trie" "lb_build ex_lib = build_init" "lb_putFail ex_lib = (\<lambda>_ _. False)"
  "lb_newTxnFail ex_lib = False" "lb_commitFail ex_lib = (\<lambda>_. False)" "lb_blake3 ex_lib = (\<lambda>b. b)"
  "lb_mhSum ex_lib = lb_mhSum lib0" "lb_mhDecode ex_lib = lb_mhDecode lib0"
  "marshal (lb_cRawHeader ex_lib) ex_header = Some [0]"
  "marshal (lb_cRawBlock ex_lib) (sb_RawBlock ex_block) = Some [0]"
  "marshal (lb_cRoleValue ex_lib) \<lparr>rv_Nonce = 1, rv_Value = Some 0\<rparr> = Some [0]"
  by (simp_all add: ex_lib_def lib0_def tab_codec_def)

lemma ex_state_fields [simp]:
  "height ex_state = 1" "slot ex_state = 1" "keepers ex_state = [1, 2, 3]" "tds ex_state = None"
  "version ex_state = 0" "threshold ex_state = 1" "rInfo ex_state = (\<lambda>_. None)" "ds ex_state = (\<lambda>_. None)"
  "smt ex_state = \<lparr>blkRoot = [], curRoot = []\<rparr>"
  by (simp_all add: ex_state_def initStateMgr_def Let_def NewSMTree_def lib0_def list_trie_def)

lemma ex_low [simp]: "0 < SMTVersion build_init"
  by (simp add: build_init_def word_neq_0_conv [symmetric])

lemma ex_header_fields [simp]:
  "rh_Height ex_header = 1" "rh_Slot ex_header = 5" "rh_PrevID ex_header = blkID ex_state"
  by (simp_all add: ex_header_def)

lemma ex_block_fields [simp]:
  "blk_header ex_block = ex_header"
  "mset_Msgs (blk_msgset ex_block) = [\<lparr>sm_Message = ex_msg, sm_Signature = zero_Signature\<rparr>]"
  "mset_Receipts (blk_msgset ex_block) = [\<lparr>rcpt_Err = 1, rcpt_Extra = []\<rparr>]"
  "mset_ParentRoot (blk_msgset ex_block) = root ex_state"
  "mset_Root (blk_msgset ex_block) = MsgIDOf lib0 (MsgIDOf lib0 (root ex_state @ [0]) @ [9])"
  "ms_Signer (sb_MultiSignature ex_block) = [1, 2, 3]"
  by (simp_all add: ex_block_def)

lemma ex_msgs:
  "\<exists>s4. applyMsgs ex_lib (mset_Msgs (blk_msgset ex_block)) (mset_Receipts (blk_msgset ex_block))
     (block_start ex_lib ex_block [0] ex_state) = (Inr (), s4) \<and>
     root s4 = mset_Root (blk_msgset ex_block)"
  by (simp add: block_start_def Let_def applyMsg_def lookupRole_def loadRole_def loadVal_def sget_def
      base_get_def smtGet_def list_trie_def meta_defs ex_msg_def zero_roleValue_def saveVal_def
      Serialize_def sput_def tds_put_ok newRoot_def)

lemma ex_run: "\<exists>t. ApplyBlock ex_lib (Some ex_block) ex_state = (Inr (root t), t)"
proof -
  obtain s4 where "applyMsgs ex_lib (mset_Msgs (blk_msgset ex_block)) (mset_Receipts (blk_msgset ex_block))
     (block_start ex_lib ex_block [0] ex_state) = (Inr (), s4)" "root s4 = mset_Root (blk_msgset ex_block)"
    using ex_msgs by blast
  then show ?thesis
    by (intro ApplyBlock_accepts [of ex_block ex_state ex_lib "[0]" s4])
      (simp_all add: checkSigners_Inr getThreshold_def validSigners_def)
qed

section \<open>Properties\<close>




definition ex_stale :: StateMgr where
  "ex_stale = ex_state\<lparr>slot := 9\<rparr>"


text \<open>
  C3: quorum intersection: if two blocks are both acceptable in the same state after block
  zero, at least a third of the keepers signed both.
\<close>

theorem block_quorum:
  assumes "ApplyBlock L (Some b1) s = (Inr r1, t1)" and "ApplyBlock L (Some b2) s = (Inr r2, t2)"
    and "0 < height s"
  shows "length (keepers s) \<le> 3 * card (set (keepers s) \<inter> set (ms_Signer (sb_MultiSignature b1))
           \<inter> set (ms_Signer (sb_MultiSignature b2)))"
  using assms by (rule ApplyBlock_quorum)

theorem block_quorum_witness:
  "length (keepers ex_state) \<le> 3 * card (set (keepers ex_state) \<inter> set (ms_Signer (sb_MultiSignature ex_block))
           \<inter> set (ms_Signer (sb_MultiSignature ex_block)))"
proof -
  obtain t where run: "ApplyBlock ex_lib (Some ex_block) ex_state = (Inr (root t), t)"
    using ex_run by blast
  show ?thesis
    by (rule block_quorum [OF run run]) simp
qed

text \<open>
  C4: replay protection: in an accepted block the messages of each role carry consecutive
  nonces, starting at the role's nonce, and the role's nonce advances by their number.
\<close>

theorem block_nonces:
  assumes "trie_law (lb_trie L)" and "ApplyBlock L (Some blk) s = (Inr x, t)" and "tds s = None"
  shows "map msg_Nonce (msgs_of r blk) = map (\<lambda>i. StateGetNonce L r s + of_nat i) [0..<length (msgs_of r blk)]
    \<and> StateGetNonce L r t = StateGetNonce L r s + of_nat (length (msgs_of r blk))"
  using assms by (rule ApplyBlock_nonces)

theorem block_nonces_witness:
  "\<exists>t. ApplyBlock ex_lib (Some ex_block) ex_state = (Inr (root t), t) \<and> StateGetNonce ex_lib 7 t = 1"
proof -
  obtain t where run: "ApplyBlock ex_lib (Some ex_block) ex_state = (Inr (root t), t)"
    using ex_run by blast
  have law: "trie_law (lb_trie ex_lib)"
    by simp
  have "StateGetNonce ex_lib 7 ex_state = 0"
    by (simp add: StateGetNonce_def loadVal_def sget_def base_get_def smtGet_def list_trie_def zero_roleValue_def)
  with block_nonces [OF law run, of 7] run show ?thesis
    by (auto simp: msgs_of_def ex_msg_def)
qed

text \<open>
  C5: a restart after an accepted block finds the chain where it was: the manager built anew
  on the committed database has the same height, slot and block identifier.
\<close>

theorem restart_resumes:
  assumes "ApplyBlock L (Some blk) s = (Inr r, t)" and "mh_law L"
    and "RawBlock_Hash L (sb_RawBlock blk) \<noteq> MsgIDUndef" and "height t \<noteq> 0"
  shows "height (NewStateMgr L base gid thre (ds t)) = height t \<and>
    slot (NewStateMgr L base gid thre (ds t)) = slot t \<and>
    blkID (NewStateMgr L base gid thre (ds t)) = blkID t"
proof -
  let ?h = "rh_Height (blk_header blk)" and ?bid = "RawBlock_Hash L (sb_RawBlock blk)"
  from assms(1) obtain t1 tx where pre: "applyPre L blk (s\<lparr>tds := Some (txn_new (ds s))\<rparr>) = (Inr (), t1)"
    and tx: "tds t1 = Some tx" and t: "t = advance L blk (t1\<lparr>ds := txn_commit tx\<rparr>)\<lparr>tds := None\<rparr>"
    by (rule ApplyBlock_core)
  have d: "ds (initStateMgr L base gid thre (ds t)) = txn_commit tx"
    using t by (simp add: initStateMgr_def Let_def)
  have bid: "lb_mhDecode L ?bid = Some 76" "length ?bid = MsgLen"
    using assms(2,3) by (auto simp: mh_law_def RawBlock_Hash_def NewMsgID_def split: option.splits)
  note eff = ApplyBlock_effects [OF assms(1)]
  from load_height_block [of "initStateMgr L base gid thre (ds t)" ?h ?bid "rh_Slot (blk_header blk)" L]
    applyPre_records [OF pre] d tx bid assms(4) eff(1,2,4,6)
  show ?thesis
    by (simp add: NewStateMgr_def)
qed

theorem restart_resumes_witness:
  "\<exists>t. ApplyBlock ex_lib (Some ex_block) ex_state = (Inr (root t), t) \<and>
     height (NewStateMgr ex_lib [] 1 1 (ds t)) = 2 \<and> slot (NewStateMgr ex_lib [] 1 1 (ds t)) = 5"
proof -
  obtain t where run: "ApplyBlock ex_lib (Some ex_block) ex_state = (Inr (root t), t)"
    using ex_run by blast
  have "height t = 2" "slot t = 5"
    using ApplyBlock_effects [OF run] by simp_all
  moreover have "mh_law ex_lib"
    by (simp add: mh_law_def lib0_def MsgLen_def)
  moreover have "RawBlock_Hash ex_lib (sb_RawBlock ex_block) \<noteq> MsgIDUndef"
    by (simp add: lib0_def RawBlock_Hash_def NewMsgID_def MsgIDUndef_def copy_into_def)
  ultimately show ?thesis
    using restart_resumes [OF run, of "[]" 1 1] run by auto
qed



end
