(* ===== verification/TxStore.thy ===== *)
theory TxStore
  imports NodeBase StateChain
begin

text \<open>
  The store of messages and blocks, \<open>lib/tx/store.go\<close>: three LRU caches over the key-value
  store.  The caches are third-party code: a map that may drop entries whenever one is added
  (\<open>lru\<close>), so everything holds whatever they drop.
\<close>

record TxStore =
  ts_ds :: kvs
  ts_msgCache :: "MsgID \<Rightarrow> SignedMessage option"
  ts_blkCache :: "MsgID \<Rightarrow> SignedBlock option"
  ts_htCache :: "u64 \<Rightarrow> MsgID option"

record lru =
  lr_msg :: "(MsgID \<Rightarrow> SignedMessage option) \<Rightarrow> (MsgID \<Rightarrow> SignedMessage option)"
  lr_blk :: "(MsgID \<Rightarrow> SignedBlock option) \<Rightarrow> (MsgID \<Rightarrow> SignedBlock option)"
  lr_ht :: "(u64 \<Rightarrow> MsgID option) \<Rightarrow> (u64 \<Rightarrow> MsgID option)"

text \<open>What the caches promise: they only drop entries.\<close>

definition lru_law :: "lru \<Rightarrow> bool" where
  "lru_law C \<longleftrightarrow> (\<forall>m. lr_msg C m \<subseteq>\<^sub>m m) \<and> (\<forall>m. lr_blk C m \<subseteq>\<^sub>m m) \<and> (\<forall>m. lr_ht C m \<subseteq>\<^sub>m m)"

type_synonym 'a tgo = "(TxStore, 'a) go"

definition MT_TX_BlockKey :: nat where "MT_TX_BlockKey = 61"
definition MT_Tx_BlockHeightKey :: nat where "MT_Tx_BlockHeightKey = 62"
definition MT_TX_MessageKey :: nat where "MT_TX_MessageKey = 64"
definition MT_Tx_MessageStateKey :: nat where "MT_Tx_MessageStateKey = 65"

lemmas tx_meta_defs = MT_TX_BlockKey_def MT_Tx_BlockHeightKey_def MT_TX_MessageKey_def MT_Tx_MessageStateKey_def

text \<open>\<open>store.NewKey(mt, id.String())\<close>\<close>

definition idKey :: "env \<Rightarrow> nat \<Rightarrow> MsgID \<Rightarrow> bytes" where
  "idKey E mt mid = NewKey [KInt (int mt), KString (MsgID_String E mid)]"

definition ts_put :: "lib \<Rightarrow> bytes \<Rightarrow> bytes \<Rightarrow> unit tgo" where
  "ts_put L k v = seq (reject (lb_putFail L k v) ''put'') (modify (\<lambda>t. t\<lparr>ts_ds := ds_put (ts_ds t) k v\<rparr>))"

section \<open>Messages\<close>

definition HasTxMsg :: "env \<Rightarrow> MsgID \<Rightarrow> TxStore \<Rightarrow> bool" where
  "HasTxMsg E mid t \<longleftrightarrow> ts_msgCache t mid \<noteq> None \<or> ts_ds t (idKey E MT_TX_MessageKey mid) \<noteq> None"

definition zero_SignedMessage :: SignedMessage where
  "zero_SignedMessage = \<lparr>sm_Message = \<lparr>msg_Version = 0, msg_From = 0, msg_To = 0, msg_Nonce = 0, msg_Value = None,
     msg_GasLimit = 0, msg_GasPrice = None, msg_Method = 0, msg_Params = []\<rparr>, sm_Signature = zero_Signature\<rparr>"

definition cacheMsg :: "lru \<Rightarrow> MsgID \<Rightarrow> SignedMessage \<Rightarrow> unit tgo" where
  "cacheMsg C mid sm = modify (\<lambda>t. t\<lparr>ts_msgCache := lr_msg C ((ts_msgCache t)(mid \<mapsto> sm))\<rparr>)"

definition GetTxMsg :: "env \<Rightarrow> lru \<Rightarrow> MsgID \<Rightarrow> SignedMessage tgo" where
  "GetTxMsg E C mid =
     bnd (gets (\<lambda>t. (ts_msgCache t mid, ts_ds t (idKey E MT_TX_MessageKey mid)))) (\<lambda>(cached, stored).
     case cached of Some sm \<Rightarrow> ret sm
     | None \<Rightarrow>
         bnd (orErr ''not found'' stored) (\<lambda>res.
         bnd (orErr ''unmarshal'' (decode (en_cSignedMessage E) zero_SignedMessage res)) (\<lambda>sm.
         seq (cacheMsg C mid sm) (ret sm))))"

text \<open>A message that is cached is not stored, even when asked to persist it.\<close>

definition PutTxMsg :: "lib \<Rightarrow> env \<Rightarrow> lru \<Rightarrow> SignedMessage \<Rightarrow> bool \<Rightarrow> unit tgo" where
  "PutTxMsg L E C sm persist =
     (let mid = Message_Hash L E (sm_Message sm) in
     bnd (gets (\<lambda>t. ts_msgCache t mid)) (\<lambda>cached.
     if cached \<noteq> None then ret ()
     else seq (cacheMsg C mid sm)
       (if persist then
          bnd (orErr ''serialize'' (SignedMessage_Serialize E sm)) (\<lambda>b.
          ts_put L (idKey E MT_TX_MessageKey mid) b)
        else ret ())))"

section \<open>Blocks\<close>

definition zero_SignedBlock :: SignedBlock where
  "zero_SignedBlock = \<lparr>sb_RawBlock = \<lparr>rb_RawHeader = \<lparr>rh_Version = 0, rh_GroupID = 0, rh_Height = 0, rh_Slot = 0,
       rh_MinerID = 0, rh_PrevID = MsgIDUndef\<rparr>,
     rb_MsgSet = \<lparr>mset_Msgs = [], mset_Receipts = [], mset_ParentRoot = MsgIDUndef, mset_Root = MsgIDUndef\<rparr>\<rparr>,
     sb_MultiSignature = NewMultiSignature 0\<rparr>"

definition HasTxBlock :: "env \<Rightarrow> MsgID \<Rightarrow> TxStore \<Rightarrow> bool" where
  "HasTxBlock E bid t \<longleftrightarrow> ts_blkCache t bid \<noteq> None \<or> ts_ds t (idKey E MT_TX_BlockKey bid) \<noteq> None"

definition DeleteTxBlock :: "env \<Rightarrow> MsgID \<Rightarrow> unit tgo" where
  "DeleteTxBlock E bid = modify (\<lambda>t. t\<lparr>ts_blkCache := (ts_blkCache t)(bid := None),
     ts_ds := ds_delete (ts_ds t) (idKey E MT_TX_BlockKey bid)\<rparr>)"

definition cacheBlk :: "lru \<Rightarrow> MsgID \<Rightarrow> SignedBlock \<Rightarrow> unit tgo" where
  "cacheBlk C bid tb = modify (\<lambda>t. t\<lparr>ts_blkCache := lr_blk C ((ts_blkCache t)(bid \<mapsto> tb))\<rparr>)"

definition GetTxBlock :: "env \<Rightarrow> lru \<Rightarrow> MsgID \<Rightarrow> SignedBlock tgo" where
  "GetTxBlock E C bid =
     bnd (gets (\<lambda>t. (ts_blkCache t bid, ts_ds t (idKey E MT_TX_BlockKey bid)))) (\<lambda>(cached, stored).
     case cached of Some tb \<Rightarrow> ret tb
     | None \<Rightarrow>
         bnd (orErr ''not found'' stored) (\<lambda>res.
         bnd (orErr ''unmarshal'' (decode (en_cSignedBlock E) zero_SignedBlock res)) (\<lambda>tb.
         seq (cacheBlk C bid tb) (ret tb))))"

definition heightKey :: "u64 \<Rightarrow> bytes" where
  "heightKey ht = skey MT_Tx_BlockHeightKey [unat ht]"

definition PutTxBlockHeight :: "lib \<Rightarrow> lru \<Rightarrow> u64 \<Rightarrow> MsgID \<Rightarrow> unit tgo" where
  "PutTxBlockHeight L C ht bid =
     seq (ts_put L (heightKey ht) bid)
         (modify (\<lambda>t. t\<lparr>ts_htCache := lr_ht C ((ts_htCache t)(ht \<mapsto> bid))\<rparr>))"

text \<open>The predecessor's height is \<open>tb.Height-1\<close>, which wraps around for block zero.\<close>

definition PutTxBlock :: "lib \<Rightarrow> env \<Rightarrow> lru \<Rightarrow> SignedBlock \<Rightarrow> nat tgo" where
  "PutTxBlock L E C tb =
     (let bid = RawBlock_Hash L (sb_RawBlock tb); hd = blk_header tb in
     bnd (gets (\<lambda>t. ts_blkCache t bid)) (\<lambda>cached.
     if cached \<noteq> None then ret 0
     else seq (cacheBlk C bid tb)
    (bnd (orErr ''serialize'' (marshal (en_cSignedBlock E) tb)) (\<lambda>b.
     seq (ts_put L (idKey E MT_TX_BlockKey bid) b)
    (seq (PutTxBlockHeight L C (rh_Height hd) bid)
    (seq (PutTxBlockHeight L C (rh_Height hd - 1) (rh_PrevID hd))
         (ret (length b))))))))"

definition GetTxBlockByHeight :: "lib \<Rightarrow> lru \<Rightarrow> u64 \<Rightarrow> MsgID tgo" where
  "GetTxBlockByHeight L C ht =
     bnd (gets (\<lambda>t. (ts_htCache t ht, ts_ds t (heightKey ht)))) (\<lambda>(cached, stored).
     case cached of Some bid \<Rightarrow> ret bid
     | None \<Rightarrow>
         bnd (orErr ''not found'' stored) (\<lambda>res.
         bnd (orErr ''id'' (FromBytes (lb_mhDecode L) res)) (\<lambda>bid.
         seq (modify (\<lambda>t. t\<lparr>ts_htCache := lr_ht C ((ts_htCache t)(ht \<mapsto> bid))\<rparr>)) (ret bid))))"

definition DeleteTxBlockHeight :: "u64 \<Rightarrow> unit tgo" where
  "DeleteTxBlockHeight ht = modify (\<lambda>t. t\<lparr>ts_htCache := (ts_htCache t)(ht := None),
     ts_ds := ds_delete (ts_ds t) (heightKey ht)\<rparr>)"

section \<open>States of messages\<close>

definition zero_MsgState :: MsgState where
  "zero_MsgState = \<lparr>mst_BlockID = MsgIDUndef, mst_Height = 0, mst_Status = \<lparr>rcpt_Err = 0, rcpt_Extra = []\<rparr>\<rparr>"

definition PutTxMsgState :: "lib \<Rightarrow> env \<Rightarrow> MsgID \<Rightarrow> MsgState \<Rightarrow> unit tgo" where
  "PutTxMsgState L E mid ms =
     bnd (orErr ''serialize'' (marshal (en_cMsgState E) ms)) (\<lambda>b.
     ts_put L (idKey E MT_Tx_MessageStateKey mid) b)"

definition msgState :: "env \<Rightarrow> kvs \<Rightarrow> MsgID \<Rightarrow> MsgState option" where
  "msgState E d mid = Option.bind (d (idKey E MT_Tx_MessageStateKey mid)) (decode (en_cMsgState E) zero_MsgState)"

text \<open>
  \<open>GetTxMsgState\<close> follows a replaced message to its replacement (\<open>Height\<close> is the largest
  number), possibly for ever: \<open>None\<close> is a call that does not return, \<open>Some None\<close> an error.
\<close>

partial_function (option) GetTxMsgState :: "env \<Rightarrow> kvs \<Rightarrow> MsgID \<Rightarrow> MsgState option option" where
  "GetTxMsgState E d mid = (case msgState E d mid of
      None \<Rightarrow> Some None
    | Some ms \<Rightarrow> if mst_Height ms = - 1 then GetTxMsgState E d (mst_BlockID ms) else Some (Some ms))"

section \<open>Keys\<close>

lemma idKey_split: "idKey E mt mid = dec_digits mt @ 47 # en_b58 E mid"
  by (simp add: idKey_def MsgID_String_def KeyDelimiter_def FormatInt_nat)

lemma idKey_inject:
  "inj (en_b58 E) \<Longrightarrow> idKey E mt a = idKey E mt' b \<longleftrightarrow> mt = mt' \<and> a = b"
  by (auto simp: idKey_split append_slash_inject dec_digits_no_slash dec_digits_inject dest: injD)

lemma idKey_heightKey: "mt \<noteq> MT_Tx_BlockHeightKey \<Longrightarrow> idKey E mt mid \<noteq> heightKey ht"
  unfolding idKey_def heightKey_def skey_def by (rule NewKey_meta_neq) simp

lemma idKey_heightKey_simps [simp]:
  "idKey E MT_TX_BlockKey a \<noteq> heightKey h" "heightKey h \<noteq> idKey E MT_TX_BlockKey a"
  "idKey E MT_TX_MessageKey a \<noteq> heightKey h" "heightKey h \<noteq> idKey E MT_TX_MessageKey a"
  "idKey E MT_Tx_MessageStateKey a \<noteq> heightKey h" "heightKey h \<noteq> idKey E MT_Tx_MessageStateKey a"
  by (simp_all add: idKey_heightKey idKey_heightKey [symmetric] tx_meta_defs)

lemma heightKey_inject [simp]: "heightKey a = heightKey b \<longleftrightarrow> a = b"
  by (simp add: heightKey_def)

section \<open>Invariant\<close>

text \<open>
  What is cached or stored under an identifier is a block with that identifier, and the cache
  of heights agrees with the store.
\<close>

definition ts_ok :: "lib \<Rightarrow> env \<Rightarrow> TxStore \<Rightarrow> bool" where
  "ts_ok L E t \<longleftrightarrow>
     (\<forall>bid tb. ts_blkCache t bid = Some tb \<longrightarrow> RawBlock_Hash L (sb_RawBlock tb) = bid) \<and>
     (\<forall>bid v. ts_ds t (idKey E MT_TX_BlockKey bid) = Some v \<longrightarrow>
        (\<exists>tb. decode (en_cSignedBlock E) zero_SignedBlock v = Some tb \<and> RawBlock_Hash L (sb_RawBlock tb) = bid)) \<and>
     (\<forall>ht bid. ts_htCache t ht = Some bid \<longrightarrow> ts_ds t (heightKey ht) = Some bid)"

text \<open>The laws of the code the store relies on.\<close>

definition ts_law :: "env \<Rightarrow> lru \<Rightarrow> bool" where
  "ts_law E C \<longleftrightarrow> lru_law C \<and> inj (en_b58 E) \<and> codec_law (en_cSignedBlock E)"

lemma ts_lawD:
  assumes "ts_law E C"
  shows "lr_msg C m \<subseteq>\<^sub>m m" "lr_blk C n \<subseteq>\<^sub>m n" "lr_ht C h \<subseteq>\<^sub>m h" "inj (en_b58 E)" "codec_law (en_cSignedBlock E)"
  using assms by (simp_all add: ts_law_def lru_law_def)

lemma map_le_Some: "m \<subseteq>\<^sub>m n \<Longrightarrow> m k = Some v \<Longrightarrow> n k = Some v"
  by (auto simp: map_le_def dom_def)

lemma ts_ok_empty: "ts_ok L E \<lparr>ts_ds = (\<lambda>_. None), ts_msgCache = (\<lambda>_. None), ts_blkCache = (\<lambda>_. None),
    ts_htCache = (\<lambda>_. None)\<rparr>"
  by (simp add: ts_ok_def)

lemma ts_ok_msgCache [simp]: "ts_ok L E (t\<lparr>ts_msgCache := c\<rparr>) = ts_ok L E t"
  by (simp add: ts_ok_def)

lemma ts_ok_cacheBlk:
  assumes "ts_law E C" and "ts_ok L E t" and "RawBlock_Hash L (sb_RawBlock tb) = bid"
  shows "ts_ok L E (t\<lparr>ts_blkCache := lr_blk C ((ts_blkCache t)(bid \<mapsto> tb))\<rparr>)"
  using assms map_le_Some [OF ts_lawD(2) [OF assms(1)]]
  by (fastforce simp: ts_ok_def split: if_splits)

lemma ts_ok_put_other:
  assumes "ts_ok L E t" and "\<And>bid. k \<noteq> idKey E MT_TX_BlockKey bid" and "\<And>ht. k \<noteq> heightKey ht"
  shows "ts_ok L E (t\<lparr>ts_ds := ds_put (ts_ds t) k v\<rparr>)"
  using assms by (auto simp: ts_ok_def ds_put_def)

lemma ts_ok_put_block:
  assumes "ts_law E C" and "ts_ok L E t" and "marshal (en_cSignedBlock E) tb = Some b"
  shows "ts_ok L E (t\<lparr>ts_ds := ds_put (ts_ds t) (idKey E MT_TX_BlockKey (RawBlock_Hash L (sb_RawBlock tb))) b\<rparr>)"
  using assms decode_law [OF ts_lawD(5) [OF assms(1)] assms(3)]
  by (auto simp: ts_ok_def ds_put_def idKey_inject ts_lawD(4))

lemma PutTxBlockHeight_ok:
  assumes "ts_law E C"
  shows "keeps (ts_ok L E) (PutTxBlockHeight L C ht bid)"
proof (rule keepsI)
  fix t assume ok: "ts_ok L E t"
  let ?t = "t\<lparr>ts_ds := ds_put (ts_ds t) (heightKey ht) bid\<rparr>"
  have "ts_ok L E (?t\<lparr>ts_htCache := lr_ht C ((ts_htCache ?t)(ht \<mapsto> bid))\<rparr>)"
    using ok map_le_Some [OF ts_lawD(3) [OF assms]]
    by (fastforce simp: ts_ok_def ds_put_def split: if_splits)
  with ok show "ts_ok L E (snd (PutTxBlockHeight L C ht bid t))"
    by (cases "lb_putFail L (heightKey ht) bid") (simp_all add: PutTxBlockHeight_def ts_put_def)
qed

lemma PutTxBlock_ok:
  assumes "ts_law E C"
  shows "keeps (ts_ok L E) (PutTxBlock L E C tb)"
proof (rule keepsI)
  fix t assume ok: "ts_ok L E t"
  let ?bid = "RawBlock_Hash L (sb_RawBlock tb)"
  let ?t = "t\<lparr>ts_blkCache := lr_blk C ((ts_blkCache t)(?bid \<mapsto> tb))\<rparr>"
  have t: "ts_ok L E ?t"
    using ts_ok_cacheBlk [OF assms ok refl] .
  show "ts_ok L E (snd (PutTxBlock L E C tb t))"
  proof (cases "marshal (en_cSignedBlock E) tb")
    case None
    with ok t show ?thesis
      by (simp add: PutTxBlock_def cacheBlk_def Let_def)
  next
    case (Some b)
    let ?m = "seq (PutTxBlockHeight L C (rh_Height (blk_header tb)) ?bid)
      (seq (PutTxBlockHeight L C (rh_Height (blk_header tb) - 1) (rh_PrevID (blk_header tb))) (ret (length b)))"
    have "keeps (ts_ok L E) ?m"
      by (intro keeps_rules PutTxBlockHeight_ok assms)
    from keepsD [OF this ts_ok_put_block [OF assms t Some]] ok t Some show ?thesis
      by (cases "lb_putFail L (idKey E MT_TX_BlockKey ?bid) b")
        (simp_all add: PutTxBlock_def cacheBlk_def ts_put_def Let_def)
  qed
qed

lemma GetTxBlock_ok:
  assumes "ts_law E C" and "ts_ok L E t" and "GetTxBlock E C bid t = (r, t')"
  shows "ts_ok L E t' \<and> (\<forall>tb. r = Inr tb \<longrightarrow> RawBlock_Hash L (sb_RawBlock tb) = bid)"
proof (cases "ts_blkCache t bid")
  case (Some tb)
  with assms(2,3) show ?thesis
    by (auto simp: GetTxBlock_def ts_ok_def)
next
  case None
  show ?thesis
  proof (cases "ts_ds t (idKey E MT_TX_BlockKey bid)")
    case (Some v)
    with assms(2) obtain tb where tb: "decode (en_cSignedBlock E) zero_SignedBlock v = Some tb"
      "RawBlock_Hash L (sb_RawBlock tb) = bid"
      unfolding ts_ok_def by blast
    with None Some assms(3) ts_ok_cacheBlk [OF assms(1,2) tb(2)] show ?thesis
      by (auto simp: GetTxBlock_def cacheBlk_def)
  qed (use None assms(2,3) in \<open>auto simp: GetTxBlock_def\<close>)
qed

lemma ts_ok_others:
  assumes "ts_law E C"
  shows "keeps (ts_ok L E) (GetTxMsg E C mid)" "keeps (ts_ok L E) (PutTxMsg L E C sm persist)"
    "keeps (ts_ok L E) (PutTxMsgState L E mid ms)" "keeps (ts_ok L E) (DeleteTxBlock E bid)"
    "keeps (ts_ok L E) (DeleteTxBlockHeight ht)"
proof -
  note inj = idKey_inject [OF ts_lawD(4) [OF assms]]
  have put: "keeps (ts_ok L E) (ts_put L (idKey E mt i) v)" if "mt \<in> {MT_TX_MessageKey, MT_Tx_MessageStateKey}" for mt i v
    unfolding ts_put_def using that
    by (intro keeps_rules ts_ok_put_other) (auto simp: inj idKey_heightKey tx_meta_defs)
  show "keeps (ts_ok L E) (GetTxMsg E C mid)" "keeps (ts_ok L E) (PutTxMsg L E C sm persist)"
    "keeps (ts_ok L E) (PutTxMsgState L E mid ms)"
    unfolding GetTxMsg_def PutTxMsg_def PutTxMsgState_def cacheMsg_def Let_def
    by (intro keeps_rules put; simp)+
  show "keeps (ts_ok L E) (DeleteTxBlock E bid)" "keeps (ts_ok L E) (DeleteTxBlockHeight ht)"
    unfolding DeleteTxBlock_def DeleteTxBlockHeight_def
    by (intro keeps_rules; auto simp: ts_ok_def ds_delete_def inj split: if_splits)+
qed

lemma GetTxBlockByHeight_ok:
  assumes "ts_law E C" and "ts_ok L E t" and "GetTxBlockByHeight L C ht t = (r, t')"
  shows "ts_ok L E t' \<and> ts_ds t' = ts_ds t \<and> (\<forall>bid. r = Inr bid \<longrightarrow> ts_ds t (heightKey ht) = Some bid)"
proof (cases "ts_htCache t ht")
  case (Some bid)
  with assms(2,3) show ?thesis
    by (auto simp: GetTxBlockByHeight_def ts_ok_def)
next
  case None
  have "ts_ok L E (t\<lparr>ts_htCache := lr_ht C ((ts_htCache t)(ht \<mapsto> v))\<rparr>)" if "ts_ds t (heightKey ht) = Some v" for v
    using assms(2) that map_le_Some [OF ts_lawD(3) [OF assms(1)]]
    by (fastforce simp: ts_ok_def split: if_splits)
  with None assms(2,3) show ?thesis
    by (cases "ts_ds t (heightKey ht)")
      (auto simp: GetTxBlockByHeight_def FromBytes_def bnd_def seq_def orErr_def fail_def split: option.splits if_splits)
qed

text \<open>A run of the store from an empty one.\<close>

inductive ts_reach :: "lib \<Rightarrow> env \<Rightarrow> lru \<Rightarrow> TxStore \<Rightarrow> bool" for L E C where
  start: "ts_reach L E C \<lparr>ts_ds = (\<lambda>_. None), ts_msgCache = (\<lambda>_. None), ts_blkCache = (\<lambda>_. None), ts_htCache = (\<lambda>_. None)\<rparr>"
| get_msg: "ts_reach L E C t \<Longrightarrow> ts_reach L E C (snd (GetTxMsg E C mid t))"
| put_msg: "ts_reach L E C t \<Longrightarrow> ts_reach L E C (snd (PutTxMsg L E C sm persist t))"
| put_state: "ts_reach L E C t \<Longrightarrow> ts_reach L E C (snd (PutTxMsgState L E mid ms t))"
| get_block: "ts_reach L E C t \<Longrightarrow> ts_reach L E C (snd (GetTxBlock E C bid t))"
| put_block: "ts_reach L E C t \<Longrightarrow> ts_reach L E C (snd (PutTxBlock L E C tb t))"
| del_block: "ts_reach L E C t \<Longrightarrow> ts_reach L E C (snd (DeleteTxBlock E bid t))"
| get_height: "ts_reach L E C t \<Longrightarrow> ts_reach L E C (snd (GetTxBlockByHeight L C ht t))"
| put_height: "ts_reach L E C t \<Longrightarrow> ts_reach L E C (snd (PutTxBlockHeight L C ht bid t))"
| del_height: "ts_reach L E C t \<Longrightarrow> ts_reach L E C (snd (DeleteTxBlockHeight ht t))"

lemma ts_reach_ok: "ts_reach L E C t \<Longrightarrow> ts_law E C \<Longrightarrow> ts_ok L E t"
proof (induction rule: ts_reach.induct)
  case start
  show ?case by (rule ts_ok_empty)
next
  case (get_block t bid)
  then show ?case
    using GetTxBlock_ok by (metis prod.collapse)
next
  case (get_height t ht)
  then show ?case
    using GetTxBlockByHeight_ok by (metis prod.collapse)
qed (simp_all add: ts_ok_others PutTxBlock_ok PutTxBlockHeight_ok keepsD)

section \<open>Round trips\<close>

lemma PutTxBlock_stored:
  assumes law: "ts_law E C" and run: "PutTxBlock L E C tb t = (Inr n, t')"
    and fresh: "ts_blkCache t (RawBlock_Hash L (sb_RawBlock tb)) = None"
  shows "\<exists>b. marshal (en_cSignedBlock E) tb = Some b \<and>
    ts_ds t' (idKey E MT_TX_BlockKey (RawBlock_Hash L (sb_RawBlock tb))) = Some b \<and>
    ts_ds t' (heightKey (rh_Height (blk_header tb))) = Some (RawBlock_Hash L (sb_RawBlock tb)) \<and>
    ts_blkCache t' = lr_blk C ((ts_blkCache t)(RawBlock_Hash L (sb_RawBlock tb) \<mapsto> tb))"
  using run fresh
  by (auto simp: PutTxBlock_def cacheBlk_def ts_put_def PutTxBlockHeight_def ds_put_def Let_def go_simps)

lemma GetTxBlock_stored:
  assumes "ts_law E C" and "marshal (en_cSignedBlock E) tb = Some b"
    and "ts_ds t (idKey E MT_TX_BlockKey bid) = Some b" and "\<And>tb'. ts_blkCache t bid = Some tb' \<Longrightarrow> tb' = tb"
  shows "\<exists>t'. GetTxBlock E C bid t = (Inr tb, t')"
  using assms decode_law [OF ts_lawD(5) [OF assms(1)] assms(2)]
  by (cases "ts_blkCache t bid") (auto simp: GetTxBlock_def cacheBlk_def)

section \<open>Properties\<close>

text \<open>
  Whatever the caches drop, the store never hands out a block under an identifier that is
  not the block's own, in any state reached from an empty store.
\<close>

lemma block_store_sound:
  assumes "ts_reach L E C t" and "ts_law E C" and "GetTxBlock E C bid t = (Inr tb, t')"
  shows "RawBlock_Hash L (sb_RawBlock tb) = bid"
  using GetTxBlock_ok [OF assms(2) ts_reach_ok [OF assms(1,2)] assms(3)] by simp


section \<open>An example\<close>

definition ex_lru :: lru where
  "ex_lru = \<lparr>lr_msg = (\<lambda>m. m), lr_blk = (\<lambda>m. m), lr_ht = (\<lambda>_ _. None)\<rparr>"

definition ex_ts_block :: SignedBlock where
  "ex_ts_block = zero_SignedBlock\<lparr>sb_RawBlock := (sb_RawBlock zero_SignedBlock)\<lparr>
     rb_RawHeader := (blk_header zero_SignedBlock)\<lparr>rh_Height := 1\<rparr>\<rparr>\<rparr>"

definition ex_ts_lib :: lib where
  "ex_ts_lib = lib0\<lparr>lb_cRawBlock := tab_codec [sb_RawBlock ex_ts_block]\<rparr>"

definition ex_ts_env :: env where
  "ex_ts_env = env0\<lparr>en_cSignedBlock := tab_codec [ex_ts_block]\<rparr>"

definition ex_ts0 :: TxStore where
  "ex_ts0 = \<lparr>ts_ds = (\<lambda>_. None), ts_msgCache = (\<lambda>_. None), ts_blkCache = (\<lambda>_. None), ts_htCache = (\<lambda>_. None)\<rparr>"

lemma ex_ts_law: "ts_law ex_ts_env ex_lru"
  by (simp add: ts_law_def lru_law_def ex_lru_def ex_ts_env_def map_le_def)

lemma ex_ts_hash: "RawBlock_Hash ex_ts_lib (sb_RawBlock ex_ts_block) = replicate 22 0"
  by (simp add: RawBlock_Hash_def ex_ts_lib_def NewMsgID_def copy_into_def numeral_eq_Suc)

lemma ex_ts_reach: "ts_reach ex_ts_lib ex_ts_env ex_lru ex_ts0"
  unfolding ex_ts0_def by (rule ts_reach.start)

lemma ex_ts_put: "\<exists>t. PutTxBlock ex_ts_lib ex_ts_env ex_lru ex_ts_block ex_ts0 = (Inr 1, t)"
  by (simp add: PutTxBlock_def cacheBlk_def ts_put_def PutTxBlockHeight_def Let_def ex_ts0_def ex_ts_env_def
      ex_ts_lib_def)


section \<open>Replaced messages\<close>

text \<open>The state of message \<open>a\<close> says that \<open>b\<close> has replaced it.\<close>

definition replaced :: "env \<Rightarrow> kvs \<Rightarrow> MsgID \<Rightarrow> MsgID \<Rightarrow> bool" where
  "replaced E d a b \<longleftrightarrow> (case msgState E d a of
      None \<Rightarrow> False | Some ms \<Rightarrow> mst_Height ms = - 1 \<and> mst_BlockID ms = b)"

lemma GetTxMsgState_final:
  "(\<And>b. \<not> replaced E d a b) \<Longrightarrow> GetTxMsgState E d a = Some (msgState E d a)"
  by (subst GetTxMsgState.simps) (fastforce simp: replaced_def split: option.splits)

lemma GetTxMsgState_step: "replaced E d a b \<Longrightarrow> GetTxMsgState E d a = GetTxMsgState E d b"
  by (subst GetTxMsgState.simps) (auto simp: replaced_def split: option.splits)

lemma GetTxMsgState_ends:
  assumes "GetTxMsgState E d mid = Some r"
  shows "\<exists>fin. (replaced E d)\<^sup>*\<^sup>* mid fin \<and> (\<forall>b. \<not> replaced E d fin b) \<and> r = msgState E d fin"
  using assms
proof (induction E d mid r rule: GetTxMsgState.raw_induct [rotated, consumes 1, case_names body])
  case (body rec E d mid r)
  show ?case
  proof (cases "\<exists>b. replaced E d mid b")
    case True
    then obtain b where b: "replaced E d mid b" ..
    with body(2) have "rec E d b = Some r"
      by (auto simp: replaced_def split: option.splits)
    from body(1) [OF this] b show ?thesis
      by (blast intro: converse_rtranclp_into_rtranclp)
  next
    case False
    with body(2) have "r = msgState E d mid"
      by (auto simp: replaced_def split: option.splits if_splits)
    with False show ?thesis
      by blast
  qed
qed

text \<open>
  C13: asking for the state of a message returns exactly when the chain of its replacements
  ends, and then with the state of the last replacement; on a cycle it never returns.
\<close>

theorem GetTxMsgState_returns:
  "GetTxMsgState E d mid = Some r \<longleftrightarrow>
     (\<exists>fin. (replaced E d)\<^sup>*\<^sup>* mid fin \<and> \<not> (\<exists>b. replaced E d fin b) \<and> r = msgState E d fin)"
proof
  assume "\<exists>fin. (replaced E d)\<^sup>*\<^sup>* mid fin \<and> \<not> (\<exists>b. replaced E d fin b) \<and> r = msgState E d fin"
  then obtain fin where "(replaced E d)\<^sup>*\<^sup>* mid fin" and fin: "\<And>b. \<not> replaced E d fin b" "r = msgState E d fin"
    by blast
  then show "GetTxMsgState E d mid = Some r"
    by (induction rule: converse_rtranclp_induct) (simp_all add: GetTxMsgState_final GetTxMsgState_step)
qed (use GetTxMsgState_ends in blast)

end
