(* ===== verification/StateRun.thy ===== *)
theory StateRun
  imports StateChain
begin

text \<open>
  From messages to blocks and chains.  The locale \<open>block_run\<close> lists the steps an accepted
  block is made of; a relation on states that holds for each of them, and composes, holds
  between the states before and after the block.
\<close>

section \<open>The steps of a block\<close>

locale block_run =
  fixes L :: lib and R :: "StateMgr \<Rightarrow> StateMgr \<Rightarrow> bool"
  assumes R_refl: "R s s"
    and R_trans: "R s t \<Longrightarrow> R t u \<Longrightarrow> R s u"
    and chain_put: "chain_key k \<Longrightarrow> sput L k v s = (res, t) \<Longrightarrow> R s t"
    and chain_tput: "chain_key k \<Longrightarrow> tds_put L k v s = (res, t) \<Longrightarrow> R s t"
    and set_root: "R s (s\<lparr>root := x\<rparr>)"
    and smt_root: "R s (s\<lparr>smt := smtSetRoot (curRoot (smt s)) (smt s)\<rparr>)"
    and load_role: "rInfo s r = None \<Longrightarrow> R s (s\<lparr>rInfo := (rInfo s)(r \<mapsto> loadRole L r s)\<rparr>)"
    and use_nonce: "rInfo s r = Some ri \<Longrightarrow> R s (s\<lparr>rInfo := (rInfo s)(r \<mapsto> ri\<lparr>rl_val := rv\<rparr>)\<rparr>)"
    and msg_step: "applyMethod L msg s = (Inr (), t) \<Longrightarrow> R s t"
    and open_txn: "tds s = None \<Longrightarrow> R s (s\<lparr>tds := Some (txn_new (ds s))\<rparr>)"
    and close_txn: "tds s = Some tx \<Longrightarrow> slot s < rh_Slot (blk_header blk) \<Longrightarrow>
      R s (advance L blk (s\<lparr>ds := txn_commit tx\<rparr>)\<lparr>tds := None\<rparr>)"
begin

lemma keeps_R:
  "keeps (R s) m \<Longrightarrow> m s = (r, t) \<Longrightarrow> R s t"
  using keeps_run R_refl by metis

lemma put_frames:
  "chain_key k \<Longrightarrow> keeps (R s) (sput L k v)" "chain_key k \<Longrightarrow> keeps (R s) (tds_put L k v)"
  by (rule keepsI; metis chain_put chain_tput prod.collapse R_trans)+

lemma root_frames: "keeps (R s) (newRoot L b)" "keeps (R s) (saveRoot L)"
  unfolding newRoot_def saveRoot_def Let_def
  by (intro keeps_rules put_frames; (simp | blast intro: R_trans set_root))+

lemma info_frame: "keeps (R s) (putBlockInfo L blk)"
  unfolding putBlockInfo_def Let_def by (intro keeps_rules put_frames) simp_all

lemma saveVal_frame: "keeps (R s) (saveVal L r rv)"
  unfolding saveVal_def Serialize_def by (intro keeps_rules put_frames) simp

lemma lookupRole_R: "lookupRole L r s = (Inr ri, t) \<Longrightarrow> R s t \<and> rInfo t r = Some ri"
  using load_role [of s r] R_refl by (auto simp: lookupRole_def Let_def split: option.splits)

lemma applyMsg_R:
  assumes "applyMsg L msg tr s = (Inr u, t)"
  shows "R s t"
proof -
  let ?f = "msg_From msg"
  from assms obtain ri v s1 s2 s3 where look: "lookupRole L ?f s = (Inr ri, s1)"
    and save: "saveVal L ?f v (s1\<lparr>rInfo := (rInfo s1)(?f \<mapsto> ri\<lparr>rl_val := v\<rparr>)\<rparr>) = (Inr (), s2)"
    and root: "(if version s2 < LSMT L then newRoot L (msg_Params msg) else ret ()) s2 = (Inr (), s3)"
    and meth: "(if rcpt_Err tr \<noteq> 0 then ret () else applyMethod L msg) s3 = (Inr (), t)"
    by (auto simp: applyMsg_def Let_def go_simps)
  from lookupRole_R [OF look] have "R s (s1\<lparr>rInfo := (rInfo s1)(?f \<mapsto> ri\<lparr>rl_val := v\<rparr>)\<rparr>)"
    by (blast intro: R_trans use_nonce)
  moreover have "R s2 s3"
    using root R_refl keeps_R [OF root_frames(1)] by (auto split: if_splits)
  moreover have "R s3 t"
    using meth R_refl msg_step by (auto split: if_splits)
  ultimately show ?thesis
    using keeps_R [OF saveVal_frame save] R_trans by blast
qed

lemma applyMsgs_R: "applyMsgs L ms rs s = (Inr u, t) \<Longrightarrow> R s t"
proof (induction L\<equiv>L ms rs arbitrary: s rule: applyMsgs.induct)
  case (3 m ms r rs)
  then show ?case
    using applyMsg_R R_trans by (fastforce simp: go_simps)
qed (simp_all add: R_refl)

lemma applyPre_R:
  assumes "applyPre L blk s = (Inr u, t)"
  shows "R s t"
proof -
  from assms obtain s2 s3 s4 b where put: "putBlockInfo L blk s = (Inr (), s2)"
    and root: "newRoot L b s2 = (Inr (), s3)"
    and msgs: "applyMsgs L (mset_Msgs (blk_msgset blk)) (mset_Receipts (blk_msgset blk)) s3 = (Inr (), s4)"
    and save: "saveRoot L (s4\<lparr>smt := smtSetRoot (curRoot (smt s4)) (smt s4)\<rparr>) = (Inr (), t)"
    using keeps_guards(1) [of "\<lambda>x. x = s"] keeps_guards(2) [of "\<lambda>x. x = s"]
    by (fastforce simp: applyPre_def Let_def Serialize_def go_simps dest: keeps_run split: if_splits)
  from keeps_R [OF info_frame put] keeps_R [OF root_frames(1) root] applyMsgs_R [OF msgs]
    smt_root [of s4] keeps_R [OF root_frames(2) save]
  show ?thesis
    using R_trans by blast
qed

theorem ApplyBlock_R:
  assumes "ApplyBlock L (Some blk) s = (Inr x, t)" and "tds s = None"
  shows "R s t"
proof -
  from assms(1) obtain t1 tx where pre: "applyPre L blk (s\<lparr>tds := Some (txn_new (ds s))\<rparr>) = (Inr (), t1)"
    and tx: "tds t1 = Some tx" and t: "t = advance L blk (t1\<lparr>ds := txn_commit tx\<rparr>)\<lparr>tds := None\<rparr>"
    by (rule ApplyBlock_core)
  from keeps_run [OF core_applyPre pre refl] have "core t1 = core s"
    by simp
  then have "slot t1 = slot s"
    by (rule core_fields)
  then have "slot t1 < rh_Slot (blk_header blk)"
    using ApplyBlock_effects(3,4) [OF assms(1)] by simp
  from open_txn [OF assms(2)] applyPre_R [OF pre] close_txn [OF tx this] show ?thesis
    unfolding t by (blast intro: R_trans)
qed

end

section \<open>Registered roles\<close>

text \<open>
  A role is a keeper, a provider or a user, and is listed once; a listed role is cached with
  the base it registered with.
\<close>

definition roles_ok :: "StateMgr \<Rightarrow> bool" where
  "roles_ok s \<longleftrightarrow> distinct (keepers s @ pros s @ users s) \<and>
     (\<forall>r \<in> set (keepers s @ pros s @ users s). \<exists>ri. rInfo s r = Some ri \<and> rl_base ri \<noteq> None)"

lemma roles_okD:
  "roles_ok s \<Longrightarrow> r \<in> set (keepers s @ pros s @ users s) \<Longrightarrow> \<exists>ri. rInfo s r = Some ri \<and> rl_base ri \<noteq> None"
  unfolding roles_ok_def by blast

lemma roles_ok_cong:
  "keepers t = keepers s \<Longrightarrow> pros t = pros s \<Longrightarrow> users t = users s \<Longrightarrow> rInfo t = rInfo s \<Longrightarrow>
     roles_ok t \<longleftrightarrow> roles_ok s"
  by (simp add: roles_ok_def)

lemma roles_ok_updates [simp]:
  "roles_ok (s\<lparr>smt := x1\<rparr>) = roles_ok s" "roles_ok (s\<lparr>tds := x2\<rparr>) = roles_ok s"
  "roles_ok (s\<lparr>ceInfo := x3\<rparr>) = roles_ok s" "roles_ok (s\<lparr>root := x4\<rparr>) = roles_ok s"
  "roles_ok (s\<lparr>oInfo := x5\<rparr>) = roles_ok s" "roles_ok (s\<lparr>sInfo := x6\<rparr>) = roles_ok s"
  "roles_ok (s\<lparr>ds := x7\<rparr>) = roles_ok s"
  by (simp_all add: roles_ok_def)

lemma roles_ok_puts: "keeps roles_ok (sput L k v)" "keeps roles_ok (tds_put L k v)"
  by (rule keeps_sput_stable keeps_tds_put_stable; simp)+

lemma roles_ok_role:
  "roles_ok s \<Longrightarrow> (\<And>o'. rInfo s r = Some o' \<Longrightarrow> rl_base o' \<noteq> None \<Longrightarrow> rl_base ri \<noteq> None) \<Longrightarrow>
     roles_ok (s\<lparr>rInfo := (rInfo s)(r \<mapsto> ri)\<rparr>)"
  by (force simp: roles_ok_def)

interpretation registered: order_frame L roles_ok "\<lambda>_. True" for L
  by unfold_locales (auto simp: roles_ok_puts intro: roles_ok_role)

text \<open>A role that registers was not listed, because its base was nil.\<close>

lemma setRoleBase_shape:
  assumes "setRoleBase L pri s = (Inr u, t)"
  shows "\<exists>ri. t = s\<lparr>rInfo := (rInfo s)(ri_RoleID pri \<mapsto> ri)\<rparr> \<and> rl_base ri = Some pri \<and>
    (\<forall>o'. rInfo s (ri_RoleID pri) = Some o' \<longrightarrow> rl_base o' = None)"
proof (cases "rInfo s (ri_RoleID pri)")
  case None
  with assms show ?thesis
    by (intro exI [of _ "\<lparr>rl_base = Some pri, rl_val = loadVal L (ri_RoleID pri) s\<rparr>"])
      (simp add: setRoleBase_def)
next
  case (Some o')
  with assms show ?thesis
    by (intro exI [of _ "o'\<lparr>rl_base := Some pri\<rparr>"]) (auto simp: setRoleBase_def go_simps)
qed

lemma setRoleBase_fresh:
  assumes "roles_ok s" and "setRoleBase L pri s = (Inr u, t)"
  shows "ri_RoleID pri \<notin> set (keepers t @ pros t @ users t) \<and> roles_ok t \<and>
    (\<exists>ri. rInfo t (ri_RoleID pri) = Some ri \<and> rl_base ri \<noteq> None)"
proof -
  from setRoleBase_shape [OF assms(2)] obtain ri
    where t: "t = s\<lparr>rInfo := (rInfo s)(ri_RoleID pri \<mapsto> ri)\<rparr>" "rl_base ri = Some pri"
      and old: "\<And>o'. rInfo s (ri_RoleID pri) = Some o' \<Longrightarrow> rl_base o' = None"
    by blast
  have "ri_RoleID pri \<notin> set (keepers s @ pros s @ users s)"
    using roles_okD [OF assms(1), of "ri_RoleID pri"] old by fastforce
  with t assms(1) roles_ok_role [of s "ri_RoleID pri" ri] show ?thesis
    by simp
qed

lemma enlist_ok:
  assumes "roles_ok s" and "rid \<notin> set (keepers s @ pros s @ users s)"
    and "\<exists>ri. rInfo s rid = Some ri \<and> rl_base ri \<noteq> None"
  shows "roles_ok (snd (enlist L ty rid s))"
proof -
  have "keeps roles_ok (appendId L mt rid)" for mt
    unfolding appendId_def by (intro keeps_rules roles_ok_puts)
  moreover have "roles_ok (s\<lparr>keepers := keepers s @ [rid]\<rparr>)" "roles_ok (s\<lparr>pros := pros s @ [rid]\<rparr>)"
    "roles_ok (s\<lparr>users := users s @ [rid]\<rparr>)"
    using assms by (auto simp: roles_ok_def)
  ultimately show ?thesis
    using assms(1) by (simp add: enlist_def keepsD)
qed

lemma addRole_ok: "keeps roles_ok (addRole L msg)"
proof (rule keepsI)
  fix s assume ok: "roles_ok s"
  show "roles_ok (snd (addRole L msg s))"
  proof (cases "decode (lb_cRoleInfo L) zero_RoleInfo (msg_Params msg)")
    case (Some pri)
    let ?k = "skey ST_RoleBaseKey [unat (ri_RoleID pri)]"
    obtain r t where base: "setRoleBase L pri s = (r, t)" by fastforce
    obtain r2 t2 where put: "sput L ?k (msg_Params msg) t = (r2, t2)" by fastforce
    have t: "roles_ok t"
      using keeps_run [OF registered.setRoleBase_frame base ok] .
    have t2: "roles_ok t2"
      using keeps_run [OF roles_ok_puts(1) put t] .
    have "roles_ok (snd (enlist L ty (ri_RoleID pri) t2))" if "r = Inr ()" for ty
      using enlist_ok [OF t2, of "ri_RoleID pri"] setRoleBase_fresh [of s L pri "()" t] base ok that
        sput_shape [OF put] by auto
    with Some ok t t2 base put show ?thesis
      by (cases r; cases r2) (auto simp: addRole_def Let_def reject_def seq_def bnd_def)
  qed (use ok in \<open>simp add: addRole_def\<close>)
qed

lemma applyMethod_ok: "keeps roles_ok (applyMethod L msg)"
  unfolding applyMethod_def
  by (intro keeps_rules addRole_ok registered.addUser_frame registered.addBucket_frame
      registered.createOrder_frame registered.addSeq_frame registered.commitOrder_frame
      registered.subOrder_frame registered.removeSeg_frame registered.updateChalEpoch_frame
      registered.addSegProof_frame registered.addPay_frame registered.updateNetAddr_frame
      registered.addBucMeta_frame registered.addObjMeta_frame; simp)

lemma applyMsg_ok: "keeps roles_ok (applyMsg L msg tr)"
proof (rule keepsI)
  fix s assume ok: "roles_ok s"
  obtain ri t where look: "lookupRole L (msg_From msg) s = (Inr ri, t)" and ri: "rInfo t (msg_From msg) = Some ri"
    by (cases "rInfo s (msg_From msg)") (simp_all add: lookupRole_def Let_def)
  have t: "roles_ok t"
    by (rule keeps_run [OF registered.lookupRole_frame look ok])
  let ?m = "\<lambda>rv. seq (saveVal L (msg_From msg) rv) (bnd (gets version) (\<lambda>ver.
     seq (if ver < LSMT L then newRoot L (msg_Params msg) else ret ())
         (if rcpt_Err tr \<noteq> 0 then ret () else applyMethod L msg)))"
  have "keeps roles_ok (?m rv)" for rv
    unfolding saveVal_def newRoot_def Let_def Serialize_def
    by (intro keeps_rules roles_ok_puts applyMethod_ok) simp
  moreover have "roles_ok (t\<lparr>rInfo := (rInfo t)(msg_From msg \<mapsto> ri\<lparr>rl_val := rv\<rparr>)\<rparr>)" for rv
    using t ri by (intro roles_ok_role) auto
  ultimately have "roles_ok (snd (?m rv (t\<lparr>rInfo := (rInfo t)(msg_From msg \<mapsto> ri\<lparr>rl_val := rv\<rparr>)\<rparr>)))" for rv
    by (rule keepsD)
  with look t show "roles_ok (snd (applyMsg L msg tr s))"
    by (cases "msg_Nonce msg = rv_Nonce (rl_val ri)") (simp_all add: applyMsg_def Let_def)
qed

lemma applyMsgs_ok: "keeps roles_ok (applyMsgs L ms rs)"
proof (induction L ms rs rule: applyMsgs.induct)
  case (3 L m ms r rs)
  then show ?case
    unfolding applyMsgs.simps by (intro keeps_rules applyMsg_ok)
qed (simp_all only: applyMsgs.simps keeps_ret keeps_fail)

lemma applyBody_ok: "keeps roles_ok (applyBody L blk)"
proof -
  have "roles_ok (advance L blk s) \<longleftrightarrow> roles_ok s" for s
    by (rule roles_ok_cong) (simp_all add: advance_def Let_def split: option.split)
  then show ?thesis
    unfolding applyBody_def applyPre_def putBlockInfo_def newRoot_def saveRoot_def commitTxn_def Serialize_def Let_def
    by (intro keeps_rules keeps_guards roles_ok_puts applyMsgs_ok) simp_all
qed

lemma ApplyBlock_ok:
  assumes "roles_ok s" and "tds s = None"
  shows "roles_ok (snd (ApplyBlock L mblk s)) \<and> tds (snd (ApplyBlock L mblk s)) = None"
proof (cases mblk)
  case None
  with assms show ?thesis
    by (simp add: ApplyBlock_def)
next
  case (Some blk)
  obtain r t where hdr: "checkHeader L blk s = (r, t)" by fastforce
  have "roles_ok t \<and> tds t = None"
    using assms hdr checkHeader_Inl [of L blk s _ t] checkHeader_Inr [of L blk s "()" t] by (cases r) auto
  moreover obtain r1 t1 where body: "applyBody L blk (t\<lparr>tds := Some (txn_new (ds t))\<rparr>) = (r1, t1)"
    by fastforce
  moreover have "roles_ok t1" if "roles_ok t"
    using keeps_run [OF applyBody_ok body] that by simp
  ultimately show ?thesis
    using hdr Some by (cases r; cases "lb_newTxnFail L") (simp_all add: ApplyBlock_def)
qed

section \<open>Runs of the manager\<close>

text \<open>
  The manager's lock makes its operations atomic: a run is a sequence of blocks that are
  applied (accepted or refused) and of proposals that are validated, from a start on an empty
  database.
\<close>

inductive reachable :: "lib \<Rightarrow> StateMgr \<Rightarrow> bool" for L where
  start: "reachable L (NewStateMgr L base gid thre (\<lambda>_. None))"
| apply_block: "reachable L s \<Longrightarrow> reachable L (snd (ApplyBlock L mblk s))"
| validate_block: "reachable L s \<Longrightarrow> reachable L (snd (ValidateBlock L mblk s))"
| validate_msg: "reachable L s \<Longrightarrow> reachable L (snd (ValidateMsg L mmsg s))"

definition mgr_inv :: "StateMgr \<Rightarrow> bool" where
  "mgr_inv s \<longleftrightarrow> roles_ok s \<and> tds s = None \<and> height s \<le> slot s"

lemma mgr_inv_start: "mgr_inv (NewStateMgr L base gid thre (\<lambda>_. None))"
  by (simp add: mgr_inv_def roles_ok_def NewStateMgr_def load_def load_height_def load_block_def load_root_def
      set_root_def load_roles_def load_ids_def load_epoch_def initStateMgr_def Let_def)

lemma mgr_inv_apply:
  assumes "mgr_inv s"
  shows "mgr_inv (snd (ApplyBlock L mblk s))"
proof -
  obtain r t where run: "ApplyBlock L mblk s = (r, t)" by fastforce
  have "height t \<le> slot t"
  proof (cases mblk)
    case None
    with run assms show ?thesis
      by (simp add: ApplyBlock_def mgr_inv_def)
  next
    case (Some blk)
    show ?thesis
    proof (cases r)
      case (Inl e)
      with Some run assms show ?thesis
        using ApplyBlock_failure(1,2) [of L blk s e t] by (simp add: mgr_inv_def)
    next
      case (Inr x)
      with Some run have "height t = height s + 1" "slot s < slot t"
        using ApplyBlock_effects(2,3) [of L blk s x t] by simp_all
      moreover from assms have "height s \<le> slot s"
        by (simp add: mgr_inv_def)
      ultimately show ?thesis
        using inc_le [OF le_less_trans [of "height s" "slot s" "slot t"]] by simp
    qed
  qed
  with ApplyBlock_ok [of s L mblk] assms run show ?thesis
    by (simp add: mgr_inv_def)
qed

lemma mgr_inv_validate:
  assumes "mgr_inv s" and "applied t = applied s"
  shows "mgr_inv t"
  using assms applied_fields [OF assms(2)] by (simp add: mgr_inv_def roles_ok_def)

lemma mgr_inv_validation:
  assumes "mgr_inv s"
  shows "mgr_inv (snd (ValidateBlock L mblk s))" "mgr_inv (snd (ValidateMsg L mmsg s))"
  using assms keepsD [OF validation.ValidateBlock_frame [of "applied s" L mblk], of s]
    keepsD [OF validation.ValidateMsg_frame [of "applied s" L mmsg], of s]
  by (blast intro: mgr_inv_validate dest: mgr_inv_def [THEN iffD1])+

lemma reachable_inv: "reachable L s \<Longrightarrow> mgr_inv s"
  by (induction rule: reachable.induct) (rule mgr_inv_start mgr_inv_apply mgr_inv_validation; assumption?)+

section \<open>A first block\<close>

text \<open>A manager on an empty database, and block zero, in which role 1 registers as a keeper.\<close>

definition ex0_keeper :: RoleInfo where
  "ex0_keeper = zero_RoleInfo\<lparr>ri_Type := RoleInfo_Keeper, ri_RoleID := 1\<rparr>"

definition ex0_state :: StateMgr where
  "ex0_state = NewStateMgr lib0 [] 1 1 (\<lambda>_. None)"

definition ex0_header :: RawHeader where
  "ex0_header = \<lparr>rh_Version = 0, rh_GroupID = 1, rh_Height = 0, rh_Slot = 5, rh_MinerID = 1,
     rh_PrevID = blkID ex0_state\<rparr>"

definition ex0_block :: SignedBlock where
  "ex0_block = \<lparr>sb_RawBlock = \<lparr>rb_RawHeader = ex0_header,
     rb_MsgSet = \<lparr>mset_Msgs = [\<lparr>sm_Message = ex_msg\<lparr>msg_From := 1, msg_Method := AddRole, msg_Params := [0]\<rparr>,
         sm_Signature = \<lparr>sig_Type = SigSecp256k1, sig_Data = [7]\<rparr>\<rparr>],
       mset_Receipts = [\<lparr>rcpt_Err = 0, rcpt_Extra = []\<rparr>], mset_ParentRoot = root ex0_state,
       mset_Root = MsgIDOf lib0 (MsgIDOf lib0 (root ex0_state @ [0]) @ [0])\<rparr>\<rparr>,
     sb_MultiSignature = \<lparr>ms_Type = SigBLS, ms_Signer = [], ms_Data = []\<rparr>\<rparr>"

definition ex0_lib :: lib where
  "ex0_lib = lib0\<lparr>lb_cRawHeader := tab_codec [ex0_header], lb_cRawBlock := tab_codec [sb_RawBlock ex0_block],
     lb_cRoleValue := tab_codec [\<lparr>rv_Nonce = 1, rv_Value = Some 0\<rparr>], lb_cRoleInfo := tab_codec [ex0_keeper]\<rparr>"

lemma ex0_state_fields [simp]:
  "height ex0_state = 0" "slot ex0_state = 0" "keepers ex0_state = []" "tds ex0_state = None"
  "version ex0_state = 0" "rInfo ex0_state = (\<lambda>_. None)" "ds ex0_state = (\<lambda>_. None)"
  "smt ex0_state = \<lparr>blkRoot = [], curRoot = []\<rparr>"
  by (simp_all add: ex0_state_def NewStateMgr_def load_def load_height_def load_block_def load_root_def
      set_root_def load_roles_def load_ids_def load_epoch_def initStateMgr_def Let_def NewSMTree_def list_trie_def build_init_def)

lemma ex0_msgs:
  "\<exists>s4. applyMsgs ex0_lib (mset_Msgs (blk_msgset ex0_block)) (mset_Receipts (blk_msgset ex0_block))
     (block_start ex0_lib ex0_block [0] ex0_state) = (Inr (), s4) \<and>
     root s4 = mset_Root (blk_msgset ex0_block)"
  by (simp add: block_start_def Let_def applyMsg_def lookupRole_def loadRole_def loadVal_def sget_def
      base_get_def smtGet_def list_trie_def meta_defs ex_msg_def zero_roleValue_def saveVal_def
      Serialize_def sput_def tds_put_ok newRoot_def ex0_lib_def ex0_block_def ex0_header_def
      applyMethod_def method_defs addRole_def ex0_keeper_def shas_def smtHas_def setRoleBase_def enlist_def
      appendId_def)

lemma ex0_run: "\<exists>t. ApplyBlock ex0_lib (Some ex0_block) ex0_state = (Inr (root t), t)"
proof -
  obtain s4 where "applyMsgs ex0_lib (mset_Msgs (blk_msgset ex0_block)) (mset_Receipts (blk_msgset ex0_block))
     (block_start ex0_lib ex0_block [0] ex0_state) = (Inr (), s4)" "root s4 = mset_Root (blk_msgset ex0_block)"
    using ex0_msgs by blast
  then show ?thesis
    by (intro ApplyBlock_accepts [of ex0_block ex0_state ex0_lib "[0]" s4])
      (simp_all add: checkBlockZero_Inr ex0_block_def ex0_lib_def ex0_header_def ex_msg_def ex0_keeper_def)
qed

lemma ex0_reachable: "reachable ex0_lib ex0_state"
proof -
  have "ex0_state = NewStateMgr ex0_lib [] 1 1 (\<lambda>_. None)"
    by (simp add: ex0_state_def NewStateMgr_def load_def load_height_def load_block_def load_root_def
      set_root_def load_roles_def load_ids_def load_epoch_def initStateMgr_def Let_def ex0_lib_def
      sget_def smtGet_def base_get_def NewSMTree_def list_trie_def)
  then show ?thesis
    by (metis reachable.start)
qed

text \<open>
  C7: in every state a manager reaches from an empty database, by applying blocks (accepted or
  refused) and validating proposals in any order, no role is listed twice or in two capacities,
  every listed role is cached with the base it registered with, no transaction is open, and the
  height does not exceed the slot, so that height and slot never wrap around.
\<close>

theorem manager_invariant:
  assumes "reachable L s"
  shows "distinct (keepers s @ pros s @ users s) \<and>
    (\<forall>r \<in> set (keepers s @ pros s @ users s). \<exists>ri b. rInfo s r = Some ri \<and> rl_base ri = Some b) \<and>
    tds s = None \<and> height s \<le> slot s"
  using reachable_inv [OF assms] by (auto simp: mgr_inv_def roles_ok_def)

theorem manager_invariant_witness:
  "\<exists>t. ApplyBlock ex0_lib (Some ex0_block) ex0_state = (Inr (root t), t) \<and>
     distinct (keepers t @ pros t @ users t) \<and> height t \<le> slot t \<and> height t = 1"
proof -
  obtain t where run: "ApplyBlock ex0_lib (Some ex0_block) ex0_state = (Inr (root t), t)"
    using ex0_run by blast
  have "reachable ex0_lib (snd (ApplyBlock ex0_lib (Some ex0_block) ex0_state))"
    by (rule reachable.apply_block [OF ex0_reachable])
  from manager_invariant [OF this] run ApplyBlock_effects(2) [OF run] show ?thesis
    by auto
qed
end
