(* ===== verification/HsMsg.thy ===== *)
theory HsMsg
  imports NodeBase
begin

text \<open>
  The messages of the consensus, \<open>lib/hotstuff/hotstuff.go\<close>: the phases, the message and the
  hash that is signed in a phase.
\<close>

datatype PhaseState = PhaseInit | PhaseNew | PhasePrepare | PhasePreCommit | PhaseCommit | PhaseDecide | PhaseFinal

fun phase_num :: "PhaseState \<Rightarrow> nat" where
  "phase_num PhaseInit = 0"
| "phase_num PhaseNew = 1"
| "phase_num PhasePrepare = 2"
| "phase_num PhasePreCommit = 3"
| "phase_num PhaseCommit = 4"
| "phase_num PhaseDecide = 5"
| "phase_num PhaseFinal = 6"

text \<open>A message type is a \<open>uint16\<close>; \<open>MsgUnknown\<close> stands for the numbers that have no name.\<close>

datatype HsMsgType = MsgNewView | MsgPrepare | MsgVotePrepare | MsgPreCommit | MsgVotePreCommit
  | MsgCommit | MsgVoteCommit | MsgDecide | MsgUnknown "16 word"

record HotstuffMessage =
  hm_From :: u64
  hm_Type :: HsMsgType
  hm_Data :: RawBlock
  hm_Sig :: Signature
  hm_Quorum :: MultiSignature

definition CalcHash :: "lib \<Rightarrow> bytes \<Rightarrow> PhaseState \<Rightarrow> bytes" where
  "CalcHash L h phase = MsgIDOf L (be 2 (phase_num phase) @ h)"

text \<open>What is signed names its phase: under a collision-free hash no signature serves two phases.\<close>

lemma phase_num_inject [simp]: "phase_num p = phase_num q \<longleftrightarrow> p = q"
  by (cases p; cases q) simp_all

lemma phase_num_less: "phase_num p < 256"
  by (cases p) simp_all

lemma be2_inject:
  assumes "a < 256" and "b < 256" and "be 2 a @ x = be 2 b @ y"
  shows "a = b \<and> x = y"
proof -
  from assms(3) have "be 2 a = be 2 b" "x = y"
    by (simp_all only: append_eq_append_conv length_be simp_thms)
  then have "un_be (be 2 a) = un_be (be 2 b)"
    by (simp only:)
  with assms(1,2) \<open>x = y\<close> show ?thesis
    by (simp only: un_be_be) simp
qed

lemma CalcHash_inject:
  assumes "inj (lb_mhSum L)" and "\<And>b. lb_mhSum L b \<noteq> None"
  shows "CalcHash L h p = CalcHash L g q \<longleftrightarrow> h = g \<and> p = q"
proof
  assume eq: "CalcHash L h p = CalcHash L g q"
  obtain r r' where "lb_mhSum L (be 2 (phase_num p) @ h) = Some r" "lb_mhSum L (be 2 (phase_num q) @ g) = Some r'"
    using assms(2) by (meson option.exhaust)
  with eq have "lb_mhSum L (be 2 (phase_num p) @ h) = lb_mhSum L (be 2 (phase_num q) @ g)"
    by (simp add: CalcHash_def NewMsgID_def)
  from be2_inject [OF phase_num_less phase_num_less injD [OF assms(1) this]] show "h = g \<and> p = q"
    by simp
qed simp

end
