(* ===== verification/SyncPool.thy ===== *)
theory SyncPool
  imports RoleMgr TxStore StateRun HsMsg
begin

text \<open>
  Following the chain, \<open>submodule/txPool/sync.go\<close>: blocks received from the network or from
  the consensus are checked and stored, and a timer applies them in order of height.

  The struct embeds the block store, the state manager and, through the latter, the role
  manager.  A channel is the list of what was sent and not yet received; its capacity only
  delays the sender.  A goroutine that refreshes a role is an entry of \<open>sp_refresh\<close>.  The clock
  is a sequence of readings, of which \<open>sp_reads\<close> have been taken; \<open>sp_pubMsgs\<close> and
  \<open>sp_pubBlks\<close> are what was handed to the network.
\<close>

record MessageDigest =
  md_ID :: MsgID
  md_From :: u64
  md_Nonce :: u64

record blkDigest =
  bd_height :: u64
  bd_msgs :: "MessageDigest list"

record SyncPool =
  sp_ts :: TxStore
  sp_st :: StateMgr
  sp_rm :: RoleMgr
  sp_thre :: int
  sp_groupID :: u64
  sp_nextHeight :: u64
  sp_remoteHeight :: u64
  sp_blks :: "u64 \<Rightarrow> MsgID option"
  sp_ready :: bool
  sp_msgDone :: "blkDigest list"
  sp_inPush :: bool
  sp_msgChan :: "SignedMessage list"
  sp_blkDone :: "blkDigest list"
  sp_inProcess :: bool
  sp_refresh :: "u64 list"
  sp_clock :: "nat \<Rightarrow> int"
  sp_reads :: nat
  sp_pubMsgs :: "SignedMessage list"
  sp_pubBlks :: "SignedBlock list"

type_synonym 'a pgo = "(SyncPool, 'a) go"

text \<open>The promoted methods of the embedded structs.\<close>

abbreviation on_ts :: "'a tgo \<Rightarrow> 'a pgo" where
  "on_ts m \<equiv> zoom sp_ts (\<lambda>x p. p\<lparr>sp_ts := x\<rparr>) m"

abbreviation on_st :: "'a sgo \<Rightarrow> 'a pgo" where
  "on_st m \<equiv> zoom sp_st (\<lambda>x p. p\<lparr>sp_st := x\<rparr>) m"

abbreviation on_rm :: "'a rgo \<Rightarrow> 'a pgo" where
  "on_rm m \<equiv> zoom sp_rm (\<lambda>x p. p\<lparr>sp_rm := x\<rparr>) m"

text \<open>\<open>time.Now()\<close>, in nanoseconds since the epoch of Unix.\<close>

definition timeNow :: "int pgo" where
  "timeNow p = (Inr (sp_clock p (sp_reads p)), p\<lparr>sp_reads := Suc (sp_reads p)\<rparr>)"

definition Second :: int where "Second = 1000000000"

definition NewSyncPool :: "u64 \<Rightarrow> int \<Rightarrow> StateMgr \<Rightarrow> RoleMgr \<Rightarrow> TxStore \<Rightarrow> (nat \<Rightarrow> int) \<Rightarrow> SyncPool" where
  "NewSyncPool gid thre st rm ts clk = \<lparr>sp_ts = ts, sp_st = st, sp_rm = rm, sp_thre = thre, sp_groupID = gid,
     sp_nextHeight = 0, sp_remoteHeight = 0, sp_blks = (\<lambda>_. None), sp_ready = False, sp_msgDone = [],
     sp_inPush = False, sp_msgChan = [], sp_blkDone = [], sp_inProcess = False, sp_refresh = [],
     sp_clock = clk, sp_reads = 0, sp_pubMsgs = [], sp_pubBlks = []\<rparr>"

definition sp_load :: "unit pgo" where
  "sp_load = modify (\<lambda>p. p\<lparr>sp_nextHeight := GetHeight (sp_st p), sp_remoteHeight := GetHeight (sp_st p)\<rparr>)"

section \<open>Receiving blocks\<close>

text \<open>The raise of \<open>remoteHeight\<close> to one past a block's height.\<close>

definition raiseRemote :: "u64 \<Rightarrow> unit pgo" where
  "raiseRemote ht = modify (\<lambda>p. if ht \<ge> sp_remoteHeight p then p\<lparr>sp_remoteHeight := ht + 1\<rparr> else p)"

text \<open>Every message of a block is verified; a failure starts a refresh of the sender's role.\<close>

definition verifyMsg :: "lib \<Rightarrow> env \<Rightarrow> SignedMessage \<Rightarrow> bool pgo" where
  "verifyMsg L E sm = on_rm (RoleVerify L E (msg_From (sm_Message sm)) (Message_Hash L E (sm_Message sm)) (sm_Signature sm))"

definition refreshLater :: "u64 \<Rightarrow> unit pgo" where
  "refreshLater rid = modify (\<lambda>p. p\<lparr>sp_refresh := sp_refresh p @ [rid]\<rparr>)"

definition checkMsgs :: "lib \<Rightarrow> env \<Rightarrow> SignedMessage list \<Rightarrow> unit pgo" where
  "checkMsgs L E msgs = forM msgs (\<lambda>sm.
     bnd (attempt (verifyMsg L E sm)) (\<lambda>res. case res of
       Inl e \<Rightarrow> seq (refreshLater (msg_From (sm_Message sm))) (fail e)
     | Inr ok \<Rightarrow> if ok then ret () else seq (refreshLater (msg_From (sm_Message sm))) (fail (Err ''msg sign is invalid''))))"

text \<open>The checks of a block that is not stored yet.\<close>

definition checkBlock :: "lib \<Rightarrow> env \<Rightarrow> SignedBlock \<Rightarrow> unit pgo" where
  "checkBlock L E tb =
     (let hd = blk_header tb in
     bnd (gets (\<lambda>p. p)) (\<lambda>p.
     seq (reject (rh_GroupID hd \<noteq> sp_groupID p) ''wrong block, group'')
    (seq (reject (rh_Height hd > 0 \<and> int (MultiSignature_Len (sb_MultiSignature tb)) < sp_thre p) ''not enough signers'')
    (bnd (on_rm (RoleGet L E (rh_MinerID hd) False)) (\<lambda>mri.
     bnd (deref ''nil role info'' mri) (\<lambda>ri.
     seq (reject (ri_Type ri \<noteq> RoleInfo_Keeper) ''miner is not keeper'')
    (seq (reject (ri_GroupID ri \<noteq> rh_GroupID hd) ''miner group is different'')
    (bnd (on_rm (RoleVerifyMulti L E (CalcHash L (RawBlock_Hash L (sb_RawBlock tb)) PhaseCommit) (sb_MultiSignature tb))) (\<lambda>ok.
     seq (reject (\<not> ok) ''block sign is invalid'')
         (checkMsgs L E (mset_Msgs (blk_msgset tb))))))))))))"

text \<open>\<open>blks\<close> learns the block's identifier and, above \<open>nextHeight\<close>, that of its predecessor.\<close>

definition noteBlock :: "u64 \<Rightarrow> MsgID \<Rightarrow> MsgID \<Rightarrow> SyncPool \<Rightarrow> SyncPool" where
  "noteBlock ht bid prev p =
     (if ht \<ge> sp_nextHeight p then
        (let b = (sp_blks p)(ht \<mapsto> bid) in
         p\<lparr>sp_blks := (if ht > sp_nextHeight p then b(ht - 1 \<mapsto> prev) else b)\<rparr>)
      else p)"

definition SyncAddTxBlock :: "lib \<Rightarrow> env \<Rightarrow> lru \<Rightarrow> SignedBlock \<Rightarrow> unit pgo" where
  "SyncAddTxBlock L E C tb =
     (let hd = blk_header tb; bid = RawBlock_Hash L (sb_RawBlock tb) in
     bnd (gets (\<lambda>p. p)) (\<lambda>p.
     seq (reject (rh_Height hd < sp_nextHeight p) ''height'')
    (seq (modify (\<lambda>p. if rh_Height hd \<ge> sp_remoteHeight p then p\<lparr>sp_ready := True\<rparr> else p))
    (if HasTxBlock E bid (sp_ts p) then raiseRemote (rh_Height hd)
     else
       seq (checkBlock L E tb)
      (seq (on_ts (PutTxBlock L E C tb))
      (seq (modify (noteBlock (rh_Height hd) bid (rh_PrevID hd)))
           (raiseRemote (rh_Height hd))))))))"

definition refreshRole :: "lib \<Rightarrow> env \<Rightarrow> unit pgo" where
  "refreshRole L E =
     bnd (gets sp_refresh) (\<lambda>rs. case rs of
       [] \<Rightarrow> ret ()
     | rid # rest \<Rightarrow>
         seq (modify (\<lambda>p. p\<lparr>sp_refresh := rest\<rparr>))
             (dropErr (seq (on_rm (RoleGet L E rid True)) (ret ()))))"

section \<open>Fetching blocks\<close>

definition remoteKey :: "nat \<Rightarrow> key_arg \<Rightarrow> bytes" where
  "remoteKey mt part = NewKey [KString (ascii ''tx''), KInt (int mt), part]"

definition getTxBlockRemote :: "lib \<Rightarrow> env \<Rightarrow> lru \<Rightarrow> MsgID \<Rightarrow> SignedBlock pgo" where
  "getTxBlockRemote L E C bid =
     bnd (orErr ''fetch'' (en_fetch E (remoteKey MT_TX_BlockKey (KString (MsgID_String E bid))))) (\<lambda>res.
     bnd (orErr ''unmarshal'' (decode (en_cSignedBlock E) zero_SignedBlock res)) (\<lambda>tb.
     seq (SyncAddTxBlock L E C tb) (ret tb)))"

definition getTxBlockByHeight :: "lib \<Rightarrow> env \<Rightarrow> lru \<Rightarrow> u64 \<Rightarrow> unit pgo" where
  "getTxBlockByHeight L E C ht =
     bnd (attempt (on_ts (GetTxBlockByHeight L C ht))) (\<lambda>res.
     case (case res of Inr bid \<Rightarrow> Some bid
           | Inl _ \<Rightarrow> Option.bind (en_fetch E (remoteKey MT_Tx_BlockHeightKey (KUint (unat ht)))) (FromBytes (lb_mhDecode L))) of
       None \<Rightarrow> ret ()
     | Some bid \<Rightarrow>
         bnd (gets (\<lambda>p. HasTxBlock E bid (sp_ts p))) (\<lambda>ok.
         if ok then ret () else dropErr (seq (getTxBlockRemote L E C bid) (ret ()))))"

text \<open>The heights from \<open>nextHeight\<close> up to but without \<open>remoteHeight\<close>.\<close>

definition missing :: "SyncPool \<Rightarrow> u64 list" where
  "missing p = map of_nat [unat (sp_nextHeight p)..<unat (sp_remoteHeight p)]"

text \<open>A tick of \<open>receiveBlock\<close>; the fetches, which run in parallel, are made one after another.\<close>

definition receiveTick :: "lib \<Rightarrow> env \<Rightarrow> lru \<Rightarrow> unit pgo" where
  "receiveTick L E C =
     bnd (gets (\<lambda>p. p)) (\<lambda>p.
     if sp_remoteHeight p = sp_nextHeight p then ret ()
     else if sp_remoteHeight p > sp_nextHeight p + 128 then forM (missing p) (getTxBlockByHeight L E C)
     else ret ())"

section \<open>Applying blocks\<close>

text \<open>The states of a block's messages; \<open>sb.Receipts[i]\<close> is out of range when receipts are missing.\<close>

fun recordMsgs :: "lib \<Rightarrow> env \<Rightarrow> MsgID \<Rightarrow> u64 \<Rightarrow> SignedMessage list \<Rightarrow> Receipt list \<Rightarrow> MessageDigest list pgo" where
  "recordMsgs L E bid ht [] rs = ret []"
| "recordMsgs L E bid ht (sm # sms) [] = fail (Panic ''index out of range'')"
| "recordMsgs L E bid ht (sm # sms) (r # rs) =
     (let m = sm_Message sm; mid = Message_Hash L E m in
     seq (dropErr (on_ts (PutTxMsgState L E mid \<lparr>mst_BlockID = bid, mst_Height = ht, mst_Status = r\<rparr>)))
    (bnd (recordMsgs L E bid ht sms rs) (\<lambda>ds.
     ret (\<lparr>md_ID = mid, md_From = msg_From m, md_Nonce = msg_Nonce m\<rparr> # ds))))"

text \<open>The digest of a block goes to the pools that listen.\<close>

definition tellPools :: "blkDigest \<Rightarrow> SyncPool \<Rightarrow> SyncPool" where
  "tellPools d p =
     (let q = (if sp_inPush p then p\<lparr>sp_msgDone := sp_msgDone p @ [d]\<rparr> else p)
      in if sp_inProcess q then q\<lparr>sp_blkDone := sp_blkDone q @ [d]\<rparr> else q)"

text \<open>A block that does not apply is forgotten and the node stops.\<close>

definition processTxBlock :: "lib \<Rightarrow> env \<Rightarrow> SignedBlock \<Rightarrow> unit pgo" where
  "processTxBlock L E sb =
     (let hd = blk_header sb; bid = RawBlock_Hash L (sb_RawBlock sb) in
     bnd (attempt (on_st (ApplyBlock L (Some sb)))) (\<lambda>res. case res of
       Inl _ \<Rightarrow>
         seq (on_ts (DeleteTxBlock E bid))
        (seq (on_ts (DeleteTxBlockHeight (rh_Height hd)))
        (seq (if rh_Height hd > 0 then on_ts (DeleteTxBlockHeight (rh_Height hd - 1)) else ret ())
             (fail (Panic ''check version'')))) 
     | Inr _ \<Rightarrow>
         bnd (recordMsgs L E bid (rh_Height hd) (mset_Msgs (blk_msgset sb)) (mset_Receipts (blk_msgset sb))) (\<lambda>mds.
         modify (tellPools \<lparr>bd_height = rh_Height hd, bd_msgs = mds\<rparr>))))"

text \<open>
  From the end to the beginning, the identifiers that are not known are found through the
  predecessors.  \<open>break\<close> ends the loop, \<open>continue\<close> goes on with the rest.
\<close>

fun chaseBlocks :: "lib \<Rightarrow> env \<Rightarrow> lru \<Rightarrow> u64 list \<Rightarrow> unit pgo" where
  "chaseBlocks L E C [] = ret ()"
| "chaseBlocks L E C (i # is) =
     bnd (gets (\<lambda>p. (sp_blks p i, i > 0 \<and> i > sp_nextHeight p \<and> sp_blks p (i - 1) \<noteq> None))) (\<lambda>(known, skip).
     if known \<noteq> None \<and> skip then chaseBlocks L E C is
     else bnd (case known of Some bid \<Rightarrow> ret (Inr bid) | None \<Rightarrow> attempt (on_ts (GetTxBlockByHeight L C i))) (\<lambda>res.
       case res of
         Inl _ \<Rightarrow> ret ()
       | Inr bid \<Rightarrow>
           bnd (attempt (on_ts (GetTxBlock E C bid))) (\<lambda>got.
           seq (case got of
                  Inl _ \<Rightarrow> dropErr (seq (getTxBlockRemote L E C bid) (ret ()))
                | Inr blk \<Rightarrow> modify (\<lambda>p. p\<lparr>sp_blks :=
                    (let b = (sp_blks p)(rh_Height (blk_header blk) \<mapsto> bid) in
                     if rh_Height (blk_header blk) > 0 then b(rh_Height (blk_header blk) - 1 \<mapsto> rh_PrevID (blk_header blk)) else b)\<rparr>))
               (chaseBlocks L E C is))))"

text \<open>The identifier of a height, noted in \<open>blks\<close> when it comes from the store.\<close>

definition blockAt :: "lib \<Rightarrow> lru \<Rightarrow> u64 \<Rightarrow> MsgID pgo" where
  "blockAt L C i =
     bnd (gets (\<lambda>p. sp_blks p i)) (\<lambda>known. case known of
       Some bid \<Rightarrow> ret bid
     | None \<Rightarrow>
         bnd (on_ts (GetTxBlockByHeight L C i)) (\<lambda>bid.
         seq (modify (\<lambda>p. p\<lparr>sp_blks := (sp_blks p)(i \<mapsto> bid)\<rparr>)) (ret bid)))"

text \<open>
  The blocks that are there are applied in order; the loop stops at the first one that is not,
  or whose height is not the expected one.
\<close>

fun applyBlocks :: "lib \<Rightarrow> env \<Rightarrow> lru \<Rightarrow> u64 list \<Rightarrow> unit pgo" where
  "applyBlocks L E C [] = ret ()"
| "applyBlocks L E C (i # is) =
     bnd (attempt (bnd (blockAt L C i) (\<lambda>bid. on_ts (GetTxBlock E C bid)))) (\<lambda>res. case res of
       Inl _ \<Rightarrow> ret ()
     | Inr sb \<Rightarrow>
         if rh_Height (blk_header sb) \<noteq> i then modify (\<lambda>p. p\<lparr>sp_blks := (sp_blks p)(i := None)\<rparr>)
         else bnd (attempt (processTxBlock L E sb)) (\<lambda>done. case done of
             Inl _ \<Rightarrow> modify (\<lambda>p. p\<lparr>sp_blks := (\<lambda>j. if i \<le> j \<and> j < sp_remoteHeight p then None else sp_blks p j),
                 sp_remoteHeight := i\<rparr>)
           | Inr _ \<Rightarrow>
               seq (modify (\<lambda>p. p\<lparr>sp_blks := (sp_blks p)(i := None), sp_nextHeight := sp_nextHeight p + 1\<rparr>))
                   (applyBlocks L E C is)))"

text \<open>A tick of \<open>handleBlock\<close>.\<close>

definition handleTick :: "lib \<Rightarrow> env \<Rightarrow> lru \<Rightarrow> unit pgo" where
  "handleTick L E C =
     bnd (gets (\<lambda>p. p)) (\<lambda>p.
     if sp_remoteHeight p = sp_nextHeight p then ret ()
     else
       seq (if sp_remoteHeight p - sp_nextHeight p \<le> 128 then chaseBlocks L E C (rev (missing p)) else ret ())
      (seq (bnd (gets missing) (applyBlocks L E C))
           (modify (\<lambda>p. if sp_nextHeight p > sp_remoteHeight p then p\<lparr>sp_remoteHeight := sp_nextHeight p\<rparr> else p))))"

section \<open>Messages and queries\<close>

definition ApiVersion :: int where "ApiVersion = 2"

record SyncInfo =
  syi_Status :: bool
  syi_Version :: int
  syi_SyncedHeight :: u64
  syi_RemoteHeight :: u64

definition SyncGetInfo :: "SyncPool \<Rightarrow> SyncInfo" where
  "SyncGetInfo p = \<lparr>syi_Status = sp_ready p, syi_Version = ApiVersion, syi_SyncedHeight = sp_nextHeight p, syi_RemoteHeight = sp_remoteHeight p\<rparr>"

definition SyncGetTxMsgStatus :: "env \<Rightarrow> MsgID \<Rightarrow> SyncPool \<Rightarrow> MsgState option option" where
  "SyncGetTxMsgStatus E mid p = GetTxMsgState E (ts_ds (sp_ts p)) mid"

definition SyncAddTxMessage :: "lib \<Rightarrow> env \<Rightarrow> lru \<Rightarrow> SignedMessage \<Rightarrow> unit pgo" where
  "SyncAddTxMessage L E C sm =
     (let m = sm_Message sm; mid = Message_Hash L E m in
     bnd (gets (\<lambda>p. (StateGetNonce L (msg_From m) (sp_st p), HasTxMsg E mid (sp_ts p)))) (\<lambda>(nonce, known).
     seq (reject (msg_Nonce m < nonce) ''nonce'')
    (if known then ret ()
     else
       bnd (on_rm (RoleSanityCheck L E sm)) (\<lambda>valid.
       seq (reject (\<not> valid) ''msg is invalid'')
      (bnd (verifyMsg L E sm) (\<lambda>ok.
       seq (reject (\<not> ok) ''tx msg sign invalid'')
           (on_ts (PutTxMsg L E C sm False))))))))"

section \<open>What the operations keep\<close>

lemma keeps_list [keeps_rules]:
  "keeps P m \<Longrightarrow> (\<And>x xs. keeps P (f x xs)) \<Longrightarrow> keeps P (case ys of [] \<Rightarrow> m | x # xs \<Rightarrow> f x xs)"
  by (cases ys) auto

text \<open>
  Receiving, fetching and checking leave the chain and the next height alone and drive the
  role manager and the block store only through their own operations.
\<close>

definition idle :: "lib \<Rightarrow> env \<Rightarrow> lru \<Rightarrow> StateMgr \<Rightarrow> u64 \<Rightarrow> SyncPool \<Rightarrow> bool" where
  "idle L E C s n p \<longleftrightarrow> sp_st p = s \<and> sp_nextHeight p = n \<and> role_reach L (sp_rm p) \<and> ts_reach L E C (sp_ts p)"

lemma idle_rm: "keeps (role_reach L) m \<Longrightarrow> keeps (idle L E C s n) (on_rm m)"
  by (rule keeps_zoom [where Q = "\<lambda>_. role_reach L"]) (auto simp: idle_def)

lemma idle_ts: "keeps (ts_reach L E C) m \<Longrightarrow> keeps (idle L E C s n) (on_ts m)"
  by (rule keeps_zoom [where Q = "\<lambda>_. ts_reach L E C"]) (auto simp: idle_def)

lemma idle_modify:
  "(\<And>p. sp_st (f p) = sp_st p \<and> sp_nextHeight (f p) = sp_nextHeight p \<and> sp_rm (f p) = sp_rm p \<and> sp_ts (f p) = sp_ts p) \<Longrightarrow>
     keeps (idle L E C s n) (modify f)"
  by (rule keeps_modify) (simp add: idle_def)

lemma role_keeps:
  "keeps (role_reach L) (RoleSelf L E)" "keeps (role_reach L) (RoleGet L E i up)"
  "keeps (role_reach L) (RoleSign L E i m ty)" "keeps (role_reach L) (RoleVerify L E i m sig)"
  "keeps (role_reach L) (RoleVerifyMulti L E m msig)" "keeps (role_reach L) (RoleSanityCheck L E sm)"
  by (rule keepsI, erule role_reach.intros)+

lemma ts_keeps:
  "keeps (ts_reach L E C) (GetTxMsg E C mid)" "keeps (ts_reach L E C) (PutTxMsg L E C sm persist)"
  "keeps (ts_reach L E C) (PutTxMsgState L E mid ms)" "keeps (ts_reach L E C) (GetTxBlock E C bid)"
  "keeps (ts_reach L E C) (PutTxBlock L E C tb)" "keeps (ts_reach L E C) (DeleteTxBlock E bid)"
  "keeps (ts_reach L E C) (GetTxBlockByHeight L C ht)" "keeps (ts_reach L E C) (PutTxBlockHeight L C ht bid)"
  "keeps (ts_reach L E C) (DeleteTxBlockHeight ht)"
  by (rule keepsI, erule ts_reach.intros)+

lemmas idle_rules = keeps_rules idle_rm idle_ts idle_modify role_keeps ts_keeps

lemma checkBlock_idle: "keeps (idle L E C s n) (checkBlock L E tb)"
  unfolding checkBlock_def checkMsgs_def verifyMsg_def refreshLater_def
  by (intro idle_rules) simp_all

lemma SyncAddTxBlock_idle: "keeps (idle L E C s n) (SyncAddTxBlock L E C tb)"
  unfolding SyncAddTxBlock_def raiseRemote_def
  by (intro idle_rules checkBlock_idle) (simp_all add: noteBlock_def Let_def)

lemma refreshRole_idle: "keeps (idle L E C s n) (refreshRole L E)"
  unfolding refreshRole_def by (intro idle_rules) simp_all

lemma getTxBlock_idle:
  "keeps (idle L E C s n) (getTxBlockRemote L E C bid)" "keeps (idle L E C s n) (getTxBlockByHeight L E C ht)"
  unfolding getTxBlockByHeight_def getTxBlockRemote_def
  by (intro idle_rules SyncAddTxBlock_idle)+

lemma receiveTick_idle: "keeps (idle L E C s n) (receiveTick L E C)"
  unfolding receiveTick_def by (intro keeps_rules getTxBlock_idle)

lemma chaseBlocks_idle: "keeps (idle L E C s n) (chaseBlocks L E C is)"
proof (induction "is")
  case (Cons i "is")
  show ?case
    unfolding chaseBlocks.simps
    by (intro idle_rules getTxBlock_idle Cons.IH) (simp_all add: Let_def)
qed (simp only: chaseBlocks.simps keeps_ret)

lemma SyncAddTxMessage_idle: "keeps (idle L E C s n) (SyncAddTxMessage L E C sm)"
  unfolding SyncAddTxMessage_def verifyMsg_def by (intro idle_rules)

lemma recordMsgs_idle: "keeps (idle L E C s n) (recordMsgs L E bid ht sms rs)"
  by (induction L E bid ht sms rs rule: recordMsgs.induct) (auto simp only: recordMsgs.simps intro!: idle_rules)

lemma blockAt_idle: "keeps (idle L E C s n) (blockAt L C i)"
  unfolding blockAt_def by (intro idle_rules) simp_all

section \<open>The pool follows the chain\<close>

definition block_step :: "lib \<Rightarrow> StateMgr \<Rightarrow> StateMgr \<Rightarrow> bool" where
  "block_step L s t \<longleftrightarrow> (\<exists>blk r. ApplyBlock L (Some blk) s = (Inr r, t))"

definition synced :: "lib \<Rightarrow> env \<Rightarrow> lru \<Rightarrow> SyncPool \<Rightarrow> bool" where
  "synced L E C p \<longleftrightarrow> reachable L (sp_st p) \<and> idle L E C (sp_st p) (height (sp_st p)) p"

lemma synced_idle:
  assumes "\<And>s n. keeps (idle L E C s n) m" and "synced L E C p" and "m p = (r, q)"
  shows "synced L E C q \<and> sp_st q = sp_st p \<and> sp_nextHeight q = sp_nextHeight p"
proof -
  from assms(2) have "idle L E C (sp_st p) (height (sp_st p)) p" and "reachable L (sp_st p)"
    by (simp_all add: synced_def)
  with keeps_run [OF assms(1) assms(3), of "sp_st p" "height (sp_st p)"] show ?thesis
    by (auto simp: synced_def idle_def)
qed

lemma block_step_height: "block_step L s t \<Longrightarrow> height t = height s + 1"
  using ApplyBlock_effects(2) by (auto simp: block_step_def)

lemma tellPools_fields [simp]:
  "sp_st (tellPools d p) = sp_st p" "sp_nextHeight (tellPools d p) = sp_nextHeight p"
  "sp_rm (tellPools d p) = sp_rm p" "sp_ts (tellPools d p) = sp_ts p"
  by (simp_all add: tellPools_def Let_def)

lemma processTxBlock_Inr:
  assumes "synced L E C p" and "processTxBlock L E sb p = (Inr u, q)"
  shows "reachable L (sp_st q) \<and> idle L E C (sp_st q) (height (sp_st p)) q \<and>
    (\<exists>r. ApplyBlock L (Some sb) (sp_st p) = (Inr r, sp_st q))"
proof -
  from assms(2) obtain r s' mds p' where run: "ApplyBlock L (Some sb) (sp_st p) = (Inr r, s')"
    and rec: "recordMsgs L E (RawBlock_Hash L (sb_RawBlock sb)) (rh_Height (blk_header sb))
        (mset_Msgs (blk_msgset sb)) (mset_Receipts (blk_msgset sb)) (p\<lparr>sp_st := s'\<rparr>) = (Inr mds, p')"
    and q: "q = tellPools \<lparr>bd_height = rh_Height (blk_header sb), bd_msgs = mds\<rparr> p'"
    unfolding processTxBlock_def Let_def bnd_Inr attempt_Inr
    by (cases "fst (ApplyBlock L (Some sb) (sp_st p))") (auto simp: go_simps zoom_def split: prod.splits)
  have "reachable L s'"
    using reachable.apply_block [of L "sp_st p" "Some sb"] run assms(1) by (simp add: synced_def)
  moreover have "idle L E C s' (height (sp_st p)) (p\<lparr>sp_st := s'\<rparr>)"
    using assms(1) by (simp add: synced_def idle_def)
  from keeps_run [OF recordMsgs_idle rec this] have "idle L E C s' (height (sp_st p)) p'" .
  ultimately show ?thesis
    using run q by (simp add: idle_def)
qed

text \<open>A block that does not apply never comes back as an error: the node stops.\<close>

lemma recordMsgs_not_Err: "recordMsgs L E bid ht sms rs p \<noteq> (Inl (Err w), q)"
proof (induction L E bid ht sms rs arbitrary: p rule: recordMsgs.induct)
  case (3 L E bid ht sm sms r rs)
  then show ?case
    by (auto simp: Let_def seq_def bnd_def dropErr_def split: prod.splits sum.splits err.splits)
qed simp_all

lemma processTxBlock_not_Err: "processTxBlock L E sb p \<noteq> (Inl (Err w), q)"
  using recordMsgs_not_Err
  by (auto simp: processTxBlock_def DeleteTxBlock_def DeleteTxBlockHeight_def Let_def seq_def bnd_def attempt_def zoom_def
      split: prod.splits sum.splits err.splits if_splits)

lemma applyBlocks_Inr:
  "applyBlocks L E C is p = (Inr u, q) \<Longrightarrow> synced L E C p \<Longrightarrow>
     synced L E C q \<and> (block_step L)\<^sup>*\<^sup>* (sp_st p) (sp_st q)"
proof (induction "is" arbitrary: p)
  case Nil
  then show ?case by (simp add: go_simps)
next
  case (Cons i "is")
  let ?get = "bnd (blockAt L C i) (\<lambda>bid. on_ts (GetTxBlock E C bid))"
  from Cons.prems(1) obtain res p1 where get: "?get p = (res, p1)" and "\<And>w. res \<noteq> Inl (Panic w)"
    by (auto simp: go_simps)
  have "keeps (idle L E C s n) ?get" for s n
    by (intro idle_rules blockAt_idle)
  from synced_idle [OF this Cons.prems(2) get] have p1: "synced L E C p1" "sp_st p1 = sp_st p"
    by simp_all
  show ?case
  proof (cases "\<exists>sb. res = Inr sb \<and> rh_Height (blk_header sb) = i")
    case False
    with Cons.prems(1) get have "q = p1 \<or> q = p1\<lparr>sp_blks := (sp_blks p1)(i := None)\<rparr>"
      by (cases res) (auto simp: go_simps)
    with p1 show ?thesis
      by (auto simp: synced_def idle_def)
  next
    case True
    then obtain sb where sb: "res = Inr sb" "rh_Height (blk_header sb) = i"
      by blast
    with Cons.prems(1) get obtain dn p2 where proc: "processTxBlock L E sb p1 = (dn, p2)"
      and cont: "(case dn of
         Inl _ \<Rightarrow> modify (\<lambda>p. p\<lparr>sp_blks := (\<lambda>j. if i \<le> j \<and> j < sp_remoteHeight p then None else sp_blks p j),
             sp_remoteHeight := i\<rparr>)
       | Inr _ \<Rightarrow> seq (modify (\<lambda>p. p\<lparr>sp_blks := (sp_blks p)(i := None), sp_nextHeight := sp_nextHeight p + 1\<rparr>))
           (applyBlocks L E C is)) p2 = (Inr u, q)" and np: "\<And>w. dn \<noteq> Inl (Panic w)"
      by (auto simp: go_simps)
    show ?thesis
    proof (cases dn)
      case (Inl e)
      then show ?thesis
        using proc np processTxBlock_not_Err by (metis err.exhaust)
    next
      case (Inr v)
      let ?p3 = "p2\<lparr>sp_blks := (sp_blks p2)(i := None), sp_nextHeight := sp_nextHeight p2 + 1\<rparr>"
      from processTxBlock_Inr [OF p1(1) proc [unfolded Inr]]
      have p2: "reachable L (sp_st p2)" "idle L E C (sp_st p2) (height (sp_st p)) p2" "block_step L (sp_st p) (sp_st p2)"
        using p1(2) by (auto simp: block_step_def)
      then have "synced L E C ?p3"
        using block_step_height [OF p2(3)] by (simp add: synced_def idle_def)
      with Cons.IH [of ?p3] cont Inr p2(3) show ?thesis
        by (auto intro: converse_rtranclp_into_rtranclp)
    qed
  qed
qed

lemma handleTick_Inr:
  assumes "synced L E C p" and "handleTick L E C p = (Inr u, q)"
  shows "synced L E C q \<and> (block_step L)\<^sup>*\<^sup>* (sp_st p) (sp_st q) \<and> sp_nextHeight q \<le> sp_remoteHeight q"
proof (cases "sp_remoteHeight p = sp_nextHeight p")
  case True
  with assms show ?thesis
    by (simp add: handleTick_def go_simps)
next
  case False
  let ?chase = "if sp_remoteHeight p - sp_nextHeight p \<le> 128 then chaseBlocks L E C (rev (missing p)) else ret ()"
  from False assms(2) obtain u1 u2 p1 p2 where run: "?chase p = (Inr u1, p1)"
      "applyBlocks L E C (missing p1) p1 = (Inr u2, p2)"
    and q: "q = (if sp_nextHeight p2 > sp_remoteHeight p2 then p2\<lparr>sp_remoteHeight := sp_nextHeight p2\<rparr> else p2)"
    by (auto simp: handleTick_def go_simps)
  have "keeps (idle L E C s n) ?chase" for s n
    by (intro keeps_rules chaseBlocks_idle)
  from synced_idle [OF this assms(1) run(1)] have p1: "synced L E C p1" "sp_st p1 = sp_st p"
    by simp_all
  from applyBlocks_Inr [OF run(2) p1(1)] p1(2) q show ?thesis
    by (auto simp: synced_def idle_def)
qed

text \<open>
  What a pool does from its start: it receives blocks and messages, fetches, refreshes roles,
  applies blocks (a tick that stops the node is its last), validates proposals for the
  consensus, and is told that the other pools listen.
\<close>

inductive pool_reach :: "lib \<Rightarrow> env \<Rightarrow> lru \<Rightarrow> SyncPool \<Rightarrow> bool" for L E C where
  pool_start: "reachable L st \<Longrightarrow> role_reach L rm \<Longrightarrow> ts_reach L E C ts \<Longrightarrow>
    pool_reach L E C (snd (sp_load (NewSyncPool gid thre st rm ts clk)))"
| pool_block: "pool_reach L E C p \<Longrightarrow> pool_reach L E C (snd (SyncAddTxBlock L E C tb p))"
| pool_message: "pool_reach L E C p \<Longrightarrow> pool_reach L E C (snd (SyncAddTxMessage L E C sm p))"
| pool_refresh: "pool_reach L E C p \<Longrightarrow> pool_reach L E C (snd (refreshRole L E p))"
| pool_receive: "pool_reach L E C p \<Longrightarrow> pool_reach L E C (snd (receiveTick L E C p))"
| pool_handle: "pool_reach L E C p \<Longrightarrow> handleTick L E C p = (Inr u, q) \<Longrightarrow> pool_reach L E C q"
| pool_validate: "pool_reach L E C p \<Longrightarrow> pool_reach L E C (snd (on_st (ValidateBlock L mblk) p))"
| pool_validate_msg: "pool_reach L E C p \<Longrightarrow> pool_reach L E C (snd (on_st (ValidateMsg L mmsg) p))"
| pool_listen: "pool_reach L E C p \<Longrightarrow> pool_reach L E C (p\<lparr>sp_inPush := a, sp_inProcess := b, sp_ready := c\<rparr>)"

lemma validation_height:
  assumes "reachable L s"
  shows "height (snd (ValidateBlock L mblk s)) = height s" "height (snd (ValidateMsg L mmsg s)) = height s"
proof -
  have "tds s = None"
    using reachable_inv [OF assms] by (simp add: mgr_inv_def)
  then have "applied (snd (ValidateBlock L mblk s)) = applied s" "applied (snd (ValidateMsg L mmsg s)) = applied s"
    using keepsD [OF validation.ValidateBlock_frame [of "applied s" L mblk], of s]
      keepsD [OF validation.ValidateMsg_frame [of "applied s" L mmsg], of s] by simp_all
  then show "height (snd (ValidateBlock L mblk s)) = height s" "height (snd (ValidateMsg L mmsg s)) = height s"
    using applied_fields(10) by blast+
qed

lemma synced_validate:
  assumes "synced L E C p" and "\<And>s. reachable L s \<Longrightarrow> reachable L (snd (m s)) \<and> height (snd (m s)) = height s"
  shows "synced L E C (snd (on_st m p))"
  using assms(1) assms(2) [of "sp_st p"] by (cases "m (sp_st p)") (simp add: synced_def idle_def)

lemma pool_reach_synced: "pool_reach L E C p \<Longrightarrow> synced L E C p"
proof (induction rule: pool_reach.induct)
  case (pool_start st rm ts gid thre clk)
  then show ?case
    by (simp add: sp_load_def NewSyncPool_def synced_def idle_def GetHeight_def)
next
  case (pool_handle p u q)
  then show ?case
    using handleTick_Inr by blast
next
  case (pool_listen p a b c)
  then show ?case
    by (simp add: synced_def idle_def)
next
  case (pool_block p tb)
  then show ?case
    using synced_idle [OF SyncAddTxBlock_idle] by (metis prod.collapse)
next
  case (pool_message p sm)
  then show ?case
    using synced_idle [OF SyncAddTxMessage_idle] by (metis prod.collapse)
next
  case (pool_refresh p)
  then show ?case
    using synced_idle [OF refreshRole_idle] by (metis prod.collapse)
next
  case (pool_receive p)
  then show ?case
    using synced_idle [OF receiveTick_idle] by (metis prod.collapse)
qed (rule synced_validate; simp add: reachable.intros validation_height)+

section \<open>Accepted blocks\<close>

lemma checkMsgs_Inr:
  assumes "checkMsgs L E msgs p = (Inr u, q)" and "sm \<in> set msgs"
  shows "\<exists>r r'. RoleVerify L E (msg_From (sm_Message sm)) (Message_Hash L E (sm_Message sm)) (sm_Signature sm) r = (Inr True, r')"
  using assms
proof (induction msgs arbitrary: p)
  case (Cons x xs)
  let ?later = "\<lambda>e. seq (refreshLater (msg_From (sm_Message x))) (fail e) :: unit pgo"
  from Cons.prems(1) obtain res p1 v p2 where x: "attempt (verifyMsg L E x) p = (Inr res, p1)"
    and case_res: "(case res of Inl e \<Rightarrow> ?later e | Inr ok \<Rightarrow> if ok then ret () else ?later (Err ''msg sign is invalid'')) p1 = (Inr v, p2)"
    and rest: "checkMsgs L E xs p2 = (Inr u, q)"
    unfolding checkMsgs_def forM.simps seq_Inr bnd_Inr by blast
  have "res = Inr True"
    using case_res by (cases res) (auto simp: seq_Inr split: if_splits)
  with x have "\<exists>r r'. RoleVerify L E (msg_From (sm_Message x)) (Message_Hash L E (sm_Message x)) (sm_Signature x) r = (Inr True, r')"
    by (auto simp: verifyMsg_def go_simps)
  with Cons.IH [OF rest] Cons.prems(2) show ?case
    by auto
qed simp

lemma checkBlock_Inr:
  assumes "checkBlock L E tb p = (Inr u, q)"
  shows "rh_GroupID (blk_header tb) = sp_groupID p"
    "0 < rh_Height (blk_header tb) \<Longrightarrow> sp_thre p \<le> int (MultiSignature_Len (sb_MultiSignature tb))"
    "\<exists>r r'. RoleVerifyMulti L E (CalcHash L (RawBlock_Hash L (sb_RawBlock tb)) PhaseCommit) (sb_MultiSignature tb) r = (Inr True, r')"
    "\<exists>p' q'. checkMsgs L E (mset_Msgs (blk_msgset tb)) p' = (Inr u, q')"
proof -
  from assms obtain r r' p' where ok: "rh_GroupID (blk_header tb) = sp_groupID p"
    "\<not> (0 < rh_Height (blk_header tb) \<and> int (MultiSignature_Len (sb_MultiSignature tb)) < sp_thre p)"
    "RoleVerifyMulti L E (CalcHash L (RawBlock_Hash L (sb_RawBlock tb)) PhaseCommit) (sb_MultiSignature tb) r = (Inr True, r')"
    "checkMsgs L E (mset_Msgs (blk_msgset tb)) p' = (Inr u, q)"
    unfolding checkBlock_def Let_def bnd_Inr seq_Inr reject_Inr gets_run deref_Inr zoom_Inr by auto
  then show "rh_GroupID (blk_header tb) = sp_groupID p"
    "0 < rh_Height (blk_header tb) \<Longrightarrow> sp_thre p \<le> int (MultiSignature_Len (sb_MultiSignature tb))"
    "\<exists>r r'. RoleVerifyMulti L E (CalcHash L (RawBlock_Hash L (sb_RawBlock tb)) PhaseCommit) (sb_MultiSignature tb) r = (Inr True, r')"
    "\<exists>p' q'. checkMsgs L E (mset_Msgs (blk_msgset tb)) p' = (Inr u, q')"
    by auto
qed

lemma on_rm_ts: "keeps (\<lambda>p. sp_ts p = t) (on_rm m)"
  by (rule keeps_zoom [where Q = "\<lambda>_ _. True"]) (auto simp: keeps_def)

lemma checkBlock_ts: "keeps (\<lambda>p. sp_ts p = t) (checkBlock L E tb)"
  unfolding checkBlock_def checkMsgs_def verifyMsg_def refreshLater_def
  by (intro keeps_rules on_rm_ts) simp_all

lemma SyncAddTxBlock_new:
  assumes "SyncAddTxBlock L E C tb p = (Inr u, q)" and "\<not> HasTxBlock E (RawBlock_Hash L (sb_RawBlock tb)) (sp_ts p)"
  shows "\<exists>p1 p2 n t. checkBlock L E tb p1 = (Inr (), p2) \<and> sp_groupID p1 = sp_groupID p \<and> sp_thre p1 = sp_thre p \<and>
    PutTxBlock L E C tb (sp_ts p) = (Inr n, t) \<and> sp_ts q = t \<and>
    (rh_Height (blk_header tb) < sp_remoteHeight q \<or> sp_remoteHeight q = 0)"
proof -
  let ?p1 = "if rh_Height (blk_header tb) \<ge> sp_remoteHeight p then p\<lparr>sp_ready := True\<rparr> else p"
  from assms obtain p2 n t where one: "checkBlock L E tb ?p1 = (Inr (), p2)"
    and two: "PutTxBlock L E C tb (sp_ts p2) = (Inr n, t)"
    and q: "q = (let p3 = noteBlock (rh_Height (blk_header tb)) (RawBlock_Hash L (sb_RawBlock tb)) (rh_PrevID (blk_header tb)) (p2\<lparr>sp_ts := t\<rparr>)
       in if rh_Height (blk_header tb) \<ge> sp_remoteHeight p3 then p3\<lparr>sp_remoteHeight := rh_Height (blk_header tb) + 1\<rparr> else p3)"
    by (auto simp: SyncAddTxBlock_def raiseRemote_def Let_def go_simps)
  have "sp_ts p2 = sp_ts p"
    using keeps_run [OF checkBlock_ts one, of "sp_ts p"] by simp
  moreover have "sp_ts q = t" "rh_Height (blk_header tb) < sp_remoteHeight q \<or> sp_remoteHeight q = 0"
    unfolding q Let_def noteBlock_def using word_less_inc [of "rh_Height (blk_header tb)"] by auto
  ultimately show ?thesis
    using one two by (intro exI [of _ ?p1] exI) simp
qed

section \<open>Properties\<close>

text \<open>
  C14: whatever a pool receives, fetches and applies, in any order, the next height it wants is the
  height of its chain, and the chain, the roles and the stored blocks are as their own invariants
  say: no role listed twice, no transaction open, every block stored under its own identifier.
\<close>

theorem pool_follows_chain:
  assumes "pool_reach L E C p" and "ts_law E C"
  shows "sp_nextHeight p = height (sp_st p) \<and> distinct (keepers (sp_st p) @ pros (sp_st p) @ users (sp_st p)) \<and>
    tds (sp_st p) = None \<and> rm_ok (sp_rm p) \<and> ts_ok L E (sp_ts p)"
proof -
  have "reachable L (sp_st p)" "sp_nextHeight p = height (sp_st p)" "role_reach L (sp_rm p)" "ts_reach L E C (sp_ts p)"
    using pool_reach_synced [OF assms(1)] by (simp_all add: synced_def idle_def)
  then show ?thesis
    using reachable_inv role_reach_ok ts_reach_ok [OF _ assms(2)] by (simp add: mgr_inv_def roles_ok_def)
qed

text \<open>
  a tick of the synchronisation that does not stop the node moves the chain by accepted
  blocks only, one height each, and leaves no wanted height above the announced one.
\<close>

lemma sync_tick_applies:
  assumes "pool_reach L E C p" and "handleTick L E C p = (Inr u, q)"
  shows "(block_step L)\<^sup>*\<^sup>* (sp_st p) (sp_st q) \<and> sp_nextHeight q = height (sp_st q) \<and>
    sp_nextHeight q \<le> sp_remoteHeight q"
  using handleTick_Inr [OF pool_reach_synced [OF assms(1)] assms(2)] by (auto simp: synced_def idle_def)



section \<open>An example\<close>

text \<open>A pool of one keeper that receives and applies block zero.\<close>

definition ex_pool_env :: env where
  "ex_pool_env = env0\<lparr>en_settleRole := (\<lambda>i. Some (zero_RoleInfo\<lparr>ri_Type := RoleInfo_Keeper, ri_RoleID := i, ri_GroupID := 1,
     ri_ChainVerifyKey := [7], ri_BlsVerifyKey := [8]\<rparr>)), en_cSignedBlock := tab_codec [ex0_block]\<rparr>"

definition ex_pool_rm :: RoleMgr where
  "ex_pool_rm = the (RoleMgr_New ex0_lib ex_pool_env 1 1 (\<lambda>_. None))"

definition ex_pool :: SyncPool where
  "ex_pool = snd (sp_load (NewSyncPool 1 1 ex0_state ex_pool_rm ex_ts0 (\<lambda>_. 0)))"

lemma ex_pool_fields [simp]:
  "sp_st ex_pool = ex0_state" "sp_rm ex_pool = ex_pool_rm" "sp_ts ex_pool = ex_ts0" "sp_nextHeight ex_pool = 0"
  "sp_remoteHeight ex_pool = 0" "sp_groupID ex_pool = 1" "sp_thre ex_pool = 1" "sp_blks ex_pool = (\<lambda>_. None)"
  "sp_inPush ex_pool = False" "sp_inProcess ex_pool = False"
  by (simp_all add: ex_pool_def sp_load_def NewSyncPool_def GetHeight_def)

lemma ex_pool_law: "ts_law ex_pool_env ex_lru"
  by (simp add: ts_law_def lru_law_def ex_lru_def ex_pool_env_def map_le_def)

lemma ex_pool_rm_fields:
  "rm_infos ex_pool_rm = [1 \<mapsto> zero_RoleInfo\<lparr>ri_Type := RoleInfo_Keeper, ri_RoleID := 1, ri_GroupID := 1,
     ri_ChainVerifyKey := [7], ri_BlsVerifyKey := [8]\<rparr>]" "rm_groupID ex_pool_rm = 1" "rm_keepers ex_pool_rm = [1]"
  by (simp_all add: ex_pool_rm_def RoleMgr_New_def ex_pool_env_def addRoleInfo_def list_role_def rm_put_def
      ex0_lib_def ex0_keeper_def zero_RoleInfo_def)

lemma ex_pool_get: "rm_get ex0_lib ex_pool_env 1 ex_pool_rm = (Inr (zero_RoleInfo\<lparr>ri_Type := RoleInfo_Keeper,
     ri_RoleID := 1, ri_GroupID := 1, ri_ChainVerifyKey := [7], ri_BlsVerifyKey := [8]\<rparr>), ex_pool_rm)"
  by (simp add: rm_get_def ex_pool_rm_fields)

lemma ex_pool_reach: "pool_reach ex0_lib ex_pool_env ex_lru ex_pool"
proof -
  have "RoleMgr_New ex0_lib ex_pool_env 1 1 (\<lambda>_. None) = Some ex_pool_rm"
    by (simp add: ex_pool_rm_def RoleMgr_New_def ex_pool_env_def)
  then have "role_reach ex0_lib ex_pool_rm"
    by (rule role_reach.start)
  moreover have "ts_reach ex0_lib ex_pool_env ex_lru ex_ts0"
    unfolding ex_ts0_def by (rule ts_reach.start)
  ultimately show ?thesis
    unfolding ex_pool_def by (intro pool_start ex0_reachable)
qed

lemma ex_pool_fns: "lb_sigVerify ex0_lib = (\<lambda>k m d. Some (d = k))" "en_aggPub ex_pool_env = (\<lambda>ks. Some (concat ks))"
  by (simp_all add: ex0_lib_def ex_pool_env_def)

lemma ex_pool_verify:
  "RoleGet ex0_lib ex_pool_env 1 False ex_pool_rm = (Inr (Some (zero_RoleInfo\<lparr>ri_Type := RoleInfo_Keeper,
     ri_RoleID := 1, ri_GroupID := 1, ri_ChainVerifyKey := [7], ri_BlsVerifyKey := [8]\<rparr>)), ex_pool_rm)"
  "RoleVerify ex0_lib ex_pool_env 1 m \<lparr>sig_Type = SigSecp256k1, sig_Data = [7]\<rparr> ex_pool_rm = (Inr True, ex_pool_rm)"
  "RoleVerifyMulti ex0_lib ex_pool_env m \<lparr>ms_Type = SigBLS, ms_Signer = [], ms_Data = []\<rparr> ex_pool_rm = (Inr True, ex_pool_rm)"
  by (simp_all add: RoleGet_def RoleVerify_def RoleVerifyMulti_def keyTypeOf_def GetPubKey_def ex_pool_get SanityCheck_def
      SigBLS_def SigSecp256k1_def ex_pool_fns)

lemma ex_pool_check: "checkBlock ex0_lib ex_pool_env ex0_block (ex_pool\<lparr>sp_ready := True\<rparr>) = (Inr (), ex_pool\<lparr>sp_ready := True\<rparr>)"
  by (simp add: checkBlock_def Let_def checkMsgs_def verifyMsg_def ex0_block_def ex0_header_def ex_pool_verify zoom_def ex_msg_def)

lemma ex_pool_put: "\<exists>t. PutTxBlock ex0_lib ex_pool_env ex_lru ex0_block ex_ts0 = (Inr 1, t)"
  by (simp add: PutTxBlock_def cacheBlk_def ts_put_def PutTxBlockHeight_def Let_def ex_ts0_def ex_pool_env_def
      ex0_lib_def)

lemma ex_pool_add:
  "\<exists>q. SyncAddTxBlock ex0_lib ex_pool_env ex_lru ex0_block ex_pool = (Inr (), q) \<and> sp_st q = ex0_state \<and>
     sp_nextHeight q = 0 \<and> sp_remoteHeight q = 1 \<and> sp_blks q = [0 \<mapsto> RawBlock_Hash ex0_lib (sb_RawBlock ex0_block)] \<and>
     ts_blkCache (sp_ts q) = [RawBlock_Hash ex0_lib (sb_RawBlock ex0_block) \<mapsto> ex0_block] \<and>
     sp_inPush q = False \<and> sp_inProcess q = False"
proof -
  obtain t where put: "PutTxBlock ex0_lib ex_pool_env ex_lru ex0_block ex_ts0 = (Inr 1, t)"
    using ex_pool_put by blast
  have "rh_Height (blk_header ex0_block) = 0"
    by (simp add: ex0_block_def ex0_header_def)
  moreover have "ts_blkCache t = [RawBlock_Hash ex0_lib (sb_RawBlock ex0_block) \<mapsto> ex0_block]"
    using PutTxBlock_stored [OF ex_pool_law put] by (auto simp: ex_ts0_def ex_lru_def)
  ultimately show ?thesis
    using put ex_pool_check
    by (simp add: SyncAddTxBlock_def Let_def HasTxBlock_def ex_ts0_def noteBlock_def raiseRemote_def)
qed

lemma ex_pool_handle:
  assumes "SyncAddTxBlock ex0_lib ex_pool_env ex_lru ex0_block ex_pool = (Inr (), p)" and "sp_st p = ex0_state"
    and "sp_nextHeight p = 0" and "sp_remoteHeight p = 1"
    and "sp_blks p = [0 \<mapsto> RawBlock_Hash ex0_lib (sb_RawBlock ex0_block)]"
    and "ts_blkCache (sp_ts p) = [RawBlock_Hash ex0_lib (sb_RawBlock ex0_block) \<mapsto> ex0_block]"
  shows "\<exists>q. handleTick ex0_lib ex_pool_env ex_lru p = (Inr (), q)"
proof -
  let ?bid = "RawBlock_Hash ex0_lib (sb_RawBlock ex0_block)" and ?hd = "blk_header ex0_block"
  have h0: "rh_Height ?hd = 0"
    by (simp add: ex0_block_def ex0_header_def)
  have miss: "missing p = [0]" and next_le: "sp_remoteHeight p - sp_nextHeight p \<le> 128"
    using assms(3,4) by (simp_all add: missing_def)
  have get: "GetTxBlock ex_pool_env ex_lru ?bid (sp_ts p) = (Inr ex0_block, sp_ts p)"
    using assms(6) by (simp add: GetTxBlock_def)
  have upd: "p\<lparr>sp_ts := sp_ts p\<rparr> = p" "p\<lparr>sp_blks := sp_blks p\<rparr> = p"
    by simp_all
  have chase: "chaseBlocks ex0_lib ex_pool_env ex_lru [0] p = (Inr (), p)"
    using assms(5) get h0 upd by (simp add: zoom_def Let_def)
  obtain t where run: "ApplyBlock ex0_lib (Some ex0_block) ex0_state = (Inr (root t), t)"
    using ex0_run by blast
  have "\<exists>p'. processTxBlock ex0_lib ex_pool_env ex0_block p = (Inr (), p')"
    using run assms(2)
    by (simp add: processTxBlock_def Let_def zoom_def ex0_block_def PutTxMsgState_def ex_pool_env_def dropErr_def)
  then obtain p' where proc: "processTxBlock ex0_lib ex_pool_env ex0_block p = (Inr (), p')" ..
  have "\<exists>q. applyBlocks ex0_lib ex_pool_env ex_lru [0] p = (Inr (), q)"
    using proc assms(5) get h0 upd by (simp add: blockAt_def zoom_def)
  then show ?thesis
    using chase miss next_le assms(3,4) by (auto simp: handleTick_def)
qed

theorem pool_follows_chain_witness:
  "\<exists>q. SyncAddTxBlock ex0_lib ex_pool_env ex_lru ex0_block ex_pool = (Inr (), q) \<and>
     sp_nextHeight q = height (sp_st q) \<and> ts_ok ex0_lib ex_pool_env (sp_ts q)"
proof -
  obtain q where q: "SyncAddTxBlock ex0_lib ex_pool_env ex_lru ex0_block ex_pool = (Inr (), q)"
    using ex_pool_add by blast
  have "pool_reach ex0_lib ex_pool_env ex_lru q"
    using pool_block [OF ex_pool_reach, of ex0_block] q by simp
  from pool_follows_chain [OF this ex_pool_law] q show ?thesis
    by blast
qed



end
