(* ===== verification/InPool.thy ===== *)
theory InPool
  imports SyncPool
begin

text \<open>
  The pool of a keeper, \<open>submodule/txPool/process.go\<close>: it collects the messages it receives, and
  makes, checks and delivers blocks for the consensus (\<open>bcommon.ConsensusApp\<close>).

  The order in which Go ranges over \<open>mp.pending\<close> is the argument \<open>order\<close>.
\<close>

record msgSet =
  ms_nextDelete :: u64
  ms_info :: "u64 \<Rightarrow> SignedMessage option"

record InPool =
  ip_sync :: SyncPool
  ip_minerID :: u64
  ip_pending :: "u64 \<Rightarrow> msgSet option"

type_synonym 'a igo = "(InPool, 'a) go"

abbreviation on_pool :: "'a pgo \<Rightarrow> 'a igo" where
  "on_pool m \<equiv> zoom ip_sync (\<lambda>x p. p\<lparr>ip_sync := x\<rparr>) m"

definition NewInPool :: "u64 \<Rightarrow> SyncPool \<Rightarrow> InPool" where
  "NewInPool localID sp = \<lparr>ip_sync = sp, ip_minerID = localID, ip_pending = (\<lambda>_. None)\<rparr>"

section \<open>Receiving\<close>

definition addMsg :: "lib \<Rightarrow> SignedMessage \<Rightarrow> InPool \<Rightarrow> InPool" where
  "addMsg L sm p =
     (let m = sm_Message sm;
          ms = (case ip_pending p (msg_From m) of Some ms \<Rightarrow> ms
            | None \<Rightarrow> \<lparr>ms_nextDelete = StateGetNonce L (msg_From m) (sp_st (ip_sync p)), ms_info = (\<lambda>_. None)\<rparr>);
          ms' = (if ms_nextDelete ms \<le> msg_Nonce m then ms\<lparr>ms_info := (ms_info ms)(msg_Nonce m \<mapsto> sm)\<rparr> else ms)
      in p\<lparr>ip_pending := (ip_pending p)(msg_From m \<mapsto> ms')\<rparr>)"

definition processMsg :: "lib \<Rightarrow> unit igo" where
  "processMsg L =
     bnd (gets (\<lambda>p. sp_msgChan (ip_sync p))) (\<lambda>ch. case ch of
       [] \<Rightarrow> ret ()
     | sm # rest \<Rightarrow>
         seq (modify (\<lambda>p. p\<lparr>ip_sync := (ip_sync p)\<lparr>sp_msgChan := rest\<rparr>\<rparr>))
             (modify (addMsg L sm)))"

definition delMsg :: "MessageDigest \<Rightarrow> (u64 \<Rightarrow> msgSet option) \<Rightarrow> (u64 \<Rightarrow> msgSet option)" where
  "delMsg md pend = (case pend (md_From md) of
      None \<Rightarrow> pend
    | Some ms \<Rightarrow> pend(md_From md \<mapsto> ms\<lparr>ms_nextDelete := md_Nonce md + 1, ms_info := (ms_info ms)(md_Nonce md := None)\<rparr>))"

definition processBlk :: "unit igo" where
  "processBlk =
     bnd (gets (\<lambda>p. sp_blkDone (ip_sync p))) (\<lambda>ch. case ch of
       [] \<Rightarrow> ret ()
     | bh # rest \<Rightarrow>
         seq (modify (\<lambda>p. p\<lparr>ip_sync := (ip_sync p)\<lparr>sp_blkDone := rest\<rparr>\<rparr>))
             (modify (\<lambda>p. p\<lparr>ip_pending := fold delMsg (bd_msgs bh) (ip_pending p)\<rparr>)))"

definition InPool_SyncAddTxMessage :: "lib \<Rightarrow> env \<Rightarrow> lru \<Rightarrow> SignedMessage \<Rightarrow> unit igo" where
  "InPool_SyncAddTxMessage L E C sm =
     seq (on_pool (SyncAddTxMessage L E C sm))
         (on_pool (modify (\<lambda>s. s\<lparr>sp_msgChan := sp_msgChan s @ [sm]\<rparr>)))"

section \<open>Committee\<close>

definition GetMembers :: "InPool \<Rightarrow> u64 list" where
  "GetMembers p = StateGetAllKeepers (sp_st (ip_sync p))"

definition GetLeader :: "u64 \<Rightarrow> InPool \<Rightarrow> u64" where
  "GetLeader sl p =
     (let mems = GetMembers p in
      if mems = [] then ip_minerID p else mems ! unat (sl mod of_nat (length mems)))"

definition GetQuorumSize :: "InPool \<Rightarrow> int" where
  "GetQuorumSize p = StateGetThreshold (sp_st (ip_sync p))"

section \<open>Making a block\<close>

definition CreateBlockHeader :: "u64 \<Rightarrow> RawHeader igo" where
  "CreateBlockHeader sl =
     bnd (gets (\<lambda>p. p)) (\<lambda>p.
     let si = SyncGetInfo (ip_sync p); sgi = StateGetInfo (sp_st (ip_sync p)) in
     seq (reject (syi_SyncedHeight si < syi_RemoteHeight si) ''sync height'')
    (seq (reject (si_Height sgi \<noteq> syi_SyncedHeight si) ''create block state height is not equal'')
    (seq (reject (si_Slot sgi \<ge> sl) ''create new block time is not up'')
         (ret \<lparr>rh_Version = si_Version sgi, rh_GroupID = sp_groupID (ip_sync p), rh_Height = si_Height sgi,
               rh_Slot = sl, rh_MinerID = GetLeader sl p, rh_PrevID = si_BlockID sgi\<rparr>))))"

text \<open>\<open>ValidateMsg\<close> returns the validated root with an error too.\<close>

definition tryMsg :: "lib \<Rightarrow> Message \<Rightarrow> ((err + MsgID) \<times> MsgID) pgo" where
  "tryMsg L m =
     bnd (attempt (on_st (ValidateMsg L (Some m)))) (\<lambda>res.
     bnd (gets (\<lambda>p. validateRoot (sp_st p))) (\<lambda>r. ret (res, r)))"

text \<open>A message and its receipt are appended to the set.\<close>

definition add_msg :: "env \<Rightarrow> SignedMessage \<Rightarrow> err + MsgID \<Rightarrow> MsgID \<Rightarrow> MsgSet \<Rightarrow> MsgSet" where
  "add_msg E sm res r mset = mset\<lparr>mset_Root := r, mset_Msgs := mset_Msgs mset @ [sm],
     mset_Receipts := mset_Receipts mset @ [case res of
        Inl e \<Rightarrow> \<lparr>rcpt_Err = 1, rcpt_Extra = en_errText E e\<rparr> | Inr _ \<Rightarrow> \<lparr>rcpt_Err = 0, rcpt_Extra = []\<rparr>]\<rparr>"

text \<open>
  Block zero takes the registrations of keepers, counting those that succeed.  The loop over
  the nonces ends at the first one that is missing; the model ends it at the largest as well,
  where the code wraps around.
\<close>

function proposeZero :: "lib \<Rightarrow> env \<Rightarrow> msgSet \<Rightarrow> u64 \<Rightarrow> MsgSet \<times> nat \<Rightarrow> (MsgSet \<times> nat) pgo" where
  "proposeZero L E ms i (mset, cnt) = (case ms_info ms i of
      None \<Rightarrow> ret (mset, cnt)
    | Some sm \<Rightarrow>
        if msg_Method (sm_Message sm) \<noteq> AddRole then ret (mset, cnt)
        else bnd (attempt (on_rm (RoleGet L E (msg_From (sm_Message sm)) False))) (\<lambda>got. case got of
            Inl _ \<Rightarrow> ret (mset, cnt)
          | Inr mri \<Rightarrow>
              bnd (deref ''nil role info'' mri) (\<lambda>ri.
              if ri_Type ri \<noteq> RoleInfo_Keeper then ret (mset, cnt)
              else bnd (tryMsg L (sm_Message sm)) (\<lambda>(res, r).
                let acc = (add_msg E sm res r mset, case res of Inl _ \<Rightarrow> cnt | Inr _ \<Rightarrow> Suc cnt) in
                if i + 1 = 0 then ret acc else proposeZero L E ms (i + 1) acc))))"
  by pat_completeness auto
termination
  by (relation "measure (\<lambda>(L, E, ms, i, acc). 2 ^ 64 - unat i)")
    (auto simp: unat_word_ariths intro!: diff_less_mono2 dest!: word_less_inc simp: word_less_nat_alt)

text \<open>
  Later blocks take messages until they hold a million bytes or ten seconds have passed since
  \<open>nt\<close>; \<open>rLen\<close> counts the bytes.
\<close>

definition maxLen :: nat where "maxLen = 1000000"

definition msgLen :: "SignedMessage \<Rightarrow> nat" where
  "msgLen sm = 128 + length (sig_Data (sm_Signature sm)) + length (msg_Params (sm_Message sm))"

definition errLen :: "env \<Rightarrow> err + MsgID \<Rightarrow> nat" where
  "errLen E res = (case res of Inl e \<Rightarrow> length (en_errText E e) | Inr _ \<Rightarrow> 0)"

function proposeFrom :: "lib \<Rightarrow> env \<Rightarrow> int \<Rightarrow> msgSet \<Rightarrow> u64 \<Rightarrow> MsgSet \<times> nat \<Rightarrow> (MsgSet \<times> nat) pgo" where
  "proposeFrom L E nt ms i (mset, rLen) = (case ms_info ms i of
      None \<Rightarrow> ret (mset, rLen)
    | Some sm \<Rightarrow>
        if rLen + length (msg_Params (sm_Message sm)) > maxLen then ret (mset, rLen)
        else bnd (tryMsg L (sm_Message sm)) (\<lambda>(res, r).
          bnd timeNow (\<lambda>now.
          if now - nt > 10 * Second then ret (add_msg E sm res r mset, rLen + errLen E res + msgLen sm)
          else proposeFrom L E nt ms (i + 1) (add_msg E sm res r mset, rLen + errLen E res + msgLen sm))))"
  by pat_completeness auto
termination
  by (relation "measure (\<lambda>(L, E, nt, ms, i, mset, rLen). Suc maxLen - rLen)") (auto simp: msgLen_def)

fun proposeAll :: "lib \<Rightarrow> env \<Rightarrow> int \<Rightarrow> (u64 \<Rightarrow> msgSet option) \<Rightarrow> u64 list \<Rightarrow> MsgSet \<times> nat \<Rightarrow> (MsgSet \<times> nat) pgo" where
  "proposeAll L E nt pend [] acc = ret acc"
| "proposeAll L E nt pend (from # froms) acc = (case pend from of
      None \<Rightarrow> proposeAll L E nt pend froms acc
    | Some ms \<Rightarrow>
        bnd (gets (\<lambda>p. StateGetNonce L from (sp_st p))) (\<lambda>nc.
        bnd (proposeFrom L E nt ms nc acc) (\<lambda>acc'.
        if snd acc' > maxLen then ret acc'
        else bnd timeNow (\<lambda>now.
          if now - nt > 10 * Second then ret acc' else proposeAll L E nt pend froms acc'))))"

fun proposeZeroAll :: "lib \<Rightarrow> env \<Rightarrow> (u64 \<Rightarrow> msgSet option) \<Rightarrow> u64 list \<Rightarrow> MsgSet \<times> nat \<Rightarrow> (MsgSet \<times> nat) pgo" where
  "proposeZeroAll L E pend [] acc = ret acc"
| "proposeZeroAll L E pend (from # froms) acc = (case pend from of
      None \<Rightarrow> proposeZeroAll L E pend froms acc
    | Some ms \<Rightarrow>
        bnd (gets (\<lambda>p. StateGetNonce L from (sp_st p))) (\<lambda>nc.
        bnd (proposeZero L E ms nc acc) (proposeZeroAll L E pend froms)))"

definition header_block :: "RawHeader \<Rightarrow> MsgSet \<Rightarrow> SignedBlock" where
  "header_block rh mset = zero_SignedBlock\<lparr>sb_RawBlock := \<lparr>rb_RawHeader = rh, rb_MsgSet = mset\<rparr>\<rparr>"

definition zero_MsgSet :: MsgSet where
  "zero_MsgSet = rb_MsgSet (sb_RawBlock zero_SignedBlock)"

definition proposeMsgs :: "lib \<Rightarrow> env \<Rightarrow> (u64 \<Rightarrow> msgSet option) \<Rightarrow> u64 list \<Rightarrow> int \<Rightarrow> u64 \<Rightarrow> MsgSet \<Rightarrow> MsgSet pgo" where
  "proposeMsgs L E pend order nt ht mset =
     (if ht = 0 then
        bnd (proposeZeroAll L E pend order (mset, 0)) (\<lambda>(mset', cnt).
        bnd (gets (\<lambda>s. StateGetThreshold (sp_st s))) (\<lambda>quorum.
        seq (reject (int cnt < quorum) ''not have enough keepers'') (ret mset')))
      else
        bnd (proposeAll L E nt pend order (mset, 0)) (\<lambda>(mset', rLen). ret mset'))"

definition Propose :: "lib \<Rightarrow> env \<Rightarrow> u64 list \<Rightarrow> RawHeader \<Rightarrow> MsgSet igo" where
  "Propose L E order rh =
     bnd (gets (\<lambda>p. p)) (\<lambda>p.
     on_pool
      (bnd timeNow (\<lambda>nt.
       bnd (on_st (ValidateBlock L None)) (\<lambda>oldRoot.
       bnd (on_st (ValidateBlock L (Some (header_block rh zero_MsgSet)))) (\<lambda>newRoot.
       proposeMsgs L E (ip_pending p) order nt (rh_Height rh)
         (zero_MsgSet\<lparr>mset_ParentRoot := oldRoot, mset_Root := newRoot\<rparr>))))))"

section \<open>Checking and delivering a block\<close>

text \<open>\<open>sb.Receipts[i]\<close> is out of range when receipts are missing.\<close>

fun checkProposed :: "lib \<Rightarrow> env \<Rightarrow> SignedMessage list \<Rightarrow> Receipt list \<Rightarrow> MsgID \<Rightarrow> MsgID pgo" where
  "checkProposed L E [] rs rt = ret rt"
| "checkProposed L E (sm # sms) rs rt =
     bnd (verifyMsg L E sm) (\<lambda>ok.
     seq (reject (\<not> ok) ''invalid sign'')
    (bnd (tryMsg L (sm_Message sm)) (\<lambda>(res, r).
     case rs of [] \<Rightarrow> fail (Panic ''index out of range'')
     | rc # rcs \<Rightarrow>
         seq (case res of
                Inl _ \<Rightarrow> reject (rcpt_Err rc = 0) ''fail to validate message, should be right''
              | Inr _ \<Rightarrow> reject (rcpt_Err rc \<noteq> 0) ''fail to validate message, should be wrong'')
             (checkProposed L E sms rcs r))))"

definition OnPropose :: "lib \<Rightarrow> env \<Rightarrow> SignedBlock \<Rightarrow> unit igo" where
  "OnPropose L E sb = on_pool
     (bnd (on_st (ValidateBlock L None)) (\<lambda>oRoot.
      seq (reject (oRoot \<noteq> mset_ParentRoot (blk_msgset sb)) ''OnPropose wrong state'')
     (bnd (on_st (ValidateBlock L (Some sb))) (\<lambda>newRoot.
      bnd (checkProposed L E (mset_Msgs (blk_msgset sb)) (mset_Receipts (blk_msgset sb)) newRoot) (\<lambda>rt.
      reject (rt \<noteq> mset_Root (blk_msgset sb)) ''OnPropose has wrong state'')))))"

definition PublishTxBlock :: "env \<Rightarrow> SignedBlock \<Rightarrow> unit pgo" where
  "PublishTxBlock E tb = seq (modify (\<lambda>p. p\<lparr>sp_pubBlks := sp_pubBlks p @ [tb]\<rparr>)) (reject (en_pubBlkFail E tb) ''publish'')"

definition OnViewDone :: "lib \<Rightarrow> env \<Rightarrow> lru \<Rightarrow> SignedBlock \<Rightarrow> unit igo" where
  "OnViewDone L E C tb = on_pool (seq (SyncAddTxBlock L E C tb) (PublishTxBlock E tb))"

section \<open>Starting\<close>

text \<open>The stored block of a height, if there is one.\<close>

definition storedBlock :: "lib \<Rightarrow> env \<Rightarrow> lru \<Rightarrow> u64 \<Rightarrow> SignedBlock option igo" where
  "storedBlock L E C ht =
     bnd (attempt (on_pool (on_ts (bnd (GetTxBlockByHeight L C ht) (GetTxBlock E C))))) (\<lambda>res.
     ret (case res of Inl _ \<Rightarrow> None | Inr sb \<Rightarrow> Some sb))"

definition redeliver :: "lib \<Rightarrow> env \<Rightarrow> lru \<Rightarrow> u64 \<Rightarrow> unit igo" where
  "redeliver L E C ht =
     bnd (storedBlock L E C ht) (\<lambda>msb. case msb of
       None \<Rightarrow> ret () | Some sb \<Rightarrow> dropErr (OnViewDone L E C sb))"

definition InPool_Start :: "lib \<Rightarrow> env \<Rightarrow> lru \<Rightarrow> unit igo" where
  "InPool_Start L E C =
     bnd (gets (\<lambda>p. syi_SyncedHeight (SyncGetInfo (ip_sync p)))) (\<lambda>ht.
     seq (if ht > 0 then redeliver L E C (ht - 1) else ret ())
         (redeliver L E C ht))"

text \<open>A round of the wait for the synchronisation; the result says whether the wait is over.\<close>

definition startWait :: "nat \<Rightarrow> bool igo" where
  "startWait retry =
     bnd (gets (\<lambda>p. SyncGetInfo (ip_sync p))) (\<lambda>si.
     if syi_SyncedHeight si = syi_RemoteHeight si \<and> syi_Status si
     then seq (on_pool (modify (\<lambda>s. s\<lparr>sp_inProcess := True\<rparr>))) (ret True)
     else if retry > 10 then seq (on_pool (modify (\<lambda>s. s\<lparr>sp_ready := True, sp_inProcess := True\<rparr>))) (ret True)
     else ret False)"

text \<open>A tick of \<open>rebroadcast\<close>: \<open>si\<close> is what it saw last.\<close>

definition rebroadcastTick :: "lib \<Rightarrow> env \<Rightarrow> lru \<Rightarrow> SyncInfo \<Rightarrow> SyncInfo igo" where
  "rebroadcastTick L E C si =
     bnd (gets (\<lambda>p. SyncGetInfo (ip_sync p))) (\<lambda>nsi.
     if syi_RemoteHeight nsi = syi_SyncedHeight nsi \<and> syi_SyncedHeight nsi = syi_SyncedHeight si \<and> syi_SyncedHeight si > 0 then
       bnd (storedBlock L E C (syi_SyncedHeight si - 1)) (\<lambda>msb.
       seq (case msb of None \<Rightarrow> ret () | Some sb \<Rightarrow> dropErr (on_pool (PublishTxBlock E sb))) (ret si))
     else ret nsi)"

section \<open>What is proposed validates\<close>

lemma tryMsg_Inr:
  "tryMsg L m p = (Inr (res, r), q) \<longleftrightarrow>
     (\<exists>s. ValidateMsg L (Some m) (sp_st p) = (res, s) \<and> (\<forall>w. res \<noteq> Inl (Panic w)) \<and> r = validateRoot s \<and> q = p\<lparr>sp_st := s\<rparr>)"
  by (cases "ValidateMsg L (Some m) (sp_st p)") (auto simp: tryMsg_def attempt_def zoom_def bnd_def split: sum.splits err.splits)

text \<open>The receipts say how the messages validate, one after the other, from \<open>s\<close> to \<open>t\<close>.\<close>

fun validated :: "lib \<Rightarrow> SignedMessage list \<Rightarrow> Receipt list \<Rightarrow> StateMgr \<Rightarrow> StateMgr \<Rightarrow> bool" where
  "validated L [] [] s t \<longleftrightarrow> t = s"
| "validated L (sm # sms) (rc # rcs) s t \<longleftrightarrow> (case ValidateMsg L (Some (sm_Message sm)) s of (res, s1) \<Rightarrow>
     (\<forall>w. res \<noteq> Inl (Panic w)) \<and> (rcpt_Err rc = 0 \<longleftrightarrow> isl res = False) \<and> validated L sms rcs s1 t)"
| "validated L sms rcs s t \<longleftrightarrow> False"

lemma validated_snoc:
  "validated L sms rcs s t \<Longrightarrow> ValidateMsg L (Some (sm_Message sm)) t = (res, t') \<Longrightarrow> (\<And>w. res \<noteq> Inl (Panic w)) \<Longrightarrow>
     (rcpt_Err rc = 0 \<longleftrightarrow> \<not> isl res) \<Longrightarrow> validated L (sms @ [sm]) (rcs @ [rc]) s t'"
  by (induction L sms rcs s t rule: validated.induct) (auto split: prod.splits)

definition acc_ok :: "lib \<Rightarrow> StateMgr \<Rightarrow> MsgID \<Rightarrow> MsgSet \<Rightarrow> StateMgr \<Rightarrow> bool" where
  "acc_ok L s0 parent mset s \<longleftrightarrow> validated L (mset_Msgs mset) (mset_Receipts mset) s0 s \<and>
     mset_Root mset = validateRoot s \<and> mset_ParentRoot mset = parent"

lemma acc_ok_add:
  assumes "acc_ok L s0 parent mset s" and "ValidateMsg L (Some (sm_Message sm)) s = (res, t)" and "\<And>w. res \<noteq> Inl (Panic w)"
  shows "acc_ok L s0 parent (add_msg E sm res (validateRoot t) mset) t"
  using assms(1) validated_snoc [OF _ assms(2,3)] by (cases res) (simp_all add: acc_ok_def add_msg_def)

text \<open>What holds at the start and is kept by every message that is added holds at the end.\<close>

lemma proposeFrom_inv:
  assumes step: "\<And>i mset n sm res s t. R i mset n s \<Longrightarrow> ms_info ms i = Some sm \<Longrightarrow>
      n + length (msg_Params (sm_Message sm)) \<le> maxLen \<Longrightarrow> ValidateMsg L (Some (sm_Message sm)) s = (res, t) \<Longrightarrow>
      (\<And>w. res \<noteq> Inl (Panic w)) \<Longrightarrow> R (i + 1) (add_msg E sm res (validateRoot t) mset) (n + errLen E res + msgLen sm) t"
  shows "proposeFrom L E nt ms i acc p = (Inr (mset', n'), q) \<Longrightarrow> R i (fst acc) (snd acc) (sp_st p) \<Longrightarrow> \<exists>j. R j mset' n' (sp_st q)"
  using step
proof (induction L E nt ms i acc arbitrary: p rule: proposeFrom.induct)
  case (1 L E nt ms i mset rLen)
  show ?case
  proof (cases "ms_info ms i")
    case None
    with 1(2,3) show ?thesis
      by (auto simp: go_simps)
  next
    case (Some sm)
    show ?thesis
    proof (cases "rLen + length (msg_Params (sm_Message sm)) > maxLen")
      case True
      with 1(2,3) Some show ?thesis
        by (auto simp: go_simps)
    next
      case False
      let ?n = "\<lambda>res. rLen + errLen E res + msgLen sm"
      from False 1(2) Some obtain res r p1 now p2 where tr: "tryMsg L (sm_Message sm) p = (Inr (res, r), p1)"
        and now: "timeNow p1 = (Inr now, p2)"
        and rest: "(if now - nt > 10 * Second then ret (add_msg E sm res r mset, ?n res)
          else proposeFrom L E nt ms (i + 1) (add_msg E sm res r mset, ?n res)) p2 = (Inr (mset', n'), q)"
        by (auto simp: bnd_Inr)
      from tr obtain s where s: "ValidateMsg L (Some (sm_Message sm)) (sp_st p) = (res, s)" "\<And>w. res \<noteq> Inl (Panic w)"
        "r = validateRoot s" "sp_st p1 = s"
        by (auto simp: tryMsg_Inr)
      have "sp_st p2 = s"
        using now s(4) by (auto simp: timeNow_def)
      moreover have "R (i + 1) (add_msg E sm res r mset) (?n res) s"
        using 1(4) [OF _ Some _ s(1,2)] 1(3) False s(3) by auto
      ultimately show ?thesis
        using rest 1(1) [OF Some False, where p = p2] 1(4) by (auto simp: go_simps split: if_splits)
    qed
  qed
qed

text \<open>The same for block zero.\<close>

lemma proposeZero_inv:
  assumes step: "\<And>i mset n sm res s t. R i mset s \<Longrightarrow> ms_info ms i = Some sm \<Longrightarrow>
      ValidateMsg L (Some (sm_Message sm)) s = (res, t) \<Longrightarrow>
      (\<And>w. res \<noteq> Inl (Panic w)) \<Longrightarrow> R (i + 1) (add_msg E sm res (validateRoot t) mset) t"
  shows "proposeZero L E ms i acc p = (Inr (mset', n'), q) \<Longrightarrow> R i (fst acc) (sp_st p) \<Longrightarrow> \<exists>j. R j mset' (sp_st q)"
  using step
proof (induction L E ms i acc arbitrary: p rule: proposeZero.induct)
  case (1 L E ms i mset cnt)
  show ?case
  proof (cases "ms_info ms i")
    case None
    with 1(2,3) show ?thesis
      by (auto simp: go_simps)
  next
    case (Some sm)
    show ?thesis
    proof (cases "msg_Method (sm_Message sm) = AddRole")
      case False
      with 1(2,3) Some show ?thesis
        by (auto simp: go_simps)
    next
      case True
      let ?get = "on_rm (RoleGet L E (msg_From (sm_Message sm)) False)"
      from True 1(2) Some obtain got p1 where get: "?get p = (got, p1)"
        and rest: "(case got of Inl _ \<Rightarrow> ret (mset, cnt) | Inr mri \<Rightarrow>
           bnd (deref ''nil role info'' mri) (\<lambda>ri. if ri_Type ri \<noteq> RoleInfo_Keeper then ret (mset, cnt)
             else bnd (tryMsg L (sm_Message sm)) (\<lambda>(res, r).
                let acc = (add_msg E sm res r mset, case res of Inl _ \<Rightarrow> cnt | Inr _ \<Rightarrow> Suc cnt) in
                if i + 1 = 0 then ret acc else proposeZero L E ms (i + 1) acc))) p1 = (Inr (mset', n'), q)"
        by (auto simp: bnd_Inr attempt_Inr)
      have st1: "sp_st p1 = sp_st p"
        using get by (auto simp: zoom_def split: prod.splits)
      show ?thesis
      proof (cases "\<exists>ri. got = Inr (Some ri) \<and> ri_Type ri = RoleInfo_Keeper")
        case False
        with rest 1(3) st1 show ?thesis
          by (cases got) (auto simp: go_simps split: if_splits)
      next
        case keeper: True
        then obtain ri where ri: "got = Inr (Some ri)" "ri_Type ri = RoleInfo_Keeper"
          by blast
        let ?acc = "\<lambda>res r. (add_msg E sm res r mset, case res of Inl _ \<Rightarrow> cnt | Inr _ \<Rightarrow> Suc cnt)"
        from rest ri obtain res r p2 where tr: "tryMsg L (sm_Message sm) p1 = (Inr (res, r), p2)"
          and cont: "(if i + 1 = 0 then ret (?acc res r) else proposeZero L E ms (i + 1) (?acc res r)) p2 = (Inr (mset', n'), q)"
          by (auto simp: bnd_Inr Let_def)
        from tr st1 obtain s where s: "ValidateMsg L (Some (sm_Message sm)) (sp_st p) = (res, s)" "\<And>w. res \<noteq> Inl (Panic w)"
          "r = validateRoot s" "sp_st p2 = s"
          by (auto simp: tryMsg_Inr)
        have "R (i + 1) (fst (?acc res r)) (sp_st p2)"
          using 1(4) [OF _ Some s(1,2)] 1(3) s(3,4) by auto
        with cont 1(1) [OF Some _ _ refl, where p = p2] True ri(2) 1(4) show ?thesis
          by (cases "i + 1 = 0") (auto simp: go_simps)
      qed
    qed
  qed
qed

lemma proposeAll_inv:
  assumes step: "\<And>mset n sm res s t. R mset n s \<Longrightarrow> n + length (msg_Params (sm_Message sm)) \<le> maxLen \<Longrightarrow>
      ValidateMsg L (Some (sm_Message sm)) s = (res, t) \<Longrightarrow> (\<And>w. res \<noteq> Inl (Panic w)) \<Longrightarrow>
      R (add_msg E sm res (validateRoot t) mset) (n + errLen E res + msgLen sm) t"
  shows "proposeAll L E nt pend froms acc p = (Inr (mset', n'), q) \<Longrightarrow> R (fst acc) (snd acc) (sp_st p) \<Longrightarrow> R mset' n' (sp_st q)"
proof (induction froms arbitrary: acc p)
  case (Cons "from" froms)
  show ?case
  proof (cases "pend from")
    case (Some ms)
    with Cons.prems(1) obtain m1 n1 p1 where one: "proposeFrom L E nt ms (StateGetNonce L from (sp_st p)) acc p = (Inr (m1, n1), p1)"
      and rest: "(if n1 > maxLen then ret (m1, n1) else bnd timeNow (\<lambda>now.
          if now - nt > 10 * Second then ret (m1, n1) else proposeAll L E nt pend froms (m1, n1))) p1 = (Inr (mset', n'), q)"
      by (auto simp: bnd_Inr)
    have "R m1 n1 (sp_st p1)"
      using proposeFrom_inv [where R = "\<lambda>i. R", OF _ one Cons.prems(2)] step by auto
    with rest Cons.IH [of "(m1, n1)"] show ?thesis
      by (auto simp: go_simps timeNow_def split: if_splits)
  qed (use Cons in auto)
qed (simp add: go_simps)

lemma proposeZeroAll_inv:
  assumes step: "\<And>mset sm res s t. R mset s \<Longrightarrow> ValidateMsg L (Some (sm_Message sm)) s = (res, t) \<Longrightarrow>
      (\<And>w. res \<noteq> Inl (Panic w)) \<Longrightarrow> R (add_msg E sm res (validateRoot t) mset) t"
  shows "proposeZeroAll L E pend froms acc p = (Inr (mset', n'), q) \<Longrightarrow> R (fst acc) (sp_st p) \<Longrightarrow> R mset' (sp_st q)"
proof (induction froms arbitrary: acc p)
  case (Cons "from" froms)
  show ?case
  proof (cases "pend from")
    case (Some ms)
    with Cons.prems(1) obtain acc1 p1 where one: "proposeZero L E ms (StateGetNonce L from (sp_st p)) acc p = (Inr acc1, p1)"
      and rest: "proposeZeroAll L E pend froms acc1 p1 = (Inr (mset', n'), q)"
      by (auto simp: bnd_Inr)
    have "R (fst acc1) (sp_st p1)"
      using proposeZero_inv [where R = "\<lambda>i. R", of ms L E _ acc p "fst acc1" "snd acc1" p1] one Cons.prems(2) step by auto
    with rest Cons.IH [of acc1] show ?thesis
      by auto
  qed (use Cons in auto)
qed (simp add: go_simps)

text \<open>A proposal: what the validation saw.\<close>

lemma Propose_runs:
  assumes "Propose L E order rh p = (Inr mset, q)"
  shows "\<exists>nt r1 s1 r2 s2 p2. ValidateBlock L None (sp_st (ip_sync p)) = (Inr r1, s1) \<and>
    ValidateBlock L (Some (header_block rh zero_MsgSet)) s1 = (Inr r2, s2) \<and> sp_st p2 = s2 \<and> r2 = validateRoot s2 \<and>
    proposeMsgs L E (ip_pending p) order nt (rh_Height rh)
      (zero_MsgSet\<lparr>mset_ParentRoot := r1, mset_Root := r2\<rparr>) p2 = (Inr mset, ip_sync q)"
proof -
  let ?m = "\<lambda>r1 r2. zero_MsgSet\<lparr>mset_ParentRoot := r1, mset_Root := r2\<rparr>"
  let ?p2 = "\<lambda>s2. (ip_sync p)\<lparr>sp_reads := Suc (sp_reads (ip_sync p)), sp_st := s2\<rparr>"
  from assms obtain nt r1 s1 r2 s2 where one: "ValidateBlock L None (sp_st (ip_sync p)) = (Inr r1, s1)"
    and two: "ValidateBlock L (Some (header_block rh zero_MsgSet)) s1 = (Inr r2, s2)"
    and rest: "proposeMsgs L E (ip_pending p) order nt (rh_Height rh) (?m r1 r2) (?p2 s2) = (Inr mset, ip_sync q)"
    unfolding Propose_def by (auto simp: bnd_Inr zoom_Inr timeNow_def)
  have "r2 = validateRoot s2"
    using two by (auto simp: ValidateBlock_def go_simps)
  with one two rest show ?thesis
    by (intro exI conjI) (auto simp del: ext_inject)
qed

lemma proposeMsgs_Inr:
  assumes "proposeMsgs L E pend order nt ht mset p = (Inr mset', q)"
  shows "\<exists>n. (if ht = 0 then proposeZeroAll L E pend order (mset, 0) p else proposeAll L E nt pend order (mset, 0) p) = (Inr (mset', n), q)"
  using assms by (auto simp: proposeMsgs_def go_simps split: if_splits)

lemma Propose_Inr:
  assumes "Propose L E order rh p = (Inr mset, q)"
  shows "\<exists>r1 s1 r2 s2. ValidateBlock L None (sp_st (ip_sync p)) = (Inr r1, s1) \<and>
    ValidateBlock L (Some (header_block rh zero_MsgSet)) s1 = (Inr r2, s2) \<and> r2 = validateRoot s2 \<and>
    acc_ok L s2 r1 mset (sp_st (ip_sync q))"
proof -
  let ?m = "\<lambda>r1 r2. zero_MsgSet\<lparr>mset_ParentRoot := r1, mset_Root := r2\<rparr>"
  from Propose_runs [OF assms] obtain nt r1 s1 r2 s2 p2 where
    val: "ValidateBlock L None (sp_st (ip_sync p)) = (Inr r1, s1)"
      "ValidateBlock L (Some (header_block rh zero_MsgSet)) s1 = (Inr r2, s2)" "sp_st p2 = s2" "r2 = validateRoot s2"
    and run: "proposeMsgs L E (ip_pending p) order nt (rh_Height rh) (?m r1 r2) p2 = (Inr mset, ip_sync q)"
    by blast
  have start: "acc_ok L s2 r1 (?m r1 r2) (sp_st p2)"
    using val by (simp add: acc_ok_def zero_MsgSet_def zero_SignedBlock_def)
  have "acc_ok L s2 r1 mset (sp_st (ip_sync q))"
  proof (cases "rh_Height rh = 0")
    case True
    with proposeMsgs_Inr [OF run] obtain n where
      "proposeZeroAll L E (ip_pending p) order (?m r1 r2, 0) p2 = (Inr (mset, n), ip_sync q)"
      by auto
    from proposeZeroAll_inv [where R = "acc_ok L s2 r1", OF _ this] start acc_ok_add show ?thesis
      by auto
  next
    case False
    with proposeMsgs_Inr [OF run] obtain n where
      "proposeAll L E nt (ip_pending p) order (?m r1 r2, 0) p2 = (Inr (mset, n), ip_sync q)"
      by auto
    from proposeAll_inv [where R = "\<lambda>m n. acc_ok L s2 r1 m", OF _ this] start acc_ok_add show ?thesis
      by auto
  qed
  with val show ?thesis
    by blast
qed

section \<open>What is proposed is accepted\<close>

text \<open>The signatures of all messages verify, checked in order.\<close>

definition verifyAll :: "lib \<Rightarrow> env \<Rightarrow> SignedMessage list \<Rightarrow> unit rgo" where
  "verifyAll L E sms = forM sms (\<lambda>sm.
     bnd (RoleVerify L E (msg_From (sm_Message sm)) (Message_Hash L E (sm_Message sm)) (sm_Signature sm)) (\<lambda>ok.
     reject (\<not> ok) ''invalid sign''))"

lemma checkProposed_ok:
  "validated L sms rcs (sp_st p) t \<Longrightarrow> verifyAll L E sms (sp_rm p) = (Inr (), r) \<Longrightarrow> rt = validateRoot (sp_st p) \<Longrightarrow>
     \<exists>q. checkProposed L E sms rcs rt p = (Inr (validateRoot t), q)"
proof (induction L sms rcs "sp_st p" t arbitrary: p rt rule: validated.induct)
  case (2 L sm sms rc rcs t)
  from 2(3) obtain r1 where ver: "RoleVerify L E (msg_From (sm_Message sm)) (Message_Hash L E (sm_Message sm)) (sm_Signature sm) (sp_rm p) = (Inr True, r1)"
    and rest: "verifyAll L E sms r1 = (Inr (), r)"
    by (auto simp: verifyAll_def go_simps)
  obtain res s1 where val: "ValidateMsg L (Some (sm_Message sm)) (sp_st p) = (res, s1)"
    by fastforce
  with 2(2) have np: "\<And>w. res \<noteq> Inl (Panic w)" and rc: "rcpt_Err rc = 0 \<longleftrightarrow> \<not> isl res" and tail: "validated L sms rcs s1 t"
    by auto
  let ?p1 = "p\<lparr>sp_rm := r1\<rparr>" and ?p2 = "p\<lparr>sp_rm := r1, sp_st := s1\<rparr>"
  have v: "verifyMsg L E sm p = (Inr True, ?p1)"
    using ver by (simp add: verifyMsg_def)
  have tr: "tryMsg L (sm_Message sm) ?p1 = (Inr (res, validateRoot s1), ?p2)"
    using val np by (simp add: tryMsg_Inr)
  have "\<exists>q. checkProposed L E sms rcs (validateRoot s1) ?p2 = (Inr (validateRoot t), q)"
    using 2(1) [of _ ?p2] val tail rest by simp
  with v tr rc show ?case
    by (cases res) simp_all
qed auto

lemma ValidateBlock_header: "blk_header a = blk_header b \<Longrightarrow> ValidateBlock L (Some a) = ValidateBlock L (Some b)"
  by (simp add: ValidateBlock_def)

lemma ValidateBlock_reset: "reset s = reset t \<Longrightarrow> ValidateBlock L mblk s = ValidateBlock L mblk t"
  by (simp add: ValidateBlock_def)

section \<open>The size of a proposal\<close>

definition size_ok :: "MsgSet \<Rightarrow> nat \<Rightarrow> bool" where
  "size_ok mset n \<longleftrightarrow> sum_list (map msgLen (mset_Msgs mset)) \<le> n \<and> (mset_Msgs mset \<noteq> [] \<longrightarrow>
     sum_list (map msgLen (butlast (mset_Msgs mset))) + length (msg_Params (sm_Message (last (mset_Msgs mset)))) \<le> maxLen)"

lemma size_ok_add:
  "size_ok mset n \<Longrightarrow> n + length (msg_Params (sm_Message sm)) \<le> maxLen \<Longrightarrow>
     size_ok (add_msg E sm res r mset) (n + errLen E res + msgLen sm)"
  by (auto simp: size_ok_def add_msg_def)

lemma size_ok_zero: "size_ok (zero_MsgSet\<lparr>mset_ParentRoot := a, mset_Root := b\<rparr>) n"
  by (simp add: size_ok_def zero_MsgSet_def zero_SignedBlock_def)

section \<open>The nonces of a proposal\<close>

text \<open>A received message is kept under its sender and its nonce.\<close>

definition ip_ok :: "(u64 \<Rightarrow> msgSet option) \<Rightarrow> bool" where
  "ip_ok pend \<longleftrightarrow> (\<forall>from ms n sm. pend from = Some ms \<longrightarrow> ms_info ms n = Some sm \<longrightarrow>
     msg_From (sm_Message sm) = from \<and> msg_Nonce (sm_Message sm) = n)"

definition consecutive :: "u64 list \<Rightarrow> bool" where
  "consecutive ns \<longleftrightarrow> (\<exists>nc. ns = map (\<lambda>i. nc + of_nat i) [0..<length ns])"

definition nonces :: "u64 \<Rightarrow> SignedMessage list \<Rightarrow> u64 list" where
  "nonces r sms = map (\<lambda>sm. msg_Nonce (sm_Message sm)) (filter (\<lambda>sm. msg_From (sm_Message sm) = r) sms)"

text \<open>What one sender adds: its messages from nonce \<open>i0\<close> to before nonce \<open>i\<close>.\<close>

definition adds :: "msgSet \<Rightarrow> u64 \<Rightarrow> SignedMessage list \<Rightarrow> u64 \<Rightarrow> MsgSet \<Rightarrow> bool" where
  "adds ms i0 old i mset \<longleftrightarrow> (\<exists>ks. mset_Msgs mset = old @ ks \<and> i = i0 + of_nat (length ks) \<and>
     (\<forall>k < length ks. ms_info ms (i0 + of_nat k) = Some (ks ! k)))"

lemma adds_add:
  assumes "adds ms i0 old i mset" and "ms_info ms i = Some sm"
  shows "adds ms i0 old (i + 1) (add_msg E sm res r mset)"
proof -
  from assms(1) obtain ks where "mset_Msgs mset = old @ ks" "i = i0 + of_nat (length ks)"
    "\<forall>k < length ks. ms_info ms (i0 + of_nat k) = Some (ks ! k)"
    by (auto simp: adds_def)
  with assms(2) show ?thesis
    unfolding adds_def by (intro exI [of _ "ks @ [sm]"]) (auto simp: add_msg_def nth_append less_Suc_eq)
qed

lemma adds_nonces:
  assumes "ip_ok pend" and "pend from = Some ms" and "adds ms i0 old i mset"
  shows "\<exists>ks. mset_Msgs mset = old @ ks \<and> (\<forall>sm \<in> set ks. msg_From (sm_Message sm) = from) \<and> consecutive (nonces from ks)"
proof -
  from assms(3) obtain ks where ks: "mset_Msgs mset = old @ ks"
    and info: "\<And>k. k < length ks \<Longrightarrow> ms_info ms (i0 + of_nat k) = Some (ks ! k)"
    by (auto simp: adds_def)
  have k: "msg_From (sm_Message (ks ! k)) = from \<and> msg_Nonce (sm_Message (ks ! k)) = i0 + of_nat k" if "k < length ks" for k
    using assms(1,2) info [OF that] by (auto simp: ip_ok_def)
  then have froms: "\<forall>sm \<in> set ks. msg_From (sm_Message sm) = from"
    by (metis in_set_conv_nth)
  then have "nonces from ks = map (\<lambda>sm. msg_Nonce (sm_Message sm)) ks"
    by (simp add: nonces_def)
  also have "\<dots> = map (\<lambda>i. i0 + of_nat i) [0..<length ks]"
    using k by (intro nth_equalityI) simp_all
  finally have "consecutive (nonces from ks)"
    by (auto simp: consecutive_def)
  with ks froms show ?thesis
    by blast
qed

text \<open>What a list of senders adds.\<close>

definition added :: "u64 set \<Rightarrow> SignedMessage list \<Rightarrow> MsgSet \<Rightarrow> bool" where
  "added froms old mset \<longleftrightarrow> (\<exists>ks. mset_Msgs mset = old @ ks \<and> (\<forall>sm \<in> set ks. msg_From (sm_Message sm) \<in> froms) \<and>
     (\<forall>r. consecutive (nonces r ks)))"

lemma consecutive_Nil [simp]: "consecutive []"
  by (simp add: consecutive_def)

lemma nonces_append [simp]: "nonces r (a @ b) = nonces r a @ nonces r b"
  by (simp add: nonces_def)

lemma nonces_other: "(\<And>sm. sm \<in> set ks \<Longrightarrow> msg_From (sm_Message sm) \<noteq> r) \<Longrightarrow> nonces r ks = []"
  by (auto simp: nonces_def filter_empty_conv)

lemma added_Nil: "added F (mset_Msgs mset) mset"
  by (auto simp: added_def nonces_def intro: exI [of _ "[]"])

lemma added_trans:
  assumes "ip_ok pend" and "pend from = Some ms" and "adds ms i0 old i mset1" and "added F (mset_Msgs mset1) mset2" and "from \<notin> F"
  shows "added (insert from F) old mset2"
proof -
  from adds_nonces [OF assms(1-3)] obtain ks where ks: "mset_Msgs mset1 = old @ ks" "\<forall>sm \<in> set ks. msg_From (sm_Message sm) = from"
    "consecutive (nonces from ks)"
    by blast
  from assms(4) obtain ls where ls: "mset_Msgs mset2 = mset_Msgs mset1 @ ls" "\<forall>sm \<in> set ls. msg_From (sm_Message sm) \<in> F"
    "\<forall>r. consecutive (nonces r ls)"
    by (auto simp: added_def)
  have "consecutive (nonces r (ks @ ls))" for r
  proof (cases "r = from")
    case True
    then have "nonces r ls = []"
      using ls(2) assms(5) by (intro nonces_other) auto
    with ks(3) True show ?thesis
      by simp
  next
    case False
    then have "nonces r ks = []"
      using ks(2) by (intro nonces_other) auto
    with ls(3) show ?thesis
      by simp
  qed
  with ks ls show ?thesis
    unfolding added_def by (intro exI [of _ "ks @ ls"]) auto
qed

lemma added_mono: "added F old mset \<Longrightarrow> F \<subseteq> G \<Longrightarrow> added G old mset"
  by (auto simp: added_def)

lemma adds_start: "adds ms i (mset_Msgs mset) i mset"
  by (simp add: adds_def)

lemma proposeAll_added:
  "proposeAll L E nt pend froms acc p = (Inr (mset', n'), q) \<Longrightarrow> distinct froms \<Longrightarrow> ip_ok pend \<Longrightarrow>
     added (set froms) (mset_Msgs (fst acc)) mset'"
proof (induction froms arbitrary: acc p)
  case Nil
  then show ?case
    using added_Nil by (auto simp: go_simps)
next
  case (Cons "from" froms)
  show ?case
  proof (cases "pend from")
    case None
    with Cons.prems Cons.IH [of acc p] show ?thesis
      using added_mono [OF _ subset_insertI] by simp
  next
    case (Some ms)
    let ?i = "StateGetNonce L from (sp_st p)"
    from Some Cons.prems(1) obtain m1 n1 p1 where one: "proposeFrom L E nt ms ?i acc p = (Inr (m1, n1), p1)"
      and rest: "(if n1 > maxLen then ret (m1, n1) else bnd timeNow (\<lambda>now.
          if now - nt > 10 * Second then ret (m1, n1) else proposeAll L E nt pend froms (m1, n1))) p1 = (Inr (mset', n'), q)"
      by (auto simp: bnd_Inr)
    obtain j where "adds ms ?i (mset_Msgs (fst acc)) j m1"
      using proposeFrom_inv [where R = "\<lambda>i m n s. adds ms ?i (mset_Msgs (fst acc)) i m", OF _ one adds_start] adds_add by blast
    moreover have "added (set froms) (mset_Msgs m1) mset'"
      using rest Cons.IH [of "(m1, n1)"] Cons.prems(2,3) added_Nil by (auto simp: go_simps split: if_splits)
    ultimately show ?thesis
      using added_trans [OF Cons.prems(3) Some] Cons.prems(2) by simp
  qed
qed

lemma proposeZeroAll_added:
  "proposeZeroAll L E pend froms acc p = (Inr (mset', n'), q) \<Longrightarrow> distinct froms \<Longrightarrow> ip_ok pend \<Longrightarrow>
     added (set froms) (mset_Msgs (fst acc)) mset'"
proof (induction froms arbitrary: acc p)
  case Nil
  then show ?case
    using added_Nil by (auto simp: go_simps)
next
  case (Cons "from" froms)
  show ?case
  proof (cases "pend from")
    case None
    with Cons.prems Cons.IH [of acc p] show ?thesis
      using added_mono [OF _ subset_insertI] by simp
  next
    case (Some ms)
    let ?i = "StateGetNonce L from (sp_st p)"
    from Some Cons.prems(1) obtain m1 n1 p1 where one: "proposeZero L E ms ?i acc p = (Inr (m1, n1), p1)"
      and rest: "proposeZeroAll L E pend froms (m1, n1) p1 = (Inr (mset', n'), q)"
      by (auto simp: bnd_Inr)
    obtain j where "adds ms ?i (mset_Msgs (fst acc)) j m1"
      using proposeZero_inv [where R = "\<lambda>i m s. adds ms ?i (mset_Msgs (fst acc)) i m", OF _ one adds_start] adds_add by blast
    with rest Cons.IH [of "(m1, n1)"] Cons.prems(2,3) show ?thesis
      using added_trans [OF Cons.prems(3) Some] by auto
  qed
qed

text \<open>What the pool does with messages and blocks; the pool it embeds changes on its own.\<close>

inductive in_reach :: "lib \<Rightarrow> InPool \<Rightarrow> bool" for L where
  in_start: "in_reach L (NewInPool localID sp)"
| in_sync: "in_reach L p \<Longrightarrow> in_reach L (p\<lparr>ip_sync := sp\<rparr>)"
| in_msg: "in_reach L p \<Longrightarrow> in_reach L (snd (processMsg L p))"
| in_blk: "in_reach L p \<Longrightarrow> in_reach L (snd (processBlk p))"

lemma addMsg_ok: "ip_ok (ip_pending p) \<Longrightarrow> ip_ok (ip_pending (addMsg L sm p))"
  by (auto simp: ip_ok_def addMsg_def Let_def split: option.splits if_splits)

lemma delMsg_ok: "ip_ok pend \<Longrightarrow> ip_ok (fold delMsg mds pend)"
proof (induction mds arbitrary: pend)
  case (Cons md mds)
  have "ip_ok (delMsg md pend)"
    using Cons.prems by (auto simp: ip_ok_def delMsg_def split: option.splits if_splits)
  with Cons.IH show ?case
    by simp
qed simp

lemma in_reach_ok: "in_reach L p \<Longrightarrow> ip_ok (ip_pending p)"
proof (induction rule: in_reach.induct)
  case (in_msg p)
  then show ?case
    using addMsg_ok by (cases "sp_msgChan (ip_sync p)") (simp_all add: processMsg_def)
next
  case (in_blk p)
  then show ?case
    using delMsg_ok by (cases "sp_blkDone (ip_sync p)") (simp_all add: processBlk_def)
qed (simp_all add: NewInPool_def ip_ok_def)

section \<open>Properties\<close>

text \<open>
  C20: a block that one node proposes is accepted by \<open>OnPropose\<close> on every node whose chain is in
  the same state and on which the signatures of its messages verify, in whatever order the
  proposer ranged over its pending messages and however it was cut short.
\<close>

theorem proposal_accepted:
  assumes "Propose L E order rh p = (Inr mset, q)"
    and "reset (sp_st (ip_sync p')) = reset (sp_st (ip_sync p))"
    and "verifyAll L E' (mset_Msgs mset) (sp_rm (ip_sync p')) = (Inr (), r)"
    and "blk_header sb = rh" and "blk_msgset sb = mset"
  shows "\<exists>q'. OnPropose L E' sb p' = (Inr (), q')"
proof -
  from Propose_Inr [OF assms(1)] obtain r1 s1 r2 s2 where
    one: "ValidateBlock L None (sp_st (ip_sync p)) = (Inr r1, s1)" and
    two: "ValidateBlock L (Some (header_block rh zero_MsgSet)) s1 = (Inr r2, s2)" and r2: "r2 = validateRoot s2" and
    acc: "acc_ok L s2 r1 mset (sp_st (ip_sync q))"
    by blast
  have one': "ValidateBlock L None (sp_st (ip_sync p')) = (Inr r1, s1)"
    using one ValidateBlock_reset [OF assms(2)] by simp
  have two': "ValidateBlock L (Some sb) s1 = (Inr r2, s2)"
    using two ValidateBlock_header [of sb "header_block rh zero_MsgSet" L] assms(4) by (simp add: header_block_def)
  let ?p = "(ip_sync p')\<lparr>sp_st := s2\<rparr>"
  have "\<exists>q2. checkProposed L E' (mset_Msgs mset) (mset_Receipts mset) r2 ?p = (Inr (validateRoot (sp_st (ip_sync q))), q2)"
    using acc assms(3) r2 by (intro checkProposed_ok) (simp_all add: acc_ok_def)
  then show ?thesis
    using one' two' assms(5) acc by (auto simp: OnPropose_def zoom_def acc_ok_def)
qed


text \<open>
  In a proposed block the messages of every sender have consecutive nonces, when Go ranges
  over the pending senders without repetition.
\<close>

lemma proposal_nonces:
  assumes "in_reach L p" and "Propose L E order rh p = (Inr mset, q)" and "distinct order"
  shows "\<exists>nc. nonces r (mset_Msgs mset) = map (\<lambda>i. nc + of_nat i) [0..<length (nonces r (mset_Msgs mset))]"
proof -
  from Propose_runs [OF assms(2)] obtain nt r1 r2 p2 where
    "proposeMsgs L E (ip_pending p) order nt (rh_Height rh) (zero_MsgSet\<lparr>mset_ParentRoot := r1, mset_Root := r2\<rparr>) p2 = (Inr mset, ip_sync q)"
    by blast
  from proposeMsgs_Inr [OF this] obtain n where run:
    "(if rh_Height rh = 0 then proposeZeroAll L E (ip_pending p) order (zero_MsgSet\<lparr>mset_ParentRoot := r1, mset_Root := r2\<rparr>, 0) p2
      else proposeAll L E nt (ip_pending p) order (zero_MsgSet\<lparr>mset_ParentRoot := r1, mset_Root := r2\<rparr>, 0) p2) = (Inr (mset, n), ip_sync q)"
    by blast
  have "added (set order) [] mset"
    using run proposeZeroAll_added [OF _ assms(3) in_reach_ok [OF assms(1)]] proposeAll_added [OF _ assms(3) in_reach_ok [OF assms(1)]]
    by (fastforce simp: zero_MsgSet_def zero_SignedBlock_def split: if_splits)
  then show ?thesis
    by (auto simp: added_def consecutive_def)
qed

text \<open>
  C22: the committee takes turns: whatever the slot, every keeper is the leader of one of the next
  slots, as many as there are keepers.
\<close>

theorem leader_rotates:
  assumes "m \<in> set (GetMembers p)" and "unat sl + length (GetMembers p) < 2 ^ 64"
  shows "\<exists>k < length (GetMembers p). GetLeader (sl + of_nat k) p = m"
proof -
  let ?ms = "GetMembers p" and ?n = "length (GetMembers p)"
  obtain j where j: "j < ?n" "?ms ! j = m"
    using assms(1) by (auto simp: in_set_conv_nth)
  define k where "k = (j + ?n - unat sl mod ?n) mod ?n"
  have n: "0 < ?n"
    using j(1) by auto
  then have k: "k < ?n"
    by (simp add: k_def)
  have nw: "unat (of_nat ?n :: u64) = ?n" and kw: "unat (of_nat k :: u64) = k"
    using assms(2) k by (simp_all add: unat_of_nat)
  have "unat (sl + of_nat k) = unat sl + k"
    using assms(2) k kw by (simp add: unat_word_ariths)
  then have "unat ((sl + of_nat k) mod of_nat ?n) = (unat sl + k) mod ?n"
    by (simp add: unat_mod nw)
  also have "\<dots> = (unat sl mod ?n + (j + ?n - unat sl mod ?n)) mod ?n"
    unfolding k_def by (simp add: mod_simps)
  also have "\<dots> = j"
    using j(1) mod_less_divisor [OF n, of "unat sl"] by simp
  finally show ?thesis
    using k j n by (intro exI [of _ k]) (auto simp: GetLeader_def Let_def)
qed

text \<open>
  A block header that the pool creates is the one the chain wants next: it has the asked
  slot, a keeper as its miner when there is one, and validates on the node's own chain.
\<close>

lemma created_header_valid:
  assumes "CreateBlockHeader sl p = (Inr rh, q)" and "marshal (lb_cRawHeader L) rh = Some b"
    and "length (GetMembers p) < 2 ^ 64"
  shows "rh_Slot rh = sl \<and> rh_Height rh = sp_nextHeight (ip_sync p) \<and> rh_PrevID rh = blkID (sp_st (ip_sync p)) \<and>
    (GetMembers p \<noteq> [] \<longrightarrow> rh_MinerID rh \<in> set (GetMembers p)) \<and>
    (\<exists>r t. ValidateBlock L (Some (header_block rh mset)) (sp_st (ip_sync p)) = (Inr r, t))"
proof -
  have rh: "rh_Slot rh = sl" "rh_Height rh = height (sp_st (ip_sync p))" "height (sp_st (ip_sync p)) = sp_nextHeight (ip_sync p)"
    "slot (sp_st (ip_sync p)) < sl" "rh_PrevID rh = blkID (sp_st (ip_sync p))" "rh_MinerID rh = GetLeader sl p"
    using assms(1) by (auto simp: CreateBlockHeader_def StateGetInfo_def SyncGetInfo_def Let_def go_simps)
  have "GetLeader sl p \<in> set (GetMembers p)" if ne: "GetMembers p \<noteq> []"
  proof -
    have "unat (sl mod of_nat (length (GetMembers p))) < length (GetMembers p)"
      using assms(3) ne by (simp add: unat_mod unat_of_nat)
    with ne show ?thesis
      by (simp add: GetLeader_def Let_def)
  qed
  moreover have "\<exists>r t. ValidateBlock L (Some (header_block rh mset)) (sp_st (ip_sync p)) = (Inr r, t)"
    using rh assms(2) not_le [THEN iffD2, OF rh(4)] by (simp add: ValidateBlock_def reset_def header_block_def Serialize_def)
  ultimately show ?thesis
    using rh by simp
qed

section \<open>An example\<close>

text \<open>A keeper that has received one message, with the chain at height one.\<close>

definition ex_in_msg :: SignedMessage where
  "ex_in_msg = \<lparr>sm_Message = ex_msg, sm_Signature = \<lparr>sig_Type = SigSecp256k1, sig_Data = [7]\<rparr>\<rparr>"

definition ex_in :: InPool where
  "ex_in = snd (processMsg ex_lib (NewInPool 1 ((snd (sp_load (NewSyncPool 1 1 ex_state ex_pool_rm ex_ts0 (\<lambda>_. 0))))
     \<lparr>sp_msgChan := [ex_in_msg]\<rparr>)))"

lemma ex_in_reach: "in_reach ex_lib ex_in"
  unfolding ex_in_def by (intro in_msg in_start)

lemma ex_in_nonce: "StateGetNonce ex_lib 7 ex_state = 0"
  by (simp add: StateGetNonce_def loadVal_def sget_def base_get_def smtGet_def list_trie_def zero_roleValue_def)

lemma ex_in_fields:
  "ip_pending ex_in = [7 \<mapsto> \<lparr>ms_nextDelete = 0, ms_info = [0 \<mapsto> ex_in_msg]\<rparr>]" "sp_st (ip_sync ex_in) = ex_state"
  "sp_rm (ip_sync ex_in) = ex_pool_rm" "sp_nextHeight (ip_sync ex_in) = 1" "sp_remoteHeight (ip_sync ex_in) = 1"
  "sp_clock (ip_sync ex_in) = (\<lambda>_. 0)" "sp_groupID (ip_sync ex_in) = 1"
  using ex_in_nonce
  by (simp_all add: ex_in_def processMsg_def NewInPool_def sp_load_def NewSyncPool_def addMsg_def Let_def GetHeight_def
      ex_in_msg_def ex_msg_def)

definition ex_in_s2 :: StateMgr where
  "ex_in_s2 = snd (ValidateBlock ex_lib (Some (header_block ex_header zero_MsgSet)) ex_state)"

lemma slot_late: "(\<not> (5 :: u64) \<le> 1)"
  by (simp add: word_le_nat_alt)

lemma ex_in_validate:
  "ValidateBlock ex_lib None ex_state = (Inr (root ex_state), reset ex_state)"
  "ValidateBlock ex_lib (Some (header_block ex_header zero_MsgSet)) (reset ex_state) = (Inr (validateRoot ex_in_s2), ex_in_s2)"
  by (simp_all add: ex_in_s2_def ValidateBlock_def reset_def header_block_def Serialize_def slot_late)

lemma ex_in_s2_fields:
  "validateRInfo ex_in_s2 = (\<lambda>_. None)" "rInfo ex_in_s2 = (\<lambda>_. None)" "ds ex_in_s2 = (\<lambda>_. None)" "tds ex_in_s2 = None"
  "version ex_in_s2 = 0" "smt ex_in_s2 = \<lparr>blkRoot = [], curRoot = []\<rparr>"
  by (simp_all add: ex_in_s2_def ValidateBlock_def reset_def header_block_def Serialize_def newValidateRoot_def Let_def slot_late)

lemma ex_in_try:
  assumes "sp_st p = ex_in_s2"
  shows "\<exists>res r q. tryMsg ex_lib (sm_Message ex_in_msg) p = (Inr (res, r), q) \<and> sp_clock q = sp_clock p"
proof -
  have val: "rv_Nonce (loadVal ex_lib 7 ex_in_s2) = 0"
    by (simp add: loadVal_def sget_def base_get_def smtGet_def list_trie_def zero_roleValue_def ex_in_s2_fields)
  have "\<exists>res t. ValidateMsg ex_lib (Some ex_msg) ex_in_s2 = (Inr res, t)"
    by (simp add: ValidateMsg_def validateRole_def ex_in_s2_fields ex_msg_def loadRole_def val canApplyMethod_def method_defs
        canUpdateNetAddr_def Let_def)
  then obtain res t where "ValidateMsg ex_lib (Some ex_msg) ex_in_s2 = (Inr res, t)"
    by blast
  then show ?thesis
    using assms by (intro exI [of _ "Inr res"] exI) (auto simp: tryMsg_Inr ex_in_msg_def)
qed

lemma ex_in_nonce2: "StateGetNonce ex_lib 7 ex_in_s2 = 0"
  by (simp add: StateGetNonce_def loadVal_def sget_def base_get_def smtGet_def list_trie_def zero_roleValue_def ex_in_s2_fields)

lemma ex_in_propose: "\<exists>mset q. Propose ex_lib ex_pool_env [7] ex_header ex_in = (Inr mset, q) \<and> mset_Msgs mset = [ex_in_msg]"
proof -
  let ?p1 = "(ip_sync ex_in)\<lparr>sp_reads := Suc (sp_reads (ip_sync ex_in)), sp_st := ex_in_s2\<rparr>"
  obtain res r p2 where tr: "tryMsg ex_lib (sm_Message ex_in_msg) ?p1 = (Inr (res, r), p2)" and clk: "sp_clock p2 = (\<lambda>_. 0)"
    using ex_in_try [of ?p1] by (auto simp: ex_in_fields)
  have short: "\<not> maxLen < length (msg_Params (sm_Message ex_in_msg))"
    by (simp add: ex_in_msg_def ex_msg_def maxLen_def)
  have short2: "\<not> maxLen < errLen ex_pool_env res + msgLen ex_in_msg"
    by (simp add: ex_in_msg_def ex_msg_def maxLen_def errLen_def msgLen_def ex_pool_env_def split: sum.split)
  have "\<exists>mset q. proposeMsgs ex_lib ex_pool_env (ip_pending ex_in) [7] 0 1
      (zero_MsgSet\<lparr>mset_ParentRoot := root ex_state, mset_Root := validateRoot ex_in_s2\<rparr>) ?p1 = (Inr mset, q) \<and> mset_Msgs mset = [ex_in_msg]"
    using tr clk short short2
    by (simp add: proposeMsgs_def ex_in_fields ex_in_nonce2 timeNow_def Second_def bnd_def ret_def
        add_msg_def zero_MsgSet_def zero_SignedBlock_def)
  then obtain mset q where "proposeMsgs ex_lib ex_pool_env (ip_pending ex_in) [7] 0 1
      (zero_MsgSet\<lparr>mset_ParentRoot := root ex_state, mset_Root := validateRoot ex_in_s2\<rparr>) ?p1 = (Inr mset, q)" "mset_Msgs mset = [ex_in_msg]"
    by blast
  then show ?thesis
    using ex_in_validate by (simp add: Propose_def timeNow_def ex_in_fields zoom_def)
qed

lemma ex_pool_rm_ds: "rm_ds ex_pool_rm = (\<lambda>_. None)"
  by (simp add: ex_pool_rm_def RoleMgr_New_def ex_pool_env_def addRoleInfo_def list_role_def rm_put_def
      ex0_lib_def ex0_keeper_def zero_RoleInfo_def)

theorem proposal_accepted_witness:
  "\<exists>mset q q'. Propose ex_lib ex_pool_env [7] ex_header ex_in = (Inr mset, q) \<and> mset_Msgs mset = [ex_in_msg] \<and>
     OnPropose ex_lib ex_pool_env (header_block ex_header mset) ex_in = (Inr (), q')"
proof -
  obtain mset q where run: "Propose ex_lib ex_pool_env [7] ex_header ex_in = (Inr mset, q)" and m: "mset_Msgs mset = [ex_in_msg]"
    using ex_in_propose by blast
  have "\<exists>r. rm_get ex_lib ex_pool_env 7 ex_pool_rm = (Inr (zero_RoleInfo\<lparr>ri_Type := RoleInfo_Keeper, ri_RoleID := 7, ri_GroupID := 1,
     ri_ChainVerifyKey := [7], ri_BlsVerifyKey := [8]\<rparr>), r)"
    by (simp add: rm_get_def ex_pool_rm_fields ex_pool_rm_ds addRoleInfo_def ex_pool_env_def ex_lib_def)
  then obtain r where "RoleVerify ex_lib ex_pool_env 7 (Message_Hash ex_lib ex_pool_env ex_msg) (sm_Signature ex_in_msg) ex_pool_rm = (Inr True, r)"
    by (auto simp: RoleVerify_def keyTypeOf_def GetPubKey_def ex_in_msg_def ex_lib_def)
  then have "verifyAll ex_lib ex_pool_env (mset_Msgs mset) (sp_rm (ip_sync ex_in)) = (Inr (), r)"
    by (simp add: m verifyAll_def ex_in_fields ex_in_msg_def ex_msg_def)
  from proposal_accepted [OF run refl this, of "header_block ex_header mset"] run m show ?thesis
    by (auto simp: header_block_def)
qed


theorem leader_rotates_witness: "\<exists>k < 3. GetLeader (10 + of_nat k) ex_in = 2"
proof -
  have "2 \<in> set (GetMembers ex_in)" "unat (10 :: u64) + length (GetMembers ex_in) < 2 ^ 64" "length (GetMembers ex_in) = 3"
    by (simp_all add: GetMembers_def StateGetAllKeepers_def ex_in_fields)
  with leader_rotates [OF this(1,2)] show ?thesis
    by simp
qed

end
