(* ===== verification/GoHoare.thy ===== *)
theory GoHoare
  imports NodeBase
begin

text \<open>
  Triples for the effect type: from a state with \<open>P\<close>, a run that returns \<open>x\<close> ends with \<open>Q x\<close> and
  one that fails with \<open>R\<close>, because Go keeps the assignments made before an early return.
\<close>

definition triple :: "('s \<Rightarrow> bool) \<Rightarrow> ('s, 'a) go \<Rightarrow> ('a \<Rightarrow> 's \<Rightarrow> bool) \<Rightarrow> ('s \<Rightarrow> bool) \<Rightarrow> bool" where
  "triple P m Q R \<longleftrightarrow> (\<forall>s. P s \<longrightarrow> (case m s of (Inr x, t) \<Rightarrow> Q x t | (Inl e, t) \<Rightarrow> R t))"

named_theorems triple_rules \<open>rules that follow the code\<close>

lemma tripleI:
  "(\<And>s x t. P s \<Longrightarrow> m s = (Inr x, t) \<Longrightarrow> Q x t) \<Longrightarrow> (\<And>s e t. P s \<Longrightarrow> m s = (Inl e, t) \<Longrightarrow> R t) \<Longrightarrow> triple P m Q R"
  by (auto simp: triple_def split: prod.splits sum.splits)

lemma triple_Inr: "triple P m Q R \<Longrightarrow> P s \<Longrightarrow> m s = (Inr x, t) \<Longrightarrow> Q x t"
  by (force simp: triple_def)

lemma triple_Inl: "triple P m Q R \<Longrightarrow> P s \<Longrightarrow> m s = (Inl e, t) \<Longrightarrow> R t"
  by (force simp: triple_def)

lemma triple_pre: "triple P' m Q R \<Longrightarrow> (\<And>s. P s \<Longrightarrow> P' s) \<Longrightarrow> triple P m Q R"
  by (simp add: triple_def)

lemma triple_post: "triple P m Q' R \<Longrightarrow> (\<And>x s. Q' x s \<Longrightarrow> Q x s) \<Longrightarrow> triple P m Q R"
  by (force simp: triple_def split: prod.splits sum.splits)

lemma triple_err: "triple P m Q R' \<Longrightarrow> (\<And>s. R' s \<Longrightarrow> R s) \<Longrightarrow> triple P m Q R"
  by (force simp: triple_def split: prod.splits sum.splits)

lemma triple_keeps: "keeps P m \<Longrightarrow> triple P m (\<lambda>_. P) P"
  by (force simp: triple_def keeps_def split: prod.splits sum.splits)

lemma keeps_triple: "triple P m (\<lambda>_. P) P \<Longrightarrow> keeps P m"
proof (rule keepsI)
  fix s assume "triple P m (\<lambda>_. P) P" "P s"
  then show "P (snd (m s))"
    using triple_Inr triple_Inl by (cases "m s"; cases "fst (m s)") fastforce+
qed

lemma triple_ret [triple_rules]: "(\<And>s. P s \<Longrightarrow> Q x s) \<Longrightarrow> triple P (ret x) Q R"
  by (simp add: triple_def)

lemma triple_fail [triple_rules]: "(\<And>s. P s \<Longrightarrow> R s) \<Longrightarrow> triple P (fail e) Q R"
  by (simp add: triple_def)

lemma triple_gets [triple_rules]: "(\<And>s. P s \<Longrightarrow> Q (f s) s) \<Longrightarrow> triple P (gets f) Q R"
  by (simp add: triple_def)

lemma triple_modify [triple_rules]: "(\<And>s. P s \<Longrightarrow> Q () (f s)) \<Longrightarrow> triple P (modify f) Q R"
  by (simp add: triple_def)

lemma triple_reject [triple_rules]:
  "(\<And>s. P s \<Longrightarrow> c \<Longrightarrow> R s) \<Longrightarrow> (\<And>s. P s \<Longrightarrow> \<not> c \<Longrightarrow> Q () s) \<Longrightarrow> triple P (reject c e) Q R"
  by (simp add: triple_def reject_def)

lemma triple_orFail [triple_rules]:
  "(\<And>s e. P s \<Longrightarrow> r = Inl e \<Longrightarrow> R s) \<Longrightarrow> (\<And>s x. P s \<Longrightarrow> r = Inr x \<Longrightarrow> Q x s) \<Longrightarrow> triple P (orFail r) Q R"
  by (auto simp: triple_def split: sum.splits)

lemma bnd_Inl: "bnd m f s = (Inl e, t) \<longleftrightarrow> m s = (Inl e, t) \<or> (\<exists>x s'. m s = (Inr x, s') \<and> f x s' = (Inl e, t))"
  by (auto simp: bnd_def split: prod.splits sum.splits)

lemma triple_bnd:
  assumes "triple P m Q' R" and "\<And>x. triple (Q' x) (f x) Q R"
  shows "triple P (bnd m f) Q R"
proof (rule tripleI)
  fix s x t assume "P s" "bnd m f s = (Inr x, t)"
  then show "Q x t"
    unfolding bnd_Inr using triple_Inr [OF assms(1)] triple_Inr [OF assms(2)] by blast
next
  fix s e t assume "P s" "bnd m f s = (Inl e, t)"
  then show "R t"
    unfolding bnd_Inl using triple_Inr [OF assms(1)] triple_Inl [OF assms(1)] triple_Inl [OF assms(2)] by blast
qed

lemma triple_seq: "triple P m (\<lambda>_. Q') R \<Longrightarrow> triple Q' n Q R \<Longrightarrow> triple P (seq m n) Q R"
  unfolding seq_def by (rule triple_bnd)

text \<open>A read binds a name for the value, known in the rest.\<close>

lemma triple_read [triple_rules]:
  "(\<And>v. triple (\<lambda>s. P s \<and> f s = v) (g v) Q R) \<Longrightarrow> triple P (bnd (gets f) g) Q R"
  by (simp add: triple_def)

lemma triple_read_pre:
  "(\<And>v. triple (P' v) (g v) Q R) \<Longrightarrow> (\<And>s. P s \<Longrightarrow> P' (f s) s) \<Longrightarrow> triple P (bnd (gets f) g) Q R"
  by (simp add: triple_def)

lemma triple_False: "triple (\<lambda>_. False) m Q R"
  by (simp add: triple_def)

lemma triple_if [triple_rules]:
  "(c \<Longrightarrow> triple P m Q R) \<Longrightarrow> (\<not> c \<Longrightarrow> triple P n Q R) \<Longrightarrow> triple P (if c then m else n) Q R"
  by simp

lemma triple_check [triple_rules]:
  "(\<And>s. P s \<Longrightarrow> c \<Longrightarrow> R s) \<Longrightarrow> (\<not> c \<Longrightarrow> triple P n Q R) \<Longrightarrow> triple P (seq (reject c e) n) Q R"
  by (cases c) (simp_all add: triple_def)

lemma triple_dropErr: "triple P m (\<lambda>_. Q) Q \<Longrightarrow> triple P (dropErr m) (\<lambda>_. Q) Q"
  by (force simp: triple_def dropErr_def split: prod.splits sum.splits err.splits)

lemma triple_attempt: "triple P m (\<lambda>x. Q (Inr x)) R \<Longrightarrow> (\<And>e s. R s \<Longrightarrow> Q (Inl e) s) \<Longrightarrow> triple P (attempt m) Q R"
  by (fastforce simp: triple_def attempt_def split: prod.splits sum.splits err.splits)

lemma triple_zoom:
  assumes "\<And>s x p. P s \<Longrightarrow> m (part s) = (Inr x, p) \<Longrightarrow> Q x (upd p s)" and "\<And>s e p. P s \<Longrightarrow> m (part s) = (Inl e, p) \<Longrightarrow> R (upd p s)"
  shows "triple P (zoom part upd m) Q R"
proof (rule tripleI)
  fix s x t assume "P s" "zoom part upd m s = (Inr x, t)"
  then show "Q x t"
    unfolding zoom_Inr using assms(1) by blast
next
  fix s e t assume "P s" "zoom part upd m s = (Inl e, t)"
  then show "R t"
    using assms(2) by (cases "m (part s)") (auto simp: zoom_def)
qed

text \<open>Steps that are passed over, and reads at one state.\<close>

lemma keeps_seq_triple: "keeps P m \<Longrightarrow> (\<And>s. P s \<Longrightarrow> R s) \<Longrightarrow> triple P n Q R \<Longrightarrow> triple P (seq m n) Q R"
  by (rule triple_seq [OF triple_err [OF triple_keeps]])

lemma bnd_ret: "bnd (ret x) f = f x"
  by (simp add: fun_eq_iff bnd_def ret_def)

lemma triple_each: "(\<And>s. P s \<Longrightarrow> triple (\<lambda>t. t = s) m Q R) \<Longrightarrow> triple P m Q R"
  by (simp add: triple_def)

lemma triple_read_at: "triple (\<lambda>t. t = s) (g (f s)) Q R \<Longrightarrow> triple (\<lambda>t. t = s) (bnd (gets f) g) Q R"
  by (simp add: triple_def)

lemma triple_deref:
  "(\<And>x. p = Some x \<Longrightarrow> triple P (f x) Q R) \<Longrightarrow> (\<And>s. P s \<Longrightarrow> R s) \<Longrightarrow> triple P (bnd (deref w p) f) Q R"
  by (cases p) (simp_all add: triple_def deref_def)

lemma triple_orErr:
  "(\<And>x. p = Some x \<Longrightarrow> triple P (f x) Q R) \<Longrightarrow> (\<And>s. P s \<Longrightarrow> R s) \<Longrightarrow> triple P (bnd (orErr w p) f) Q R"
  by (cases p) (simp_all add: triple_def orErr_def)

end
