(* ===== verification/HotStuff.thy ===== *)
theory HotStuff
  imports InPool GoHoare
begin

text \<open>
  The consensus of the keepers, \<open>submodule/consensus/hotstuff/hotstuff.go\<close>, and the mining loop of
  a single keeper, \<open>submodule/consensus/poa/poa.go\<close>.

  The interfaces the manager calls (\<open>bcommon.ConsensusApp\<close>, \<open>api.IRole\<close>, the clock) are a record
  of functions on a state \<open>'a\<close>; the pool of \<open>InPool\<close> is the instance the node uses.  Published
  messages are appended to \<open>hsm_out\<close>; an error of \<open>PublishHsMsg\<close> is only logged.  \<open>hsm_done\<close> is a
  history: the blocks handed to \<open>OnViewDone\<close>, each with the quorum size at that moment.
\<close>

record 'a ConsensusApp =
  ca_now :: "('a, int) go"
  ca_CreateBlockHeader :: "u64 \<Rightarrow> ('a, RawHeader) go"
  ca_Propose :: "RawHeader \<Rightarrow> ('a, MsgSet) go"
  ca_OnPropose :: "SignedBlock \<Rightarrow> ('a, unit) go"
  ca_OnViewDone :: "SignedBlock \<Rightarrow> ('a, unit) go"
  ca_GetMembers :: "'a \<Rightarrow> u64 list"
  ca_GetQuorumSize :: "'a \<Rightarrow> int"
  ca_RoleSign :: "u64 \<Rightarrow> bytes \<Rightarrow> u8 \<Rightarrow> ('a, Signature) go"
  ca_RoleVerify :: "u64 \<Rightarrow> bytes \<Rightarrow> Signature \<Rightarrow> ('a, bool) go"
  ca_RoleVerifyMulti :: "bytes \<Rightarrow> MultiSignature \<Rightarrow> ('a, bool) go"
  ca_skipCheck :: bool

record view =
  v_slot :: u64
  v_leader :: u64
  v_start :: int
  v_header :: RawHeader
  v_txs :: MsgSet
  v_phase :: PhaseState
  v_members :: "u64 list"
  v_highQuorum :: MultiSignature
  v_prepareQuorum :: MultiSignature
  v_preCommitQuorum :: MultiSignature
  v_commitQuorum :: MultiSignature
  v_createdAt :: int

record 'a HotstuffManager =
  hsm_localID :: u64
  hsm_curView :: view
  hsm_app :: 'a
  hsm_out :: "HotstuffMessage list"
  hsm_rand :: "nat \<Rightarrow> u64"
  hsm_draws :: nat
  hsm_done :: "(int \<times> SignedBlock) list"

type_synonym ('a, 'b) hgo = "('a HotstuffManager, 'b) go"

abbreviation on_app :: "('a, 'b) go \<Rightarrow> ('a, 'b) hgo" where
  "on_app m \<equiv> zoom hsm_app (\<lambda>x h. h\<lparr>hsm_app := x\<rparr>) m"

definition NewHotstuffManager :: "u64 \<Rightarrow> 'a \<Rightarrow> (nat \<Rightarrow> u64) \<Rightarrow> 'a HotstuffManager" where
  "NewHotstuffManager localID a rnd = \<lparr>hsm_localID = localID,
     hsm_curView = \<lparr>v_slot = 0, v_leader = 0, v_start = 0, v_header = blk_header zero_SignedBlock, v_txs = zero_MsgSet,
       v_phase = PhaseInit, v_members = [], v_highQuorum = NewMultiSignature 0, v_prepareQuorum = NewMultiSignature 0,
       v_preCommitQuorum = NewMultiSignature 0, v_commitQuorum = NewMultiSignature 0, v_createdAt = 0\<rparr>,
     hsm_app = a, hsm_out = [], hsm_rand = rnd, hsm_draws = 0, hsm_done = []\<rparr>"

section \<open>Parts of the handlers\<close>

definition updView :: "(view \<Rightarrow> view) \<Rightarrow> ('a, unit) hgo" where
  "updView f = modify (\<lambda>h. h\<lparr>hsm_curView := f (hsm_curView h)\<rparr>)"

definition setPhase :: "PhaseState \<Rightarrow> ('a, unit) hgo" where
  "setPhase ph = updView (\<lambda>v. v\<lparr>v_phase := ph\<rparr>)"

text \<open>\<open>uint64(time.Now().Unix()-build.BaseTime) / build.SlotDuration\<close>\<close>

definition slotNow :: "int \<Rightarrow> u64" where
  "slotNow now = (word_of_int (now div Second) - BaseTime) div SlotDuration"

definition viewBlock :: "view \<Rightarrow> RawBlock" where
  "viewBlock v = \<lparr>rb_RawHeader = v_header v, rb_MsgSet = v_txs v\<rparr>"

definition emptyBlock :: "RawHeader \<Rightarrow> RawBlock" where
  "emptyBlock rh = \<lparr>rb_RawHeader = rh, rb_MsgSet = zero_MsgSet\<rparr>"

text \<open>\<open>hsm.RoleSign(context.TODO(), hsm.localID, hs.CalcHash(b.Hash().Bytes(), phase), types.SigBLS)\<close>\<close>

definition signBlock :: "lib \<Rightarrow> 'a ConsensusApp \<Rightarrow> RawBlock \<Rightarrow> PhaseState \<Rightarrow> ('a, Signature) hgo" where
  "signBlock L app b ph = bnd (gets hsm_localID) (\<lambda>i. on_app (ca_RoleSign app i (CalcHash L (RawBlock_Hash L b) ph) SigBLS))"

definition publish :: "HotstuffMessage \<Rightarrow> ('a, unit) hgo" where
  "publish m = modify (\<lambda>h. h\<lparr>hsm_out := hsm_out h @ [m]\<rparr>)"

text \<open>\<open>hsm.curView.xQuorum.Add(id, sig)\<close> for the quorum given by its field.\<close>

definition addQuorum :: "lib \<Rightarrow> (view \<Rightarrow> MultiSignature) \<Rightarrow> (MultiSignature \<Rightarrow> view \<Rightarrow> view) \<Rightarrow> u64 \<Rightarrow> Signature \<Rightarrow> ('a, unit) hgo" where
  "addQuorum L get put i sig =
     bnd (gets (\<lambda>h. get (hsm_curView h))) (\<lambda>ms.
     bnd (orFail (MultiSignature_Add (lb_sigAggregate L) ms i sig)) (\<lambda>ms'. updView (put ms')))"

abbreviation putHigh :: "MultiSignature \<Rightarrow> view \<Rightarrow> view" where "putHigh ms v \<equiv> v\<lparr>v_highQuorum := ms\<rparr>"
abbreviation putPrepare :: "MultiSignature \<Rightarrow> view \<Rightarrow> view" where "putPrepare ms v \<equiv> v\<lparr>v_prepareQuorum := ms\<rparr>"
abbreviation putPreCommit :: "MultiSignature \<Rightarrow> view \<Rightarrow> view" where "putPreCommit ms v \<equiv> v\<lparr>v_preCommitQuorum := ms\<rparr>"
abbreviation putCommit :: "MultiSignature \<Rightarrow> view \<Rightarrow> view" where "putCommit ms v \<equiv> v\<lparr>v_commitQuorum := ms\<rparr>"

definition deliver :: "'a ConsensusApp \<Rightarrow> SignedBlock \<Rightarrow> ('a, unit) hgo" where
  "deliver app sb =
     seq (modify (\<lambda>h. h\<lparr>hsm_done := hsm_done h @ [(ca_GetQuorumSize app (hsm_app h), sb)]\<rparr>))
         (on_app (ca_OnViewDone app sb))"

definition quorumSize :: "'a ConsensusApp \<Rightarrow> ('a, int) hgo" where
  "quorumSize app = gets (\<lambda>h. ca_GetQuorumSize app (hsm_app h))"

definition isLeader :: "('a, bool) hgo" where
  "isLeader = gets (\<lambda>h. v_leader (hsm_curView h) = hsm_localID h)"

section \<open>Views\<close>

text \<open>
  ``last one on commit'': the node votes for the block of its last view again, with a random
  signer in the quorum so that the message is a new one.
\<close>

definition reConsensus :: "lib \<Rightarrow> 'a ConsensusApp \<Rightarrow> ('a, unit) hgo" where
  "reConsensus L app =
     seq (updView (\<lambda>v. v\<lparr>v_commitQuorum := NewMultiSignature SigBLS, v_phase := PhaseCommit\<rparr>))
    (bnd (gets (\<lambda>h. viewBlock (hsm_curView h))) (\<lambda>sp.
     bnd (signBlock L app sp PhaseCommit) (\<lambda>sig.
     bnd isLeader (\<lambda>lead.
     if lead then bnd (gets hsm_localID) (\<lambda>i. dropErr (addQuorum L v_commitQuorum putCommit i sig))
     else
       bnd (gets (\<lambda>h. (hsm_localID h, hsm_rand h (hsm_draws h)))) (\<lambda>(i, rnd).
       seq (modify (\<lambda>h. h\<lparr>hsm_draws := Suc (hsm_draws h)\<rparr>))
           (publish \<lparr>hm_From = i, hm_Type = MsgVoteCommit, hm_Data = sp, hm_Sig = sig,
              hm_Quorum = (case MultiSignature_Add (lb_sigAggregate L) (NewMultiSignature SigBLS) rnd sig of
                 Inl _ \<Rightarrow> NewMultiSignature SigBLS | Inr q \<Rightarrow> q)\<rparr>))))))"

text \<open>The reset of the view to the header \<open>rh\<close>.\<close>

definition resetView :: "'a ConsensusApp \<Rightarrow> RawHeader \<Rightarrow> ('a, unit) hgo" where
  "resetView app rh =
     bnd (on_app (ca_now app)) (\<lambda>now.
     seq (modify (\<lambda>h. h\<lparr>hsm_curView := (hsm_curView h)\<lparr>v_phase := PhaseInit,
            v_highQuorum := NewMultiSignature SigBLS, v_prepareQuorum := NewMultiSignature SigBLS,
            v_preCommitQuorum := NewMultiSignature SigBLS, v_commitQuorum := NewMultiSignature SigBLS,
            v_txs := zero_MsgSet, v_createdAt := now, v_header := rh,
            v_members := ca_GetMembers app (hsm_app h)\<rparr>\<rparr>))
    (bnd (gets (\<lambda>h. (v_members (hsm_curView h), hsm_localID h))) (\<lambda>(mems, i).
     reject (mems \<noteq> [] \<and> i \<notin> set mems) ''not committee member'')))"

text \<open>The last view's block is delivered when its commit quorum is complete.\<close>

definition finishView :: "'a ConsensusApp \<Rightarrow> ('a, unit) hgo" where
  "finishView app =
     bnd (gets hsm_curView) (\<lambda>v.
     bnd (quorumSize app) (\<lambda>quorum.
     if v_phase v \<noteq> PhaseFinal \<and> int (MultiSignature_Len (v_commitQuorum v)) \<ge> quorum then
       seq (dropErr (deliver app \<lparr>sb_RawBlock = viewBlock v, sb_MultiSignature = v_commitQuorum v\<rparr>))
           (setPhase PhaseFinal)
     else ret ()))"

text \<open>The view of a later slot.\<close>

definition enterView :: "lib \<Rightarrow> 'a ConsensusApp \<Rightarrow> u64 \<Rightarrow> ('a, unit) hgo" where
  "enterView L app sl =
     seq (finishView app)
    (bnd (on_app (ca_CreateBlockHeader app sl)) (\<lambda>rh.
     seq (updView (\<lambda>v. v\<lparr>v_leader := rh_MinerID rh\<rparr>))
    (bnd (gets hsm_curView) (\<lambda>v.
     if rh_Height (v_header v) \<ge> rh_Height rh \<and> v_phase v = PhaseCommit \<and> sl < rh_Slot (v_header v) + 20
     then reConsensus L app
     else resetView app rh))))"

definition newView :: "lib \<Rightarrow> 'a ConsensusApp \<Rightarrow> ('a, unit) hgo" where
  "newView L app =
     bnd (on_app (ca_now app)) (\<lambda>now.
     let sl = slotNow now in
     bnd (gets hsm_curView) (\<lambda>v.
     if v_slot v = sl then ret ()
     else
       bnd (on_app (ca_now app)) (\<lambda>start.
       seq (updView (\<lambda>v. v\<lparr>v_slot := sl, v_start := start\<rparr>))
      (if rh_Slot (v_header v) = sl then ret ()
       else
         seq (reject (rh_Slot (v_header v) > sl) ''something badly happens'')
             (enterView L app sl)))))"

section \<open>Checking a message\<close>

definition quorumPhase :: "HsMsgType \<Rightarrow> PhaseState option" where
  "quorumPhase ty = (case ty of MsgPrepare \<Rightarrow> Some PhaseNew | MsgPreCommit \<Rightarrow> Some PhasePrepare
     | MsgCommit \<Rightarrow> Some PhasePreCommit | MsgDecide \<Rightarrow> Some PhaseCommit | _ \<Rightarrow> None)"

definition sigPhase :: "HsMsgType \<Rightarrow> PhaseState option" where
  "sigPhase ty = (case ty of MsgNewView \<Rightarrow> Some PhaseNew | MsgPrepare \<Rightarrow> Some PhasePrepare | MsgVotePrepare \<Rightarrow> Some PhasePrepare
     | MsgPreCommit \<Rightarrow> Some PhasePreCommit | MsgVotePreCommit \<Rightarrow> Some PhasePreCommit
     | MsgCommit \<Rightarrow> Some PhaseCommit | MsgVoteCommit \<Rightarrow> Some PhaseCommit | _ \<Rightarrow> None)"

text \<open>What the quorum of a message signed: nothing yet, the message's set, or the view's.\<close>

definition quorumSet :: "PhaseState \<Rightarrow> HotstuffMessage \<Rightarrow> view \<Rightarrow> MsgSet" where
  "quorumSet ph msg v = (if ph = PhaseNew then zero_MsgSet
     else if ph = PhasePrepare then rb_MsgSet (hm_Data msg) else v_txs v)"

definition checkQuorum :: "lib \<Rightarrow> 'a ConsensusApp \<Rightarrow> HotstuffMessage \<Rightarrow> ('a, unit) hgo" where
  "checkQuorum L app msg = (case quorumPhase (hm_Type msg) of
      None \<Rightarrow> ret ()
    | Some ph \<Rightarrow>
        bnd (quorumSize app) (\<lambda>quorum.
        seq (reject (int (MultiSignature_Len (hm_Quorum msg)) < quorum) ''quorum size is not enough'')
       (bnd (gets hsm_curView) (\<lambda>v.
        bnd (on_app (ca_RoleVerifyMulti app
              (CalcHash L (RawBlock_Hash L \<lparr>rb_RawHeader = rb_RawHeader (hm_Data msg), rb_MsgSet = quorumSet ph msg v\<rparr>) ph)
              (hm_Quorum msg))) (\<lambda>ok.
        reject (\<not> ok) ''quorum sign is invalid'')))))"

definition checkSig :: "lib \<Rightarrow> 'a ConsensusApp \<Rightarrow> HotstuffMessage \<Rightarrow> ('a, unit) hgo" where
  "checkSig L app msg = (case sigPhase (hm_Type msg) of
      None \<Rightarrow> ret ()
    | Some ph \<Rightarrow>
        bnd (on_app (ca_RoleVerify app (hm_From msg) (CalcHash L (RawBlock_Hash L (hm_Data msg)) ph) (hm_Sig msg))) (\<lambda>ok.
        reject (\<not> ok) ''sign is invalid''))"

definition sameHeader :: "lib \<Rightarrow> HotstuffMessage \<Rightarrow> view \<Rightarrow> bool" where
  "sameHeader L msg v \<longleftrightarrow> RawHeader_Hash L (v_header v) = RawHeader_Hash L (rb_RawHeader (hm_Data msg))"

definition checkView :: "lib \<Rightarrow> 'a ConsensusApp \<Rightarrow> HotstuffMessage \<Rightarrow> ('a, unit) hgo" where
  "checkView L app msg =
     bnd (gets hsm_curView) (\<lambda>v.
     seq (if sameHeader L msg v then ret () else newView L app)
    (bnd (gets hsm_curView) (\<lambda>v.
     seq (reject (\<not> sameHeader L msg v) ''checkView view not match'')
    (seq (reject (hm_From msg \<notin> set (v_members v)) ''checkView is not committee member'')
    (seq (checkQuorum L app msg)
         (checkSig L app msg))))))"

section \<open>The leader\<close>

text \<open>
  A phase of the leader: it moves on, signs the view's block, adds its own signature to the
  new quorum (dropping an error) and publishes the block with the quorum of the last phase.
\<close>

definition leaderPhase :: "lib \<Rightarrow> 'a ConsensusApp \<Rightarrow> PhaseState \<Rightarrow> (view \<Rightarrow> MultiSignature) \<Rightarrow> (MultiSignature \<Rightarrow> view \<Rightarrow> view) \<Rightarrow>
    HsMsgType \<Rightarrow> (view \<Rightarrow> MultiSignature) \<Rightarrow> ('a, unit) hgo" where
  "leaderPhase L app ph get put ty prev =
     bnd (gets (\<lambda>h. viewBlock (hsm_curView h))) (\<lambda>sp.
     bnd (signBlock L app sp ph) (\<lambda>sig.
     bnd (gets hsm_localID) (\<lambda>i.
     seq (dropErr (addQuorum L get put i sig))
    (bnd (gets (\<lambda>h. prev (hsm_curView h))) (\<lambda>quorum.
     publish \<lparr>hm_From = i, hm_Type = ty, hm_Data = sp, hm_Sig = sig, hm_Quorum = quorum\<rparr>)))))"

definition tryPropose :: "lib \<Rightarrow> 'a ConsensusApp \<Rightarrow> ('a, unit) hgo" where
  "tryPropose L app =
     bnd (gets hsm_curView) (\<lambda>v.
     seq (reject (v_phase v \<noteq> PhaseNew) ''phase state error'')
    (seq (setPhase PhasePrepare)
    (bnd (on_app (ca_Propose app (v_header v))) (\<lambda>txs.
     seq (updView (\<lambda>v. v\<lparr>v_txs := txs\<rparr>))
         (leaderPhase L app PhasePrepare v_prepareQuorum putPrepare MsgPrepare v_highQuorum)))))"

definition tryPreCommit :: "lib \<Rightarrow> 'a ConsensusApp \<Rightarrow> ('a, unit) hgo" where
  "tryPreCommit L app =
     bnd (gets hsm_curView) (\<lambda>v.
     seq (reject (v_phase v \<noteq> PhasePrepare) ''phase state error'')
    (seq (setPhase PhasePreCommit)
         (leaderPhase L app PhasePreCommit v_preCommitQuorum putPreCommit MsgPreCommit v_prepareQuorum)))"

definition tryCommit :: "lib \<Rightarrow> 'a ConsensusApp \<Rightarrow> ('a, unit) hgo" where
  "tryCommit L app =
     bnd (gets hsm_curView) (\<lambda>v.
     seq (reject (v_phase v \<noteq> PhasePreCommit) ''phase state error'')
    (seq (setPhase PhaseCommit)
         (leaderPhase L app PhaseCommit v_commitQuorum putCommit MsgCommit v_preCommitQuorum)))"

definition tryDecide :: "lib \<Rightarrow> 'a ConsensusApp \<Rightarrow> ('a, unit) hgo" where
  "tryDecide L app =
     bnd (gets hsm_curView) (\<lambda>v.
     seq (reject (v_phase v \<noteq> PhaseCommit) ''phase state error'')
    (seq (setPhase PhaseDecide)
    (bnd (signBlock L app (viewBlock v) PhaseDecide) (\<lambda>sig.
     bnd (gets hsm_localID) (\<lambda>i.
     seq (publish \<lparr>hm_From = i, hm_Type = MsgDecide, hm_Data = viewBlock v, hm_Sig = sig, hm_Quorum = v_commitQuorum v\<rparr>)
    (seq (deliver app \<lparr>sb_RawBlock = viewBlock v, sb_MultiSignature = v_commitQuorum v\<rparr>)
         (setPhase PhaseFinal)))))))"

text \<open>The leader's own entry into a view.\<close>

definition leaderNew :: "lib \<Rightarrow> 'a ConsensusApp \<Rightarrow> ('a, unit) hgo" where
  "leaderNew L app =
     bnd (gets hsm_curView) (\<lambda>v.
     seq (setPhase PhaseNew)
    (bnd (signBlock L app (emptyBlock (v_header v)) PhaseNew) (\<lambda>sig.
     bnd (gets hsm_localID) (\<lambda>i.
     addQuorum L v_highQuorum putHigh i sig))))"

text \<open>A vote of phase \<open>ph\<close> is added; one more than a quorum starts the next phase.\<close>

definition addVote :: "lib \<Rightarrow> 'a ConsensusApp \<Rightarrow> PhaseState \<Rightarrow> (view \<Rightarrow> MultiSignature) \<Rightarrow> (MultiSignature \<Rightarrow> view \<Rightarrow> view) \<Rightarrow>
    ('a, unit) hgo \<Rightarrow> HotstuffMessage \<Rightarrow> ('a, unit) hgo" where
  "addVote L app ph get put go msg =
     bnd (gets hsm_curView) (\<lambda>v.
     seq (reject (v_phase v \<noteq> ph) ''phase state wrong'')
    (seq (addQuorum L get put (hm_From msg) (hm_Sig msg))
    (bnd (gets (\<lambda>h. get (hsm_curView h))) (\<lambda>ms.
     bnd (quorumSize app) (\<lambda>quorum.
     if int (MultiSignature_Len ms) \<ge> quorum + 1 then go else ret ())))))"

definition handleNewViewVoteMsg :: "lib \<Rightarrow> 'a ConsensusApp \<Rightarrow> HotstuffMessage \<Rightarrow> ('a, unit) hgo" where
  "handleNewViewVoteMsg L app msg =
     bnd isLeader (\<lambda>lead. if \<not> lead then ret ()
     else
       seq (checkView L app msg)
      (bnd (gets hsm_curView) (\<lambda>v.
       seq (if v_phase v = PhaseInit then leaderNew L app else ret ())
           (addVote L app PhaseNew v_highQuorum putHigh (tryPropose L app) msg))))"

definition handlePrepareVoteMsg :: "lib \<Rightarrow> 'a ConsensusApp \<Rightarrow> HotstuffMessage \<Rightarrow> ('a, unit) hgo" where
  "handlePrepareVoteMsg L app msg =
     bnd isLeader (\<lambda>lead. if \<not> lead then ret ()
     else seq (checkView L app msg)
         (addVote L app PhasePrepare v_prepareQuorum putPrepare (tryPreCommit L app) msg))"

definition handlePreCommitVoteMsg :: "lib \<Rightarrow> 'a ConsensusApp \<Rightarrow> HotstuffMessage \<Rightarrow> ('a, unit) hgo" where
  "handlePreCommitVoteMsg L app msg =
     bnd isLeader (\<lambda>lead. if \<not> lead then ret ()
     else seq (checkView L app msg)
         (addVote L app PhasePreCommit v_preCommitQuorum putPreCommit (tryCommit L app) msg))"

definition handleCommitVoteMsg :: "lib \<Rightarrow> 'a ConsensusApp \<Rightarrow> HotstuffMessage \<Rightarrow> ('a, unit) hgo" where
  "handleCommitVoteMsg L app msg =
     bnd isLeader (\<lambda>lead. if \<not> lead then ret ()
     else seq (checkView L app msg)
         (addVote L app PhaseCommit v_commitQuorum putCommit (tryDecide L app) msg))"

section \<open>The replicas\<close>

text \<open>A vote: the message comes back with the replica's signature and an empty quorum.\<close>

definition vote :: "lib \<Rightarrow> 'a ConsensusApp \<Rightarrow> PhaseState \<Rightarrow> HsMsgType \<Rightarrow> HotstuffMessage \<Rightarrow> ('a, unit) hgo" where
  "vote L app ph ty msg =
     bnd (signBlock L app (hm_Data msg) ph) (\<lambda>sig.
     bnd (gets hsm_localID) (\<lambda>i.
     publish \<lparr>hm_From = i, hm_Type = ty, hm_Data = hm_Data msg, hm_Sig = sig, hm_Quorum = NewMultiSignature SigBLS\<rparr>))"

text \<open>A replica answers the leader of its view only; the check may have changed the view.\<close>

definition onLeaderMsg :: "lib \<Rightarrow> 'a ConsensusApp \<Rightarrow> HotstuffMessage \<Rightarrow> ('a, unit) hgo \<Rightarrow> ('a, unit) hgo" where
  "onLeaderMsg L app msg body =
     bnd isLeader (\<lambda>lead. if lead then ret ()
     else
       seq (checkView L app msg)
      (bnd (gets hsm_curView) (\<lambda>v. if v_leader v \<noteq> hm_From msg then ret () else body)))"

definition handlePrepareMsg :: "lib \<Rightarrow> 'a ConsensusApp \<Rightarrow> HotstuffMessage \<Rightarrow> ('a, unit) hgo" where
  "handlePrepareMsg L app msg = onLeaderMsg L app msg
     (seq (updView (\<lambda>v. if v_phase v = PhaseInit then v\<lparr>v_phase := PhaseNew\<rparr> else v))
     (bnd (gets hsm_curView) (\<lambda>v.
      seq (reject (v_phase v \<noteq> PhaseNew) ''phase state wrong'')
     (seq (if ca_skipCheck app then ret () else on_app (ca_OnPropose app (zero_SignedBlock\<lparr>sb_RawBlock := hm_Data msg\<rparr>)))
     (seq (updView (\<lambda>v. v\<lparr>v_phase := PhasePrepare, v_highQuorum := hm_Quorum msg, v_txs := rb_MsgSet (hm_Data msg)\<rparr>))
          (vote L app PhasePrepare MsgVotePrepare msg))))))"

definition handlePreCommitMsg :: "lib \<Rightarrow> 'a ConsensusApp \<Rightarrow> HotstuffMessage \<Rightarrow> ('a, unit) hgo" where
  "handlePreCommitMsg L app msg = onLeaderMsg L app msg
     (bnd (gets hsm_curView) (\<lambda>v.
      seq (reject (v_phase v \<noteq> PhasePrepare) ''phase state wrong'')
     (seq (updView (\<lambda>v. v\<lparr>v_phase := PhasePreCommit, v_prepareQuorum := hm_Quorum msg\<rparr>))
          (vote L app PhasePreCommit MsgVotePreCommit msg))))"

definition handleCommitMsg :: "lib \<Rightarrow> 'a ConsensusApp \<Rightarrow> HotstuffMessage \<Rightarrow> ('a, unit) hgo" where
  "handleCommitMsg L app msg = onLeaderMsg L app msg
     (bnd (gets hsm_curView) (\<lambda>v.
      seq (reject (v_phase v \<noteq> PhasePreCommit) ''phase state wrong'')
     (seq (updView (\<lambda>v. v\<lparr>v_phase := PhaseCommit, v_preCommitQuorum := hm_Quorum msg\<rparr>))
          (vote L app PhaseCommit MsgVoteCommit msg))))"

definition handleDecideMsg :: "lib \<Rightarrow> 'a ConsensusApp \<Rightarrow> HotstuffMessage \<Rightarrow> ('a, unit) hgo" where
  "handleDecideMsg L app msg = onLeaderMsg L app msg
     (bnd (gets hsm_curView) (\<lambda>v.
      seq (reject (v_phase v \<noteq> PhaseCommit) ''phase state wrong'')
     (seq (updView (\<lambda>v. v\<lparr>v_phase := PhaseDecide, v_commitQuorum := hm_Quorum msg\<rparr>))
     (seq (deliver app \<lparr>sb_RawBlock = viewBlock v, sb_MultiSignature = hm_Quorum msg\<rparr>)
          (setPhase PhaseFinal)))))"

definition HandleMessage :: "lib \<Rightarrow> 'a ConsensusApp \<Rightarrow> HotstuffMessage \<Rightarrow> ('a, unit) hgo" where
  "HandleMessage L app msg = (case hm_Type msg of
      MsgNewView \<Rightarrow> handleNewViewVoteMsg L app msg
    | MsgPrepare \<Rightarrow> handlePrepareMsg L app msg
    | MsgVotePrepare \<Rightarrow> handlePrepareVoteMsg L app msg
    | MsgPreCommit \<Rightarrow> handlePreCommitMsg L app msg
    | MsgVotePreCommit \<Rightarrow> handlePreCommitVoteMsg L app msg
    | MsgCommit \<Rightarrow> handleCommitMsg L app msg
    | MsgVoteCommit \<Rightarrow> handleCommitVoteMsg L app msg
    | MsgDecide \<Rightarrow> handleDecideMsg L app msg
    | MsgUnknown n \<Rightarrow> fail (Err ''unknown hotstuff message type''))"

section \<open>The clock\<close>

text \<open>Block zero is made without votes, by the keeper with the smallest identifier.\<close>

definition blockZero :: "lib \<Rightarrow> 'a ConsensusApp \<Rightarrow> ('a, unit) hgo" where
  "blockZero L app =
     seq (setPhase PhaseFinal)
    (bnd (gets hsm_curView) (\<lambda>v.
     bnd (on_app (ca_Propose app (v_header v))) (\<lambda>txs.
     bnd (gets hsm_localID) (\<lambda>i.
     if fold min (map (\<lambda>sm. msg_From (sm_Message sm)) (mset_Msgs txs)) i \<noteq> i then ret ()
     else
       seq (updView (\<lambda>v. v\<lparr>v_txs := txs\<rparr>))
      (let sp = \<lparr>rb_RawHeader = v_header v, rb_MsgSet = txs\<rparr> in
       bnd (signBlock L app sp PhaseCommit) (\<lambda>sig.
       dropErr (deliver app \<lparr>sb_RawBlock = sp,
         sb_MultiSignature = (case MultiSignature_Add (lb_sigAggregate L) (NewMultiSignature SigBLS) i sig of
            Inl _ \<Rightarrow> NewMultiSignature SigBLS | Inr q \<Rightarrow> q)\<rparr>)))))))"

definition NewView :: "lib \<Rightarrow> 'a ConsensusApp \<Rightarrow> ('a, unit) hgo" where
  "NewView L app =
     seq (newView L app)
    (bnd (gets hsm_curView) (\<lambda>v.
     if v_phase v = PhaseCommit then ret ()
     else
       seq (reject (v_phase v \<noteq> PhaseInit) ''phase is wrong'')
      (if rh_Height (v_header v) = 0 then blockZero L app
       else bnd isLeader (\<lambda>lead.
         if lead then leaderNew L app
         else
           seq (setPhase PhaseNew)
          (bnd (signBlock L app (emptyBlock (v_header v)) PhaseNew) (\<lambda>sig.
           bnd (gets hsm_localID) (\<lambda>i.
           publish \<lparr>hm_From = i, hm_Type = MsgNewView, hm_Data = emptyBlock (v_header v), hm_Sig = sig,
             hm_Quorum = NewMultiSignature 0\<rparr>)))))))"

text \<open>In the slot of the view the leader moves on after a while with a quorum that is just complete.\<close>

definition lateStep :: "'a ConsensusApp \<Rightarrow> (view \<Rightarrow> MultiSignature) \<Rightarrow> int \<Rightarrow> ('a, unit) hgo \<Rightarrow> ('a, unit) hgo" where
  "lateStep app get secs go =
     bnd (gets hsm_curView) (\<lambda>v.
     bnd (quorumSize app) (\<lambda>quorum.
     if int (MultiSignature_Len (get v)) \<ge> quorum then
       bnd (on_app (ca_now app)) (\<lambda>now. if now - v_start v > secs * Second then dropErr go else ret ())
     else ret ()))"

definition leaderTick :: "lib \<Rightarrow> 'a ConsensusApp \<Rightarrow> ('a, unit) hgo" where
  "leaderTick L app =
     bnd (gets hsm_curView) (\<lambda>v. case v_phase v of
       PhaseNew \<Rightarrow> lateStep app v_highQuorum 3 (tryPropose L app)
     | PhasePrepare \<Rightarrow> lateStep app v_prepareQuorum 15 (tryPreCommit L app)
     | PhasePreCommit \<Rightarrow> lateStep app v_preCommitQuorum 18 (tryCommit L app)
     | PhaseCommit \<Rightarrow> lateStep app v_commitQuorum 20 (tryDecide L app)
     | _ \<Rightarrow> ret ())"

definition mineTick :: "lib \<Rightarrow> 'a ConsensusApp \<Rightarrow> ('a, unit) hgo" where
  "mineTick L app =
     bnd (on_app (ca_now app)) (\<lambda>now.
     bnd (gets (\<lambda>h. rh_Slot (v_header (hsm_curView h)))) (\<lambda>sl.
     if sl = slotNow now then bnd isLeader (\<lambda>lead. if lead then leaderTick L app else ret ())
     else dropErr (NewView L app)))"

section \<open>One keeper alone\<close>

record 'a PoAManager =
  poa_localID :: u64
  poa_app :: 'a
  poa_pub :: "SignedBlock list"

abbreviation on_poa :: "('a, 'b) go \<Rightarrow> ('a PoAManager, 'b) go" where
  "on_poa m \<equiv> zoom poa_app (\<lambda>x h. h\<lparr>poa_app := x\<rparr>) m"

text \<open>A tick of \<open>PoAManager.MineBlock\<close>; every error is logged and ends the tick.\<close>

definition poaBlock :: "lib \<Rightarrow> 'a ConsensusApp \<Rightarrow> ('a PoAManager, unit) go" where
  "poaBlock L app =
     bnd (on_poa (ca_CreateBlockHeader app 0)) (\<lambda>rh.
     bnd (gets poa_localID) (\<lambda>i.
     bnd (if rh_MinerID rh = i then on_poa (ca_Propose app rh) else ret zero_MsgSet) (\<lambda>txs.
     let tb = \<lparr>sb_RawBlock = \<lparr>rb_RawHeader = rh, rb_MsgSet = txs\<rparr>, sb_MultiSignature = NewMultiSignature SigSecp256k1\<rparr> in
     seq (on_poa (ca_OnPropose app tb))
    (bnd (if rh_MinerID rh = i then
            bnd (on_poa (ca_RoleSign app i (CalcHash L (RawBlock_Hash L (sb_RawBlock tb)) PhaseCommit) SigSecp256k1)) (\<lambda>sig.
            ret (case MultiSignature_Add (lb_sigAggregate L) (sb_MultiSignature tb) i sig of
                   Inl _ \<Rightarrow> tb | Inr q \<Rightarrow> tb\<lparr>sb_MultiSignature := q\<rparr>))
          else ret tb) (\<lambda>tb.
     seq (on_poa (ca_OnViewDone app tb))
         (modify (\<lambda>h. h\<lparr>poa_pub := poa_pub h @ [tb]\<rparr>)))))))"

definition poaTick :: "lib \<Rightarrow> 'a ConsensusApp \<Rightarrow> ('a PoAManager, unit) go" where
  "poaTick L app = dropErr (poaBlock L app)"

end
