(* ===== verification/HotStuffSafe.thy ===== *)
theory HotStuffSafe
  imports HotStuff
begin

text \<open>
  What a node of the consensus never does: it signs at most one block in the prepare phase and
  one in the pre-commit phase of a slot, and it delivers no block (but block zero) without a
  quorum of different signers.

  The locale \<open>consensus_app\<close> holds what the manager relies on: the header made for a slot is of
  that slot, a multi-signature that verifies has different signers, and signing and verifying
  leave the quorum size alone.  It is interpreted on the pool of the node.
\<close>

locale consensus_app =
  fixes app :: "'a ConsensusApp"
  assumes header_slot: "ca_CreateBlockHeader app sl a = (Inr rh, b) \<Longrightarrow> rh_Slot rh = sl"
    and verify_distinct: "ca_RoleVerifyMulti app d ms a = (Inr True, b) \<Longrightarrow> distinct (ms_Signer ms)"
    and sign_quorum: "ca_GetQuorumSize app (snd (ca_RoleSign app i d ty a)) = ca_GetQuorumSize app a"
    and verify_quorum: "ca_GetQuorumSize app (snd (ca_RoleVerify app i d sig a)) = ca_GetQuorumSize app a"
    and multi_quorum: "ca_GetQuorumSize app (snd (ca_RoleVerifyMulti app d ms a)) = ca_GetQuorumSize app a"
    and now_quorum: "ca_GetQuorumSize app (snd (ca_now app a)) = ca_GetQuorumSize app a"

section \<open>The invariant\<close>

definition signTypes :: "PhaseState \<Rightarrow> HsMsgType set" where
  "signTypes ph = (if ph = PhasePrepare then {MsgPrepare, MsgVotePrepare}
     else if ph = PhasePreCommit then {MsgPreCommit, MsgVotePreCommit} else {})"

definition msgSlot :: "HotstuffMessage \<Rightarrow> u64" where
  "msgSlot m = rh_Slot (rb_RawHeader (hm_Data m))"

text \<open>The slots in which the node has signed a block of phase \<open>ph\<close>, in the order it did.\<close>

definition signedSlots :: "PhaseState \<Rightarrow> HotstuffMessage list \<Rightarrow> u64 list" where
  "signedSlots ph out = map msgSlot (filter (\<lambda>m. hm_Type m \<in> signTypes ph) out)"

definition curSlot :: "'a HotstuffManager \<Rightarrow> u64" where
  "curSlot h = rh_Slot (v_header (hsm_curView h))"

definition seen :: "PhaseState \<Rightarrow> 'a HotstuffManager \<Rightarrow> bool" where
  "seen ph h \<longleftrightarrow> sorted_wrt (<) (signedSlots ph (hsm_out h)) \<and> (\<forall>s \<in> set (signedSlots ph (hsm_out h)).
     s < curSlot h \<or> s = curSlot h \<and> phase_num ph \<le> phase_num (v_phase (hsm_curView h)))"

definition quorums_ok :: "view \<Rightarrow> bool" where
  "quorums_ok v \<longleftrightarrow> distinct (ms_Signer (v_highQuorum v)) \<and> distinct (ms_Signer (v_prepareQuorum v)) \<and>
     distinct (ms_Signer (v_preCommitQuorum v)) \<and> distinct (ms_Signer (v_commitQuorum v))"

definition done_ok :: "'a HotstuffManager \<Rightarrow> bool" where
  "done_ok h \<longleftrightarrow> (\<forall>(n, sb) \<in> set (hsm_done h). rh_Height (blk_header sb) = 0 \<or>
     distinct (ms_Signer (sb_MultiSignature sb)) \<and> n \<le> int (MultiSignature_Len (sb_MultiSignature sb)))"

text \<open>Header hashes tell slots apart; what is said of slots holds under it.\<close>

definition slot_bound :: "lib \<Rightarrow> bool" where
  "slot_bound L \<longleftrightarrow> (\<forall>h k. RawHeader_Hash L h = RawHeader_Hash L k \<longrightarrow> rh_Slot h = rh_Slot k)"

lemma slot_boundD: "slot_bound L \<Longrightarrow> RawHeader_Hash L h = RawHeader_Hash L k \<Longrightarrow> rh_Slot h = rh_Slot k"
  unfolding slot_bound_def by blast

definition hs_inv :: "lib \<Rightarrow> 'a HotstuffManager \<Rightarrow> bool" where
  "hs_inv L h \<longleftrightarrow> (slot_bound L \<longrightarrow> (\<forall>ph. seen ph h)) \<and> quorums_ok (hsm_curView h) \<and> done_ok h"

text \<open>Just entered phase \<open>ph\<close>: nothing signed in it yet.\<close>

definition fresh :: "lib \<Rightarrow> PhaseState \<Rightarrow> 'a HotstuffManager \<Rightarrow> bool" where
  "fresh L ph h \<longleftrightarrow> hs_inv L h \<and> v_phase (hsm_curView h) = ph \<and> (slot_bound L \<longrightarrow> (\<forall>s \<in> set (signedSlots ph (hsm_out h)). s < curSlot h))"

lemma signedSlots_simps [simp]:
  "signedSlots ph [] = []"
  "signedSlots ph (out @ [m]) = (if hm_Type m \<in> signTypes ph then signedSlots ph out @ [msgSlot m] else signedSlots ph out)"
  by (simp_all add: signedSlots_def)

lemma fresh_inv: "fresh L ph h \<Longrightarrow> hs_inv L h"
  by (simp add: fresh_def)

lemma inv_app [simp]: "hs_inv L (h\<lparr>hsm_app := a\<rparr>) = hs_inv L h" "fresh L ph (h\<lparr>hsm_app := a\<rparr>) = fresh L ph h"
  by (simp_all add: hs_inv_def fresh_def seen_def curSlot_def done_ok_def)

lemma inv_draws [simp]: "hs_inv L (h\<lparr>hsm_draws := n\<rparr>) = hs_inv L h"
  by (simp add: hs_inv_def seen_def curSlot_def done_ok_def)

lemma curSlot_simps [simp]:
  "curSlot (h\<lparr>hsm_app := a\<rparr>) = curSlot h" "curSlot (h\<lparr>hsm_out := out\<rparr>) = curSlot h"
  "curSlot (h\<lparr>hsm_curView := v\<rparr>) = rh_Slot (v_header v)"
  by (simp_all add: curSlot_def)

lemma inv_view:
  assumes "hs_inv L h" and "v_header v = v_header (hsm_curView h)"
    and "phase_num (v_phase (hsm_curView h)) \<le> phase_num (v_phase v)" and "quorums_ok v"
  shows "hs_inv L (h\<lparr>hsm_curView := v\<rparr>)"
  using assms by (fastforce simp: hs_inv_def seen_def curSlot_def done_ok_def)

lemma fresh_raise:
  assumes "hs_inv L h" and "v_header v = v_header (hsm_curView h)"
    and "phase_num (v_phase (hsm_curView h)) < phase_num (v_phase v)" and "quorums_ok v"
  shows "fresh L (v_phase v) (h\<lparr>hsm_curView := v\<rparr>)"
proof -
  have "hs_inv L (h\<lparr>hsm_curView := v\<rparr>)"
    using inv_view [OF assms(1,2) _ assms(4)] assms(3) by simp
  moreover have "s < curSlot h" if "slot_bound L" "s \<in> set (signedSlots (v_phase v) (hsm_out h))" for s
    using assms(1,3) that by (fastforce simp: hs_inv_def seen_def)
  ultimately show ?thesis
    using assms(2) by (simp add: fresh_def curSlot_def)
qed

lemma inv_later:
  assumes "hs_inv L h" and "curSlot h < rh_Slot (v_header v)" and "quorums_ok v"
  shows "hs_inv L (h\<lparr>hsm_curView := v\<rparr>)"
  using assms by (force simp: hs_inv_def seen_def done_ok_def)

lemma fresh_publish:
  assumes "fresh L ph h" and "hm_Type m \<in> signTypes ph" and "slot_bound L \<Longrightarrow> msgSlot m = curSlot h"
  shows "hs_inv L (h\<lparr>hsm_out := hsm_out h @ [m]\<rparr>)"
proof -
  have "seen ph' (h\<lparr>hsm_out := hsm_out h @ [m]\<rparr>)" if "slot_bound L" for ph'
  proof (cases "ph' = ph")
    case True
    then show ?thesis
      using assms that by (auto simp: fresh_def hs_inv_def seen_def sorted_wrt_append)
  next
    case False
    then have "hm_Type m \<notin> signTypes ph'"
      using assms(2) by (auto simp: signTypes_def split: if_splits)
    then show ?thesis
      using assms(1) that by (auto simp: fresh_def hs_inv_def seen_def)
  qed
  then show ?thesis
    using assms(1) by (simp add: fresh_def hs_inv_def done_ok_def)
qed

lemma inv_publish:
  assumes "hs_inv L h" and "hm_Type m \<notin> signTypes PhasePrepare \<union> signTypes PhasePreCommit"
  shows "hs_inv L (h\<lparr>hsm_out := hsm_out h @ [m]\<rparr>)"
proof -
  have "hm_Type m \<notin> signTypes ph" for ph
    using assms(2) by (auto simp: signTypes_def split: if_splits)
  then show ?thesis
    using assms(1) by (simp add: hs_inv_def seen_def done_ok_def)
qed

lemma inv_start: "hs_inv L (NewHotstuffManager i a rnd)"
  by (simp add: NewHotstuffManager_def hs_inv_def seen_def quorums_ok_def done_ok_def NewMultiSignature_def)

section \<open>The parts of the handlers\<close>

text \<open>A quorum field of the view.\<close>

definition quorum_field :: "(view \<Rightarrow> MultiSignature) \<Rightarrow> (MultiSignature \<Rightarrow> view \<Rightarrow> view) \<Rightarrow> bool" where
  "quorum_field get put \<longleftrightarrow> (\<forall>ms v. get (put ms v) = ms \<and> v_header (put ms v) = v_header v \<and> v_phase (put ms v) = v_phase v \<and>
     (quorums_ok v \<longrightarrow> distinct (ms_Signer (get v)) \<and> (distinct (ms_Signer ms) \<longrightarrow> quorums_ok (put ms v))))"

lemma quorum_fields [simp]:
  "quorum_field v_highQuorum putHigh" "quorum_field v_prepareQuorum putPrepare"
  "quorum_field v_preCommitQuorum putPreCommit" "quorum_field v_commitQuorum putCommit"
  by (simp_all add: quorum_field_def quorums_ok_def)

lemma Add_distinct:
  "MultiSignature_Add agg ms i sig = Inr ms' \<Longrightarrow> distinct (ms_Signer ms) \<Longrightarrow> distinct (ms_Signer ms')"
  by (auto simp: MultiSignature_Add_def split: if_splits option.splits)

lemma NewMultiSignature_distinct [simp]: "distinct (ms_Signer (NewMultiSignature t))"
  by (simp add: NewMultiSignature_def)

text \<open>Assertions that look at neither the application nor the quorums.\<close>

definition stable :: "('a HotstuffManager \<Rightarrow> bool) \<Rightarrow> bool" where
  "stable P \<longleftrightarrow> (\<forall>h a. P h \<longrightarrow> P (h\<lparr>hsm_app := a\<rparr>)) \<and>
     (\<forall>h get put ms. P h \<longrightarrow> quorum_field get put \<longrightarrow> distinct (ms_Signer ms) \<longrightarrow> P (h\<lparr>hsm_curView := put ms (hsm_curView h)\<rparr>)) \<and>
     (\<forall>h. P h \<longrightarrow> quorums_ok (hsm_curView h))"

lemma put_same:
  "quorum_field get put \<Longrightarrow> v_header (put ms v) = v_header v" "quorum_field get put \<Longrightarrow> v_phase (put ms v) = v_phase v"
  by (simp_all add: quorum_field_def)

lemma put_view:
  assumes "hs_inv L h" and "quorum_field get put" and "distinct (ms_Signer ms)"
  shows "hs_inv L (h\<lparr>hsm_curView := put ms (hsm_curView h)\<rparr>)"
proof -
  have "quorums_ok (hsm_curView h)"
    using assms(1) by (simp add: hs_inv_def)
  with assms(2,3) show ?thesis
    by (simp add: quorum_field_def inv_view [OF assms(1)])
qed

lemma inv_quorums: "hs_inv L h \<Longrightarrow> quorums_ok (hsm_curView h)"
  by (simp add: hs_inv_def)

lemma stable_inv: "stable (hs_inv L)"
  by (simp add: stable_def put_view inv_quorums)

lemma stable_fresh: "stable (\<lambda>h. fresh L ph h \<and> curSlot h = sl)"
  by (simp add: stable_def fresh_def put_view inv_quorums) (auto simp: put_same curSlot_def intro: inv_quorums)

lemma stable_older: "stable (\<lambda>h. hs_inv L h \<and> curSlot h < sl)"
  by (simp add: stable_def put_view inv_quorums) (auto simp: put_same curSlot_def intro: inv_quorums)

lemma on_app_triple: "stable P \<Longrightarrow> triple P (on_app m) (\<lambda>_. P) P"
  by (rule triple_zoom) (auto simp: stable_def)

lemma signBlock_triple: "stable P \<Longrightarrow> triple P (signBlock L app b ph) (\<lambda>_. P) P"
  unfolding signBlock_def
  by (intro triple_read triple_pre [OF on_app_triple]) auto

lemma addQuorum_triple:
  assumes "stable P" and "quorum_field get put"
  shows "triple P (addQuorum L get put i sig) (\<lambda>_. P) P"
proof -
  have "P (h\<lparr>hsm_curView := put ms' (hsm_curView h)\<rparr>)"
    if "P h" "MultiSignature_Add (lb_sigAggregate L) (get (hsm_curView h)) i sig = Inr ms'" for h ms'
  proof -
    have "distinct (ms_Signer (get (hsm_curView h)))"
      using that(1) assms by (auto simp: stable_def quorum_field_def)
    from Add_distinct [OF that(2) this] that(1) assms show ?thesis
      by (auto simp: stable_def)
  qed
  then show ?thesis
    unfolding addQuorum_def updView_def
    by (intro triple_read triple_bnd [OF triple_orFail] triple_modify) auto
qed


lemma publish_fresh_triple:
  "hm_Type m \<in> signTypes ph \<Longrightarrow> (slot_bound L \<Longrightarrow> msgSlot m = sl) \<Longrightarrow>
   triple (\<lambda>h. fresh L ph h \<and> curSlot h = sl) (publish m) (\<lambda>_. hs_inv L) R"
  unfolding publish_def by (rule triple_modify) (auto intro: fresh_publish)

lemma publish_triple:
  "hm_Type m \<notin> signTypes PhasePrepare \<union> signTypes PhasePreCommit \<Longrightarrow> triple (hs_inv L) (publish m) (\<lambda>_. hs_inv L) R"
  unfolding publish_def by (rule triple_modify) (rule inv_publish)

lemma signBlock_bnd:
  "stable P \<Longrightarrow> (\<And>h. P h \<Longrightarrow> R h) \<Longrightarrow> (\<And>sig. triple P (g sig) Q R) \<Longrightarrow> triple P (bnd (signBlock L app b ph) g) Q R"
  by (rule triple_bnd [OF triple_err [OF signBlock_triple]])

text \<open>Signing and publishing, for the messages that count and the others.\<close>

lemma leaderPhase_fresh:
  assumes qf: "quorum_field get put" and ty: "ty \<in> signTypes ph"
  shows "triple (fresh L ph) (leaderPhase L app ph get put ty prev) (\<lambda>_. hs_inv L) (hs_inv L)"
  unfolding leaderPhase_def
proof (rule triple_read_pre [where P' = "\<lambda>sp h. fresh L ph h \<and> curSlot h = rh_Slot (rb_RawHeader sp)"])
  fix sp :: RawBlock
  let ?P = "\<lambda>h. fresh L ph h \<and> curSlot h = rh_Slot (rb_RawHeader sp)"
  have st: "stable ?P" by (rule stable_fresh)
  show "triple ?P (bnd (signBlock L app sp ph) (\<lambda>sig. bnd (gets hsm_localID) (\<lambda>i.
      seq (dropErr (addQuorum L get put i sig)) (bnd (gets (\<lambda>h. prev (hsm_curView h))) (\<lambda>quorum.
        publish \<lparr>hm_From = i, hm_Type = ty, hm_Data = sp, hm_Sig = sig, hm_Quorum = quorum\<rparr>))))) (\<lambda>_. hs_inv L) (hs_inv L)"
    by (intro signBlock_bnd [OF st] triple_read_pre [where P' = "\<lambda>_. ?P"]
        triple_seq [OF triple_err [OF triple_dropErr [OF addQuorum_triple [OF st qf]]]]
        publish_fresh_triple) (auto simp: msgSlot_def fresh_def ty)
qed (auto simp: viewBlock_def curSlot_def)

lemma leaderPhase_other:
  assumes qf: "quorum_field get put" and ty: "ty \<notin> signTypes PhasePrepare \<union> signTypes PhasePreCommit"
  shows "triple (hs_inv L) (leaderPhase L app ph get put ty prev) (\<lambda>_. hs_inv L) (hs_inv L)"
  unfolding leaderPhase_def
  by (intro triple_read_pre [where P' = "\<lambda>_. hs_inv L"] signBlock_bnd [OF stable_inv]
      triple_seq [OF triple_dropErr [OF addQuorum_triple [OF stable_inv qf]]] publish_triple) (use ty in auto)

lemma quorums_ok_simps [simp]:
  "quorums_ok (v\<lparr>v_phase := ph\<rparr>) = quorums_ok v" "quorums_ok (v\<lparr>v_txs := txs\<rparr>) = quorums_ok v"
  "quorums_ok (v\<lparr>v_slot := sl, v_start := n\<rparr>) = quorums_ok v" "quorums_ok (v\<lparr>v_leader := i\<rparr>) = quorums_ok v"
  by (simp_all add: quorums_ok_def)

lemma setPhase_fresh:
  "triple (\<lambda>h. hs_inv L h \<and> phase_num (v_phase (hsm_curView h)) < phase_num ph) (setPhase ph) (\<lambda>_. fresh L ph) R"
  unfolding setPhase_def updView_def
proof (rule triple_modify)
  fix h :: "'a HotstuffManager"
  assume "hs_inv L h \<and> phase_num (v_phase (hsm_curView h)) < phase_num ph"
  then show "fresh L ph (h\<lparr>hsm_curView := (hsm_curView h)\<lparr>v_phase := ph\<rparr>\<rparr>)"
    using fresh_raise [of L h "(hsm_curView h)\<lparr>v_phase := ph\<rparr>"] inv_quorums [of L h] by simp
qed

lemma setPhase_inv:
  "triple (\<lambda>h. hs_inv L h \<and> phase_num (v_phase (hsm_curView h)) \<le> phase_num ph) (setPhase ph) (\<lambda>_. hs_inv L) R"
  unfolding setPhase_def updView_def
  by (rule triple_modify) (auto intro!: inv_view intro: inv_quorums)

lemma stable_phase: "stable (fresh L ph)"
  by (simp add: stable_def fresh_def put_view inv_quorums) (auto simp: put_same curSlot_def intro: inv_quorums)

lemma putTxs_fresh: "triple (fresh L ph) (updView (\<lambda>v. v\<lparr>v_txs := txs\<rparr>)) (\<lambda>_. fresh L ph) R"
  unfolding updView_def fresh_def
  by (rule triple_modify) (auto simp: curSlot_def inv_quorums intro!: inv_view)

lemma tryPropose_triple: "triple (hs_inv L) (tryPropose L app) (\<lambda>_. hs_inv L) (hs_inv L)"
  unfolding tryPropose_def
  by (intro triple_read triple_check triple_seq [OF triple_pre [OF setPhase_fresh [of L]]]
      triple_bnd [OF triple_err [OF on_app_triple [OF stable_phase]]]
      triple_seq [OF putTxs_fresh] leaderPhase_fresh) (auto simp: signTypes_def fresh_def)

lemma tryPreCommit_triple: "triple (hs_inv L) (tryPreCommit L app) (\<lambda>_. hs_inv L) (hs_inv L)"
  unfolding tryPreCommit_def
  by (intro triple_read triple_check triple_seq [OF triple_pre [OF setPhase_fresh [of L]]] leaderPhase_fresh)
    (auto simp: signTypes_def)

lemma tryCommit_triple: "triple (hs_inv L) (tryCommit L app) (\<lambda>_. hs_inv L) (hs_inv L)"
  unfolding tryCommit_def
  by (intro triple_read triple_check triple_seq [OF triple_pre [OF setPhase_inv [of L]]] leaderPhase_other)
    (auto simp: signTypes_def)

text \<open>A delivered block has its quorum.\<close>

definition enough :: "'a ConsensusApp \<Rightarrow> MultiSignature \<Rightarrow> 'a HotstuffManager \<Rightarrow> bool" where
  "enough app ms h \<longleftrightarrow> ca_GetQuorumSize app (hsm_app h) \<le> int (MultiSignature_Len ms)"

lemma deliver_keeps:
  assumes "\<And>h. P h \<Longrightarrow> hs_inv L h \<and> (rh_Height (blk_header sb) = 0 \<or> distinct (ms_Signer (sb_MultiSignature sb)) \<and> enough app (sb_MultiSignature sb) h)"
  shows "triple (\<lambda>h. P h \<and> curSlot h = sl \<and> v_phase (hsm_curView h) = ph) (deliver app sb)
    (\<lambda>_ h. hs_inv L h \<and> curSlot h = sl \<and> v_phase (hsm_curView h) = ph) (\<lambda>h. hs_inv L h \<and> curSlot h = sl \<and> v_phase (hsm_curView h) = ph)"
proof -
  have "hs_inv L (h\<lparr>hsm_done := hsm_done h @ [(ca_GetQuorumSize app (hsm_app h), sb)]\<rparr>)" if "P h" for h
    using assms [OF that] by (auto simp: hs_inv_def seen_def curSlot_def done_ok_def enough_def)
  then show ?thesis
    unfolding deliver_def
    by (intro triple_seq [OF triple_modify] triple_zoom)
      (auto simp: curSlot_def)
qed

text \<open>The view is left alone and the quorum stays complete.\<close>

definition holds :: "lib \<Rightarrow> 'a ConsensusApp \<Rightarrow> MultiSignature \<Rightarrow> view \<Rightarrow> 'a HotstuffManager \<Rightarrow> bool" where
  "holds L app ms v h \<longleftrightarrow> hs_inv L h \<and> enough app ms h \<and> hsm_curView h = v"

lemma holds_app:
  "holds L app ms v h \<Longrightarrow> ca_GetQuorumSize app a = ca_GetQuorumSize app (hsm_app h) \<Longrightarrow> holds L app ms v (h\<lparr>hsm_app := a\<rparr>)"
  by (simp add: holds_def enough_def)

lemma publish_holds:
  "hm_Type m \<notin> signTypes PhasePrepare \<union> signTypes PhasePreCommit \<Longrightarrow>
   triple (holds L app ms v) (publish m) (\<lambda>_. holds L app ms v) R"
  unfolding publish_def holds_def
  by (rule triple_modify) (auto simp: enough_def intro!: inv_publish)

lemma setPhase_holds:
  "phase_num (v_phase v) \<le> phase_num ph \<Longrightarrow>
   triple (holds L app ms v) (setPhase ph) (\<lambda>_. holds L app ms (v\<lparr>v_phase := ph\<rparr>)) R"
  unfolding setPhase_def updView_def holds_def
  by (rule triple_modify) (auto simp: enough_def intro!: inv_view intro: inv_quorums)

lemma deliver_holds:
  assumes "distinct (ms_Signer ms)"
  shows "triple (holds L app ms v) (deliver app \<lparr>sb_RawBlock = b, sb_MultiSignature = ms\<rparr>)
    (\<lambda>_ h. hs_inv L h \<and> curSlot h = rh_Slot (v_header v) \<and> v_phase (hsm_curView h) = v_phase v)
    (\<lambda>h. hs_inv L h \<and> curSlot h = rh_Slot (v_header v) \<and> v_phase (hsm_curView h) = v_phase v)"
  by (rule triple_pre [OF deliver_keeps [where P = "holds L app ms v"]]) (auto simp: holds_def assms curSlot_def)

lemma leaderNew_triple:
  "triple (\<lambda>h. hs_inv L h \<and> v_phase (hsm_curView h) = PhaseInit) (leaderNew L app) (\<lambda>_. hs_inv L) (hs_inv L)"
  unfolding leaderNew_def
  by (intro triple_read triple_seq [OF triple_pre [OF setPhase_inv [of L]]] signBlock_bnd [OF stable_inv]
      triple_pre [OF addQuorum_triple [OF stable_inv quorum_fields(1)]]) auto

lemma addVote_triple:
  assumes qf: "quorum_field get put"
    and go: "triple (\<lambda>h. hs_inv L h \<and> enough app (get (hsm_curView h)) h) go (\<lambda>_. hs_inv L) (hs_inv L)"
  shows "triple (hs_inv L) (addVote L app ph get put go msg) (\<lambda>_. hs_inv L) (hs_inv L)"
  unfolding addVote_def quorumSize_def
  by (intro triple_read triple_check triple_if triple_ret triple_pre [OF go]
      triple_seq [OF triple_pre [OF addQuorum_triple [OF stable_inv qf]]]) (auto simp: enough_def)

lemma vote_fresh:
  assumes "ty \<in> signTypes ph"
  shows "triple (\<lambda>h. fresh L ph h \<and> (slot_bound L \<longrightarrow> curSlot h = msgSlot msg)) (vote L app ph ty msg) (\<lambda>_. hs_inv L) (hs_inv L)"
proof (rule tripleI)
  have t: "triple (\<lambda>h. fresh L ph h \<and> curSlot h = sl) (vote L app ph ty msg) (\<lambda>_. hs_inv L) (hs_inv L)"
    if "slot_bound L \<Longrightarrow> sl = msgSlot msg" for sl
    unfolding vote_def
    by (intro signBlock_bnd [OF stable_fresh] triple_read_pre [where P' = "\<lambda>_ h. fresh L ph h \<and> curSlot h = sl"] publish_fresh_triple)
      (auto simp: assms fresh_def msgSlot_def that)
  show "hs_inv L t" if "fresh L ph s \<and> (slot_bound L \<longrightarrow> curSlot s = msgSlot msg)" "vote L app ph ty msg s = (Inr x, t)" for s x t
    using triple_Inr [OF t [of "curSlot s"]] that by blast
  show "hs_inv L t" if "fresh L ph s \<and> (slot_bound L \<longrightarrow> curSlot s = msgSlot msg)" "vote L app ph ty msg s = (Inl e, t)" for s e t
    using triple_Inl [OF t [of "curSlot s"]] that by blast
qed

lemma vote_other:
  "ty \<notin> signTypes PhasePrepare \<union> signTypes PhasePreCommit \<Longrightarrow> triple (hs_inv L) (vote L app ph ty msg) (\<lambda>_. hs_inv L) (hs_inv L)"
  unfolding vote_def
  by (intro signBlock_bnd [OF stable_inv] triple_read_pre [where P' = "\<lambda>_. hs_inv L"] publish_triple) auto

text \<open>What a message that passes \<open>checkView\<close> brings.\<close>

definition matched :: "lib \<Rightarrow> HotstuffMessage \<Rightarrow> 'a HotstuffManager \<Rightarrow> bool" where
  "matched L msg h \<longleftrightarrow> hs_inv L h \<and> (slot_bound L \<longrightarrow> curSlot h = msgSlot msg)"

definition checked :: "lib \<Rightarrow> 'a ConsensusApp \<Rightarrow> HotstuffMessage \<Rightarrow> 'a HotstuffManager \<Rightarrow> bool" where
  "checked L app msg h \<longleftrightarrow> matched L msg h \<and>
     (quorumPhase (hm_Type msg) \<noteq> None \<longrightarrow> distinct (ms_Signer (hm_Quorum msg)) \<and> enough app (hm_Quorum msg) h)"

text \<open>A replica enters a phase with the quorum of the message.\<close>

lemma enterPhase_fresh:
  assumes "phase_num (v_phase v) < phase_num ph"
    and f: "v_header (f v) = v_header v" "v_phase (f v) = ph" "quorums_ok v \<Longrightarrow> distinct (ms_Signer (hm_Quorum msg)) \<Longrightarrow> quorums_ok (f v)"
  shows "triple (\<lambda>h. (matched L msg h \<and> distinct (ms_Signer (hm_Quorum msg))) \<and> hsm_curView h = v) (updView f)
    (\<lambda>_ h. fresh L ph h \<and> (slot_bound L \<longrightarrow> curSlot h = msgSlot msg)) R"
  unfolding updView_def
proof (rule triple_modify)
  fix h :: "'a HotstuffManager"
  assume h: "(matched L msg h \<and> distinct (ms_Signer (hm_Quorum msg))) \<and> hsm_curView h = v"
  then have "hs_inv L h" "quorums_ok (f v)"
    using f(3) inv_quorums [of L h] by (auto simp: matched_def)
  then have "fresh L ph (h\<lparr>hsm_curView := f v\<rparr>)"
    using fresh_raise [of L h "f v"] h assms(1) f(1,2) by simp
  then show "fresh L ph (h\<lparr>hsm_curView := f (hsm_curView h)\<rparr>) \<and> (slot_bound L \<longrightarrow> curSlot (h\<lparr>hsm_curView := f (hsm_curView h)\<rparr>) = msgSlot msg)"
    using h f(1) by (auto simp: matched_def curSlot_def)
qed

lemma phase_num_le_Final: "phase_num ph \<le> 6"
  by (cases ph) simp_all

section \<open>The views and the handlers\<close>

context consensus_app
begin

lemma now_holds: "triple (holds L app ms v) (on_app (ca_now app)) (\<lambda>_. holds L app ms v) (holds L app ms v)"
  by (rule triple_zoom) (metis holds_app now_quorum snd_conv)+

lemma signBlock_holds:
  "triple (holds L app ms v) (signBlock L app b ph) (\<lambda>_. holds L app ms v) (holds L app ms v)"
  unfolding signBlock_def
proof (intro triple_read triple_pre [OF triple_zoom])
  fix h i x a assume "holds L app ms v h"
  then show "ca_RoleSign app i (CalcHash L (RawBlock_Hash L b) ph) SigBLS (hsm_app h) = (Inr x, a) \<Longrightarrow> holds L app ms v (h\<lparr>hsm_app := a\<rparr>)"
    by (metis holds_app sign_quorum snd_conv)
next
  fix h i e a assume "holds L app ms v h"
  then show "ca_RoleSign app i (CalcHash L (RawBlock_Hash L b) ph) SigBLS (hsm_app h) = (Inl e, a) \<Longrightarrow> holds L app ms v (h\<lparr>hsm_app := a\<rparr>)"
    by (metis holds_app sign_quorum snd_conv)
qed auto

lemma tryDecide_triple:
  "triple (\<lambda>h. hs_inv L h \<and> enough app (v_commitQuorum (hsm_curView h)) h) (tryDecide L app) (\<lambda>_. hs_inv L) (hs_inv L)"
  unfolding tryDecide_def
proof (rule triple_read)
  fix v :: view
  let ?ms = "v_commitQuorum v" and ?v = "v\<lparr>v_phase := PhaseDecide\<rparr>"
  show "triple (\<lambda>h. (hs_inv L h \<and> enough app (v_commitQuorum (hsm_curView h)) h) \<and> hsm_curView h = v)
    (seq (reject (v_phase v \<noteq> PhaseCommit) ''phase state error'')
    (seq (setPhase PhaseDecide)
    (bnd (signBlock L app (viewBlock v) PhaseDecide) (\<lambda>sig.
     bnd (gets hsm_localID) (\<lambda>i.
     seq (publish \<lparr>hm_From = i, hm_Type = MsgDecide, hm_Data = viewBlock v, hm_Sig = sig, hm_Quorum = v_commitQuorum v\<rparr>)
    (seq (deliver app \<lparr>sb_RawBlock = viewBlock v, sb_MultiSignature = v_commitQuorum v\<rparr>)
         (setPhase PhaseFinal))))))) (\<lambda>_. hs_inv L) (hs_inv L)"
  proof (cases "distinct (ms_Signer ?ms)")
    case True
    then show ?thesis
      by (intro triple_check triple_seq [OF triple_pre [OF setPhase_holds [where L = L and app = app and ms = ?ms and v = v]]]
          triple_bnd [OF triple_err [OF signBlock_holds]] triple_read_pre [where P' = "\<lambda>_. holds L app ?ms ?v"]
          triple_seq [OF publish_holds] triple_seq [OF triple_err [OF deliver_holds]] triple_pre [OF setPhase_inv])
        (auto simp: holds_def signTypes_def)
  next
    case False
    then show ?thesis
      by (intro triple_pre [OF triple_False]) (auto simp: hs_inv_def quorums_ok_def)
  qed
qed

lemma reConsensus_triple:
  "triple (\<lambda>h. hs_inv L h \<and> v_phase (hsm_curView h) = PhaseCommit) (reConsensus L app) (\<lambda>_. hs_inv L) (hs_inv L)"
proof -
  have "hs_inv L (h\<lparr>hsm_curView := (hsm_curView h)\<lparr>v_commitQuorum := NewMultiSignature SigBLS, v_phase := PhaseCommit\<rparr>\<rparr>)"
    if "hs_inv L h" "v_phase (hsm_curView h) = PhaseCommit" for h :: "'a HotstuffManager"
    using that inv_quorums [OF that(1)] by (intro inv_view) (auto simp: quorums_ok_def)
  then show ?thesis
    unfolding reConsensus_def updView_def isLeader_def
    by (intro triple_seq [OF triple_modify] triple_read_pre [where P' = "\<lambda>_. hs_inv L"] signBlock_bnd [OF stable_inv] triple_if
        triple_dropErr addQuorum_triple [OF stable_inv quorum_fields(4)])
      (auto simp: signTypes_def split: prod.split intro!: triple_seq [OF triple_modify, where Q' = "hs_inv L"] publish_triple)
qed

lemma finishView_triple:
  "triple (\<lambda>h. hs_inv L h \<and> curSlot h = sl) (finishView app) (\<lambda>_ h. hs_inv L h \<and> curSlot h = sl) (hs_inv L)"
  unfolding finishView_def quorumSize_def
proof (intro triple_read triple_if)
  fix v :: view and q
  assume q: "v_phase v \<noteq> PhaseFinal \<and> q \<le> int (MultiSignature_Len (v_commitQuorum v))"
  let ?P = "\<lambda>h. ((hs_inv L h \<and> curSlot h = sl) \<and> hsm_curView h = v) \<and> ca_GetQuorumSize app (hsm_app h) = q"
  let ?D = "\<lambda>h. hs_inv L h \<and> curSlot h = rh_Slot (v_header v) \<and> v_phase (hsm_curView h) = v_phase v"
  have f: "triple (\<lambda>h. ?D h \<and> rh_Slot (v_header v) = sl) (setPhase PhaseFinal) (\<lambda>_ h. hs_inv L h \<and> curSlot h = sl) (hs_inv L)"
    unfolding setPhase_def updView_def
    by (rule triple_modify) (auto simp: curSlot_def phase_num_le_Final intro!: inv_view intro: inv_quorums)
  show "triple ?P (seq (dropErr (deliver app \<lparr>sb_RawBlock = viewBlock v, sb_MultiSignature = v_commitQuorum v\<rparr>))
      (setPhase PhaseFinal)) (\<lambda>_ h. hs_inv L h \<and> curSlot h = sl) (hs_inv L)"
  proof (cases "distinct (ms_Signer (v_commitQuorum v)) \<and> rh_Slot (v_header v) = sl")
    case True
    then have d: "triple (holds L app (v_commitQuorum v) v) (dropErr (deliver app \<lparr>sb_RawBlock = viewBlock v, sb_MultiSignature = v_commitQuorum v\<rparr>)) (\<lambda>_. ?D) ?D"
      by (intro triple_dropErr deliver_holds) simp
    show ?thesis
      by (rule triple_seq [OF triple_err [OF triple_pre [OF d]] triple_pre [OF f]]) (use q True in \<open>auto simp: holds_def enough_def\<close>)
  next
    case False
    then show ?thesis
      by (intro triple_pre [OF triple_False]) (auto simp: hs_inv_def quorums_ok_def curSlot_def)
  qed
qed (auto intro!: triple_ret)

lemma resetView_triple:
  assumes "rh_Slot rh = sl"
  shows "triple (\<lambda>h. hs_inv L h \<and> curSlot h < sl) (resetView app rh) (\<lambda>_. hs_inv L) (hs_inv L)"
  unfolding resetView_def
  by (intro triple_bnd [OF triple_err [OF on_app_triple [OF stable_older]]] triple_seq [OF triple_modify, where Q' = "hs_inv L"]
      triple_read_pre [where P' = "\<lambda>_. hs_inv L"])
    (auto simp: assms quorums_ok_def split: prod.split intro!: triple_reject inv_later)

lemma header_triple:
  "triple (\<lambda>h. hs_inv L h \<and> curSlot h < sl) (on_app (ca_CreateBlockHeader app sl))
     (\<lambda>rh h. hs_inv L h \<and> curSlot h < sl \<and> rh_Slot rh = sl) (hs_inv L)"
  by (rule triple_zoom) (auto dest: header_slot)

lemma updView_older:
  assumes "\<And>v. v_header (f v) = v_header v \<and> v_phase (f v) = v_phase v \<and> quorums_ok (f v) = quorums_ok v"
  shows "triple (\<lambda>h. hs_inv L h \<and> curSlot h < sl) (updView f) (\<lambda>_ h. hs_inv L h \<and> curSlot h < sl) R"
    and "triple (hs_inv L) (updView f) (\<lambda>_. hs_inv L) R"
  using assms unfolding updView_def
  by (auto simp: curSlot_def intro!: triple_modify inv_view intro: inv_quorums)

lemma enterView_triple:
  "triple (\<lambda>h. hs_inv L h \<and> curSlot h < sl) (enterView L app sl) (\<lambda>_. hs_inv L) (hs_inv L)"
  unfolding enterView_def
proof (rule triple_seq [OF _ triple_bnd [OF header_triple triple_seq]])
  let ?O = "\<lambda>h. hs_inv L h \<and> curSlot h < sl"
  show "triple ?O (finishView app) (\<lambda>_. ?O) (hs_inv L)"
    using finishView_triple by (fastforce simp: triple_def split: prod.splits sum.splits)
next
  fix rh :: RawHeader
  show "triple (\<lambda>h. hs_inv L h \<and> curSlot h < sl \<and> rh_Slot rh = sl) (updView (\<lambda>v. v\<lparr>v_leader := rh_MinerID rh\<rparr>))
      (\<lambda>_ h. hs_inv L h \<and> curSlot h < sl \<and> rh_Slot rh = sl) (hs_inv L)"
    by (cases "rh_Slot rh = sl") (simp_all add: updView_older(1) triple_False)
  show "triple (\<lambda>h. hs_inv L h \<and> curSlot h < sl \<and> rh_Slot rh = sl) (bnd (gets hsm_curView) (\<lambda>v.
      if rh_Height (v_header v) \<ge> rh_Height rh \<and> v_phase v = PhaseCommit \<and> sl < rh_Slot (v_header v) + 20
      then reConsensus L app else resetView app rh)) (\<lambda>_. hs_inv L) (hs_inv L)"
  proof (cases "rh_Slot rh = sl")
    case True
    then show ?thesis
      by (intro triple_read triple_if triple_pre [OF reConsensus_triple] triple_pre [OF resetView_triple]) auto
  qed (simp add: triple_False)
qed

lemma newView_triple: "triple (hs_inv L) (newView L app) (\<lambda>_. hs_inv L) (hs_inv L)"
  unfolding newView_def Let_def
proof (intro triple_bnd [OF on_app_triple [OF stable_inv]] triple_read triple_if triple_ret)
  fix now and v :: view
  let ?sl = "slotNow now" and ?V = "\<lambda>h. hs_inv L h \<and> v_header (hsm_curView h) = v_header v"
  have st: "stable ?V"
    by (auto simp: stable_def put_view put_same inv_quorums)
  have sl: "triple ?V (updView (\<lambda>v. v\<lparr>v_slot := ?sl, v_start := start\<rparr>)) (\<lambda>_. ?V) R" for start R
    unfolding updView_def by (rule triple_modify) (auto intro!: inv_view intro: inv_quorums)
  show "triple (\<lambda>h. hs_inv L h \<and> hsm_curView h = v) (bnd (on_app (ca_now app)) (\<lambda>start.
       seq (updView (\<lambda>v. v\<lparr>v_slot := ?sl, v_start := start\<rparr>))
      (if rh_Slot (v_header v) = ?sl then ret ()
       else seq (reject (rh_Slot (v_header v) > ?sl) ''something badly happens'') (enterView L app ?sl)))) (\<lambda>_. hs_inv L) (hs_inv L)"
    by (intro triple_pre [OF triple_bnd [OF triple_err [OF on_app_triple [OF st]]]] triple_seq [OF sl] triple_if triple_ret triple_check
        triple_pre [OF enterView_triple]) (auto simp: curSlot_def)
qed auto

lemma checkQuorum_triple: "triple (matched L msg) (checkQuorum L app msg) (\<lambda>_. checked L app msg) (hs_inv L)"
proof (cases "quorumPhase (hm_Type msg)")
  case None
  then show ?thesis
    by (auto simp: checkQuorum_def checked_def intro!: triple_ret)
next
  case (Some ph)
  let ?P = "\<lambda>h. matched L msg h \<and> enough app (hm_Quorum msg) h"
  have ver: "triple ?P (on_app (ca_RoleVerifyMulti app d (hm_Quorum msg))) (\<lambda>ok h. ?P h \<and> (ok \<longrightarrow> distinct (ms_Signer (hm_Quorum msg)))) (hs_inv L)" for d
  proof (rule triple_zoom)
    fix h ok a assume "?P h" "ca_RoleVerifyMulti app d (hm_Quorum msg) (hsm_app h) = (Inr ok, a)"
    then show "?P (h\<lparr>hsm_app := a\<rparr>) \<and> (ok \<longrightarrow> distinct (ms_Signer (hm_Quorum msg)))"
      using multi_quorum [of d "hm_Quorum msg" "hsm_app h"] verify_distinct by (auto simp: matched_def enough_def)
  qed (simp add: matched_def)
  show ?thesis
    unfolding checkQuorum_def Some quorumSize_def option.case
    by (intro triple_read triple_check triple_pre [OF triple_bnd [OF ver triple_reject]])
      (auto simp: matched_def checked_def enough_def)
qed

lemma checkSig_triple: "triple (checked L app msg) (checkSig L app msg) (\<lambda>_. checked L app msg) (hs_inv L)"
proof (cases "sigPhase (hm_Type msg)")
  case None
  then show ?thesis
    by (auto simp: checkSig_def intro!: triple_ret)
next
  case (Some ph)
  have ver: "triple (checked L app msg) (on_app (ca_RoleVerify app i d sig)) (\<lambda>_. checked L app msg) (hs_inv L)" for i d sig
  proof (rule triple_zoom)
    fix h ok a assume "checked L app msg h" "ca_RoleVerify app i d sig (hsm_app h) = (Inr ok, a)"
    then show "checked L app msg (h\<lparr>hsm_app := a\<rparr>)"
      using verify_quorum [of i d sig "hsm_app h"] by (auto simp: checked_def matched_def enough_def)
  qed (simp add: checked_def matched_def)
  show ?thesis
    unfolding checkSig_def Some option.case
    by (intro triple_bnd [OF ver triple_reject]) (auto simp: checked_def matched_def)
qed

lemma checkView_triple: "triple (hs_inv L) (checkView L app msg) (\<lambda>_. checked L app msg) (hs_inv L)"
proof -
  have same: "triple (\<lambda>h. hs_inv L h \<and> hsm_curView h = v) (if sameHeader L msg v then ret () else newView L app) (\<lambda>_. hs_inv L) (hs_inv L)" for v :: view
    by (intro triple_if triple_ret triple_pre [OF newView_triple]) auto
  have m: "matched L msg h" if "hs_inv L h" "sameHeader L msg (hsm_curView h)" for h :: "'a HotstuffManager"
    using that slot_boundD [of L "v_header (hsm_curView h)" "rb_RawHeader (hm_Data msg)"]
    by (simp add: matched_def sameHeader_def curSlot_def msgSlot_def)
  show ?thesis
    unfolding checkView_def
    by (intro triple_read triple_seq [OF same] triple_check triple_pre [OF triple_seq [OF checkQuorum_triple checkSig_triple]])
      (auto intro: m)
qed

lemma checkView_seq:
  "triple (checked L app msg) m (\<lambda>_. hs_inv L) (hs_inv L) \<Longrightarrow> triple (hs_inv L) (seq (checkView L app msg) m) (\<lambda>_. hs_inv L) (hs_inv L)"
  by (rule triple_seq [OF checkView_triple])

lemma checked_inv: "checked L app msg h \<Longrightarrow> hs_inv L h"
  by (simp add: checked_def matched_def)

lemma voteMsg_triple:
  assumes "quorum_field get put" and "triple (\<lambda>h. hs_inv L h \<and> enough app (get (hsm_curView h)) h) go (\<lambda>_. hs_inv L) (hs_inv L)"
  shows "triple (checked L app msg) (addVote L app ph get put go msg) (\<lambda>_. hs_inv L) (hs_inv L)"
  by (rule triple_pre [OF addVote_triple [OF assms]]) (rule checked_inv)

lemma handleNewViewVoteMsg_triple: "triple (hs_inv L) (handleNewViewVoteMsg L app msg) (\<lambda>_. hs_inv L) (hs_inv L)"
proof -
  have e: "triple (\<lambda>h. checked L app msg h \<and> hsm_curView h = v)
      (if v_phase v = PhaseInit then leaderNew L app else ret ()) (\<lambda>_. hs_inv L) (hs_inv L)" for v :: view
    by (intro triple_if triple_pre [OF leaderNew_triple] triple_ret) (auto dest: checked_inv)
  show ?thesis
    unfolding handleNewViewVoteMsg_def isLeader_def
    by (intro triple_read_pre [where P' = "\<lambda>_. hs_inv L"] triple_if checkView_seq triple_read triple_seq [OF e]
        addVote_triple triple_pre [OF tryPropose_triple] triple_ret) auto
qed

lemma vote_handlers:
  "triple (hs_inv L) (handlePrepareVoteMsg L app msg) (\<lambda>_. hs_inv L) (hs_inv L)"
  "triple (hs_inv L) (handlePreCommitVoteMsg L app msg) (\<lambda>_. hs_inv L) (hs_inv L)"
  "triple (hs_inv L) (handleCommitVoteMsg L app msg) (\<lambda>_. hs_inv L) (hs_inv L)"
  unfolding handlePrepareVoteMsg_def handlePreCommitVoteMsg_def handleCommitVoteMsg_def isLeader_def
  by (intro triple_read_pre [where P' = "\<lambda>_. hs_inv L"] triple_if checkView_seq triple_ret voteMsg_triple tryDecide_triple
      triple_pre [OF tryPreCommit_triple] triple_pre [OF tryCommit_triple]; simp)+

lemma onLeaderMsg_triple:
  "triple (checked L app msg) body (\<lambda>_. hs_inv L) (hs_inv L) \<Longrightarrow>
   triple (hs_inv L) (onLeaderMsg L app msg body) (\<lambda>_. hs_inv L) (hs_inv L)"
  unfolding onLeaderMsg_def isLeader_def
  by (intro triple_read_pre [where P' = "\<lambda>_. hs_inv L"] triple_if checkView_seq triple_ret
      triple_read_pre [where P' = "\<lambda>_. checked L app msg"]) (auto intro: checked_inv)

lemma checked_matched:
  "checked L app msg h \<Longrightarrow> quorumPhase (hm_Type msg) \<noteq> None \<Longrightarrow> matched L msg h \<and> distinct (ms_Signer (hm_Quorum msg))"
  by (simp add: checked_def)

lemma handlePreCommitMsg_triple:
  "hm_Type msg = MsgPreCommit \<Longrightarrow> triple (hs_inv L) (handlePreCommitMsg L app msg) (\<lambda>_. hs_inv L) (hs_inv L)"
  unfolding handlePreCommitMsg_def
  by (intro onLeaderMsg_triple triple_read triple_check vote_fresh
      triple_seq [OF triple_pre [OF enterPhase_fresh [where L = L and msg = msg and ph = PhasePreCommit]]])
    (auto simp: signTypes_def quorumPhase_def quorums_ok_def dest: checked_inv checked_matched)

lemma handleCommitMsg_triple:
  "hm_Type msg = MsgCommit \<Longrightarrow> triple (hs_inv L) (handleCommitMsg L app msg) (\<lambda>_. hs_inv L) (hs_inv L)"
  unfolding handleCommitMsg_def
  by (intro onLeaderMsg_triple triple_read triple_check triple_pre [OF vote_other]
      triple_seq [OF triple_pre [OF enterPhase_fresh [where L = L and msg = msg and ph = PhaseCommit]]])
    (auto simp: signTypes_def quorumPhase_def quorums_ok_def dest: checked_inv checked_matched fresh_inv)

lemma handleDecideMsg_triple:
  assumes "hm_Type msg = MsgDecide"
  shows "triple (hs_inv L) (handleDecideMsg L app msg) (\<lambda>_. hs_inv L) (hs_inv L)"
  unfolding handleDecideMsg_def
proof (intro onLeaderMsg_triple triple_read triple_check)
  fix v :: view assume ph: "\<not> v_phase v \<noteq> PhaseCommit"
  let ?P = "\<lambda>h. checked L app msg h \<and> hsm_curView h = v" and ?v = "v\<lparr>v_phase := PhaseDecide, v_commitQuorum := hm_Quorum msg\<rparr>"
  have d: "distinct (ms_Signer (hm_Quorum msg))" if "?P h" for h
    using that assms by (simp add: checked_def quorumPhase_def)
  have upd: "triple ?P (updView (\<lambda>v. v\<lparr>v_phase := PhaseDecide, v_commitQuorum := hm_Quorum msg\<rparr>)) (\<lambda>_. holds L app (hm_Quorum msg) ?v) (hs_inv L)"
    unfolding updView_def
  proof (rule triple_modify)
    fix h assume h: "?P h"
    then have "hs_inv L (h\<lparr>hsm_curView := ?v\<rparr>)"
      using checked_inv [of L msg h] inv_quorums [of L h] d [OF h] ph by (intro inv_view) (auto simp: quorums_ok_def)
    with h assms show "holds L app (hm_Quorum msg) ?v (h\<lparr>hsm_curView := (hsm_curView h)\<lparr>v_phase := PhaseDecide, v_commitQuorum := hm_Quorum msg\<rparr>\<rparr>)"
      by (auto simp: holds_def enough_def checked_def quorumPhase_def)
  qed
  show "triple ?P (seq (updView (\<lambda>v. v\<lparr>v_phase := PhaseDecide, v_commitQuorum := hm_Quorum msg\<rparr>))
     (seq (deliver app \<lparr>sb_RawBlock = viewBlock v, sb_MultiSignature = hm_Quorum msg\<rparr>) (setPhase PhaseFinal))) (\<lambda>_. hs_inv L) (hs_inv L)"
  proof (cases "distinct (ms_Signer (hm_Quorum msg))")
    case True
    then show ?thesis
      by (intro triple_seq [OF upd] triple_seq [OF triple_err [OF deliver_holds]] triple_pre [OF setPhase_inv]) auto
  next
    case False
    then show ?thesis
      using d by (intro triple_pre [OF triple_False]) blast
  qed
qed (auto dest: checked_inv)

lemma handlePrepareMsg_triple:
  assumes "hm_Type msg = MsgPrepare"
  shows "triple (hs_inv L) (handlePrepareMsg L app msg) (\<lambda>_. hs_inv L) (hs_inv L)"
proof -
  let ?f = "\<lambda>v :: view. if v_phase v = PhaseInit then v\<lparr>v_phase := PhaseNew\<rparr> else v"
  let ?M = "\<lambda>h. matched L msg h \<and> distinct (ms_Signer (hm_Quorum msg))"
  have new: "triple (checked L app msg) (updView ?f) (\<lambda>_. ?M) (hs_inv L)"
    unfolding updView_def
    by (rule triple_modify)
      (use assms in \<open>auto simp: checked_def matched_def curSlot_def quorumPhase_def intro!: inv_view intro: inv_quorums\<close>)
  have onp: "triple (\<lambda>h. ?M h \<and> hsm_curView h = v) (if ca_skipCheck app then ret () else on_app (ca_OnPropose app sb))
      (\<lambda>_ h. ?M h \<and> hsm_curView h = v) (hs_inv L)" for v :: view and sb
    by (intro triple_if triple_ret triple_zoom) (auto simp: matched_def)
  show ?thesis
    unfolding handlePrepareMsg_def
    by (intro onLeaderMsg_triple triple_seq [OF new] triple_read triple_check triple_seq [OF onp] vote_fresh
        triple_seq [OF enterPhase_fresh [where L = L and msg = msg and ph = PhasePrepare]])
      (auto simp: signTypes_def quorums_ok_def matched_def)
qed

lemma HandleMessage_triple: "triple (hs_inv L) (HandleMessage L app msg) (\<lambda>_. hs_inv L) (hs_inv L)"
  unfolding HandleMessage_def
  by (cases "hm_Type msg") (auto simp: handleNewViewVoteMsg_triple vote_handlers handlePrepareMsg_triple handlePreCommitMsg_triple
      handleCommitMsg_triple handleDecideMsg_triple intro: triple_fail)

lemma blockZero_triple:
  "triple (\<lambda>h. hs_inv L h \<and> rh_Height (v_header (hsm_curView h)) = 0) (blockZero L app) (\<lambda>_. hs_inv L) (hs_inv L)"
proof -
  let ?Z = "\<lambda>h. hs_inv L h \<and> rh_Height (v_header (hsm_curView h)) = 0"
  have fin: "triple ?Z (setPhase PhaseFinal) (\<lambda>_. ?Z) (hs_inv L)"
    unfolding setPhase_def updView_def
    by (rule triple_modify) (auto simp: phase_num_le_Final intro!: inv_view intro: inv_quorums)
  have txs: "triple ?Z (updView (\<lambda>v. v\<lparr>v_txs := txs\<rparr>)) (\<lambda>_. hs_inv L) (hs_inv L)" for txs
    unfolding updView_def by (rule triple_modify) (auto intro!: inv_view intro: inv_quorums)
  have del: "triple (hs_inv L) (dropErr (deliver app sb)) (\<lambda>_. hs_inv L) (hs_inv L)" if "rh_Height (blk_header sb) = 0" for sb
    unfolding deliver_def using that
    by (intro triple_dropErr triple_seq [OF triple_modify, where Q' = "hs_inv L"] on_app_triple [OF stable_inv])
      (auto simp: hs_inv_def seen_def curSlot_def done_ok_def)
  have st: "stable ?Z"
    by (auto simp: stable_def put_view put_same inv_quorums)
  have Z: "triple (\<lambda>h. ?Z h \<and> hsm_curView h = v) m Q R" if "rh_Height (v_header v) = 0 \<Longrightarrow> triple ?Z m Q R" for v :: view and m :: "('a, 'c) hgo" and Q R
    using that by (cases "rh_Height (v_header v) = 0") (auto simp: triple_def)
  show ?thesis
    unfolding blockZero_def Let_def
    by (intro triple_seq [OF fin] triple_read Z triple_bnd [OF triple_err [OF on_app_triple [OF st]]]
        triple_read_pre [where P' = "\<lambda>_. ?Z"] triple_if triple_ret triple_seq [OF txs] signBlock_bnd [OF stable_inv] del) auto
qed

lemma NewView_triple: "triple (hs_inv L) (NewView L app) (\<lambda>_. hs_inv L) (hs_inv L)"
  unfolding NewView_def isLeader_def
  by (intro triple_seq [OF newView_triple] triple_read triple_check triple_if triple_ret triple_pre [OF blockZero_triple]
      triple_pre [OF leaderNew_triple] triple_seq [OF triple_pre [OF setPhase_inv [of L]]] signBlock_bnd [OF stable_inv]
      triple_read_pre [where P' = "\<lambda>_. hs_inv L"] publish_triple) (auto simp: signTypes_def)

lemma lateStep_triple:
  assumes "triple (\<lambda>h. hs_inv L h \<and> enough app (get (hsm_curView h)) h) go (\<lambda>_. hs_inv L) (hs_inv L)"
  shows "triple (hs_inv L) (lateStep app get secs go) (\<lambda>_. hs_inv L) (hs_inv L)"
  unfolding lateStep_def quorumSize_def
proof (intro triple_read)
  fix v :: view and q
  have go: "triple (holds L app (get v) v) go (\<lambda>_. hs_inv L) (hs_inv L)"
    by (rule triple_pre [OF assms]) (auto simp: holds_def)
  show "triple (\<lambda>h. (hs_inv L h \<and> hsm_curView h = v) \<and> ca_GetQuorumSize app (hsm_app h) = q)
    (if int (MultiSignature_Len (get v)) \<ge> q then
       bnd (on_app (ca_now app)) (\<lambda>now. if now - v_start v > secs * Second then dropErr go else ret ()) else ret ())
    (\<lambda>_. hs_inv L) (hs_inv L)"
    by (intro triple_if triple_ret triple_pre [OF triple_bnd [OF triple_err [OF now_holds [where L = L and ms = "get v" and v = v]]]] triple_dropErr go)
      (auto simp: holds_def enough_def)
qed

lemma leaderTick_triple: "triple (hs_inv L) (leaderTick L app) (\<lambda>_. hs_inv L) (hs_inv L)"
  unfolding leaderTick_def
  by (rule triple_read_pre [where P' = "\<lambda>_. hs_inv L"])
    (auto split: PhaseState.split intro!: lateStep_triple triple_ret tryDecide_triple triple_pre [OF tryPropose_triple]
      triple_pre [OF tryPreCommit_triple] triple_pre [OF tryCommit_triple])

lemma mineTick_triple: "triple (hs_inv L) (mineTick L app) (\<lambda>_. hs_inv L) (hs_inv L)"
  unfolding mineTick_def isLeader_def
  by (intro triple_bnd [OF on_app_triple [OF stable_inv]] triple_read_pre [where P' = "\<lambda>_. hs_inv L"] triple_if
      leaderTick_triple triple_ret triple_dropErr NewView_triple) auto

end

section \<open>Runs of a node\<close>

text \<open>
  A node handles messages and ticks of its clock.  The other parts of the node change the state of
  the application at any time, and each step may find another environment.
\<close>

inductive hs_reach :: "lib \<Rightarrow> 'a ConsensusApp set \<Rightarrow> 'a HotstuffManager \<Rightarrow> bool" for L apps where
  hs_start: "hs_reach L apps (NewHotstuffManager i a rnd)"
| hs_message: "hs_reach L apps h \<Longrightarrow> app \<in> apps \<Longrightarrow> hs_reach L apps (snd (HandleMessage L app msg h))"
| hs_tick: "hs_reach L apps h \<Longrightarrow> app \<in> apps \<Longrightarrow> hs_reach L apps (snd (mineTick L app h))"
| hs_other: "hs_reach L apps h \<Longrightarrow> hs_reach L apps (h\<lparr>hsm_app := a\<rparr>)"

lemma hs_reach_inv:
  assumes "hs_reach L apps h" and "\<And>app. app \<in> apps \<Longrightarrow> consensus_app app"
  shows "hs_inv L h"
  using assms(1)
proof induction
  case (hs_start i a rnd)
  show ?case by (rule inv_start)
next
  case (hs_message h app msg)
  then show ?case
    using keeps_triple [OF consensus_app.HandleMessage_triple [OF assms(2)]] by (auto simp: keeps_def)
next
  case (hs_tick h app)
  then show ?case
    using keeps_triple [OF consensus_app.mineTick_triple [OF assms(2)]] by (auto simp: keeps_def)
qed simp

end
