(* ===== verification/HotStuffPool.thy ===== *)
theory HotStuffPool
  imports HotStuffSafe
begin

text \<open>
  The consensus on the node's own pool: \<open>pool_app\<close> is what \<open>cmd/keeper\<close> hands to the managers, the
  interface \<open>consensus_app\<close> holds of it, and the properties of the keepers follow.
\<close>

definition pool_app :: "lib \<Rightarrow> env \<Rightarrow> lru \<Rightarrow> (InPool \<Rightarrow> u64 list) \<Rightarrow> bool \<Rightarrow> InPool ConsensusApp" where
  "pool_app L E C order skip = \<lparr>
     ca_now = on_pool timeNow,
     ca_CreateBlockHeader = CreateBlockHeader,
     ca_Propose = (\<lambda>rh. bnd (gets order) (\<lambda>ids. Propose L E ids rh)),
     ca_OnPropose = OnPropose L E,
     ca_OnViewDone = OnViewDone L E C,
     ca_GetMembers = GetMembers,
     ca_GetQuorumSize = GetQuorumSize,
     ca_RoleSign = (\<lambda>i d ty. on_pool (on_rm (RoleSign L E i d ty))),
     ca_RoleVerify = (\<lambda>i d sig. on_pool (on_rm (RoleVerify L E i d sig))),
     ca_RoleVerifyMulti = (\<lambda>d ms. on_pool (on_rm (RoleVerifyMulti L E d ms))),
     ca_skipCheck = skip\<rparr>"

definition pool_apps :: "lib \<Rightarrow> InPool ConsensusApp set" where
  "pool_apps L = {pool_app L E C order skip | E C order skip. True}"

lemma rm_quorum: "GetQuorumSize (snd (on_pool (on_rm m) p)) = GetQuorumSize p"
  by (simp add: GetQuorumSize_def zoom_def split: prod.split)

interpretation pool: consensus_app "pool_app L E C order skip" for L E C order skip
proof unfold_locales
  fix sl a rh b
  show "ca_CreateBlockHeader (pool_app L E C order skip) sl a = (Inr rh, b) \<Longrightarrow> rh_Slot rh = sl"
    by (auto simp: pool_app_def CreateBlockHeader_def Let_def go_simps)
next
  fix d ms a b
  show "ca_RoleVerifyMulti (pool_app L E C order skip) d ms a = (Inr True, b) \<Longrightarrow> distinct (ms_Signer ms)"
    using RoleVerifyMulti_distinct by (fastforce simp: pool_app_def zoom_Inr)
qed (simp_all add: pool_app_def rm_quorum, simp add: GetQuorumSize_def zoom_def timeNow_def)

lemma pool_reach_inv: "hs_reach L (pool_apps L) h \<Longrightarrow> hs_inv L h"
  by (rule hs_reach_inv) (auto simp: pool_apps_def intro: pool.consensus_app_axioms)

text \<open>
  C23: a keeper signs at most one block of a slot in the prepare phase and at most one in the
  pre-commit phase, as leader and as replica together: the slots of the blocks it has signed in a
  phase increase strictly, whatever messages arrive, whatever the clock says and however the rest of
  the node moves the pool, if header hashes tell slots apart.
\<close>

theorem one_vote_per_slot:
  assumes "hs_reach L (pool_apps L) h" and "\<forall>a b. RawHeader_Hash L a = RawHeader_Hash L b \<longrightarrow> rh_Slot a = rh_Slot b"
  shows "sorted_wrt (<) (signedSlots PhasePrepare (hsm_out h)) \<and> sorted_wrt (<) (signedSlots PhasePreCommit (hsm_out h))"
proof -
  have "slot_bound L"
    unfolding slot_bound_def by (rule assms(2))
  then show ?thesis
    using pool_reach_inv [OF assms(1)] by (simp add: hs_inv_def seen_def)
qed

text \<open>
  C24: every block but block zero that the consensus hands to the pool carries at least as many
  different signers as the quorum size of that moment.
\<close>

theorem delivered_quorum:
  assumes "hs_reach L (pool_apps L) h" and "(n, sb) \<in> set (hsm_done h)" and "rh_Height (blk_header sb) \<noteq> 0"
  shows "distinct (ms_Signer (sb_MultiSignature sb)) \<and> n \<le> int (length (ms_Signer (sb_MultiSignature sb)))"
  using pool_reach_inv [OF assms(1)] assms(2,3) by (auto simp: hs_inv_def done_ok_def MultiSignature_Len_def)

text \<open>
  A replica that answers the decision of its leader delivers the block of its own view, header
  and messages as it voted for them, with the quorum of the message, and has verified that quorum
  over the commit hash of that block, the hash that \<open>SyncAddTxBlock\<close> checks.
\<close>

lemma decided_block_verified:
  assumes "handleDecideMsg L app msg h = (Inr (), h')" and "hm_Type msg = MsgDecide"
    and "rb_RawHeader (hm_Data msg) = v_header v" and "hsm_curView h = v"
    and "v_leader v = hm_From msg" and "hsm_localID h \<noteq> hm_From msg"
  shows "v_phase v = PhaseCommit \<and> v_phase (hsm_curView h') = PhaseFinal \<and>
    (\<exists>a n. ca_RoleVerifyMulti app (CalcHash L (RawBlock_Hash L \<lparr>rb_RawHeader = v_header v, rb_MsgSet = v_txs v\<rparr>) PhaseCommit) (hm_Quorum msg) (hsm_app h) = (Inr True, a) \<and>
     hsm_done h' = hsm_done h @ [(n, \<lparr>sb_RawBlock = \<lparr>rb_RawHeader = v_header v, rb_MsgSet = v_txs v\<rparr>, sb_MultiSignature = hm_Quorum msg\<rparr>)])"
proof -
  have lead: "isLeader h = (Inr False, h)"
    using assms by (simp add: isLeader_def)
  from assms(1) lead obtain h1 where chk: "checkView L app msg h = (Inr (), h1)"
    and rest: "(if v_leader (hsm_curView h1) \<noteq> hm_From msg then ret () else
      (bnd (gets hsm_curView) (\<lambda>v.
      seq (reject (v_phase v \<noteq> PhaseCommit) ''phase state wrong'')
     (seq (updView (\<lambda>v. v\<lparr>v_phase := PhaseDecide, v_commitQuorum := hm_Quorum msg\<rparr>))
     (seq (deliver app \<lparr>sb_RawBlock = viewBlock v, sb_MultiSignature = hm_Quorum msg\<rparr>)
          (setPhase PhaseFinal)))))) h1 = (Inr (), h')"
    by (auto simp: handleDecideMsg_def onLeaderMsg_def bnd_Inr seq_Inr)
  have same: "sameHeader L msg v"
    using assms(3) by (simp add: sameHeader_def)
  obtain a where ver: "ca_RoleVerifyMulti app (CalcHash L (RawBlock_Hash L \<lparr>rb_RawHeader = v_header v, rb_MsgSet = v_txs v\<rparr>) PhaseCommit) (hm_Quorum msg) (hsm_app h) = (Inr True, a)"
    and h1: "h1 = h\<lparr>hsm_app := a\<rparr>"
    using chk same assms(2-4)
    by (auto simp: checkView_def checkQuorum_def checkSig_def quorumPhase_def sigPhase_def quorumSet_def quorumSize_def bnd_Inr seq_Inr zoom_Inr reject_def
        split: if_splits)
  show ?thesis
    using rest ver assms(4,5) unfolding h1
    by (auto simp: bnd_Inr seq_Inr updView_def deliver_def setPhase_def zoom_Inr viewBlock_def reject_def split: if_splits)
qed

text \<open>
  The mining loop of a single keeper never makes a block: it asks for the header of slot zero,
  which the pool refuses in every state.
\<close>

theorem poa_never_mines: "poaTick L (pool_app L E C order skip) h = (Inr (), h)"
proof -
  have "\<exists>e. CreateBlockHeader 0 p = (Inl (Err e), p)" for p
    by (simp add: CreateBlockHeader_def Let_def seq_def bnd_def reject_def fail_def)
  then obtain e where "CreateBlockHeader 0 (poa_app h) = (Inl (Err e), poa_app h)"
    by blast
  then show ?thesis
    by (simp add: poaTick_def poaBlock_def pool_app_def dropErr_def bnd_def zoom_def)
qed

section \<open>A run\<close>

text \<open>Three keepers in slot five; keeper three leads and keeper one is the node.\<close>

definition ex_slot_codec :: "RawHeader codec" where
  "ex_slot_codec = (tab_codec [])\<lparr>marshal := \<lambda>h. Some (PutUint64 (rh_Slot h))\<rparr>"

definition ex_hs_lib :: lib where
  "ex_hs_lib = lib0\<lparr>lb_cRawHeader := ex_slot_codec\<rparr>"

definition ex_time :: int where
  "ex_time = (1638316800 + 150) * Second"

definition ex_hs_pool :: InPool where
  "ex_hs_pool = ex_in\<lparr>ip_sync := (ip_sync ex_in)\<lparr>
     sp_rm := ex_pool_rm\<lparr>rm_infos := (\<lambda>i. Some (zero_RoleInfo\<lparr>ri_Type := RoleInfo_Keeper, ri_RoleID := i, ri_GroupID := 1, ri_BlsVerifyKey := [8]\<rparr>))\<rparr>,
     sp_clock := (\<lambda>_. ex_time), sp_ts := ex_ts0\<lparr>ts_blkCache := (\<lambda>_. Some zero_SignedBlock)\<rparr>\<rparr>\<rparr>"

definition ex_hs_app :: "InPool ConsensusApp" where
  "ex_hs_app = pool_app ex_hs_lib env0 ex_lru (\<lambda>_. []) True"

lemma ex_slot_bound: "\<forall>a b. RawHeader_Hash ex_hs_lib a = RawHeader_Hash ex_hs_lib b \<longrightarrow> rh_Slot a = rh_Slot b"
proof (intro allI impI)
  fix a b :: RawHeader
  assume "RawHeader_Hash ex_hs_lib a = RawHeader_Hash ex_hs_lib b"
  then have "take 8 (copy_into 22 (PutUint64 (rh_Slot a))) = take 8 (copy_into 22 (PutUint64 (rh_Slot b)))"
    by (simp add: RawHeader_Hash_def ex_hs_lib_def ex_slot_codec_def NewMsgID_def)
  then have "Uint64 (PutUint64 (rh_Slot a)) = Uint64 (PutUint64 (rh_Slot b))"
    by (simp add: copy_into_def)
  then show "rh_Slot a = rh_Slot b"
    by simp
qed

definition ex_hs_header :: RawHeader where
  "ex_hs_header = ex_header\<lparr>rh_MinerID := 3\<rparr>"

definition ex_quorum :: MultiSignature where
  "ex_quorum = \<lparr>ms_Type = SigBLS, ms_Signer = [1, 2, 3], ms_Data = [8, 8, 8]\<rparr>"

definition ex_hs_msg :: "HsMsgType \<Rightarrow> MsgSet \<Rightarrow> HotstuffMessage" where
  "ex_hs_msg ty txs = \<lparr>hm_From = 3, hm_Type = ty, hm_Data = \<lparr>rb_RawHeader = ex_hs_header, rb_MsgSet = txs\<rparr>,
     hm_Sig = \<lparr>sig_Type = SigBLS, sig_Data = [8]\<rparr>, hm_Quorum = ex_quorum\<rparr>"

definition ex_vote :: "HsMsgType \<Rightarrow> MsgSet \<Rightarrow> HotstuffMessage" where
  "ex_vote ty txs = (ex_hs_msg ty txs)\<lparr>hm_From := 1, hm_Quorum := NewMultiSignature SigBLS\<rparr>"

definition ex_view :: "PhaseState \<Rightarrow> MultiSignature list \<Rightarrow> MsgSet \<Rightarrow> view" where
  "ex_view ph qs txs = \<lparr>v_slot = 5, v_leader = 3, v_start = ex_time, v_header = ex_hs_header, v_txs = txs,
     v_phase = ph, v_members = [1, 2, 3], v_highQuorum = qs ! 0, v_prepareQuorum = qs ! 1, v_preCommitQuorum = qs ! 2,
     v_commitQuorum = qs ! 3, v_createdAt = ex_time\<rparr>"

definition ex_node :: "view \<Rightarrow> HotstuffMessage list \<Rightarrow> (int \<times> SignedBlock) list \<Rightarrow> InPool HotstuffManager" where
  "ex_node v out dn = \<lparr>hsm_localID = 1, hsm_curView = v, hsm_app = ex_hs_pool, hsm_out = out, hsm_rand = (\<lambda>_. 0),
     hsm_draws = 0, hsm_done = dn\<rparr>"

lemma ex_hs_pool_fields:
  "sp_st (ip_sync ex_hs_pool) = ex_state" "sp_nextHeight (ip_sync ex_hs_pool) = 1" "sp_remoteHeight (ip_sync ex_hs_pool) = 1"
  "sp_clock (ip_sync ex_hs_pool) = (\<lambda>_. ex_time)" "sp_groupID (ip_sync ex_hs_pool) = 1"
  "rm_infos (sp_rm (ip_sync ex_hs_pool)) i = Some (zero_RoleInfo\<lparr>ri_Type := RoleInfo_Keeper, ri_RoleID := i, ri_GroupID := 1, ri_BlsVerifyKey := [8]\<rparr>)"
  by (simp_all add: ex_hs_pool_def ex_in_fields)

text \<open>What the roles of the example answer, with the state of the pool as it was.\<close>

definition ex_role_ok :: "InPool \<Rightarrow> bool" where
  "ex_role_ok p \<longleftrightarrow> sp_st (ip_sync p) = ex_state \<and> (\<forall>i. rm_infos (sp_rm (ip_sync p)) i =
     Some (zero_RoleInfo\<lparr>ri_Type := RoleInfo_Keeper, ri_RoleID := i, ri_GroupID := 1, ri_BlsVerifyKey := [8]\<rparr>))"

lemma ex_pub: "ex_role_ok p \<Longrightarrow> GetPubKey ex_hs_lib env0 i KT_BLS (sp_rm (ip_sync p)) = (Inr [8], sp_rm (ip_sync p))"
  by (simp add: ex_role_ok_def GetPubKey_def rm_get_def zero_RoleInfo_def)

lemma ex_app_roles:
  assumes "ex_role_ok p"
  shows "ca_RoleSign ex_hs_app i d SigBLS p = (Inr \<lparr>sig_Type = SigBLS, sig_Data = [8]\<rparr>, p)"
    and "ca_RoleVerify ex_hs_app i d \<lparr>sig_Type = SigBLS, sig_Data = [8]\<rparr> p = (Inr True, p)"
    and "ca_RoleVerifyMulti ex_hs_app d ex_quorum p = (Inr True, p)"
    and "ca_GetQuorumSize ex_hs_app p = 2"
  using ex_pub [OF assms] assms
  by (simp_all add: SigBLS_def SigSecp256k1_def ex_hs_app_def pool_app_def zoom_def RoleSign_def RoleVerify_def RoleVerifyMulti_def keyTypeOf_def
      ex_hs_lib_def ex_quorum_def SanityCheck_def ex_role_ok_def GetQuorumSize_def StateGetThreshold_def getThreshold_def Let_def)

lemma ex_app_now:
  "ca_now ex_hs_app p = (Inr (sp_clock (ip_sync p) (sp_reads (ip_sync p))), p\<lparr>ip_sync := (ip_sync p)\<lparr>sp_reads := Suc (sp_reads (ip_sync p))\<rparr>\<rparr>)"
  by (simp add: ex_hs_app_def pool_app_def zoom_def timeNow_def)

lemma ex_role_ok_simps [simp]:
  "ex_role_ok ex_hs_pool" "ex_role_ok (p\<lparr>ip_sync := (ip_sync p)\<lparr>sp_reads := n\<rparr>\<rparr>) = ex_role_ok p"
  by (simp_all add: ex_role_ok_def ex_hs_pool_fields)

lemma ex_slot_now: "slotNow ex_time = 5"
  by (simp add: ex_time_def slotNow_def Second_def BaseTime_def SlotDuration_def)

lemma ex_header_made:
  "ca_CreateBlockHeader ex_hs_app 5 (ex_hs_pool\<lparr>ip_sync := (ip_sync ex_hs_pool)\<lparr>sp_reads := n\<rparr>\<rparr>) =
     (Inr ex_hs_header, ex_hs_pool\<lparr>ip_sync := (ip_sync ex_hs_pool)\<lparr>sp_reads := n\<rparr>\<rparr>)"
  by (simp add: ex_hs_app_def pool_app_def CreateBlockHeader_def Let_def SyncGetInfo_def StateGetInfo_def ex_hs_pool_fields slot_late
      ex_hs_header_def ex_header_def GetLeader_def GetMembers_def StateGetAllKeepers_def)

lemma ex_hs_header_fields: "rh_Height ex_hs_header = 1" "rh_Slot ex_hs_header = 5" "rh_MinerID ex_hs_header = 3"
  by (simp_all add: ex_hs_header_def ex_header_def)

lemma ex_app_members: "ex_role_ok p \<Longrightarrow> ca_GetMembers ex_hs_app p = [1, 2, 3]"
  by (simp add: ex_hs_app_def pool_app_def GetMembers_def StateGetAllKeepers_def ex_role_ok_def)

lemmas ex_run = zoom_def bnd_def seq_def reject_def updView_def isLeader_def setPhase_def signBlock_def publish_def quorumSize_def
  ex_app_now ex_app_roles ex_app_members ex_slot_now ex_header_made ex_hs_header_fields

lemma ex_view_new:
  "(snd (mineTick ex_hs_lib ex_hs_app (NewHotstuffManager 1 ex_hs_pool (\<lambda>_. 0))))\<lparr>hsm_app := ex_hs_pool\<rparr> =
     ex_node (ex_view PhaseNew (replicate 4 (NewMultiSignature SigBLS)) zero_MsgSet)
       [(ex_vote MsgNewView zero_MsgSet)\<lparr>hm_Quorum := NewMultiSignature 0\<rparr>] []"
  by (simp add: ex_run mineTick_def NewHotstuffManager_def ex_hs_pool_fields zero_SignedBlock_def
    NewView_def newView_def Let_def enterView_def finishView_def NewMultiSignature_def MultiSignature_Len_def dropErr_def resetView_def
    emptyBlock_def ex_node_def ex_view_def ex_vote_def ex_hs_msg_def)

lemma ex_check:
  assumes "ty \<in> {MsgPrepare, MsgPreCommit, MsgCommit, MsgDecide}"
  shows "checkView ex_hs_lib ex_hs_app (ex_hs_msg ty txs) (ex_node (ex_view ph qs txs') out dn) = (Inr (), ex_node (ex_view ph qs txs') out dn)"
  using assms
  by (auto simp: ex_run checkView_def sameHeader_def checkQuorum_def checkSig_def quorumPhase_def sigPhase_def ex_node_def ex_view_def
      ex_hs_msg_def MultiSignature_Len_def) (simp_all add: ex_quorum_def)

lemma ex_leader_msg:
  assumes "ty \<in> {MsgPrepare, MsgPreCommit, MsgCommit, MsgDecide}"
  shows "onLeaderMsg ex_hs_lib ex_hs_app (ex_hs_msg ty txs) body (ex_node (ex_view ph qs txs') out dn) = body (ex_node (ex_view ph qs txs') out dn)"
  using ex_check [OF assms]
  by (simp add: onLeaderMsg_def isLeader_def seq_def bnd_def) (simp add: ex_node_def ex_view_def ex_hs_msg_def bnd_def)

lemma ex_votes:
  assumes "length qs = 4"
  shows "HandleMessage ex_hs_lib ex_hs_app (ex_hs_msg MsgPrepare txs) (ex_node (ex_view PhaseNew qs txs') out dn) =
      (Inr (), ex_node (ex_view PhasePrepare (qs[0 := ex_quorum]) txs) (out @ [ex_vote MsgVotePrepare txs]) dn)"
    and "HandleMessage ex_hs_lib ex_hs_app (ex_hs_msg MsgPreCommit txs) (ex_node (ex_view PhasePrepare qs txs') out dn) =
      (Inr (), ex_node (ex_view PhasePreCommit (qs[1 := ex_quorum]) txs') (out @ [ex_vote MsgVotePreCommit txs]) dn)"
    and "HandleMessage ex_hs_lib ex_hs_app (ex_hs_msg MsgCommit txs) (ex_node (ex_view PhasePreCommit qs txs') out dn) =
      (Inr (), ex_node (ex_view PhaseCommit (qs[2 := ex_quorum]) txs') (out @ [ex_vote MsgVoteCommit txs]) dn)"
proof -
  have ty: "hm_Type (ex_hs_msg ty txs) = ty" for ty
    by (simp add: ex_hs_msg_def)
  have sk: "ca_skipCheck ex_hs_app"
    by (simp add: ex_hs_app_def pool_app_def)
  show "HandleMessage ex_hs_lib ex_hs_app (ex_hs_msg MsgPrepare txs) (ex_node (ex_view PhaseNew qs txs') out dn) =
      (Inr (), ex_node (ex_view PhasePrepare (qs[0 := ex_quorum]) txs) (out @ [ex_vote MsgVotePrepare txs]) dn)"
    "HandleMessage ex_hs_lib ex_hs_app (ex_hs_msg MsgPreCommit txs) (ex_node (ex_view PhasePrepare qs txs') out dn) =
      (Inr (), ex_node (ex_view PhasePreCommit (qs[1 := ex_quorum]) txs') (out @ [ex_vote MsgVotePreCommit txs]) dn)"
    "HandleMessage ex_hs_lib ex_hs_app (ex_hs_msg MsgCommit txs) (ex_node (ex_view PhasePreCommit qs txs') out dn) =
      (Inr (), ex_node (ex_view PhaseCommit (qs[2 := ex_quorum]) txs') (out @ [ex_vote MsgVoteCommit txs]) dn)"
    using assms sk
    by (simp_all add: HandleMessage_def ty handlePrepareMsg_def handlePreCommitMsg_def handleCommitMsg_def ex_leader_msg vote_def ex_run)
      (simp_all add: ex_node_def ex_view_def ex_vote_def ex_hs_msg_def ex_run)
qed

lemma ex_decide:
  "hsm_done (snd (HandleMessage ex_hs_lib ex_hs_app (ex_hs_msg MsgDecide txs) (ex_node (ex_view PhaseCommit qs txs') out dn))) =
     dn @ [(2, \<lparr>sb_RawBlock = \<lparr>rb_RawHeader = ex_hs_header, rb_MsgSet = txs'\<rparr>, sb_MultiSignature = ex_quorum\<rparr>)]"
proof -
  have ty: "hm_Type (ex_hs_msg ty txs) = ty" for ty
    by (simp add: ex_hs_msg_def)
  show ?thesis
    by (simp add: HandleMessage_def ty handleDecideMsg_def ex_leader_msg)
      (simp add: ex_node_def ex_view_def ex_hs_msg_def ex_run deliver_def viewBlock_def split: prod.split sum.split)
qed

text \<open>The states of the run, one reachable from the other.\<close>

definition ex_set :: MsgSet where
  "ex_set = zero_MsgSet\<lparr>mset_Root := [1]\<rparr>"

lemma ex_app_in: "ex_hs_app \<in> pool_apps ex_hs_lib"
  by (auto simp: pool_apps_def ex_hs_app_def)

definition ex_out :: "HotstuffMessage list" where
  "ex_out = [(ex_vote MsgNewView zero_MsgSet)\<lparr>hm_Quorum := NewMultiSignature 0\<rparr>, ex_vote MsgVotePrepare ex_set, ex_vote MsgVotePreCommit ex_set]"

lemma ex_reach_precommit:
  "hs_reach ex_hs_lib (pool_apps ex_hs_lib) (ex_node (ex_view PhasePreCommit
     [ex_quorum, ex_quorum, NewMultiSignature SigBLS, NewMultiSignature SigBLS] ex_set) ex_out [])"
proof -
  let ?q = "NewMultiSignature SigBLS"
  have "hs_reach ex_hs_lib (pool_apps ex_hs_lib) (ex_node (ex_view PhaseNew (replicate 4 ?q) zero_MsgSet)
      [(ex_vote MsgNewView zero_MsgSet)\<lparr>hm_Quorum := NewMultiSignature 0\<rparr>] [])"
    unfolding ex_view_new [symmetric] by (intro hs_other hs_tick hs_start ex_app_in)
  from hs_message [OF this ex_app_in, of "ex_hs_msg MsgPrepare ex_set"]
  have "hs_reach ex_hs_lib (pool_apps ex_hs_lib) (ex_node (ex_view PhasePrepare [ex_quorum, ?q, ?q, ?q] ex_set)
      [(ex_vote MsgNewView zero_MsgSet)\<lparr>hm_Quorum := NewMultiSignature 0\<rparr>, ex_vote MsgVotePrepare ex_set] [])"
    by (simp add: ex_votes(1) numeral_eq_Suc)
  from hs_message [OF this ex_app_in, of "ex_hs_msg MsgPreCommit ex_set"] show ?thesis
    by (simp add: ex_votes(2) ex_out_def)
qed

lemma ex_reach_commit:
  "hs_reach ex_hs_lib (pool_apps ex_hs_lib) (ex_node (ex_view PhaseCommit
     [ex_quorum, ex_quorum, ex_quorum, NewMultiSignature SigBLS] ex_set) (ex_out @ [ex_vote MsgVoteCommit txs]) [])"
  using hs_message [OF ex_reach_precommit ex_app_in, of "ex_hs_msg MsgCommit txs"]
  by (simp add: ex_votes(3))


theorem one_vote_per_slot_witness:
  "\<exists>h. hs_reach ex_hs_lib (pool_apps ex_hs_lib) h \<and> signedSlots PhasePrepare (hsm_out h) = [5] \<and>
     sorted_wrt (<) (signedSlots PhasePrepare (hsm_out h)) \<and> sorted_wrt (<) (signedSlots PhasePreCommit (hsm_out h))"
proof -
  have "signedSlots PhasePrepare (hsm_out (ex_node v ex_out [])) = [5]" for v
    by (simp add: ex_node_def ex_out_def signedSlots_def signTypes_def msgSlot_def ex_vote_def ex_hs_msg_def ex_hs_header_fields)
  with one_vote_per_slot [OF ex_reach_precommit ex_slot_bound] ex_reach_precommit show ?thesis
    by blast
qed

theorem delivered_quorum_witness:
  "\<exists>h sb. hs_reach ex_hs_lib (pool_apps ex_hs_lib) h \<and> (2, sb) \<in> set (hsm_done h) \<and>
     distinct (ms_Signer (sb_MultiSignature sb)) \<and> 2 \<le> int (length (ms_Signer (sb_MultiSignature sb)))"
proof -
  let ?h = "ex_node (ex_view PhaseCommit [ex_quorum, ex_quorum, ex_quorum, NewMultiSignature SigBLS] ex_set) (ex_out @ [ex_vote MsgVoteCommit ex_set]) []"
  let ?h' = "snd (HandleMessage ex_hs_lib ex_hs_app (ex_hs_msg MsgDecide ex_set) ?h)"
  let ?sb = "\<lparr>sb_RawBlock = \<lparr>rb_RawHeader = ex_hs_header, rb_MsgSet = ex_set\<rparr>, sb_MultiSignature = ex_quorum\<rparr>"
  have r: "hs_reach ex_hs_lib (pool_apps ex_hs_lib) ?h'"
    by (rule hs_message [OF ex_reach_commit ex_app_in])
  have d: "(2, ?sb) \<in> set (hsm_done ?h')"
    by (simp add: ex_decide)
  from delivered_quorum [OF r d] r d show ?thesis
    by (force simp: ex_hs_header_fields)
qed

end
