(* ===== verification/ProOrder.thy ===== *)
theory ProOrder
  imports RoleMgr StateApi GoHoare
begin

text \<open>
  The orders of a provider, \<open>service/provider/order\<close>, with the white list of users,
  \<open>submodule/control/access.go\<close>.

  A handler runs under the lock of one user's order, on that order and on the resources of the
  node (store, segments, roles, clock): the pair is its state.  The verifier of received data is
  the interface \<open>DataVerifier\<close> of the PDP scheme: its state is what was added since the last
  reset, and what it answers is a parameter.  The cache of the data service is filled under
  pointers and asked by strings, so it never answers; the local segments are those of its store.
\<close>

section \<open>The white list\<close>

record wl =
  wl_enable :: bool
  wl_list :: "u64 \<Rightarrow> bool"
  wl_ds :: kvs

definition wl_eflag :: bytes where "wl_eflag = ascii ''enable''"

text \<open>\<open>entries\<close> are the values that \<open>Iter\<close> meets under the prefix.\<close>

definition wl_New :: "bytes list \<Rightarrow> kvs \<Rightarrow> wl" where
  "wl_New entries d = \<lparr>wl_enable = (d (NewKey [KString wl_eflag]) = Some wl_eflag),
     wl_list = (\<lambda>u. \<exists>v \<in> set entries. length v = 8 \<and> Uint64 v = u), wl_ds = d\<rparr>"

definition wl_Enable :: "lib \<Rightarrow> bool \<Rightarrow> wl \<Rightarrow> wl" where
  "wl_Enable L ea w = w\<lparr>wl_enable := ea, wl_ds :=
     (if \<not> ea then ds_delete (wl_ds w) (NewKey [KString wl_eflag])
      else if lb_putFail L (NewKey [KString wl_eflag]) wl_eflag then wl_ds w
      else ds_put (wl_ds w) (NewKey [KString wl_eflag]) wl_eflag)\<rparr>"

definition wl_Add :: "lib \<Rightarrow> u64 \<Rightarrow> (wl, unit) go" where
  "wl_Add L uid =
     bnd (gets wl_enable) (\<lambda>en.
     seq (reject (\<not> en) ''enable restrict first'')
         (modify (\<lambda>w. w\<lparr>wl_list := (wl_list w)(uid := True), wl_ds :=
            (if lb_putFail L (NewKey [KUint (unat uid)]) (PutUint64 uid) then wl_ds w
             else ds_put (wl_ds w) (NewKey [KUint (unat uid)]) (PutUint64 uid))\<rparr>)))"

definition wl_Delete :: "u64 \<Rightarrow> (wl, unit) go" where
  "wl_Delete uid =
     bnd (gets wl_enable) (\<lambda>en.
     seq (reject (\<not> en) ''enable restrict first'')
         (modify (\<lambda>w. w\<lparr>wl_list := (wl_list w)(uid := False), wl_ds := ds_delete (wl_ds w) (NewKey [KUint (unat uid)])\<rparr>)))"

definition wl_Has :: "u64 \<Rightarrow> wl \<Rightarrow> bool" where
  "wl_Has uid w \<longleftrightarrow> \<not> wl_enable w \<or> wl_list w uid"

section \<open>Data\<close>

datatype OrderState = Order_Init | Order_Ack | Order_Done

datatype OrderSeqState = OrderSeq_Init | OrderSeq_Ack | OrderSeq_Done

record NonceState =
  nst_Nonce :: u64
  nst_Time :: i64
  nst_State :: OrderState

record SeqState =
  sst_Number :: u32
  sst_Time :: i64
  sst_State :: OrderSeqState

record DataInfo =
  di_ID :: u64
  di_Size :: u64
  di_ConfirmSize :: u64
  di_OnChainSize :: u64
  di_ExpireSize :: u64
  di_NeedPay :: "int option"
  di_Paid :: "int option"
  di_Balance :: "int option"
  di_Received :: u64
  di_ConfirmedNonce :: u64
  di_SubNonce :: u64

record Quotation =
  qu_ProID :: u64
  qu_TokenIndex :: u32
  qu_SegPrice :: int
  qu_PiecePrice :: int

record StoreInfo =
  sti_Size :: u64
  sti_Nonce :: u64
  sti_SubNonce :: u64

text \<open>\<open>po_dv\<close> is the key the verifier was made for, \<open>None\<close> the nil pointer; \<open>po_added\<close> what was added.\<close>

record ProOrder =
  po_userID :: u64
  po_fsID :: bytes
  po_availTime :: i64
  po_base :: "SignedOrder option"
  po_orderTime :: i64
  po_orderState :: OrderState
  po_seq :: "SignedOrderSeq option"
  po_seqTime :: i64
  po_seqState :: OrderSeqState
  po_nonce :: u64
  po_seqNum :: u32
  po_dv :: "bytes option"
  po_added :: "(bytes \<times> bytes \<times> bytes) list"
  po_di :: DataInfo
  po_ready :: bool
  po_pause :: bool

record ProNode =
  pn_localID :: u64
  pn_quo :: Quotation
  pn_ds :: kvs
  pn_segs :: "bytes \<Rightarrow> BaseSegment option"
  pn_rm :: RoleMgr
  pn_st :: StateMgr
  pn_clock :: "nat \<Rightarrow> i64"
  pn_reads :: nat

record OrderMgr =
  om_node :: ProNode
  om_wl :: wl
  om_di :: DataInfo
  om_users :: "u64 list"
  om_orders :: "u64 \<Rightarrow> ProOrder option"

text \<open>What the provider calls outside: the settlement chain, the disk, the PDP scheme and the encodings.\<close>

record penv =
  pe_role :: env
  pe_storeInfo :: "u64 \<Rightarrow> StoreInfo option"
  pe_balance :: "u64 \<Rightarrow> (int option \<times> int option) option"
  pe_segPutFail :: "BaseSegment \<Rightarrow> bool"
  pe_dvNewFail :: "bytes \<Rightarrow> bool"
  pe_dvAddFail :: "bytes \<Rightarrow> bytes \<times> bytes \<times> bytes \<Rightarrow> bool"
  pe_dvResult :: "bytes \<Rightarrow> (bytes \<times> bytes \<times> bytes) list \<Rightarrow> bool option"
  pe_cDataInfo :: "DataInfo codec"
  pe_cNonceState :: "NonceState codec"
  pe_cSeqState :: "SeqState codec"
  pe_cQuotation :: "Quotation codec"

type_synonym 'a ogo = "(ProOrder \<times> ProNode, 'a) go"
type_synonym 'a mgo = "(OrderMgr, 'a) go"

abbreviation on_or :: "(ProOrder, 'a) go \<Rightarrow> 'a ogo" where
  "on_or m \<equiv> zoom fst (\<lambda>o' (_, n). (o', n)) m"

abbreviation on_pn :: "(ProNode, 'a) go \<Rightarrow> 'a ogo" where
  "on_pn m \<equiv> zoom snd (\<lambda>n (o', _). (o', n)) m"

abbreviation pn_role :: "'a rgo \<Rightarrow> (ProNode, 'a) go" where
  "pn_role m \<equiv> zoom pn_rm (\<lambda>r n. n\<lparr>pn_rm := r\<rparr>) m"

abbreviation on_node :: "(ProNode, 'a) go \<Rightarrow> 'a mgo" where
  "on_node m \<equiv> zoom om_node (\<lambda>n mg. mg\<lparr>om_node := n\<rparr>) m"

definition updOr :: "(ProOrder \<Rightarrow> ProOrder) \<Rightarrow> unit ogo" where
  "updOr f = modify (\<lambda>(o', n). (f o', n))"

text \<open>\<open>time.Now().Unix()\<close>\<close>

definition unixNow :: "(ProNode, i64) go" where
  "unixNow n = (Inr (pn_clock n (pn_reads n)), n\<lparr>pn_reads := Suc (pn_reads n)\<rparr>)"

definition pn_put :: "lib \<Rightarrow> bytes \<Rightarrow> bytes \<Rightarrow> (ProNode, unit) go" where
  "pn_put L k v = seq (reject (lb_putFail L k v) ''put'') (modify (\<lambda>n. n\<lparr>pn_ds := ds_put (pn_ds n) k v\<rparr>))"

definition MT_OrderNonceKey :: nat where "MT_OrderNonceKey = 50"
definition MT_OrderBaseKey :: nat where "MT_OrderBaseKey = 51"
definition MT_OrderSeqNumKey :: nat where "MT_OrderSeqNumKey = 52"
definition MT_OrderSeqKey :: nat where "MT_OrderSeqKey = 53"
definition MT_OrderPayInfoKey :: nat where "MT_OrderPayInfoKey = 58"

definition baseKey :: "u64 \<Rightarrow> u64 \<Rightarrow> u64 \<Rightarrow> bytes" where
  "baseKey pro u n = skey MT_OrderBaseKey [unat pro, unat u, unat n]"

definition nonceKey :: "u64 \<Rightarrow> u64 \<Rightarrow> bytes" where
  "nonceKey pro u = skey MT_OrderNonceKey [unat pro, unat u]"

definition seqKey :: "u64 \<Rightarrow> u64 \<Rightarrow> u64 \<Rightarrow> u32 \<Rightarrow> bytes" where
  "seqKey pro u n q = skey MT_OrderSeqKey [unat pro, unat u, unat n, unat q]"

definition seqNumKey :: "u64 \<Rightarrow> u64 \<Rightarrow> u64 \<Rightarrow> bytes" where
  "seqNumKey pro u n = skey MT_OrderSeqNumKey [unat pro, unat u, unat n]"

definition payKey :: "u64 \<Rightarrow> u64 \<Rightarrow> bytes" where
  "payKey pro u = skey MT_OrderPayInfoKey [unat pro, unat u]"

definition orderMaxSize :: u64 where "orderMaxSize = 10 * 1024 * 1024 * 1024 * 1024"
definition seqMaxSize :: u64 where "seqMaxSize = 1024 * 1024 * 1024 * 1024"

definition Hour :: int where "Hour = 3600"

section \<open>Saving\<close>

definition saveOrderBase :: "lib \<Rightarrow> unit ogo" where
  "saveOrderBase L =
     bnd (gets fst) (\<lambda>o'.
     bnd (gets (\<lambda>(_, n). pn_localID n)) (\<lambda>pro.
     bnd (deref ''nil base'' (po_base o')) (\<lambda>base.
     bnd (Serialize (lb_cSignedOrder L) base) (\<lambda>data.
     on_pn (pn_put L (baseKey pro (po_userID o') (so_Nonce base)) data)))))"

definition proSaveOrderState :: "lib \<Rightarrow> penv \<Rightarrow> unit ogo" where
  "proSaveOrderState L P =
     bnd (gets fst) (\<lambda>o'.
     bnd (gets (\<lambda>(_, n). pn_localID n)) (\<lambda>pro.
     bnd (deref ''nil base'' (po_base o')) (\<lambda>base.
     bnd (Serialize (pe_cNonceState P) \<lparr>nst_Nonce = so_Nonce base, nst_Time = po_orderTime o', nst_State = po_orderState o'\<rparr>) (\<lambda>data.
     on_pn (pn_put L (nonceKey pro (po_userID o')) data)))))"

definition saveOrderSeq :: "lib \<Rightarrow> unit ogo" where
  "saveOrderSeq L =
     bnd (gets fst) (\<lambda>o'.
     bnd (gets (\<lambda>(_, n). pn_localID n)) (\<lambda>pro.
     bnd (deref ''nil base'' (po_base o')) (\<lambda>base.
     bnd (deref ''nil seq'' (po_seq o')) (\<lambda>sq.
     bnd (Serialize (lb_cSignedOrderSeq L) sq) (\<lambda>data.
     on_pn (pn_put L (seqKey pro (po_userID o') (so_Nonce base) (os_SeqNum (sos_OrderSeq sq))) data))))))"

definition saveSeqState :: "lib \<Rightarrow> penv \<Rightarrow> unit ogo" where
  "saveSeqState L P =
     bnd (gets fst) (\<lambda>o'.
     bnd (gets (\<lambda>(_, n). pn_localID n)) (\<lambda>pro.
     bnd (deref ''nil base'' (po_base o')) (\<lambda>base.
     bnd (deref ''nil seq'' (po_seq o')) (\<lambda>sq.
     bnd (Serialize (pe_cSeqState P) \<lparr>sst_Number = os_SeqNum (sos_OrderSeq sq), sst_Time = po_seqTime o', sst_State = po_seqState o'\<rparr>) (\<lambda>data.
     on_pn (pn_put L (seqNumKey pro (po_userID o') (so_Nonce base)) data))))))"

text \<open>The errors of \<open>Serialize\<close> and \<open>Put\<close> are dropped; a failed \<open>Serialize\<close> leaves a nil slice.\<close>

definition savePay :: "lib \<Rightarrow> penv \<Rightarrow> unit ogo" where
  "savePay L P =
     bnd (gets fst) (\<lambda>o'.
     bnd (gets (\<lambda>(_, n). pn_localID n)) (\<lambda>pro.
     dropErr (on_pn (pn_put L (payKey pro (po_userID o'))
       (case marshal (pe_cDataInfo P) (po_di o') of None \<Rightarrow> [] | Some b \<Rightarrow> b)))))"

section \<open>Loading\<close>

definition new_DataInfo :: "u64 \<Rightarrow> DataInfo" where
  "new_DataInfo u = \<lparr>di_ID = u, di_Size = 0, di_ConfirmSize = 0, di_OnChainSize = 0, di_ExpireSize = 0,
     di_NeedPay = Some 0, di_Paid = Some 0, di_Balance = None, di_Received = 0, di_ConfirmedNonce = 0, di_SubNonce = 0\<rparr>"

definition new_ProOrder :: "u64 \<Rightarrow> ProOrder" where
  "new_ProOrder u = \<lparr>po_userID = u, po_fsID = [], po_availTime = 0, po_base = None, po_orderTime = 0,
     po_orderState = Order_Init, po_seq = None, po_seqTime = 0, po_seqState = OrderSeq_Init, po_nonce = 0,
     po_seqNum = 0, po_dv = None, po_added = [], po_di = new_DataInfo u, po_ready = False, po_pause = False\<rparr>"

text \<open>The verifier and the file system of the user, once the user's key is on the chain.\<close>

definition loadVerifier :: "lib \<Rightarrow> penv \<Rightarrow> bytes option \<Rightarrow> ProOrder \<Rightarrow> ProOrder option" where
  "loadVerifier L P mpk o' = (case mpk of
      None \<Rightarrow> None
    | Some d \<Rightarrow> (case lb_pdpPublicKey L d of
        None \<Rightarrow> None
      | Some pk \<Rightarrow> if pe_dvNewFail P pk then None
          else Some (o'\<lparr>po_dv := Some pk, po_added := [], po_fsID := lb_vkHash L (lb_pkVerifyKey L pk), po_ready := True\<rparr>)))"

definition proCreateOrder :: "lib \<Rightarrow> penv \<Rightarrow> unit ogo" where
  "proCreateOrder L P =
     bnd (gets (\<lambda>(o', n). StateGetPDPPublicKey L (po_userID o') (pn_st n))) (\<lambda>mpk.
     updOr (\<lambda>o'. case loadVerifier L P mpk o' of None \<Rightarrow> o' | Some o2 \<Rightarrow> o2))"

text \<open>The sizes read back; the second \<open>if\<close> of the code has no effect.\<close>

definition loadPay :: "penv \<Rightarrow> u64 \<Rightarrow> kvs \<Rightarrow> ProOrder \<Rightarrow> ProOrder" where
  "loadPay P pro d o' =
     (let di = (case d (payKey pro (po_userID o')) of None \<Rightarrow> po_di o'
        | Some b \<Rightarrow> decode_into (pe_cDataInfo P) (po_di o') b)
      in o'\<lparr>po_di := (if di_Size di < di_ConfirmSize di then di\<lparr>di_Size := di_ConfirmSize di\<rparr> else di)\<rparr>)"

text \<open>``fix missing'': the open order gets the size of the sequence before.\<close>

definition fixBase :: "lib \<Rightarrow> u64 \<Rightarrow> kvs \<Rightarrow> u64 \<Rightarrow> u32 \<Rightarrow> ProOrder \<Rightarrow> ('s, ProOrder) go" where
  "fixBase L pro d nonce num o' = (case po_base o' of
      None \<Rightarrow> ret o'
    | Some base \<Rightarrow>
        if num > 0 \<and> so_Size base = 0 then
          (case Option.bind (d (seqKey pro (po_userID o') nonce (num - 1))) (decode (lb_cSignedOrderSeq L) zero_SignedOrderSeq) of
             None \<Rightarrow> ret o'
           | Some sq \<Rightarrow>
               bnd (deref ''nil Price'' (so_Price base)) (\<lambda>_.
               bnd (deref ''nil Price'' (os_Price (sos_OrderSeq sq))) (\<lambda>p.
               ret (o'\<lparr>po_base := Some (base\<lparr>so_Size := os_Size (sos_OrderSeq sq), so_Price := Some p\<rparr>)\<rparr>))))
        else ret o')"

text \<open>The open order and its sequence, as far as they are found in the store.\<close>

definition loadSeq :: "lib \<Rightarrow> penv \<Rightarrow> u64 \<Rightarrow> kvs \<Rightarrow> NonceSeq \<Rightarrow> u64 \<Rightarrow> ProOrder \<Rightarrow> ('s, ProOrder) go" where
  "loadSeq L P pro d dns nonce o' =
     (case (case d (seqNumKey pro (po_userID o') nonce) of
              None \<Rightarrow> Some \<lparr>sst_Number = ns_SeqNum dns, sst_Time = 0, sst_State = OrderSeq_Init\<rparr>
            | Some b \<Rightarrow> decode (pe_cSeqState P) \<lparr>sst_Number = 0, sst_Time = 0, sst_State = OrderSeq_Init\<rparr> b) of
        None \<Rightarrow> ret o'
      | Some ss \<Rightarrow>
          (case Option.bind (d (seqKey pro (po_userID o') nonce (sst_Number ss))) (decode (lb_cSignedOrderSeq L) zero_SignedOrderSeq) of
             None \<Rightarrow> ret o'
           | Some sq \<Rightarrow> fixBase L pro d nonce (sst_Number ss)
               (o'\<lparr>po_seq := Some sq, po_seqTime := sst_Time ss, po_seqState := sst_State ss, po_seqNum := sst_Number ss + 1\<rparr>)))"

definition proLoadOrder :: "lib \<Rightarrow> penv \<Rightarrow> u64 \<Rightarrow> kvs \<Rightarrow> NonceSeq \<Rightarrow> ProOrder \<Rightarrow> ('s, ProOrder) go" where
  "proLoadOrder L P pro d dns o' =
     (case (case d (nonceKey pro (po_userID o')) of
              None \<Rightarrow> Some \<lparr>nst_Nonce = ns_Nonce dns, nst_Time = 0, nst_State = Order_Init\<rparr>
            | Some b \<Rightarrow> decode (pe_cNonceState P) \<lparr>nst_Nonce = 0, nst_Time = 0, nst_State = Order_Init\<rparr> b) of
        None \<Rightarrow> ret o'
      | Some ns \<Rightarrow>
          (case Option.bind (d (baseKey pro (po_userID o') (nst_Nonce ns))) (decode (lb_cSignedOrder L) zero_SignedOrder) of
             None \<Rightarrow> ret o'
           | Some ob \<Rightarrow> loadSeq L P pro d dns (nst_Nonce ns)
               (o'\<lparr>po_base := Some ob, po_orderState := nst_State ns, po_orderTime := nst_Time ns, po_nonce := nst_Nonce ns + 1\<rparr>)))"

text \<open>A user seen for the first time is registered, and then loaded from the chain and the store.\<close>

definition getOrder :: "lib \<Rightarrow> penv \<Rightarrow> u64 \<Rightarrow> unit mgo" where
  "getOrder L P uid =
     bnd (gets (\<lambda>m. (om_orders m uid, om_node m))) (\<lambda>(mo, n).
     case mo of Some _ \<Rightarrow> ret ()
     | None \<Rightarrow>
         let put = (\<lambda>o'. modify (\<lambda>m. m\<lparr>om_orders := (om_orders m)(uid \<mapsto> o')\<rparr>));
             rest = (\<lambda>o'. bnd (proLoadOrder L P (pn_localID n) (pn_ds n) (StateGetOrderNonce L uid (pn_localID n) (- 1) (pn_st n))
               (loadPay P (pn_localID n) (pn_ds n) o')) put) in
         seq (modify (\<lambda>m. m\<lparr>om_users := om_users m @ [uid]\<rparr>))
        (seq (put (new_ProOrder uid))
        (case StateGetPDPPublicKey L uid (pn_st n) of
           None \<Rightarrow> rest (new_ProOrder uid)
         | Some d \<Rightarrow> (case loadVerifier L P (Some d) (new_ProOrder uid) of None \<Rightarrow> ret () | Some o' \<Rightarrow> rest o'))))"

text \<open>A handler under the lock of the user's order.\<close>

definition with_order :: "lib \<Rightarrow> penv \<Rightarrow> u64 \<Rightarrow> 'a ogo \<Rightarrow> 'a mgo" where
  "with_order L P uid h =
     seq (getOrder L P uid)
         (\<lambda>m. case om_orders m uid of
            None \<Rightarrow> (Inl (Panic ''nil order''), m)
          | Some o' \<Rightarrow> (case h (o', om_node m) of (r, (o2, n2)) \<Rightarrow>
              (r, m\<lparr>om_orders := (om_orders m)(uid \<mapsto> o2), om_node := n2\<rparr>)))"

section \<open>Receiving data\<close>

definition verifierAdd :: "penv \<Rightarrow> bytes \<times> bytes \<times> bytes \<Rightarrow> unit ogo" where
  "verifierAdd P x =
     bnd (gets (\<lambda>(o', _). po_dv o')) (\<lambda>dv.
     bnd (deref ''nil verifier'' dv) (\<lambda>pk.
     seq (reject (pe_dvAddFail P pk x) ''data verifier'')
         (updOr (\<lambda>o'. o'\<lparr>po_added := po_added o' @ [x]\<rparr>))))"

text \<open>A segment in the form the verifier takes; \<open>tags[0]\<close> of no tags panics.\<close>

definition segTriple :: "BaseSegment \<Rightarrow> ('s, bytes \<times> bytes \<times> bytes) go" where
  "segTriple sg =
     bnd (orFail (Segment_Content sg)) (\<lambda>da.
     bnd (orFail (Segment_Tags sg)) (\<lambda>tags. case tags of
       [] \<Rightarrow> fail (Panic ''index out of range'')
     | t # _ \<Rightarrow> ret (bs_segID sg, da, t)))"

text \<open>\<open>or.seq.Price.Add(or.seq.Price, or.base.SegPrice)\<close> and the size of one more segment.\<close>

definition chargeSeg :: "unit ogo" where
  "chargeSeg =
     bnd (gets fst) (\<lambda>o'.
     bnd (deref ''nil base'' (po_base o')) (\<lambda>base.
     bnd (deref ''nil seq'' (po_seq o')) (\<lambda>sq.
     bnd (deref ''nil Price'' (os_Price (sos_OrderSeq sq))) (\<lambda>p.
     bnd (deref ''nil SegPrice'' (ob_SegPrice (so_OrderBase base))) (\<lambda>sp.
     updOr (\<lambda>o'. o'\<lparr>po_seq := Some (sq\<lparr>sos_OrderSeq := (sos_OrderSeq sq)\<lparr>os_Price := Some (p + sp),
       os_Size := os_Size (sos_OrderSeq sq) + DefaultSegSize\<rparr>\<rparr>)\<rparr>))))))"

definition pushSeg :: "lib \<Rightarrow> bytes \<Rightarrow> ProOrder \<Rightarrow> ProOrder" where
  "pushSeg L sid o' = (case po_seq o' of None \<Rightarrow> o'
    | Some sq \<Rightarrow> o'\<lparr>po_seq := Some (sq\<lparr>sos_OrderSeq := (sos_OrderSeq sq)\<lparr>os_Segments :=
        AggSegs_Merge (lb_sortAggSegs L) (AggSegs_Push (os_Segments (sos_OrderSeq sq))
          \<lparr>as_BucketID = GetBucketID sid, as_Start = GetStripeID sid, as_Length = 1, as_ChunkID = GetChunkID sid\<rparr>)\<rparr>\<rparr>)\<rparr>)"

definition storeData :: "lib \<Rightarrow> penv \<Rightarrow> BaseSegment \<Rightarrow> unit ogo" where
  "storeData L P sg =
     (let sid = bs_segID sg in
     bnd (gets (\<lambda>(_, n). pn_segs n sid \<noteq> None)) (\<lambda>has.
     seq (reject has ''already has seg in local'')
    (bnd (segTriple sg) (\<lambda>x.
     seq (verifierAdd P x)
    (seq (reject (pe_segPutFail P sg) ''put segment'')
    (seq (on_pn (modify (\<lambda>n. n\<lparr>pn_segs := (pn_segs n)(sid \<mapsto> sg)\<rparr>)))
    (seq (updOr (pushSeg L sid))
    (seq chargeSeg
    (seq (dropErr (saveOrderSeq L))
    (seq (updOr (\<lambda>o'. o'\<lparr>po_di := (po_di o')\<lparr>di_Received := di_Received (po_di o') + DefaultSegSize\<rparr>\<rparr>))
         (savePay L P)))))))))))"

definition handleData :: "lib \<Rightarrow> penv \<Rightarrow> BaseSegment \<Rightarrow> unit ogo" where
  "handleData L P sg =
     bnd (gets fst) (\<lambda>o'.
     seq (reject (\<not> po_ready o') ''order service not ready'')
    (bnd (orErr ''no order base'' (po_base o')) (\<lambda>base.
     bnd (orErr ''no order seq'' (po_seq o')) (\<lambda>sq.
     seq (reject (os_Size (sos_OrderSeq sq) - so_Size base > seqMaxSize) ''sub size is larger'')
    (bnd (on_pn unixNow) (\<lambda>now.
     seq (updOr (\<lambda>o'. o'\<lparr>po_availTime := now\<rparr>))
    (if po_orderState o' = Order_Ack \<and> po_seqState o' = OrderSeq_Ack then
       seq (reject (AggSegs_Has (os_Segments (sos_OrderSeq sq)) (GetBucketID (bs_segID sg)) (GetStripeID (bs_segID sg)) (GetChunkID (bs_segID sg)))
              ''already has seg'')
           (storeData L P sg)
     else fail (Err ''fail handle add data''))))))))"

definition HandleData :: "lib \<Rightarrow> penv \<Rightarrow> u64 \<Rightarrow> BaseSegment \<Rightarrow> unit mgo" where
  "HandleData L P uid sg =
     bnd (gets om_wl) (\<lambda>w.
     seq (reject (\<not> wl_Has uid w) ''disable service for user'')
         (with_order L P uid (handleData L P sg)))"

definition HandleQuotation :: "penv \<Rightarrow> u64 \<Rightarrow> bytes mgo" where
  "HandleQuotation P uid =
     bnd (gets (\<lambda>m. (om_wl m, pn_quo (om_node m)))) (\<lambda>(w, q).
     seq (reject (\<not> wl_Has uid w) ''disable service for user'')
         (Serialize (pe_cQuotation P) q))"

section \<open>Creating an order\<close>

text \<open>What is checked before the user's order is looked at; a nil price panics in \<open>BitLen\<close>.\<close>

definition checkOffer :: "SignedOrder \<Rightarrow> Quotation \<Rightarrow> (ProNode, unit) go" where
  "checkOffer ob q =
     seq (reject (sint (so_End ob - so_Start ob) < OrderMin) ''order duration is short'')
    (seq (reject (so_Size ob \<noteq> 0) ''order size should be zero'')
    (bnd (deref ''nil Price'' (so_Price ob)) (\<lambda>p.
     seq (reject (p \<noteq> 0) ''order price should be zero'')
    (seq (CheckOrder (so_OrderBase ob))
    (seq (reject (ob_TokenIndex (so_OrderBase ob) \<noteq> qu_TokenIndex q) ''seg token index is wrong'')
    (bnd (deref ''nil SegPrice'' (ob_SegPrice (so_OrderBase ob))) (\<lambda>sp.
     seq (reject (sp < qu_SegPrice q) ''seg price is lower'')
    (bnd unixNow (\<lambda>nt.
     reject (sint (so_Start ob) < sint nt \<and> sint (nt - so_Start ob) > Hour \<or>
             sint (so_Start ob) > sint nt \<and> sint (so_Start ob - nt) > Hour) ''order start is far'')))))))))"

text \<open>The order is taken: the state changes before the provider signs and saves.\<close>

definition takeOrder :: "lib \<Rightarrow> penv \<Rightarrow> SignedOrder \<Rightarrow> bytes ogo" where
  "takeOrder L P ob =
     seq (updOr (\<lambda>o'. o'\<lparr>po_base := Some ob, po_orderState := Order_Ack\<rparr>))
    (bnd (on_pn unixNow) (\<lambda>now.
     seq (updOr (\<lambda>o'. o'\<lparr>po_orderTime := now, po_nonce := so_Nonce ob + 1, po_seqNum := 0, po_seqState := OrderSeq_Init, po_added := []\<rparr>))
    (bnd (SignedOrder_Hash (lb_keccak L) (lb_build L) ob) (\<lambda>h.
     bnd (gets (\<lambda>(_, n). pn_localID n)) (\<lambda>pro.
     bnd (on_pn (pn_role (RoleSign L (pe_role P) pro h SigSecp256k1))) (\<lambda>psig.
     seq (updOr (\<lambda>o'. o'\<lparr>po_base := Some (ob\<lparr>so_Psign := psig\<rparr>)\<rparr>))
    (seq (saveOrderBase L)
    (seq (proSaveOrderState L P)
         (Serialize (lb_cSignedOrder L) (ob\<lparr>so_Psign := psig\<rparr>))))))))))"

text \<open>``handle previous'': the open order is closed; an empty one refuses the next, once.\<close>

definition closePrevious :: "lib \<Rightarrow> penv \<Rightarrow> unit ogo" where
  "closePrevious L P =
     bnd (gets fst) (\<lambda>o'. case po_base o' of
       None \<Rightarrow> ret ()
     | Some base \<Rightarrow>
         if po_orderState o' = Order_Ack then
           seq (updOr (\<lambda>o'. o'\<lparr>po_orderState := Order_Done\<rparr>))
          (bnd (on_pn unixNow) (\<lambda>now.
           seq (updOr (\<lambda>o'. o'\<lparr>po_orderTime := now\<rparr>))
          (seq (proSaveOrderState L P)
          (seq (reject (so_Size base = 0) ''not create order due to prevous order is empty'')
               (updOr (\<lambda>o'. o'\<lparr>po_base := None, po_orderState := Order_Init\<rparr>))))))
         else ret ())"

definition ackedOrder :: "lib \<Rightarrow> penv \<Rightarrow> SignedOrder \<Rightarrow> bytes ogo" where
  "ackedOrder L P ob =
     bnd (gets fst) (\<lambda>o'. case po_base o' of
       None \<Rightarrow> fail (Err ''fail create order'')
     | Some base \<Rightarrow>
         if so_Nonce base = so_Nonce ob \<and> po_orderState o' = Order_Ack then
           bnd (SignedOrder_Hash (lb_keccak L) (lb_build L) ob) (\<lambda>h.
           bnd (SignedOrder_Hash (lb_keccak L) (lb_build L) base) (\<lambda>h'.
           if h = h' then Serialize (lb_cSignedOrder L) base
           else if so_Size base = 0 \<and> (case po_seq o' of None \<Rightarrow> True | Some sq \<Rightarrow> os_Size (sos_OrderSeq sq) = 0)
           then takeOrder L P ob
           else fail (Err ''fail create order'')))
         else fail (Err ''fail create order''))"

definition handleCreateOrder :: "lib \<Rightarrow> penv \<Rightarrow> SignedOrder \<Rightarrow> bytes ogo" where
  "handleCreateOrder L P ob =
     bnd (gets fst) (\<lambda>o'.
     seq (reject (\<not> po_ready o') ''order service not ready'')
    (seq (reject (po_pause o') ''order service pause'')
    (bnd (on_pn unixNow) (\<lambda>now.
     seq (updOr (\<lambda>o'. o'\<lparr>po_availTime := now\<rparr>))
    (if po_nonce o' = so_Nonce ob then
       seq (closePrevious L P)
      (seq (updOr (\<lambda>o'. if po_orderState o' = Order_Done then o'\<lparr>po_orderState := Order_Init\<rparr> else o'))
      (bnd (gets fst) (\<lambda>o'.
       if po_orderState o' = Order_Init then takeOrder L P ob else ackedOrder L P ob)))
     else ackedOrder L P ob)))))"

text \<open>A user whose order is not ready is loaded in the background: \<open>proCreateOrder\<close> runs later.\<close>

definition HandleCreateOrder :: "lib \<Rightarrow> penv \<Rightarrow> bytes \<Rightarrow> bytes mgo" where
  "HandleCreateOrder L P b =
     bnd (orErr ''unmarshal'' (decode (lb_cSignedOrder L) zero_SignedOrder b)) (\<lambda>ob.
     bnd (gets (\<lambda>m. pn_quo (om_node m))) (\<lambda>q.
     seq (on_node (checkOffer ob q))
         (with_order L P (so_UserID ob) (handleCreateOrder L P ob))))"

section \<open>Sequences\<close>

definition openFor :: "ProOrder \<Rightarrow> SignedOrderSeq \<Rightarrow> SignedOrder option" where
  "openFor o' sq = (case po_base o' of None \<Rightarrow> None
    | Some base \<Rightarrow> if po_orderState o' = Order_Ack \<and> so_Nonce base = os_Nonce (sos_OrderSeq sq) then Some base else None)"

definition takeSeq :: "lib \<Rightarrow> penv \<Rightarrow> SignedOrder \<Rightarrow> SignedOrderSeq \<Rightarrow> bytes ogo" where
  "takeSeq L P base sq =
     bnd (deref ''nil Price'' (os_Price (sos_OrderSeq sq))) (\<lambda>p.
     bnd (deref ''nil Price'' (so_Price base)) (\<lambda>bp.
     seq (reject (p \<noteq> bp \<or> os_Size (sos_OrderSeq sq) \<noteq> so_Size base) ''wrong size'')
    (seq (reject (so_Size base > orderMaxSize) ''large size'')
    (seq (updOr (\<lambda>o'. o'\<lparr>po_seq := Some sq, po_seqState := OrderSeq_Ack\<rparr>))
    (bnd (on_pn unixNow) (\<lambda>now.
     seq (updOr (\<lambda>o'. o'\<lparr>po_seqTime := now, po_seqNum := po_seqNum o' + 1\<rparr>))
    (seq (saveOrderSeq L)
    (seq (saveSeqState L P)
         (Serialize (lb_cSignedOrderSeq L) sq)))))))))"

definition handleCreateSeq :: "lib \<Rightarrow> penv \<Rightarrow> SignedOrderSeq \<Rightarrow> bytes ogo" where
  "handleCreateSeq L P sq =
     bnd (gets fst) (\<lambda>o'.
     seq (reject (\<not> po_ready o') ''order service not ready'')
    (bnd (on_pn unixNow) (\<lambda>now.
     seq (updOr (\<lambda>o'. o'\<lparr>po_availTime := now\<rparr>))
    (bnd (orErr ''fail create seq'' (openFor o' sq)) (\<lambda>base.
     if po_seqNum o' = os_SeqNum (sos_OrderSeq sq) \<and> po_seqState o' \<in> {OrderSeq_Init, OrderSeq_Done} then takeSeq L P base sq
     else case po_seq o' of
       None \<Rightarrow> fail (Err ''fail create seq'')
     | Some cur \<Rightarrow>
         if os_SeqNum (sos_OrderSeq cur) = os_SeqNum (sos_OrderSeq sq) \<and> po_seqState o' = OrderSeq_Ack
         then Serialize (lb_cSignedOrderSeq L) cur else fail (Err ''fail create seq''))))))"

definition HandleCreateSeq :: "lib \<Rightarrow> penv \<Rightarrow> u64 \<Rightarrow> bytes \<Rightarrow> bytes mgo" where
  "HandleCreateSeq L P uid b =
     bnd (orErr ''unmarshal'' (decode (lb_cSignedOrderSeq L) zero_SignedOrderSeq b)) (\<lambda>sq.
     with_order L P uid (handleCreateSeq L P sq))"

text \<open>\<open>sid.SetBucketID(..)\<close>, \<open>SetChunkID(..)\<close> and \<open>SetStripeID(j)\<close> for every segment of a run.\<close>

definition segIDs :: "bytes \<Rightarrow> AggSegs \<Rightarrow> bytes list" where
  "segIDs sid sg = map (\<lambda>j. SetStripeID (of_nat j) (SetChunkID (as_ChunkID sg) (SetBucketID (as_BucketID sg) sid)))
     (stripe_range (as_Start sg) (as_Length sg))"

text \<open>A segment that is missing ends the loop, one that does not verify is passed over.\<close>

definition reloadSeg :: "penv \<Rightarrow> bytes \<Rightarrow> unit ogo" where
  "reloadSeg P sid =
     bnd (gets (\<lambda>(_, n). pn_segs n sid)) (\<lambda>ms.
     bnd (orErr ''not found'' ms) (\<lambda>sg.
     bnd (attempt (bnd (segTriple sg) (verifierAdd P))) (\<lambda>res. case res of
       Inl _ \<Rightarrow> ret () | Inr _ \<Rightarrow> chargeSeg)))"

text \<open>The sequence is rebuilt from the segments the user names.\<close>

definition rebuildSeq :: "lib \<Rightarrow> penv \<Rightarrow> SignedOrderSeq \<Rightarrow> unit ogo" where
  "rebuildSeq L P rem =
     bnd (gets fst) (\<lambda>o'.
     bnd (deref ''nil base'' (po_base o')) (\<lambda>base.
     bnd (deref ''nil seq'' (po_seq o')) (\<lambda>sq.
     bnd (deref ''nil Price'' (os_Price (sos_OrderSeq sq))) (\<lambda>_.
     bnd (deref ''nil Price'' (so_Price base)) (\<lambda>bp.
     seq (updOr (\<lambda>o'. o'\<lparr>po_seq := Some (sq\<lparr>sos_OrderSeq := (sos_OrderSeq sq)\<lparr>os_Price := Some bp, os_Size := so_Size base\<rparr>\<rparr>)\<rparr>))
    (bnd (orFail (NewSegmentID (po_fsID o') 0 0 0)) (\<lambda>sid.
     seq (updOr (\<lambda>o'. o'\<lparr>po_added := []\<rparr>))
    (seq (forM (concat (map (segIDs sid) (os_Segments (sos_OrderSeq rem)))) (reloadSeg P))
         (updOr (\<lambda>o'. o'\<lparr>po_seq := map_option (\<lambda>sq. sq\<lparr>sos_OrderSeq := (sos_OrderSeq sq)\<lparr>os_Segments := os_Segments (sos_OrderSeq rem)\<rparr>\<rparr>) (po_seq o')\<rparr>))))))))))"

definition curSeq :: "SignedOrderSeq ogo" where
  "curSeq = bnd (gets (\<lambda>(o', _). po_seq o')) (deref ''nil seq'')"

text \<open>The local sequence is compared with the user's; the result is the hash both sign.\<close>

definition matchSeq :: "lib \<Rightarrow> penv \<Rightarrow> SignedOrderSeq \<Rightarrow> MsgID ogo" where
  "matchSeq L P rem =
     bnd curSeq (\<lambda>sq.
     let sq1 = sq\<lparr>sos_OrderSeq := (sos_OrderSeq sq)\<lparr>os_Segments := AggSegs_Merge (lb_sortAggSegs L) (os_Segments (sos_OrderSeq sq))\<rparr>\<rparr>;
         lh = SignedOrderSeq_Hash L sq1; rh = SignedOrderSeq_Hash L rem in
     seq (updOr (\<lambda>o'. o'\<lparr>po_seq := Some sq1\<rparr>))
    (if rh \<noteq> lh \<and> \<not> AggSegs_Equal (os_Segments (sos_OrderSeq sq1)) (os_Segments (sos_OrderSeq rem)) then
       seq (rebuildSeq L P rem)
      (bnd curSeq (\<lambda>sq2.
       seq (reject (rh \<noteq> SignedOrderSeq_Hash L sq2) ''segments are not equal'')
           (ret (SignedOrderSeq_Hash L sq2))))
     else ret lh))"

definition verifyData :: "penv \<Rightarrow> unit ogo" where
  "verifyData P =
     bnd (gets fst) (\<lambda>o'.
     bnd (deref ''nil verifier'' (po_dv o')) (\<lambda>pk.
     bnd (orErr ''data verify fails'' (pe_dvResult P pk (po_added o'))) (\<lambda>ok.
     reject (\<not> ok) ''data verify is wrong'')))"

definition verifyBy :: "lib \<Rightarrow> penv \<Rightarrow> u64 \<Rightarrow> bytes \<Rightarrow> Signature \<Rightarrow> string \<Rightarrow> unit ogo" where
  "verifyBy L P uid h sig w =
     bnd (on_pn (pn_role (RoleVerify L (pe_role P) uid h sig))) (\<lambda>ok. reject (\<not> ok) w)"

definition signHash :: "lib \<Rightarrow> penv \<Rightarrow> bytes \<Rightarrow> Signature ogo" where
  "signHash L P h =
     bnd (gets (\<lambda>(_, n). pn_localID n)) (\<lambda>pro.
     on_pn (pn_role (RoleSign L (pe_role P) pro h SigSecp256k1)))"

text \<open>``add base'': the open order takes the size and price of the sequence before its signature is checked.\<close>

definition growBase :: "SignedOrder ogo" where
  "growBase =
     bnd (gets fst) (\<lambda>o'.
     bnd (deref ''nil base'' (po_base o')) (\<lambda>base.
     bnd curSeq (\<lambda>sq.
     bnd (deref ''nil Price'' (so_Price base)) (\<lambda>_.
     bnd (deref ''nil Price'' (os_Price (sos_OrderSeq sq))) (\<lambda>p.
     let base' = base\<lparr>so_Size := os_Size (sos_OrderSeq sq), so_Price := Some p\<rparr> in
     seq (updOr (\<lambda>o'. o'\<lparr>po_base := Some base'\<rparr>)) (ret base'))))))"

text \<open>The four signatures are put on the sequence, which is done and saved.\<close>

definition recordSeq :: "lib \<Rightarrow> penv \<Rightarrow> SignedOrderSeq \<Rightarrow> Signature \<Rightarrow> Signature \<Rightarrow> bytes ogo" where
  "recordSeq L P rem ssig osig =
     bnd curSeq (\<lambda>sq.
     let sq' = sq\<lparr>sos_UserDataSig := sos_UserDataSig rem, sos_UserSig := sos_UserSig rem, sos_ProDataSig := ssig, sos_ProSig := osig\<rparr> in
     bnd (on_pn unixNow) (\<lambda>now.
     seq (updOr (\<lambda>o'. o'\<lparr>po_seq := Some sq', po_seqState := OrderSeq_Done, po_seqTime := now,
            po_di := (po_di o')\<lparr>di_Size := di_Size (po_di o') + word_of_int (AggSegs_Size (os_Segments (sos_OrderSeq sq'))) * DefaultSegSize\<rparr>\<rparr>))
    (seq (saveOrderBase L)
    (seq (saveOrderSeq L)
    (seq (saveSeqState L P)
    (seq (savePay L P)
         (Serialize (lb_cSignedOrderSeq L) sq')))))))"

definition finishSeq :: "lib \<Rightarrow> penv \<Rightarrow> u64 \<Rightarrow> SignedOrderSeq \<Rightarrow> bytes ogo" where
  "finishSeq L P uid rem =
     bnd (matchSeq L P rem) (\<lambda>lh.
     seq (verifyData P)
    (seq (verifyBy L P uid lh (sos_UserDataSig rem) ''order seq sign is wrong'')
    (bnd (signHash L P lh) (\<lambda>ssig.
     bnd growBase (\<lambda>base.
     bnd (SignedOrder_Hash (lb_keccak L) (lb_build L) base) (\<lambda>sh.
     seq (verifyBy L P uid sh (sos_UserSig rem) ''order sign is wrong'')
    (bnd (signHash L P sh) (\<lambda>osig.
     recordSeq L P rem ssig osig))))))))"

text \<open>Without an open order the text of the error reads \<open>or.base.Nonce\<close>.\<close>

definition handleFinishSeq :: "lib \<Rightarrow> penv \<Rightarrow> u64 \<Rightarrow> SignedOrderSeq \<Rightarrow> bytes ogo" where
  "handleFinishSeq L P uid rem =
     bnd (gets fst) (\<lambda>o'.
     seq (reject (\<not> po_ready o') ''order service not ready'')
    (bnd (on_pn unixNow) (\<lambda>now.
     seq (updOr (\<lambda>o'. o'\<lparr>po_availTime := now\<rparr>))
    (case openFor o' rem of
       None \<Rightarrow> bnd (deref ''nil base'' (po_base o')) (\<lambda>_. fail (Err ''fail finish seq''))
     | Some base \<Rightarrow> (case po_seq o' of
         None \<Rightarrow> fail (Err ''fail finish seq'')
       | Some sq \<Rightarrow>
           if os_SeqNum (sos_OrderSeq sq) \<noteq> os_SeqNum (sos_OrderSeq rem) then fail (Err ''fail finish seq'')
           else if po_seqState o' = OrderSeq_Ack then finishSeq L P uid rem
           else if po_seqState o' = OrderSeq_Done then
             seq (reject (SignedOrderSeq_Hash L rem \<noteq> SignedOrderSeq_Hash L sq) ''done segments are not equal'')
                 (Serialize (lb_cSignedOrderSeq L) sq)
           else fail (Err ''fail finish seq''))))))"

definition HandleFinishSeq :: "lib \<Rightarrow> penv \<Rightarrow> u64 \<Rightarrow> bytes \<Rightarrow> bytes mgo" where
  "HandleFinishSeq L P uid b =
     bnd (orErr ''unmarshal'' (decode (lb_cSignedOrderSeq L) zero_SignedOrderSeq b)) (\<lambda>rem.
     with_order L P uid (handleFinishSeq L P uid rem))"

section \<open>Taking segments out of a sequence\<close>

definition stored :: "'a codec \<Rightarrow> 'a \<Rightarrow> bytes \<Rightarrow> (ProNode, 'a) go" where
  "stored c z k = bnd (gets (\<lambda>n. pn_ds n k)) (\<lambda>mv. bnd (orErr ''not found'' mv) (\<lambda>v. orErr ''unmarshal'' (decode c z v)))"

text \<open>The segments of the stored sequence that the user does not name, with their number.\<close>

definition keepSegs :: "lib \<Rightarrow> AggSegs list \<Rightarrow> AggSegs list \<Rightarrow> nat \<times> AggSegs list" where
  "keepSegs L named segs = foldl (\<lambda>(cnt, kept) (b, i, c).
       if AggSegs_Has kept b i c then (cnt, kept)
       else if \<not> AggSegs_Has named b i c
       then (Suc cnt, AggSegs_Merge (lb_sortAggSegs L) (AggSegs_Push kept \<lparr>as_BucketID = b, as_Start = i, as_Length = 1, as_ChunkID = c\<rparr>))
       else (cnt, kept)) (0, [])
     (concat (map (\<lambda>sg. map (\<lambda>j. (as_BucketID sg, of_nat j, as_ChunkID sg)) (stripe_range (as_Start sg) (as_Length sg))) segs))"

definition pn_verify :: "lib \<Rightarrow> penv \<Rightarrow> u64 \<Rightarrow> bytes \<Rightarrow> Signature \<Rightarrow> string \<Rightarrow> (ProNode, unit) go" where
  "pn_verify L P uid h sig w = bnd (pn_role (RoleVerify L (pe_role P) uid h sig)) (\<lambda>ok. reject (\<not> ok) w)"

definition pn_sign :: "lib \<Rightarrow> penv \<Rightarrow> bytes \<Rightarrow> (ProNode, Signature) go" where
  "pn_sign L P h = bnd (gets pn_localID) (\<lambda>pro. pn_role (RoleSign L (pe_role P) pro h SigSecp256k1))"

text \<open>The price and size of the sequence before, from which the new ones continue.\<close>

definition previousSeq :: "lib \<Rightarrow> u64 \<Rightarrow> SignedOrderSeq \<Rightarrow> (ProNode, int \<times> u64) go" where
  "previousSeq L uid rem =
     (let q = sos_OrderSeq rem in
     if os_SeqNum q > 0 then
       bnd (gets pn_localID) (\<lambda>pro.
       bnd (stored (lb_cSignedOrderSeq L) zero_SignedOrderSeq (seqKey pro uid (os_Nonce q) (os_SeqNum q - 1))) (\<lambda>pr.
       bnd (deref ''nil Price'' (os_Price (sos_OrderSeq pr))) (\<lambda>p.
       ret (p, os_Size (sos_OrderSeq pr)))))
     else ret (0, 0))"

definition fixSeq :: "lib \<Rightarrow> penv \<Rightarrow> u64 \<Rightarrow> SignedOrderSeq \<Rightarrow> SignedOrder \<Rightarrow> SignedOrderSeq \<Rightarrow> (ProNode, bytes) go" where
  "fixSeq L P uid rem ob sos =
     (let q = sos_OrderSeq sos; (cnt, kept) = keepSegs L (os_Segments (sos_OrderSeq rem)) (os_Segments q) in
     bnd (previousSeq L uid rem) (\<lambda>(pp, ps).
     bnd (deref ''nil SegPrice'' (ob_SegPrice (so_OrderBase ob))) (\<lambda>sp.
     let sz = ps + of_nat cnt * DefaultSegSize; p = pp + sp * int cnt;
         nsos = zero_SignedOrderSeq\<lparr>sos_OrderSeq := \<lparr>os_UserID = os_UserID q, os_ProID = os_ProID q, os_Nonce = os_Nonce q,
           os_SeqNum = os_SeqNum q, os_Size = sz, os_Price = Some p, os_Segments = kept\<rparr>\<rparr> in
     bnd (deref ''nil Price'' (so_Price ob)) (\<lambda>_.
     let ob' = ob\<lparr>so_Size := sz, so_Price := Some p\<rparr>; nh = SignedOrderSeq_Hash L nsos in
     seq (pn_verify L P (os_UserID (sos_OrderSeq rem)) nh (sos_UserDataSig rem) ''invalid user data sign'')
    (bnd (SignedOrder_Hash (lb_keccak L) (lb_build L) ob') (\<lambda>oh.
     seq (pn_verify L P (os_UserID (sos_OrderSeq rem)) oh (sos_UserSig rem) ''invalid user sign'')
    (bnd (pn_sign L P nh) (\<lambda>ssig.
     bnd (pn_sign L P oh) (\<lambda>osig.
     bnd (gets pn_localID) (\<lambda>pro.
     bnd (Serialize (lb_cSignedOrderSeq L) (nsos\<lparr>sos_ProDataSig := ssig, sos_ProSig := osig\<rparr>)) (\<lambda>d1.
     seq (dropErr (pn_put L (seqKey pro uid (os_Nonce (sos_OrderSeq rem)) (os_SeqNum (sos_OrderSeq rem))) d1))
    (bnd (Serialize (lb_cSignedOrder L) ob') (\<lambda>d2.
     seq (dropErr (pn_put L (baseKey pro uid (os_Nonce (sos_OrderSeq rem))) d2))
         (Serialize (lb_cSignedOrderSeq L) (rem\<lparr>sos_ProDataSig := ssig, sos_ProSig := osig\<rparr>)))))))))))))))"

text \<open>The handler takes no lock: it reads and writes the store and not the order in memory.\<close>

definition HandleFixSeq :: "lib \<Rightarrow> penv \<Rightarrow> u64 \<Rightarrow> bytes \<Rightarrow> bytes mgo" where
  "HandleFixSeq L P uid b =
     bnd (orErr ''unmarshal'' (decode (lb_cSignedOrderSeq L) zero_SignedOrderSeq b)) (\<lambda>rem.
     seq (reject (os_UserID (sos_OrderSeq rem) \<noteq> uid) ''wrong user'')
    (bnd (gets (\<lambda>m. pn_localID (om_node m))) (\<lambda>pro.
     bnd (on_node (stored (lb_cSignedOrder L) zero_SignedOrder (baseKey pro uid (os_Nonce (sos_OrderSeq rem))))) (\<lambda>ob.
     bnd (on_node (stored (lb_cSignedOrderSeq L) zero_SignedOrderSeq
            (seqKey pro uid (os_Nonce (sos_OrderSeq rem)) (os_SeqNum (sos_OrderSeq rem))))) (\<lambda>sos.
     seq (reject (sos_ProDataSig rem \<noteq> sos_ProDataSig sos) ''data sig not equal'')
    (seq (reject (sos_ProSig rem \<noteq> sos_ProSig sos) ''sig not equal'')
    (seq (getOrder L P (os_UserID (sos_OrderSeq sos)))
    (bnd (gets (\<lambda>m. om_orders m (os_UserID (sos_OrderSeq sos)))) (\<lambda>mo.
     bnd (deref ''nil order'' mo) (\<lambda>o'.
     seq (reject (isl (NewSegmentID (po_fsID o') 0 0 0)) ''invalid user fsID'')
         (on_node (fixSeq L P uid rem ob sos))))))))))))"

section \<open>The settlement of orders\<close>

lemma counter_down:
  fixes k n :: u64
  assumes "k < n"
  shows "unat (n - (k + 1)) < unat (n - k)"
proof -
  have "unat (k + 1) = unat k + 1"
    using assms unsigned_less [of n, where 'a = nat] by (simp add: word_less_nat_alt unat_word_ariths)
  then show ?thesis
    using assms by (simp add: unat_sub_if' word_less_nat_alt)
qed

text \<open>The sizes and payments of the orders that reached the data chain.\<close>

function confirmOrders :: "lib \<Rightarrow> StateMgr \<Rightarrow> u64 \<Rightarrow> u64 \<Rightarrow> u64 \<Rightarrow> DataInfo \<Rightarrow> ('s, DataInfo) go" where
  "confirmOrders L st u pro n di =
     (if di_ConfirmedNonce di < n then
        (case StateGetOrder L u pro (di_ConfirmedNonce di) st of
           None \<Rightarrow> ret di
         | Some f \<Rightarrow>
             bnd (deref ''nil Price'' (so_Price (of_SignedOrder f))) (\<lambda>p.
             bnd (deref ''nil NeedPay'' (di_NeedPay di)) (\<lambda>np.
             confirmOrders L st u pro n (di\<lparr>di_ConfirmSize := di_ConfirmSize di + so_Size (of_SignedOrder f),
               di_NeedPay := Some (np + sint (so_End (of_SignedOrder f) - so_Start (of_SignedOrder f)) * p),
               di_ConfirmedNonce := di_ConfirmedNonce di + 1\<rparr>))))
      else ret di)"
  by pat_completeness auto
termination
  by (relation "measure (\<lambda>(L, st, u, pro, n, di). unat (n - di_ConfirmedNonce di))")
    (auto intro: counter_down)

text \<open>``sub size when expire''\<close>

function expireOrders :: "lib \<Rightarrow> StateMgr \<Rightarrow> u64 \<Rightarrow> u64 \<Rightarrow> u64 \<Rightarrow> DataInfo \<Rightarrow> DataInfo" where
  "expireOrders L st u pro n di =
     (if di_SubNonce di < n then
        (case StateGetOrder L u pro (di_SubNonce di) st of
           None \<Rightarrow> di
         | Some f \<Rightarrow> expireOrders L st u pro n (di\<lparr>di_ExpireSize := di_ExpireSize di + so_Size (of_SignedOrder f),
             di_SubNonce := di_SubNonce di + 1\<rparr>))
      else di)"
  by pat_completeness auto
termination
  by (relation "measure (\<lambda>(L, st, u, pro, n, di). unat (n - di_SubNonce di))")
    (auto intro: counter_down)

definition pauseNow :: "u64 \<Rightarrow> u64 \<Rightarrow> ProOrder \<Rightarrow> ProOrder" where
  "pauseNow dn sn o' =
     (let o1 = (if dn + 1 < po_nonce o' \<or> sn + 2 < po_nonce o' then o'\<lparr>po_pause := True\<rparr> else o')
      in if dn + 1 \<ge> po_nonce o1 \<and> sn + 2 \<ge> po_nonce o1 then o1\<lparr>po_pause := False\<rparr> else o1)"

text \<open>One user of \<open>check\<close>; the result is what the user adds to the totals, if anything.\<close>

definition checkUser :: "lib \<Rightarrow> penv \<Rightarrow> DataInfo option ogo" where
  "checkUser L P =
     bnd (gets fst) (\<lambda>o'.
     bnd (gets snd) (\<lambda>n.
     let pro = pn_localID n; u = po_userID o'; ns = StateGetOrderNonce L u pro (- 1) (pn_st n) in
     if \<not> po_ready o' then ret None
     else
       bnd (confirmOrders L (pn_st n) u pro (ns_Nonce ns) (po_di o')) (\<lambda>di.
       let di1 = (if di_Size di < di_ConfirmSize di then di\<lparr>di_Size := di_ConfirmSize di\<rparr> else di) in
       (case pe_storeInfo P u of
          None \<Rightarrow> seq (updOr (\<lambda>o'. o'\<lparr>po_di := di1\<rparr>)) (seq (savePay L P) (ret None))
        | Some si \<Rightarrow>
            let di2 = (expireOrders L (pn_st n) u pro (sti_SubNonce si) di1)\<lparr>di_OnChainSize := sti_Size si\<rparr> in
            seq (updOr (\<lambda>o'. o'\<lparr>po_di := di2\<rparr>))
           (seq (savePay L P)
           (seq (updOr (pauseNow (ns_Nonce ns) (sti_Nonce si)))
                (ret (Some di2))))))))"

definition addTotals :: "DataInfo \<Rightarrow> DataInfo \<Rightarrow> ('s, DataInfo) go" where
  "addTotals t di =
     bnd (deref ''nil NeedPay'' (di_NeedPay t)) (\<lambda>tp.
     bnd (deref ''nil NeedPay'' (di_NeedPay di)) (\<lambda>p.
     ret (t\<lparr>di_Size := di_Size t + di_Size di, di_OnChainSize := di_OnChainSize t + di_OnChainSize di,
       di_ConfirmSize := di_ConfirmSize t + di_ConfirmSize di, di_ExpireSize := di_ExpireSize t + di_ExpireSize di,
       di_NeedPay := Some (tp + p)\<rparr>)))"

definition payTotalKey :: "u64 \<Rightarrow> bytes" where
  "payTotalKey pro = skey MT_OrderPayInfoKey [unat pro]"

definition OrderMgr_check :: "lib \<Rightarrow> penv \<Rightarrow> unit mgo" where
  "OrderMgr_check L P =
     bnd (gets om_users) (\<lambda>us.
     bnd (foldM us (new_DataInfo 0) (\<lambda>u t.
       bnd (\<lambda>m. case om_orders m u of
              None \<Rightarrow> (Inl (Panic ''nil order''), m)
            | Some o' \<Rightarrow> (case checkUser L P (o', om_node m) of (r, (o2, n2)) \<Rightarrow>
                (r, m\<lparr>om_orders := (om_orders m)(u \<mapsto> o2), om_node := n2\<rparr>))) (\<lambda>mdi.
       case mdi of None \<Rightarrow> ret t | Some di \<Rightarrow> addTotals t di))) (\<lambda>t.
     bnd (gets (\<lambda>m. di_NeedPay (om_di m))) (\<lambda>np.
     bnd (deref ''nil NeedPay'' np) (\<lambda>_.
     seq (modify (\<lambda>m. m\<lparr>om_di := (om_di m)\<lparr>di_Size := di_Size t, di_Received := di_Size t, di_OnChainSize := di_OnChainSize t,
            di_ConfirmSize := di_ConfirmSize t, di_ExpireSize := di_ExpireSize t, di_NeedPay := di_NeedPay t\<rparr>\<rparr>))
    (bnd (gets (\<lambda>m. (om_di m, pn_localID (om_node m)))) (\<lambda>(di, pro).
     dropErr (on_node (pn_put L (payTotalKey pro) (case marshal (pe_cDataInfo P) di of None \<Rightarrow> [] | Some b \<Rightarrow> b)))))))))"

definition DefaultPiecePrice :: int where "DefaultPiecePrice = 2 * 1000 * 1000"

definition NewOrderMgr :: "u64 \<Rightarrow> u64 \<Rightarrow> ProNode \<Rightarrow> bytes list \<Rightarrow> kvs \<Rightarrow> OrderMgr" where
  "NewOrderMgr roleID price n entries d =
     \<lparr>om_node = n\<lparr>pn_localID := roleID, pn_quo := \<lparr>qu_ProID = roleID, qu_TokenIndex = 0, qu_SegPrice = uint price, qu_PiecePrice = DefaultPiecePrice\<rparr>\<rparr>,
      om_wl = wl_New entries d, om_di = (new_DataInfo 0)\<lparr>di_Balance := Some 0\<rparr>, om_users = [], om_orders = (\<lambda>_. None)\<rparr>"

definition OrderMgr_Start :: "lib \<Rightarrow> penv \<Rightarrow> unit mgo" where
  "OrderMgr_Start L P =
     seq (modify (\<lambda>m. case pn_ds (om_node m) (payTotalKey (pn_localID (om_node m))) of
            None \<Rightarrow> m | Some b \<Rightarrow> m\<lparr>om_di := decode_into (pe_cDataInfo P) (om_di m) b\<rparr>))
    (bnd (gets (\<lambda>m. StateGetUsersAt L (pn_localID (om_node m)) (pn_st (om_node m)))) (\<lambda>us.
     forM us (getOrder L P)))"

section \<open>Queries\<close>

definition OrderList :: "OrderMgr \<Rightarrow> u64 list" where "OrderList m = om_users m"

record OrderJobInfo =
  oj_ID :: u64
  oj_AvailTime :: i64
  oj_Nonce :: u64
  oj_OrderTime :: i64
  oj_OrderState :: OrderState
  oj_SeqNum :: u32
  oj_SeqTime :: i64
  oj_SeqState :: OrderSeqState
  oj_Ready :: bool
  oj_InStop :: bool

definition OrderGetJobInfoAt :: "u64 \<Rightarrow> OrderMgr \<Rightarrow> OrderJobInfo option" where
  "OrderGetJobInfoAt u m = map_option (\<lambda>o'. \<lparr>oj_ID = u, oj_AvailTime = po_availTime o', oj_Nonce = po_nonce o',
     oj_OrderTime = po_orderTime o', oj_OrderState = po_orderState o', oj_SeqNum = po_seqNum o', oj_SeqTime = po_seqTime o',
     oj_SeqState = po_seqState o', oj_Ready = po_ready o', oj_InStop = po_pause o'\<rparr>) (om_orders m u)"

definition OrderGetJobInfo :: "OrderMgr \<Rightarrow> OrderJobInfo list" where
  "OrderGetJobInfo m = List.map_filter (\<lambda>u. OrderGetJobInfoAt u m) (om_users m)"

record OrderPayInfo =
  pi_ID :: u64
  pi_Size :: u64
  pi_ConfirmSize :: u64
  pi_OnChainSize :: u64
  pi_ExpireSize :: u64
  pi_NeedPay :: "int option"
  pi_Paid :: "int option"
  pi_Balance :: "int option"

text \<open>The balance of the provider is \<open>pe_balance\<close>, the \<open>ErcValue\<close> and \<open>FsValue\<close> of the settlement chain.\<close>

definition OrderGetPayInfoAt :: "penv \<Rightarrow> u64 \<Rightarrow> OrderPayInfo mgo" where
  "OrderGetPayInfoAt P pid =
     bnd (gets (\<lambda>m. m)) (\<lambda>m.
     if pid = 0 then
       bnd (deref ''nil NeedPay'' (di_NeedPay (om_di m))) (\<lambda>np.
       bnd (deref ''nil Paid'' (di_Paid (om_di m))) (\<lambda>pd.
       bnd (orErr ''balance'' (pe_balance P (pn_localID (om_node m)))) (\<lambda>(erc, fs).
       bnd (deref ''nil ErcValue'' erc) (\<lambda>e.
       bnd (deref ''nil FsValue'' fs) (\<lambda>f.
       ret \<lparr>pi_ID = 0, pi_Size = di_Size (om_di m) - di_ExpireSize (om_di m), pi_ConfirmSize = di_ConfirmSize (om_di m) - di_ExpireSize (om_di m),
         pi_OnChainSize = di_OnChainSize (om_di m), pi_ExpireSize = 0, pi_NeedPay = Some np, pi_Paid = Some pd, pi_Balance = Some (e + f)\<rparr>)))))
     else case om_orders m pid of
       None \<Rightarrow> ret \<lparr>pi_ID = 0, pi_Size = 0, pi_ConfirmSize = 0, pi_OnChainSize = 0, pi_ExpireSize = 0, pi_NeedPay = None, pi_Paid = None, pi_Balance = None\<rparr>
     | Some o' \<Rightarrow>
         bnd (deref ''nil NeedPay'' (di_NeedPay (po_di o'))) (\<lambda>np.
         bnd (deref ''nil Paid'' (di_Paid (po_di o'))) (\<lambda>pd.
         ret \<lparr>pi_ID = pid, pi_Size = di_Received (po_di o') - di_ExpireSize (po_di o') +
             (case po_seq o' of Some sq \<Rightarrow> os_Size (sos_OrderSeq sq) | None \<Rightarrow> (case po_base o' of Some base \<Rightarrow> so_Size base | None \<Rightarrow> 0)),
           pi_ConfirmSize = di_ConfirmSize (po_di o') - di_ExpireSize (po_di o'), pi_OnChainSize = di_OnChainSize (po_di o'), pi_ExpireSize = 0,
           pi_NeedPay = Some np, pi_Paid = Some pd, pi_Balance = None\<rparr>)))"

definition OrderGetPayInfo :: "penv \<Rightarrow> OrderPayInfo list mgo" where
  "OrderGetPayInfo P =
     bnd (gets om_users) (\<lambda>us. foldM us [] (\<lambda>pid res.
       bnd (attempt (OrderGetPayInfoAt P pid)) (\<lambda>r. case r of Inl _ \<Rightarrow> ret res | Inr oi \<Rightarrow> ret (res @ [oi]))))"

end
