(* ===== verification/ReadPay.thy ===== *)
theory ReadPay
  imports GoHoare
begin

text \<open>
  Payments for reading, \<open>submodule/connect/readpay\<close>: a reader buys a check from the operator and
  signs pay checks over it whose value grows with every segment; a provider verifies them.

  Ethereum addresses are their twenty bytes.  The curve (\<open>crypto.Ecrecover\<close>, \<open>crypto.Sign\<close> with the
  built-in key of the operator), the printed form of an address and CBOR are parameters.
\<close>

section \<open>Checks\<close>

record Check =
  ck_ContractAddr :: bytes
  ck_OwnerAddr :: bytes
  ck_ToAddr :: bytes
  ck_Value :: "int option"
  ck_Nonce :: u64
  ck_FromAddr :: bytes
  ck_Sig :: bytes

record Paycheck =
  pc_Check :: Check
  pc_PayValue :: "int option"
  pc_PaySig :: bytes

record rpenv =
  rp_ecrecover :: "bytes \<Rightarrow> bytes \<Rightarrow> bytes option"
  rp_opSign :: "bytes \<Rightarrow> bytes option"
  rp_opAddr :: bytes
  rp_addrStr :: "bytes \<Rightarrow> bytes"
  rp_cPaycheck :: "Paycheck codec"

definition zero_Check :: Check where
  "zero_Check = \<lparr>ck_ContractAddr = replicate 20 0, ck_OwnerAddr = replicate 20 0, ck_ToAddr = replicate 20 0, ck_Value = None, ck_Nonce = 0,
     ck_FromAddr = replicate 20 0, ck_Sig = []\<rparr>"

definition zero_Paycheck :: Paycheck where
  "zero_Paycheck = \<lparr>pc_Check = zero_Check, pc_PayValue = None, pc_PaySig = []\<rparr>"

text \<open>\<open>utils.ToEthAddress\<close> and \<open>common.BytesToAddress\<close>\<close>

definition ToEthAddress :: "lib \<Rightarrow> bytes \<Rightarrow> bytes" where
  "ToEthAddress L pub = (if length pub = 65 then drop 12 (lb_keccak L (drop 1 pub)) else pub)"

definition BytesToAddress :: "bytes \<Rightarrow> bytes" where
  "BytesToAddress b = replicate (20 - length b) 0 @ drop (length b - 20) b"

text \<open>What is hashed; a nil value panics in \<open>Bytes\<close>.\<close>

definition Check_preimage :: "Check \<Rightarrow> int \<Rightarrow> bytes" where
  "Check_preimage c v = ck_ContractAddr c @ ck_OwnerAddr c @ ck_ToAddr c @ LeftPadBytes (bigBytes v) 32 @ PutUint64 (ck_Nonce c) @ ck_FromAddr c"

definition Check_Hash :: "lib \<Rightarrow> Check \<Rightarrow> ('s, bytes) go" where
  "Check_Hash L c = bnd (deref ''nil Value'' (ck_Value c)) (\<lambda>v. ret (lb_keccak L (Check_preimage c v)))"

definition Check_String :: "lib \<Rightarrow> env \<Rightarrow> Check \<Rightarrow> ('s, bytes) go" where
  "Check_String L E c = bnd (Check_Hash L c) (\<lambda>h. ret (en_b58 E h))"

text \<open>Every unequal field is an error of its own; the nonce is only in the hash.\<close>

definition Check_Equal :: "lib \<Rightarrow> Check \<Rightarrow> Check \<Rightarrow> ('s, bool) go" where
  "Check_Equal L c c2 =
     bnd (Check_Hash L c) (\<lambda>h.
     bnd (Check_Hash L c2) (\<lambda>h2.
     if h = h2 then ret True
     else
       seq (reject (ck_ContractAddr c \<noteq> ck_ContractAddr c2) ''contract not equal'')
      (seq (reject (ck_OwnerAddr c \<noteq> ck_OwnerAddr c2) ''owner not equal'')
      (seq (reject (ck_ToAddr c \<noteq> ck_ToAddr c2) ''to not equal'')
      (seq (reject (ck_Value c \<noteq> ck_Value c2) ''value not equal'')
      (seq (reject (ck_FromAddr c \<noteq> ck_FromAddr c2) ''from not equal'')
           (ret True)))))))"

definition Check_Verify :: "lib \<Rightarrow> rpenv \<Rightarrow> Check \<Rightarrow> ('s, bool) go" where
  "Check_Verify L R c =
     bnd (Check_Hash L c) (\<lambda>h.
     bnd (orErr ''recover fail'' (rp_ecrecover R h (ck_Sig c))) (\<lambda>pub.
     seq (reject (ToEthAddress L pub \<noteq> ck_OwnerAddr c) ''readpay: wrong owner'')
         (ret True)))"

definition Paycheck_Hash :: "lib \<Rightarrow> Paycheck \<Rightarrow> ('s, bytes) go" where
  "Paycheck_Hash L p =
     bnd (deref ''nil Value'' (ck_Value (pc_Check p))) (\<lambda>v.
     bnd (deref ''nil PayValue'' (pc_PayValue p)) (\<lambda>pv.
     ret (lb_keccak L (Check_preimage (pc_Check p) v @ LeftPadBytes (bigBytes pv) 32))))"

definition Paycheck_Verify :: "lib \<Rightarrow> rpenv \<Rightarrow> Paycheck \<Rightarrow> ('s, bool) go" where
  "Paycheck_Verify L R p =
     bnd (Check_Verify L R (pc_Check p)) (\<lambda>ok.
     if \<not> ok then ret ok
     else
       bnd (Paycheck_Hash L p) (\<lambda>h.
       bnd (orErr ''paycheck ecrecover fail'' (rp_ecrecover R h (pc_PaySig p))) (\<lambda>pub.
       seq (reject (ToEthAddress L pub \<noteq> ck_FromAddr (pc_Check p)) ''readpay paycheck: wrong sender'')
           (ret True))))"

definition MT_ReadPay_NonceKey :: nat where "MT_ReadPay_NonceKey = 80"
definition MT_ReadPay_ChannelKey :: nat where "MT_ReadPay_ChannelKey = 81"

definition channelKey :: "rpenv \<Rightarrow> bytes \<Rightarrow> bytes \<Rightarrow> bytes \<Rightarrow> u64 \<Rightarrow> bytes" where
  "channelKey R c f t n = NewKey [KInt (int MT_ReadPay_ChannelKey), KString (rp_addrStr R c), KString (rp_addrStr R f), KString (rp_addrStr R t), KUint (unat n)]"

definition payNonceKey :: "rpenv \<Rightarrow> bytes \<Rightarrow> bytes \<Rightarrow> bytes \<Rightarrow> bytes" where
  "payNonceKey R c f t = NewKey [KInt (int MT_ReadPay_NonceKey), KString (rp_addrStr R c), KString (rp_addrStr R f), KString (rp_addrStr R t)]"

definition kv_put :: "lib \<Rightarrow> bytes \<Rightarrow> bytes \<Rightarrow> (kvs, unit) go" where
  "kv_put L k v = seq (reject (lb_putFail L k v) ''put'') (modify (\<lambda>d. ds_put d k v))"

definition pcKey :: "rpenv \<Rightarrow> Check \<Rightarrow> bytes" where
  "pcKey R c = channelKey R (ck_ContractAddr c) (ck_FromAddr c) (ck_ToAddr c) (ck_Nonce c)"

definition Paycheck_Save :: "lib \<Rightarrow> rpenv \<Rightarrow> Paycheck \<Rightarrow> (kvs, unit) go" where
  "Paycheck_Save L R p =
     bnd (Serialize (rp_cPaycheck R) p) (\<lambda>data.
     seq (kv_put L (pcKey R (pc_Check p)) data)
         (kv_put L (payNonceKey R (ck_ContractAddr (pc_Check p)) (ck_FromAddr (pc_Check p)) (ck_ToAddr (pc_Check p)))
            (PutUint64 (ck_Nonce (pc_Check p)))))"

section \<open>Paying\<close>

definition DefaultReadPrice :: int where "DefaultReadPrice = 2000000"

text \<open>A segment costs \<open>types.DefaultReadPrice * build.DefaultSegSize\<close>, a check is worth forty thousand and some of them.\<close>

definition readPrice :: int where "readPrice = DefaultReadPrice * uint DefaultSegSize"

definition checkValue :: int where "checkValue = DefaultReadPrice * uint DefaultSegSize * 1024 * 40"

definition generateCheck :: "lib \<Rightarrow> rpenv \<Rightarrow> bytes \<Rightarrow> bytes \<Rightarrow> u64 \<Rightarrow> ('s, Check) go" where
  "generateCheck L R fromAddr toAddr nonce =
     (let c = \<lparr>ck_ContractAddr = rp_opAddr R, ck_OwnerAddr = rp_opAddr R, ck_ToAddr = toAddr, ck_Value = Some checkValue, ck_Nonce = nonce,
        ck_FromAddr = fromAddr, ck_Sig = []\<rparr> in
     bnd (Check_Hash L c) (\<lambda>h.
     bnd (orErr ''sign paycheck'' (rp_opSign R h)) (\<lambda>sig.
     ret (c\<lparr>ck_Sig := sig\<rparr>))))"

record SendPay =
  sd_localAddr :: bytes
  sd_contractAddr :: bytes
  sd_fromAddr :: bytes
  sd_ds :: kvs
  sd_pool :: "bytes \<Rightarrow> Paycheck option"

type_synonym 'a sdgo = "(SendPay, 'a) go"

abbreviation sd_store :: "(kvs, 'a) go \<Rightarrow> 'a sdgo" where
  "sd_store m \<equiv> zoom sd_ds (\<lambda>d s. s\<lparr>sd_ds := d\<rparr>) m"

definition NewSender :: "lib \<Rightarrow> rpenv \<Rightarrow> bytes \<Rightarrow> kvs \<Rightarrow> SendPay" where
  "NewSender L R addr d = \<lparr>sd_localAddr = addr, sd_contractAddr = rp_opAddr R, sd_fromAddr = BytesToAddress (ToEthAddress L addr), sd_ds = d,
     sd_pool = (\<lambda>_. None)\<rparr>"

definition setPool :: "bytes \<Rightarrow> Paycheck \<Rightarrow> unit sdgo" where
  "setPool t p = modify (\<lambda>s. s\<lparr>sd_pool := (sd_pool s)(t \<mapsto> p)\<rparr>)"

text \<open>\<open>create\<close>, and the check put in the pool when it was saved.\<close>

definition sp_create :: "lib \<Rightarrow> rpenv \<Rightarrow> bytes \<Rightarrow> u64 \<Rightarrow> Paycheck sdgo" where
  "sp_create L R toAddr nonce =
     bnd (gets sd_fromAddr) (\<lambda>f.
     bnd (generateCheck L R f toAddr nonce) (\<lambda>c.
     let p = \<lparr>pc_Check = c, pc_PayValue = Some 0, pc_PaySig = []\<rparr> in
     seq (sd_store (Paycheck_Save L R p)) (seq (setPool toAddr p) (ret p))))"

text \<open>The pay check in use for a provider: in memory, in the store, or a first one.\<close>

definition currentPay :: "lib \<Rightarrow> rpenv \<Rightarrow> bytes \<Rightarrow> Paycheck sdgo" where
  "currentPay L R toAddr =
     bnd (gets (\<lambda>s. s)) (\<lambda>s. case sd_pool s toAddr of
       Some p \<Rightarrow> ret p
     | None \<Rightarrow> (case sd_ds s (payNonceKey R (sd_contractAddr s) (sd_fromAddr s) toAddr) of
         None \<Rightarrow> sp_create L R toAddr 0
       | Some data \<Rightarrow>
           if length data \<ge> 8 then
             bnd (orErr ''not found'' (sd_ds s (channelKey R (sd_contractAddr s) (sd_fromAddr s) toAddr (Uint64 data)))) (\<lambda>b.
             bnd (orErr ''unmarshal'' (decode (rp_cPaycheck R) zero_Paycheck b)) (\<lambda>p.
             seq (setPool toAddr p) (ret p)))
           else sp_create L R toAddr 0))"

text \<open>The raised pay check is put in the pool, signed, verified, stored and sent.\<close>

definition signPay :: "lib \<Rightarrow> rpenv \<Rightarrow> env \<Rightarrow> bytes \<Rightarrow> Paycheck \<Rightarrow> bytes sdgo" where
  "signPay L R E toAddr p1 =
     seq (setPool toAddr p1)
    (bnd (gets sd_localAddr) (\<lambda>me.
     bnd (Paycheck_Hash L p1) (\<lambda>h.
     bnd (orErr ''wallet'' (en_walletSign E me h)) (\<lambda>sig.
     let p2 = p1\<lparr>pc_PaySig := sig\<rparr> in
     seq (setPool toAddr p2)
    (bnd (attempt (Paycheck_Verify L R p2)) (\<lambda>res.
     seq (reject (res \<noteq> Inr True) ''invalid pay check'')
    (bnd (Serialize (rp_cPaycheck R) p2) (\<lambda>data.
     seq (dropErr (sd_store (kv_put L (pcKey R (pc_Check p2)) data)))
         (ret data)))))))))"

text \<open>A check that would be overdrawn is replaced by the next one.\<close>

definition SendPay_Pay :: "lib \<Rightarrow> rpenv \<Rightarrow> env \<Rightarrow> bytes \<Rightarrow> int \<Rightarrow> bytes sdgo" where
  "SendPay_Pay L R E addr val =
     seq (reject (val \<le> 0) ''pay value should be larger than zero'')
    (let toAddr = BytesToAddress (ToEthAddress L addr) in
     bnd (currentPay L R toAddr) (\<lambda>p0.
     bnd (deref ''nil PayValue'' (pc_PayValue p0)) (\<lambda>pv0.
     bnd (deref ''nil Value'' (ck_Value (pc_Check p0))) (\<lambda>v0.
     bnd (if pv0 + val > v0 then sp_create L R toAddr (ck_Nonce (pc_Check p0) + 1) else ret p0) (\<lambda>p.
     bnd (deref ''nil Value'' (ck_Value (pc_Check p))) (\<lambda>v.
     seq (reject ((if pv0 + val > v0 then val else pv0 + val) > v) ''money is not enough'')
    (bnd (deref ''nil PayValue'' (pc_PayValue p)) (\<lambda>pv.
     signPay L R E toAddr (p\<lparr>pc_PayValue := Some (pv + val)\<rparr>)))))))))"

section \<open>Being paid\<close>

record ReceivePay =
  rx_localAddr :: bytes
  rx_toAddr :: bytes
  rx_ds :: kvs
  rx_pool :: "bytes \<Rightarrow> Paycheck option"

type_synonym 'a rxgo = "(ReceivePay, 'a) go"

definition NewReceivePay :: "lib \<Rightarrow> bytes \<Rightarrow> kvs \<Rightarrow> ReceivePay" where
  "NewReceivePay L addr d = \<lparr>rx_localAddr = addr, rx_toAddr = BytesToAddress (ToEthAddress L addr), rx_ds = d, rx_pool = (\<lambda>_. None)\<rparr>"

text \<open>The last pay check seen over the same check, in memory or in the store.\<close>

definition lastPay :: "rpenv \<Rightarrow> bytes \<Rightarrow> bytes \<Rightarrow> ReceivePay \<Rightarrow> Paycheck option" where
  "lastPay R str key s = (case rx_pool s str of Some p \<Rightarrow> Some p
    | None \<Rightarrow> Option.bind (rx_ds s key) (decode (rp_cPaycheck R) zero_Paycheck))"

definition ReceivePay_Verify :: "lib \<Rightarrow> rpenv \<Rightarrow> env \<Rightarrow> Paycheck \<Rightarrow> int \<Rightarrow> unit rxgo" where
  "ReceivePay_Verify L R E p val =
     bnd (gets rx_toAddr) (\<lambda>me.
     seq (reject (ck_ToAddr (pc_Check p) \<noteq> me) ''pay check is not mine'')
    (bnd (attempt (Paycheck_Verify L R p)) (\<lambda>res.
     seq (reject (res \<noteq> Inr True) ''pay check is invalid'')
    (bnd (Check_String L E (pc_Check p)) (\<lambda>str.
     bnd (gets (lastPay R str (pcKey R (pc_Check p)))) (\<lambda>mlast.
     seq (modify (\<lambda>s. s\<lparr>rx_pool := (rx_pool s)(str := mlast)\<rparr>))
    (bnd (case mlast of
            None \<Rightarrow> ret 0
          | Some l \<Rightarrow>
              bnd (attempt (Check_Equal L (pc_Check l) (pc_Check p))) (\<lambda>eq.
              seq (reject (eq \<noteq> Inr True) ''may duplicate check'')
                  (deref ''nil PayValue'' (pc_PayValue l)))) (\<lambda>paid.
     bnd (deref ''nil Value'' (ck_Value (pc_Check p))) (\<lambda>v.
     seq (reject (paid + val > v) ''paycheck value is not enough'')
    (seq (modify (\<lambda>s. s\<lparr>rx_pool := (rx_pool s)(str \<mapsto> p)\<rparr>))
    (bnd (Serialize (rp_cPaycheck R) p) (\<lambda>data.
     zoom rx_ds (\<lambda>d s. s\<lparr>rx_ds := d\<rparr>) (kv_put L (pcKey R (pc_Check p)) data)))))))))))))"

end
