(* ===== verification/ProServe.thy ===== *)
theory ProServe
  imports ProOrder ReadPay
begin

text \<open>
  The requests a provider answers, \<open>service/provider/handler.go\<close>, and the data service that reads
  segments from the disk and from providers, \<open>service/data/service.go\<close>.

  A handler always answers: an error of a step becomes a response of type \<open>Err\<close> that carries its
  text, and what the step changed stays changed.  The codec of signatures is an argument.  The
  counters that delay background reads are left out.
\<close>

section \<open>Messages\<close>

record NetMsg =
  nm_From :: u64
  nm_Info :: bytes
  nm_Sign :: bytes

record NetResp =
  nr_Err :: bool
  nr_From :: u64
  nr_Info :: bytes
  nr_Sign :: bytes

record ProviderNode =
  pv_roleID :: u64
  pv_mgr :: OrderMgr
  pv_rx :: ReceivePay
  pv_ready :: bool
  pv_orderService :: bool

type_synonym 'a pvgo = "(ProviderNode, 'a) go"

text \<open>A signature that does not verify is refused without a text.\<close>

datatype reply = Reply bytes bytes | Refused

abbreviation pv_om :: "'a mgo \<Rightarrow> 'a pvgo" where
  "pv_om m \<equiv> zoom pv_mgr (\<lambda>m p. p\<lparr>pv_mgr := m\<rparr>) m"

abbreviation pv_role :: "'a rgo \<Rightarrow> 'a pvgo" where
  "pv_role m \<equiv> pv_om (on_node (pn_role m))"

definition answer :: "penv \<Rightarrow> reply pvgo \<Rightarrow> NetResp pvgo" where
  "answer P m =
     bnd (gets pv_roleID) (\<lambda>i.
     bnd (attempt m) (\<lambda>res. ret (case res of
       Inl e \<Rightarrow> \<lparr>nr_Err = True, nr_From = i, nr_Info = en_errText (pe_role P) e, nr_Sign = []\<rparr>
     | Inr Refused \<Rightarrow> \<lparr>nr_Err = True, nr_From = i, nr_Info = [], nr_Sign = []\<rparr>
     | Inr (Reply b sig) \<Rightarrow> \<lparr>nr_Err = False, nr_From = i, nr_Info = b, nr_Sign = sig\<rparr>)))"

definition needReady :: "bool \<Rightarrow> unit pvgo" where
  "needReady space =
     bnd (gets pv_ready) (\<lambda>rd.
     seq (reject (\<not> rd) ''pro service not ready'')
    (bnd (gets pv_orderService) (\<lambda>os.
     reject (space \<and> \<not> os) ''pro order service not ready, no space left'')))"

text \<open>The answer is signed with its hash.\<close>

definition signReply :: "lib \<Rightarrow> penv \<Rightarrow> Signature codec \<Rightarrow> bytes \<Rightarrow> reply pvgo" where
  "signReply L P S res =
     bnd (gets pv_roleID) (\<lambda>i.
     bnd (pv_role (RoleSign L (pe_role P) i (lb_blake3 L res) SigSecp256k1)) (\<lambda>sig.
     bnd (Serialize S sig) (\<lambda>sb.
     ret (Reply res sb))))"

text \<open>A request that must be signed by the role it comes from.\<close>

definition signedRequest :: "lib \<Rightarrow> penv \<Rightarrow> Signature codec \<Rightarrow> NetMsg \<Rightarrow> bytes mgo \<Rightarrow> reply pvgo" where
  "signedRequest L P S mes h =
     bnd (orErr ''unmarshal'' (decode S zero_Signature (nm_Sign mes))) (\<lambda>sig.
     bnd (pv_role (RoleVerify L (pe_role P) (nm_From mes) (lb_blake3 L (nm_Info mes)) sig)) (\<lambda>ok.
     if \<not> ok then ret Refused
     else bnd (pv_om h) (signReply L P S)))"

section \<open>Handlers\<close>

definition serveGetSeg :: "lib \<Rightarrow> penv \<Rightarrow> rpenv \<Rightarrow> NetMsg \<Rightarrow> reply pvgo" where
  "serveGetSeg L P R mes =
     bnd (orErr ''unmarshal'' (decode (rp_cPaycheck R) zero_Paycheck (nm_Sign mes))) (\<lambda>pc.
     seq (zoom pv_rx (\<lambda>r p. p\<lparr>pv_rx := r\<rparr>) (ReceivePay_Verify L R (pe_role P) pc readPrice))
    (bnd (orFail (SegID_FromBytes (nm_Info mes))) (\<lambda>sid.
     bnd (gets (\<lambda>p. pn_segs (om_node (pv_mgr p)) sid)) (\<lambda>ms.
     bnd (orErr ''not found'' ms) (\<lambda>sg.
     ret (Reply (Segment_Serialize sg) []))))))"

definition handleGetSeg :: "lib \<Rightarrow> penv \<Rightarrow> rpenv \<Rightarrow> NetMsg \<Rightarrow> NetResp pvgo" where
  "handleGetSeg L P R mes = answer P (serveGetSeg L P R mes)"

definition handleQuotation :: "lib \<Rightarrow> penv \<Rightarrow> Signature codec \<Rightarrow> NetMsg \<Rightarrow> NetResp pvgo" where
  "handleQuotation L P S mes = answer P
     (seq (needReady True) (bnd (pv_om (HandleQuotation P (nm_From mes))) (signReply L P S)))"

text \<open>The segment is not signed: ``verify sig; need it for security'' is commented out.\<close>

definition handlePutSeg :: "lib \<Rightarrow> penv \<Rightarrow> NetMsg \<Rightarrow> NetResp pvgo" where
  "handlePutSeg L P mes = answer P
     (seq (needReady True)
     (bnd (orFail (Segment_Deserialize (nm_Info mes))) (\<lambda>sg.
      seq (reject (\<not> Segment_IsValid (unat DefaultSegSize) sg) ''segment is invalid'')
     (seq (pv_om (HandleData L P (nm_From mes) sg))
          (ret (Reply [] []))))))"

definition netCreateOrder :: "lib \<Rightarrow> penv \<Rightarrow> Signature codec \<Rightarrow> NetMsg \<Rightarrow> NetResp pvgo" where
  "netCreateOrder L P S mes = answer P
     (seq (needReady True) (signedRequest L P S mes (HandleCreateOrder L P (nm_Info mes))))"

definition netCreateSeq :: "lib \<Rightarrow> penv \<Rightarrow> Signature codec \<Rightarrow> NetMsg \<Rightarrow> NetResp pvgo" where
  "netCreateSeq L P S mes = answer P
     (seq (needReady True) (signedRequest L P S mes (HandleCreateSeq L P (nm_From mes) (nm_Info mes))))"

definition netFinishSeq :: "lib \<Rightarrow> penv \<Rightarrow> Signature codec \<Rightarrow> NetMsg \<Rightarrow> NetResp pvgo" where
  "netFinishSeq L P S mes = answer P
     (seq (needReady False) (signedRequest L P S mes (HandleFinishSeq L P (nm_From mes) (nm_Info mes))))"

definition netFixSeq :: "lib \<Rightarrow> penv \<Rightarrow> Signature codec \<Rightarrow> NetMsg \<Rightarrow> NetResp pvgo" where
  "netFixSeq L P S mes = answer P
     (seq (needReady False) (signedRequest L P S mes (HandleFixSeq L P (nm_From mes) (nm_Info mes))))"

text \<open>The space on the disk switches the order service off and on; \<open>free\<close> is what the disk reports.\<close>

definition GiB :: nat where "GiB = 2 ^ 30"

definition checkStart :: "bool \<Rightarrow> nat \<Rightarrow> ProviderNode \<Rightarrow> ProviderNode" where
  "checkStart stop free p =
     (if stop then p\<lparr>pv_orderService := False\<rparr> else if free > GiB then p\<lparr>pv_orderService := True\<rparr> else p)"

definition checkTick :: "nat \<Rightarrow> ProviderNode \<Rightarrow> ProviderNode" where
  "checkTick free p =
     (let p1 = (if free < GiB then p\<lparr>pv_orderService := False\<rparr> else p)
      in if free > 2 * GiB then p1\<lparr>pv_orderService := True\<rparr> else p1)"

section \<open>The data service\<close>

text \<open>
  The cache is asked by the printed identifier; the segments put on the local disk are cached under
  their pointer and never found there, so only what came from the network is.  \<open>arc\<close> is what the
  cache keeps of its entries.
\<close>

record dataService =
  dt_ds :: kvs
  dt_segs :: "bytes \<Rightarrow> BaseSegment option"
  dt_cache :: "bytes \<Rightarrow> BaseSegment option"
  dt_rm :: RoleMgr
  dt_pay :: SendPay

type_synonym 'a dtgo = "(dataService, 'a) go"

definition SegID_String :: "env \<Rightarrow> bytes \<Rightarrow> bytes" where
  "SegID_String E buf = en_b58 E (GetFsID buf) @ 95 # FormatUint (unat (GetBucketID buf)) @ 95 # FormatUint (unat (GetStripeID buf)) @
     95 # FormatUint (unat (GetChunkID buf))"

definition PutSegmentToLocal :: "(BaseSegment \<Rightarrow> bool) \<Rightarrow> BaseSegment \<Rightarrow> unit dtgo" where
  "PutSegmentToLocal putFail sg =
     seq (reject (putFail sg) ''put segment'') (modify (\<lambda>d. d\<lparr>dt_segs := (dt_segs d)(bs_segID sg \<mapsto> sg)\<rparr>))"

definition GetSegmentFromLocal :: "env \<Rightarrow> bytes \<Rightarrow> BaseSegment dtgo" where
  "GetSegmentFromLocal E sid =
     bnd (gets (\<lambda>d. (dt_cache d (SegID_String E sid), dt_segs d sid))) (\<lambda>(mc, ms).
     case mc of Some sg \<Rightarrow> ret sg | None \<Rightarrow> orErr ''not found'' ms)"

definition HasSegment :: "env \<Rightarrow> bytes \<Rightarrow> dataService \<Rightarrow> bool" where
  "HasSegment E sid d \<longleftrightarrow> dt_cache d (SegID_String E sid) \<noteq> None \<or> dt_segs d sid \<noteq> None"

text \<open>\<open>net to data sig\<close> is the answer of a node, or none.\<close>

definition SendSegment :: "(u64 \<Rightarrow> bytes \<Rightarrow> bytes \<Rightarrow> NetResp option) \<Rightarrow> BaseSegment \<Rightarrow> u64 \<Rightarrow> unit dtgo" where
  "SendSegment net sg to =
     bnd (orErr ''send'' (net to (Segment_Serialize sg) [])) (\<lambda>resp.
     reject (nr_Err resp) ''send fails'')"

definition SendSegmentByID :: "env \<Rightarrow> (u64 \<Rightarrow> bytes \<Rightarrow> bytes \<Rightarrow> NetResp option) \<Rightarrow> bytes \<Rightarrow> u64 \<Rightarrow> unit dtgo" where
  "SendSegmentByID E net sid to =
     bnd (attempt (GetSegmentFromLocal E sid)) (\<lambda>res. case res of
       Inl _ \<Rightarrow> fail (Err ''missing chunk'') | Inr sg \<Rightarrow> SendSegment net sg to)"

definition MT_SegLocationKey :: nat where "MT_SegLocationKey = 70"

definition locationKey :: "env \<Rightarrow> bytes \<Rightarrow> bytes" where
  "locationKey E sid = NewKey [KInt (int MT_SegLocationKey), KString (en_b58 E sid)]"

definition GetSegmentLocation :: "env \<Rightarrow> bytes \<Rightarrow> u64 dtgo" where
  "GetSegmentLocation E sid =
     bnd (gets (\<lambda>d. dt_ds d (locationKey E sid))) (\<lambda>mv.
     bnd (orErr ''not found'' mv) (\<lambda>v.
     seq (reject (length v < 8) ''location is wrong'') (ret (Uint64 v))))"

definition PutSegmentLocation :: "lib \<Rightarrow> env \<Rightarrow> bytes \<Rightarrow> u64 \<Rightarrow> unit dtgo" where
  "PutSegmentLocation L E sid pid = zoom dt_ds (\<lambda>k d. d\<lparr>dt_ds := k\<rparr>) (kv_put L (locationKey E sid) (PutUint64 pid))"

definition DeleteSegmentLocation :: "env \<Rightarrow> bytes \<Rightarrow> unit dtgo" where
  "DeleteSegmentLocation E sid = modify (\<lambda>d. d\<lparr>dt_ds := ds_delete (dt_ds d) (locationKey E sid)\<rparr>)"

definition GetSegmentRemote ::
  "lib \<Rightarrow> env \<Rightarrow> rpenv \<Rightarrow> ((bytes \<Rightarrow> BaseSegment option) \<Rightarrow> bytes \<Rightarrow> BaseSegment option) \<Rightarrow>
   (u64 \<Rightarrow> bytes \<Rightarrow> bytes \<Rightarrow> NetResp option) \<Rightarrow> bytes \<Rightarrow> u64 \<Rightarrow> BaseSegment dtgo" where
  "GetSegmentRemote L E R arc net sid from =
     bnd (zoom dt_rm (\<lambda>r d. d\<lparr>dt_rm := r\<rparr>) (RoleGet L E from False)) (\<lambda>mp.
     bnd (deref ''nil role'' mp) (\<lambda>pri.
     bnd (zoom dt_pay (\<lambda>s d. d\<lparr>dt_pay := s\<rparr>) (SendPay_Pay L R E (ri_ChainVerifyKey pri) readPrice)) (\<lambda>sig.
     bnd (orErr ''send'' (net from sid sig)) (\<lambda>resp.
     seq (reject (nr_Err resp) ''get segment fails'')
    (bnd (orFail (Segment_Deserialize (nr_Info resp))) (\<lambda>sg.
     seq (reject (sid \<noteq> bs_segID sg) ''segment is not required'')
    (seq (modify (\<lambda>d. d\<lparr>dt_cache := arc ((dt_cache d)(SegID_String E (bs_segID sg) \<mapsto> sg))\<rparr>))
         (ret sg))))))))"

definition GetSegment ::
  "lib \<Rightarrow> env \<Rightarrow> rpenv \<Rightarrow> ((bytes \<Rightarrow> BaseSegment option) \<Rightarrow> bytes \<Rightarrow> BaseSegment option) \<Rightarrow>
   (u64 \<Rightarrow> bytes \<Rightarrow> bytes \<Rightarrow> NetResp option) \<Rightarrow> bytes \<Rightarrow> BaseSegment dtgo" where
  "GetSegment L E R arc net sid =
     bnd (attempt (GetSegmentFromLocal E sid)) (\<lambda>res. case res of
       Inr sg \<Rightarrow> ret sg
     | Inl _ \<Rightarrow> bnd (GetSegmentLocation E sid) (GetSegmentRemote L E R arc net sid))"

text \<open>The entry of the cache is gone even when there is no file to remove.\<close>

definition DeleteSegment :: "env \<Rightarrow> bytes \<Rightarrow> unit dtgo" where
  "DeleteSegment E sid =
     seq (modify (\<lambda>d. d\<lparr>dt_cache := (dt_cache d)(SegID_String E sid := None)\<rparr>))
    (bnd (gets (\<lambda>d. dt_segs d sid)) (\<lambda>ms.
     seq (reject (ms = None) ''no such file'')
         (modify (\<lambda>d. d\<lparr>dt_segs := (dt_segs d)(sid := None)\<rparr>))))"

end
