(* ===== verification/ReadPaySafe.thy ===== *)
theory ReadPaySafe
  imports ReadPay
begin

text \<open>
  What a pay check is worth: a reader never signs for more than its check holds, a provider accepts
  what an honest reader paid, and what it does not ask of a pay check it has seen before.
\<close>

section \<open>Keys\<close>

text \<open>The printed form of an address is one to one and has no slash.\<close>

definition addr_law :: "rpenv \<Rightarrow> bool" where
  "addr_law R \<longleftrightarrow> inj (rp_addrStr R) \<and> (\<forall>a. KeyDelimiter \<notin> set (rp_addrStr R a))"

lemma channelKey_inject:
  assumes "addr_law R" and "channelKey R c f t n = channelKey R c f t' n'"
  shows "t = t'"
proof -
  have "rp_addrStr R t @ KeyDelimiter # FormatUint (unat n) = rp_addrStr R t' @ KeyDelimiter # FormatUint (unat n')"
    using assms(2) by (simp add: channelKey_def)
  then have "rp_addrStr R t = rp_addrStr R t'"
    using assms(1) append_Cons_eq_iff [of KeyDelimiter "rp_addrStr R t" "FormatUint (unat n)" "rp_addrStr R t'" "FormatUint (unat n')"]
    by (auto simp: addr_law_def KeyDelimiter_def FormatUint_def dec_digits_no_slash)
  then show ?thesis
    using assms(1) by (simp add: addr_law_def inj_eq)
qed

lemma nonceKey_not_channelKey: "payNonceKey R c f t \<noteq> channelKey R c' f' t' n"
  by (simp add: channelKey_def payNonceKey_def FormatInt_def MT_ReadPay_NonceKey_def MT_ReadPay_ChannelKey_def dec_digits.simps)

section \<open>The sender\<close>

definition pay_ok :: "SendPay \<Rightarrow> bytes \<Rightarrow> Paycheck \<Rightarrow> bool" where
  "pay_ok s t p \<longleftrightarrow> ck_ContractAddr (pc_Check p) = sd_contractAddr s \<and> ck_FromAddr (pc_Check p) = sd_fromAddr s \<and> ck_ToAddr (pc_Check p) = t \<and>
     (\<exists>pv v. pc_PayValue p = Some pv \<and> ck_Value (pc_Check p) = Some v \<and> 0 \<le> pv \<and> pv \<le> v)"

definition sd_ok :: "rpenv \<Rightarrow> SendPay \<Rightarrow> bool" where
  "sd_ok R s \<longleftrightarrow> sd_contractAddr s = rp_opAddr R \<and> (\<forall>t p. sd_pool s t = Some p \<longrightarrow> pay_ok s t p) \<and>
     (\<forall>t n b p. sd_ds s (channelKey R (sd_contractAddr s) (sd_fromAddr s) t n) = Some b \<longrightarrow>
        decode (rp_cPaycheck R) zero_Paycheck b = Some p \<longrightarrow> pay_ok s t p)"

lemma pay_ok_upd [simp]:
  "pay_ok (s\<lparr>sd_pool := f\<rparr>) t p = pay_ok s t p" "pay_ok (s\<lparr>sd_ds := d\<rparr>) t p = pay_ok s t p"
  by (simp_all add: pay_ok_def)

lemma sd_ok_pool: "sd_ok R s \<Longrightarrow> pay_ok s t p \<Longrightarrow> sd_ok R (s\<lparr>sd_pool := (sd_pool s)(t \<mapsto> p)\<rparr>)"
  by (auto simp: sd_ok_def)

lemma sd_okD:
  "sd_ok R s \<Longrightarrow> sd_pool s t = Some p \<Longrightarrow> pay_ok s t p"
  "sd_ok R s \<Longrightarrow> sd_ds s (channelKey R (sd_contractAddr s) (sd_fromAddr s) t n) = Some b \<Longrightarrow>
     decode (rp_cPaycheck R) zero_Paycheck b = Some p \<Longrightarrow> pay_ok s t p"
  unfolding sd_ok_def by blast+

lemma sd_ok_put:
  assumes "sd_ok R s" and "addr_law R" and "codec_law (rp_cPaycheck R)" and "pay_ok s t p" and "marshal (rp_cPaycheck R) p = Some b"
  shows "sd_ok R (s\<lparr>sd_ds := ds_put (sd_ds s) (pcKey R (pc_Check p)) b\<rparr>)"
proof -
  have "pcKey R (pc_Check p) = channelKey R (sd_contractAddr s) (sd_fromAddr s) t (ck_Nonce (pc_Check p))"
    using assms(4) by (auto simp: pcKey_def pay_ok_def)
  then show ?thesis
    using assms by (auto simp: sd_ok_def ds_put_def decode_law [OF assms(3,5)] dest: channelKey_inject [OF assms(2)] split: if_splits)
qed

lemma sd_ok_put_nonce: "sd_ok R s \<Longrightarrow> sd_ok R (s\<lparr>sd_ds := ds_put (sd_ds s) (payNonceKey R c f t) b\<rparr>)"
  by (auto simp: sd_ok_def ds_put_def nonceKey_not_channelKey [symmetric])

lemma keeps_kv_put:
  "(\<And>s. P s \<Longrightarrow> P (s\<lparr>sd_ds := ds_put (sd_ds s) k v\<rparr>)) \<Longrightarrow> keeps P (sd_store (kv_put L k v))"
  by (rule keepsI) (auto simp: zoom_def kv_put_def seq_def bnd_def reject_def)

lemma keeps_save:
  assumes "addr_law R" and "codec_law (rp_cPaycheck R)"
  shows "keeps (\<lambda>s. sd_ok R s \<and> pay_ok s t p) (sd_store (Paycheck_Save L R p))"
proof (rule keepsI)
  fix s assume ok: "sd_ok R s \<and> pay_ok s t p"
  let ?c = "pc_Check p"
  show "sd_ok R (snd (sd_store (Paycheck_Save L R p) s)) \<and> pay_ok (snd (sd_store (Paycheck_Save L R p) s)) t p"
  proof (cases "marshal (rp_cPaycheck R) p")
    case None
    then show ?thesis
      using ok by (simp add: Paycheck_Save_def Serialize_def orErr_def zoom_def bnd_def fail_def)
  next
    case (Some b)
    let ?s = "s\<lparr>sd_ds := ds_put (sd_ds s) (pcKey R ?c) b\<rparr>"
    have "sd_ok R ?s"
      using sd_ok_put [OF _ assms _ Some] ok by blast
    then show ?thesis
      using ok sd_ok_put_nonce [of R ?s "ck_ContractAddr ?c" "ck_FromAddr ?c" "ck_ToAddr ?c"]
      by (simp add: Paycheck_Save_def Serialize_def orErr_def Some zoom_def kv_put_def bnd_def seq_def reject_def ret_def modify_def)
  qed
qed

lemma generateCheck_triple:
  "triple P (generateCheck L R f t n) (\<lambda>c s. P s \<and> ck_ContractAddr c = rp_opAddr R \<and> ck_FromAddr c = f \<and> ck_ToAddr c = t \<and> ck_Value c = Some checkValue) P"
  by (auto simp: triple_def generateCheck_def Check_Hash_def Let_def deref_def orErr_def split: option.splits)

lemma sp_create_triple:
  assumes "addr_law R" and "codec_law (rp_cPaycheck R)"
  shows "triple (sd_ok R) (sp_create L R t n)
    (\<lambda>p s. sd_ok R s \<and> pay_ok s t p \<and> pc_PayValue p = Some 0 \<and> sd_pool s t = Some p) (sd_ok R)"
proof -
  have save: "triple (\<lambda>s. sd_ok R s \<and> pay_ok s t p) (sd_store (Paycheck_Save L R p)) (\<lambda>_ s. sd_ok R s \<and> pay_ok s t p) (sd_ok R)" for p
    by (rule triple_err [OF triple_keeps [OF keeps_save [OF assms]]]) simp
  show ?thesis
    unfolding sp_create_def Let_def setPool_def
    apply (rule triple_read)
    subgoal for f
      apply (rule triple_bnd [OF triple_err [OF generateCheck_triple]], simp)
      subgoal for c
        by (intro triple_pre [OF triple_seq [OF save]] triple_seq [OF triple_modify] triple_ret)
          (auto simp: pay_ok_def sd_ok_def checkValue_def DefaultReadPrice_def intro: sd_ok_pool)
      done
    done
qed

lemma currentPay_triple:
  assumes "addr_law R" and "codec_law (rp_cPaycheck R)"
  shows "triple (sd_ok R) (currentPay L R t) (\<lambda>p s. sd_ok R s \<and> pay_ok s t p \<and> sd_pool s t = Some p) (sd_ok R)"
proof -
  have create: "triple (\<lambda>s. sd_ok R s \<and> s = s0) (sp_create L R t 0) (\<lambda>p s. sd_ok R s \<and> pay_ok s t p \<and> sd_pool s t = Some p) (sd_ok R)" for s0
    by (rule triple_pre [OF triple_post [OF sp_create_triple [OF assms]]]) auto
  have load: "triple (\<lambda>s. sd_ok R s \<and> s = s0) (seq (setPool t p) (ret p)) (\<lambda>p s. sd_ok R s \<and> pay_ok s t p \<and> sd_pool s t = Some p) (sd_ok R)"
    if "sd_ok R s0 \<Longrightarrow> pay_ok s0 t p" for s0 p
    unfolding setPool_def using that by (intro triple_seq [OF triple_modify] triple_ret) (auto intro: sd_ok_pool)
  show ?thesis
    unfolding currentPay_def
    apply (rule triple_read_pre [where P' = "\<lambda>s0 s. sd_ok R s \<and> s = s0"])
    subgoal for s0
      by (auto split: option.split intro!: create load triple_orErr triple_ret dest: sd_okD)
    by simp
qed

text \<open>Verifying reads nothing but the pay check.\<close>

lemma Check_Hash_run: "Check_Hash L c s = (case ck_Value c of None \<Rightarrow> (Inl (Panic ''nil Value''), s) | Some v \<Rightarrow> (Inr (lb_keccak L (Check_preimage c v)), s))"
  by (simp add: Check_Hash_def deref_def split: option.split)

definition valid :: "lib \<Rightarrow> rpenv \<Rightarrow> Paycheck \<Rightarrow> bool" where
  "valid L R p \<longleftrightarrow> Paycheck_Verify L R p () = (Inr True, ())"

lemma Paycheck_Verify_same: "Paycheck_Verify L R p s = (fst (Paycheck_Verify L R p ()), s)"
  by (simp add: Paycheck_Verify_def Check_Verify_def Check_Hash_def Paycheck_Hash_def deref_def orErr_def bnd_def seq_def reject_def ret_def fail_def split: option.split)

lemma valid_run: "valid L R p \<longleftrightarrow> Paycheck_Verify L R p s = (Inr True, s)"
  unfolding valid_def by (metis Paycheck_Verify_same fst_conv)

lemma attempt_Verify: "triple P (attempt (Paycheck_Verify L R p)) (\<lambda>res s. P s \<and> (res = Inr True \<longrightarrow> valid L R p)) P"
proof (rule tripleI)
  fix s res t assume "P s" and run: "attempt (Paycheck_Verify L R p) s = (Inr res, t)"
  then have "Paycheck_Verify L R p s = (res, t)"
    by (simp add: attempt_Inr)
  then show "P t \<and> (res = Inr True \<longrightarrow> valid L R p)"
    using Paycheck_Verify_same [of L R p s] valid_run [of L R p s] \<open>P s\<close> by auto
next
  fix s e t assume "P s" "attempt (Paycheck_Verify L R p) s = (Inl e, t)"
  then show "P t"
    using Paycheck_Verify_same [of L R p s] by (auto simp: attempt_def split: prod.splits sum.splits err.splits)
qed

text \<open>The pay check that is signed is valid, in the pool, and worth what was asked.\<close>

definition paid_up :: "lib \<Rightarrow> rpenv \<Rightarrow> bytes \<Rightarrow> Paycheck \<Rightarrow> bytes \<Rightarrow> SendPay \<Rightarrow> bool" where
  "paid_up L R t p1 data s \<longleftrightarrow> sd_ok R s \<and> (\<exists>p. marshal (rp_cPaycheck R) p = Some data \<and> sd_pool s t = Some p \<and> valid L R p \<and>
     pc_Check p = pc_Check p1 \<and> pc_PayValue p = pc_PayValue p1)"

lemma signPay_triple:
  assumes "addr_law R" and "codec_law (rp_cPaycheck R)"
  shows "triple (\<lambda>s. sd_ok R s \<and> pay_ok s t p1) (signPay L R E t p1) (paid_up L R t p1) (sd_ok R)"
proof -
  let ?C = "\<lambda>p s. sd_ok R s \<and> pay_ok s t p"
  let ?D = "\<lambda>p s. sd_ok R s \<and> pay_ok s t p \<and> sd_pool s t = Some p"
  have sig: "pay_ok s t (p\<lparr>pc_PaySig := d\<rparr>) = pay_ok s t p" for s p d
    by (simp add: pay_ok_def)
  have set: "triple (?C p1) (setPool t p) (\<lambda>_. ?D p) (sd_ok R)" if "p = p1 \<or> (\<exists>d. p = p1\<lparr>pc_PaySig := d\<rparr>)" for p
    unfolding setPool_def by (rule triple_modify) (use that in \<open>auto intro: sd_ok_pool simp: sig\<close>)
  have put: "triple (\<lambda>s. ?D p s \<and> valid L R p) (dropErr (sd_store (kv_put L (pcKey R (pc_Check p)) b))) (\<lambda>_ s. ?D p s \<and> valid L R p) (sd_ok R)"
    if "marshal (rp_cPaycheck R) p = Some b" for p b
    using sd_ok_put [OF _ assms _ that] by (intro triple_err [OF triple_keeps] keeps_dropErr keeps_kv_put) auto
  have hash: "triple (?D p) (Paycheck_Hash L p) (\<lambda>_. ?C p) (sd_ok R)" for p
    by (auto simp: triple_def Paycheck_Hash_def deref_def split: option.split)
  show ?thesis
    unfolding signPay_def Let_def Serialize_def
    apply (rule triple_seq [OF set], simp)
    apply (rule triple_read_pre [where P' = "\<lambda>_. ?D p1"])
    subgoal
      by (intro triple_bnd [OF hash] triple_orErr triple_seq [OF set] triple_bnd [OF triple_err [OF attempt_Verify]] triple_check triple_pre [OF triple_seq [OF put triple_ret]])
        (auto simp: paid_up_def)
    by simp
qed

lemma Pay_triple:
  assumes "addr_law R" and "codec_law (rp_cPaycheck R)"
  shows "triple (sd_ok R) (SendPay_Pay L R E addr val)
    (\<lambda>data s. sd_ok R s \<and> (\<exists>p. marshal (rp_cPaycheck R) p = Some data \<and> sd_pool s (BytesToAddress (ToEthAddress L addr)) = Some p \<and> valid L R p)) (sd_ok R)"
    (is "triple _ _ ?Q _")
proof -
  let ?t = "BytesToAddress (ToEthAddress L addr)"
  let ?C = "\<lambda>p s. sd_ok R s \<and> pay_ok s ?t p"
  have cur: "triple (sd_ok R) (currentPay L R ?t) ?C (sd_ok R)"
    by (rule triple_post [OF currentPay_triple [OF assms]]) simp
  have next_one: "triple (?C p0) (if c then sp_create L R ?t n else ret p0) (\<lambda>p s. ?C p s \<and> (if c then pc_PayValue p = Some 0 else p = p0)) (sd_ok R)" for c n p0
    by (cases c) (auto intro!: triple_ret triple_pre [OF triple_post [OF sp_create_triple [OF assms]]])
  have sign: "triple (?C p1) (signPay L R E ?t p1) ?Q (sd_ok R)" for p1
    by (rule triple_post [OF signPay_triple [OF assms]]) (auto simp: paid_up_def)
  show ?thesis
    unfolding SendPay_Pay_def Let_def
    by (intro triple_check triple_bnd [OF cur] triple_deref triple_bnd [OF next_one] triple_pre [OF sign])
      (auto simp: pay_ok_def split: if_splits)
qed

lemma Pay_keeps:
  assumes "addr_law R" and "codec_law (rp_cPaycheck R)"
  shows "keeps (sd_ok R) (SendPay_Pay L R E addr val)"
  by (rule keeps_triple, rule triple_post [OF Pay_triple [OF assms]]) simp

inductive pay_reach :: "lib \<Rightarrow> rpenv \<Rightarrow> env \<Rightarrow> SendPay \<Rightarrow> bool" for L R E where
  pay_new: "pay_reach L R E (NewSender L R addr (\<lambda>_. None))"
| pay_pay: "pay_reach L R E s \<Longrightarrow> pay_reach L R E (snd (SendPay_Pay L R E addr val s))"

lemma reach_sd_ok:
  assumes "addr_law R" and "codec_law (rp_cPaycheck R)" and "pay_reach L R E s"
  shows "sd_ok R s"
  using assms(3)
proof induction
  case (pay_new addr)
  then show ?case
    by (simp add: sd_ok_def NewSender_def)
next
  case (pay_pay s addr val)
  then show ?case
    by (intro keepsD [OF Pay_keeps [OF assms(1,2)]])
qed

text \<open>A reader never signs for more than it bought: in every state that payments to any providers,
failed ones included, can lead to, each pay check in use is over a check of its provider and its
value lies between zero and the value of the check.\<close>

lemma pay_within_check:
  assumes "addr_law R" and "codec_law (rp_cPaycheck R)" and "pay_reach L R E s" and "sd_pool s t = Some p"
  shows "ck_ToAddr (pc_Check p) = t \<and> ck_FromAddr (pc_Check p) = sd_fromAddr s \<and>
    (\<exists>pv v. pc_PayValue p = Some pv \<and> ck_Value (pc_Check p) = Some v \<and> 0 \<le> pv \<and> pv \<le> v)"
  using sd_okD(1) [OF reach_sd_ok [OF assms(1-3)] assms(4)] by (auto simp: pay_ok_def)

section \<open>The receiver\<close>

lemma Check_Equal_same: "attempt (Check_Equal L c c2) s = (r, t) \<Longrightarrow> t = s"
  by (auto simp: attempt_def Check_Equal_def Check_Hash_run bnd_def seq_def reject_def ret_def split: option.splits if_splits sum.splits err.splits)

text \<open>What the receiver does with a valid pay check of its own.\<close>

lemma receive_run:
  assumes "valid L R p" and "ck_ToAddr (pc_Check p) = rx_toAddr s" and "ck_Value (pc_Check p) = Some v"
    and "str = en_b58 E (lb_keccak L (Check_preimage (pc_Check p) v))"
    and "case lastPay R str (pcKey R (pc_Check p)) s of None \<Rightarrow> paid = 0 | Some l \<Rightarrow> pc_Check l = pc_Check p \<and> pc_PayValue l = Some paid"
    and "paid + val \<le> v" and "marshal (rp_cPaycheck R) p = Some b" and "\<not> lb_putFail L (pcKey R (pc_Check p)) b"
  shows "ReceivePay_Verify L R E p val s =
    (Inr (), s\<lparr>rx_pool := (rx_pool s)(str \<mapsto> p), rx_ds := ds_put (rx_ds s) (pcKey R (pc_Check p)) b\<rparr>)"
proof -
  have ver: "attempt (Paycheck_Verify L R p) s' = (Inr (Inr True), s')" for s' :: ReceivePay
    using assms(1) valid_run [of L R p s'] by simp
  have eq: "attempt (Check_Equal L (pc_Check p) (pc_Check p)) s' = (Inr (Inr True), s')" for s' :: ReceivePay
    by (rule attempt_Inr_run) (simp add: Check_Equal_def Check_Hash_def deref_def assms(3))
  show ?thesis
    using assms(2-8)
    by (cases "lastPay R str (pcKey R (pc_Check p)) s")
      (auto simp: ReceivePay_Verify_def Check_String_def Check_Hash_def deref_def ver eq kv_put_def Serialize_def orErr_def zoom_def bnd_def seq_def reject_def ret_def)
qed

lemma Pay_signed:
  assumes "addr_law R" and "codec_law (rp_cPaycheck R)" and "sd_ok R s" and "SendPay_Pay L R E addr val s = (Inr data, s')"
  obtains p where "marshal (rp_cPaycheck R) p = Some data" and "sd_pool s' (BytesToAddress (ToEthAddress L addr)) = Some p" and "valid L R p"
    and "pay_ok s' (BytesToAddress (ToEthAddress L addr)) p"
  using that triple_Inr [OF Pay_triple [OF assms(1,2)] assms(3,4)] by (auto dest: sd_okD(1))

text \<open>The receiver has not been shown a pay check over the same check that leaves less than \<open>val\<close>.\<close>

definition in_step :: "lib \<Rightarrow> rpenv \<Rightarrow> env \<Rightarrow> Paycheck \<Rightarrow> int \<Rightarrow> ReceivePay \<Rightarrow> bool" where
  "in_step L R E p val r = (case (ck_Value (pc_Check p), pc_PayValue p) of
      (Some v, Some pv) \<Rightarrow> (case lastPay R (en_b58 E (lb_keccak L (Check_preimage (pc_Check p) v))) (pcKey R (pc_Check p)) r of
          None \<Rightarrow> val \<le> pv
        | Some l \<Rightarrow> pc_Check l = pc_Check p \<and> (case pc_PayValue l of None \<Rightarrow> False | Some paid \<Rightarrow> paid + val \<le> pv))
    | _ \<Rightarrow> False)"

text \<open>A successful payment returns a pay check that decodes, and a receiver at that address that is in
step accepts it for the price and remembers it.\<close>

lemma read_payment_accepted:
  assumes "addr_law R" and "codec_law (rp_cPaycheck R)" and "pay_reach L R E s" and "SendPay_Pay L R E addr val s = (Inr data, s')"
    and "rx_toAddr r = BytesToAddress (ToEthAddress L addr)" and "\<forall>k b. \<not> lb_putFail L k b"
    and "\<forall>p. sd_pool s' (rx_toAddr r) = Some p \<longrightarrow> in_step L R E p val r"
  shows "\<exists>p r'. decode (rp_cPaycheck R) zero_Paycheck data = Some p \<and> ReceivePay_Verify L R E p val r = (Inr (), r') \<and>
    sd_pool s' (rx_toAddr r) = Some p \<and> (\<forall>str. Check_String L E (pc_Check p) () = (Inr str, ()) \<longrightarrow> rx_pool r' str = Some p)"
proof -
  obtain p where data: "marshal (rp_cPaycheck R) p = Some data" and pool: "sd_pool s' (rx_toAddr r) = Some p" and ver: "valid L R p" and ok: "pay_ok s' (rx_toAddr r) p"
    using Pay_signed [OF assms(1,2) reach_sd_ok [OF assms(1-3)] assms(4)] unfolding assms(5) by blast
  obtain pv v where v: "pc_PayValue p = Some pv" "ck_Value (pc_Check p) = Some v" "pv \<le> v" and to: "ck_ToAddr (pc_Check p) = rx_toAddr r"
    using ok by (auto simp: pay_ok_def)
  define str where "str = en_b58 E (lb_keccak L (Check_preimage (pc_Check p) v))"
  have "in_step L R E p val r"
    using assms(7) pool by blast
  then obtain paid where paid: "case lastPay R str (pcKey R (pc_Check p)) r of None \<Rightarrow> paid = 0 | Some l \<Rightarrow> pc_Check l = pc_Check p \<and> pc_PayValue l = Some paid"
    and le: "paid + val \<le> v"
    using v by (cases "lastPay R str (pcKey R (pc_Check p)) r") (auto simp: in_step_def str_def split: option.splits)
  have "ReceivePay_Verify L R E p val r = (Inr (), r\<lparr>rx_pool := (rx_pool r)(str \<mapsto> p), rx_ds := ds_put (rx_ds r) (pcKey R (pc_Check p)) data\<rparr>)"
    using receive_run [OF ver to v(2) str_def paid le data] assms(6) by blast
  moreover have "Check_String L E (pc_Check p) () = (Inr str, ())"
    using v(2) by (simp add: Check_String_def Check_Hash_run str_def bnd_def)
  ultimately show ?thesis
    using decode_law [OF assms(2) data] pool by auto
qed

text \<open>A pay check is accepted again and again: after a receiver accepted it once, every further
request with the same pay check is accepted as well, as long as its value and the price of one more
segment are within the check, so that one payment reads any number of segments.\<close>

lemma paid_once_read_again:
  assumes "ReceivePay_Verify L R E p val s = (Inr (), t)" and "pc_PayValue p = Some pv" and "ck_Value (pc_Check p) = Some v" and "pv + val \<le> v"
  shows "fst (ReceivePay_Verify L R E p val (((\<lambda>s. snd (ReceivePay_Verify L R E p val s)) ^^ k) t)) = Inr ()"
proof -
  define str where "str = en_b58 E (lb_keccak L (Check_preimage (pc_Check p) v))"
  let ?seen = "\<lambda>s. rx_pool s str = Some p \<and> rx_toAddr s = ck_ToAddr (pc_Check p)"
  obtain b where ver: "valid L R p" and b: "marshal (rp_cPaycheck R) p = Some b" "\<not> lb_putFail L (pcKey R (pc_Check p)) b" and t: "?seen t"
    using assms(1) valid_run [of L R p s] Paycheck_Verify_same [of L R p s] assms(3)
    unfolding ReceivePay_Verify_def bnd_Inr seq_Inr reject_Inr attempt_Inr Check_String_def Serialize_def orErr_Inr zoom_Inr kv_put_def deref_Inr
    by (auto simp: Check_Hash_run str_def bnd_Inr seq_Inr deref_Inr reject_Inr split: option.splits dest!: Check_Equal_same)
  have step: "\<exists>u. ReceivePay_Verify L R E p val s = (Inr (), u) \<and> ?seen u" if "?seen s" for s
    using receive_run [OF ver _ assms(3) str_def _ assms(4) b, of s] that assms(2) by (auto simp: lastPay_def)
  have "?seen (((\<lambda>s. snd (ReceivePay_Verify L R E p val s)) ^^ k) t)"
    using t step by (induction k) fastforce+
  then show ?thesis
    using step by fastforce
qed

section \<open>An example\<close>

text \<open>Addresses print as half bytes, a signature is the address that recovers from it, and a table encodes two pay checks.\<close>

fun ex_hex :: "bytes \<Rightarrow> bytes" where
  "ex_hex [] = []"
| "ex_hex (w # ws) = drop_bit 4 w # take_bit 4 w # ex_hex ws"

definition ex_check :: Check where
  "ex_check = \<lparr>ck_ContractAddr = replicate 20 3, ck_OwnerAddr = replicate 20 3, ck_ToAddr = replicate 20 6, ck_Value = Some checkValue, ck_Nonce = 0,
     ck_FromAddr = replicate 20 5, ck_Sig = replicate 20 3\<rparr>"

definition ex_pay0 :: Paycheck where "ex_pay0 = \<lparr>pc_Check = ex_check, pc_PayValue = Some 0, pc_PaySig = []\<rparr>"
definition ex_pay1 :: Paycheck where "ex_pay1 = \<lparr>pc_Check = ex_check, pc_PayValue = Some readPrice, pc_PaySig = replicate 20 5\<rparr>"

definition ex_rp :: rpenv where
  "ex_rp = \<lparr>rp_ecrecover = (\<lambda>h sig. Some sig), rp_opSign = (\<lambda>_. Some (replicate 20 3)), rp_opAddr = replicate 20 3, rp_addrStr = ex_hex,
     rp_cPaycheck = tab_codec [ex_pay0, ex_pay1]\<rparr>"

lemma ex_rp_fields [simp]:
  "rp_ecrecover ex_rp = (\<lambda>h sig. Some sig)" "rp_opSign ex_rp = (\<lambda>_. Some (replicate 20 3))" "rp_opAddr ex_rp = replicate 20 3"
  "rp_addrStr ex_rp = ex_hex" "rp_cPaycheck ex_rp = tab_codec [ex_pay0, ex_pay1]"
  by (simp_all add: ex_rp_def)

lemma ex_hex_inject: "ex_hex a = ex_hex b \<Longrightarrow> a = b"
proof (induction a arbitrary: b rule: ex_hex.induct)
  case 1
  then show ?case by (cases b) auto
next
  case (2 w ws)
  then obtain v vs where b: "b = v # vs" and "drop_bit 4 w = drop_bit 4 v" "take_bit 4 w = take_bit 4 v" "ws = vs"
    by (cases b) auto
  then show ?case
    by (metis bits_ident)
qed

lemma ex_hex_small: "x \<in> set (ex_hex a) \<Longrightarrow> x < 16"
proof (induction a rule: ex_hex.induct)
  case (2 w ws)
  have "drop_bit 4 w < 16" "take_bit 4 w < 16"
    using unsigned_less [of w, where 'a = nat]
    by (simp_all add: word_less_nat_alt unsigned_drop_bit_eq unsigned_take_bit_eq drop_bit_eq_div take_bit_eq_mod unat_div_distrib unat_mod_distrib)
  with 2 show ?case by auto
qed simp

lemma addr_law_ex: "addr_law ex_rp"
  using ex_hex_small [of 47] by (auto simp: addr_law_def KeyDelimiter_def intro!: injI dest: ex_hex_inject)

lemma ex_addr [simp]: "BytesToAddress (ToEthAddress L (replicate 20 w)) = replicate 20 w"
  by (simp add: BytesToAddress_def ToEthAddress_def)

definition ex_sender :: SendPay where "ex_sender = NewSender lib0 ex_rp (replicate 20 5) (\<lambda>_. None)"
definition ex_receiver :: ReceivePay where "ex_receiver = NewReceivePay lib0 (replicate 20 6) (\<lambda>_. None)"

lemma ex_paid: "\<exists>s'. SendPay_Pay lib0 ex_rp env0 (replicate 20 6) readPrice ex_sender = (Inr [0, 0], s') \<and> sd_pool s' (replicate 20 6) = Some ex_pay1"
  by (simp add: SendPay_Pay_def currentPay_def sp_create_def generateCheck_def signPay_def ex_sender_def NewSender_def Check_Hash_def Paycheck_Hash_def
      deref_def orErr_def Paycheck_Save_def Serialize_def kv_put_def bnd_def seq_def reject_def gets_def modify_def ret_def zoom_def BytesToAddress_def setPool_def Paycheck_Verify_def Check_Verify_def attempt_def ToEthAddress_def ex_pay0_def ex_pay1_def ex_check_def
      readPrice_def checkValue_def DefaultReadPrice_def DefaultSegSize_def Let_def dropErr_def)

lemma ex_reach: "pay_reach lib0 ex_rp env0 ex_sender"
  unfolding ex_sender_def by (rule pay_new)

end
