(* ===== verification/OrderLife.thy ===== *)
theory OrderLife
  imports StateRun
begin

text \<open>
  The life of an order.  \<open>order_now\<close> is the order of a pair of user and provider as the
  manager sees it, cached or loaded.  \<open>order_step\<close> is the state machine the handlers are
  meant to implement: an order is opened, grows, is committed, and is retired; every message
  that is applied makes at most one step, on the pair it names, and leaves every other pair
  alone.
\<close>

section \<open>The order of a pair\<close>

definition order_now :: "lib \<Rightarrow> orderKey \<Rightarrow> StateMgr \<Rightarrow> orderInfo" where
  "order_now L okey s = (case oInfo s okey of
      Some oi \<Rightarrow> oi | None \<Rightarrow> loadOrder L (fst okey) (snd okey) s)"

text \<open>The keys \<open>loadOrder\<close> reads.\<close>

definition own_key :: "orderKey \<Rightarrow> bytes \<Rightarrow> bool" where
  "own_key okey k \<longleftrightarrow>
     (\<exists>mt \<in> {ST_SegPayKey, ST_SegProofKey, ST_OrderStateKey}. k = skey mt [unat (fst okey), unat (snd okey)]) \<or>
     (\<exists>n. k = skey ST_OrderBaseKey [unat (fst okey), unat (snd okey), n])"

lemma loadOrder_cong:
  assumes "\<And>k. own_key (u, p) k \<Longrightarrow> sget L k t = sget L k s"
  shows "loadOrder L u p t = loadOrder L u p s"
proof -
  have "mt \<in> {ST_SegPayKey, ST_SegProofKey, ST_OrderStateKey} \<Longrightarrow>
      sget L (skey mt [unat u, unat p]) t = sget L (skey mt [unat u, unat p]) s" for mt
    by (rule assms) (auto simp: own_key_def)
  moreover have "get_OrderFull L u p n t = get_OrderFull L u p n s" for n
    using assms [of "skey ST_OrderBaseKey [unat u, unat p, unat n]"]
    by (simp add: get_OrderFull_def own_key_def)
  ultimately show ?thesis
    by (simp add: loadOrder_def Let_def cong: option.case_cong if_cong)
qed

lemma order_now_cong:
  assumes "oInfo t okey = oInfo s okey" and "\<And>k. own_key okey k \<Longrightarrow> sget L k t = sget L k s"
  shows "order_now L okey t = order_now L okey s"
  using assms loadOrder_cong [of "fst okey" "snd okey" L t s]
  by (simp add: order_now_def split: option.split)

lemma order_now_updates [simp]:
  "order_now L okey (s\<lparr>keepers := x3\<rparr>) = order_now L okey s"
  "order_now L okey (s\<lparr>pros := x4\<rparr>) = order_now L okey s"
  "order_now L okey (s\<lparr>users := x5\<rparr>) = order_now L okey s"
  "order_now L okey (s\<lparr>ceInfo := x6\<rparr>) = order_now L okey s"
  "order_now L okey (s\<lparr>root := x7\<rparr>) = order_now L okey s"
  "order_now L okey (s\<lparr>sInfo := x9\<rparr>) = order_now L okey s"
  "order_now L okey (s\<lparr>rInfo := x10\<rparr>) = order_now L okey s"
  by (rule order_now_cong; simp)+

lemma order_now_set:
  "order_now L okey (s\<lparr>oInfo := (oInfo s)(okey' \<mapsto> oi)\<rparr>) = (if okey' = okey then oi else order_now L okey s)"
  using order_now_cong [of "s\<lparr>oInfo := (oInfo s)(okey' \<mapsto> oi)\<rparr>" okey s L]
  by (auto simp: order_now_def)

lemma order_now_sput:
  assumes "\<not> own_key okey k"
  shows "keeps (\<lambda>s. trie_law (lb_trie L) \<longrightarrow> order_now L okey s = oi) (sput L k v)"
proof (rule keepsI, rule impI)
  fix s assume P: "trie_law (lb_trie L) \<longrightarrow> order_now L okey s = oi" and law: "trie_law (lb_trie L)"
  obtain r t where run: "sput L k v s = (r, t)"
    by (cases "sput L k v s")
  have "sget L k' t = sget L k' s" if "own_key okey k'" for k'
    using sget_sput_other [OF law run, of k'] assms that by blast
  with sput_shape [OF run] have "order_now L okey t = order_now L okey s"
    by (auto intro!: order_now_cong)
  with P law run show "order_now L okey (snd (sput L k v s)) = oi"
    by simp
qed

lemma order_now_tds_put:
  assumes "\<not> own_key okey k"
  shows "keeps (\<lambda>s. trie_law (lb_trie L) \<longrightarrow> order_now L okey s = oi) (tds_put L k v)"
proof (rule keepsI, rule impI)
  fix s assume P: "trie_law (lb_trie L) \<longrightarrow> order_now L okey s = oi" and law: "trie_law (lb_trie L)"
  obtain r t where run: "tds_put L k v s = (r, t)"
    by (cases "tds_put L k v s")
  have "sget L k' t = sget L k' s" if "own_key okey k'" for k'
    using sget_tds_put_other [OF run, of k'] assms that by blast
  with tds_put_shape [OF run] have "order_now L okey t = order_now L okey s"
    by (auto intro!: order_now_cong)
  with P law run show "order_now L okey (snd (tds_put L k v s)) = oi"
    by simp
qed

lemma own_key_order: "own_key okey k \<Longrightarrow> order_key k"
  by (auto simp: own_key_def order_types_def)

text \<open>The orders of other pairs: only their own messages change them.\<close>

interpretation others: order_frame L "\<lambda>s. trie_law (lb_trie L) \<longrightarrow> order_now L okey s = oi" "\<lambda>k. k \<noteq> okey"
  for L okey oi
proof unfold_locales
  show "keeps (\<lambda>s. trie_law (lb_trie L) \<longrightarrow> order_now L okey s = oi) (sput L k v)"
    if "\<not> chain_key k" "\<not> order_key k" for k v
    using that by (intro order_now_sput) (auto dest: own_key_order)
  show "keeps (\<lambda>s. trie_law (lb_trie L) \<longrightarrow> order_now L okey s = oi)
      (sput L (skey mt (unat (fst okey') # unat (snd okey') # ns)) v)" if "okey' \<noteq> okey" "mt \<in> order_types"
    for okey' mt ns v
    using that by (intro order_now_sput) (auto simp: own_key_def prod_eq_iff)
  show "keeps (\<lambda>s. trie_law (lb_trie L) \<longrightarrow> order_now L okey s = oi) (sput L (skey ST_SegPayKey [n]) v)"
    "keeps (\<lambda>s. trie_law (lb_trie L) \<longrightarrow> order_now L okey s = oi) (sput L (skey ST_SegPayKey [0, n, e]) v)"
    for n e v
    by (intro order_now_sput; simp add: own_key_def meta_defs)+
qed (auto simp: order_now_set)

section \<open>The state machine\<close>

text \<open>The period of a new order, and how it follows the previous one.\<close>

definition order_window :: "orderInfo \<Rightarrow> SignedOrder \<Rightarrow> bool" where
  "order_window oi od \<longleftrightarrow> sint BaseTime < sint (so_Start od) \<and>
     OrderMin \<le> sint (so_End od) - sint (so_Start od) \<and> sint (so_End od) - sint (so_Start od) \<le> OrderMax \<and>
     sint (so_End od) mod Day = 0 \<and>
     sint (oi_preStart oi) \<le> sint (so_Start od) \<and> sint (oi_preEnd oi) \<le> sint (so_End od)"

inductive order_step :: "lib \<Rightarrow> orderInfo \<Rightarrow> orderInfo \<Rightarrow> bool" for L where
  opened: "oi_base oi = None \<Longrightarrow> ns_SeqNum (oi_ns oi) = 0 \<Longrightarrow> so_Nonce od = ns_Nonce (oi_ns oi) \<Longrightarrow>
    so_Size od = 0 \<Longrightarrow> so_Price od = Some 0 \<Longrightarrow> order_window oi od \<Longrightarrow>
    order_step L oi (oi\<lparr>oi_base := Some od\<rparr>)"
| grown: "oi_base oi = Some b \<Longrightarrow> ob_SegPrice (so_OrderBase b) = Some sp \<Longrightarrow> so_Price b = Some bp \<Longrightarrow>
    so_OrderBase b' = so_OrderBase b \<Longrightarrow> so_Size b' = so_Size b + n * DefaultSegSize \<Longrightarrow>
    so_Price b' = Some (bp + sp * sint n) \<Longrightarrow>
    order_step L oi (oi\<lparr>oi_ns := (oi_ns oi)\<lparr>ns_SeqNum := ns_SeqNum (oi_ns oi) + 1\<rparr>,
      oi_accFr := lb_frAdd L (oi_accFr oi) acc, oi_base := Some b'\<rparr>)"
| committed: "oi_base oi = Some b \<Longrightarrow> so_Size b \<noteq> 0 \<Longrightarrow> order_step L oi (close_order L oi)"
| retired: "ns_SubNonce (oi_ns oi) \<le> ns_Nonce (oi_ns oi) \<Longrightarrow> order_step L oi (retire_order oi)"
| proved: "oi_prove oi \<le> e \<Longrightarrow> add_value x (oi_income oi) = Some inc \<Longrightarrow>
    order_step L oi (oi\<lparr>oi_prove := e + 1, oi_income := inc\<rparr>)"
| charged: "add_penalty x (oi_income oi) = Some inc \<Longrightarrow> order_step L oi (oi\<lparr>oi_income := inc\<rparr>)"

section \<open>What the handlers do to the order of their pair\<close>

lemma lookupOrder_now:
  "lookupOrder L okey s = (Inr (order_now L okey s), s\<lparr>oInfo := (oInfo s)(okey \<mapsto> order_now L okey s)\<rparr>)"
  by (cases s) (auto simp: lookupOrder_def order_now_def Let_def fun_upd_idem split: option.split)

text \<open>After the assignment to the cache, the rest of a handler leaves the cache alone.\<close>

definition order_cached :: "orderKey \<Rightarrow> orderInfo \<Rightarrow> StateMgr \<Rightarrow> bool" where
  "order_cached okey oi s \<longleftrightarrow> oInfo s okey = Some oi"

lemma order_cached_set [simp]: "order_cached okey oi (s\<lparr>oInfo := (oInfo s)(okey \<mapsto> oi)\<rparr>)"
  by (simp add: order_cached_def)

lemma order_cached_now: "order_cached okey oi s \<Longrightarrow> order_now L okey s = oi"
  by (simp add: order_cached_def order_now_def)

lemma cached_sput: "keeps (order_cached okey oi) (sput L k v)"
  by (rule keeps_sput_stable) (simp add: order_cached_def)

lemma cached_saves:
  "keeps (order_cached okey oi) (saveOrderState L okey' ns)"
  "keeps (order_cached okey oi) (appendAt L k x)"
  "keeps (order_cached okey oi) (saveSeq L okey' b ns a q f)"
  "keeps (order_cached okey oi) (saveIncome L okey' pi)"
  "keeps (order_cached okey oi) (savePostIncomeAt L okey' e g)"
  "keeps (order_cached okey oi) (saveAccIncome L p e h)"
  unfolding saveOrderState_def appendAt_def saveSeq_def saveIncome_def savePostIncomeAt_def
    saveAccIncome_def Let_def Serialize_def
  by (intro keeps_rules cached_sput)+

lemma cached_run:
  "keeps (order_cached okey oi) m \<Longrightarrow> m (s\<lparr>oInfo := (oInfo s)(okey \<mapsto> oi)\<rparr>) = (r, t) \<Longrightarrow> order_now L okey t = oi"
  by (rule order_cached_now) (rule keeps_run, assumption, assumption, simp)

lemma order_now_run:
  assumes "keeps (\<lambda>s. trie_law (lb_trie L) \<longrightarrow> order_now L okey s = order_now L okey s0) m"
    and "m s0 = (r, t)" and "trie_law (lb_trie L)"
  shows "order_now L okey t = order_now L okey s0"
  using keeps_run [OF assms(1,2)] assms(3) by simp

lemma checkNewOrder_Inr:
  "checkNewOrder L msg s = (Inr od, t) \<longleftrightarrow> t = s \<and>
     decode (lb_cSignedOrder L) zero_SignedOrder (msg_Params msg) = Some od \<and>
     so_Price od = Some 0 \<and> so_Size od = 0 \<and> OrderMin \<le> sint (so_End od - so_Start od) \<and>
     CheckOrder (so_OrderBase od) s = (Inr (), s) \<and> msg_From msg = so_UserID od"
  by (auto simp: checkNewOrder_def go_simps CheckOrder_Inr)

lemma createOrder_now:
  assumes law: "trie_law (lb_trie L)" and run: "createOrder L msg s = (Inr u, t)"
    and dec: "decode (lb_cSignedOrder L) zero_SignedOrder (msg_Params msg) = Some od"
    and okey: "okey = (so_UserID od, so_ProID od)" and oi: "oi = order_now L okey s"
  shows "msg_From msg = so_UserID od \<and> oi_base oi = None \<and> ns_SeqNum (oi_ns oi) = 0 \<and>
    so_Nonce od = ns_Nonce (oi_ns oi) \<and> so_Size od = 0 \<and> so_Price od = Some 0 \<and> order_window oi od \<and>
    order_now L okey t = oi\<lparr>oi_base := Some od\<rparr>"
proof -
  from run dec obtain s1 s2 s3 data where chk: "checkNewOrder L msg s = (Inr od, s)"
    and ver: "verifyOrder L (lookupRole L) od s = (Inr (), s1)"
    and guards: "so_Nonce od = ns_Nonce (oi_ns (order_now L okey s1))" "ns_SeqNum (oi_ns (order_now L okey s1)) = 0"
      "oi_base (order_now L okey s1) = None" "sint (oi_preStart (order_now L okey s1)) \<le> sint (so_Start od)"
      "sint (oi_preEnd (order_now L okey s1)) \<le> sint (so_End od)"
    and put: "sput L (orderFullKey okey (so_Nonce od)) data
      (s1\<lparr>oInfo := (oInfo s1)(okey \<mapsto> (order_now L okey s1)\<lparr>oi_base := Some od\<rparr>)\<rparr>) = (Inr (), s2)"
    and save: "saveOrderState L okey (oi_ns (order_now L okey s1)) s2 = (Inr (), s3)"
    and more: "(if so_Nonce od = 0 then
         seq (appendAt L (skey ST_ProsKey [unat (so_UserID od)]) (so_ProID od))
             (appendAt L (skey ST_UsersKey [unat (so_ProID od)]) (so_UserID od))
       else ret ()) s3 = (Inr u, t)"
    by (auto simp: createOrder_def checkNewOrder_Inr checkOrderTime_def Serialize_def okey Let_def
        lookupOrder_now go_simps not_less)
  have now: "order_now L okey s1 = oi"
    unfolding oi using order_now_run [OF others.verifyOrder_frame ver law] .
  have "keeps (order_cached okey oi') (if so_Nonce od = 0 then
         seq (appendAt L (skey ST_ProsKey [unat (so_UserID od)]) (so_ProID od))
             (appendAt L (skey ST_UsersKey [unat (so_ProID od)]) (so_UserID od))
       else ret ())" for oi'
    by (intro keeps_rules cached_saves)
  from keeps_run [OF this more] keeps_run [OF cached_saves(1) save] keeps_run [OF cached_sput put]
  have "order_now L okey t = oi\<lparr>oi_base := Some od\<rparr>"
    by (simp add: now order_cached_now)
  with chk guards now show ?thesis
    by (auto simp: checkNewOrder_Inr CheckOrder_Inr order_window_def sint_diff_pos BaseTime_def)
qed

lemma checkSeqSize_Inr:
  "checkSeqSize L roles base so p s = (Inr u, t) \<Longrightarrow> t = s \<and>
     os_Size (sos_OrderSeq so) = so_Size base + segCount (os_Segments (sos_OrderSeq so)) * DefaultSegSize \<and>
     (\<exists>sp bp. ob_SegPrice (so_OrderBase base) = Some sp \<and> so_Price base = Some bp \<and>
       p = bp + sp * sint (segCount (os_Segments (sos_OrderSeq so))))"
  using keeps_run [of "\<lambda>x. x = s" "checkSeqSize L roles base so p" s "Inr u" t]
  by (auto simp: checkSeqSize_def Let_def verify_def go_simps split: if_splits
      intro!: keeps_rules)

lemma addSeq_now:
  assumes law: "trie_law (lb_trie L)" and run: "addSeq L msg s = (Inr u, t)"
    and dec: "decode (lb_cSignedOrderSeq L) zero_SignedOrderSeq (msg_Params msg) = Some so"
    and q: "q = sos_OrderSeq so" and okey: "okey = (os_UserID q, os_ProID q)" and oi: "oi = order_now L okey s"
  shows "msg_From msg = os_UserID q \<and> ns_Nonce (oi_ns oi) = os_Nonce q \<and> ns_SeqNum (oi_ns oi) = os_SeqNum q \<and>
    (\<exists>b sp bp acc. oi_base oi = Some b \<and> ob_SegPrice (so_OrderBase b) = Some sp \<and> so_Price b = Some bp \<and>
      os_Size q = so_Size b + segCount (os_Segments q) * DefaultSegSize \<and>
      os_Price q = Some (bp + sp * sint (segCount (os_Segments q))) \<and>
      order_now L okey t = oi\<lparr>oi_ns := (oi_ns oi)\<lparr>ns_SeqNum := ns_SeqNum (oi_ns oi) + 1\<rparr>,
        oi_accFr := lb_frAdd L (oi_accFr oi) acc,
        oi_base := Some (grow_base b so (bp + sp * sint (segCount (os_Segments q))))\<rparr>)"
proof -
  from run dec obtain p roles s1 b s2 uinfo s3 s4 where chk: "checkNewSeq L msg s = (Inr (so, p), s)"
    and ver: "verifySeqData L (lookupRole L) so s = (Inr roles, s1)"
    and base: "oi_base (order_now L okey s1) = Some b" "ns_Nonce (oi_ns (order_now L okey s1)) = os_Nonce q"
      "ns_SeqNum (oi_ns (order_now L okey s1)) = os_SeqNum q"
    and user: "lookupUser L (os_UserID q) (s1\<lparr>oInfo := (oInfo s1)(okey \<mapsto> order_now L okey s1)\<rparr>) = (Inr uinfo, s2)"
    and sz: "checkSeqSize L roles b so p s2 = (Inr (), s3)"
    and save: "saveSeq L okey (grow_base b so p)
        ((oi_ns (order_now L okey s1))\<lparr>ns_SeqNum := ns_SeqNum (oi_ns (order_now L okey s1)) + 1\<rparr>)
        (lb_frAdd L (oi_accFr (order_now L okey s1)) (segsFr L (su_fsID uinfo) (os_Segments q))) q
        (segsFr L (su_fsID uinfo) (os_Segments q))
        (s4\<lparr>oInfo := (oInfo s4)(okey \<mapsto> (order_now L okey s1)\<lparr>
          oi_ns := (oi_ns (order_now L okey s1))\<lparr>ns_SeqNum := ns_SeqNum (oi_ns (order_now L okey s1)) + 1\<rparr>,
          oi_accFr := lb_frAdd L (oi_accFr (order_now L okey s1)) (segsFr L (su_fsID uinfo) (os_Segments q)),
          oi_base := Some (grow_base b so p)\<rparr>)\<rparr>) = (Inr u, t)"
    by (auto simp: addSeq_def checkNewSeq_def checkSeqNonce_def okey q Let_def lookupOrder_now go_simps)
  have "keeps (\<lambda>x. trie_law (lb_trie L) \<longrightarrow> order_now L okey x = oi') (verifySeqData L (lookupRole L) so)" for oi'
    unfolding verifySeqData_def by (intro keeps_rules others.common_prims)
  from order_now_run [OF this ver law] have now: "order_now L okey s1 = oi"
    by (simp add: oi)
  from chk have "msg_From msg = os_UserID q" "os_Price q = Some p"
    by (auto simp: checkNewSeq_def q go_simps)
  with cached_run [OF cached_saves(3) save, of L] base checkSeqSize_Inr [OF sz] show ?thesis
    by (auto simp: now q)
qed

lemma commitOrder_now:
  assumes run: "commitOrder L msg s = (Inr u, t)"
    and dec: "decode (lb_cOrderCommitParas L) zero_OrderCommitParas (msg_Params msg) = Some p"
    and okey: "okey = (ocp_UserID p, ocp_ProID p)" and oi: "oi = order_now L okey s"
  shows "msg_From msg = ocp_UserID p \<and> ocp_Nonce p = ns_Nonce (oi_ns oi) \<and> ocp_SeqNum p = ns_SeqNum (oi_ns oi) \<and>
    (\<exists>b. oi_base oi = Some b \<and> so_Size b \<noteq> 0) \<and> order_now L okey t = close_order L oi"
proof -
  from run dec obtain s1 where guards: "msg_From msg = ocp_UserID p" "ocp_Nonce p = ns_Nonce (oi_ns oi)"
      "ocp_SeqNum p = ns_SeqNum (oi_ns oi)" "\<exists>b. oi_base oi = Some b \<and> so_Size b \<noteq> 0"
    and save: "saveOrderState L okey (oi_ns (close_order L oi))
      (s1\<lparr>oInfo := (oInfo s1)(okey \<mapsto> close_order L oi)\<rparr>) = (Inr u, t)"
    by (auto simp: commitOrder_def checkCommit_def okey oi Let_def lookupOrder_now go_simps)
  from cached_run [OF cached_saves(1) save] guards show ?thesis
    by simp
qed

lemma subOrder_now:
  assumes run: "subOrder L msg s = (Inr u, t)"
    and dec: "decode (lb_cOrderSubParas L) zero_OrderSubParas (msg_Params msg) = Some p"
    and okey: "okey = (osp_UserID p, osp_ProID p)" and oi: "oi = order_now L okey s"
  shows "msg_From msg = osp_ProID p \<and> osp_Nonce p = ns_SubNonce (oi_ns oi) \<and> osp_Nonce p \<le> ns_Nonce (oi_ns oi) \<and>
    (\<exists>full. get_OrderFull L (osp_UserID p) (osp_ProID p) (osp_Nonce p) s = Some full \<and>
      sint (so_End (of_SignedOrder full)) \<le> sint (slotTime (ce_Slot (cei_previous (ceInfo s))))) \<and>
    order_now L okey t = retire_order oi"
proof -
  from run dec obtain s1 full where guards: "msg_From msg = osp_ProID p" "osp_Nonce p = ns_SubNonce (oi_ns oi)"
      "osp_Nonce p \<le> ns_Nonce (oi_ns oi)"
      "get_OrderFull L (osp_UserID p) (osp_ProID p) (osp_Nonce p) s = Some full"
      "sint (so_End (of_SignedOrder full)) \<le> sint (slotTime (ce_Slot (cei_previous (ceInfo s))))"
    and save: "saveOrderState L okey (oi_ns (retire_order oi))
      (s1\<lparr>oInfo := (oInfo s1)(okey \<mapsto> retire_order oi)\<rparr>) = (Inr u, t)"
    by (auto simp: subOrder_def checkSub_def okey oi Let_def lookupOrder_now get_OrderFull_def not_less go_simps)
  from cached_run [OF cached_saves(1) save] guards show ?thesis
    by simp
qed

lemma saveProof_now:
  assumes "saveProof L msg okey e tot oi s = (Inr u, t)"
  shows "\<exists>inc. add_value tot (oi_income oi) = Some inc \<and>
    order_now L okey t = oi\<lparr>oi_prove := e + 1, oi_income := inc\<rparr>"
proof -
  have "add_value tot (oi_income oi) \<noteq> None"
    using assms by (intro notI) (simp add: saveProof_def Let_def)
  then obtain inc where inc: "add_value tot (oi_income oi) = Some inc"
    by blast
  let ?m = "seq (sput L (skey ST_SegProofKey [unat (fst okey), unat (snd okey), unat e]) (msg_Params msg))
      (seq (sput L (skey ST_SegProofKey [unat (fst okey), unat (snd okey)]) (PutUint64 (e + 1)))
      (seq (saveIncome L okey inc)
      (seq (savePostIncomeAt L okey e (add_value tot))
      (seq (saveAccIncome L (snd okey) e (add_acc_value tot))
      (bnd (gets (\<lambda>s. cei_epoch (ceInfo s))) (\<lambda>ep.
       bnd (Serialize (lb_cNonceSeq L) (oi_ns oi)) (\<lambda>data.
       sput L (skey ST_OrderStateKey [unat (fst okey), unat (snd okey), unat ep]) data)))))))"
  have "keeps (order_cached okey oi') ?m" for oi'
    unfolding Serialize_def by (intro keeps_rules cached_sput cached_saves)
  moreover from assms inc
  have "?m (s\<lparr>oInfo := (oInfo s)(okey \<mapsto> oi\<lparr>oi_prove := e + 1, oi_income := inc\<rparr>)\<rparr>) = (Inr u, t)"
    by (simp add: saveProof_def Let_def)
  ultimately show ?thesis
    using inc by (blast intro: cached_run)
qed

lemma addSegProof_now:
  assumes run: "addSegProof L msg s = (Inr u, t)"
    and dec: "decode (lb_cSegChalParams L) zero_SegChalParams (msg_Params msg) = Some p"
    and okey: "okey = (scp_UserID p, scp_ProID p)" and oi: "oi = order_now L okey s"
  shows "msg_From msg = scp_ProID p \<and> scp_Epoch p = ce_Epoch (cei_current (ceInfo s)) \<and>
    oi_prove oi \<le> scp_Epoch p \<and> (\<exists>price inc. scp_Price p = Some price \<and>
      add_value price (oi_income oi) = Some inc \<and>
      order_now L okey t = oi\<lparr>oi_prove := scp_Epoch p + 1, oi_income := inc\<rparr>)"
proof -
  from run dec obtain s1 price where guards: "msg_From msg = scp_ProID p"
      "scp_Epoch p = ce_Epoch (cei_current (ceInfo s))" "oi_prove oi \<le> scp_Epoch p" "scp_Price p = Some price"
    and save: "saveProof L msg okey (scp_Epoch p) price oi s1 = (Inr u, t)"
    by (auto simp: addSegProof_def checkChal_def newChal_def checkProof_def okey oi Let_def lookupOrder_now
        not_less go_simps)
  from saveProof_now [OF save] guards show ?thesis
    by auto
qed

text \<open>The other handlers leave the stored orders alone.\<close>

interpretation stored: common_frame L "\<lambda>s. trie_law (lb_trie L) \<longrightarrow> order_key k \<longrightarrow> sget L k s = v" for L k v
proof unfold_locales
  fix k' v' assume "\<not> order_key k'"
  then show "keeps (\<lambda>s. trie_law (lb_trie L) \<longrightarrow> order_key k \<longrightarrow> sget L k s = v) (sput L k' v')"
    using sget_sput_other [of L k' v' _ _ _ k] by (intro keepsI) (metis prod.collapse)
qed simp_all

lemma lookupUser_ceInfo: "keeps (\<lambda>s. ceInfo s = c) (lookupUser L u)"
  unfolding lookupUser_def loadUser_def by (intro keeps_rules keeps_sput_stable) simp_all

lemma lookupUser_stored:
  assumes law: "trie_law (lb_trie L)" and run: "lookupUser L u s = (r, t)"
  shows "get_OrderFull L x p n t = get_OrderFull L x p n s" "get_SeqFull L okey n q t = get_SeqFull L okey n q s"
  using keeps_run [OF stored.lookupUser_frame run] law
  by (simp_all add: get_OrderFull_def get_SeqFull_def orderSeqKey_def order_types_def)

lemma removeSeg_now:
  assumes law: "trie_law (lb_trie L)" and run: "removeSeg L msg s = (Inr u, t)"
    and dec: "decode (lb_cSegRemoveParas L) zero_SegRemoveParas (msg_Params msg) = Some p"
    and okey: "okey = (srp_UserID p, srp_ProID p)" and oi: "oi = order_now L okey s"
  shows "msg_From msg = srp_ProID p \<and> (\<exists>full sf sp inc.
      get_OrderFull L (srp_UserID p) (srp_ProID p) (srp_Nonce p) s = Some full \<and>
      get_SeqFull L okey (srp_Nonce p) (srp_SeqNum p) s = Some sf \<and>
      segs_in_seq (os_Segments (sf_OrderSeq sf)) (srp_Segments p) \<and>
      ob_SegPrice (so_OrderBase (of_SignedOrder full)) = Some sp \<and>
      add_penalty (sint (segCount (srp_Segments p)) * sp *
        sint (so_End (of_SignedOrder full) - slotTime (ce_Slot (cei_previous (ceInfo s))))) (oi_income oi) = Some inc \<and>
      order_now L okey t = oi\<lparr>oi_income := inc\<rparr>)"
proof -
  from run dec obtain inc s1 s2 s3 s4 s5 data sdata epoch uinfo full sf sp x where
    user: "lookupUser L (srp_UserID p) (s\<lparr>oInfo := (oInfo s)(okey \<mapsto> oi)\<rparr>) = (Inr uinfo, s1)"
    and guards: "msg_From msg = srp_ProID p"
      "get_OrderFull L (srp_UserID p) (srp_ProID p) (srp_Nonce p) s1 = Some full"
      "get_SeqFull L okey (srp_Nonce p) (srp_SeqNum p) s1 = Some sf"
      "segs_in_seq (os_Segments (sf_OrderSeq sf)) (srp_Segments p)"
      "ob_SegPrice (so_OrderBase (of_SignedOrder full)) = Some sp"
      "x = sint (segCount (srp_Segments p)) * sp *
        sint (so_End (of_SignedOrder full) - slotTime (ce_Slot (cei_previous (ceInfo s1))))"
      "add_penalty x (oi_income oi) = Some inc"
    and put: "sput L (orderFullKey okey (srp_Nonce p)) data
       (s1\<lparr>oInfo := (oInfo s1)(okey \<mapsto> oi\<lparr>oi_income := inc\<rparr>)\<rparr>) = (Inr (), s2)"
      "sput L (orderSeqKey okey (srp_Nonce p) (srp_SeqNum p)) sdata s2 = (Inr (), s3)"
    and save: "saveIncome L okey inc s3 = (Inr (), s4)"
      "savePostIncomeAt L okey epoch (add_penalty x) s4 = (Inr (), s5)"
      "saveAccIncome L (srp_ProID p) epoch (add_acc_penalty x) s5 = (Inr (), t)"
    by (auto simp: removeSeg_def checkRemoveTime_def okey oi Let_def lookupOrder_now Serialize_def go_simps)
  have "ceInfo s1 = ceInfo s" "get_OrderFull L (srp_UserID p) (srp_ProID p) (srp_Nonce p) s = Some full"
    "get_SeqFull L okey (srp_Nonce p) (srp_SeqNum p) s = Some sf"
    using keeps_run [OF lookupUser_ceInfo user] lookupUser_stored [OF law user] guards(2,3)
    by (simp_all add: get_OrderFull_def get_SeqFull_def)
  moreover have "order_cached okey (oi\<lparr>oi_income := inc\<rparr>) t"
    using keeps_run [OF cached_sput put(1) order_cached_set] keeps_run [OF cached_sput put(2)]
      keeps_run [OF cached_saves(4) save(1)] keeps_run [OF cached_saves(5) save(2)]
      keeps_run [OF cached_saves(6) save(3)] by blast
  ultimately show ?thesis
    using guards(1,4-7) by (auto simp: order_cached_now)
qed

section \<open>Refinement\<close>

text \<open>The pair a message is about.\<close>

definition order_of_msg :: "lib \<Rightarrow> Message \<Rightarrow> orderKey option" where
  "order_of_msg L msg =
     (let m = msg_Method msg; b = msg_Params msg in
      if m = PreDataOrder then
        map_option (\<lambda>od. (so_UserID od, so_ProID od)) (decode (lb_cSignedOrder L) zero_SignedOrder b)
      else if m = AddDataOrder then
        map_option (\<lambda>so. (os_UserID (sos_OrderSeq so), os_ProID (sos_OrderSeq so)))
          (decode (lb_cSignedOrderSeq L) zero_SignedOrderSeq b)
      else if m = CommitDataOrder then
        map_option (\<lambda>p. (ocp_UserID p, ocp_ProID p)) (decode (lb_cOrderCommitParas L) zero_OrderCommitParas b)
      else if m = SubDataOrder then
        map_option (\<lambda>p. (osp_UserID p, osp_ProID p)) (decode (lb_cOrderSubParas L) zero_OrderSubParas b)
      else if m = SegmentFault then
        map_option (\<lambda>p. (srp_UserID p, srp_ProID p)) (decode (lb_cSegRemoveParas L) zero_SegRemoveParas b)
      else if m = SegmentProof then
        map_option (\<lambda>p. (scp_UserID p, scp_ProID p)) (decode (lb_cSegChalParams L) zero_SegChalParams b)
      else None)"

interpretation pairs: role_frame L "\<lambda>s. trie_law (lb_trie L) \<longrightarrow> order_now L okey s = oi" for L okey oi
  by unfold_locales (auto intro!: order_now_tds_put dest: own_key_order)

lemma applyMethod_other_pairs:
  assumes "order_of_msg L msg \<noteq> Some okey"
  shows "keeps (\<lambda>s. trie_law (lb_trie L) \<longrightarrow> order_now L okey s = oi) (applyMethod L msg)"
  using assms unfolding applyMethod_def Let_def
  by (intro keeps_rules pairs.addRole_frame others.addUser_frame others.addBucket_frame others.createOrder_frame
      others.addSeq_frame others.commitOrder_frame others.subOrder_frame others.removeSeg_frame
      others.updateChalEpoch_frame others.addSegProof_frame others.addPay_frame others.updateNetAddr_frame
      others.addBucMeta_frame others.addObjMeta_frame)
    (auto simp: order_of_msg_def Let_def method_defs)

lemma applyMethod_own_pair:
  assumes law: "trie_law (lb_trie L)" and run: "applyMethod L msg s = (Inr u, t)"
    and pair: "order_of_msg L msg = Some okey"
  shows "order_step L (order_now L okey s) (order_now L okey t) \<and> msg_From msg \<in> {fst okey, snd okey}"
proof -
  consider "msg_Method msg = PreDataOrder" | "msg_Method msg = AddDataOrder" | "msg_Method msg = CommitDataOrder"
    | "msg_Method msg = SubDataOrder" | "msg_Method msg = SegmentFault" | "msg_Method msg = SegmentProof"
    using pair by (auto simp: order_of_msg_def Let_def split: if_splits)
  then show ?thesis
  proof cases
    case 1
    with pair obtain od where "decode (lb_cSignedOrder L) zero_SignedOrder (msg_Params msg) = Some od"
      "okey = (so_UserID od, so_ProID od)"
      by (auto simp: order_of_msg_def)
    with createOrder_now [OF law _ this refl, of s u t] run 1 show ?thesis
      by (auto simp: applyMethod_def method_defs intro: order_step.opened)
  next
    case 2
    with pair obtain so where so: "decode (lb_cSignedOrderSeq L) zero_SignedOrderSeq (msg_Params msg) = Some so"
      "okey = (os_UserID (sos_OrderSeq so), os_ProID (sos_OrderSeq so))"
      by (auto simp: order_of_msg_def method_defs)
    from run 2 have "addSeq L msg s = (Inr u, t)"
      by (simp add: applyMethod_def method_defs)
    from addSeq_now [OF law this so(1) refl so(2) refl] obtain b sp bp acc where from_user: "msg_From msg = fst okey"
      and b: "oi_base (order_now L okey s) = Some b" "ob_SegPrice (so_OrderBase b) = Some sp" "so_Price b = Some bp"
      and sz: "os_Size (sos_OrderSeq so) = so_Size b + segCount (os_Segments (sos_OrderSeq so)) * DefaultSegSize"
      and now: "order_now L okey t = (order_now L okey s)\<lparr>oi_ns := (oi_ns (order_now L okey s))\<lparr>
          ns_SeqNum := ns_SeqNum (oi_ns (order_now L okey s)) + 1\<rparr>,
        oi_accFr := lb_frAdd L (oi_accFr (order_now L okey s)) acc,
        oi_base := Some (grow_base b so (bp + sp * sint (segCount (os_Segments (sos_OrderSeq so)))))\<rparr>"
      by (auto simp: so(2))
    have "order_step L (order_now L okey s) (order_now L okey t)"
      unfolding now by (rule order_step.grown [OF b, where n = "segCount (os_Segments (sos_OrderSeq so))"]) (simp_all add: grow_base_def sz)
    with from_user show ?thesis by simp
  next
    case 3
    with pair obtain p where "decode (lb_cOrderCommitParas L) zero_OrderCommitParas (msg_Params msg) = Some p"
      "okey = (ocp_UserID p, ocp_ProID p)"
      by (auto simp: order_of_msg_def method_defs)
    with commitOrder_now [OF _ this refl, of s u t] run 3 show ?thesis
      by (auto simp: applyMethod_def method_defs intro: order_step.committed)
  next
    case 4
    with pair obtain p where "decode (lb_cOrderSubParas L) zero_OrderSubParas (msg_Params msg) = Some p"
      "okey = (osp_UserID p, osp_ProID p)"
      by (auto simp: order_of_msg_def method_defs)
    with subOrder_now [OF _ this refl, of s u t] run 4 show ?thesis
      by (auto simp: applyMethod_def method_defs intro: order_step.retired)
  next
    case 5
    with pair obtain p where p: "decode (lb_cSegRemoveParas L) zero_SegRemoveParas (msg_Params msg) = Some p"
      "okey = (srp_UserID p, srp_ProID p)"
      by (auto simp: order_of_msg_def method_defs)
    from run 5 have "removeSeg L msg s = (Inr u, t)"
      by (simp add: applyMethod_def method_defs)
    from removeSeg_now [OF law this p refl] p(2) show ?thesis
      by (auto intro: order_step.charged)
  next
    case 6
    with pair obtain p where p: "decode (lb_cSegChalParams L) zero_SegChalParams (msg_Params msg) = Some p"
      "okey = (scp_UserID p, scp_ProID p)"
      by (auto simp: order_of_msg_def method_defs)
    from run 6 have "addSegProof L msg s = (Inr u, t)"
      by (simp add: applyMethod_def method_defs)
    from addSegProof_now [OF this p refl] p(2) show ?thesis
      by (auto intro: order_step.proved)
  qed
qed

section \<open>Orders over a block\<close>

lemma applyMethod_orders:
  assumes "trie_law (lb_trie L)" and "applyMethod L msg s = (Inr (), t)"
  shows "(order_step L)\<^sup>*\<^sup>* (order_now L okey s) (order_now L okey t)"
proof (cases "order_of_msg L msg = Some okey")
  case True
  from applyMethod_own_pair [OF assms True] show ?thesis
    by blast
next
  case False
  from keeps_run [OF applyMethod_other_pairs [OF False] assms(2)] assms(1) show ?thesis
    by simp
qed

definition orders_step :: "lib \<Rightarrow> StateMgr \<Rightarrow> StateMgr \<Rightarrow> bool" where
  "orders_step L s t \<longleftrightarrow> trie_law (lb_trie L) \<longrightarrow>
     (\<forall>okey. (order_step L)\<^sup>*\<^sup>* (order_now L okey s) (order_now L okey t))"

lemma orders_step_same: "(\<And>okey. trie_law (lb_trie L) \<Longrightarrow> order_now L okey t = order_now L okey s) \<Longrightarrow> orders_step L s t"
  by (simp add: orders_step_def)

lemma orders_step_sget:
  assumes "oInfo t = oInfo s" and "\<And>k. trie_law (lb_trie L) \<Longrightarrow> order_key k \<Longrightarrow> sget L k t = sget L k s"
  shows "orders_step L s t"
  using assms by (intro orders_step_same order_now_cong) (auto dest: own_key_order)

lemma advance_oInfo [simp]: "oInfo (advance L blk s) = oInfo s"
  by (simp add: advance_def Let_def split: option.split)

interpretation orders: block_run L "orders_step L" for L
proof unfold_locales
  show "orders_step L s s" for s
    by (simp add: orders_step_def)
  show "orders_step L s u" if "orders_step L s t" "orders_step L t u" for s t u
    using that by (fastforce simp: orders_step_def elim: rtranclp_trans)
  have types: "order_key k' \<Longrightarrow> chain_key k \<Longrightarrow> k' \<noteq> k" for k k'
    by (auto simp: order_key_def order_types_def meta_defs)
  show "orders_step L s t" if "chain_key k" "sput L k v s = (r, t)" for k v s r t
  proof (rule orders_step_sget)
    show "oInfo t = oInfo s"
      using sput_shape [OF that(2)] by auto
    show "sget L k' t = sget L k' s" if "trie_law (lb_trie L)" "order_key k'" for k'
      using sget_sput_other [OF that(1) \<open>sput L k v s = (r, t)\<close>] types [OF that(2) \<open>chain_key k\<close>] .
  qed
  show "orders_step L s t" if "chain_key k" "tds_put L k v s = (r, t)" for k v s r t
  proof (rule orders_step_sget)
    show "oInfo t = oInfo s"
      using tds_put_shape [OF that(2)] by auto
    show "sget L k' t = sget L k' s" if "order_key k'" for k'
      using sget_tds_put_other [OF \<open>tds_put L k v s = (r, t)\<close>] types [OF that \<open>chain_key k\<close>] .
  qed
  show "orders_step L s t" if "applyMethod L msg s = (Inr (), t)" for msg s t
    using applyMethod_orders that by (auto simp: orders_step_def)
  show "orders_step L s (s\<lparr>smt := smtSetRoot (curRoot (smt s)) (smt s)\<rparr>)" for s
    by (rule orders_step_sget) (simp_all add: sget_def smtSetRoot_def smtGet_def split: option.split)
  show "orders_step L s (s\<lparr>tds := Some (txn_new (ds s))\<rparr>)" if "tds s = None" for s
    using that by (intro orders_step_sget) (simp_all add: sget_def base_get_def split: option.split)
  show "orders_step L s (advance L blk (s\<lparr>ds := txn_commit tx\<rparr>)\<lparr>tds := None\<rparr>)" if "tds s = Some tx" for s tx blk
    using that by (intro orders_step_sget) (simp_all add: sget_def base_get_def split: option.split)
qed (simp_all add: orders_step_def)

text \<open>What every step of an order keeps.\<close>

lemma order_step_terms:
  "order_step L oi oi' \<Longrightarrow> oi_base oi = Some b \<Longrightarrow> oi_base oi' = Some b' \<Longrightarrow> so_OrderBase b' = so_OrderBase b"
  by (induction rule: order_step.induct) (auto simp: close_order_def retire_order_def)

lemma order_step_nonce:
  "order_step L oi oi' \<Longrightarrow> ns_Nonce (oi_ns oi') = ns_Nonce (oi_ns oi) \<or>
     oi_base oi \<noteq> None \<and> oi_base oi' = None \<and> ns_Nonce (oi_ns oi') = ns_Nonce (oi_ns oi) + 1"
  by (induction rule: order_step.induct) (auto simp: close_order_def retire_order_def)

text \<open>An order without a base has no sequences; an open order has the nonce of its pair.\<close>

definition order_ok :: "orderInfo \<Rightarrow> bool" where
  "order_ok oi \<longleftrightarrow> (case oi_base oi of None \<Rightarrow> ns_SeqNum (oi_ns oi) = 0 | Some b \<Rightarrow> so_Nonce b = ns_Nonce (oi_ns oi))"

lemma order_step_ok: "order_step L oi oi' \<Longrightarrow> order_ok oi \<Longrightarrow> order_ok oi'"
  by (induction rule: order_step.induct) (auto simp: order_ok_def close_order_def retire_order_def split: option.splits)

lemma order_steps_ok: "(order_step L)\<^sup>*\<^sup>* oi oi' \<Longrightarrow> order_ok oi \<Longrightarrow> order_ok oi'"
  by (induction rule: rtranclp_induct) (auto intro: order_step_ok)

section \<open>An example order\<close>

text \<open>User 5 has an open order of one segment at provider 6, in a block that is being applied.\<close>

definition ex_base :: SignedOrder where
  "ex_base = \<lparr>so_OrderBase = \<lparr>ob_UserID = 5, ob_ProID = 6, ob_Nonce = 0, ob_Start = BaseTime + 86400,
       ob_End = BaseTime + 86400 * 101, ob_TokenIndex = 0, ob_SegPrice = Some 2, ob_PiecePrice = Some 1\<rparr>,
     so_Size = DefaultSegSize, so_Price = Some 2, so_Usign = zero_Signature, so_Psign = zero_Signature\<rparr>"

definition ex_order :: orderInfo where
  "ex_order = \<lparr>oi_prove = 0, oi_income = new_PostIncome 5 6,
     oi_ns = \<lparr>ns_Nonce = 0, ns_SeqNum = 1, ns_SubNonce = 0\<rparr>, oi_accFr = 0, oi_base = Some ex_base,
     oi_preStart = 0, oi_preEnd = 0\<rparr>"

definition ex_mid :: StateMgr where
  "ex_mid = ex_state\<lparr>tds := Some (txn_new (\<lambda>_. None)), oInfo := [(5, 6) \<mapsto> ex_order]\<rparr>"

definition ex_commit :: OrderCommitParas where
  "ex_commit = \<lparr>ocp_UserID = 5, ocp_ProID = 6, ocp_Nonce = 0, ocp_SeqNum = 1\<rparr>"

definition ex_commit_lib :: lib where
  "ex_commit_lib = lib0\<lparr>lb_cOrderCommitParas := tab_codec [ex_commit],
     lb_cNonceSeq := tab_codec [\<lparr>ns_Nonce = 1, ns_SeqNum = 0, ns_SubNonce = 0\<rparr>]\<rparr>"

definition ex_commit_msg :: Message where
  "ex_commit_msg = ex_msg\<lparr>msg_From := 5, msg_Method := CommitDataOrder, msg_Params := [0]\<rparr>"

lemmas ex_order_defs = ex_base_def ex_order_def ex_mid_def new_PostIncome_def

lemma ex_seg_size [simp]: "DefaultSegSize \<noteq> 0"
  by (simp add: DefaultSegSize_def)

lemma ex_commit_run: "\<exists>t. applyMethod ex_commit_lib ex_commit_msg ex_mid = (Inr (), t)"
  by (simp add: applyMethod_def method_defs ex_commit_msg_def ex_commit_lib_def commitOrder_def ex_commit_def
      Let_def lookupOrder_def checkCommit_def close_order_def saveOrderState_def Serialize_def sput_def
      tds_put_def ex_order_defs)

section \<open>Properties\<close>

text \<open>
  C8: orders follow their state machine: a message that is applied makes one step of
  \<open>order_step\<close> on the pair it names (open, grow, commit, retire, prove or charge), sent by the
  user or the provider of that pair, and leaves the orders of all other pairs as they were.
\<close>

theorem orders_refine:
  assumes "trie_law (lb_trie L)" and "applyMethod L msg s = (Inr (), t)"
  shows "(order_of_msg L msg = Some okey \<longrightarrow> msg_From msg \<in> {fst okey, snd okey} \<and>
      order_step L (order_now L okey s) (order_now L okey t)) \<and>
    (order_of_msg L msg \<noteq> Some okey \<longrightarrow> order_now L okey t = order_now L okey s)"
  using applyMethod_own_pair [OF assms] keeps_run [OF applyMethod_other_pairs assms(2)] assms(1) by blast

theorem orders_refine_witness:
  "\<exists>t. applyMethod ex_commit_lib ex_commit_msg ex_mid = (Inr (), t) \<and>
     order_step ex_commit_lib ex_order (order_now ex_commit_lib (5, 6) t) \<and>
     order_now ex_commit_lib (5, 7) t = order_now ex_commit_lib (5, 7) ex_mid"
proof -
  obtain t where run: "applyMethod ex_commit_lib ex_commit_msg ex_mid = (Inr (), t)"
    using ex_commit_run by blast
  have law: "trie_law (lb_trie ex_commit_lib)"
    by (simp add: ex_commit_lib_def)
  have pair: "order_of_msg ex_commit_lib ex_commit_msg = Some (5, 6)"
    by (simp add: order_of_msg_def ex_commit_lib_def ex_commit_msg_def ex_commit_def method_defs)
  have "order_now ex_commit_lib (5, 6) ex_mid = ex_order"
    by (simp add: order_now_def ex_mid_def)
  with orders_refine [OF law run, of "(5, 6)"] orders_refine [OF law run, of "(5, 7)"] pair run show ?thesis
    by auto
qed

text \<open>
  An order is committed by its user, with the nonce and the number of sequences it has, and
  only if it is open and not empty; the pair is then ready for the next nonce, with no open
  order, no sequences and the accumulator reset, and everything else unchanged.
\<close>

lemma commitOrder_effect:
  assumes "commitOrder L msg s = (Inr u, t)"
    and "decode (lb_cOrderCommitParas L) zero_OrderCommitParas (msg_Params msg) = Some p"
  shows "let okey = (ocp_UserID p, ocp_ProID p); oi = order_now L okey s in
    msg_From msg = ocp_UserID p \<and> ocp_Nonce p = ns_Nonce (oi_ns oi) \<and> ocp_SeqNum p = ns_SeqNum (oi_ns oi) \<and>
    (\<exists>b. oi_base oi = Some b \<and> so_Size b \<noteq> 0) \<and>
    order_now L okey t = oi\<lparr>oi_ns := (oi_ns oi)\<lparr>ns_Nonce := ns_Nonce (oi_ns oi) + 1, ns_SeqNum := 0\<rparr>,
      oi_accFr := lb_frZero L, oi_base := None\<rparr>"
  using commitOrder_now [OF assms refl refl] unfolding Let_def close_order_def .

text \<open>
  A commit for a pair that has no open order does not fail with an error: with the right
  nonces the handler and its validating twin dereference a nil base and panic.
\<close>

theorem commit_without_order_panics:
  assumes "decode (lb_cOrderCommitParas L) zero_OrderCommitParas (msg_Params msg) = Some p"
    and "msg_From msg = ocp_UserID p" and "oInfo s (ocp_UserID p, ocp_ProID p) = Some oi"
    and "validateOInfo s (ocp_UserID p, ocp_ProID p) = Some oi"
    and "ocp_Nonce p = ns_Nonce (oi_ns oi)" and "ocp_SeqNum p = ns_SeqNum (oi_ns oi)" and "oi_base oi = None"
  shows "commitOrder L msg s = (Inl (Panic ''nil base''), s) \<and>
    canCommitOrder L msg s = (Inl (Panic ''nil base''), s)"
  using assms
  by (simp add: commitOrder_def canCommitOrder_def Let_def lookupOrder_def lookupValidateOrder_def checkCommit_def)

definition ex_empty :: StateMgr where
  "ex_empty = ex_state\<lparr>oInfo := [(5, 6) \<mapsto> ex_order\<lparr>oi_base := None\<rparr>],
     validateOInfo := [(5, 6) \<mapsto> ex_order\<lparr>oi_base := None\<rparr>]\<rparr>"

text \<open>
  C9: over an accepted block the order of every pair only moves along its state machine; in
  particular the bookkeeping of an order stays consistent: without an open order there are no
  sequences, and an open order carries the nonce of its pair.
\<close>

theorem block_orders:
  assumes "trie_law (lb_trie L)" and "ApplyBlock L (Some blk) s = (Inr x, t)" and "tds s = None"
  shows "(order_step L)\<^sup>*\<^sup>* (order_now L okey s) (order_now L okey t) \<and>
    (order_ok (order_now L okey s) \<longrightarrow> order_ok (order_now L okey t))"
proof -
  have "(order_step L)\<^sup>*\<^sup>* (order_now L okey s) (order_now L okey t)"
    using orders.ApplyBlock_R [OF assms(2,3)] assms(1) unfolding orders_step_def by blast
  then show ?thesis
    using order_steps_ok by blast
qed

text \<open>A block with the commit of the example.\<close>

definition ex2_state :: StateMgr where
  "ex2_state = ex_state\<lparr>oInfo := [(5, 6) \<mapsto> ex_order]\<rparr>"

definition ex2_block :: SignedBlock where
  "ex2_block = \<lparr>sb_RawBlock = \<lparr>rb_RawHeader = ex_header,
     rb_MsgSet = \<lparr>mset_Msgs = [\<lparr>sm_Message = ex_commit_msg, sm_Signature = zero_Signature\<rparr>],
       mset_Receipts = [\<lparr>rcpt_Err = 0, rcpt_Extra = []\<rparr>], mset_ParentRoot = root ex_state,
       mset_Root = MsgIDOf lib0 (MsgIDOf lib0 (root ex_state @ [0]) @ [0])\<rparr>\<rparr>,
     sb_MultiSignature = \<lparr>ms_Type = SigBLS, ms_Signer = [1, 2, 3], ms_Data = []\<rparr>\<rparr>"

definition ex2_lib :: lib where
  "ex2_lib = ex_commit_lib\<lparr>lb_cRawHeader := tab_codec [ex_header], lb_cRawBlock := tab_codec [sb_RawBlock ex2_block],
     lb_cRoleValue := tab_codec [\<lparr>rv_Nonce = 1, rv_Value = Some 0\<rparr>]\<rparr>"

lemma ex2_msgs:
  "\<exists>s4. applyMsgs ex2_lib (mset_Msgs (blk_msgset ex2_block)) (mset_Receipts (blk_msgset ex2_block))
     (block_start ex2_lib ex2_block [0] ex2_state) = (Inr (), s4) \<and>
     root s4 = mset_Root (blk_msgset ex2_block)"
  by (simp add: block_start_def Let_def applyMsg_def lookupRole_def loadRole_def loadVal_def sget_def
      base_get_def smtGet_def list_trie_def meta_defs ex_msg_def zero_roleValue_def saveVal_def
      Serialize_def sput_def tds_put_ok newRoot_def ex2_lib_def ex_commit_lib_def ex2_block_def ex2_state_def
      ex_commit_msg_def applyMethod_def method_defs commitOrder_def ex_commit_def lookupOrder_def checkCommit_def
      close_order_def saveOrderState_def ex_order_def ex_base_def)

lemma ex2_run: "\<exists>t. ApplyBlock ex2_lib (Some ex2_block) ex2_state = (Inr (root t), t)"
proof -
  obtain s4 where "applyMsgs ex2_lib (mset_Msgs (blk_msgset ex2_block)) (mset_Receipts (blk_msgset ex2_block))
     (block_start ex2_lib ex2_block [0] ex2_state) = (Inr (), s4)" "root s4 = mset_Root (blk_msgset ex2_block)"
    using ex2_msgs by blast
  then show ?thesis
    by (intro ApplyBlock_accepts [of ex2_block ex2_state ex2_lib "[0]" s4])
      (simp_all add: checkSigners_Inr getThreshold_def validSigners_def ex2_block_def ex2_state_def ex2_lib_def ex_commit_lib_def)
qed

theorem block_orders_witness:
  "\<exists>t. ApplyBlock ex2_lib (Some ex2_block) ex2_state = (Inr (root t), t) \<and>
     (order_step ex2_lib)\<^sup>*\<^sup>* ex_order (order_now ex2_lib (5, 6) t) \<and> order_ok (order_now ex2_lib (5, 6) t)"
proof -
  obtain t where run: "ApplyBlock ex2_lib (Some ex2_block) ex2_state = (Inr (root t), t)"
    using ex2_run by blast
  have law: "trie_law (lb_trie ex2_lib)"
    by (simp add: ex2_lib_def ex_commit_lib_def)
  have start: "order_now ex2_lib (5, 6) ex2_state = ex_order" "tds ex2_state = None" "order_ok ex_order"
    by (simp_all add: order_now_def ex2_state_def order_ok_def ex_order_def ex_base_def)
  from block_orders [OF law run start(2), of "(5, 6)"] start run show ?thesis
    by auto
qed

text \<open>
  C10: a provider is paid once per epoch and exactly what its proof claims: a proof that is
  accepted adds its price to the income of the pair and moves the pair's proved epoch past the
  proof's, and afterwards no proof of the pair for this or an earlier epoch is accepted.
\<close>

theorem proof_paid_once:
  assumes "addSegProof L msg s = (Inr u, t)"
    and "decode (lb_cSegChalParams L) zero_SegChalParams (msg_Params msg) = Some p"
    and "okey = (scp_UserID p, scp_ProID p)" and "scp_Epoch p + 1 \<noteq> 0"
  shows "(\<exists>price v. scp_Price p = Some price \<and> pi_Value (oi_income (order_now L okey s)) = Some v \<and>
      pi_Value (oi_income (order_now L okey t)) = Some (v + price)) \<and>
    oi_prove (order_now L okey t) = scp_Epoch p + 1 \<and>
    (\<forall>msg' p' u' t'. decode (lb_cSegChalParams L) zero_SegChalParams (msg_Params msg') = Some p' \<and>
       okey = (scp_UserID p', scp_ProID p') \<and> scp_Epoch p' \<le> scp_Epoch p \<longrightarrow>
       addSegProof L msg' t \<noteq> (Inr u', t'))"
proof -
  note now = addSegProof_now [OF assms(1-3) refl]
  have "scp_Epoch p < scp_Epoch p + 1"
    using assms(4) by (rule word_less_inc)
  then have "\<not> scp_Epoch p + 1 \<le> e" if "e \<le> scp_Epoch p" for e
    using that by (meson leD order.trans)
  with now addSegProof_now [of L _ t _ _ _ okey] show ?thesis
    by (fastforce simp: add_value_def)
qed

text \<open>The example order, committed, and a proof of it over one day.\<close>

definition ex_full :: OrderFull where
  "ex_full = \<lparr>of_SignedOrder = ex_base, of_SeqNum = 1, of_AccFr = [],
     of_DelPart = \<lparr>dp_AccFr = [], dp_Size = 0, dp_Price = Some 0\<rparr>\<rparr>"

definition ex_prove_order :: orderInfo where
  "ex_prove_order = ex_order\<lparr>oi_ns := \<lparr>ns_Nonce = 1, ns_SeqNum = 0, ns_SubNonce = 0\<rparr>, oi_base := None\<rparr>"

definition ex_prove_state :: StateMgr where
  "ex_prove_state = ex_state\<lparr>
     tds := Some (txn_put (txn_new (\<lambda>_. None)) (orderFullKey (5, 6) 0) [0]),
     oInfo := [(5, 6) \<mapsto> ex_prove_order], sInfo := [5 \<mapsto> mk_segPerUser lib0 5 [] 1],
     ceInfo := \<lparr>cei_epoch = 2, cei_current = \<lparr>ce_Epoch = 1, ce_Slot = 5760, ce_Seed = []\<rparr>,
       cei_previous = \<lparr>ce_Epoch = 0, ce_Slot = 2880, ce_Seed = []\<rparr>\<rparr>\<rparr>"

definition ex_chal :: SegChalParams where
  "ex_chal = \<lparr>scp_UserID = 5, scp_ProID = 6, scp_Epoch = 1, scp_OrderStart = 0, scp_OrderEnd = 1,
     scp_Size = DefaultSegSize, scp_Price = Some 172800, scp_Proof = []\<rparr>"

definition ex_prove_lib :: lib where
  "ex_prove_lib = lib0\<lparr>lb_cSegChalParams := tab_codec [ex_chal], lb_cOrderFull := tab_codec [ex_full],
     lb_cNonceSeq := tab_codec [oi_ns ex_prove_order],
     lb_cPostIncome := tab_codec [(new_PostIncome 5 6)\<lparr>pi_Value := Some 172800\<rparr>],
     lb_cAccPostIncome := tab_codec [(new_AccPostIncome 6)\<lparr>api_Value := Some 172800\<rparr>]\<rparr>"

definition ex_prove_msg :: Message where
  "ex_prove_msg = ex_msg\<lparr>msg_From := 6, msg_Method := SegmentProof, msg_Params := [0]\<rparr>"

lemma ex_prove_full: "get_OrderFull ex_prove_lib 5 6 0 ex_prove_state = Some ex_full"
  by (simp add: get_OrderFull_def ex_prove_lib_def ex_prove_state_def sget_def base_get_def smtGet_def list_trie_def
      orderFullKey_def)

lemma ex_prove_totals:
  "chalTotals ex_prove_lib ceInfo (orderStep ex_prove_lib (5, 6)) (5, 6) ex_chal (oi_ns ex_prove_order) c ex_prove_state =
    (Inr \<lparr>ca_orderDur = 86400, ca_totalPrice = 172800, ca_totalSize = DefaultSegSize, ca_delSize = 0,
       ca_chal = c @ be 32 0\<rparr>, ex_prove_state)"
  using ex_prove_full
  by (simp add: chalTotals_def latestOrder_def orderStep_def addCommitted_def ex_chal_def ex_prove_order_def orderDur_def
      Let_def ex_full_def ex_base_def ex_prove_state_def ex_prove_lib_def slotTime_def BaseTime_def SlotDuration_def un_be_def)

lemma ex_prove_run: "\<exists>t. addSegProof ex_prove_lib ex_prove_msg ex_prove_state = (Inr (), t)"
proof -
  let ?L = ex_prove_lib and ?s = ex_prove_state
  have chk: "checkChal ?L ceInfo ex_prove_msg ?s = (Inr (ex_chal, [], 172800), ?s)"
    by (simp add: checkChal_def ex_prove_lib_def ex_prove_msg_def ex_prove_state_def ex_chal_def)
  have look: "lookupOrder ?L (5, 6) ?s = (Inr ex_prove_order, ?s)"
    "lookupUser ?L 5 ?s = (Inr (mk_segPerUser lib0 5 [] 1), ?s)"
    by (simp_all add: lookupOrder_def lookupUser_def ex_prove_state_def)
  have ns: "chalNonce ?L (5, 6) 1 (oi_ns ex_prove_order) ?s = oi_ns ex_prove_order"
    by (simp add: chalNonce_def Let_def ex_prove_order_def sget_def base_get_def smtGet_def list_trie_def
        ex_prove_lib_def ex_prove_state_def orderFullKey_def meta_defs)
  have save: "\<exists>t. saveProof ?L ex_prove_msg (5, 6) 1 172800 ex_prove_order ?s = (Inr (), t)"
    by (simp add: saveProof_def Let_def add_value_def ex_prove_order_def ex_order_def new_PostIncome_def ex_prove_lib_def
        ex_prove_state_def sput_def tds_put_ok saveIncome_def savePostIncomeAt_def saveAccIncome_def add_acc_value_def
        new_AccPostIncome_def Serialize_def sget_def base_get_def smtGet_def list_trie_def orderFullKey_def meta_defs)
  have fields: "scp_UserID ex_chal = 5" "scp_ProID ex_chal = 6" "scp_Epoch ex_chal = 1"
    "scp_Size ex_chal = DefaultSegSize" "oi_prove ex_prove_order = 0"
    by (simp_all add: ex_chal_def ex_prove_order_def ex_order_def)
  have lib: "lb_newChallenge ?L = (\<lambda>v. Some)" "lb_verifyProof ?L = (\<lambda>v c p. Some True)"
    by (simp_all add: ex_prove_lib_def)
  show ?thesis
    using save ex_prove_totals by (simp add: addSegProof_def Let_def chk look ns fields lib newChal_def checkProof_def)
qed

theorem proof_paid_once_witness:
  "\<exists>t. addSegProof ex_prove_lib ex_prove_msg ex_prove_state = (Inr (), t) \<and>
     pi_Value (oi_income (order_now ex_prove_lib (5, 6) t)) = Some 172800 \<and>
     (\<forall>u' t'. addSegProof ex_prove_lib ex_prove_msg t \<noteq> (Inr u', t'))"
proof -
  obtain t where run: "addSegProof ex_prove_lib ex_prove_msg ex_prove_state = (Inr (), t)"
    using ex_prove_run by blast
  have dec: "decode (lb_cSegChalParams ex_prove_lib) zero_SegChalParams (msg_Params ex_prove_msg) = Some ex_chal"
    by (simp add: ex_prove_lib_def ex_prove_msg_def)
  have pair: "(5, 6) = (scp_UserID ex_chal, scp_ProID ex_chal)" "scp_Epoch ex_chal + 1 \<noteq> 0" "scp_Price ex_chal = Some 172800"
    by (simp_all add: ex_chal_def)
  have start: "pi_Value (oi_income (order_now ex_prove_lib (5, 6) ex_prove_state)) = Some 0"
    by (simp add: order_now_def ex_prove_state_def ex_prove_order_def ex_order_def new_PostIncome_def)
  from proof_paid_once [OF run dec pair(1,2)] dec pair start run show ?thesis
    by (metis add_0 option.inject order_refl)
qed

end
