(* ===== verification/ProOrderSafe.thy ===== *)
theory ProOrderSafe
  imports ProOrder OrderLife "HOL-Library.Multiset"
begin

text \<open>
  What a provider signs: the size and the price of a sequence are those of the segments received
  for it, so that the data chain accepts what both parties signed.
\<close>

declare bnd_ret [simp]

section \<open>Counting segments\<close>

lemma segCount_eq: "segCount segs = (\<Sum>x\<leftarrow>segs. as_Length x)"
proof -
  have "foldl (\<lambda>n seg. n + as_Length seg) k segs = k + (\<Sum>x\<leftarrow>segs. as_Length x)" for k
    by (induction segs arbitrary: k) (simp_all add: add.assoc)
  then show ?thesis
    by (simp add: segCount_def)
qed

lemma segCount_Push: "segCount (AggSegs_Push q s) = segCount q + as_Length s"
  by (induction q rule: rev_induct) (simp_all add: segCount_eq AggSegs_Push_def Let_def add.assoc)

lemma segCount_runs: "segCount (AggSegs_runs x ys) = as_Length x + segCount ys"
  by (induction x ys rule: AggSegs_runs.induct) (simp_all add: segCount_eq add.assoc)

lemma segCount_filter: "segCount (filter (\<lambda>x. as_Length x \<noteq> 0) q) = segCount q"
  by (induction q) (simp_all add: segCount_eq)

lemma segCount_perm: "mset p = mset q \<Longrightarrow> segCount p = segCount q"
  unfolding segCount_eq by (metis mset_map sum_mset_sum_list)

lemma segCount_Merge:
  assumes "\<forall>q. mset (srt q) = mset q"
  shows "segCount (AggSegs_Merge srt q) = segCount q"
proof (cases "srt q")
  case Nil
  then have "q = []"
    using assms by (metis mset_zero_iff)
  with Nil show ?thesis
    by (simp add: AggSegs_Merge_def)
next
  case (Cons x xs)
  then have "segCount (AggSegs_Merge srt q) = segCount (srt q)"
    by (simp add: AggSegs_Merge_def segCount_filter segCount_runs) (simp add: segCount_eq)
  also have "\<dots> = segCount q"
    using assms by (intro segCount_perm) simp
  finally show ?thesis .
qed

section \<open>The account of a sequence\<close>

text \<open>The sequence opened as \<open>q0\<close> holds \<open>k\<close> segments and is charged for \<open>c\<close> of them.\<close>

definition counted :: "OrderSeq \<Rightarrow> SignedOrder \<Rightarrow> nat \<Rightarrow> nat \<Rightarrow> ProOrder \<Rightarrow> bool" where
  "counted q0 base k c o' \<longleftrightarrow> po_base o' = Some base \<and> po_seqState o' = OrderSeq_Ack \<and> (\<exists>sq bp sp. po_seq o' = Some sq \<and> so_Price base = Some bp \<and>
     ob_SegPrice (so_OrderBase base) = Some sp \<and> segCount (os_Segments (sos_OrderSeq sq)) = of_nat k \<and>
     os_Size (sos_OrderSeq sq) = so_Size base + of_nat c * DefaultSegSize \<and> os_Price (sos_OrderSeq sq) = Some (bp + sp * int c) \<and>
     os_UserID (sos_OrderSeq sq) = os_UserID q0 \<and> os_ProID (sos_OrderSeq sq) = os_ProID q0 \<and>
     os_Nonce (sos_OrderSeq sq) = os_Nonce q0 \<and> os_SeqNum (sos_OrderSeq sq) = os_SeqNum q0)"

definition maxSegs :: nat where "maxSegs = 5000000"

definition filled :: "OrderSeq \<Rightarrow> SignedOrder \<Rightarrow> ProOrder \<Rightarrow> bool" where
  "filled q0 base o' \<longleftrightarrow> (\<exists>c \<le> maxSegs. counted q0 base c c o')"

lemma counted_same:
  "po_base o2 = po_base o1 \<Longrightarrow> po_seq o2 = po_seq o1 \<Longrightarrow> po_seqState o2 = po_seqState o1 \<Longrightarrow> counted q0 base k c o2 = counted q0 base k c o1"
  by (simp add: counted_def)

lemma keeps_updOr: "(\<And>o'. Q o' \<Longrightarrow> Q (f o')) \<Longrightarrow> keeps (\<lambda>(o', n). Q o') (updOr f)"
  unfolding updOr_def by (auto simp: keeps_def)

lemma keeps_on_pn: "keeps (\<lambda>(o', n). Q o') (on_pn m)"
  by (auto simp: keeps_def zoom_def split: prod.splits)

text \<open>Everything but the two updates of the sequence leaves the account alone.\<close>

lemma keeps_segTriple: "keeps P (segTriple sg)"
  unfolding segTriple_def by (intro keeps_rules) (auto split: list.split intro: keeps_rules)

lemma keeps_verifierAdd: "(\<And>o' xs. Q o' \<Longrightarrow> Q (o'\<lparr>po_added := xs\<rparr>)) \<Longrightarrow> keeps (\<lambda>(o', n). Q o') (verifierAdd P x)"
  unfolding verifierAdd_def by (intro keeps_bnd keeps_gets keeps_deref keeps_seq keeps_reject keeps_updOr)

lemma keeps_saves:
  "keeps (\<lambda>(o', n). Q o') (saveOrderBase L)" "keeps (\<lambda>(o', n). Q o') (proSaveOrderState L P)"
  "keeps (\<lambda>(o', n). Q o') (saveOrderSeq L)" "keeps (\<lambda>(o', n). Q o') (saveSeqState L P)" "keeps (\<lambda>(o', n). Q o') (savePay L P)"
  unfolding saveOrderBase_def proSaveOrderState_def saveOrderSeq_def saveSeqState_def savePay_def Serialize_def
  by (intro keeps_bnd keeps_gets keeps_deref keeps_orErr keeps_dropErr keeps_on_pn)+

lemma pushSeg_counted:
  assumes "counted q0 base k c o'" and "\<forall>q. mset (lb_sortAggSegs L q) = mset q"
  shows "counted q0 base (Suc k) c (pushSeg L sid o')"
  using assms(1) by (auto simp: counted_def pushSeg_def segCount_Merge [OF assms(2)] segCount_Push)

lemma chargeSeg_triple:
  "triple (\<lambda>(o', n). counted q0 base k c o') chargeSeg (\<lambda>_ (o', n). counted q0 base k (Suc c) o') R"
proof (rule tripleI)
  fix s :: "ProOrder \<times> ProNode" and x t
  assume "case s of (o', n) \<Rightarrow> counted q0 base k c o'" "chargeSeg s = (Inr x, t)"
  then show "case t of (o', n) \<Rightarrow> counted q0 base k (Suc c) o'"
    by (cases s) (auto simp: counted_def chargeSeg_def updOr_def algebra_simps)
next
  fix s :: "ProOrder \<times> ProNode" and e t
  assume "case s of (o', n) \<Rightarrow> counted q0 base k c o'" "chargeSeg s = (Inl e, t)"
  then show "R t"
    by (cases s) (auto simp: counted_def chargeSeg_def updOr_def)
qed

abbreviation onO :: "(ProOrder \<Rightarrow> bool) \<Rightarrow> ProOrder \<times> ProNode \<Rightarrow> bool" where
  "onO Q \<equiv> (\<lambda>(o', n). Q o')"

lemma counted_upd [simp]:
  "counted q0 base k c (o'\<lparr>po_added := xs\<rparr>) = counted q0 base k c o'" "counted q0 base k c (o'\<lparr>po_di := di\<rparr>) = counted q0 base k c o'"
  "counted q0 base k c (o'\<lparr>po_availTime := at\<rparr>) = counted q0 base k c o'"
  by (simp_all add: counted_def)

lemma storeData_triple:
  assumes "\<forall>q. mset (lb_sortAggSegs L q) = mset q"
  shows "triple (onO (counted q0 base c c)) (storeData L P sg) (\<lambda>_. onO (\<lambda>o'. \<exists>k \<le> Suc c. counted q0 base k k o')) (onO (\<lambda>o'. \<exists>k \<le> Suc c. counted q0 base k k o'))"
proof -
  let ?R = "onO (\<lambda>o'. \<exists>k \<le> Suc c. counted q0 base k k o')"
  have R: "counted q0 base c c o' \<Longrightarrow> \<exists>k \<le> Suc c. counted q0 base k k o'" for o'
    by (rule exI [of _ c]) simp
  have push: "triple (onO (counted q0 base c c)) (updOr (pushSeg L (bs_segID sg))) (\<lambda>_. onO (counted q0 base (Suc c) c)) ?R"
    unfolding updOr_def by (rule triple_modify) (auto intro: pushSeg_counted [OF _ assms])
  have tail: "triple (onO (counted q0 base (Suc c) (Suc c)))
      (seq (dropErr (saveOrderSeq L)) (seq (updOr (\<lambda>o'. o'\<lparr>po_di := (po_di o')\<lparr>di_Received := di_Received (po_di o') + DefaultSegSize\<rparr>\<rparr>)) (savePay L P)))
      (\<lambda>_. ?R) ?R"
    by (intro triple_post [OF triple_err [OF triple_keeps]] keeps_seq keeps_dropErr keeps_saves keeps_updOr) auto
  show ?thesis
    unfolding storeData_def Let_def
    by (intro triple_bnd [OF triple_err [OF triple_keeps]] triple_gets keeps_gets keeps_segTriple keeps_seq_triple
        keeps_reject keeps_verifierAdd keeps_on_pn triple_seq [OF push] triple_seq [OF chargeSeg_triple] tail) (auto intro: R)
qed

lemma counted_room:
  assumes "counted q0 base c c o'" and "c \<le> maxSegs" and "po_seq o' = Some sq"
    and "\<not> os_Size (sos_OrderSeq sq) - so_Size base > seqMaxSize"
  shows "Suc c \<le> maxSegs"
proof -
  have "os_Size (sos_OrderSeq sq) - so_Size base = of_nat c * DefaultSegSize"
    using assms(1,3) by (auto simp: counted_def)
  then have "of_nat c * DefaultSegSize \<le> seqMaxSize"
    using assms(4) by simp
  moreover have "unat (of_nat c * DefaultSegSize) = c * 253952"
    using assms(2) by (simp add: DefaultSegSize_def maxSegs_def unat_word_ariths unat_of_nat)
  ultimately have "c * 253952 \<le> 1099511627776"
    by (simp add: word_le_nat_alt seqMaxSize_def)
  then show ?thesis
    by (simp add: maxSegs_def)
qed

text \<open>Receiving data keeps the account, whatever the segment is and however the handler ends.\<close>

lemma handleData_filled:
  assumes "\<forall>q. mset (lb_sortAggSegs L q) = mset q"
  shows "keeps (onO (filled q0 base)) (handleData L P sg)"
proof (rule keeps_triple, rule triple_each)
  let ?F = "onO (filled q0 base)"
  fix s assume "?F s"
  then obtain c sq where c: "c \<le> maxSegs" "counted q0 base c c (fst s)" and sq: "po_seq (fst s) = Some sq" "po_base (fst s) = Some base"
    by (auto simp: filled_def counted_def split: prod.splits)
  let ?C = "onO (counted q0 base c c)"
  have F: "?F t" if "?C t" for t
    using that c(1) by (auto simp: filled_def)
  have store: "triple ?C (storeData L P sg) (\<lambda>_. ?F) ?F" if "Suc c \<le> maxSegs"
    using that by (intro triple_post [OF triple_err [OF storeData_triple [OF assms]]]) (auto simp: filled_def intro: order_trans)
  have "triple (\<lambda>t. t = s) (handleData L P sg) (\<lambda>_. ?F) ?F"
    unfolding handleData_def
  proof (rule triple_read_at, rule triple_pre [where P' = ?C], goal_cases)
    case 1
    show ?case
      unfolding sq orErr_def option.case bnd_ret
      by (intro triple_check triple_if keeps_seq_triple triple_bnd [OF triple_err [OF triple_keeps]]
            keeps_on_pn keeps_updOr triple_fail store; (intro F counted_room [OF c(2,1) sq(1)])?; auto)
  next
    case (2 t)
    then show ?case
      using c(2) by (cases s) auto
  qed
  then show "triple (\<lambda>t. t = s) (handleData L P sg) (\<lambda>_. ?F) ?F" .
qed

text \<open>A new sequence has the size and price of the order and, sent empty, no segments.\<close>

lemma takeSeq_triple:
  assumes "os_Segments (sos_OrderSeq sq) = []" and "ob_SegPrice (so_OrderBase base) = Some sp"
  shows "triple (onO (\<lambda>o'. po_base o' = Some base)) (takeSeq L P base sq) (\<lambda>_. onO (counted (sos_OrderSeq sq) base 0 0)) (\<lambda>_. True)"
proof -
  let ?C = "onO (counted (sos_OrderSeq sq) base 0 0)"
  have set: "triple (onO (\<lambda>o'. po_base o' = Some base)) (updOr (\<lambda>o'. o'\<lparr>po_seq := Some sq, po_seqState := OrderSeq_Ack\<rparr>)) (\<lambda>_. ?C) (\<lambda>_. True)"
    if "so_Price base = Some bp" "os_Price (sos_OrderSeq sq) = Some bp" "os_Size (sos_OrderSeq sq) = so_Size base" for bp
    unfolding updOr_def using assms that by (intro triple_modify) (auto simp: counted_def segCount_eq)
  have tail: "triple ?C
      (bnd (on_pn unixNow) (\<lambda>now.
       seq (updOr (\<lambda>o'. o'\<lparr>po_seqTime := now, po_seqNum := po_seqNum o' + 1\<rparr>))
      (seq (saveOrderSeq L) (seq (saveSeqState L P) (Serialize (lb_cSignedOrderSeq L) sq))))) (\<lambda>_. ?C) (\<lambda>_. True)"
    unfolding Serialize_def
    by (intro triple_err [OF triple_keeps] keeps_bnd keeps_seq keeps_on_pn keeps_updOr keeps_saves keeps_orErr) (auto simp: counted_def)
  show ?thesis
    unfolding takeSeq_def by (intro triple_deref triple_check triple_seq [OF set] tail) auto
qed

lemma handleCreateSeq_filled:
  assumes "handleCreateSeq L P sq (o0, n0) = (Inr b, (o1, n1))" and "po_seqState o0 \<noteq> OrderSeq_Ack"
    and "os_Segments (sos_OrderSeq sq) = []" and "po_base o0 = Some base" and "ob_SegPrice (so_OrderBase base) = Some sp"
  shows "filled (sos_OrderSeq sq) base o1"
proof -
  obtain a n' where "takeSeq L P base sq (o0\<lparr>po_availTime := a\<rparr>, n') = (Inr b, (o1, n1))"
    using assms(1,2,4)
    by (auto simp: handleCreateSeq_def openFor_def updOr_def go_simps split: if_splits option.splits)
  then have "counted (sos_OrderSeq sq) base 0 0 o1"
    using triple_Inr [OF takeSeq_triple [OF assms(3,5)], where s = "(o0\<lparr>po_availTime := a\<rparr>, n')" and t = "(o1, n1)"] assms(4) by simp
  then show ?thesis
    unfolding filled_def by (intro exI [of _ 0]) simp
qed

section \<open>Keys known to both sides\<close>

text \<open>What the role manager verifies or signs with a key, the data chain verifies with the same key.\<close>

lemma GetPubKey_known:
  "rm_infos r u = Some ri \<Longrightarrow>
   GetPubKey L E u kt r = (Inr (case kt of KT_Secp256k1 \<Rightarrow> ri_ChainVerifyKey ri | KT_BLS \<Rightarrow> ri_BlsVerifyKey ri), r)"
  by (simp add: GetPubKey_def rm_get_def bnd_def gets_def ret_def)

lemma verify_type:
  assumes "keyTypeOf (sig_Type sig) = Some kt"
    and "lb_sigVerify L (case kt of KT_Secp256k1 \<Rightarrow> ri_ChainVerifyKey ri | KT_BLS \<Rightarrow> ri_BlsVerifyKey ri) h (sig_Data sig) = Some True"
  shows "verify L (Some ri) h sig s = (Inr (), s)"
  using assms by (auto simp: keyTypeOf_def verify_def deref_def orErr_def split: if_splits)

lemma RoleVerify_known:
  assumes "rm_infos r u = Some ri" and "RoleVerify L E u h sig r = (Inr True, r')"
  shows "r' = r \<and> (\<forall>s. verify L (Some ri) h sig s = (Inr (), s))"
  using assms(2)
  unfolding RoleVerify_def bnd_Inr seq_Inr orErr_Inr reject_Inr by (auto simp: GetPubKey_known [OF assms(1)] intro!: verify_type)

lemma RoleSign_known:
  assumes "rm_infos r u = Some ri" and "RoleSign L E u h SigSecp256k1 r = (Inr sig, r')"
    and "\<forall>addr m d. en_walletSign E addr m = Some d \<longrightarrow> lb_sigVerify L addr m d = Some True"
  shows "r' = r \<and> (\<forall>s. verify L (Some ri) h sig s = (Inr (), s))"
  using assms(2,3)
  unfolding RoleSign_def bnd_Inr orErr_Inr ret_Inr by (auto simp: GetPubKey_known [OF assms(1)] intro!: verify_type)

lemma verifyBy_known:
  assumes "verifyBy L P u h sig w (o', n) = (Inr x, t)" and "rm_infos (pn_rm n) u = Some ri"
  shows "t = (o', n)" and "verify L (Some ri) h sig st = (Inr (), st)"
  using assms(1) unfolding verifyBy_def bnd_Inr zoom_Inr reject_Inr
  by (auto dest!: RoleVerify_known [OF assms(2)])

lemma signHash_known:
  assumes "signHash L P h (o', n) = (Inr sig, t)" and "rm_infos (pn_rm n) (pn_localID n) = Some ri"
    and "\<forall>addr m d. en_walletSign (pe_role P) addr m = Some d \<longrightarrow> lb_sigVerify L addr m d = Some True"
  shows "t = (o', n)" and "verify L (Some ri) h sig st = (Inr (), st)"
  using assms(1) unfolding signHash_def bnd_Inr zoom_Inr
  by (auto dest!: RoleSign_known [OF assms(2) _ assms(3)])

section \<open>Finishing a sequence\<close>

lemma verifyData_same: "verifyData P s = (Inr x, t) \<Longrightarrow> t = s"
  by (auto simp: verifyData_def go_simps)

lemma growBase_run:
  assumes "growBase (o', n) = (Inr base', t)" and "po_base o' = Some base" and "po_seq o' = Some sq"
  obtains p where "os_Price (sos_OrderSeq sq) = Some p" and "base' = base\<lparr>so_Size := os_Size (sos_OrderSeq sq), so_Price := Some p\<rparr>"
    and "t = (o'\<lparr>po_base := Some base'\<rparr>, n)"
  using assms by (auto simp: growBase_def curSeq_def updOr_def Let_def go_simps)

text \<open>The local sequence is the one the user sent, up to a merge that does not change the number of segments.\<close>

lemma matchSeq_run:
  assumes "matchSeq L P rem (o', n) = (Inr lh, t)" and "po_seq o' = Some sq"
    and "segs = AggSegs_Merge (lb_sortAggSegs L) (os_Segments (sos_OrderSeq sq))"
    and "AggSegs_Equal segs (os_Segments (sos_OrderSeq rem))"
  shows "t = (o'\<lparr>po_seq := Some (sq\<lparr>sos_OrderSeq := (sos_OrderSeq sq)\<lparr>os_Segments := segs\<rparr>\<rparr>)\<rparr>, n)"
    and "lh = SignedOrderSeq_Hash L (sq\<lparr>sos_OrderSeq := (sos_OrderSeq sq)\<lparr>os_Segments := segs\<rparr>\<rparr>)"
  using assms by (auto simp: matchSeq_def curSeq_def updOr_def Let_def go_simps)

text \<open>What the chain asks of the size and the price holds for a counted sequence.\<close>

lemma counted_settles:
  assumes "counted q0 base c c o'" and "c \<le> maxSegs" and "po_seq o' = Some sq" and "os_Price (sos_OrderSeq sq) = Some p"
    and "sos_OrderSeq so = sos_OrderSeq sq"
    and "\<And>h. SignedOrder_Hash (lb_keccak L) (lb_build L) (base\<lparr>so_Size := os_Size (sos_OrderSeq sq), so_Price := Some p\<rparr>) st = (Inr h, st) \<Longrightarrow>
      verify L (rl_base uri) h (sos_UserSig so) st = (Inr (), st) \<and> verify L (rl_base pri) h (sos_ProSig so) st = (Inr (), st)"
  shows "checkSeqSize L (uri, pri) base so p st = (Inr (), st)"
proof -
  obtain bp sp where bp: "so_Price base = Some bp" "ob_SegPrice (so_OrderBase base) = Some sp" and
    segs: "segCount (os_Segments (sos_OrderSeq sq)) = of_nat c" "os_Size (sos_OrderSeq sq) = so_Size base + of_nat c * DefaultSegSize" and
    p: "p = bp + sp * int c"
    using assms(1,3,4) by (auto simp: counted_def)
  have "sint (of_nat c :: u64) = int c"
    using assms(2) by (simp add: signed_of_nat signed_take_bit_int_eq_self maxSegs_def)
  then show ?thesis
    using assms(6) by (simp add: checkSeqSize_def assms(5) segs bp p Let_def deref_def SignedOrder_Hash_def add.commute)
qed

text \<open>The saves at the end do not touch the order in memory.\<close>

lemma recordSeq_run:
  assumes "recordSeq L P rem ssig osig (o', n) = (Inr b, (o2, n2))" and "po_seq o' = Some sq"
    and "so = sq\<lparr>sos_UserDataSig := sos_UserDataSig rem, sos_UserSig := sos_UserSig rem, sos_ProDataSig := ssig, sos_ProSig := osig\<rparr>"
  shows "po_seq o2 = Some so \<and> marshal (lb_cSignedOrderSeq L) so = Some b"
proof -
  have saves: "keeps (onO (\<lambda>o'. po_seq o' = Some so)) (seq (saveOrderBase L) (seq (saveOrderSeq L) (seq (saveSeqState L P) (seq (savePay L P)
      (Serialize (lb_cSignedOrderSeq L) so)))))"
    unfolding Serialize_def by (intro keeps_seq keeps_saves keeps_orErr)
  obtain o3 n3 where tail: "seq (saveOrderBase L) (seq (saveOrderSeq L) (seq (saveSeqState L P) (seq (savePay L P)
      (Serialize (lb_cSignedOrderSeq L) so)))) (o3, n3) = (Inr b, (o2, n2))" and "po_seq o3 = Some so"
    using assms(1,2) unfolding recordSeq_def curSeq_def updOr_def assms(3)
    by (auto simp: bnd_Inr zoom_Inr deref_def Let_def seq_def [of "modify _"])
  then have "po_seq o2 = Some so"
    using keepsD [OF saves, of "(o3, n3)"] by simp
  then show ?thesis
    using tail unfolding seq_Inr Serialize_def orErr_Inr by auto
qed

lemma finishSeq_run:
  assumes run: "finishSeq L P uid rem (o1, n1) = (Inr b, (o2, n2))"
    and seqs: "po_seq o1 = Some sq" "segs = AggSegs_Merge (lb_sortAggSegs L) (os_Segments (sos_OrderSeq sq))"
      "AggSegs_Equal segs (os_Segments (sos_OrderSeq rem))"
    and base: "po_base o1 = Some base"
    and q: "q = (sos_OrderSeq sq)\<lparr>os_Segments := segs\<rparr>"
    and keys: "rm_infos (pn_rm n1) uid = Some ur" "rm_infos (pn_rm n1) (pn_localID n1) = Some pr"
    and wallet: "\<forall>addr m d. en_walletSign (pe_role P) addr m = Some d \<longrightarrow> lb_sigVerify L addr m d = Some True"
  obtains so p where "po_seq o2 = Some so" "marshal (lb_cSignedOrderSeq L) so = Some b" "sos_OrderSeq so = q" "os_Price q = Some p"
    "\<And>st :: StateMgr. verify L (Some ur) (SignedOrderSeq_Hash L so) (sos_UserDataSig so) st = (Inr (), st)"
    "\<And>st :: StateMgr. verify L (Some pr) (SignedOrderSeq_Hash L so) (sos_ProDataSig so) st = (Inr (), st)"
    "\<And>h (st :: StateMgr). SignedOrder_Hash (lb_keccak L) (lb_build L) (base\<lparr>so_Size := os_Size q, so_Price := Some p\<rparr>) st = (Inr h, st) \<Longrightarrow>
      verify L (Some ur) h (sos_UserSig so) st = (Inr (), st) \<and> verify L (Some pr) h (sos_ProSig so) st = (Inr (), st)"
proof -
  let ?sq = "sq\<lparr>sos_OrderSeq := q\<rparr>"
  let ?o = "o1\<lparr>po_seq := Some ?sq\<rparr>"
  obtain lh s1 s2 s3 ssig s4 base' s5 sh s6 s7 osig s8 where match: "matchSeq L P rem (o1, n1) = (Inr lh, s1)"
    and data: "verifyData P s1 = (Inr (), s2)"
    and udata: "verifyBy L P uid lh (sos_UserDataSig rem) ''order seq sign is wrong'' s2 = (Inr (), s3)"
    and pdata: "signHash L P lh s3 = (Inr ssig, s4)" and grow: "growBase s4 = (Inr base', s5)"
    and sh: "SignedOrder_Hash (lb_keccak L) (lb_build L) base' s5 = (Inr sh, s6)"
    and usig: "verifyBy L P uid sh (sos_UserSig rem) ''order sign is wrong'' s6 = (Inr (), s7)"
    and psig: "signHash L P sh s7 = (Inr osig, s8)" and rec: "recordSeq L P rem ssig osig s8 = (Inr b, (o2, n2))"
    using run unfolding finishSeq_def bnd_Inr seq_Inr by auto
  let ?so = "?sq\<lparr>sos_UserDataSig := sos_UserDataSig rem, sos_UserSig := sos_UserSig rem, sos_ProDataSig := ssig, sos_ProSig := osig\<rparr>"
  have s1: "s1 = (?o, n1)" "lh = SignedOrderSeq_Hash L ?sq"
    using matchSeq_run [OF match seqs] by (simp_all add: q)
  have s3: "s3 = (?o, n1)"
    using verifyData_same [OF data] s1 verifyBy_known(1) [OF udata [unfolded verifyData_same [OF data] s1(1)] keys(1)] by simp
  note ud = verifyBy_known(2) [OF udata [unfolded verifyData_same [OF data] s1(1)] keys(1)]
  note pd = signHash_known [OF pdata [unfolded s3] keys(2) wallet]
  obtain p where p: "os_Price q = Some p" and b': "base' = base\<lparr>so_Size := os_Size q, so_Price := Some p\<rparr>" and s5: "s5 = (?o\<lparr>po_base := Some base'\<rparr>, n1)"
    by (rule growBase_run [OF grow [unfolded pd(1)], of base ?sq]) (simp_all add: base)
  have s6: "s6 = s5" and sh': "SignedOrder_Hash (lb_keccak L) (lb_build L) base' st = (Inr sh, st)" for st :: StateMgr
    using sh by (auto simp: SignedOrder_Hash_def go_simps b' deref_def)
  note us = verifyBy_known [OF usig [unfolded s6 s5] keys(1)]
  note ps = signHash_known [OF psig [unfolded us(1)] keys(2) wallet]
  have out: "po_seq o2 = Some ?so \<and> marshal (lb_cSignedOrderSeq L) ?so = Some b"
    using recordSeq_run [OF rec [unfolded ps(1)]] by simp
  show thesis
    by (rule that [of ?so p]) (use out p ud pd(2) us(2) ps(2) sh' s1(2) in \<open>auto simp: SignedOrderSeq_Hash_def b'\<close>)
qed

lemma filled_runs:
  assumes "\<forall>q. mset (lb_sortAggSegs L q) = mset q" and "onO (filled q0 base) s"
  shows "onO (filled q0 base) (foldl (\<lambda>s sg. snd (handleData L P sg s)) s sgs)"
  using assms(2)
proof (induction sgs arbitrary: s)
  case (Cons sg sgs)
  show ?case
    using Cons.IH [OF keepsD [OF handleData_filled [OF assms(1)] Cons.prems]] by simp
qed simp

lemma filled_finish:
  assumes "handleFinishSeq L P uid rem (o1, n1) = (Inr b, s2)" and "filled q0 base o1"
  obtains a n where "finishSeq L P uid rem (o1\<lparr>po_availTime := a\<rparr>, n) = (Inr b, s2)" and "pn_rm n = pn_rm n1" and "pn_localID n = pn_localID n1"
  using assms by (auto simp: handleFinishSeq_def openFor_def updOr_def unixNow_def filled_def counted_def go_simps split: if_splits option.splits)

text \<open>C26: What a provider signs, the data chain accepts: when a sequence is opened empty, any
segments arrive in any order and with any outcome, and the user then asks to finish it naming the
segments that were received, a successful finish returns a sequence whose size, price and four
signatures pass the checks of the chain's \<open>addSeq\<close> against the same open order, whenever the
chain knows the two parties by the keys the provider knows them by.\<close>

theorem provider_seq_settles:
  assumes "\<forall>q. mset (lb_sortAggSegs L q) = mset q"
    and "\<forall>addr m d. en_walletSign (pe_role P) addr m = Some d \<longrightarrow> lb_sigVerify L addr m d = Some True"
    and "handleCreateSeq L P sq0 (o0, n0) = (Inr b0, s0)" and "po_seqState o0 \<noteq> OrderSeq_Ack"
    and "os_Segments (sos_OrderSeq sq0) = []" and "po_base o0 = Some base" and "ob_SegPrice (so_OrderBase base) = Some sp"
    and "foldl (\<lambda>s sg. snd (handleData L P sg s)) s0 sgs = (o1, n1)" and "po_seq o1 = Some sq1"
    and "AggSegs_Equal (AggSegs_Merge (lb_sortAggSegs L) (os_Segments (sos_OrderSeq sq1))) (os_Segments (sos_OrderSeq rem))"
    and "handleFinishSeq L P uid rem (o1, n1) = (Inr b, (o2, n2))"
    and "os_UserID (sos_OrderSeq sq0) = uid" and "os_ProID (sos_OrderSeq sq0) = pn_localID n1"
    and "rm_infos (pn_rm n1) uid = Some ur" and "rm_infos (pn_rm n1) (pn_localID n1) = Some pr"
    and "lookupRole L uid st = (Inr uri, st)" and "rl_base uri = Some ur"
    and "lookupRole L (pn_localID n1) st = (Inr pri, st)" and "rl_base pri = Some pr"
  shows "\<exists>so p. po_seq o2 = Some so \<and> marshal (lb_cSignedOrderSeq L) so = Some b \<and> os_Price (sos_OrderSeq so) = Some p \<and>
    verifySeqData L (lookupRole L) so st = (Inr (uri, pri), st) \<and> checkSeqSize L (uri, pri) base so p st = (Inr (), st)"
proof -
  let ?segs = "AggSegs_Merge (lb_sortAggSegs L) (os_Segments (sos_OrderSeq sq1))"
  let ?sq = "sq1\<lparr>sos_OrderSeq := (sos_OrderSeq sq1)\<lparr>os_Segments := ?segs\<rparr>\<rparr>"
  have "filled (sos_OrderSeq sq0) base (fst s0)"
    using handleCreateSeq_filled [OF _ assms(4-7), of L P n0 b0 "fst s0" "snd s0"] assms(3) by simp
  then have f: "filled (sos_OrderSeq sq0) base o1"
    using filled_runs [OF assms(1), of "sos_OrderSeq sq0" base s0 P sgs] assms(8) by (simp add: case_prod_beta)
  obtain a n where run: "finishSeq L P uid rem (o1\<lparr>po_availTime := a\<rparr>, n) = (Inr b, (o2, n2))" and n: "pn_rm n = pn_rm n1" "pn_localID n = pn_localID n1"
    using filled_finish [OF assms(11) f] .
  obtain so p where so: "po_seq o2 = Some so" "marshal (lb_cSignedOrderSeq L) so = Some b" "sos_OrderSeq so = sos_OrderSeq ?sq" "os_Price (sos_OrderSeq ?sq) = Some p"
    and dsig: "\<And>st :: StateMgr. verify L (Some ur) (SignedOrderSeq_Hash L so) (sos_UserDataSig so) st = (Inr (), st)"
      "\<And>st :: StateMgr. verify L (Some pr) (SignedOrderSeq_Hash L so) (sos_ProDataSig so) st = (Inr (), st)"
    and osig: "\<And>h (st :: StateMgr). SignedOrder_Hash (lb_keccak L) (lb_build L) (base\<lparr>so_Size := os_Size (sos_OrderSeq ?sq), so_Price := Some p\<rparr>) st = (Inr h, st) \<Longrightarrow>
      verify L (Some ur) h (sos_UserSig so) st = (Inr (), st) \<and> verify L (Some pr) h (sos_ProSig so) st = (Inr (), st)"
    by (rule finishSeq_run [OF run, of sq1 ?segs base "sos_OrderSeq ?sq" ur pr]) (use assms f n in \<open>auto simp: filled_def counted_def\<close>)
  obtain c where c: "c \<le> maxSegs" "counted (sos_OrderSeq sq0) base c c o1"
    using f by (auto simp: filled_def)
  then have c': "counted (sos_OrderSeq sq0) base c c (o1\<lparr>po_seq := Some ?sq\<rparr>)"
    using assms(9) by (auto simp: counted_def segCount_Merge [OF assms(1)])
  have "checkSeqSize L (uri, pri) base so p st = (Inr (), st)"
    by (rule counted_settles [OF c' c(1), of ?sq]) (use so osig assms(17,19) in auto)
  moreover have "os_UserID (sos_OrderSeq so) = uid" "os_ProID (sos_OrderSeq so) = pn_localID n1"
    using c(2) assms(9,12,13) so(3) by (auto simp: counted_def)
  then have "verifySeqData L (lookupRole L) so st = (Inr (uri, pri), st)"
    using assms(16-19) dsig by (simp add: verifySeqData_def)
  ultimately show ?thesis
    using so by auto
qed

section \<open>An example\<close>

text \<open>User 5 sends one segment for the second sequence of an order at provider 6.\<close>

definition ex_konst :: "'a codec" where
  "ex_konst = (tab_codec [])\<lparr>marshal := \<lambda>_. Some [1]\<rparr>"

definition ex_plib :: lib where
  "ex_plib = lib0\<lparr>lb_cSignedOrderSeq := ex_konst, lb_cOrderSeq := ex_konst, lb_cSignedOrder := ex_konst\<rparr>"

definition ex_penv :: penv where
  "ex_penv = \<lparr>pe_role = env0, pe_storeInfo = (\<lambda>_. None), pe_balance = (\<lambda>_. None), pe_segPutFail = (\<lambda>_. False), pe_dvNewFail = (\<lambda>_. False),
     pe_dvAddFail = (\<lambda>_ _. False), pe_dvResult = (\<lambda>_ _. Some True), pe_cDataInfo = ex_konst, pe_cNonceState = ex_konst,
     pe_cSeqState = ex_konst, pe_cQuotation = ex_konst\<rparr>"

definition ex_user_role :: RoleInfo where "ex_user_role = zero_RoleInfo\<lparr>ri_RoleID := 5, ri_ChainVerifyKey := [1]\<rparr>"
definition ex_pro_role :: RoleInfo where "ex_pro_role = zero_RoleInfo\<lparr>ri_RoleID := 6, ri_ChainVerifyKey := [2]\<rparr>"

definition ex_pnode :: ProNode where
  "ex_pnode = \<lparr>pn_localID = 6, pn_quo = \<lparr>qu_ProID = 6, qu_TokenIndex = 0, qu_SegPrice = 1, qu_PiecePrice = DefaultPiecePrice\<rparr>,
     pn_ds = (\<lambda>_. None), pn_segs = (\<lambda>_. None), pn_rm = ex_rm\<lparr>rm_infos := [5 \<mapsto> ex_user_role, 6 \<mapsto> ex_pro_role]\<rparr>,
     pn_st = ex_state, pn_clock = (\<lambda>_. 0), pn_reads = 0\<rparr>"

definition ex_porder :: ProOrder where
  "ex_porder = (new_ProOrder 5)\<lparr>po_base := Some ex_base, po_orderState := Order_Ack, po_nonce := 1, po_seqNum := 1,
     po_seqState := OrderSeq_Done, po_dv := Some [9], po_ready := True\<rparr>"

definition ex_seq0 :: SignedOrderSeq where
  "ex_seq0 = zero_SignedOrderSeq\<lparr>sos_OrderSeq := \<lparr>os_UserID = 5, os_ProID = 6, os_Nonce = 0, os_SeqNum = 1,
     os_Size = DefaultSegSize, os_Price = Some 2, os_Segments = []\<rparr>\<rparr>"

definition ex_seg :: BaseSegment where
  "ex_seg = \<lparr>bs_segID = CreateSegmentID (replicate 20 1) 3 0 1, bs_data = Prefix_Serialize \<lparr>px_Version = 1, px_Policy = 1, px_DataCount = 1,
     px_ParityCount = 1, px_TagFlag = 1, px_SegSize = 0\<rparr> @ replicate 8 0\<rparr>"

definition ex_rem :: SignedOrderSeq where
  "ex_rem = ex_seq0\<lparr>sos_OrderSeq := (sos_OrderSeq ex_seq0)\<lparr>os_Segments := [\<lparr>as_BucketID = 3, as_Start = 0, as_Length = 1, as_ChunkID = 1\<rparr>]\<rparr>,
     sos_UserDataSig := \<lparr>sig_Type = SigSecp256k1, sig_Data = [1]\<rparr>, sos_UserSig := \<lparr>sig_Type = SigSecp256k1, sig_Data = [1]\<rparr>\<rparr>"

definition ex_chain :: StateMgr where
  "ex_chain = ex_state\<lparr>rInfo := [5 \<mapsto> \<lparr>rl_base = Some ex_user_role, rl_val = zero_roleValue\<rparr>,
     6 \<mapsto> \<lparr>rl_base = Some ex_pro_role, rl_val = zero_roleValue\<rparr>]\<rparr>"

lemma ex_konst_marshal [simp]: "marshal ex_konst x = Some [1]"
  by (simp add: ex_konst_def)

lemma ex_plib_fields [simp]:
  "lb_cSignedOrderSeq ex_plib = ex_konst" "lb_cOrderSeq ex_plib = ex_konst" "lb_cSignedOrder ex_plib = ex_konst"
  "lb_sortAggSegs ex_plib = insort_segs" "lb_putFail ex_plib = (\<lambda>_ _. False)" "lb_sigVerify ex_plib = (\<lambda>k m d. Some (d = k))"
  by (simp_all add: ex_plib_def)

lemma ex_seg_fields: "segTriple ex_seg s = (Inr (bs_segID ex_seg, [], replicate 4 0), s)"
  by (simp add: ex_seg_def segTriple_def Segment_Content_def Segment_Tags_def DefaultPrefixLen_def tagCount_def TagMap_def Let_def orFail_def upt_rec)

lemma mset_insort_segs: "mset (insort_segs q) = mset q"
proof -
  have "mset (insert_seg x ys) = add_mset x (mset ys)" for x ys
    by (induction ys) auto
  then show ?thesis
    by (induction q) (simp_all add: insort_segs_def)
qed

lemma ex_created: "\<exists>n. handleCreateSeq ex_plib ex_penv ex_seq0 (ex_porder, ex_pnode) =
    (Inr [1], (ex_porder\<lparr>po_seq := Some ex_seq0, po_seqState := OrderSeq_Ack, po_seqNum := 2\<rparr>, n)) \<and>
    pn_localID n = 6 \<and> pn_segs n = (\<lambda>_. None) \<and> pn_rm n = pn_rm ex_pnode \<and> pn_clock n = (\<lambda>_. 0)"
  by (simp add: handleCreateSeq_def takeSeq_def openFor_def ex_porder_def ex_pnode_def new_ProOrder_def ex_seq0_def ex_base_def zero_SignedOrderSeq_def
      updOr_def unixNow_def saveOrderSeq_def saveSeqState_def Serialize_def pn_put_def ex_penv_def orErr_def deref_def orderMaxSize_def DefaultSegSize_def)

lemma ex_received:
  assumes "pn_localID n = 6" "pn_segs n = (\<lambda>_. None)" "pn_rm n = pn_rm ex_pnode" "pn_clock n = (\<lambda>_. 0)"
  shows "\<exists>o1 n1 sq1. snd (handleData ex_plib ex_penv ex_seg (ex_porder\<lparr>po_seq := Some ex_seq0, po_seqState := OrderSeq_Ack, po_seqNum := 2\<rparr>, n)) = (o1, n1) \<and>
    po_seq o1 = Some sq1 \<and> sos_OrderSeq sq1 = \<lparr>os_UserID = 5, os_ProID = 6, os_Nonce = 0, os_SeqNum = 1, os_Size = DefaultSegSize + DefaultSegSize, os_Price = Some 4,
      os_Segments = os_Segments (sos_OrderSeq ex_rem)\<rparr> \<and> po_base o1 = Some ex_base \<and> po_orderState o1 = Order_Ack \<and> po_seqState o1 = OrderSeq_Ack \<and>
    po_ready o1 \<and> po_dv o1 = Some [9] \<and> pn_localID n1 = 6 \<and> pn_rm n1 = pn_rm ex_pnode \<and> pn_clock n1 = (\<lambda>_. 0)"
proof -
  have id: "GetBucketID (bs_segID ex_seg) = 3" "GetStripeID (bs_segID ex_seg) = 0" "GetChunkID (bs_segID ex_seg) = 1"
    by (simp_all add: ex_seg_def)
  show ?thesis
    using assms
    by (simp add: handleData_def storeData_def ex_porder_def ex_seq0_def ex_base_def zero_SignedOrderSeq_def new_ProOrder_def orErr_def updOr_def unixNow_def
        id ex_seg_fields verifierAdd_def ex_penv_def deref_def pushSeg_def chargeSeg_def saveOrderSeq_def Serialize_def pn_put_def savePay_def
        AggSegs_Push_def AggSegs_Merge_def insort_segs_def ex_rem_def seqMaxSize_def Let_def dropErr_def)
qed

lemma ex_finished:
  assumes "po_seq o1 = Some sq1" "sos_OrderSeq sq1 = \<lparr>os_UserID = 5, os_ProID = 6, os_Nonce = 0, os_SeqNum = 1, os_Size = DefaultSegSize + DefaultSegSize, os_Price = Some 4,
      os_Segments = os_Segments (sos_OrderSeq ex_rem)\<rparr>" "po_base o1 = Some ex_base" "po_orderState o1 = Order_Ack" "po_seqState o1 = OrderSeq_Ack"
    "po_ready o1" "po_dv o1 = Some [9]" "pn_localID n1 = 6" "pn_rm n1 = pn_rm ex_pnode" "pn_clock n1 = (\<lambda>_. 0)"
  shows "\<exists>o2 n2. handleFinishSeq ex_plib ex_penv 5 ex_rem (o1, n1) = (Inr [1], (o2, n2))"
proof -
  have roles: "rm_infos (pn_rm ex_pnode) 5 = Some ex_user_role" "rm_infos (pn_rm ex_pnode) 6 = Some ex_pro_role"
    by (simp_all add: ex_pnode_def)
  show ?thesis
    using assms
    by (simp add: handleFinishSeq_def openFor_def ex_rem_def ex_seq0_def ex_base_def zero_SignedOrderSeq_def updOr_def unixNow_def finishSeq_def matchSeq_def curSeq_def
        AggSegs_Merge_def insort_segs_def AggSegs_Equal_def SignedOrderSeq_Hash_def Let_def deref_def verifyData_def orErr_def ex_penv_def verifyBy_def signHash_def
        RoleVerify_def RoleSign_def keyTypeOf_def GetPubKey_known [OF roles(1)] GetPubKey_known [OF roles(2)] ex_user_role_def ex_pro_role_def growBase_def
        SignedOrder_Hash_def recordSeq_def saveOrderBase_def saveOrderSeq_def saveSeqState_def savePay_def Serialize_def pn_put_def dropErr_def)
qed

theorem provider_seq_settles_witness:
  "\<exists>s0 o1 n1 o2 n2 so p. handleCreateSeq ex_plib ex_penv ex_seq0 (ex_porder, ex_pnode) = (Inr [1], s0) \<and>
     snd (handleData ex_plib ex_penv ex_seg s0) = (o1, n1) \<and> handleFinishSeq ex_plib ex_penv 5 ex_rem (o1, n1) = (Inr [1], (o2, n2)) \<and>
     po_seq o2 = Some so \<and>
     verifySeqData ex_plib (lookupRole ex_plib) so ex_chain =
       (Inr (\<lparr>rl_base = Some ex_user_role, rl_val = zero_roleValue\<rparr>, \<lparr>rl_base = Some ex_pro_role, rl_val = zero_roleValue\<rparr>), ex_chain) \<and>
     checkSeqSize ex_plib (\<lparr>rl_base = Some ex_user_role, rl_val = zero_roleValue\<rparr>, \<lparr>rl_base = Some ex_pro_role, rl_val = zero_roleValue\<rparr>)
       ex_base so p ex_chain = (Inr (), ex_chain)"
proof -
  obtain n where create: "handleCreateSeq ex_plib ex_penv ex_seq0 (ex_porder, ex_pnode) =
      (Inr [1], (ex_porder\<lparr>po_seq := Some ex_seq0, po_seqState := OrderSeq_Ack, po_seqNum := 2\<rparr>, n))"
    and n: "pn_localID n = 6" "pn_segs n = (\<lambda>_. None)" "pn_rm n = pn_rm ex_pnode" "pn_clock n = (\<lambda>_. 0)"
    using ex_created by blast
  obtain o1 n1 sq1 where recv: "snd (handleData ex_plib ex_penv ex_seg (ex_porder\<lparr>po_seq := Some ex_seq0, po_seqState := OrderSeq_Ack, po_seqNum := 2\<rparr>, n)) = (o1, n1)"
    and o1: "po_seq o1 = Some sq1" "sos_OrderSeq sq1 = \<lparr>os_UserID = 5, os_ProID = 6, os_Nonce = 0, os_SeqNum = 1, os_Size = DefaultSegSize + DefaultSegSize, os_Price = Some 4,
      os_Segments = os_Segments (sos_OrderSeq ex_rem)\<rparr>" "po_base o1 = Some ex_base" "po_orderState o1 = Order_Ack" "po_seqState o1 = OrderSeq_Ack"
      "po_ready o1" "po_dv o1 = Some [9]" "pn_localID n1 = 6" "pn_rm n1 = pn_rm ex_pnode" "pn_clock n1 = (\<lambda>_. 0)"
    using ex_received [OF n] by blast
  obtain o2 n2 where fin: "handleFinishSeq ex_plib ex_penv 5 ex_rem (o1, n1) = (Inr [1], (o2, n2))"
    using ex_finished [OF o1] by blast
  have "AggSegs_Equal (AggSegs_Merge (lb_sortAggSegs ex_plib) (os_Segments (sos_OrderSeq sq1))) (os_Segments (sos_OrderSeq ex_rem))"
    by (simp add: o1(2) ex_rem_def ex_seq0_def AggSegs_Merge_def insort_segs_def AggSegs_Equal_def)
  then have "\<exists>so p. po_seq o2 = Some so \<and> marshal (lb_cSignedOrderSeq ex_plib) so = Some [1] \<and> os_Price (sos_OrderSeq so) = Some p \<and>
      verifySeqData ex_plib (lookupRole ex_plib) so ex_chain =
        (Inr (\<lparr>rl_base = Some ex_user_role, rl_val = zero_roleValue\<rparr>, \<lparr>rl_base = Some ex_pro_role, rl_val = zero_roleValue\<rparr>), ex_chain) \<and>
      checkSeqSize ex_plib (\<lparr>rl_base = Some ex_user_role, rl_val = zero_roleValue\<rparr>, \<lparr>rl_base = Some ex_pro_role, rl_val = zero_roleValue\<rparr>)
        ex_base so p ex_chain = (Inr (), ex_chain)"
    by (intro provider_seq_settles [OF _ _ create, where uid = 5 and rem = ex_rem and sgs = "[ex_seg]" and sp = 2 and ur = ex_user_role and pr = ex_pro_role and ?n1.0 = n1 and ?sq1.0 = sq1])
      (use recv o1 fin in \<open>simp_all add: mset_insort_segs ex_penv_def ex_porder_def ex_base_def ex_seq0_def ex_pnode_def ex_chain_def lookupRole_def\<close>)
  then show ?thesis
    using create recv fin by blast
qed

end
