(* ===== verification/ProOrderState.thy ===== *)
theory ProOrderState
  imports ProOrderSafe
begin

text \<open>
  The states an order of a provider goes through: what the handlers do without an open order and
  when the wallet fails, the invariant of the states, and what a restart finds.
\<close>

section \<open>Errors of the handlers\<close>

text \<open>A request to finish a sequence that reaches a provider with no open order for the user
(the state of every user whose first order was not created) panics: the text of the error it means
to return reads the nonce of the missing order.\<close>

theorem finish_without_order_panics:
  assumes "po_base o' = None" and "po_ready o'"
  shows "\<exists>t. handleFinishSeq L P uid rem (o', n) = (Inl (Panic ''nil base''), t)"
  using assms by (simp add: handleFinishSeq_def openFor_def bnd_def seq_def reject_def gets_def zoom_def unixNow_def updOr_def modify_def deref_def fail_def)

text \<open>When the wallet fails to sign a new order, the provider has already taken it: the handler
returns the error, nothing is stored, and the same request sent again is answered with the order as
the user sent it, without the provider's signature.\<close>

theorem failed_sign_acks_unsigned:
  assumes "po_ready o'" and "\<not> po_pause o'" and "po_nonce o' = so_Nonce ob" and "po_orderState o' = Order_Init" and "po_base o' = None"
    and "rm_infos (pn_rm n) (pn_localID n) = Some pr" and "so_Price ob = Some p"
    and "\<And>m. en_walletSign (pe_role P) (ri_ChainVerifyKey pr) m = None" and "marshal (lb_cSignedOrder L) ob = Some data"
  shows "\<exists>o1 n1 o2 n2. handleCreateOrder L P ob (o', n) = (Inl (Err ''wallet''), (o1, n1)) \<and> pn_ds n1 = pn_ds n \<and>
    handleCreateOrder L P ob (o1, n1) = (Inr data, (o2, n2)) \<and> pn_ds n2 = pn_ds n"
  using assms
  by (simp add: handleCreateOrder_def closePrevious_def takeOrder_def ackedOrder_def SignedOrder_Hash_def updOr_def unixNow_def RoleSign_def keyTypeOf_def
      GetPubKey_known orErr_def deref_def Serialize_def bnd_def seq_def reject_def gets_def zoom_def modify_def fail_def ret_def)

section \<open>The states of an order\<close>

definition order_wf :: "ProOrder \<Rightarrow> bool" where
  "order_wf o' \<longleftrightarrow>
     (po_orderState o' = Order_Ack \<longrightarrow> (\<exists>base. po_base o' = Some base \<and> po_nonce o' = so_Nonce base + 1)) \<and>
     (po_seqState o' \<noteq> OrderSeq_Init \<longrightarrow> (\<exists>sq. po_seq o' = Some sq \<and> po_seqNum o' = os_SeqNum (sos_OrderSeq sq) + 1))"

lemma order_wf_upd [simp]:
  "order_wf (o'\<lparr>po_availTime := a\<rparr>) = order_wf o'" "order_wf (o'\<lparr>po_added := xs\<rparr>) = order_wf o'" "order_wf (o'\<lparr>po_di := di\<rparr>) = order_wf o'"
  "order_wf (o'\<lparr>po_orderTime := a\<rparr>) = order_wf o'" "order_wf (o'\<lparr>po_seqTime := a\<rparr>) = order_wf o'" "order_wf (o'\<lparr>po_pause := c\<rparr>) = order_wf o'"
  by (simp_all add: order_wf_def)

lemma chargeSeg_wf: "keeps (onO order_wf) chargeSeg"
  by (rule keepsI) (auto simp: order_wf_def chargeSeg_def updOr_def bnd_def deref_def split: option.splits)

lemma pushSeg_wf: "order_wf o' \<Longrightarrow> order_wf (pushSeg L sid o')"
  by (auto simp: order_wf_def pushSeg_def split: option.splits)

lemma handleData_wf: "keeps (onO order_wf) (handleData L P sg)"
  unfolding handleData_def storeData_def Let_def
  by (intro keeps_bnd keeps_seq keeps_gets keeps_reject keeps_orErr keeps_if keeps_fail keeps_on_pn keeps_updOr keeps_segTriple
      keeps_verifierAdd chargeSeg_wf keeps_dropErr keeps_saves pushSeg_wf) simp_all

lemma triple_clock: "triple (onO Q) (on_pn unixNow) (\<lambda>_. onO Q) R"
  by (auto simp: triple_def zoom_def unixNow_def split: prod.splits)

lemma triple_updOr: "(\<And>o'. Q o' \<Longrightarrow> Q' (f o')) \<Longrightarrow> triple (onO Q) (updOr f) (\<lambda>_. onO Q') R"
  unfolding updOr_def by (rule triple_modify) auto

lemma takeOrder_wf: "keeps (onO order_wf) (takeOrder L P ob)"
proof (rule keeps_triple)
  let ?W = "onO order_wf"
  let ?T = "\<lambda>o'. po_base o' = Some ob \<and> po_orderState o' = Order_Ack"
  let ?N = "\<lambda>o'. po_nonce o' = so_Nonce ob + 1 \<and> po_seqState o' = OrderSeq_Init \<and> (\<exists>base. po_base o' = Some base \<and> so_Nonce base = so_Nonce ob)"
  show "triple ?W (takeOrder L P ob) (\<lambda>_. ?W) ?W"
    unfolding takeOrder_def Serialize_def
    apply (rule triple_seq [OF triple_updOr [where Q = order_wf and Q' = ?T]], simp)
    apply (rule triple_bnd [OF triple_clock], rule triple_seq [OF triple_updOr [where Q' = ?N]], simp)
    by (intro triple_post [OF triple_err [OF triple_keeps [where P = "onO ?N"]]] keeps_bnd keeps_seq keeps_SignedOrder_Hash keeps_gets keeps_on_pn
        keeps_updOr keeps_saves keeps_orErr) (auto simp: order_wf_def)
qed

lemma closePrevious_wf: "keeps (onO order_wf) (closePrevious L P)"
  unfolding closePrevious_def
  by (intro keeps_bnd keeps_gets) (auto split: option.split simp: order_wf_def
      intro!: keeps_ret keeps_seq keeps_bnd keeps_updOr keeps_on_pn keeps_saves keeps_reject)

lemma ackedOrder_wf: "keeps (onO order_wf) (ackedOrder L P ob)"
  unfolding ackedOrder_def Serialize_def
  by (intro keeps_bnd keeps_gets) (auto split: option.split
      intro!: keeps_fail keeps_bnd keeps_orErr keeps_SignedOrder_Hash takeOrder_wf)

lemma handleCreateOrder_wf: "keeps (onO order_wf) (handleCreateOrder L P ob)"
  unfolding handleCreateOrder_def
  by (intro keeps_bnd keeps_seq keeps_gets keeps_reject keeps_on_pn keeps_updOr keeps_if closePrevious_wf ackedOrder_wf takeOrder_wf)
    (auto simp: order_wf_def)

lemma triple_wf: "keeps (onO order_wf) m \<Longrightarrow> (\<And>s. P s \<Longrightarrow> onO order_wf s) \<Longrightarrow> triple P m (\<lambda>_. onO order_wf) (onO order_wf)"
  by (rule triple_pre [OF triple_keeps])

lemma takeSeq_wf:
  "triple (onO (\<lambda>o'. order_wf o' \<and> po_seqNum o' = os_SeqNum (sos_OrderSeq sq))) (takeSeq L P base sq) (\<lambda>_. onO order_wf) (onO order_wf)"
proof -
  have tail: "triple (onO (\<lambda>o'. order_wf o' \<and> po_seqNum o' = os_SeqNum (sos_OrderSeq sq)))
     (seq (updOr (\<lambda>o'. o'\<lparr>po_seq := Some sq, po_seqState := OrderSeq_Ack\<rparr>))
     (bnd (on_pn unixNow) (\<lambda>now. seq (updOr (\<lambda>o'. o'\<lparr>po_seqTime := now, po_seqNum := po_seqNum o' + 1\<rparr>))
     (seq (saveOrderSeq L) (seq (saveSeqState L P) (Serialize (lb_cSignedOrderSeq L) sq)))))) (\<lambda>_. onO order_wf) (onO order_wf)"
    unfolding Serialize_def
    apply (rule triple_seq [OF triple_updOr [where Q' = "\<lambda>o'. order_wf (o'\<lparr>po_seqNum := po_seqNum o' + 1\<rparr>)"]], simp add: order_wf_def)
    apply (rule triple_bnd [OF triple_clock], rule triple_seq [OF triple_updOr [where Q' = order_wf]], simp add: order_wf_def)
    by (intro triple_keeps keeps_seq keeps_saves keeps_orErr)
  show ?thesis
    unfolding takeSeq_def by (intro triple_deref triple_check tail) auto
qed

lemma handleCreateSeq_wf: "keeps (onO order_wf) (handleCreateSeq L P sq)"
proof (rule keeps_triple)
  let ?Q = "\<lambda>o1 o'. order_wf o' \<and> po_seqNum o' = po_seqNum o1"
  have acked: "keeps (onO order_wf) (case po_seq o1 of None \<Rightarrow> fail (Err ''fail create seq'')
     | Some cur \<Rightarrow> if os_SeqNum (sos_OrderSeq cur) = os_SeqNum (sos_OrderSeq sq) \<and> po_seqState o1 = OrderSeq_Ack
         then Serialize (lb_cSignedOrderSeq L) cur else fail (Err ''fail create seq''))" for o1
    unfolding Serialize_def by (auto split: option.split intro!: keeps_fail keeps_orErr)
  show "triple (onO order_wf) (handleCreateSeq L P sq) (\<lambda>_. onO order_wf) (onO order_wf)"
    unfolding handleCreateSeq_def
    apply (rule triple_read_pre [where P' = "\<lambda>o1. onO (?Q o1)"])
    subgoal for o1
      by (intro triple_check triple_bnd [OF triple_clock] triple_seq [OF triple_updOr [where Q' = "?Q o1"]] triple_orErr triple_if
          triple_wf [OF acked] triple_pre [OF takeSeq_wf]) auto
    by auto
qed

lemma rebuildSeq_wf: "keeps (onO order_wf) (rebuildSeq L P rem)"
proof (rule keeps_triple)
  have reload: "keeps (onO order_wf) (reloadSeg P sid)" for sid
    unfolding reloadSeg_def by (intro keeps_bnd keeps_gets keeps_orErr keeps_attempt keeps_sum keeps_segTriple keeps_verifierAdd keeps_ret chargeSeg_wf) simp
  have upd: "triple (onO (\<lambda>o'. order_wf o' \<and> o' = o1)) (updOr (\<lambda>o'. o'\<lparr>po_seq := Some (sq\<lparr>sos_OrderSeq := (sos_OrderSeq sq)\<lparr>os_Price := p, os_Size := z\<rparr>\<rparr>)\<rparr>))
      (\<lambda>_. onO order_wf) R" if "po_seq o1 = Some sq" for o1 sq p z R
    by (rule triple_updOr) (use that in \<open>auto simp: order_wf_def\<close>)
  show "triple (onO order_wf) (rebuildSeq L P rem) (\<lambda>_. onO order_wf) (onO order_wf)"
    unfolding rebuildSeq_def
    apply (rule triple_read_pre [where P' = "\<lambda>o1. onO (\<lambda>o'. order_wf o' \<and> o' = o1)"])
    subgoal for o1
      by (intro triple_deref triple_seq [OF upd] triple_keeps keeps_bnd keeps_orFail keeps_seq keeps_updOr keeps_forM reload)
        (auto simp: order_wf_def)
    by auto
qed

lemma curSeq_wf: "triple (onO Q) curSeq (\<lambda>sq. onO (\<lambda>o'. Q o' \<and> po_seq o' = Some sq)) (onO Q)"
  by (auto simp: triple_def curSeq_def bnd_def deref_def split: option.splits)

lemma matchSeq_wf: "keeps (onO order_wf) (matchSeq L P rem)"
proof (rule keeps_triple)
  have cur: "keeps (onO order_wf) curSeq"
    unfolding curSeq_def by (intro keeps_bnd keeps_gets keeps_deref)
  show "triple (onO order_wf) (matchSeq L P rem) (\<lambda>_. onO order_wf) (onO order_wf)"
    unfolding matchSeq_def Let_def
    apply (rule triple_bnd [OF curSeq_wf])
    apply (rule triple_seq [OF triple_updOr [where Q' = order_wf]], fastforce simp: order_wf_def)
    by (intro triple_keeps keeps_if keeps_seq keeps_bnd rebuildSeq_wf cur keeps_reject keeps_ret)
qed

lemma growBase_wf: "keeps (onO order_wf) growBase"
  by (rule keepsI) (auto simp: order_wf_def growBase_def curSeq_def updOr_def bnd_def seq_def deref_def Let_def split: option.splits)

text \<open>Until it is recorded, the sequence stays acknowledged.\<close>

lemma keeps_seqState:
  "keeps (onO (\<lambda>o'. po_seqState o' = st)) (matchSeq L P rem)" "keeps (onO (\<lambda>o'. po_seqState o' = st)) growBase"
  unfolding matchSeq_def rebuildSeq_def reloadSeg_def chargeSeg_def curSeq_def growBase_def Let_def
  by (intro keeps_bnd keeps_seq keeps_gets keeps_deref keeps_orErr keeps_orFail keeps_reject keeps_ret keeps_if keeps_forM keeps_attempt keeps_sum
      keeps_segTriple keeps_verifierAdd keeps_updOr; simp)+

lemma keeps_both: "keeps (onO Q) m \<Longrightarrow> keeps (onO Q') m \<Longrightarrow> keeps (onO (\<lambda>o'. Q o' \<and> Q' o')) m"
  by (simp add: keeps_def case_prod_beta)

lemma recordSeq_wf:
  "triple (onO (\<lambda>o'. order_wf o' \<and> po_seqState o' = OrderSeq_Ack)) (recordSeq L P rem ssig osig) (\<lambda>_. onO order_wf) (onO order_wf)"
proof -
  let ?A = "\<lambda>o'. order_wf o' \<and> po_seqState o' = OrderSeq_Ack"
  show ?thesis
    unfolding recordSeq_def Let_def Serialize_def
    apply (rule triple_bnd [OF triple_err [OF curSeq_wf [where Q = ?A]]], fastforce)
    apply (rule triple_bnd [OF triple_clock], rule triple_seq [OF triple_updOr [where Q' = order_wf]], fastforce simp: order_wf_def)
    by (intro triple_keeps keeps_seq keeps_saves keeps_orErr)
qed

lemma finishSeq_wf:
  "triple (onO (\<lambda>o'. order_wf o' \<and> po_seqState o' = OrderSeq_Ack)) (finishSeq L P uid rem) (\<lambda>_. onO order_wf) (onO order_wf)"
  unfolding finishSeq_def verifyData_def verifyBy_def signHash_def
  by (intro triple_bnd [OF triple_err [OF triple_keeps]] keeps_seq_triple recordSeq_wf keeps_bnd keeps_gets keeps_deref keeps_orErr keeps_reject keeps_on_pn
      keeps_both matchSeq_wf growBase_wf keeps_seqState keeps_SignedOrder_Hash) auto

lemma handleFinishSeq_wf: "keeps (onO order_wf) (handleFinishSeq L P uid rem)"
proof (rule keeps_triple)
  let ?Q = "\<lambda>o1 o'. order_wf o' \<and> po_seqState o' = po_seqState o1"
  show "triple (onO order_wf) (handleFinishSeq L P uid rem) (\<lambda>_. onO order_wf) (onO order_wf)"
    unfolding handleFinishSeq_def
    apply (rule triple_read_pre [where P' = "\<lambda>o1. onO (?Q o1)"])
    subgoal for o1
      apply (intro triple_check triple_bnd [OF triple_clock] triple_seq [OF triple_updOr [where Q' = "?Q o1"]])
      by (auto split: option.split simp: Serialize_def intro!: triple_deref triple_fail triple_pre [OF finishSeq_wf] triple_check
          triple_wf [OF keeps_orErr])
    by auto
qed

lemma keeps_confirmOrders: "keeps Q (confirmOrders L st u pro n di)"
proof (induction L st u pro n di rule: confirmOrders.induct)
  case (1 L st u pro n di)
  show ?case
  proof (cases "di_ConfirmedNonce di < n")
    case True
    then show ?thesis
      by (subst confirmOrders.simps, unfold if_P [OF True])
        (cases "StateGetOrder L u pro (di_ConfirmedNonce di) st", simp_all only: option.case, intro keeps_ret, intro keeps_bnd keeps_deref 1 True)
  next
    case False
    then show ?thesis
      by (subst confirmOrders.simps) (simp only: if_False keeps_ret)
  qed
qed

lemma checkUser_wf: "keeps (onO order_wf) (checkUser L P)"
proof -
  have pause: "order_wf o' \<Longrightarrow> order_wf (pauseNow a b o')" for a b o'
    by (simp add: pauseNow_def Let_def)
  show ?thesis
    unfolding checkUser_def Let_def
    by (intro keeps_bnd keeps_gets keeps_if keeps_ret keeps_confirmOrders)
      (auto simp del: confirmOrders.simps expireOrders.simps split: option.split intro!: keeps_seq keeps_updOr keeps_saves keeps_ret pause)
qed

text \<open>The orders of a provider as its handlers and its timer leave them, errors and panics included.\<close>

inductive order_reach :: "lib \<Rightarrow> penv \<Rightarrow> ProOrder \<Rightarrow> bool" for L P where
  reach_new: "order_reach L P (new_ProOrder u)"
| reach_load: "order_reach L P o' \<Longrightarrow> order_reach L P (fst (snd (proCreateOrder L P (o', n))))"
| reach_data: "order_reach L P o' \<Longrightarrow> order_reach L P (fst (snd (handleData L P sg (o', n))))"
| reach_order: "order_reach L P o' \<Longrightarrow> order_reach L P (fst (snd (handleCreateOrder L P ob (o', n))))"
| reach_seq: "order_reach L P o' \<Longrightarrow> order_reach L P (fst (snd (handleCreateSeq L P sq (o', n))))"
| reach_finish: "order_reach L P o' \<Longrightarrow> order_reach L P (fst (snd (handleFinishSeq L P uid sq (o', n))))"
| reach_check: "order_reach L P o' \<Longrightarrow> order_reach L P (fst (snd (checkUser L P (o', n))))"

lemma proCreateOrder_wf: "keeps (onO order_wf) (proCreateOrder L P)"
  unfolding proCreateOrder_def loadVerifier_def
  by (intro keeps_bnd keeps_gets keeps_updOr) (auto simp: order_wf_def split: option.split)

lemma onO_keeps: "keeps (onO Q) m \<Longrightarrow> Q o' \<Longrightarrow> Q (fst (snd (m (o', n))))"
  by (drule keepsD [where s = "(o', n)"]) (simp_all add: case_prod_beta)



section \<open>Restart\<close>

lemma takeOrder_stored:
  assumes "takeOrder L P ob (o', n) = (Inr b, (o1, n1))"
  obtains ob' d1 d2 where "po_base o1 = Some ob'" and "so_Nonce ob' = so_Nonce ob" and "po_nonce o1 = so_Nonce ob + 1"
    and "po_seqState o1 = OrderSeq_Init" and "po_seqNum o1 = 0" and "marshal (lb_cSignedOrder L) ob' = Some d1"
    and "marshal (pe_cNonceState P) \<lparr>nst_Nonce = so_Nonce ob, nst_Time = po_orderTime o1, nst_State = po_orderState o1\<rparr> = Some d2"
    and "pn_ds n1 = ds_put (ds_put (pn_ds n) (baseKey (pn_localID n1) (po_userID o') (so_Nonce ob)) d1) (nonceKey (pn_localID n1) (po_userID o')) d2"
proof -
  obtain now psig r d1 d2 where "marshal (lb_cSignedOrder L) (ob\<lparr>so_Psign := psig\<rparr>) = Some d1"
    and "marshal (pe_cNonceState P) \<lparr>nst_Nonce = so_Nonce ob, nst_Time = now, nst_State = Order_Ack\<rparr> = Some d2"
    and "o1 = o'\<lparr>po_base := Some (ob\<lparr>so_Psign := psig\<rparr>), po_orderState := Order_Ack, po_orderTime := now, po_nonce := so_Nonce ob + 1, po_seqNum := 0, po_seqState := OrderSeq_Init, po_added := []\<rparr>"
    and "pn_localID n1 = pn_localID n"
    and "pn_ds n1 = ds_put (ds_put (pn_ds n) (baseKey (pn_localID n) (po_userID o') (so_Nonce ob)) d1) (nonceKey (pn_localID n) (po_userID o')) d2"
    using assms
    by (auto simp: takeOrder_def saveOrderBase_def proSaveOrderState_def pn_put_def Serialize_def updOr_def unixNow_def SignedOrder_Hash_def go_simps)
  then show thesis
    by (intro that [of "ob\<lparr>so_Psign := psig\<rparr>" d1 d2]) simp_all
qed

lemma handleCreateOrder_takes:
  assumes "handleCreateOrder L P ob (o', n) = (Inr b, t)" and "po_nonce o' = so_Nonce ob" and "order_wf o'"
  obtains o'' n'' where "takeOrder L P ob (o'', n'') = (Inr b, t)" and "po_userID o'' = po_userID o'"
proof -
  have closed: "po_orderState o2 \<noteq> Order_Ack \<and> po_userID o2 = po_userID o3" if "closePrevious L P (o3, n3) = (Inr (), (o2, n2))" "order_wf o3" for o2 o3 n2 n3
    using that by (auto simp: closePrevious_def order_wf_def updOr_def unixNow_def proSaveOrderState_def pn_put_def Serialize_def go_simps split: option.splits if_splits)
  let ?init = "\<lambda>o'. if po_orderState o' = Order_Done then o'\<lparr>po_orderState := Order_Init\<rparr> else o'"
  obtain a n2 o3 n3 where close: "closePrevious L P (o'\<lparr>po_availTime := a\<rparr>, n2) = (Inr (), (o3, n3))"
    and rest: "(if po_orderState (?init o3) = Order_Init then takeOrder L P ob else ackedOrder L P ob) (?init o3, n3) = (Inr b, t)"
    using assms(1,2) by (auto simp: handleCreateOrder_def updOr_def zoom_def unixNow_def bnd_Inr seq_Inr reject_Inr split del: if_split)
  have o3: "po_orderState o3 \<noteq> Order_Ack" "po_userID o3 = po_userID o'"
    using closed [OF close] assms(3) by simp_all
  then have "po_orderState (?init o3) = Order_Init"
    by (cases "po_orderState o3") simp_all
  then show thesis
    using rest o3(2) by (intro that [of "?init o3" n3]) simp_all
qed

text \<open>C28: A restarted provider finds the order it acknowledged: after a request for the next order
succeeded, a fresh order manager over the same store loads the same order with its signatures,
state, time and next nonce, ready for the first sequence, as long as nothing was stored for a
sequence of it yet.\<close>

theorem provider_restart:
  assumes "codec_law (lb_cSignedOrder L)" and "codec_law (pe_cNonceState P)"
    and "handleCreateOrder L P ob (o', n) = (Inr b, (o1, n1))" and "po_nonce o' = so_Nonce ob" and "order_wf o'"
    and "\<forall>q. pn_ds n1 (seqKey (pn_localID n1) (po_userID o') (so_Nonce ob) q) = None"
    and "om_node m = n1" and "om_orders m (po_userID o') = None"
    and "StateGetPDPPublicKey L (po_userID o') (pn_st n1) = Some d" and "loadVerifier L P (Some d) (new_ProOrder (po_userID o')) = Some o0"
  shows "\<exists>m' o2. getOrder L P (po_userID o') m = (Inr (), m') \<and> om_orders m' (po_userID o') = Some o2 \<and> po_ready o2 \<and>
    po_base o2 = po_base o1 \<and> po_orderState o2 = po_orderState o1 \<and> po_orderTime o2 = po_orderTime o1 \<and> po_nonce o2 = po_nonce o1 \<and>
    po_seqState o2 = po_seqState o1 \<and> po_seqNum o2 = po_seqNum o1"
proof -
  let ?u = "po_userID o'"
  obtain o'' n'' where take: "takeOrder L P ob (o'', n'') = (Inr b, (o1, n1))" and u: "po_userID o'' = ?u"
    using handleCreateOrder_takes [OF assms(3-5)] .
  obtain ob' d1 d2 where o1: "po_base o1 = Some ob'" "so_Nonce ob' = so_Nonce ob" "po_nonce o1 = so_Nonce ob + 1" "po_seqState o1 = OrderSeq_Init" "po_seqNum o1 = 0"
    and d: "marshal (lb_cSignedOrder L) ob' = Some d1"
      "marshal (pe_cNonceState P) \<lparr>nst_Nonce = so_Nonce ob, nst_Time = po_orderTime o1, nst_State = po_orderState o1\<rparr> = Some d2"
    and ds: "pn_ds n1 = ds_put (ds_put (pn_ds n'') (baseKey (pn_localID n1) ?u (so_Nonce ob)) d1) (nonceKey (pn_localID n1) ?u) d2"
    using takeOrder_stored [OF take] u by metis
  have keys: "pn_ds n1 (nonceKey (pn_localID n1) ?u) = Some d2" "pn_ds n1 (baseKey (pn_localID n1) ?u (so_Nonce ob)) = Some d1"
    unfolding ds by (simp_all add: ds_put_def nonceKey_def baseKey_def MT_OrderNonceKey_def MT_OrderBaseKey_def)
  have o0: "po_userID o0 = ?u" "po_ready o0" "po_seqState o0 = OrderSeq_Init" "po_seqNum o0 = 0"
    using assms(10) by (auto simp: loadVerifier_def new_ProOrder_def split: option.splits if_splits)
  show ?thesis
    using assms(6-10) o0 o1 keys
    by (simp add: getOrder_def loadPay_def proLoadOrder_def loadSeq_def Let_def decode_law [OF assms(1) d(1)] decode_law [OF assms(2) d(2)] split: option.split)
qed

definition ex_signed :: SignedOrder where
  "ex_signed = ex_base\<lparr>so_Psign := \<lparr>sig_Type = SigSecp256k1, sig_Data = [2]\<rparr>\<rparr>"

definition ex_rlib :: lib where
  "ex_rlib = lib0\<lparr>lb_cSignedOrder := tab_codec [ex_signed]\<rparr>"

definition ex_renv :: penv where
  "ex_renv = ex_penv\<lparr>pe_cNonceState := tab_codec [\<lparr>nst_Nonce = 0, nst_Time = 0, nst_State = Order_Ack\<rparr>]\<rparr>"

definition ex_rnode :: ProNode where
  "ex_rnode = ex_pnode\<lparr>pn_st := ex_state\<lparr>ds := [skey ST_PDPPublicKey [5] \<mapsto> [9]]\<rparr>\<rparr>"

lemma ex_taken: "\<exists>o1 n1. handleCreateOrder ex_rlib ex_renv ex_base ((new_ProOrder 5)\<lparr>po_ready := True\<rparr>, ex_rnode) = (Inr [0], (o1, n1)) \<and>
    (\<forall>q. pn_ds n1 (seqKey (pn_localID n1) 5 0 q) = None) \<and> pn_st n1 = pn_st ex_rnode \<and> om_node (NewOrderMgr 6 1 n1 [] (\<lambda>_. None)) = n1"
  by (simp add: NewOrderMgr_def handleCreateOrder_def closePrevious_def takeOrder_def SignedOrder_Hash_def updOr_def unixNow_def RoleSign_def keyTypeOf_def
      rm_get_def GetPubKey_def ex_rnode_def ex_pnode_def new_ProOrder_def ex_base_def ex_signed_def ex_rlib_def ex_renv_def ex_penv_def ex_pro_role_def
      saveOrderBase_def proSaveOrderState_def pn_put_def orErr_def deref_def Serialize_def ds_put_def
      seqKey_def baseKey_def nonceKey_def MT_OrderSeqKey_def MT_OrderBaseKey_def MT_OrderNonceKey_def)

lemma om_orders_New: "om_orders (NewOrderMgr r p n es d) u = None"
  by (simp add: NewOrderMgr_def)

theorem provider_restart_witness:
  "\<exists>o1 n1 m' o2. handleCreateOrder ex_rlib ex_renv ex_base ((new_ProOrder 5)\<lparr>po_ready := True\<rparr>, ex_rnode) = (Inr [0], (o1, n1)) \<and>
     getOrder ex_rlib ex_renv 5 (NewOrderMgr 6 1 n1 [] (\<lambda>_. None)) = (Inr (), m') \<and> om_orders m' 5 = Some o2 \<and> po_base o2 = po_base o1 \<and>
     po_orderState o2 = po_orderState o1 \<and> po_nonce o2 = po_nonce o1"
proof -
  let ?o = "(new_ProOrder 5)\<lparr>po_ready := True\<rparr>"
  obtain o1 n1 where run: "handleCreateOrder ex_rlib ex_renv ex_base (?o, ex_rnode) = (Inr [0], (o1, n1))"
    and n1: "\<forall>q. pn_ds n1 (seqKey (pn_localID n1) 5 0 q) = None" "pn_st n1 = pn_st ex_rnode" "om_node (NewOrderMgr 6 1 n1 [] (\<lambda>_. None)) = n1"
    using ex_taken by blast
  have o: "po_userID ?o = 5" "po_nonce ?o = so_Nonce ex_base" "so_Nonce ex_base = 0" "order_wf ?o"
    by (simp_all add: new_ProOrder_def ex_base_def order_wf_def)
  have "StateGetPDPPublicKey ex_rlib 5 (pn_st n1) = Some [9]"
    unfolding n1(2) by (simp add: StateGetPDPPublicKey_def sget_def smtGet_def ex_rlib_def list_trie_def ex_rnode_def base_get_def)
  moreover have "\<exists>o0. loadVerifier ex_rlib ex_renv (Some [9]) (new_ProOrder 5) = Some o0"
    by (simp add: loadVerifier_def ex_rlib_def ex_renv_def ex_penv_def)
  ultimately show ?thesis
    using provider_restart [OF _ _ run o(2,4), where m = "NewOrderMgr 6 1 n1 [] (\<lambda>_. None)", unfolded o(1,3)] run n1
    by (fastforce simp: ex_rlib_def ex_renv_def om_orders_New)
qed

end
