(* ===== verification/ProServeSafe.thy ===== *)
theory ProServeSafe
  imports ProServe ReadPaySafe ProOrderState
begin

text \<open>
  The network side of a provider: what an honest reader gets back for its payment, and which
  requests reach the orders.
\<close>

section \<open>Reading a segment\<close>

text \<open>The provider at the other end of the line, in the state \<open>pv\<close>.\<close>

definition line :: "lib \<Rightarrow> penv \<Rightarrow> rpenv \<Rightarrow> u64 \<Rightarrow> ProviderNode \<Rightarrow> u64 \<Rightarrow> bytes \<Rightarrow> bytes \<Rightarrow> NetResp option" where
  "line L P R me pv to info sig = (case handleGetSeg L P R \<lparr>nm_From = me, nm_Info = info, nm_Sign = sig\<rparr> pv of
      (Inr resp, _) \<Rightarrow> if to = pv_roleID pv then Some resp else None | _ \<Rightarrow> None)"

lemma serveGetSeg_paid:
  assumes "decode (rp_cPaycheck R) zero_Paycheck sig = Some pc" and "ReceivePay_Verify L R (pe_role P) pc readPrice (pv_rx pv) = (Inr (), r)"
    and "length sid = 40" and "pn_segs (om_node (pv_mgr pv)) sid = Some sg"
  shows "handleGetSeg L P R \<lparr>nm_From = me, nm_Info = sid, nm_Sign = sig\<rparr> pv =
    (Inr \<lparr>nr_Err = False, nr_From = pv_roleID pv, nr_Info = Segment_Serialize sg, nr_Sign = []\<rparr>, pv\<lparr>pv_rx := r\<rparr>)"
  using assms by (simp add: handleGetSeg_def answer_def serveGetSeg_def orErr_def orFail_def zoom_def bnd_def seq_def attempt_def
      SegID_FromBytes_def SEGMENTID_LEN_def)

lemma RoleGet_known: "rm_infos r u = Some ri \<Longrightarrow> RoleGet L E u False r = (Inr (Some ri), r)"
  by (simp add: RoleGet_def rm_get_def attempt_def bnd_def)


section \<open>Who changes an order\<close>

definition verified :: "lib \<Rightarrow> penv \<Rightarrow> Signature codec \<Rightarrow> NetMsg \<Rightarrow> ProviderNode \<Rightarrow> bool" where
  "verified L P S mes pv \<longleftrightarrow> (case decode S zero_Signature (nm_Sign mes) of None \<Rightarrow> False
     | Some sig \<Rightarrow> fst (RoleVerify L (pe_role P) (nm_From mes) (lb_blake3 L (nm_Info mes)) sig (pn_rm (om_node (pv_mgr pv)))) = Inr True)"

abbreviation orders_of :: "ProviderNode \<Rightarrow> u64 \<Rightarrow> ProOrder option" where
  "orders_of pv \<equiv> om_orders (pv_mgr pv)"

abbreviation same_order :: "u64 \<Rightarrow> (u64 \<Rightarrow> ProOrder option) \<Rightarrow> ProviderNode \<Rightarrow> bool" where
  "same_order u f \<equiv> (\<lambda>pv. orders_of pv u = f u)"

lemma keeps_pv_om: "keeps (\<lambda>m. Q (om_orders m)) h \<Longrightarrow> keeps (\<lambda>pv. Q (orders_of pv)) (pv_om h)"
  by (rule keepsI) (auto simp: zoom_def keeps_def split: prod.splits)

lemma keeps_pv_role: "keeps (\<lambda>pv. Q (orders_of pv)) (pv_role h)"
  by (rule keepsI) (auto simp: zoom_def split: prod.splits)

lemma keeps_signReply: "keeps (\<lambda>pv. Q (orders_of pv)) (signReply L P S res)"
  unfolding signReply_def Serialize_def by (intro keeps_bnd keeps_gets keeps_pv_role keeps_orErr keeps_ret)

lemma keeps_answer: "keeps P' m \<Longrightarrow> keeps P' (answer P m)"
  unfolding answer_def by (intro keeps_bnd keeps_gets keeps_attempt keeps_ret)

lemma answer_state: "snd (answer P m pv) = snd (m pv)"
  by (cases "m pv") (auto simp: answer_def bnd_def attempt_def split: sum.split err.split)

lemma keeps_needReady: "keeps P' (needReady c)"
  unfolding needReady_def by (intro keeps_bnd keeps_seq keeps_gets keeps_reject)

text \<open>A handler of one user's order leaves the orders of the others alone.\<close>

lemma keeps_proLoadOrder: "keeps Q (proLoadOrder L P pro d dns o')"
proof -
  have fix_ok: "keeps Q (fixBase L pro d n k o2)" for n k o2
    unfolding fixBase_def by (auto split: option.split intro!: keeps_ret keeps_bnd keeps_deref)
  have "keeps Q (loadSeq L P pro d dns n o2)" for n o2
    unfolding loadSeq_def by (auto split: option.split intro!: keeps_ret fix_ok)
  then show ?thesis
    unfolding proLoadOrder_def by (auto split: option.split intro!: keeps_ret)
qed

lemma with_order_other:
  assumes "u \<noteq> uid"
  shows "keeps (\<lambda>m. om_orders m u = x) (with_order L P uid h)"
proof -
  have put: "keeps (\<lambda>m. om_orders m u = x) (modify (\<lambda>m. m\<lparr>om_orders := (om_orders m)(uid \<mapsto> o')\<rparr>))" for o'
    using assms by (simp add: keeps_def)
  have users: "keeps (\<lambda>m. om_orders m u = x) (modify (\<lambda>m. m\<lparr>om_users := om_users m @ [uid]\<rparr>))"
    by (simp add: keeps_def)
  have "keeps (\<lambda>m. om_orders m u = x) (getOrder L P uid)"
    unfolding getOrder_def Let_def
    by (intro keeps_bnd keeps_gets) (auto split: option.split intro!: keeps_ret keeps_seq keeps_bnd put users keeps_proLoadOrder)
  moreover have "keeps (\<lambda>m. om_orders m u = x) (\<lambda>m. case om_orders m uid of
            None \<Rightarrow> (Inl (Panic ''nil order''), m)
          | Some o' \<Rightarrow> (case h (o', om_node m) of (r, (o2, n2)) \<Rightarrow>
              (r, m\<lparr>om_orders := (om_orders m)(uid \<mapsto> o2), om_node := n2\<rparr>)))"
    using assms by (auto simp: keeps_def split: option.splits prod.splits)
  ultimately show ?thesis
    unfolding with_order_def by (rule keeps_seq)
qed

lemma signedRequest_unverified:
  assumes "\<not> verified L P S mes pv"
  shows "orders_of (snd (signedRequest L P S mes h pv)) = orders_of pv"
proof (cases "decode S zero_Signature (nm_Sign mes)")
  case None
  then show ?thesis
    by (simp add: signedRequest_def orErr_def bnd_def fail_def)
next
  case (Some sig)
  obtain res r where run: "RoleVerify L (pe_role P) (nm_From mes) (lb_blake3 L (nm_Info mes)) sig (pn_rm (om_node (pv_mgr pv))) = (res, r)"
    by (meson surj_pair)
  with assms Some have "res \<noteq> Inr True"
    by (simp add: verified_def)
  then show ?thesis
    using run by (auto simp: signedRequest_def orErr_def Some bnd_def zoom_def ret_def split: sum.split)
qed

text \<open>The two handlers of sequences, told apart by what they call.\<close>

lemma seqRequest_other:
  assumes "u \<noteq> nm_From mes \<or> \<not> verified L P S mes pv" and "\<And>x. u \<noteq> nm_From mes \<Longrightarrow> keeps (\<lambda>m. om_orders m u = x) h"
  shows "orders_of (snd (answer P (seq (needReady c) (signedRequest L P S mes h)) pv)) u = orders_of pv u"
proof -
  have keep: "keeps (\<lambda>p. orders_of p u = x) (signedRequest L P S mes h)" if "u \<noteq> nm_From mes" for x
    unfolding signedRequest_def
    by (intro keeps_bnd keeps_orErr keeps_if keeps_ret keeps_pv_role [where Q = "\<lambda>f. f u = x"] keeps_pv_om [where Q = "\<lambda>f. f u = x"]
        keeps_signReply [where Q = "\<lambda>f. f u = x"] assms(2) that)
  have ready: "snd (needReady c pv) = pv"
    by (simp add: needReady_def bnd_def seq_def reject_def)
  have "orders_of (snd (seq (needReady c) (signedRequest L P S mes h) pv)) u = orders_of pv u"
    using ready keepsD [OF keep, of pv] signedRequest_unverified [of L P S mes pv h] assms(1)
    by (cases "needReady c pv"; cases "fst (needReady c pv)") (auto simp: seq_def bnd_def)
  then show ?thesis
    by (simp add: answer_state)
qed

text \<open>C31: A request about a sequence changes no order but that of the role that signed it: when a
provider answers a request to create or finish a sequence, the order of every other user is as
before, and when the signature does not verify, so is the order of the sender.\<close>

theorem seq_requests_own_order:
  assumes "u \<noteq> nm_From mes \<or> \<not> verified L P S mes pv"
  shows "orders_of (snd (netCreateSeq L P S mes pv)) u = orders_of pv u \<and> orders_of (snd (netFinishSeq L P S mes pv)) u = orders_of pv u"
  unfolding netCreateSeq_def netFinishSeq_def HandleCreateSeq_def HandleFinishSeq_def
  by (intro conjI seqRequest_other [OF assms] keeps_bnd keeps_orErr with_order_other) simp_all

section \<open>An example\<close>

text \<open>Provider 6 holds the segment of the example order; user 5 reads it and a stranger asks to finish a sequence.\<close>

definition ex_provider :: ProviderNode where
  "ex_provider = \<lparr>pv_roleID = 6, pv_mgr = NewOrderMgr 6 1 (ex_pnode\<lparr>pn_segs := [bs_segID ex_seg \<mapsto> ex_seg]\<rparr>) [] (\<lambda>_. None),
     pv_rx = ex_receiver, pv_ready = True, pv_orderService = True\<rparr>"

definition ex_reader :: dataService where
  "ex_reader = \<lparr>dt_ds = (\<lambda>_. None), dt_segs = (\<lambda>_. None), dt_cache = (\<lambda>_. None),
     dt_rm = ex_rm\<lparr>rm_infos := [6 \<mapsto> ex_pro_role\<lparr>ri_ChainVerifyKey := replicate 20 6\<rparr>]\<rparr>, dt_pay = ex_sender\<rparr>"


theorem seq_requests_own_order_witness:
  "orders_of (snd (netCreateSeq lib0 ex_penv ex_konst \<lparr>nm_From = 7, nm_Info = [1], nm_Sign = []\<rparr> ex_provider)) 5 = orders_of ex_provider 5 \<and>
   orders_of (snd (netFinishSeq lib0 ex_penv ex_konst \<lparr>nm_From = 7, nm_Info = [1], nm_Sign = []\<rparr> ex_provider)) 5 = orders_of ex_provider 5"
  by (rule seq_requests_own_order) simp

text \<open>Role 7 signs a request that carries an order of user 5.\<close>

definition ex_offer :: SignedOrder where
  "ex_offer = ex_base\<lparr>so_Size := 0, so_Price := Some 0\<rparr>"

definition ex_olib :: lib where
  "ex_olib = lib0\<lparr>lb_cSignedOrder := tab_codec [ex_offer, ex_offer\<lparr>so_Psign := \<lparr>sig_Type = SigSecp256k1, sig_Data = [2]\<rparr>\<rparr>]\<rparr>"

definition ex_oenv :: penv where
  "ex_oenv = ex_penv\<lparr>pe_cNonceState := tab_codec [\<lparr>nst_Nonce = 0, nst_Time = BaseTime + 86400, nst_State = Order_Ack\<rparr>]\<rparr>"

definition ex_osig :: "Signature codec" where
  "ex_osig = tab_codec [\<lparr>sig_Type = SigSecp256k1, sig_Data = [7]\<rparr>, \<lparr>sig_Type = SigSecp256k1, sig_Data = [2]\<rparr>]"

definition ex_onode :: ProNode where
  "ex_onode = ex_rnode\<lparr>pn_rm := ex_rm\<lparr>rm_infos := [7 \<mapsto> zero_RoleInfo\<lparr>ri_RoleID := 7, ri_ChainVerifyKey := [7]\<rparr>, 6 \<mapsto> ex_pro_role]\<rparr>,
     pn_clock := (\<lambda>_. BaseTime + 86400)\<rparr>"

definition ex_oprov :: ProviderNode where
  "ex_oprov = ex_provider\<lparr>pv_mgr := NewOrderMgr 6 1 ex_onode [] (\<lambda>_. None)\<rparr>"

lemma ex_load5:
  "loadVerifier ex_olib ex_oenv (StateGetPDPPublicKey ex_olib 5 (pn_st ex_rnode)) (new_ProOrder 5) =
     Some ((new_ProOrder 5)\<lparr>po_dv := Some [9], po_fsID := copy_into 20 [9], po_ready := True\<rparr>)"
  by (simp add: loadVerifier_def StateGetPDPPublicKey_def sget_def smtGet_def ex_olib_def ex_oenv_def ex_penv_def list_trie_def ex_rnode_def base_get_def new_ProOrder_def)

abbreviation ex_user5 :: ProOrder where
  "ex_user5 \<equiv> (new_ProOrder 5)\<lparr>po_dv := Some [9], po_fsID := copy_into 20 [9], po_ready := True\<rparr>"

lemma ex_key5: "StateGetPDPPublicKey ex_olib 5 (pn_st ex_rnode) = Some [9]"
  by (simp add: StateGetPDPPublicKey_def sget_def smtGet_def ex_olib_def list_trie_def ex_rnode_def base_get_def)

lemma ex_got5:
  assumes "om_orders m 5 = None" and "pn_st (om_node m) = pn_st ex_rnode" and "pn_ds (om_node m) = (\<lambda>_. None)"
  shows "getOrder ex_olib ex_oenv 5 m = (Inr (), m\<lparr>om_users := om_users m @ [5], om_orders := (om_orders m)(5 \<mapsto> ex_user5)\<rparr>)"
  using assms ex_load5
  by (simp add: getOrder_def ex_key5 loadPay_def proLoadOrder_def Let_def bnd_def seq_def modify_def ret_def new_ProOrder_def new_DataInfo_def)

lemma ex_created5:
  assumes "pn_localID n = 6" and "pn_clock n = (\<lambda>_. BaseTime + 86400)" and "rm_infos (pn_rm n) 6 = Some ex_pro_role"
  shows "\<exists>o' n'. handleCreateOrder ex_olib ex_oenv ex_offer (ex_user5, n) = (Inr [0, 0], (o', n')) \<and> po_orderState o' = Order_Ack \<and>
    po_base o' = Some (ex_offer\<lparr>so_Psign := \<lparr>sig_Type = SigSecp256k1, sig_Data = [2]\<rparr>\<rparr>) \<and> pn_rm n' = pn_rm n"
  using assms
  by (simp add: handleCreateOrder_def closePrevious_def takeOrder_def SignedOrder_Hash_def updOr_def unixNow_def RoleSign_def keyTypeOf_def GetPubKey_known
      new_ProOrder_def ex_offer_def ex_base_def ex_olib_def ex_oenv_def ex_penv_def ex_pro_role_def
      saveOrderBase_def proSaveOrderState_def pn_put_def orErr_def deref_def Serialize_def zero_Signature_def)

lemma ex_offer_ok:
  assumes "pn_clock n = (\<lambda>_. BaseTime + 86400)" and "qu_TokenIndex q = 0" and "qu_SegPrice q = 1"
  shows "checkOffer ex_offer q n = (Inr (), n\<lparr>pn_reads := Suc (pn_reads n)\<rparr>)"
  using assms by (simp add: checkOffer_def CheckOrder_def ex_offer_def ex_base_def OrderMin_def OrderMax_def Day_def BaseTime_def deref_def unixNow_def bnd_def seq_def reject_def Hour_def)

lemma ex_handled5:
  assumes "pn_localID (om_node m) = 6" and "pn_clock (om_node m) = (\<lambda>_. BaseTime + 86400)" and "rm_infos (pn_rm (om_node m)) 6 = Some ex_pro_role"
    and "om_orders m 5 = None" and "pn_st (om_node m) = pn_st ex_rnode" and "pn_ds (om_node m) = (\<lambda>_. None)"
    and "qu_TokenIndex (pn_quo (om_node m)) = 0" and "qu_SegPrice (pn_quo (om_node m)) = 1"
  shows "\<exists>m' o'. HandleCreateOrder ex_olib ex_oenv [0] m = (Inr [0, 0], m') \<and> om_orders m' 5 = Some o' \<and> po_orderState o' = Order_Ack \<and>
    po_base o' = Some (ex_offer\<lparr>so_Psign := \<lparr>sig_Type = SigSecp256k1, sig_Data = [2]\<rparr>\<rparr>) \<and> pn_rm (om_node m') = pn_rm (om_node m)"
proof -
  let ?n = "(om_node m)\<lparr>pn_reads := Suc (pn_reads (om_node m))\<rparr>"
  let ?m = "m\<lparr>om_node := ?n\<rparr>"
  obtain o' n' where run: "handleCreateOrder ex_olib ex_oenv ex_offer (ex_user5, ?n) = (Inr [0, 0], (o', n'))" "po_orderState o' = Order_Ack"
    "po_base o' = Some (ex_offer\<lparr>so_Psign := \<lparr>sig_Type = SigSecp256k1, sig_Data = [2]\<rparr>\<rparr>)" "pn_rm n' = pn_rm ?n"
    using ex_created5 [of ?n] assms by auto
  have "getOrder ex_olib ex_oenv 5 ?m = (Inr (), ?m\<lparr>om_users := om_users ?m @ [5], om_orders := (om_orders ?m)(5 \<mapsto> ex_user5)\<rparr>)"
    using assms by (intro ex_got5) simp_all
  moreover have "decode (lb_cSignedOrder ex_olib) zero_SignedOrder [0] = Some ex_offer" "so_UserID ex_offer = 5"
    by (simp_all add: ex_olib_def ex_offer_def ex_base_def)
  ultimately show ?thesis
    using run ex_offer_ok [of "om_node m" "pn_quo (om_node m)"] assms
    by (simp add: HandleCreateOrder_def with_order_def orErr_def zoom_def bnd_def seq_def)
qed

text \<open>An order can be opened in the name of another user: a request that role 7 signed and that
carries an order of user 5 without a valid signature of user 5 makes the provider acknowledge the
order, sign it and store it as the open order of user 5.\<close>

theorem order_in_another_name:
  "\<exists>mes pv o'. nm_From mes = 7 \<and> so_UserID ex_offer = 5 \<and> orders_of ex_oprov 5 = None \<and>
     netCreateOrder ex_olib ex_oenv ex_osig mes ex_oprov = (Inr \<lparr>nr_Err = False, nr_From = 6, nr_Info = [0, 0], nr_Sign = [0, 0]\<rparr>, pv) \<and>
     orders_of pv 5 = Some o' \<and> po_orderState o' = Order_Ack \<and> po_base o' = Some (ex_offer\<lparr>so_Psign := \<lparr>sig_Type = SigSecp256k1, sig_Data = [2]\<rparr>\<rparr>)"
proof -
  let ?mes = "\<lparr>nm_From = 7, nm_Info = [0], nm_Sign = [0]\<rparr>" and ?m = "NewOrderMgr 6 1 ex_onode [] (\<lambda>_. None)"
  obtain m' o' where h: "HandleCreateOrder ex_olib ex_oenv [0] ?m = (Inr [0, 0], m')" and o: "om_orders m' 5 = Some o'" "po_orderState o' = Order_Ack"
    "po_base o' = Some (ex_offer\<lparr>so_Psign := \<lparr>sig_Type = SigSecp256k1, sig_Data = [2]\<rparr>\<rparr>)" and rm: "pn_rm (om_node m') = pn_rm (om_node ?m)"
    using ex_handled5 [of ?m] by (auto simp: NewOrderMgr_def ex_onode_def ex_rnode_def ex_pnode_def)
  have keys: "rm_infos (pn_rm (om_node ?m)) 7 = Some (zero_RoleInfo\<lparr>ri_RoleID := 7, ri_ChainVerifyKey := [7]\<rparr>)" "rm_infos (pn_rm (om_node ?m)) 6 = Some ex_pro_role"
    by (simp_all add: NewOrderMgr_def ex_onode_def)
  have env: "pe_role ex_oenv = env0" "lb_blake3 ex_olib = (\<lambda>b. b)" "lb_sigVerify ex_olib = (\<lambda>k m d. Some (d = k))"
    by (simp_all add: ex_oenv_def ex_penv_def ex_olib_def)
  have verify: "RoleVerify ex_olib env0 7 [0] \<lparr>sig_Type = SigSecp256k1, sig_Data = [7]\<rparr> (pn_rm (om_node ?m)) = (Inr True, pn_rm (om_node ?m))"
    by (simp add: RoleVerify_def keyTypeOf_def GetPubKey_known [OF keys(1)] orErr_def env bnd_def seq_def reject_def ret_def)
  have sign: "RoleSign ex_olib env0 6 [0, 0] SigSecp256k1 (pn_rm (om_node m')) = (Inr \<lparr>sig_Type = SigSecp256k1, sig_Data = [2]\<rparr>, pn_rm (om_node m'))"
    unfolding rm by (simp add: RoleSign_def keyTypeOf_def GetPubKey_known [OF keys(2)] orErr_def bnd_def ret_def ex_pro_role_def)
  have "netCreateOrder ex_olib ex_oenv ex_osig ?mes ex_oprov =
      (Inr \<lparr>nr_Err = False, nr_From = 6, nr_Info = [0, 0], nr_Sign = [0, 0]\<rparr>, ex_oprov\<lparr>pv_mgr := m'\<rparr>)"
    using h verify sign
    by (simp add: netCreateOrder_def answer_def needReady_def signedRequest_def signReply_def Serialize_def ex_osig_def ex_oprov_def ex_provider_def env
        zoom_def bnd_def seq_def reject_def ret_def orErr_def attempt_def)
  moreover have "so_UserID ex_offer = 5" "orders_of ex_oprov 5 = None"
    by (simp_all add: ex_offer_def ex_base_def ex_oprov_def NewOrderMgr_def)
  ultimately show ?thesis
    using o by (intro exI [of _ ?mes] exI [of _ "ex_oprov\<lparr>pv_mgr := m'\<rparr>"] exI [of _ o']) simp
qed

end
