(* ===== verification/PushPool.thy ===== *)
theory PushPool
  imports SyncPool
begin

text \<open>
  Sending messages, \<open>submodule/txPool/push.go\<close>: a node numbers and signs the messages of its own
  roles, publishes them, and publishes them again until a block holds them.

  \<open>pp_lk\<close> is the mutex \<open>pp.lk\<close>, true while it is held.  A goroutine that waits for a mutex that
  nobody will release is the panic \<open>deadlock\<close>: nothing after it runs.  The order in which Go
  ranges over a map is an argument.
\<close>

record msgTo =
  mt_ctime :: int
  mt_mtime :: int
  mt_msgID :: MsgID
  mt_msg :: SignedMessage

record pendingMsg =
  pm_chainNonce :: u64
  pm_nonce :: u64
  pm_msgto :: "u64 \<Rightarrow> msgTo option"

record PushPool =
  pp_sync :: SyncPool
  pp_lk :: bool
  pp_localID :: u64
  pp_locals :: "u64 list"
  pp_pending :: "u64 \<Rightarrow> pendingMsg option"
  pp_ready :: bool

type_synonym 'a ppgo = "(PushPool, 'a) go"

abbreviation on_sp :: "'a pgo \<Rightarrow> 'a ppgo" where
  "on_sp m \<equiv> zoom pp_sync (\<lambda>x p. p\<lparr>pp_sync := x\<rparr>) m"

definition pp_Lock :: "unit ppgo" where
  "pp_Lock = bnd (gets pp_lk) (\<lambda>held. if held then fail (Panic ''deadlock'') else modify (\<lambda>p. p\<lparr>pp_lk := True\<rparr>))"

definition pp_Unlock :: "unit ppgo" where
  "pp_Unlock = modify (\<lambda>p. p\<lparr>pp_lk := False\<rparr>)"

definition NewPushPool :: "lib \<Rightarrow> env \<Rightarrow> SyncPool \<Rightarrow> PushPool" where
  "NewPushPool L E sp = (case on_rm (RoleSelf L E) sp of (res, sp') \<Rightarrow>
     \<lparr>pp_sync = sp', pp_lk = False, pp_localID = (case res of Inr pri \<Rightarrow> ri_RoleID pri | Inl _ \<Rightarrow> 0),
      pp_locals = [], pp_pending = (\<lambda>_. None), pp_ready = False\<rparr>)"

section \<open>Numbering and publishing\<close>

definition new_pending :: "u64 \<Rightarrow> pendingMsg" where
  "new_pending nonce = \<lparr>pm_chainNonce = nonce, pm_nonce = nonce, pm_msgto = (\<lambda>_. None)\<rparr>"

definition set_pending :: "u64 \<Rightarrow> pendingMsg \<Rightarrow> PushPool \<Rightarrow> PushPool" where
  "set_pending from lp p = p\<lparr>pp_pending := (pp_pending p)(from \<mapsto> lp)\<rparr>"

text \<open>The pending messages of a sender; a new one starts at the nonce of the chain.\<close>

definition getPending :: "lib \<Rightarrow> bool \<Rightarrow> u64 \<Rightarrow> pendingMsg ppgo" where
  "getPending L local from =
     bnd (gets (\<lambda>p. (pp_pending p from, StateGetNonce L from (sp_st (pp_sync p))))) (\<lambda>(known, cNonce). case known of
       Some lp \<Rightarrow> ret lp
     | None \<Rightarrow>
         seq (modify (\<lambda>p. if local then p\<lparr>pp_locals := pp_locals p @ [from]\<rparr> else p))
        (seq (modify (set_pending from (new_pending cNonce)))
             (ret (new_pending cNonce))))"

definition PublishTxMsg :: "env \<Rightarrow> SignedMessage \<Rightarrow> unit pgo" where
  "PublishTxMsg E sm = seq (modify (\<lambda>p. p\<lparr>sp_pubMsgs := sp_pubMsgs p @ [sm]\<rparr>)) (reject (en_pubMsgFail E sm) ''publish'')"

text \<open>
  The part under the mutex; the result says whether the sender was known.  The two checks of
  the nonce return with the mutex held.
\<close>

definition holdMsg :: "lib \<Rightarrow> MsgID \<Rightarrow> SignedMessage \<Rightarrow> bool ppgo" where
  "holdMsg L mid sm =
     (let m = sm_Message sm in
     seq pp_Lock
    (bnd (gets (\<lambda>p. pp_pending p (msg_From m) \<noteq> None)) (\<lambda>known.
     bnd (getPending L False (msg_From m)) (\<lambda>lp.
     seq (reject (msg_Nonce m < pm_chainNonce lp) ''nonce should be no less than chain nonce'')
    (seq (reject (msg_Nonce m > pm_nonce lp) ''nonce should be no larger'')
    (bnd (on_sp timeNow) (\<lambda>ct.
     bnd (on_sp timeNow) (\<lambda>mt.
     seq (modify (set_pending (msg_From m) (lp\<lparr>
            pm_nonce := (if msg_Nonce m = pm_nonce lp then pm_nonce lp + 1 else pm_nonce lp),
            pm_msgto := (pm_msgto lp)(msg_Nonce m \<mapsto> \<lparr>mt_ctime = ct, mt_mtime = mt, mt_msgID = mid, mt_msg = sm\<rparr>)\<rparr>)))
    (seq pp_Unlock
         (ret known))))))))))"

text \<open>Only the first message of a sender is stored.\<close>

definition announceMsg :: "lib \<Rightarrow> env \<Rightarrow> lru \<Rightarrow> bool \<Rightarrow> SignedMessage \<Rightarrow> unit pgo" where
  "announceMsg L E C known sm =
     seq (if known then ret () else on_ts (PutTxMsg L E C sm True))
    (seq (modify (\<lambda>s. if sp_inProcess s then s\<lparr>sp_msgChan := sp_msgChan s @ [sm]\<rparr> else s))
         (PublishTxMsg E sm))"

definition PushSignedMessage :: "lib \<Rightarrow> env \<Rightarrow> lru \<Rightarrow> SignedMessage \<Rightarrow> MsgID ppgo" where
  "PushSignedMessage L E C sm =
     (let m = sm_Message sm; mid = Message_Hash L E m in
     bnd (on_sp (on_rm (RoleVerify L E (msg_From m) mid (sm_Signature sm)))) (\<lambda>valid.
     seq (reject (\<not> valid) ''invalid sign'')
    (bnd (holdMsg L mid sm) (\<lambda>known.
     seq (on_sp (announceMsg L E C known sm)) (ret mid)))))"

text \<open>The nonce is taken before the message is signed.\<close>

definition takeNonce :: "lib \<Rightarrow> u64 \<Rightarrow> u64 ppgo" where
  "takeNonce L from =
     bnd (getPending L True from) (\<lambda>lp.
     seq (modify (set_pending from (lp\<lparr>pm_nonce := pm_nonce lp + 1\<rparr>)))
         (ret (pm_nonce lp)))"

definition PushMessage :: "lib \<Rightarrow> env \<Rightarrow> lru \<Rightarrow> Message \<Rightarrow> MsgID ppgo" where
  "PushMessage L E C mes =
     seq pp_Lock
    (bnd (gets pp_ready) (\<lambda>ready.
     if \<not> ready then seq pp_Unlock (fail (Err ''push pool is not ready''))
     else
       bnd (takeNonce L (msg_From mes)) (\<lambda>nonce.
       seq pp_Unlock
      (let m = mes\<lparr>msg_Nonce := nonce\<rparr> in
       bnd (on_sp (on_rm (RoleSign L E (msg_From m) (Message_Hash L E m) SigSecp256k1))) (\<lambda>sig.
       PushSignedMessage L E C \<lparr>sm_Message = m, sm_Signature = sig\<rparr>)))))"

definition PushGetPendingNonce :: "lib \<Rightarrow> u64 \<Rightarrow> u64 ppgo" where
  "PushGetPendingNonce L rid =
     seq pp_Lock
    (bnd (getPending L True rid) (\<lambda>lp.
     seq pp_Unlock (ret (pm_nonce lp))))"

text \<open>\<open>make([]types.MsgID, n)\<close> and \<open>append\<close>: as many empty identifiers come first.\<close>

definition GetPendingMsg :: "u64 list \<Rightarrow> u64 \<Rightarrow> MsgID list ppgo" where
  "GetPendingMsg order rid =
     seq pp_Lock
    (bnd (gets (\<lambda>p. pp_pending p rid)) (\<lambda>known.
     seq pp_Unlock
    (ret (case known of None \<Rightarrow> []
      | Some lp \<Rightarrow> replicate (length order) MsgIDUndef @ List.map_filter (\<lambda>nc. map_option mt_msgID (pm_msgto lp nc)) order))))"

section \<open>The loop of the pool\<close>

text \<open>The wait for the synchronisation, once.\<close>

definition pushReady :: "unit ppgo" where
  "pushReady = modify (\<lambda>p. let si = SyncGetInfo (pp_sync p) in
     if syi_SyncedHeight si = syi_RemoteHeight si \<and> syi_Status si
     then p\<lparr>pp_ready := True, pp_sync := (pp_sync p)\<lparr>sp_inPush := True\<rparr>\<rparr> else p)"

definition msgDone :: "MessageDigest \<Rightarrow> (u64 \<Rightarrow> pendingMsg option) \<Rightarrow> (u64 \<Rightarrow> pendingMsg option)" where
  "msgDone md pend = (case pend (md_From md) of
      None \<Rightarrow> pend
    | Some lp \<Rightarrow> pend(md_From md \<mapsto> lp\<lparr>pm_msgto := (pm_msgto lp)(md_Nonce md := None),
        pm_chainNonce := (if pm_chainNonce lp \<le> md_Nonce md then md_Nonce md + 1 else pm_chainNonce lp)\<rparr>))"

text \<open>A block has been applied.\<close>

definition pushDone :: "unit ppgo" where
  "pushDone =
     bnd (gets (\<lambda>p. sp_msgDone (pp_sync p))) (\<lambda>ds. case ds of
       [] \<Rightarrow> ret ()
     | bh # rest \<Rightarrow>
         seq (on_sp (modify (\<lambda>s. s\<lparr>sp_msgDone := rest\<rparr>)))
        (seq pp_Lock
        (seq (modify (\<lambda>p. p\<lparr>pp_pending := fold msgDone (bd_msgs bh) (pp_pending p)\<rparr>))
             pp_Unlock)))"

definition set_msgto :: "u64 \<Rightarrow> u64 \<Rightarrow> msgTo option \<Rightarrow> PushPool \<Rightarrow> PushPool" where
  "set_msgto lid nc pm p = (case pp_pending p lid of
      None \<Rightarrow> p | Some lp \<Rightarrow> set_pending lid (lp\<lparr>pm_msgto := (pm_msgto lp)(nc := pm)\<rparr>) p)"

text \<open>A higher price makes a new message; it is signed, published, and the old one's state points to it.\<close>

definition raisePrice :: "lib \<Rightarrow> env \<Rightarrow> u64 \<Rightarrow> u64 \<Rightarrow> msgTo \<Rightarrow> unit ppgo" where
  "raisePrice L E lid nc pm =
     (let sm = mt_msg pm; m = (sm_Message sm)\<lparr>msg_GasPrice := Some (10 + (case msg_GasPrice (sm_Message sm) of None \<Rightarrow> 0 | Some g \<Rightarrow> g))\<rparr>;
          mid = Message_Hash L E m; pm' = pm\<lparr>mt_msg := sm\<lparr>sm_Message := m\<rparr>, mt_msgID := mid\<rparr> in
     seq (modify (set_msgto lid nc (Some pm')))
    (bnd (attempt (on_sp (on_rm (RoleSign L E (msg_From m) mid SigSecp256k1)))) (\<lambda>res. case res of
       Inl _ \<Rightarrow> ret ()
     | Inr sig \<Rightarrow>
         seq (dropErr (on_sp (PublishTxMsg E \<lparr>sm_Message = m, sm_Signature = sig\<rparr>)))
        (bnd (on_sp timeNow) (\<lambda>now.
         seq (modify (set_msgto lid nc (Some (pm'\<lparr>mt_msg := \<lparr>sm_Message = m, sm_Signature = sig\<rparr>, mt_mtime := now\<rparr>))))
             (dropErr (on_sp (on_ts (PutTxMsgState L E (mt_msgID pm) (zero_MsgState\<lparr>mst_BlockID := mid, mst_Height := - 1\<rparr>))))))))))"

text \<open>One pending message; \<open>nc != pp.localID\<close> compares a nonce with a role.\<close>

definition repushMsg :: "lib \<Rightarrow> env \<Rightarrow> u64 \<Rightarrow> u64 \<Rightarrow> unit ppgo" where
  "repushMsg L E lid nc =
     bnd (gets (\<lambda>p. (Option.bind (pp_pending p lid) (\<lambda>lp. map_option (Pair (pm_chainNonce lp)) (pm_msgto lp nc)), pp_localID p))) (\<lambda>(found, self).
     case found of None \<Rightarrow> ret ()
     | Some (chainNonce, pm) \<Rightarrow>
         if msg_Nonce (sm_Message (mt_msg pm)) < chainNonce then modify (set_msgto lid nc None)
         else bnd (on_sp timeNow) (\<lambda>now.
           if now - mt_ctime pm > 3600 * Second then modify (set_msgto lid nc None)
           else if nc \<noteq> self then
             seq (dropErr (on_sp (PublishTxMsg E (mt_msg pm))))
            (bnd (on_sp timeNow) (\<lambda>now'. modify (set_msgto lid nc (Some (pm\<lparr>mt_mtime := now'\<rparr>)))))
           else bnd (on_sp timeNow) (\<lambda>now'.
             if now' - mt_mtime pm > 600 * Second then raisePrice L E lid nc pm else ret ())))"

fun repushMsgs :: "lib \<Rightarrow> env \<Rightarrow> int \<Rightarrow> u64 \<Rightarrow> u64 list \<Rightarrow> unit ppgo" where
  "repushMsgs L E nt lid [] = ret ()"
| "repushMsgs L E nt lid (nc # ncs) =
     bnd (on_sp timeNow) (\<lambda>now.
     if now - nt > 15 * Second then ret ()
     else seq (repushMsg L E lid nc) (repushMsgs L E nt lid ncs))"

text \<open>\<open>make([]uint64, n)\<close> and \<open>append\<close>: as many zeros come before the nonces.\<close>

fun repushLocals :: "lib \<Rightarrow> env \<Rightarrow> (u64 \<Rightarrow> u64 list) \<Rightarrow> int \<Rightarrow> u64 list \<Rightarrow> unit ppgo" where
  "repushLocals L E order nt [] = ret ()"
| "repushLocals L E order nt (lid # lids) =
     bnd (on_sp timeNow) (\<lambda>now.
     if now - nt > 15 * Second then ret ()
     else bnd (gets (\<lambda>p. pp_pending p lid)) (\<lambda>known.
       seq (if known = None then ret () else repushMsgs L E nt lid (replicate (length (order lid)) 0 @ order lid))
           (repushLocals L E order nt lids)))"

definition pushTick :: "lib \<Rightarrow> env \<Rightarrow> (u64 \<Rightarrow> u64 list) \<Rightarrow> unit ppgo" where
  "pushTick L E order =
     bnd (on_sp timeNow) (\<lambda>nt.
     seq pp_Lock
    (bnd (gets pp_locals) (\<lambda>locals.
     seq (repushLocals L E order nt locals)
         pp_Unlock)))"

section \<open>What the operations do\<close>

text \<open>The nonce that the next message of a sender gets.\<close>

definition nextNonce :: "lib \<Rightarrow> u64 \<Rightarrow> PushPool \<Rightarrow> u64" where
  "nextNonce L from p = (case pp_pending p from of
      Some lp \<Rightarrow> pm_nonce lp | None \<Rightarrow> StateGetNonce L from (sp_st (pp_sync p)))"

definition pendingOf :: "lib \<Rightarrow> u64 \<Rightarrow> PushPool \<Rightarrow> pendingMsg" where
  "pendingOf L from p = (case pp_pending p from of
      Some lp \<Rightarrow> lp | None \<Rightarrow> new_pending (StateGetNonce L from (sp_st (pp_sync p))))"

lemma nextNonce_pending: "nextNonce L from p = pm_nonce (pendingOf L from p)"
  by (simp add: nextNonce_def pendingOf_def new_pending_def split: option.split)

lemma getPending_run:
  "\<exists>q. getPending L loc from p = (Inr (pendingOf L from p), q) \<and> pp_pending q from = Some (pendingOf L from p) \<and>
     pp_sync q = pp_sync p \<and> pp_lk q = pp_lk p \<and> pp_localID q = pp_localID p \<and> pp_ready q = pp_ready p \<and>
     (\<forall>i. i \<noteq> from \<longrightarrow> pp_pending q i = pp_pending p i)"
  by (cases "pp_pending p from") (auto simp: getPending_def pendingOf_def set_pending_def)

lemma takeNonce_run:
  "\<exists>q. takeNonce L from p = (Inr (nextNonce L from p), q) \<and>
     pp_pending q from = Some ((pendingOf L from p)\<lparr>pm_nonce := nextNonce L from p + 1\<rparr>) \<and>
     pp_sync q = pp_sync p \<and> pp_lk q = pp_lk p \<and> pp_ready q = pp_ready p \<and>
     (\<forall>i. i \<noteq> from \<longrightarrow> pp_pending q i = pp_pending p i)"
  using getPending_run [of L True "from" p] by (fastforce simp: takeNonce_def set_pending_def nextNonce_pending)

lemma pp_Lock_free [simp]: "\<not> pp_lk p \<Longrightarrow> pp_Lock p = (Inr (), p\<lparr>pp_lk := True\<rparr>)"
  by (simp add: pp_Lock_def)

lemma pp_Lock_held [simp]: "pp_lk p \<Longrightarrow> pp_Lock p = (Inl (Panic ''deadlock''), p)"
  by (simp add: pp_Lock_def)

lemma pp_Lock_Inr [go_simps]: "pp_Lock p = (Inr u, q) \<longleftrightarrow> \<not> pp_lk p \<and> q = p\<lparr>pp_lk := True\<rparr>"
  by (cases "pp_lk p") auto

lemma pp_Unlock_run [simp]: "pp_Unlock p = (Inr (), p\<lparr>pp_lk := False\<rparr>)"
  by (simp add: pp_Unlock_def)

lemma timeNow_run [simp]: "timeNow s = (Inr (sp_clock s (sp_reads s)), s\<lparr>sp_reads := Suc (sp_reads s)\<rparr>)"
  by (simp add: timeNow_def)

lemma holdMsg_ok:
  fixes sm :: SignedMessage
  assumes "\<not> pp_lk p"
  defines "from \<equiv> msg_From (sm_Message sm)" and "n \<equiv> msg_Nonce (sm_Message sm)"
  assumes "pm_chainNonce (pendingOf L from p) \<le> n" and "n \<le> nextNonce L from p"
  shows "\<exists>q ct mt s. holdMsg L mid sm p = (Inr (pp_pending p from \<noteq> None), q) \<and> \<not> pp_lk q \<and>
    pp_sync q = (pp_sync p)\<lparr>sp_reads := s\<rparr> \<and> pp_localID q = pp_localID p \<and>
    pp_pending q from = Some ((pendingOf L from p)\<lparr>
       pm_nonce := (if n = nextNonce L from p then n + 1 else nextNonce L from p),
       pm_msgto := (pm_msgto (pendingOf L from p))(n \<mapsto> \<lparr>mt_ctime = ct, mt_mtime = mt, mt_msgID = mid, mt_msg = sm\<rparr>)\<rparr>) \<and>
    (\<forall>i. i \<noteq> from \<longrightarrow> pp_pending q i = pp_pending p i)"
proof -
  let ?p = "p\<lparr>pp_lk := True\<rparr>"
  obtain q where q: "getPending L False from ?p = (Inr (pendingOf L from ?p), q)"
    "pp_sync q = pp_sync ?p" "pp_localID q = pp_localID ?p"
    "\<forall>i. i \<noteq> from \<longrightarrow> pp_pending q i = pp_pending ?p i"
    using getPending_run [of L False "from" ?p] by blast
  have same: "pendingOf L from ?p = pendingOf L from p"
    by (simp add: pendingOf_def split: option.split)
  have window: "\<not> n < pm_chainNonce (pendingOf L from p)" "\<not> pm_nonce (pendingOf L from p) < n"
    using assms(4,5) by (simp_all add: not_less nextNonce_pending)
  show ?thesis
    using assms q window unfolding same
    by (auto simp: holdMsg_def Let_def set_pending_def nextNonce_pending from_def [symmetric] n_def [symmetric] zoom_def)
qed

lemma holdMsg_refuses:
  fixes sm :: SignedMessage
  assumes "\<not> pp_lk p"
  defines "from \<equiv> msg_From (sm_Message sm)" and "n \<equiv> msg_Nonce (sm_Message sm)"
  assumes "n < pm_chainNonce (pendingOf L from p) \<or> nextNonce L from p < n"
  shows "\<exists>w q. holdMsg L mid sm p = (Inl (Err w), q) \<and> pp_lk q"
proof -
  let ?p = "p\<lparr>pp_lk := True\<rparr>"
  obtain q where q: "getPending L False from ?p = (Inr (pendingOf L from ?p), q)" "pp_lk q"
    using getPending_run [of L False "from" ?p] by auto
  have same: "pendingOf L from ?p = pendingOf L from p"
    by (simp add: pendingOf_def split: option.split)
  show ?thesis
  proof (cases "n < pm_chainNonce (pendingOf L from p)")
    case True
    with assms(1) q same show ?thesis
      by (simp add: holdMsg_def Let_def from_def [symmetric] n_def [symmetric])
  next
    case False
    with assms q same show ?thesis
      by (simp add: holdMsg_def Let_def nextNonce_pending from_def [symmetric] n_def [symmetric])
  qed
qed

lemma holdMsg_Inr:
  assumes "holdMsg L mid sm p = (Inr k, q)"
  shows "\<not> pp_lk p \<and> pm_chainNonce (pendingOf L (msg_From (sm_Message sm)) p) \<le> msg_Nonce (sm_Message sm) \<and>
    msg_Nonce (sm_Message sm) \<le> nextNonce L (msg_From (sm_Message sm)) p"
proof -
  have free: "\<not> pp_lk p"
    using assms by (auto simp: holdMsg_def Let_def seq_Inr pp_Lock_Inr)
  have "\<not> (msg_Nonce (sm_Message sm) < pm_chainNonce (pendingOf L (msg_From (sm_Message sm)) p) \<or>
      nextNonce L (msg_From (sm_Message sm)) p < msg_Nonce (sm_Message sm))"
    using holdMsg_refuses [OF free, of sm L mid] assms by auto
  with free show ?thesis
    by (simp add: not_less)
qed

lemma announceMsg_Inr:
  assumes "announceMsg L E C known sm s = (Inr u, t)"
  shows "sp_pubMsgs t = sp_pubMsgs s @ [sm]"
proof -
  from assms obtain v s1 where one: "(if known then ret () else on_ts (PutTxMsg L E C sm True)) s = (Inr v, s1)"
    and t: "sp_pubMsgs t = sp_pubMsgs s1 @ [sm]"
    unfolding announceMsg_def PublishTxMsg_def seq_Inr by (auto simp: reject_Inr)
  from one have "sp_pubMsgs s1 = sp_pubMsgs s"
    by (cases known) (auto simp: ret_Inr zoom_Inr)
  with t show ?thesis
    by simp
qed

text \<open>A signed message that is accepted.\<close>

lemma PushSignedMessage_Inr:
  assumes "PushSignedMessage L E C sm p = (Inr mid, q)"
  defines "from \<equiv> msg_From (sm_Message sm)" and "n \<equiv> msg_Nonce (sm_Message sm)"
  shows "mid = Message_Hash L E (sm_Message sm) \<and> \<not> pp_lk q \<and>
    (\<exists>r r'. RoleVerify L E from mid (sm_Signature sm) r = (Inr True, r')) \<and>
    pm_chainNonce (pendingOf L from p) \<le> n \<and> n \<le> nextNonce L from p \<and>
    sp_pubMsgs (pp_sync q) = sp_pubMsgs (pp_sync p) @ [sm] \<and>
    (\<exists>ct mt. pp_pending q from = Some ((pendingOf L from p)\<lparr>
       pm_nonce := (if n = nextNonce L from p then n + 1 else nextNonce L from p),
       pm_msgto := (pm_msgto (pendingOf L from p))(n \<mapsto> \<lparr>mt_ctime = ct, mt_mtime = mt, mt_msgID = mid, mt_msg = sm\<rparr>)\<rparr>))"
proof -
  from assms(1) obtain r k p1 p2 where mid: "mid = Message_Hash L E (sm_Message sm)"
    and ver: "RoleVerify L E from mid (sm_Signature sm) (sp_rm (pp_sync p)) = (Inr True, r)"
    and hold: "holdMsg L mid sm p1 = (Inr k, p2)" and p1: "p1 = p\<lparr>pp_sync := (pp_sync p)\<lparr>sp_rm := r\<rparr>\<rparr>"
    and q: "pp_pending q = pp_pending p2" "pp_lk q = pp_lk p2" "sp_pubMsgs (pp_sync q) = sp_pubMsgs (pp_sync p2) @ [sm]"
    by (auto simp: PushSignedMessage_def Let_def from_def go_simps dest: announceMsg_Inr)
  have same: "pendingOf L from p1 = pendingOf L from p" "nextNonce L from p1 = nextNonce L from p"
    by (simp_all add: pendingOf_def nextNonce_def p1 split: option.split)
  from holdMsg_Inr [OF hold] have free: "\<not> pp_lk p1" and window: "pm_chainNonce (pendingOf L from p) \<le> n" "n \<le> nextNonce L from p"
    by (simp_all add: same n_def from_def [symmetric])
  obtain q' ct mt rd where run: "holdMsg L mid sm p1 = (Inr (pp_pending p1 from \<noteq> None), q')" and q': "\<not> pp_lk q'"
    "pp_sync q' = (pp_sync p1)\<lparr>sp_reads := rd\<rparr>" "pp_pending q' from = Some ((pendingOf L from p)\<lparr>
       pm_nonce := (if n = nextNonce L from p then n + 1 else nextNonce L from p),
       pm_msgto := (pm_msgto (pendingOf L from p))(n \<mapsto> \<lparr>mt_ctime = ct, mt_mtime = mt, mt_msgID = mid, mt_msg = sm\<rparr>)\<rparr>)"
    using holdMsg_ok [OF free, of L sm mid] window
    unfolding n_def [symmetric] from_def [symmetric] same by blast
  have "q' = p2"
    using run hold by simp
  with q' mid ver q p1 window show ?thesis
    by (intro conjI exI [of _ ct] exI [of _ mt]) auto
qed

section \<open>The pending messages\<close>

text \<open>
  A pending message is kept under its own nonce and sender, with its own identifier, also
  after its price was raised.
\<close>

definition entry_ok :: "lib \<Rightarrow> env \<Rightarrow> u64 \<Rightarrow> u64 \<Rightarrow> msgTo \<Rightarrow> bool" where
  "entry_ok L E from nc pm \<longleftrightarrow> msg_Nonce (sm_Message (mt_msg pm)) = nc \<and> msg_From (sm_Message (mt_msg pm)) = from \<and>
     mt_msgID pm = Message_Hash L E (sm_Message (mt_msg pm))"

definition lp_ok :: "lib \<Rightarrow> env \<Rightarrow> u64 \<Rightarrow> pendingMsg \<Rightarrow> bool" where
  "lp_ok L E from lp \<longleftrightarrow> (\<forall>nc pm. pm_msgto lp nc = Some pm \<longrightarrow> entry_ok L E from nc pm)"

definition push_ok :: "lib \<Rightarrow> env \<Rightarrow> PushPool \<Rightarrow> bool" where
  "push_ok L E p \<longleftrightarrow> (\<forall>from lp. pp_pending p from = Some lp \<longrightarrow> lp_ok L E from lp)"

lemma keeps_bnd_post:
  assumes "keeps P m" and "\<And>s x t. P s \<Longrightarrow> m s = (Inr x, t) \<Longrightarrow> R x" and "\<And>x. R x \<Longrightarrow> keeps P (f x)"
  shows "keeps P (bnd m f)"
proof (rule keepsI)
  fix s assume P: "P s"
  show "P (snd (bnd m f s))"
  proof (cases "m s")
    case (Pair r t)
    then have "P t"
      using keeps_run [OF assms(1)] P by blast
    then show ?thesis
      using Pair assms(2) [OF P] assms(3) by (cases r) (auto simp: keepsD)
  qed
qed

lemma push_ok_other: "(\<And>p. pp_pending (f p) = pp_pending p) \<Longrightarrow> keeps (push_ok L E) (modify f)"
  by (rule keeps_modify) (simp add: push_ok_def)

lemma push_ok_sp: "keeps (push_ok L E) (on_sp m)"
  by (rule keeps_zoom [where Q = "\<lambda>_ _. True"]) (auto simp: keeps_def push_ok_def)

lemma push_ok_set_pending: "lp_ok L E from lp \<Longrightarrow> keeps (push_ok L E) (modify (set_pending from lp))"
  by (rule keeps_modify) (auto simp: push_ok_def set_pending_def)

lemma lp_ok_put: "lp_ok L E from lp \<Longrightarrow> entry_ok L E from nc pm \<Longrightarrow>
    lp_ok L E from (lp\<lparr>pm_nonce := k, pm_msgto := (pm_msgto lp)(nc \<mapsto> pm)\<rparr>)"
  by (auto simp: lp_ok_def)

lemma lp_ok_new: "lp_ok L E from (new_pending k)"
  by (simp add: lp_ok_def new_pending_def)

lemma push_ok_set_msgto: "(\<And>pm. x = Some pm \<Longrightarrow> entry_ok L E lid nc pm) \<Longrightarrow> keeps (push_ok L E) (modify (set_msgto lid nc x))"
  by (rule keeps_modify) (auto simp: push_ok_def set_msgto_def set_pending_def lp_ok_def split: option.splits)

lemma push_ok_lock: "keeps (push_ok L E) pp_Lock" "keeps (push_ok L E) pp_Unlock"
  unfolding pp_Lock_def pp_Unlock_def by (intro keeps_rules push_ok_other; simp)+

lemmas push_rules = keeps_rules push_ok_lock push_ok_sp push_ok_set_pending push_ok_set_msgto

lemma getPending_ok: "keeps (push_ok L E) (getPending L loc from)"
  unfolding getPending_def by (intro push_rules push_ok_other lp_ok_new) simp

lemma getPending_post: "push_ok L E p \<Longrightarrow> getPending L loc from p = (Inr lp, q) \<Longrightarrow> lp_ok L E from lp"
  using getPending_run [of L loc "from" p] lp_ok_new by (auto simp: push_ok_def pendingOf_def split: option.splits)

lemma keeps_getPending:
  "(\<And>lp. lp_ok L E from lp \<Longrightarrow> keeps (push_ok L E) (f lp)) \<Longrightarrow> keeps (push_ok L E) (bnd (getPending L loc from) f)"
  by (rule keeps_bnd_post [OF getPending_ok getPending_post])

lemma holdMsg_keeps: "mid = Message_Hash L E (sm_Message sm) \<Longrightarrow> keeps (push_ok L E) (holdMsg L mid sm)"
  unfolding holdMsg_def Let_def
  by (rule keeps_seq [OF push_ok_lock(1)], rule keeps_bnd [OF keeps_gets], rule keeps_getPending,
      intro keeps_seq keeps_reject keeps_bnd [OF push_ok_sp] push_ok_set_pending lp_ok_put push_ok_lock keeps_ret)
    (simp_all add: entry_ok_def)

lemma PushSignedMessage_keeps: "keeps (push_ok L E) (PushSignedMessage L E C sm)"
  unfolding PushSignedMessage_def Let_def by (intro push_rules holdMsg_keeps) simp

lemma takeNonce_keeps: "keeps (push_ok L E) (takeNonce L from)"
  unfolding takeNonce_def
  by (rule keeps_getPending, intro keeps_seq push_ok_set_pending keeps_ret) (simp add: lp_ok_def)

lemma push_api_keeps:
  "keeps (push_ok L E) (PushMessage L E C mes)" "keeps (push_ok L E) (PushGetPendingNonce L rid)"
  "keeps (push_ok L E) (GetPendingMsg order rid)" "keeps (push_ok L E) pushReady"
  unfolding PushMessage_def PushGetPendingNonce_def GetPendingMsg_def pushReady_def
  by (intro push_rules push_ok_other takeNonce_keeps PushSignedMessage_keeps getPending_ok; simp add: Let_def)+

lemma msgDone_ok: "push_ok L E p \<Longrightarrow> push_ok L E (p\<lparr>pp_pending := fold msgDone mds (pp_pending p)\<rparr>)"
proof (induction mds arbitrary: p)
  case (Cons md mds)
  have "push_ok L E (p\<lparr>pp_pending := msgDone md (pp_pending p)\<rparr>)"
    using Cons.prems by (auto simp: push_ok_def msgDone_def lp_ok_def split: option.splits if_splits)
  from Cons.IH [OF this] show ?case
    by simp
qed simp

lemma pushDone_keeps: "keeps (push_ok L E) pushDone"
  unfolding pushDone_def by (intro push_rules keeps_modify msgDone_ok)

lemma raisePrice_keeps: "entry_ok L E lid nc pm \<Longrightarrow> keeps (push_ok L E) (raisePrice L E lid nc pm)"
  unfolding raisePrice_def Let_def by (intro push_rules) (auto simp: entry_ok_def)

lemma repushMsg_keeps: "keeps (push_ok L E) (repushMsg L E lid nc)"
  unfolding repushMsg_def
  by (rule keeps_bnd_post [where R = "\<lambda>x. case fst x of Some (_, pm) \<Rightarrow> entry_ok L E lid nc pm | None \<Rightarrow> True"])
    (auto simp: push_ok_def lp_ok_def entry_ok_def bind_eq_Some_conv split: option.splits prod.splits
      intro!: push_rules raisePrice_keeps)

lemma repushMsgs_keeps: "keeps (push_ok L E) (repushMsgs L E nt lid ncs)"
  by (induction L E nt lid ncs rule: repushMsgs.induct) (auto simp only: repushMsgs.simps intro!: push_rules repushMsg_keeps)

lemma pushTick_keeps: "keeps (push_ok L E) (pushTick L E order)"
proof -
  have "keeps (push_ok L E) (repushLocals L E order nt ls)" for nt ls
    by (induction L E order nt ls rule: repushLocals.induct) (auto simp only: repushLocals.simps intro!: push_rules repushMsgs_keeps)
  then show ?thesis
    unfolding pushTick_def by (intro push_rules)
qed

text \<open>What a push pool does; the pool that it embeds changes on its own (\<open>push_sync\<close>).\<close>

inductive push_reach :: "lib \<Rightarrow> env \<Rightarrow> lru \<Rightarrow> PushPool \<Rightarrow> bool" for L E C where
  push_start: "push_reach L E C (NewPushPool L E sp)"
| push_sync: "push_reach L E C p \<Longrightarrow> push_reach L E C (p\<lparr>pp_sync := sp\<rparr>)"
| push_message: "push_reach L E C p \<Longrightarrow> push_reach L E C (snd (PushMessage L E C mes p))"
| push_signed: "push_reach L E C p \<Longrightarrow> push_reach L E C (snd (PushSignedMessage L E C sm p))"
| push_nonce: "push_reach L E C p \<Longrightarrow> push_reach L E C (snd (PushGetPendingNonce L rid p))"
| push_waited: "push_reach L E C p \<Longrightarrow> push_reach L E C (snd (pushReady p))"
| push_done: "push_reach L E C p \<Longrightarrow> push_reach L E C (snd (pushDone p))"
| push_tick: "push_reach L E C p \<Longrightarrow> push_reach L E C (snd (pushTick L E order p))"

lemma push_reach_ok: "push_reach L E C p \<Longrightarrow> push_ok L E p"
proof (induction rule: push_reach.induct)
  case (push_start sp)
  then show ?case
    by (simp add: push_ok_def NewPushPool_def split: prod.splits)
next
  case (push_sync p sp)
  then show ?case
    by (simp add: push_ok_def)
qed (simp_all add: keepsD push_api_keeps PushSignedMessage_keeps pushDone_keeps pushTick_keeps)

text \<open>A message that is numbered, signed and pushed.\<close>

lemma PushMessage_Inr:
  assumes "PushMessage L E C mes p = (Inr mid, q)"
  defines "n \<equiv> nextNonce L (msg_From mes) p" and "m \<equiv> mes\<lparr>msg_Nonce := nextNonce L (msg_From mes) p\<rparr>"
  shows "\<exists>sig. mid = Message_Hash L E m \<and>
    (\<exists>r r'. RoleVerify L E (msg_From mes) mid sig r = (Inr True, r')) \<and>
    sp_pubMsgs (pp_sync q) = sp_pubMsgs (pp_sync p) @ [\<lparr>sm_Message = m, sm_Signature = sig\<rparr>] \<and>
    (\<exists>lp pm. pp_pending q (msg_From mes) = Some lp \<and> pm_msgto lp n = Some pm \<and>
       mt_msg pm = \<lparr>sm_Message = m, sm_Signature = sig\<rparr> \<and> mt_msgID pm = mid) \<and>
    nextNonce L (msg_From mes) q = n + 1 \<and> \<not> pp_lk q"
proof -
  let ?from = "msg_From mes"
  have free: "\<not> pp_lk p" and ready: "pp_ready p"
    using assms(1) by (auto simp: PushMessage_def go_simps split: if_splits)
  obtain p1 where p1: "takeNonce L ?from (p\<lparr>pp_lk := True\<rparr>) = (Inr (nextNonce L ?from (p\<lparr>pp_lk := True\<rparr>)), p1)"
    "pp_pending p1 ?from = Some ((pendingOf L ?from (p\<lparr>pp_lk := True\<rparr>))\<lparr>pm_nonce := nextNonce L ?from (p\<lparr>pp_lk := True\<rparr>) + 1\<rparr>)"
    "pp_sync p1 = pp_sync p"
    using takeNonce_run [of L ?from "p\<lparr>pp_lk := True\<rparr>"] by auto
  have n: "nextNonce L ?from (p\<lparr>pp_lk := True\<rparr>) = n"
    by (simp add: n_def nextNonce_def split: option.split)
  obtain sig p2 where sign: "on_sp (on_rm (RoleSign L E ?from (Message_Hash L E m) SigSecp256k1)) (p1\<lparr>pp_lk := False\<rparr>) = (Inr sig, p2)"
    and push: "PushSignedMessage L E C \<lparr>sm_Message = m, sm_Signature = sig\<rparr> p2 = (Inr mid, q)"
    using assms(1) free ready p1(1)
    by (auto simp: PushMessage_def n n_def [symmetric] m_def Let_def bnd_Inr)
  have p2: "pp_pending p2 = pp_pending p1" "sp_pubMsgs (pp_sync p2) = sp_pubMsgs (pp_sync p)" "sp_st (pp_sync p2) = sp_st (pp_sync p)"
    using sign p1(3) by (auto simp: zoom_Inr)
  have next2: "nextNonce L ?from p2 = n + 1"
    using p1(2) p2(1) unfolding n by (simp add: nextNonce_def)
  have m: "msg_From m = ?from" "msg_Nonce m = n"
    by (simp_all add: m_def n_def)
  from PushSignedMessage_Inr [OF push] next2 p2(2) show ?thesis
    by (intro exI [of _ sig]) (auto simp: m nextNonce_def)
qed

section \<open>Properties\<close>

text \<open>
  C17: in every state of a push pool each pending message is kept under its own nonce and its
  own sender, with the identifier it hashes to, also after its price was raised, so that a
  digest of an applied block removes exactly the message it names.
\<close>

theorem pending_messages_consistent:
  assumes "push_reach L E C p" and "pp_pending p from = Some lp" and "pm_msgto lp nc = Some pm"
  shows "msg_Nonce (sm_Message (mt_msg pm)) = nc \<and> msg_From (sm_Message (mt_msg pm)) = from \<and>
    mt_msgID pm = Message_Hash L E (sm_Message (mt_msg pm))"
  using push_reach_ok [OF assms(1)] assms(2,3) by (auto simp: push_ok_def lp_ok_def entry_ok_def)

text \<open>
  C18: a message that is pushed gets the next nonce of its sender, is signed with a signature
  that verifies, is published last, waits under its nonce with its identifier, and leaves the
  nonce one higher and the mutex free.
\<close>

theorem push_message_numbered:
  assumes "PushMessage L E C mes p = (Inr mid, q)"
  defines "n \<equiv> nextNonce L (msg_From mes) p" and "m \<equiv> mes\<lparr>msg_Nonce := nextNonce L (msg_From mes) p\<rparr>"
  shows "\<exists>sig. mid = Message_Hash L E m \<and>
    (\<exists>r r'. RoleVerify L E (msg_From mes) mid sig r = (Inr True, r')) \<and>
    sp_pubMsgs (pp_sync q) = sp_pubMsgs (pp_sync p) @ [\<lparr>sm_Message = m, sm_Signature = sig\<rparr>] \<and>
    (\<exists>lp pm. pp_pending q (msg_From mes) = Some lp \<and> pm_msgto lp n = Some pm \<and>
       mt_msg pm = \<lparr>sm_Message = m, sm_Signature = sig\<rparr> \<and> mt_msgID pm = mid) \<and>
    nextNonce L (msg_From mes) q = n + 1 \<and> \<not> pp_lk q"
  using PushMessage_Inr [OF assms(1)] unfolding n_def m_def .

text \<open>
  C19: a signed message whose nonce is below the chain's or above the next one is refused, but
  with the mutex held: from then on no message is pushed, no nonce asked for and nothing
  published again, for ever.
\<close>

theorem wrong_nonce_deadlocks:
  assumes "RoleVerify L E (msg_From (sm_Message sm)) (Message_Hash L E (sm_Message sm)) (sm_Signature sm) (sp_rm (pp_sync p)) = (Inr True, r)"
    and "\<not> pp_lk p"
    and "msg_Nonce (sm_Message sm) < pm_chainNonce (pendingOf L (msg_From (sm_Message sm)) p) \<or>
      nextNonce L (msg_From (sm_Message sm)) p < msg_Nonce (sm_Message sm)"
  shows "\<exists>w q. PushSignedMessage L E C sm p = (Inl (Err w), q) \<and>
    (\<forall>mes. PushMessage L E C mes q = (Inl (Panic ''deadlock''), q)) \<and>
    (\<forall>rid. PushGetPendingNonce L rid q = (Inl (Panic ''deadlock''), q)) \<and>
    (\<forall>order. fst (pushTick L E order q) = Inl (Panic ''deadlock''))"
proof -
  let ?p = "p\<lparr>pp_sync := (pp_sync p)\<lparr>sp_rm := r\<rparr>\<rparr>" and ?from = "msg_From (sm_Message sm)"
  have same: "pendingOf L ?from ?p = pendingOf L ?from p" "nextNonce L ?from ?p = nextNonce L ?from p"
    by (simp_all add: pendingOf_def nextNonce_def split: option.split)
  have "\<not> pp_lk ?p"
    using assms(2) by simp
  from holdMsg_refuses [OF this, of sm L "Message_Hash L E (sm_Message sm)"] assms(3) obtain w q where
    "holdMsg L (Message_Hash L E (sm_Message sm)) sm ?p = (Inl (Err w), q)" "pp_lk q"
    unfolding same by blast
  with assms(1) show ?thesis
    by (intro exI [of _ w] exI [of _ q])
      (simp add: PushSignedMessage_def Let_def PushMessage_def PushGetPendingNonce_def pushTick_def zoom_def)
qed

text \<open>
  when the wallet fails to sign, the message is not sent but its nonce stays taken: the
  sender's next message gets the nonce after it, and the one in between is never used.
\<close>

theorem failed_sign_skips_nonce:
  assumes "pp_ready p" and "\<not> pp_lk p"
    and "RoleSign L E (msg_From mes) (Message_Hash L E (mes\<lparr>msg_Nonce := nextNonce L (msg_From mes) p\<rparr>)) SigSecp256k1
      (sp_rm (pp_sync p)) = (Inl (Err w), r)"
  shows "\<exists>q. PushMessage L E C mes p = (Inl (Err w), q) \<and> sp_pubMsgs (pp_sync q) = sp_pubMsgs (pp_sync p) \<and>
    nextNonce L (msg_From mes) q = nextNonce L (msg_From mes) p + 1 \<and>
    pm_msgto (pendingOf L (msg_From mes) q) = pm_msgto (pendingOf L (msg_From mes) p)"
proof -
  let ?from = "msg_From mes" and ?p = "p\<lparr>pp_lk := True\<rparr>"
  have same: "nextNonce L ?from ?p = nextNonce L ?from p" "pendingOf L ?from ?p = pendingOf L ?from p"
    by (simp_all add: nextNonce_def pendingOf_def split: option.split)
  obtain p1 where p1: "takeNonce L ?from ?p = (Inr (nextNonce L ?from p), p1)"
    "pp_pending p1 ?from = Some ((pendingOf L ?from p)\<lparr>pm_nonce := nextNonce L ?from p + 1\<rparr>)"
    "pp_sync p1 = pp_sync p" "pp_ready p1 = pp_ready p"
    using takeNonce_run [of L ?from ?p] same by auto
  then show ?thesis
    using assms by (simp add: PushMessage_def Let_def zoom_def nextNonce_def pendingOf_def)
qed

section \<open>An example\<close>

definition ex_push_msg :: Message where
  "ex_push_msg = ex_msg\<lparr>msg_From := 1, msg_Nonce := 0\<rparr>"

definition ex_push_env :: env where
  "ex_push_env = ex_pool_env\<lparr>en_cMessage := tab_codec [ex_push_msg],
     en_cSignedMessage := tab_codec [\<lparr>sm_Message = ex_push_msg, sm_Signature = \<lparr>sig_Type = SigSecp256k1, sig_Data = [7]\<rparr>\<rparr>]\<rparr>"

definition ex_push :: PushPool where
  "ex_push = snd (pushReady (NewPushPool ex0_lib ex_push_env (ex_pool\<lparr>sp_ready := True\<rparr>)))"

lemma ex_pool_rm_self: "rm_roleID ex_pool_rm = 1"
  by (simp add: ex_pool_rm_def RoleMgr_New_def ex_pool_env_def addRoleInfo_def list_role_def rm_put_def
      ex0_lib_def ex0_keeper_def zero_RoleInfo_def)

lemma on_role_same: "m (sp_rm (pp_sync p)) = (r, sp_rm (pp_sync p)) \<Longrightarrow> on_sp (on_rm m) p = (r, p)"
  by simp

lemma ex_push_fields:
  "pp_ready ex_push" "\<not> pp_lk ex_push" "pp_pending ex_push = (\<lambda>_. None)" "sp_rm (pp_sync ex_push) = ex_pool_rm"
  "sp_st (pp_sync ex_push) = ex0_state" "sp_ts (pp_sync ex_push) = ex_ts0"
  by (simp_all add: ex_push_def pushReady_def NewPushPool_def SyncGetInfo_def RoleSelf_def rm_get_def zoom_def
      ex_pool_rm_fields Let_def ex_pool_rm_self)

lemma ex_push_reach: "push_reach ex0_lib ex_push_env ex_lru ex_push"
  unfolding ex_push_def by (intro push_waited push_start)

lemma ex_push_nonce: "StateGetNonce ex0_lib 1 ex0_state = 0"
  by (simp add: StateGetNonce_def loadVal_def sget_def base_get_def smtGet_def list_trie_def ex0_lib_def zero_roleValue_def)

lemma ex_push_sign:
  "RoleSign ex0_lib ex_push_env 1 b SigSecp256k1 ex_pool_rm = (Inr \<lparr>sig_Type = SigSecp256k1, sig_Data = [7]\<rparr>, ex_pool_rm)"
  "RoleVerify ex0_lib ex_push_env 1 b \<lparr>sig_Type = SigSecp256k1, sig_Data = [7]\<rparr> ex_pool_rm = (Inr True, ex_pool_rm)"
proof -
  have "rm_get ex0_lib ex_push_env 1 ex_pool_rm = (Inr (zero_RoleInfo\<lparr>ri_Type := RoleInfo_Keeper,
     ri_RoleID := 1, ri_GroupID := 1, ri_ChainVerifyKey := [7], ri_BlsVerifyKey := [8]\<rparr>), ex_pool_rm)"
    by (simp add: rm_get_def ex_pool_rm_fields)
  moreover have "en_walletSign ex_push_env = (\<lambda>a m. Some a)"
    by (simp add: ex_push_env_def ex_pool_env_def)
  ultimately show "RoleSign ex0_lib ex_push_env 1 b SigSecp256k1 ex_pool_rm = (Inr \<lparr>sig_Type = SigSecp256k1, sig_Data = [7]\<rparr>, ex_pool_rm)"
    "RoleVerify ex0_lib ex_push_env 1 b \<lparr>sig_Type = SigSecp256k1, sig_Data = [7]\<rparr> ex_pool_rm = (Inr True, ex_pool_rm)"
    by (simp_all add: RoleSign_def RoleVerify_def keyTypeOf_def GetPubKey_def ex_pool_fns)
qed

lemma ex_push_run: "\<exists>mid q. PushMessage ex0_lib ex_push_env ex_lru ex_push_msg ex_push = (Inr mid, q)"
proof -
  let ?sm = "\<lparr>sm_Message = ex_push_msg, sm_Signature = \<lparr>sig_Type = SigSecp256k1, sig_Data = [7]\<rparr>\<rparr>"
  have m: "msg_From ex_push_msg = 1" "msg_Nonce ex_push_msg = 0" "ex_push_msg\<lparr>msg_Nonce := 0\<rparr> = ex_push_msg"
    by (simp_all add: ex_push_msg_def)
  have nonce: "nextNonce ex0_lib 1 p = 0" if "pp_pending p 1 = None" "sp_st (pp_sync p) = ex0_state" for p
    using that ex_push_nonce by (simp add: nextNonce_def)
  obtain p1 where p1: "takeNonce ex0_lib 1 (ex_push\<lparr>pp_lk := True\<rparr>) = (Inr 0, p1)"
    "pp_pending p1 1 = Some ((pendingOf ex0_lib 1 (ex_push\<lparr>pp_lk := True\<rparr>))\<lparr>pm_nonce := 1\<rparr>)"
    "pp_sync p1 = pp_sync ex_push"
    using takeNonce_run [of ex0_lib 1 "ex_push\<lparr>pp_lk := True\<rparr>"] nonce [of "ex_push\<lparr>pp_lk := True\<rparr>"]
    by (auto simp: ex_push_fields)
  let ?p = "p1\<lparr>pp_lk := False\<rparr>"
  have pend: "pendingOf ex0_lib 1 ?p = \<lparr>pm_chainNonce = 0, pm_nonce = 1, pm_msgto = (\<lambda>_. None)\<rparr>"
    using p1(2) ex_push_nonce by (simp add: pendingOf_def ex_push_fields new_pending_def)
  have "\<exists>q. holdMsg ex0_lib (Message_Hash ex0_lib ex_push_env ex_push_msg) ?sm ?p = (Inr True, q)"
    using holdMsg_ok [of ?p ex0_lib ?sm] pend p1(2) by (fastforce simp: m nextNonce_pending)
  then obtain q where hold: "holdMsg ex0_lib (Message_Hash ex0_lib ex_push_env ex_push_msg) ?sm ?p = (Inr True, q)" ..
  have rm: "sp_rm (pp_sync ?p) = ex_pool_rm"
    by (simp add: p1(3) ex_push_fields)
  have ver: "on_sp (on_rm (RoleVerify ex0_lib ex_push_env 1 b \<lparr>sig_Type = SigSecp256k1, sig_Data = [7]\<rparr>)) ?p = (Inr True, ?p)"
    and sign: "on_sp (on_rm (RoleSign ex0_lib ex_push_env 1 b SigSecp256k1)) ?p = (Inr \<lparr>sig_Type = SigSecp256k1, sig_Data = [7]\<rparr>, ?p)" for b
    by (rule on_role_same; simp only: rm ex_push_sign)+
  have "en_pubMsgFail ex_push_env = (\<lambda>_. False)"
    by (simp add: ex_push_env_def ex_pool_env_def)
  then have "\<exists>q'. PushSignedMessage ex0_lib ex_push_env ex_lru ?sm ?p = (Inr (Message_Hash ex0_lib ex_push_env ex_push_msg), q')"
    using hold ver by (simp add: PushSignedMessage_def Let_def m announceMsg_def PublishTxMsg_def)
  then show ?thesis
    using p1 sign by (auto simp: PushMessage_def ex_push_fields m Let_def)
qed

theorem push_message_numbered_witness:
  "\<exists>mid q. PushMessage ex0_lib ex_push_env ex_lru ex_push_msg ex_push = (Inr mid, q) \<and>
     nextNonce ex0_lib 1 q = nextNonce ex0_lib 1 ex_push + 1"
proof -
  obtain mid q where run: "PushMessage ex0_lib ex_push_env ex_lru ex_push_msg ex_push = (Inr mid, q)"
    using ex_push_run by blast
  have "msg_From ex_push_msg = 1"
    by (simp add: ex_push_msg_def)
  with push_message_numbered [OF run] run show ?thesis
    by auto
qed

theorem pending_messages_consistent_witness:
  "\<exists>q lp pm. push_reach ex0_lib ex_push_env ex_lru q \<and> pp_pending q 1 = Some lp \<and> pm_msgto lp 0 = Some pm \<and>
     msg_From (sm_Message (mt_msg pm)) = 1"
proof -
  obtain mid q where run: "PushMessage ex0_lib ex_push_env ex_lru ex_push_msg ex_push = (Inr mid, q)"
    using ex_push_run by blast
  have reach: "push_reach ex0_lib ex_push_env ex_lru q"
    using push_message [OF ex_push_reach, of ex_push_msg] run by simp
  have "msg_From ex_push_msg = 1" "nextNonce ex0_lib 1 ex_push = 0"
    by (simp_all add: ex_push_msg_def nextNonce_def ex_push_fields ex_push_nonce)
  then obtain lp pm where "pp_pending q 1 = Some lp" "pm_msgto lp 0 = Some pm"
    using PushMessage_Inr [OF run] by auto
  with pending_messages_consistent [OF reach this] reach show ?thesis
    by blast
qed

theorem wrong_nonce_deadlocks_witness:
  "\<exists>w q. PushSignedMessage ex0_lib ex_push_env ex_lru \<lparr>sm_Message = ex_push_msg\<lparr>msg_Nonce := 5\<rparr>,
       sm_Signature = \<lparr>sig_Type = SigSecp256k1, sig_Data = [7]\<rparr>\<rparr> ex_push = (Inl (Err w), q) \<and>
     PushMessage ex0_lib ex_push_env ex_lru ex_push_msg q = (Inl (Panic ''deadlock''), q)"
proof -
  let ?sm = "\<lparr>sm_Message = ex_push_msg\<lparr>msg_Nonce := 5\<rparr>, sm_Signature = \<lparr>sig_Type = SigSecp256k1, sig_Data = [7]\<rparr>\<rparr>"
  have f: "msg_From (sm_Message ?sm) = 1" "msg_Nonce (sm_Message ?sm) = 5"
    by (simp_all add: ex_push_msg_def)
  have "nextNonce ex0_lib 1 ex_push = 0"
    by (simp add: nextNonce_def ex_push_fields ex_push_nonce)
  then have big: "nextNonce ex0_lib (msg_From (sm_Message ?sm)) ex_push < msg_Nonce (sm_Message ?sm)"
    unfolding f by simp
  have ver: "RoleVerify ex0_lib ex_push_env (msg_From (sm_Message ?sm)) (Message_Hash ex0_lib ex_push_env (sm_Message ?sm))
      (sm_Signature ?sm) (sp_rm (pp_sync ex_push)) = (Inr True, ex_pool_rm)"
    unfolding f ex_push_fields by (simp add: ex_push_sign)
  from wrong_nonce_deadlocks [OF ver ex_push_fields(2), of ex_lru] big show ?thesis
    by blast
qed

end
