(* ===== verification/ProChal.thy ===== *)
theory ProChal
  imports PushPool ProServe
begin

text \<open>
  The challenge driver of a provider, \<open>service/provider/challenge\<close>: for each user and each epoch it
  adds up what the orders promise, reads the segments, makes a proof of storage and pushes it; segments
  that are missing are reported, orders that ended are retired and their segments deleted.

  The manager holds the push pool (and through it the state manager) and the data service.  The proof
  aggregator of the PDP scheme is what was added to it; what it makes of that is a parameter.  An early
  \<open>return\<close> is an error of the body, dropped at its end, so that the assignments before it stay.
\<close>

record segInfo =
  sgi_userID :: u64
  sgi_fsID :: bytes
  sgi_nextChal :: u64
  sgi_wait :: bool
  sgi_chalTime :: i64

text \<open>\<open>sg_pos\<close> is the loop variable of \<open>regularChallenge\<close>.\<close>

record SegMgr =
  sg_localID :: u64
  sg_epoch :: u64
  sg_eInfo :: ChalEpoch
  sg_users :: "u64 list"
  sg_sInfo :: "u64 \<Rightarrow> segInfo option"
  sg_inRemove :: bool
  sg_pos :: nat
  sg_data :: dataService
  sg_push :: PushPool
  sg_clock :: "nat \<Rightarrow> i64"
  sg_reads :: nat

text \<open>
  \<open>cv_tries\<close> is the number of attempts after which the model gives up on pushing a message, where
  the code goes on for ever.
\<close>

record cenv =
  cv_env :: env
  cv_lru :: lru
  cv_tries :: nat
  cv_pfNewFail :: "bytes \<Rightarrow> bytes \<Rightarrow> bool"
  cv_pfAddFail :: "bytes \<times> bytes \<times> bytes \<Rightarrow> bool"
  cv_pfResult :: "bytes \<Rightarrow> bytes \<Rightarrow> (bytes \<times> bytes \<times> bytes) list \<Rightarrow> bytes option"
  cv_proofBytes :: "bytes \<Rightarrow> bytes"

type_synonym 'a cgo = "(SegMgr, 'a) go"

abbreviation sg_on_push :: "'a ppgo \<Rightarrow> 'a cgo" where
  "sg_on_push m \<equiv> zoom sg_push (\<lambda>p g. g\<lparr>sg_push := p\<rparr>) m"

abbreviation sg_on_data :: "'a dtgo \<Rightarrow> 'a cgo" where
  "sg_on_data m \<equiv> zoom sg_data (\<lambda>d g. g\<lparr>sg_data := d\<rparr>) m"

abbreviation sg_state :: "SegMgr \<Rightarrow> StateMgr" where
  "sg_state g \<equiv> sp_st (pp_sync (sg_push g))"

definition sg_now :: "i64 cgo" where
  "sg_now g = (Inr (sg_clock g (sg_reads g)), g\<lparr>sg_reads := Suc (sg_reads g)\<rparr>)"

definition NewSegMgr :: "u64 \<Rightarrow> dataService \<Rightarrow> PushPool \<Rightarrow> (nat \<Rightarrow> i64) \<Rightarrow> SegMgr" where
  "NewSegMgr i d p clock = \<lparr>sg_localID = i, sg_epoch = 0, sg_eInfo = zero_ChalEpoch, sg_users = [], sg_sInfo = (\<lambda>_. None),
     sg_inRemove = False, sg_pos = 0, sg_data = d, sg_push = p, sg_clock = clock, sg_reads = 0\<rparr>"

section \<open>Messages\<close>

definition chalMsg :: "u64 \<Rightarrow> u64 \<Rightarrow> u32 \<Rightarrow> bytes \<Rightarrow> Message" where
  "chalMsg from to method data = \<lparr>msg_Version = 0, msg_From = from, msg_To = to, msg_Nonce = 0, msg_Value = None, msg_GasLimit = 0,
     msg_GasPrice = None, msg_Method = method, msg_Params = data\<rparr>"

fun tryPush :: "nat \<Rightarrow> lib \<Rightarrow> cenv \<Rightarrow> Message \<Rightarrow> bool cgo" where
  "tryPush 0 L C msg = ret False"
| "tryPush (Suc n) L C msg =
     bnd (attempt (sg_on_push (PushMessage L (cv_env C) (cv_lru C) msg))) (\<lambda>res. case res of
       Inl _ \<Rightarrow> tryPush n L C msg | Inr _ \<Rightarrow> ret True)"

text \<open>\<open>pushMessage\<close> tries until it succeeds; the state of the message comes back with \<open>chalResult\<close>.\<close>

definition seg_pushMessage :: "lib \<Rightarrow> cenv \<Rightarrow> Message \<Rightarrow> unit cgo" where
  "seg_pushMessage L C msg =
     bnd (tryPush (cv_tries C) L C msg) (\<lambda>ok. if ok then ret () else fail (Panic ''still pushing''))"

text \<open>Ten minutes of attempts, five seconds apart; what became of the message is only logged by the caller.\<close>

definition pushAndWaitMessage :: "lib \<Rightarrow> cenv \<Rightarrow> Message \<Rightarrow> unit cgo" where
  "pushAndWaitMessage L C msg = bnd (tryPush 120 L C msg) (\<lambda>ok. reject (\<not> ok) ''context deadline exceeded'')"

section \<open>Users\<close>

definition loadFs :: "lib \<Rightarrow> u64 \<Rightarrow> segInfo option cgo" where
  "loadFs L u =
     bnd (gets (\<lambda>g. (sg_sInfo g u, StateGetPDPPublicKey L u (sg_state g)))) (\<lambda>(mi, md). case mi of
       Some si \<Rightarrow> ret (Some si)
     | None \<Rightarrow> (case Option.bind md (lb_pdpPublicKey L) of
         None \<Rightarrow> ret None
       | Some pk \<Rightarrow>
           let si = \<lparr>sgi_userID = u, sgi_fsID = lb_vkHash L (lb_pkVerifyKey L pk), sgi_nextChal = 0, sgi_wait = False, sgi_chalTime = 0\<rparr> in
           seq (modify (\<lambda>g. g\<lparr>sg_users := sg_users g @ [u], sg_sInfo := (sg_sInfo g)(u \<mapsto> si)\<rparr>)) (ret (Some si))))"

text \<open>An assignment to a field of \<open>si\<close>, which is the entry of the map.\<close>

definition setSi :: "u64 \<Rightarrow> (segInfo \<Rightarrow> segInfo) \<Rightarrow> unit cgo" where
  "setSi u f = modify (\<lambda>g. g\<lparr>sg_sInfo := (sg_sInfo g)(u := map_option f (sg_sInfo g u))\<rparr>)"

definition sg_load :: "lib \<Rightarrow> unit cgo" where
  "sg_load L =
     bnd (gets (\<lambda>g. StateGetUsersAt L (sg_localID g) (sg_state g))) (\<lambda>us.
     forM us (\<lambda>u. bnd (loadFs L u) (\<lambda>_. ret ())))"

text \<open>The round of the ticker, and what \<open>Start\<close> does first.\<close>

definition epochUpdate :: "unit cgo" where
  "epochUpdate = modify (\<lambda>g. g\<lparr>sg_epoch := si_Epoch (StateGetInfo (sg_state g)), sg_eInfo := StateGetChalEpochInfo (sg_state g)\<rparr>)"

section \<open>Retiring orders\<close>

fun subOrders :: "lib \<Rightarrow> cenv \<Rightarrow> u64 \<Rightarrow> i64 \<Rightarrow> nat list \<Rightarrow> unit cgo" where
  "subOrders L C u target [] = ret ()"
| "subOrders L C u target (i # is) =
     bnd (gets (\<lambda>g. (StateGetOrder L u (sg_localID g) (of_nat i) (sg_state g), sg_localID g))) (\<lambda>(mof, me).
     bnd (orErr ''not found order'' mof) (\<lambda>full.
     if sint (so_End (of_SignedOrder full)) > sint target then ret ()
     else
       bnd (Serialize (lb_cOrderSubParas L) \<lparr>osp_UserID = u, osp_ProID = me, osp_Nonce = of_nat i\<rparr>) (\<lambda>data.
       seq (seg_pushMessage L C (chalMsg me u SubDataOrder data))
           (subOrders L C u target is))))"

text \<open>A nonce is below the largest number, so the loop up to and including it ends.\<close>

definition subDataOrder :: "lib \<Rightarrow> cenv \<Rightarrow> u64 \<Rightarrow> unit cgo" where
  "subDataOrder L C u =
     bnd (gets (\<lambda>g. (StateGetChalEpochInfoAt L (sg_epoch g - 2) (sg_state g),
            StateGetOrderNonce L u (sg_localID g) (- 1) (sg_state g)))) (\<lambda>(mp, ns).
     bnd (orErr ''not found'' mp) (\<lambda>pce.
     subOrders L C u (slotTime (ce_Slot pce)) [unat (ns_SubNonce ns)..<Suc (unat (ns_Nonce ns))]))"

section \<open>Deleting segments\<close>

text \<open>\<open>for j := seg.Start; j < seg.Start+seg.Length; j++\<close>: nothing when the sum wraps around.\<close>

definition stripesOf :: "AggSegs \<Rightarrow> u64 list" where
  "stripesOf sg = map (\<lambda>k. as_Start sg + of_nat k)
     [0..<(if as_Start sg \<le> as_Start sg + as_Length sg then unat (as_Length sg) else 0)]"

definition deleteStripes :: "cenv \<Rightarrow> segInfo option \<Rightarrow> AggSegs list \<Rightarrow> unit cgo" where
  "deleteStripes C msi segs = forM segs (\<lambda>sg. forM (stripesOf sg) (\<lambda>j.
     bnd (deref ''nil segInfo'' msi) (\<lambda>si. case NewSegmentID (sgi_fsID si) (as_BucketID sg) j (as_ChunkID sg) of
       Inl _ \<Rightarrow> ret () | Inr sid \<Rightarrow> dropErr (sg_on_data (DeleteSegment (cv_env C) sid)))))"

definition RemoveSeg :: "lib \<Rightarrow> cenv \<Rightarrow> SegRemoveParas \<Rightarrow> unit cgo" where
  "RemoveSeg L C srp =
     bnd (gets sg_localID) (\<lambda>me.
     if srp_ProID srp \<noteq> me then ret ()
     else bnd (loadFs L (srp_UserID srp)) (\<lambda>msi. deleteStripes C msi (srp_Segments srp)))"

definition MT_OrderExpiredKey :: nat where "MT_OrderExpiredKey = 59"

definition expiredKey :: "u64 \<Rightarrow> u64 \<Rightarrow> bytes" where
  "expiredKey u p = skey MT_OrderExpiredKey [unat u, unat p]"

definition removeSegInExpiredOrder :: "lib \<Rightarrow> cenv \<Rightarrow> u64 \<Rightarrow> u64 \<Rightarrow> unit cgo" where
  "removeSegInExpiredOrder L C u nonce =
     bnd (gets (\<lambda>g. (StateGetOrder L u (sg_localID g) nonce (sg_state g), sg_localID g))) (\<lambda>(mof, me).
     bnd (orErr ''not found order'' mof) (\<lambda>full.
     bnd (loadFs L u) (\<lambda>msi.
     seq (forM [0..<unat (of_SeqNum full)] (\<lambda>i.
            bnd (gets (\<lambda>g. StateGetOrderSeq L u me nonce (of_nat i) (sg_state g))) (\<lambda>msf.
            bnd (orErr ''not found order seq'' msf) (\<lambda>sf.
            deleteStripes C msi (os_Segments (sf_OrderSeq sf))))))
         (sg_on_data (zoom dt_ds (\<lambda>k d. d\<lparr>dt_ds := k\<rparr>) (kv_put L (expiredKey u me) (PutUint64 (nonce + 1))))))))"

definition removeExpiredUser :: "lib \<Rightarrow> cenv \<Rightarrow> u64 \<Rightarrow> unit cgo" where
  "removeExpiredUser L C u =
     bnd (gets (\<lambda>g. (case dt_ds (sg_data g) (expiredKey u (sg_localID g)) of
              Some v \<Rightarrow> if length v \<ge> 8 then Uint64 v else 0 | None \<Rightarrow> 0,
            StateGetOrderNonce L u (sg_localID g) (- 1) (sg_state g)))) (\<lambda>(n, ns).
     forM [unat n..<unat (ns_SubNonce ns)] (\<lambda>i. dropErr (removeSegInExpiredOrder L C u (of_nat i))))"

definition removeExpiredChunk :: "lib \<Rightarrow> cenv \<Rightarrow> unit cgo" where
  "removeExpiredChunk L C =
     bnd (gets sg_inRemove) (\<lambda>busy.
     if busy then ret ()
     else
       seq (modify (\<lambda>g. g\<lparr>sg_inRemove := True\<rparr>))
      (bnd (gets (\<lambda>g. StateGetUsersAt L (sg_localID g) (sg_state g))) (\<lambda>us.
       seq (forM us (removeExpiredUser L C))
           (modify (\<lambda>g. g\<lparr>sg_inRemove := False\<rparr>)))))"

section \<open>Segments of a challenge\<close>

text \<open>What was added to the proof: identifier, content, first tag.\<close>

type_synonym added = "(bytes \<times> bytes \<times> bytes) list"

definition segAt :: "bytes \<Rightarrow> AggSegs \<Rightarrow> u64 \<Rightarrow> bytes" where
  "segAt sid sg j = SetStripeID j (SetChunkID (as_ChunkID sg) (SetBucketID (as_BucketID sg) sid))"

definition oneSeg :: "AggSegs \<Rightarrow> u64 \<Rightarrow> AggSegs" where
  "oneSeg sg j = \<lparr>as_BucketID = as_BucketID sg, as_Start = j, as_Length = 1, as_ChunkID = as_ChunkID sg\<rparr>"

definition addProof :: "cenv \<Rightarrow> bytes \<Rightarrow> bytes \<Rightarrow> bytes \<Rightarrow> AggSegs list \<times> added \<Rightarrow> (AggSegs list \<times> added) cgo" where
  "addProof C sid data tag fa =
     seq (reject (cv_pfAddFail C (sid, data, tag)) ''add to proof'') (ret (fst fa, snd fa @ [(sid, data, tag)]))"

text \<open>
  A stripe of the open order.  The errors of \<open>Content\<close> and \<open>Tags\<close> are ignored and the first tag is
  taken of whatever came back.
\<close>

definition openStripe :: "cenv \<Rightarrow> bytes \<Rightarrow> AggSegs list \<Rightarrow> AggSegs \<Rightarrow> u64 \<Rightarrow> AggSegs list \<times> added \<Rightarrow> (AggSegs list \<times> added) cgo" where
  "openStripe C sid0 del sg j fa =
     (if AggSegs_Has del (as_BucketID sg) j (as_ChunkID sg) then ret fa
      else let sid = segAt sid0 sg j in
        bnd (attempt (sg_on_data (GetSegmentFromLocal (cv_env C) sid))) (\<lambda>res. case res of
          Inl _ \<Rightarrow> seq (dropErr (sg_on_data (DeleteSegment (cv_env C) sid))) (ret (AggSegs_Push (fst fa) (oneSeg sg j), snd fa))
        | Inr b \<Rightarrow> (case (case Segment_Tags b of Inl _ \<Rightarrow> [] | Inr ts \<Rightarrow> ts) of
            [] \<Rightarrow> fail (Panic ''index out of range'')
          | t # _ \<Rightarrow> addProof C sid (case Segment_Content b of Inl _ \<Rightarrow> [] | Inr d \<Rightarrow> d) t fa)))"

text \<open>A stripe of an order that was committed: what cannot be read is reported.\<close>

definition oldStripe :: "cenv \<Rightarrow> bytes \<Rightarrow> AggSegs list \<Rightarrow> AggSegs \<Rightarrow> u64 \<Rightarrow> AggSegs list \<times> added \<Rightarrow> (AggSegs list \<times> added) cgo" where
  "oldStripe C sid0 del sg j fa =
     (if AggSegs_Has del (as_BucketID sg) j (as_ChunkID sg) then ret fa
      else let sid = segAt sid0 sg j; faulty = ret (AggSegs_Push (fst fa) (oneSeg sg j), snd fa) in
        bnd (attempt (sg_on_data (GetSegmentFromLocal (cv_env C) sid))) (\<lambda>res. case res of
          Inl _ \<Rightarrow> faulty
        | Inr b \<Rightarrow> (case (Segment_Content b, Segment_Tags b) of
            (Inr d, Inr (t # _)) \<Rightarrow> addProof C sid d t fa
          | _ \<Rightarrow> faulty)))"

text \<open>All stripes of a sequence; when some are missing they are reported and the challenge is given up.\<close>

definition seqStripes ::
  "(AggSegs \<Rightarrow> u64 \<Rightarrow> AggSegs list \<times> added \<Rightarrow> (AggSegs list \<times> added) cgo) \<Rightarrow> AggSegs list \<Rightarrow> added \<Rightarrow> (AggSegs list \<times> added) cgo" where
  "seqStripes stripe segs ad = foldM segs ([], ad) (\<lambda>sg fa. foldM (stripesOf sg) fa (stripe sg))"

definition reportFault :: "lib \<Rightarrow> cenv \<Rightarrow> u64 \<Rightarrow> u64 \<Rightarrow> u32 \<Rightarrow> AggSegs list \<times> added \<Rightarrow> added cgo" where
  "reportFault L C u nonce q fa =
     (if fst fa = [] then ret (snd fa)
      else
        bnd (gets sg_localID) (\<lambda>me.
        bnd (Serialize (lb_cSegRemoveParas L) \<lparr>srp_UserID = u, srp_ProID = me, srp_Nonce = nonce, srp_SeqNum = q,
               srp_Segments = AggSegs_Merge (lb_sortAggSegs L) (fst fa)\<rparr>) (\<lambda>data.
        seq (dropErr (pushAndWaitMessage L C (chalMsg me u SegmentFault data)))
            (fail (Err ''has fault segments'')))))"

section \<open>Totals of a challenge\<close>

text \<open>How much of the period the order covers; here an order inside the period has a case of its own.\<close>

definition proOrderDur :: "i64 \<Rightarrow> i64 \<Rightarrow> SignedOrder \<Rightarrow> i64 \<Rightarrow> i64" where
  "proOrderDur cs ce ord old =
     (if sint (so_Start ord) \<le> sint cs \<and> sint (so_End ord) \<ge> sint ce then ce - cs
      else if sint (so_Start ord) \<le> sint cs \<and> sint (so_End ord) \<le> sint ce then so_End ord - cs
      else if sint (so_Start ord) \<ge> sint cs \<and> sint (so_End ord) \<ge> sint ce then ce - so_Start ord
      else if sint (so_Start ord) \<ge> sint cs \<and> sint (so_End ord) \<le> sint ce then so_End ord - so_Start ord
      else old)"

definition addSeqTotals :: "lib \<Rightarrow> bool \<Rightarrow> SeqFull \<Rightarrow> chal_acc \<Rightarrow> ('s, chal_acc) go" where
  "addSeqTotals L final sf a =
     bnd (deref ''nil Price'' (dp_Price (sf_DelPart sf))) (\<lambda>dp.
     let a1 = a\<lparr>ca_totalPrice := ca_totalPrice a - dp * sint (ca_orderDur a),
                ca_delSize := ca_delSize a + dp_Size (sf_DelPart sf),
                ca_chal := lb_chalAdd L (ca_chal a) (lb_frSubBytes L (sf_AccFr sf) (dp_AccFr (sf_DelPart sf)))\<rparr> in
     if final then
       bnd (deref ''nil Price'' (os_Price (sf_OrderSeq sf))) (\<lambda>p.
       ret (a1\<lparr>ca_totalSize := ca_totalSize a1 + os_Size (sf_OrderSeq sf),
               ca_totalPrice := ca_totalPrice a1 + p * sint (ca_orderDur a1)\<rparr>))
     else ret a1)"

definition addOrderTotals :: "lib \<Rightarrow> i64 \<Rightarrow> OrderFull \<Rightarrow> chal_acc \<Rightarrow> ('s, chal_acc) go" where
  "addOrderTotals L dur full a =
     bnd (deref ''nil Price'' (so_Price (of_SignedOrder full))) (\<lambda>p.
     bnd (deref ''nil Price'' (dp_Price (of_DelPart full))) (\<lambda>dp.
     ret (a\<lparr>ca_orderDur := dur,
            ca_totalPrice := ca_totalPrice a + (p - dp) * sint dur,
            ca_delSize := ca_delSize a + dp_Size (of_DelPart full),
            ca_totalSize := ca_totalSize a + so_Size (of_SignedOrder full),
            ca_chal := lb_chalAdd L (ca_chal a) (lb_frSubBytes L (of_AccFr full) (dp_AccFr (of_DelPart full)))\<rparr>)))"

text \<open>The totals, what was added to the proof, and \<open>orderStart\<close>.\<close>

record chal_run =
  cr_acc :: chal_acc
  cr_added :: added
  cr_start :: u64

definition openSeqStep :: "lib \<Rightarrow> cenv \<Rightarrow> u64 \<Rightarrow> bytes \<Rightarrow> NonceSeq \<Rightarrow> nat \<Rightarrow> chal_run \<Rightarrow> chal_run cgo" where
  "openSeqStep L C u sid0 ns i r =
     bnd (gets (\<lambda>g. StateGetOrderSeq L u (sg_localID g) (ns_Nonce ns) (of_nat i) (sg_state g))) (\<lambda>msf.
     bnd (orErr ''not found order seq'' msf) (\<lambda>sf.
     bnd (addSeqTotals L ((of_nat i :: u32) = ns_SeqNum ns - 1) sf (cr_acc r)) (\<lambda>a.
     bnd (seqStripes (openStripe C sid0 (sf_DelSegs sf)) (os_Segments (sf_OrderSeq sf)) (cr_added r)) (\<lambda>fa.
     bnd (reportFault L C u (ns_Nonce ns) (of_nat i) fa) (\<lambda>ad.
     ret (r\<lparr>cr_acc := a, cr_added := ad\<rparr>))))))"

definition skipEpoch :: "u64 \<Rightarrow> string \<Rightarrow> 'a cgo" where
  "skipEpoch u why = seq (setSi u (\<lambda>si. si\<lparr>sgi_nextChal := sgi_nextChal si + 1\<rparr>)) (fail (Err why))"

definition openOrder :: "lib \<Rightarrow> cenv \<Rightarrow> u64 \<Rightarrow> bytes \<Rightarrow> NonceSeq \<Rightarrow> i64 \<Rightarrow> i64 \<Rightarrow> chal_run \<Rightarrow> chal_run cgo" where
  "openOrder L C u sid0 ns cs ce r =
     (if ns_SeqNum ns > 0 then
        bnd (gets (\<lambda>g. StateGetOrder L u (sg_localID g) (ns_Nonce ns) (sg_state g))) (\<lambda>mof.
        bnd (orErr ''not found order'' mof) (\<lambda>full.
        if sint (so_Start (of_SignedOrder full)) \<ge> sint ce then skipEpoch u ''time is not up''
        else
          seq (reject (sint (so_End (of_SignedOrder full)) \<le> sint cs) ''orders all expired'')
              (foldM [0..<unat (ns_SeqNum ns)]
                 (r\<lparr>cr_acc := (cr_acc r)\<lparr>ca_orderDur := proOrderDur cs ce (of_SignedOrder full) (ca_orderDur (cr_acc r))\<rparr>\<rparr>)
                 (openSeqStep L C u sid0 ns))))
      else ret r)"

definition oldSeqStep :: "lib \<Rightarrow> cenv \<Rightarrow> u64 \<Rightarrow> bytes \<Rightarrow> nat \<Rightarrow> nat \<Rightarrow> added \<Rightarrow> added cgo" where
  "oldSeqStep L C u sid0 i k ad =
     bnd (gets (\<lambda>g. StateGetOrderSeq L u (sg_localID g) (of_nat i) (of_nat k) (sg_state g))) (\<lambda>msf.
     bnd (orErr ''not found order seq'' msf) (\<lambda>sf.
     bnd (seqStripes (oldStripe C sid0 (sf_DelSegs sf)) (os_Segments (sf_OrderSeq sf)) ad) (\<lambda>fa.
     reportFault L C u (of_nat i) (of_nat k) fa)))"

definition oldOrderStep :: "lib \<Rightarrow> cenv \<Rightarrow> u64 \<Rightarrow> bytes \<Rightarrow> i64 \<Rightarrow> i64 \<Rightarrow> nat \<Rightarrow> chal_run \<Rightarrow> chal_run cgo" where
  "oldOrderStep L C u sid0 cs ce i r =
     bnd (gets (\<lambda>g. StateGetOrder L u (sg_localID g) (of_nat i) (sg_state g))) (\<lambda>mof.
     bnd (orErr ''not found order'' mof) (\<lambda>full.
     if sint (so_Start (of_SignedOrder full)) \<ge> sint ce then skipEpoch u ''order is not up''
     else if sint (so_End (of_SignedOrder full)) \<le> sint cs then ret (r\<lparr>cr_start := of_nat i + 1\<rparr>)
     else
       bnd (addOrderTotals L (proOrderDur cs ce (of_SignedOrder full) (ca_orderDur (cr_acc r))) full (cr_acc r)) (\<lambda>a.
       bnd (foldM [0..<unat (of_SeqNum full)] (cr_added r) (oldSeqStep L C u sid0 i)) (\<lambda>ad.
       ret (r\<lparr>cr_acc := a, cr_added := ad\<rparr>)))))"

definition oldOrders :: "lib \<Rightarrow> cenv \<Rightarrow> u64 \<Rightarrow> bytes \<Rightarrow> NonceSeq \<Rightarrow> i64 \<Rightarrow> i64 \<Rightarrow> chal_run \<Rightarrow> chal_run cgo" where
  "oldOrders L C u sid0 ns cs ce r =
     (if ns_Nonce ns > 0 then foldM [unat (ns_SubNonce ns)..<unat (ns_Nonce ns)] r (oldOrderStep L C u sid0 cs ce) else ret r)"

section \<open>The challenge of a user\<close>

text \<open>Whether there is something to prove for the epoch; the file system of the user.  The clock counts nanoseconds.\<close>

definition chalDue :: "lib \<Rightarrow> u64 \<Rightarrow> bytes cgo" where
  "chalDue L u =
     bnd (gets (\<lambda>g. (sg_epoch g, ce_Epoch (sg_eInfo g)))) (\<lambda>(epoch, e).
     seq (reject (epoch < 2) ''challenge not at epoch'')
    (bnd (loadFs L u) (\<lambda>msi.
     bnd (deref ''nil segInfo'' msi) (\<lambda>si.
     seq (reject (sgi_nextChal si > e) ''challenge done'')
    (seq (setSi u (\<lambda>si. si\<lparr>sgi_nextChal := e\<rparr>))
    (if sgi_wait si then
       bnd sg_now (\<lambda>t.
       seq (if sint (t - sgi_chalTime si) > 600000000000 then setSi u (\<lambda>si. si\<lparr>sgi_wait := False\<rparr>) else ret ())
           (fail (Err ''waiting'')))
     else
       bnd (gets (\<lambda>g. StateGetProofEpoch L u (sg_localID g) (sg_state g))) (\<lambda>proved.
       seq (reject (proved > e) ''challenge has done'')
           (ret (sgi_fsID si)))))))))"

definition chalHash :: "lib \<Rightarrow> u64 \<Rightarrow> MsgID \<Rightarrow> bytes" where
  "chalHash L u seed = lb_blake3 L (PutUint64 u @ seed)"

text \<open>The proof is made and verified before it is sent.\<close>

definition chalProof :: "lib \<Rightarrow> cenv \<Rightarrow> u64 \<Rightarrow> bytes \<Rightarrow> bytes \<Rightarrow> u64 \<Rightarrow> chal_run \<Rightarrow> SegChalParams cgo" where
  "chalProof L C u pk bh nonce r =
     (if cr_added r = [] then skipEpoch u ''zero size''
      else let tot = ca_totalSize (cr_acc r) - ca_delSize (cr_acc r) in
        seq (reject (tot = 0) ''zero size'')
       (bnd (orErr ''proof'' (cv_pfResult C pk bh (cr_added r))) (\<lambda>res.
        bnd (orErr ''verify'' (lb_verifyProof L (lb_pkVerifyKey L pk) (ca_chal (cr_acc r)) res)) (\<lambda>ok.
        seq (reject (\<not> ok) ''wrong proof'')
       (bnd (gets (\<lambda>g. (sg_localID g, ce_Epoch (sg_eInfo g)))) (\<lambda>(me, e).
        ret \<lparr>scp_UserID = u, scp_ProID = me, scp_Epoch = e, scp_OrderStart = cr_start r, scp_OrderEnd = nonce,
          scp_Size = tot, scp_Price = Some (ca_totalPrice (cr_acc r)), scp_Proof = cv_proofBytes C res\<rparr>))))))"

text \<open>From the seed of the epoch to the parameters of the message.\<close>

definition chalParams :: "lib \<Rightarrow> cenv \<Rightarrow> u64 \<Rightarrow> bytes \<Rightarrow> SegChalParams cgo" where
  "chalParams L C u fsid =
     bnd (gets (\<lambda>g. (sg_eInfo g, StateGetPDPPublicKey L u (sg_state g),
            StateGetOrderNonce L u (sg_localID g) (ce_Epoch (sg_eInfo g)) (sg_state g),
            StateGetChalEpochInfoAt L (ce_Epoch (sg_eInfo g) - 1) (sg_state g)))) (\<lambda>(e, mkey, ns, mp).
     let bh = chalHash L u (ce_Seed e) in
     bnd (orErr ''public key'' (Option.bind mkey (lb_pdpPublicKey L))) (\<lambda>pk.
     bnd (orErr ''challenge'' (lb_newChallenge L (lb_pkVerifyKey L pk) bh)) (\<lambda>chal.
     seq (reject (cv_pfNewFail C pk bh) ''proof'')
    (bnd (orFail (NewSegmentID fsid 0 0 0)) (\<lambda>sid0.
     if ns_Nonce ns = 0 \<and> ns_SeqNum ns = 0 then skipEpoch u ''empty data''
     else
       bnd (orErr ''wrong epoch'' mp) (\<lambda>pce.
       let cs = slotTime (ce_Slot pce); ce = slotTime (ce_Slot e) in
       seq (reject (sint (ce - cs) \<le> 0) ''wrong epoch'')
      (bnd (openOrder L C u sid0 ns cs ce \<lparr>cr_acc = \<lparr>ca_orderDur = 0, ca_totalPrice = 0, ca_totalSize = 0, ca_delSize = 0, ca_chal = chal\<rparr>,
              cr_added = [], cr_start = ns_SubNonce ns\<rparr>) (\<lambda>r.
       bnd (oldOrders L C u sid0 ns cs ce r)
           (chalProof L C u pk bh (ns_Nonce ns))))))))))"

text \<open>A failed encoding is logged and the message sent without parameters.\<close>

definition sendProof :: "lib \<Rightarrow> cenv \<Rightarrow> u64 \<Rightarrow> SegChalParams \<Rightarrow> unit cgo" where
  "sendProof L C u scp =
     bnd (gets sg_localID) (\<lambda>me.
     bnd sg_now (\<lambda>t.
     seq (setSi u (\<lambda>si. si\<lparr>sgi_chalTime := t, sgi_wait := True\<rparr>))
         (seg_pushMessage L C (chalMsg me u SegmentProof (case marshal (lb_cSegChalParams L) scp of Some b \<Rightarrow> b | None \<Rightarrow> [])))))"

definition challenge :: "lib \<Rightarrow> cenv \<Rightarrow> u64 \<Rightarrow> unit cgo" where
  "challenge L C u = dropErr (
     bnd (chalDue L u) (\<lambda>fsid.
     seq (dropErr (subDataOrder L C u))
         (bnd (chalParams L C u fsid) (sendProof L C u))))"

section \<open>The loop\<close>

text \<open>A result that comes back on the channel.\<close>

definition chalResult :: "lib \<Rightarrow> u64 \<Rightarrow> 16 word \<Rightarrow> unit cgo" where
  "chalResult L u code =
     bnd (loadFs L u) (\<lambda>msi.
     bnd sg_now (\<lambda>t.
     bnd (deref ''nil segInfo'' msi) (\<lambda>_.
     setSi u (\<lambda>si. if code \<noteq> 0 then si\<lparr>sgi_chalTime := t, sgi_wait := False\<rparr>
                   else si\<lparr>sgi_chalTime := t, sgi_wait := False, sgi_nextChal := sgi_nextChal si + 1\<rparr>))))"

definition chalNext :: "lib \<Rightarrow> cenv \<Rightarrow> unit cgo" where
  "chalNext L C =
     bnd (gets sg_users) (\<lambda>us.
     if us = [] then ret ()
     else
       seq (modify (\<lambda>g. if length us \<le> sg_pos g then g\<lparr>sg_pos := 0\<rparr> else g))
      (bnd (gets sg_pos) (\<lambda>i.
       seq (challenge L C (us ! i))
           (modify (\<lambda>g. g\<lparr>sg_pos := Suc (sg_pos g)\<rparr>)))))"

end
