(* ===== verification/ProChalSafe.thy ===== *)
theory ProChalSafe
  imports ProChal OrderLife
begin

text \<open>
  What the challenge driver of a provider computes is what the data chain checks: the totals of size,
  price and challenge are built by the same steps, so the message that carries them passes every check
  of \<open>addSegProof\<close>.  A simulation of two folds, the provider's with its side effects and the chain's
  over the same stored orders, carries the proof.
\<close>

section \<open>Folds that agree\<close>

lemma unat_u64_less: "unat (w :: u64) < 2 ^ 64"
  by (rule order_less_le_trans [OF unsigned_less]) simp

lemma unat_of_nat_u64: "n < 2 ^ 64 \<Longrightarrow> unat (of_nat n :: u64) = n"
  by (simp add: unat_of_nat take_bit_nat_eq_self)

lemma foldM_sim:
  assumes "foldM xs r f g = (Inr r', g')" and "I r g"
    and step: "\<And>x r g r' g'. x \<in> set xs \<Longrightarrow> I r g \<Longrightarrow> f x r g = (Inr r', g') \<Longrightarrow> I r' g' \<and> h x (\<phi> r) s = (Inr (\<phi> r'), s)"
  shows "I r' g' \<and> foldM xs (\<phi> r) h s = (Inr (\<phi> r'), s)"
  using assms
proof (induction xs arbitrary: r g)
  case (Cons x xs)
  then obtain r1 g1 where x: "f x r g = (Inr r1, g1)" and xs: "foldM xs r1 f g1 = (Inr r', g')"
    by (auto simp: bnd_Inr)
  from Cons.prems(3) [OF _ Cons.prems(2) x] have x: "I r1 g1" "h x (\<phi> r) s = (Inr (\<phi> r1), s)"
    by auto
  have "I r' g' \<and> foldM xs (\<phi> r1) h s = (Inr (\<phi> r'), s)"
    by (rule Cons.IH [OF xs x(1)]) (rule Cons.prems(3); simp)
  with x(2) show ?case by simp
qed simp

text \<open>What the provider sees of the chain does not change while it reads segments.\<close>

definition seen_by :: "u64 \<Rightarrow> ChalEpoch \<Rightarrow> StateMgr \<Rightarrow> SegMgr \<Rightarrow> bool" where
  "seen_by p e s g \<longleftrightarrow> sg_localID g = p \<and> sg_eInfo g = e \<and> sg_state g = s"

lemma keeps_on_data: "keeps (seen_by p e s) (sg_on_data m)"
  by (rule keepsI) (auto simp: zoom_def seen_by_def split: prod.splits)

lemma keeps_case_option [keeps_rules]:
  "(x = None \<Longrightarrow> keeps P m) \<Longrightarrow> (\<And>y. x = Some y \<Longrightarrow> keeps P (f y)) \<Longrightarrow> keeps P (case x of None \<Rightarrow> m | Some y \<Rightarrow> f y)"
  by (cases x) auto

lemma keeps_case_list:
  "(x = [] \<Longrightarrow> keeps P m) \<Longrightarrow> (\<And>y ys. x = y # ys \<Longrightarrow> keeps P (f y ys)) \<Longrightarrow> keeps P (case x of [] \<Rightarrow> m | y # ys \<Rightarrow> f y ys)"
  by (cases x) auto

lemma addProof_seen: "keeps (seen_by p e s) (addProof C sid d t fa)"
  unfolding addProof_def by (intro keeps_rules)

lemma stripes_seen:
  "keeps (seen_by p e s) (openStripe C sid0 del sg j fa)" "keeps (seen_by p e s) (oldStripe C sid0 del sg j fa)"
  unfolding openStripe_def oldStripe_def Let_def
  by (intro keeps_rules keeps_on_data keeps_case_list addProof_seen)+

lemma seqStripes_seen:
  assumes "\<And>sg j fa. keeps (seen_by p e s) (stripe sg j fa)"
  shows "keeps (seen_by p e s) (seqStripes stripe segs ad)"
  unfolding seqStripes_def using assms by (intro keeps_rules)

lemma reportFault_Inr: "reportFault L C u n q fa g = (Inr ad, g') \<longleftrightarrow> fst fa = [] \<and> ad = snd fa \<and> g' = g"
  by (auto simp: reportFault_def go_simps)

lemma skipEpoch_Inr: "skipEpoch u w g \<noteq> (Inr x, g')"
  by (simp add: skipEpoch_def setSi_def go_simps)

section \<open>The same steps\<close>

text \<open>The totals do not depend on the state.\<close>

lemma addSeqTotals_any: "addSeqTotals L b sf a (g :: SegMgr) = (Inr a', g') \<Longrightarrow> g' = g \<and> addSeqTotals L b sf a (s :: StateMgr) = (Inr a', s)"
  by (auto simp: addSeqTotals_def Let_def deref_def go_simps split: if_splits option.splits)

lemma addOrderTotals_any:
  "addOrderTotals L d full a (g :: SegMgr) = (Inr a', g') \<Longrightarrow> g' = g \<and> addOrderTotals L d full a (s :: StateMgr) = (Inr a', s)"
  by (auto simp: addOrderTotals_def deref_def go_simps split: option.splits)

lemma seqStep_totals:
  "get_SeqFull L okey (ns_Nonce ns) (of_nat i) s = Some sf \<Longrightarrow>
   seqStep L okey ns i a s = addSeqTotals L ((of_nat i :: u32) = ns_SeqNum ns - 1) sf a s"
  by (simp add: seqStep_def addSeqTotals_def)

lemma addCommitted_totals: "addCommitted L cs ce full a = addOrderTotals L (orderDur cs ce (of_SignedOrder full) (ca_orderDur a)) full a"
  by (cases a) (simp add: addCommitted_def addOrderTotals_def Let_def)

lemma StateGetOrder_full: "StateGetOrder L u p n s = Some full \<Longrightarrow> get_OrderFull L u p n s = Some full"
  by (auto simp: StateGetOrder_def get_OrderFull_def split: option.splits if_splits)

text \<open>Unless the order lies inside the period, where the chain has no case for it.\<close>

definition inside :: "i64 \<Rightarrow> i64 \<Rightarrow> SignedOrder \<Rightarrow> bool" where
  "inside cs ce ord \<longleftrightarrow> sint cs < sint (so_Start ord) \<and> sint (so_End ord) < sint ce"

lemma proOrderDur_same: "\<not> inside cs ce ord \<Longrightarrow> proOrderDur cs ce ord old = orderDur cs ce ord old"
  by (auto simp: proOrderDur_def orderDur_def inside_def)

text \<open>Such an order is priced with the duration left over from the order before.\<close>

lemma inside_order_differs:
  "inside cs ce ord \<Longrightarrow> proOrderDur cs ce ord old = so_End ord - so_Start ord \<and> orderDur cs ce ord old = old"
  by (auto simp: proOrderDur_def orderDur_def inside_def)

lemma openSeqStep_sim:
  assumes "openSeqStep L C u sid0 ns i r g = (Inr r', g')" and "seen_by p e s g"
  shows "(seen_by p e s g' \<and> cr_start r' = cr_start r) \<and> seqStep L (u, p) ns i (cr_acc r) s = (Inr (cr_acc r'), s)"
proof -
  from assms obtain sf a g1 fa where sf: "get_SeqFull L (u, p) (ns_Nonce ns) (of_nat i) s = Some sf"
    and a: "addSeqTotals L ((of_nat i :: u32) = ns_SeqNum ns - 1) sf (cr_acc r) g = (Inr a, g1)"
    and st: "seqStripes (openStripe C sid0 (sf_DelSegs sf)) (os_Segments (sf_OrderSeq sf)) (cr_added r) g1 = (Inr fa, g')"
    and r: "r' = r\<lparr>cr_acc := a, cr_added := snd fa\<rparr>"
    by (auto simp: openSeqStep_def seen_by_def StateGetOrderSeq_def reportFault_Inr go_simps)
  have "seen_by p e s g'"
    by (rule keeps_run [OF seqStripes_seen [OF stripes_seen(1)] st]) (use addSeqTotals_any [OF a] assms(2) in simp)
  with addSeqTotals_any [OF a] r show ?thesis
    by (simp add: seqStep_totals [OF sf])
qed

lemma openOrder_sim:
  assumes "openOrder L C u sid0 ns cs ce r g = (Inr r', g')" and "seen_by p e s g"
    and "\<And>full. StateGetOrder L u p (ns_Nonce ns) s = Some full \<Longrightarrow> \<not> inside cs ce (of_SignedOrder full)"
  shows "seen_by p e s g' \<and> cr_start r' = cr_start r \<and> latestOrder L (u, p) ns cs ce (cr_acc r) s = (Inr (cr_acc r'), s)"
proof (cases "ns_SeqNum ns > 0")
  case True
  then obtain full where full: "StateGetOrder L u p (ns_Nonce ns) s = Some full"
    and t: "sint (so_Start (of_SignedOrder full)) < sint ce" "\<not> sint (so_End (of_SignedOrder full)) \<le> sint cs"
    and run: "foldM [0..<unat (ns_SeqNum ns)]
       (r\<lparr>cr_acc := (cr_acc r)\<lparr>ca_orderDur := proOrderDur cs ce (of_SignedOrder full) (ca_orderDur (cr_acc r))\<rparr>\<rparr>)
       (openSeqStep L C u sid0 ns) g = (Inr r', g')"
    using assms(1,2) by (auto simp: openOrder_def seen_by_def skipEpoch_Inr go_simps not_le split: if_splits)
  let ?I = "\<lambda>q g. seen_by p e s g \<and> cr_start q = cr_start r"
  have "?I r' g' \<and> foldM [0..<unat (ns_SeqNum ns)]
      (cr_acc (r\<lparr>cr_acc := (cr_acc r)\<lparr>ca_orderDur := proOrderDur cs ce (of_SignedOrder full) (ca_orderDur (cr_acc r))\<rparr>\<rparr>))
      (seqStep L (u, p) ns) s = (Inr (cr_acc r'), s)"
    by (rule foldM_sim [OF run]) (use assms(2) openSeqStep_sim in auto)
  then show ?thesis
    using True t assms(3) [OF full] StateGetOrder_full [OF full] by (simp add: latestOrder_def proOrderDur_same)
qed (use assms in \<open>simp add: openOrder_def latestOrder_def\<close>)

lemma oldSeqStep_seen:
  assumes "oldSeqStep L C u sid0 i k ad g = (Inr ad', g')" and "seen_by p e s g"
  shows "seen_by p e s g'"
proof -
  from assms(1) obtain sf :: SeqFull and fa where
    "seqStripes (oldStripe C sid0 (sf_DelSegs sf)) (os_Segments (sf_OrderSeq sf)) ad g = (Inr fa, g')"
    by (auto simp: oldSeqStep_def reportFault_Inr go_simps)
  then show ?thesis
    by (rule keeps_run [OF seqStripes_seen [OF stripes_seen(2)]]) (rule assms(2))
qed

text \<open>An order that has ended moves \<open>orderStart\<close>; any other is added as the chain adds it.\<close>

lemma oldOrderStep_expired:
  assumes "oldOrderStep L C u sid0 cs ce i r g = (Inr r', g')" and "seen_by p e s g"
    and "StateGetOrder L u p (of_nat i) s = Some full" "sint (so_End (of_SignedOrder full)) \<le> sint cs"
  shows "g' = g \<and> r' = r\<lparr>cr_start := of_nat i + 1\<rparr>"
  using assms by (auto simp: oldOrderStep_def seen_by_def skipEpoch_Inr go_simps split: if_splits)

lemma oldOrderStep_sim:
  assumes "oldOrderStep L C u sid0 cs ce i r g = (Inr r', g')" and "seen_by p e s g"
    and live: "\<And>full. StateGetOrder L u p (of_nat i) s = Some full \<Longrightarrow>
      \<not> inside cs ce (of_SignedOrder full) \<and> sint cs < sint (so_End (of_SignedOrder full))"
  shows "(seen_by p e s g' \<and> cr_start r' = cr_start r) \<and> orderStep L (u, p) cs ce i (cr_acc r) s = (Inr (cr_acc r'), s)"
proof -
  obtain full where full: "StateGetOrder L u p (of_nat i) s = Some full"
    using assms(1,2) by (auto simp: oldOrderStep_def seen_by_def go_simps)
  let ?dur = "proOrderDur cs ce (of_SignedOrder full) (ca_orderDur (cr_acc r))"
  obtain a g1 ad where st: "sint (so_Start (of_SignedOrder full)) < sint ce"
    and a: "addOrderTotals L ?dur full (cr_acc r) g = (Inr a, g1)"
    and ad: "foldM [0..<unat (of_SeqNum full)] (cr_added r) (oldSeqStep L C u sid0 i) g1 = (Inr ad, g')"
    and r: "r' = r\<lparr>cr_acc := a, cr_added := ad\<rparr>"
    using assms(1,2) full live [OF full] by (auto simp: oldOrderStep_def seen_by_def skipEpoch_Inr go_simps not_le split: if_splits)
  from addOrderTotals_any [OF a] assms(2) have g1: "seen_by p e s g1" by simp
  have "seen_by p e s g'"
    using foldM_sim [OF ad, where I = "\<lambda>_. seen_by p e s" and \<phi> = "\<lambda>_. ()" and h = "\<lambda>_ _. ret ()" and s = s, OF g1] oldSeqStep_seen
    by auto
  then show ?thesis
    using addOrderTotals_any [OF a, where s = s] r st live [OF full] StateGetOrder_full [OF full]
    by (simp add: orderStep_def addCommitted_totals proOrderDur_same not_le)
qed

text \<open>Once one of the orders is alive, all later ones are.\<close>

lemma oldOrders_live:
  assumes "foldM xs r (oldOrderStep L C u sid0 cs ce) g = (Inr r', g')" and "seen_by p e s g"
    and "\<And>i full. i \<in> set xs \<Longrightarrow> StateGetOrder L u p (of_nat i) s = Some full \<Longrightarrow>
      \<not> inside cs ce (of_SignedOrder full) \<and> sint cs < sint (so_End (of_SignedOrder full))"
  shows "(seen_by p e s g' \<and> cr_start r' = cr_start r) \<and> foldM xs (cr_acc r) (orderStep L (u, p) cs ce) s = (Inr (cr_acc r'), s)"
proof (rule foldM_sim [OF assms(1)])
  fix i q h q' h' assume "i \<in> set xs" "seen_by p e s h \<and> cr_start q = cr_start r" "oldOrderStep L C u sid0 cs ce i q h = (Inr q', h')"
  then show "(seen_by p e s h' \<and> cr_start q' = cr_start r) \<and> orderStep L (u, p) cs ce i (cr_acc q) s = (Inr (cr_acc q'), s)"
    using oldOrderStep_sim [of L C u sid0 cs ce i q h q' h' p e s] assms(3) by metis
qed (use assms(2) in simp)

lemma oldOrders_sim:
  assumes "foldM [m..<n] r (oldOrderStep L C u sid0 cs ce) g = (Inr r', g')" and "seen_by p e s g"
    and "cr_start r = of_nat m" "m \<le> n" "n < 2 ^ 64"
    and ends: "\<And>i j f h. m \<le> i \<Longrightarrow> i \<le> j \<Longrightarrow> j < n \<Longrightarrow> StateGetOrder L u p (of_nat i) s = Some f \<Longrightarrow> StateGetOrder L u p (of_nat j) s = Some h \<Longrightarrow>
      sint (so_End (of_SignedOrder f)) \<le> sint (so_End (of_SignedOrder h))"
    and ins: "\<And>i f. StateGetOrder L u p (of_nat i) s = Some f \<Longrightarrow> \<not> inside cs ce (of_SignedOrder f)"
  shows "seen_by p e s g' \<and> unat (cr_start r') \<le> n \<and>
    foldM [unat (cr_start r')..<n] (cr_acc r) (orderStep L (u, p) cs ce) s = (Inr (cr_acc r'), s)"
  using assms(1-6)
proof (induction "n - m" arbitrary: m r g)
  case 0
  then show ?case by (simp add: unat_of_nat_u64)
next
  case (Suc d)
  then have mn: "m < n" by simp
  with Suc.prems(1) obtain r1 g1 where one: "oldOrderStep L C u sid0 cs ce m r g = (Inr r1, g1)"
    and rest: "foldM [Suc m..<n] r1 (oldOrderStep L C u sid0 cs ce) g1 = (Inr r', g')"
    by (auto simp: upt_conv_Cons go_simps)
  obtain full where full: "StateGetOrder L u p (of_nat m) s = Some full"
    using one Suc.prems(2) by (auto simp: oldOrderStep_def seen_by_def go_simps)
  show ?case
  proof (cases "sint (so_End (of_SignedOrder full)) \<le> sint cs")
    case True
    from oldOrderStep_expired [OF one Suc.prems(2) full True] have r1: "g1 = g" "r1 = r\<lparr>cr_start := of_nat m + 1\<rparr>" by auto
    have "seen_by p e s g' \<and> unat (cr_start r') \<le> n \<and> foldM [unat (cr_start r')..<n] (cr_acc r1) (orderStep L (u, p) cs ce) s = (Inr (cr_acc r'), s)"
    proof (rule Suc.hyps(1) [OF _ rest])
      show "sint (so_End (of_SignedOrder f)) \<le> sint (so_End (of_SignedOrder h))"
        if "Suc m \<le> i" "i \<le> j" "j < n" "StateGetOrder L u p (of_nat i) s = Some f" "StateGetOrder L u p (of_nat j) s = Some h" for i j f h
        using Suc.prems(6) [OF _ that(2-5)] that(1) by simp
    qed (use Suc.hyps(2) Suc.prems(2,5) mn r1 in auto)
    then show ?thesis
      using r1 by simp
  next
    case False
    have "sint cs < sint (so_End (of_SignedOrder f))" if "i \<in> set [m..<n]" "StateGetOrder L u p (of_nat i) s = Some f" for i f
      using Suc.prems(6) [of m i full f] that full False by auto
    with oldOrders_live [OF Suc.prems(1,2)] ins have "seen_by p e s g'" "cr_start r' = cr_start r"
      "foldM [m..<n] (cr_acc r) (orderStep L (u, p) cs ce) s = (Inr (cr_acc r'), s)"
      by auto
    then show ?thesis
      using Suc.prems(3,5) mn by (simp add: unat_of_nat_u64)
  qed
qed

section \<open>What the chain has stored\<close>

text \<open>
  The provider has seen the current epoch, the previous one is stored, the chain has the order and the user in
  its caches as they are stored, and the epoch was not proved yet.
\<close>

definition chain_agrees :: "lib \<Rightarrow> u64 \<Rightarrow> SegMgr \<Rightarrow> orderInfo \<Rightarrow> segPerUser \<Rightarrow> bool" where
  "chain_agrees L u g oi ui \<longleftrightarrow>
     (let s = sg_state g; p = sg_localID g; e = ce_Epoch (sg_eInfo g) in
      sg_eInfo g = cei_current (ceInfo s) \<and> e \<noteq> - 1 \<and>
      StateGetChalEpochInfoAt L (e - 1) s = Some (cei_previous (ceInfo s)) \<and>
      oInfo s (u, p) = Some oi \<and> oi_prove oi \<le> e \<and> StateGetOrderNonce L u p (- 1) s = oi_ns oi \<and>
      (\<forall>d. sget L (skey ST_OrderStateKey [unat u, unat p, unat e]) s = Some d \<longrightarrow> (\<exists>x. marshal (lb_cNonceSeq L) x = Some d)) \<and>
      sInfo s u = Some ui \<and>
      map_option (lb_pkVerifyKey L) (Option.bind (StateGetPDPPublicKey L u s) (lb_pdpPublicKey L)) = Some (su_verifyKey ui))"


text \<open>Orders end in the order of their nonces, none lies inside the period, and the range of live nonces is one.\<close>

definition orders_regular :: "lib \<Rightarrow> u64 \<Rightarrow> u64 \<Rightarrow> i64 \<Rightarrow> i64 \<Rightarrow> NonceSeq \<Rightarrow> StateMgr \<Rightarrow> bool" where
  "orders_regular L u p cs ce ns s \<longleftrightarrow> ns_SubNonce ns \<le> ns_Nonce ns \<and>
     (\<forall>n f. StateGetOrder L u p n s = Some f \<longrightarrow> \<not> inside cs ce (of_SignedOrder f)) \<and>
     (\<forall>m n f h. m \<le> n \<longrightarrow> StateGetOrder L u p m s = Some f \<longrightarrow> StateGetOrder L u p n s = Some h \<longrightarrow>
        sint (so_End (of_SignedOrder f)) \<le> sint (so_End (of_SignedOrder h)))"

text \<open>The nonces of the epoch: the provider and the chain read the same entry.\<close>

lemma chalNonce_same:
  assumes "codec_law (lb_cNonceSeq L)" "e \<noteq> - 1" "StateGetOrderNonce L u p (- 1) s = oi_ns oi"
    and enc: "\<And>d. sget L (skey ST_OrderStateKey [unat u, unat p, unat e]) s = Some d \<Longrightarrow> \<exists>x. marshal (lb_cNonceSeq L) x = Some d"
  shows "ns_Nonce (chalNonce L (u, p) e (oi_ns oi) s) = ns_Nonce (StateGetOrderNonce L u p e s) \<and>
    ns_SeqNum (chalNonce L (u, p) e (oi_ns oi) s) = ns_SeqNum (StateGetOrderNonce L u p e s)"
proof (cases "sget L (skey ST_OrderStateKey [unat u, unat p, unat e]) s")
  case None
  then show ?thesis
    using assms(2,3) by (simp add: chalNonce_def StateGetOrderNonce_def Let_def)
next
  case (Some d)
  with enc obtain x where "marshal (lb_cNonceSeq L) x = Some d" by blast
  from codec_lawD [OF assms(1) this] decode_into_law [OF assms(1) this] Some assms(2) show ?thesis
    by (simp add: chalNonce_def StateGetOrderNonce_def Let_def)
qed

lemma chalTotals_nonces:
  assumes "ns_Nonce ns' = ns_Nonce ns" "ns_SeqNum ns' = ns_SeqNum ns"
  shows "chalTotals L cei step okey scp ns' chal = chalTotals L cei step okey scp ns chal"
proof -
  have steps: "seqStep L okey ns' = seqStep L okey ns"
    by (rule ext)+ (simp add: seqStep_def assms)
  show ?thesis
    unfolding chalTotals_def latestOrder_def assms steps ..
qed

lemma chalParams_Inr:
  assumes "chalParams L C u fsid g = (Inr scp, g')" and e: "sg_eInfo g = e" and ns: "StateGetOrderNonce L u (sg_localID g) (ce_Epoch e) (sg_state g) = ns"
    and prev: "StateGetChalEpochInfoAt L (ce_Epoch e - 1) (sg_state g) = Some pce"
  shows "\<exists>pk chal sid0 r g1 q res.
    Option.bind (StateGetPDPPublicKey L u (sg_state g)) (lb_pdpPublicKey L) = Some pk \<and>
    lb_newChallenge L (lb_pkVerifyKey L pk) (chalHash L u (ce_Seed e)) = Some chal \<and>
    \<not> (ns_Nonce ns = 0 \<and> ns_SeqNum ns = 0) \<and> 0 < sint (slotTime (ce_Slot e) - slotTime (ce_Slot pce)) \<and>
    openOrder L C u sid0 ns (slotTime (ce_Slot pce)) (slotTime (ce_Slot e))
      \<lparr>cr_acc = \<lparr>ca_orderDur = 0, ca_totalPrice = 0, ca_totalSize = 0, ca_delSize = 0, ca_chal = chal\<rparr>, cr_added = [], cr_start = ns_SubNonce ns\<rparr> g = (Inr r, g1) \<and>
    oldOrders L C u sid0 ns (slotTime (ce_Slot pce)) (slotTime (ce_Slot e)) r g1 = (Inr q, g') \<and>
    lb_verifyProof L (lb_pkVerifyKey L pk) (ca_chal (cr_acc q)) res = Some True \<and>
    scp = \<lparr>scp_UserID = u, scp_ProID = sg_localID g', scp_Epoch = ce_Epoch (sg_eInfo g'), scp_OrderStart = cr_start q, scp_OrderEnd = ns_Nonce ns,
      scp_Size = ca_totalSize (cr_acc q) - ca_delSize (cr_acc q), scp_Price = Some (ca_totalPrice (cr_acc q)), scp_Proof = cv_proofBytes C res\<rparr>"
proof -
  have pf: "\<exists>res. g' = h \<and> lb_verifyProof L (lb_pkVerifyKey L pk) (ca_chal (cr_acc q)) res = Some True \<and>
    scp = \<lparr>scp_UserID = u, scp_ProID = sg_localID h, scp_Epoch = ce_Epoch (sg_eInfo h), scp_OrderStart = cr_start q, scp_OrderEnd = n,
      scp_Size = ca_totalSize (cr_acc q) - ca_delSize (cr_acc q), scp_Price = Some (ca_totalPrice (cr_acc q)), scp_Proof = cv_proofBytes C res\<rparr>"
    if "chalProof L C u pk bh n q h = (Inr scp, g')" for pk bh n q h
    using that by (auto simp: chalProof_def skipEpoch_Inr Let_def go_simps split: if_splits)
  show ?thesis
    using assms(1) e ns prev by (auto simp: chalParams_def Let_def skipEpoch_Inr go_simps not_le split: if_splits dest!: pf) blast+
qed

lemma chalTotals_run:
  assumes "(ns_Nonce ns = 0 \<and> ns_SeqNum ns = 0) = False" "scp_OrderStart scp \<le> scp_OrderEnd scp" "ns_Nonce ns = scp_OrderEnd scp"
    and "0 < sint (slotTime (ce_Slot (cei_current (cei s))) - slotTime (ce_Slot (cei_previous (cei s))))"
    and "latestOrder L okey ns (slotTime (ce_Slot (cei_previous (cei s)))) (slotTime (ce_Slot (cei_current (cei s))))
      \<lparr>ca_orderDur = 0, ca_totalPrice = 0, ca_totalSize = 0, ca_delSize = 0, ca_chal = chal\<rparr> s = (Inr a, s)"
    and "(if ns_Nonce ns > 0 then foldM [unat (scp_OrderStart scp)..<unat (scp_OrderEnd scp)] a
       (step (slotTime (ce_Slot (cei_previous (cei s)))) (slotTime (ce_Slot (cei_current (cei s))))) else ret a) s = (Inr a2, s)"
  shows "chalTotals L cei step okey scp ns chal s = (Inr (a2\<lparr>ca_totalSize := ca_totalSize a2 - ca_delSize a2\<rparr>), s)"
proof -
  have "(scp_OrderEnd scp < scp_OrderStart scp) = False"
    "(sint (slotTime (ce_Slot (cei_current (cei s))) - slotTime (ce_Slot (cei_previous (cei s)))) \<le> 0) = False"
    using assms(2,4) by (simp_all add: not_less not_le)
  then show ?thesis
    unfolding chalTotals_def Let_def assms(1) using assms(3,5,6) by simp
qed

lemma oldOrders_regular:
  assumes "oldOrders L C u sid0 ns cs ce r g = (Inr q, g')" and "seen_by p e s g"
    and "cr_start r = ns_SubNonce ns" and reg: "orders_regular L u p cs ce ns s"
  shows "seen_by p e s g' \<and> cr_start q \<le> ns_Nonce ns \<and>
    (if ns_Nonce ns > 0 then foldM [unat (cr_start q)..<unat (ns_Nonce ns)] (cr_acc r) (orderStep L (u, p) cs ce) else ret (cr_acc r)) s = (Inr (cr_acc q), s)"
proof (cases "ns_Nonce ns > 0")
  case True
  have run: "foldM [unat (ns_SubNonce ns)..<unat (ns_Nonce ns)] r (oldOrderStep L C u sid0 cs ce) g = (Inr q, g')"
    using assms(1) True by (simp add: oldOrders_def)
  have "seen_by p e s g' \<and> unat (cr_start q) \<le> unat (ns_Nonce ns) \<and>
      foldM [unat (cr_start q)..<unat (ns_Nonce ns)] (cr_acc r) (orderStep L (u, p) cs ce) s = (Inr (cr_acc q), s)"
  proof (rule oldOrders_sim [OF run assms(2)])
    fix i j f h assume ij: "i \<le> j" "j < unat (ns_Nonce ns)" and "StateGetOrder L u p (of_nat i) s = Some f" "StateGetOrder L u p (of_nat j) s = Some h"
    moreover have "j < 2 ^ 64"
      using ij(2) unat_u64_less [of "ns_Nonce ns"] by simp
    with ij have "(of_nat i :: u64) \<le> of_nat j"
      by (simp add: word_le_nat_alt unat_of_nat_u64)
    ultimately show "sint (so_End (of_SignedOrder f)) \<le> sint (so_End (of_SignedOrder h))"
      using reg unfolding orders_regular_def by blast
  next
    fix i f assume "StateGetOrder L u p (of_nat i) s = Some f"
    then show "\<not> inside cs ce (of_SignedOrder f)"
      using reg unfolding orders_regular_def by blast
  qed (use assms(3) reg unat_u64_less [of "ns_Nonce ns"] in \<open>simp_all add: orders_regular_def word_le_nat_alt\<close>)
  with True show ?thesis
    by (simp add: word_le_nat_alt)
next
  case False
  with assms(1,2,3) reg show ?thesis
    by (simp add: oldOrders_def orders_regular_def)
qed

text \<open>What a provider sends is what the chain computes.\<close>

lemma chalParams_totals:
  assumes run: "chalParams L C u fsid g = (Inr scp, g')" and seen: "seen_by p e s g" and e: "cei_current (ceInfo s) = e"
    and prev: "StateGetChalEpochInfoAt L (ce_Epoch e - 1) s = Some (cei_previous (ceInfo s))"
    and ns: "StateGetOrderNonce L u p (ce_Epoch e) s = ns"
    and reg: "orders_regular L u p (slotTime (ce_Slot (cei_previous (ceInfo s)))) (slotTime (ce_Slot e)) ns s"
  shows "\<exists>pk chal a res. Option.bind (StateGetPDPPublicKey L u s) (lb_pdpPublicKey L) = Some pk \<and>
    lb_newChallenge L (lb_pkVerifyKey L pk) (chalHash L u (ce_Seed e)) = Some chal \<and>
    chalTotals L ceInfo (orderStep L (u, p)) (u, p) scp ns chal s = (Inr a, s) \<and>
    lb_verifyProof L (lb_pkVerifyKey L pk) (ca_chal a) res = Some True \<and>
    scp_UserID scp = u \<and> scp_ProID scp = p \<and> scp_Epoch scp = ce_Epoch e \<and> scp_Size scp = ca_totalSize a \<and>
    scp_Price scp = Some (ca_totalPrice a) \<and> scp_Proof scp = cv_proofBytes C res"
proof -
  let ?cs = "slotTime (ce_Slot (cei_previous (ceInfo s)))" and ?ce = "slotTime (ce_Slot e)"
  let ?a0 = "\<lambda>chal. \<lparr>ca_orderDur = 0, ca_totalPrice = 0, ca_totalSize = 0, ca_delSize = 0, ca_chal = chal\<rparr>"
  from chalParams_Inr [OF run, of e ns "cei_previous (ceInfo s)"] seen prev ns obtain pk chal sid0 r g1 q res
    where pk: "Option.bind (StateGetPDPPublicKey L u s) (lb_pdpPublicKey L) = Some pk"
      "lb_newChallenge L (lb_pkVerifyKey L pk) (chalHash L u (ce_Seed e)) = Some chal"
      and ne: "\<not> (ns_Nonce ns = 0 \<and> ns_SeqNum ns = 0)" "0 < sint (?ce - ?cs)"
      and op: "openOrder L C u sid0 ns ?cs ?ce \<lparr>cr_acc = ?a0 chal, cr_added = [], cr_start = ns_SubNonce ns\<rparr> g = (Inr r, g1)"
      and old: "oldOrders L C u sid0 ns ?cs ?ce r g1 = (Inr q, g')"
      and ver: "lb_verifyProof L (lb_pkVerifyKey L pk) (ca_chal (cr_acc q)) res = Some True"
      and scp: "scp = \<lparr>scp_UserID = u, scp_ProID = sg_localID g', scp_Epoch = ce_Epoch (sg_eInfo g'), scp_OrderStart = cr_start q,
        scp_OrderEnd = ns_Nonce ns, scp_Size = ca_totalSize (cr_acc q) - ca_delSize (cr_acc q), scp_Price = Some (ca_totalPrice (cr_acc q)),
        scp_Proof = cv_proofBytes C res\<rparr>"
    by (auto simp: seen_by_def)
  have o: "seen_by p e s g1" "cr_start r = ns_SubNonce ns" "latestOrder L (u, p) ns ?cs ?ce (?a0 chal) s = (Inr (cr_acc r), s)"
    using openOrder_sim [OF op seen] reg by (auto simp: orders_regular_def)
  note l = oldOrders_regular [OF old o(1,2) reg]
  let ?a = "(cr_acc q)\<lparr>ca_totalSize := ca_totalSize (cr_acc q) - ca_delSize (cr_acc q)\<rparr>"
  have "chalTotals L ceInfo (orderStep L (u, p)) (u, p) scp ns chal s = (Inr ?a, s)"
    using ne l o(3) by (intro chalTotals_run) (auto simp: scp e)
  with pk ver l show ?thesis
    by (intro exI [of _ pk] exI [of _ chal] exI [of _ ?a] exI [of _ res]) (simp add: scp seen_by_def)
qed

section \<open>The properties of the component\<close>


section \<open>An example\<close>

definition ex_sf :: SeqFull where
  "ex_sf = \<lparr>sf_OrderSeq = \<lparr>os_UserID = 5, os_ProID = 6, os_Nonce = 0, os_SeqNum = 0, os_Size = DefaultSegSize, os_Price = Some 2,
       os_Segments = [\<lparr>as_BucketID = 0, as_Start = 7, as_Length = 1, as_ChunkID = 0\<rparr>]\<rparr>,
     sf_AccFr = [], sf_DelPart = \<lparr>dp_AccFr = [], dp_Size = 0, dp_Price = Some 0\<rparr>, sf_DelSegs = []\<rparr>"

definition ex_ch_lib :: lib where
  "ex_ch_lib = ex_prove_lib\<lparr>lb_cSeqFull := tab_codec [ex_sf], lb_cChalEpoch := tab_codec [cei_previous (ceInfo ex_prove_state)]\<rparr>"

definition ex_ch_state :: StateMgr where
  "ex_ch_state = ex_prove_state\<lparr>tds := Some (txn_put (txn_put (txn_put (txn_put (txn_put (txn_new (\<lambda>_. None))
     (orderFullKey (5, 6) 0) [0]) (orderSeqKey (5, 6) 0 0) [0]) (skey ST_OrderStateKey [5, 6]) [0]) (skey ST_ChalEpochKey [0]) [0])
     (skey ST_PDPPublicKey [5]) [])\<rparr>"

definition ex_ch_seg :: BaseSegment where
  "ex_ch_seg = \<lparr>bs_segID = CreateSegmentID (copy_into 20 []) 0 7 0,
     bs_data = Prefix_Serialize \<lparr>px_Version = 1, px_Policy = 1, px_DataCount = 1, px_ParityCount = 1, px_TagFlag = 1, px_SegSize = 1\<rparr> @ replicate 9 0\<rparr>"

definition ex_ch_mgr :: SegMgr where
  "ex_ch_mgr = (NewSegMgr 6 \<lparr>dt_ds = (\<lambda>_. None), dt_segs = [bs_segID ex_ch_seg \<mapsto> ex_ch_seg], dt_cache = (\<lambda>_. None), dt_rm = ex_pool_rm,
       dt_pay = \<lparr>sd_localAddr = [], sd_contractAddr = [], sd_fromAddr = [], sd_ds = (\<lambda>_. None), sd_pool = (\<lambda>_. None)\<rparr>\<rparr> (ex_push\<lparr>pp_sync := (pp_sync ex_push)\<lparr>sp_st := ex_ch_state\<rparr>\<rparr>) (\<lambda>_. 0))
     \<lparr>sg_epoch := 2, sg_eInfo := cei_current (ceInfo ex_prove_state)\<rparr>"

definition ex_cenv :: cenv where
  "ex_cenv = \<lparr>cv_env = ex_push_env, cv_lru = ex_lru, cv_tries = 1, cv_pfNewFail = (\<lambda>_ _. False), cv_pfAddFail = (\<lambda>_. False),
     cv_pfResult = (\<lambda>_ _ _. Some []), cv_proofBytes = (\<lambda>b. b)\<rparr>"

lemma ex_ch_reads:
  "StateGetOrder ex_ch_lib 5 6 n ex_ch_state = (if n = 0 then Some ex_full else None)"
  "get_SeqFull ex_ch_lib (5, 6) 0 0 ex_ch_state = Some ex_sf"
  "StateGetOrderNonce ex_ch_lib 5 6 (- 1) ex_ch_state = oi_ns ex_prove_order"
  "StateGetOrderNonce ex_ch_lib 5 6 1 ex_ch_state = oi_ns ex_prove_order"
  "sget ex_ch_lib (skey ST_OrderStateKey [5, 6, Suc 0]) ex_ch_state = None"
  "StateGetChalEpochInfoAt ex_ch_lib 0 ex_ch_state = Some (cei_previous (ceInfo ex_prove_state))"
  "StateGetPDPPublicKey ex_ch_lib 5 ex_ch_state = Some []"
  by (simp_all add: StateGetOrder_def get_SeqFull_def StateGetOrderNonce_def StateGetChalEpochInfoAt_def StateGetPDPPublicKey_def
      ex_ch_lib_def ex_ch_state_def ex_prove_lib_def ex_prove_state_def sget_def base_get_def smtGet_def list_trie_def
      orderFullKey_def orderSeqKey_def meta_defs Let_def unat_eq_zero)

lemma ex_ch_run: "chalParams ex_ch_lib ex_cenv 5 (copy_into 20 []) ex_ch_mgr = (Inr ex_chal, ex_ch_mgr)"
proof -
  have g: "sg_state ex_ch_mgr = ex_ch_state" "sg_localID ex_ch_mgr = 6" "sg_eInfo ex_ch_mgr = \<lparr>ce_Epoch = 1, ce_Slot = 5760, ce_Seed = []\<rparr>"
    by (simp_all add: ex_ch_mgr_def NewSegMgr_def ex_prove_state_def)
  have env: "cv_pfAddFail ex_cenv = (\<lambda>_. False)" "cv_pfNewFail ex_cenv = (\<lambda>_ _. False)" "cv_pfResult ex_cenv = (\<lambda>_ _ _. Some [])"
    "cv_proofBytes ex_cenv = (\<lambda>b. b)"
    by (simp_all add: ex_cenv_def)
  have lib: "lb_chalAdd ex_ch_lib = (@)" "lb_frSubBytes ex_ch_lib [] [] = be 32 0" "lb_newChallenge ex_ch_lib = (\<lambda>v. Some)"
    "lb_verifyProof ex_ch_lib = (\<lambda>v c p. Some True)" "lb_pdpPublicKey ex_ch_lib = Some"
    by (simp_all add: ex_ch_lib_def ex_prove_lib_def un_be_def)
  have seg: "attempt (sg_on_data (GetSegmentFromLocal (cv_env ex_cenv) (CreateSegmentID (copy_into 20 []) 0 7 0))) ex_ch_mgr = (Inr (Inr ex_ch_seg), ex_ch_mgr)"
    by (simp add: attempt_def zoom_def GetSegmentFromLocal_def ex_ch_mgr_def NewSegMgr_def ex_ch_seg_def)
  have tags: "Segment_Content ex_ch_seg = Inr [0]" "Segment_Tags ex_ch_seg = Inr [[0, 0, 0, 0], [0, 0, 0, 0]]"
    by (simp_all add: ex_ch_seg_def Segment_Content_def Segment_Tags_def DefaultPrefixLen_def tagCount_def TagMap_def Let_def upt_rec numeral_eq_Suc)
  have st: "seqStripes (oldStripe ex_cenv (CreateSegmentID (copy_into 20 []) 0 0 0) []) (os_Segments (sf_OrderSeq ex_sf)) [] ex_ch_mgr =
      (Inr ([], [(CreateSegmentID (copy_into 20 []) 0 7 0, [0], [0, 0, 0, 0])]), ex_ch_mgr)"
    by (simp add: seqStripes_def ex_sf_def stripesOf_def oldStripe_def Let_def segAt_def seg tags addProof_def env)
  have "oldSeqStep ex_ch_lib ex_cenv 5 (CreateSegmentID (copy_into 20 []) 0 0 0) 0 0 [] ex_ch_mgr =
      (Inr [(CreateSegmentID (copy_into 20 []) 0 7 0, [0], [0, 0, 0, 0])], ex_ch_mgr)"
    using st by (simp add: oldSeqStep_def g StateGetOrderSeq_def ex_ch_reads reportFault_def ex_sf_def)
  then have old: "oldOrders ex_ch_lib ex_cenv 5 (CreateSegmentID (copy_into 20 []) 0 0 0) (oi_ns ex_prove_order) (slotTime 2880) (slotTime 5760)
      \<lparr>cr_acc = \<lparr>ca_orderDur = 0, ca_totalPrice = 0, ca_totalSize = 0, ca_delSize = 0, ca_chal = c\<rparr>, cr_added = [], cr_start = 0\<rparr> ex_ch_mgr =
    (Inr \<lparr>cr_acc = \<lparr>ca_orderDur = 86400, ca_totalPrice = 172800, ca_totalSize = DefaultSegSize, ca_delSize = 0, ca_chal = c @ be 32 0\<rparr>,
       cr_added = [(CreateSegmentID (copy_into 20 []) 0 7 0, [0], [0, 0, 0, 0])], cr_start = 0\<rparr>, ex_ch_mgr)" for c
    by (simp add: oldOrders_def oldOrderStep_def g ex_ch_reads addOrderTotals_def proOrderDur_def ex_prove_order_def ex_full_def ex_base_def
        lib slotTime_def BaseTime_def SlotDuration_def)
  have ns: "ns_Nonce (oi_ns ex_prove_order) = 1" "ns_SeqNum (oi_ns ex_prove_order) = 0" "ns_SubNonce (oi_ns ex_prove_order) = 0"
    and prev: "ce_Slot (cei_previous (ceInfo ex_prove_state)) = 2880"
    and dur: "sint (slotTime 5760 - slotTime 2880) = 86400"
    by (simp_all add: ex_prove_order_def ex_prove_state_def slotTime_def SlotDuration_def)
  show ?thesis
    by (simp add: chalParams_def g ex_ch_reads env lib Let_def NewSegmentID_def FSID_LEN_def ns prev dur openOrder_def old chalProof_def
        ex_chal_def DefaultSegSize_def)
qed

lemma ex_ch_agrees: "chain_agrees ex_ch_lib 5 ex_ch_mgr ex_prove_order (mk_segPerUser lib0 5 [] 1)"
proof -
  have g: "sg_state ex_ch_mgr = ex_ch_state" "sg_localID ex_ch_mgr = 6" "sg_eInfo ex_ch_mgr = \<lparr>ce_Epoch = 1, ce_Slot = 5760, ce_Seed = []\<rparr>"
    by (simp_all add: ex_ch_mgr_def NewSegMgr_def ex_prove_state_def)
  have s: "ceInfo ex_ch_state = ceInfo ex_prove_state" "oInfo ex_ch_state = oInfo ex_prove_state" "sInfo ex_ch_state = sInfo ex_prove_state"
    by (simp_all add: ex_ch_state_def)
  show ?thesis
    by (simp add: chain_agrees_def g s ex_ch_reads Let_def)
       (simp add: ex_prove_state_def ex_prove_order_def ex_order_def mk_segPerUser_def ex_ch_lib_def ex_prove_lib_def)
qed


end
