(* ===== verification/UserOrder.thy ===== *)
theory UserOrder
  imports ProServe
begin

text \<open>
  The orders of a user, \<open>service/user/order\<close>: the instance the user keeps for each provider
  (\<open>inst.go\<close>), the state machine that opens, fills and closes its orders (\<open>check.go\<close>), the
  goroutine that sends chunks (\<open>data.go\<close>) and the requests to the provider (\<open>net.go\<close>).

  A handler runs on one instance and on the resources of the user's node; the pair is its state.
  A channel is the list of what was put into it, and a goroutine that is started is recorded
  as a call.  \<open>sendChunk\<close> is two steps, up to the moment a chunk is in flight and from the
  answer on, because the other handlers run in between; its local variables are fields of the
  instance.  Locks have no counterpart: a step is what one lock protects.
\<close>

section \<open>Data\<close>

datatype userOrderState = UOrder_Init | UOrder_Wait | UOrder_Running | UOrder_Closing | UOrder_Done

datatype userSeqState = USeq_Init | USeq_Prepare | USeq_Send | USeq_Commit | USeq_Finish

record userNonceState =
  uns_Nonce :: u64
  uns_Time :: i64
  uns_State :: userOrderState

record userSeqStateRec =
  uss_Number :: u32
  uss_Time :: i64
  uss_State :: userSeqState

text \<open>A quotation as it is received: the prices are pointers.\<close>

record quoMsg =
  qm_ProID :: u64
  qm_TokenIndex :: u32
  qm_SegPrice :: "int option"
  qm_PiecePrice :: "int option"

text \<open>\<open>ui_turn\<close> and \<open>ui_sending\<close> are the local variables \<open>i\<close>, and \<open>bid\<close> and \<open>sj\<close>, of \<open>sendChunk\<close>.\<close>

record proInst =
  ui_localID :: u64
  ui_fsID :: bytes
  ui_location :: bytes
  ui_pro :: u64
  ui_availTime :: i64
  ui_updateTime :: i64
  ui_nonce :: u64
  ui_seqNum :: u32
  ui_prevEnd :: i64
  ui_opi :: OrderPayInfo
  ui_base :: "SignedOrder option"
  ui_orderTime :: i64
  ui_orderState :: userOrderState
  ui_seq :: "SignedOrderSeq option"
  ui_seqTime :: i64
  ui_seqState :: userSeqState
  ui_sjq :: "SegJob list"
  ui_inflight :: bool
  ui_buckets :: "u64 list"
  ui_jobs :: "u64 \<Rightarrow> SegJob list option"
  ui_jobCnt :: int
  ui_failCnt :: int
  ui_failSent :: int
  ui_ready :: bool
  ui_inStop :: bool
  ui_turn :: nat
  ui_sending :: "(u64 \<times> SegJob) option"

text \<open>Goroutines that ask a provider, and what they put into the channels of the manager.\<close>

datatype netCall =
    CallUpdate u64
  | CallQuotation u64
  | CallNewOrderAck u64 bytes
  | CallNewSeqAck u64 bytes
  | CallSeqFinishAck u64 bytes

datatype netEvent =
    GotUpdate u64
  | GotFail u64
  | GotQuotation quoMsg
  | GotOrder SignedOrder
  | GotSeqNew u64 SignedOrderSeq
  | GotSeqFinish u64 SignedOrderSeq

record UserNode =
  un_localID :: u64
  un_fsID :: bytes
  un_ds :: kvs
  un_data :: dataService
  un_rm :: RoleMgr
  un_wl :: wl
  un_clock :: "nat \<Rightarrow> i64"
  un_reads :: nat
  un_orderDur :: i64
  un_orderLast :: i64
  un_seqLast :: i64
  un_segPrice :: int
  un_opi :: OrderPayInfo
  un_msgs :: "Message list"
  un_redo :: "SegJob list"
  un_sent :: "SegJob list"
  un_confirm :: "SegJob list"
  un_net :: "netEvent list"
  un_calls :: "netCall list"

text \<open>
  What is called outside: roles, the sorting of job queues, the network, which answers a request
  with a response or fails with a text, and the encodings.
\<close>

datatype netRequest = AskPrice | PutSegmentReq | CreateOrderReq | CreateSeqReq | FinishSeqReq | FixSeqReq

record uenv =
  ue_role :: env
  ue_sortSegJobs :: "SegJob list \<Rightarrow> SegJob list"
  ue_connectFail :: "u64 \<Rightarrow> bool"
  ue_net :: "u64 \<Rightarrow> netRequest \<Rightarrow> bytes \<Rightarrow> bytes \<Rightarrow> bytes + NetResp"
  ue_cNonceState :: "userNonceState codec"
  ue_cSeqState :: "userSeqStateRec codec"
  ue_cQuotation :: "quoMsg codec"
  ue_cSegJobs :: "SegJob list codec"
  ue_cSignature :: "Signature codec"
  ue_cPayInfo :: "OrderPayInfo codec"

type_synonym 'a ugo = "(proInst \<times> UserNode, 'a) go"

abbreviation on_un :: "(UserNode, 'a) go \<Rightarrow> 'a ugo" where
  "on_un m \<equiv> zoom snd (\<lambda>n (o', _). (o', n)) m"

abbreviation un_role :: "'a rgo \<Rightarrow> (UserNode, 'a) go" where
  "un_role m \<equiv> zoom un_rm (\<lambda>r n. n\<lparr>un_rm := r\<rparr>) m"

abbreviation un_dt :: "'a dtgo \<Rightarrow> (UserNode, 'a) go" where
  "un_dt m \<equiv> zoom un_data (\<lambda>d n. n\<lparr>un_data := d\<rparr>) m"

definition updInst :: "(proInst \<Rightarrow> proInst) \<Rightarrow> unit ugo" where
  "updInst f = modify (\<lambda>(o', n). (f o', n))"

definition userNow :: "(UserNode, i64) go" where
  "userNow n = (Inr (un_clock n (un_reads n)), n\<lparr>un_reads := Suc (un_reads n)\<rparr>)"

definition un_put :: "lib \<Rightarrow> bytes \<Rightarrow> bytes \<Rightarrow> (UserNode, unit) go" where
  "un_put L k v = seq (reject (lb_putFail L k v) ''put'') (modify (\<lambda>n. n\<lparr>un_ds := ds_put (un_ds n) k v\<rparr>))"

definition spawn :: "netCall \<Rightarrow> unit ugo" where
  "spawn c = on_un (modify (\<lambda>n. n\<lparr>un_calls := un_calls n @ [c]\<rparr>))"

text \<open>\<open>m.msgChan <- msg\<close>\<close>

definition pushOut :: "u64 \<Rightarrow> u64 \<Rightarrow> u32 \<Rightarrow> bytes \<Rightarrow> (UserNode, unit) go" where
  "pushOut from to meth data = modify (\<lambda>n. n\<lparr>un_msgs := un_msgs n @
     [\<lparr>msg_Version = 0, msg_From = from, msg_To = to, msg_Nonce = 0, msg_Value = None, msg_GasLimit = 0,
       msg_GasPrice = None, msg_Method = meth, msg_Params = data\<rparr>]\<rparr>)"

definition MT_OrderSeqJobKey :: nat where "MT_OrderSeqJobKey = 57"

definition nonceAtKey :: "u64 \<Rightarrow> u64 \<Rightarrow> u64 \<Rightarrow> bytes" where
  "nonceAtKey u pro n = skey MT_OrderNonceKey [unat u, unat pro, unat n]"

definition seqNumAtKey :: "u64 \<Rightarrow> u64 \<Rightarrow> u64 \<Rightarrow> u32 \<Rightarrow> bytes" where
  "seqNumAtKey u pro n q = skey MT_OrderSeqNumKey [unat u, unat pro, unat n, unat q]"

definition seqJobKey :: "u64 \<Rightarrow> u64 \<Rightarrow> u64 \<Rightarrow> u32 \<Rightarrow> bytes" where
  "seqJobKey u pro n q = skey MT_OrderSeqJobKey [unat u, unat pro, unat n, unat q]"

definition lastJobKey :: "u64 \<Rightarrow> u64 \<Rightarrow> bytes" where
  "lastJobKey u pro = skey MT_OrderSeqJobKey [unat u, unat pro]"

definition defaultAckWaiting :: int where "defaultAckWaiting = 35"
definition minFailCnt :: int where "minFailCnt = 100"

section \<open>Saving\<close>

definition userSaveOrderBase :: "lib \<Rightarrow> unit ugo" where
  "userSaveOrderBase L =
     bnd (gets fst) (\<lambda>o'.
     bnd (deref ''nil base'' (ui_base o')) (\<lambda>base.
     bnd (Serialize (lb_cSignedOrder L) base) (\<lambda>data.
     on_un (un_put L (baseKey (ui_localID o') (ui_pro o') (so_Nonce base)) data))))"

text \<open>Two keys; the error of the first \<open>Put\<close> is dropped.\<close>

definition userSaveOrderState :: "lib \<Rightarrow> uenv \<Rightarrow> unit ugo" where
  "userSaveOrderState L U =
     bnd (gets fst) (\<lambda>o'.
     bnd (deref ''nil base'' (ui_base o')) (\<lambda>base.
     bnd (Serialize (ue_cNonceState U) \<lparr>uns_Nonce = so_Nonce base, uns_Time = ui_orderTime o', uns_State = ui_orderState o'\<rparr>) (\<lambda>val.
     seq (dropErr (on_un (un_put L (nonceKey (ui_localID o') (ui_pro o')) val)))
         (on_un (un_put L (nonceAtKey (ui_localID o') (ui_pro o') (so_Nonce base)) val)))))"

definition userSaveOrderSeq :: "lib \<Rightarrow> unit ugo" where
  "userSaveOrderSeq L =
     bnd (gets fst) (\<lambda>o'.
     bnd (deref ''nil base'' (ui_base o')) (\<lambda>base.
     bnd (deref ''nil seq'' (ui_seq o')) (\<lambda>sq.
     bnd (Serialize (lb_cSignedOrderSeq L) sq) (\<lambda>data.
     on_un (un_put L (seqKey (ui_localID o') (ui_pro o') (so_Nonce base) (os_SeqNum (sos_OrderSeq sq))) data)))))"

definition userSaveSeqState :: "lib \<Rightarrow> uenv \<Rightarrow> unit ugo" where
  "userSaveSeqState L U =
     bnd (gets fst) (\<lambda>o'.
     bnd (deref ''nil base'' (ui_base o')) (\<lambda>base.
     bnd (deref ''nil seq'' (ui_seq o')) (\<lambda>sq.
     bnd (Serialize (ue_cSeqState U) \<lparr>uss_Number = os_SeqNum (sos_OrderSeq sq), uss_Time = ui_seqTime o', uss_State = ui_seqState o'\<rparr>) (\<lambda>val.
     seq (dropErr (on_un (un_put L (seqNumKey (ui_localID o') (ui_pro o') (so_Nonce base)) val)))
         (on_un (un_put L (seqNumAtKey (ui_localID o') (ui_pro o') (so_Nonce base) (os_SeqNum (sos_OrderSeq sq))) val))))))"

definition userSaveSeqJob :: "lib \<Rightarrow> uenv \<Rightarrow> unit ugo" where
  "userSaveSeqJob L U =
     bnd (gets fst) (\<lambda>o'.
     bnd (deref ''nil base'' (ui_base o')) (\<lambda>base.
     bnd (deref ''nil seq'' (ui_seq o')) (\<lambda>sq.
     bnd (Serialize (ue_cSegJobs U) (ui_sjq o')) (\<lambda>data.
     on_un (un_put L (seqJobKey (ui_localID o') (ui_pro o') (so_Nonce base) (os_SeqNum (sos_OrderSeq sq))) data)))))"

section \<open>Closing an order\<close>

text \<open>The sequence number of a commit: the last sequence does not count when nothing was put into it.\<close>

definition commitNum :: "proInst \<Rightarrow> SignedOrder \<Rightarrow> SignedOrderSeq \<Rightarrow> u32" where
  "commitNum o' base sq =
     (if ui_sjq o' = [] \<and> so_Size base = os_Size (sos_OrderSeq sq) \<and> sig_Data (sos_ProDataSig sq) = []
      then os_SeqNum (sos_OrderSeq sq) else ui_seqNum o')"

text \<open>After the commit is pushed: the states are saved for this order and the next, and the instance is reset.\<close>

definition resetOrder :: "lib \<Rightarrow> uenv \<Rightarrow> unit ugo" where
  "resetOrder L U =
     bnd (on_un userNow) (\<lambda>t1.
     seq (updInst (\<lambda>o'. o'\<lparr>ui_orderState := UOrder_Done, ui_orderTime := t1\<rparr>))
    (seq (dropErr (userSaveOrderState L U))
    (bnd (on_un userNow) (\<lambda>t2.
     seq (updInst (\<lambda>o'. o'\<lparr>ui_orderState := UOrder_Init, ui_orderTime := t2,
            ui_base := map_option (\<lambda>b. b\<lparr>so_OrderBase := (so_OrderBase b)\<lparr>ob_Nonce := so_Nonce b + 1\<rparr>\<rparr>) (ui_base o')\<rparr>))
    (seq (dropErr (userSaveOrderState L U))
    (bnd (on_un userNow) (\<lambda>t3.
     seq (updInst (\<lambda>o'. o'\<lparr>ui_seqState := USeq_Init, ui_seqTime := t3,
            ui_seq := map_option (\<lambda>s. s\<lparr>sos_OrderSeq := (sos_OrderSeq s)\<lparr>os_SeqNum := 0\<rparr>\<rparr>) (ui_seq o')\<rparr>))
    (seq (dropErr (userSaveSeqState L U))
         (updInst (\<lambda>o'. o'\<lparr>ui_base := None, ui_seq := None, ui_sjq := [], ui_seqNum := 0\<rparr>))))))))))"

definition userDoneOrder :: "lib \<Rightarrow> uenv \<Rightarrow> unit ugo" where
  "userDoneOrder L U =
     bnd (gets fst) (\<lambda>o'.
     seq (reject (ui_base o' = None \<or> ui_orderState o' \<noteq> UOrder_Closing) ''order state is not closing'')
    (bnd (deref ''nil base'' (ui_base o')) (\<lambda>base.
     seq (reject (so_Size base = 0) ''empty data'')
    (seq (reject (ui_seq o' \<noteq> None \<and> ui_seqState o' \<noteq> USeq_Init) ''order seq state is not init'')
    (bnd (orErr ''empty data'' (ui_seq o')) (\<lambda>sq.
     seq (reject (os_Size (sos_OrderSeq sq) = 0) ''empty data'')
    (seq (reject (commitNum o' base sq = 0) ''empty data at order'')
    (bnd (Serialize (lb_cOrderCommitParas L) \<lparr>ocp_UserID = ob_UserID (so_OrderBase base), ocp_ProID = ob_ProID (so_OrderBase base),
            ocp_Nonce = so_Nonce base, ocp_SeqNum = commitNum o' base sq\<rparr>) (\<lambda>data.
     seq (on_un (pushOut (ob_UserID (so_OrderBase base)) (ob_ProID (so_OrderBase base)) CommitDataOrder data))
    (seq (resetOrder L U)
         (if ui_jobCnt o' > 0 \<and> \<not> ui_inStop o' then spawn (CallQuotation (ui_pro o')) else ret ())))))))))))"

text \<open>The jobs of the open sequence and of the buckets go back to the scheduler.\<close>

definition bucketJobs :: "proInst \<Rightarrow> SegJob list" where
  "bucketJobs o' = concat (map (\<lambda>b. case ui_jobs o' b of None \<Rightarrow> [] | Some js \<Rightarrow> js) (ui_buckets o'))"

definition clearJobs :: "proInst \<Rightarrow> proInst" where
  "clearJobs o' = o'\<lparr>ui_jobs := (\<lambda>b. if b \<in> set (ui_buckets o') then map_option (\<lambda>_. []) (ui_jobs o' b) else ui_jobs o' b), ui_jobCnt := 0\<rparr>"

text \<open>The size of a sequence that was signed was added to the order; it is taken back.\<close>

definition takeBack :: "u64 \<Rightarrow> unit ugo" where
  "takeBack cnt =
     bnd (gets fst) (\<lambda>o'.
     if ui_seqState o' = USeq_Commit then
       bnd (deref ''nil base'' (ui_base o')) (\<lambda>base.
       bnd (deref ''nil seq'' (ui_seq o')) (\<lambda>sq.
       if sig_Data (sos_UserDataSig sq) \<noteq> [] \<and> os_Size (sos_OrderSeq sq) \<ge> cnt * DefaultSegSize then
         bnd (deref ''nil SegPrice'' (ob_SegPrice (so_OrderBase base))) (\<lambda>sp.
         bnd (deref ''nil Price'' (os_Price (sos_OrderSeq sq))) (\<lambda>p.
         bnd (deref ''nil Price'' (so_Price base)) (\<lambda>_.
         let p' = p - sint cnt * sp; sz = os_Size (sos_OrderSeq sq) - cnt * DefaultSegSize in
         updInst (\<lambda>o'. o'\<lparr>ui_seq := Some (sq\<lparr>sos_OrderSeq := (sos_OrderSeq sq)\<lparr>os_Price := Some p', os_Size := sz\<rparr>\<rparr>),
           ui_base := Some (base\<lparr>so_Size := sz, so_Price := Some p'\<rparr>)\<rparr>))))
       else ret ()))
     else ret ())"

text \<open>``clean state'': an order with data is committed as it is; a sequence without data is emptied.\<close>

definition cleanState :: "lib \<Rightarrow> uenv \<Rightarrow> unit ugo" where
  "cleanState L U =
     bnd (gets fst) (\<lambda>o'.
     bnd (deref ''nil base'' (ui_base o')) (\<lambda>base.
     if so_Size base = 0 then
       bnd (orErr ''seq is empty'' (ui_seq o')) (\<lambda>sq.
       if os_Size (sos_OrderSeq sq) = 0 \<and> (ui_seqState o' = USeq_Send \<or> ui_seqState o' = USeq_Commit) then
         seq (updInst (\<lambda>o'. o'\<lparr>ui_seq := Some (sq\<lparr>sos_OrderSeq := (sos_OrderSeq sq)\<lparr>os_Segments := []\<rparr>\<rparr>), ui_seqState := USeq_Send\<rparr>))
             (dropErr (userSaveOrderSeq L))
       else ret ())
     else if ui_seq o' \<noteq> None then
       seq (updInst (\<lambda>o'. o'\<lparr>ui_orderState := UOrder_Closing, ui_seqState := USeq_Init\<rparr>))
           (userDoneOrder L U)
     else ret ()))"

definition userStopOrder :: "lib \<Rightarrow> uenv \<Rightarrow> unit ugo" where
  "userStopOrder L U =
     bnd (gets fst) (\<lambda>o'.
     seq (reject (ui_inflight o') ''sending data'')
    (seq (updInst (\<lambda>o'. o'\<lparr>ui_inStop := True, ui_sjq := []\<rparr>))
    (seq (if ui_base o' \<noteq> None \<and> ui_seq o' \<noteq> None then dropErr (userSaveSeqJob L U) else ret ())
    (seq (updInst clearJobs)
    (seq (on_un (modify (\<lambda>n. n\<lparr>un_redo := un_redo n @ ui_sjq o' @ bucketJobs o'\<rparr>)))
    (seq (reject (ui_base o' = None) ''order is empty'')
    (seq (takeBack (sum_list (map sj_Length (ui_sjq o'))))
         (cleanState L U))))))))"

text \<open>An order without data is prolonged, or stopped when it ends; then it is closed like any other.\<close>

definition userCloseOrder :: "lib \<Rightarrow> uenv \<Rightarrow> unit ugo" where
  "userCloseOrder L U =
     bnd (gets fst) (\<lambda>o'.
     bnd (orErr ''order is empty'' (ui_base o')) (\<lambda>base.
     seq (reject (ui_orderState o' \<noteq> UOrder_Running) ''order state is not running'')
    (let closing =
       bnd (on_un userNow) (\<lambda>now.
       seq (updInst (\<lambda>o'. o'\<lparr>ui_orderState := UOrder_Closing, ui_orderTime := now\<rparr>))
           (userSaveOrderState L U)) in
     if (case ui_seq o' of None \<Rightarrow> True | Some sq \<Rightarrow> os_Size (sos_OrderSeq sq) = 0) then
       bnd (on_un userNow) (\<lambda>nt.
       bnd (gets (\<lambda>(_, n). un_orderLast n)) (\<lambda>lst.
       if sint (so_End base) > sint (nt + lst + 600) then
         bnd (on_un userNow) (\<lambda>now.
         seq (updInst (\<lambda>o'. o'\<lparr>ui_orderTime := now\<rparr>)) (userSaveOrderState L U))
       else seq (dropErr (userStopOrder L U)) closing))
     else closing)))"

section \<open>Opening an order\<close>

text \<open>\<open>((start+m.orderDur)/types.Day + 1) * types.Day\<close>, not before the end of the order before, at most 1000 days away.\<close>

definition orderEnd :: "i64 \<Rightarrow> i64 \<Rightarrow> i64 \<Rightarrow> i64" where
  "orderEnd start dur prevEnd =
     (let t = sint (start + dur);
          q = (if 0 \<le> t then t div Day else - ((- t) div Day));
          e0 = word_of_int ((q + 1) * Day) :: i64;
          e = (if sint e0 < sint prevEnd then prevEnd else e0)
      in if sint (e - start) > 1000 * Day then e - word_of_int Day else e)"

definition userNewOrder :: "lib \<Rightarrow> uenv \<Rightarrow> quoMsg option \<Rightarrow> unit ugo" where
  "userNewOrder L U mquo =
     bnd (gets id) (\<lambda>(o', n).
     seq (case mquo of None \<Rightarrow> ret () | Some quo \<Rightarrow>
            bnd (deref ''nil SegPrice'' (qm_SegPrice quo)) (\<lambda>sp.
            if sp > un_segPrice n then seq (dropErr (userStopOrder L U)) (fail (Err ''price is too high''))
            else if qm_TokenIndex quo \<noteq> 0 then seq (dropErr (userStopOrder L U)) (fail (Err ''token index is not right''))
            else ret ()))
    (bnd (on_un userNow) (\<lambda>start.
     bnd (deref ''nil quotation'' mquo) (\<lambda>quo.
     let base = \<lparr>so_OrderBase = \<lparr>ob_UserID = ui_localID o', ob_ProID = qm_ProID quo, ob_Nonce = ui_nonce o', ob_Start = start,
                   ob_End = orderEnd start (un_orderDur n) (ui_prevEnd o'), ob_TokenIndex = qm_TokenIndex quo,
                   ob_SegPrice = qm_SegPrice quo, ob_PiecePrice = qm_PiecePrice quo\<rparr>,
                 so_Size = 0, so_Price = Some 0, so_Usign = zero_Signature, so_Psign = zero_Signature\<rparr> in
     seq (updInst (\<lambda>o'. o'\<lparr>ui_base := Some base\<rparr>))
    (bnd (SignedOrder_Hash (lb_keccak L) (lb_build L) base) (\<lambda>h.
     bnd (on_un (un_role (RoleSign L (ue_role U) (un_localID n) h SigSecp256k1))) (\<lambda>osig.
     bnd (on_un userNow) (\<lambda>now.
     seq (updInst (\<lambda>o'. o'\<lparr>ui_base := Some (base\<lparr>so_Usign := osig\<rparr>), ui_orderState := UOrder_Wait, ui_orderTime := now,
            ui_seqNum := 0, ui_seqState := USeq_Init\<rparr>))
    (seq (userSaveOrderBase L)
         (userSaveOrderState L U))))))))))"

text \<open>The order on offer is sent to the provider, unless it has become too old or is not allowed.\<close>

definition offerOrder :: "lib \<Rightarrow> uenv \<Rightarrow> unit ugo" where
  "offerOrder L U =
     bnd (gets fst) (\<lambda>o'.
     if ui_orderState o' \<noteq> UOrder_Wait then ret ()
     else
       bnd (deref ''nil base'' (ui_base o')) (\<lambda>base.
       let dur = sint (so_End base - so_Start base) in
       if dur > OrderMax \<or> dur < OrderMin then updInst (\<lambda>o'. o'\<lparr>ui_orderState := UOrder_Init\<rparr>)
       else
         bnd (on_un userNow) (\<lambda>nt.
         if sint (so_Start base) < sint nt \<and> sint (nt - so_Start base) > Hour div 2 \<or>
            sint (so_Start base) > sint nt \<and> sint (so_Start base - nt) > Hour div 2
         then updInst (\<lambda>o'. o'\<lparr>ui_orderState := UOrder_Init\<rparr>)
         else if ui_failCnt o' > 30 \<and> so_Nonce base = 0 then dropErr (userStopOrder L U)
         else
           bnd (Serialize (lb_cSignedOrder L) base) (\<lambda>data. spawn (CallNewOrderAck (ui_pro o') data)))))"

definition userCreateOrder :: "lib \<Rightarrow> uenv \<Rightarrow> quoMsg option \<Rightarrow> unit ugo" where
  "userCreateOrder L U quo =
     bnd (gets fst) (\<lambda>o'.
     seq (reject (ui_inStop o') ''is stop'')
    (seq (if ui_orderState o' = UOrder_Init then userNewOrder L U quo else ret ())
         (offerOrder L U)))"

text \<open>The provider's signature is checked against the order on offer; the end is taken from the answer.\<close>

definition userRunOrder :: "lib \<Rightarrow> uenv \<Rightarrow> SignedOrder \<Rightarrow> unit ugo" where
  "userRunOrder L U ob =
     bnd (gets fst) (\<lambda>o'.
     seq (reject (ui_base o' = None \<or> ui_orderState o' \<noteq> UOrder_Wait) ''order state is not wait'')
    (bnd (deref ''nil base'' (ui_base o')) (\<lambda>base.
     bnd (SignedOrder_Hash (lb_keccak L) (lb_build L) base) (\<lambda>h.
     bnd (on_un (un_role (RoleVerify L (ue_role U) (ui_pro o') h (so_Psign ob)))) (\<lambda>ok.
     seq (reject (\<not> ok) ''order sign is wrong'')
    (bnd (on_un userNow) (\<lambda>now.
     let base' = base\<lparr>so_Psign := so_Psign ob\<rparr> in
     seq (updInst (\<lambda>o'. o'\<lparr>ui_nonce := ui_nonce o' + 1, ui_prevEnd := so_End ob, ui_orderState := UOrder_Running,
            ui_orderTime := now, ui_base := Some base'\<rparr>))
    (seq (userSaveOrderBase L)
    (seq (userSaveOrderState L U)
    (bnd (Serialize (lb_cSignedOrder L) base') (\<lambda>data.
     seq (on_un (pushOut (ob_UserID (so_OrderBase base')) (ob_ProID (so_OrderBase base')) PreDataOrder data))
         (updInst (\<lambda>o'. o'\<lparr>ui_failCnt := 0\<rparr>)))))))))))))"

section \<open>Sequences\<close>

definition mergeSegs :: "lib \<Rightarrow> SignedOrderSeq \<Rightarrow> SignedOrderSeq" where
  "mergeSegs L sq = sq\<lparr>sos_OrderSeq := (sos_OrderSeq sq)\<lparr>os_Segments := AggSegs_Merge (lb_sortAggSegs L) (os_Segments (sos_OrderSeq sq))\<rparr>\<rparr>"

definition newSeq :: "proInst \<Rightarrow> SignedOrder \<Rightarrow> int \<Rightarrow> SignedOrderSeq" where
  "newSeq o' base p = \<lparr>sos_OrderSeq = \<lparr>os_UserID = ob_UserID (so_OrderBase base), os_ProID = ob_ProID (so_OrderBase base),
       os_Nonce = so_Nonce base, os_SeqNum = ui_seqNum o', os_Size = so_Size base, os_Price = Some p, os_Segments = []\<rparr>,
     sos_UserDataSig = zero_Signature, sos_ProDataSig = zero_Signature, sos_UserSig = zero_Signature, sos_ProSig = zero_Signature\<rparr>"

text \<open>A sequence in preparation is merged, saved and announced.\<close>

definition announceSeq :: "lib \<Rightarrow> uenv \<Rightarrow> unit ugo" where
  "announceSeq L U =
     bnd (gets fst) (\<lambda>o'. case ui_seq o' of
       None \<Rightarrow> fail (Err ''create seq fail'')
     | Some sq \<Rightarrow>
         if ui_seqState o' \<noteq> USeq_Prepare then fail (Err ''create seq fail'')
         else
           seq (updInst (\<lambda>o'. o'\<lparr>ui_seq := Some (mergeSegs L sq), ui_sjq := SegJobs_Merge (ue_sortSegJobs U) (ui_sjq o')\<rparr>))
          (seq (userSaveOrderSeq L)
          (seq (userSaveSeqJob L U)
          (seq (userSaveSeqState L U)
          (bnd (Serialize (lb_cSignedOrderSeq L) (mergeSegs L sq)) (\<lambda>data.
           spawn (CallNewSeqAck (ui_pro o') data)))))))"

definition userCreateSeq :: "lib \<Rightarrow> uenv \<Rightarrow> unit ugo" where
  "userCreateSeq L U =
     bnd (gets fst) (\<lambda>o'.
     seq (reject (ui_base o' = None \<or> ui_orderState o' \<noteq> UOrder_Running) ''state is not running'')
    (bnd (deref ''nil base'' (ui_base o')) (\<lambda>base.
     if ui_seqState o' = USeq_Init then
       if ui_jobCnt o' = 0 then ret ()
       else
         bnd (deref ''nil Price'' (so_Price base)) (\<lambda>p.
         bnd (on_un userNow) (\<lambda>now.
         seq (updInst (\<lambda>o'. o'\<lparr>ui_seq := Some (newSeq o' base p), ui_seqNum := ui_seqNum o' + 1, ui_seqState := USeq_Prepare,
                ui_seqTime := now, ui_sjq := []\<rparr>))
             (announceSeq L U)))
     else announceSeq L U)))"

text \<open>The announced sequence is acknowledged; what the provider sent is not looked at.\<close>

definition userSendSeq :: "lib \<Rightarrow> uenv \<Rightarrow> unit ugo" where
  "userSendSeq L U =
     bnd (gets fst) (\<lambda>o'.
     seq (reject (ui_base o' = None \<or> ui_orderState o' \<noteq> UOrder_Running) ''order state is not running'')
    (if ui_seq o' \<noteq> None \<and> ui_seqState o' = USeq_Prepare then
       bnd (on_un userNow) (\<lambda>now.
       seq (updInst (\<lambda>o'. o'\<lparr>ui_seqState := USeq_Send, ui_seqTime := now\<rparr>))
      (seq (userSaveSeqState L U)
           (updInst (\<lambda>o'. o'\<lparr>ui_failCnt := 0\<rparr>))))
     else fail (Err ''send seq fail'')))"

definition userSignHash :: "lib \<Rightarrow> uenv \<Rightarrow> bytes \<Rightarrow> Signature ugo" where
  "userSignHash L U h =
     bnd (gets (\<lambda>(_, n). un_localID n)) (\<lambda>u.
     on_un (un_role (RoleSign L (ue_role U) u h SigSecp256k1)))"

text \<open>The sequence and the order with its size are signed, saved and sent for a signature.\<close>

definition signSeq :: "lib \<Rightarrow> uenv \<Rightarrow> SignedOrder \<Rightarrow> SignedOrderSeq \<Rightarrow> unit ugo" where
  "signSeq L U base sq0 =
     bnd (on_un userNow) (\<lambda>now.
     let sq = mergeSegs L sq0 in
     seq (updInst (\<lambda>o'. o'\<lparr>ui_seqTime := now, ui_seq := Some sq\<rparr>))
    (bnd (userSignHash L U (SignedOrderSeq_Hash L sq)) (\<lambda>ssig.
     bnd (deref ''nil Price'' (so_Price base)) (\<lambda>_.
     bnd (deref ''nil Price'' (os_Price (sos_OrderSeq sq))) (\<lambda>p.
     let base' = base\<lparr>so_Size := os_Size (sos_OrderSeq sq), so_Price := Some p\<rparr> in
     seq (updInst (\<lambda>o'. o'\<lparr>ui_base := Some base'\<rparr>))
    (bnd (SignedOrder_Hash (lb_keccak L) (lb_build L) base') (\<lambda>h.
     bnd (userSignHash L U h) (\<lambda>osig.
     let sq' = sq\<lparr>sos_UserDataSig := ssig, sos_UserSig := osig\<rparr> in
     seq (updInst (\<lambda>o'. o'\<lparr>ui_seq := Some sq'\<rparr>))
    (seq (userSaveOrderSeq L)
    (seq (userSaveSeqState L U)
    (bnd (Serialize (lb_cSignedOrderSeq L) sq') (\<lambda>data.
     bnd (gets fst) (\<lambda>o'. spawn (CallSeqFinishAck (ui_pro o') data))))))))))))))"

definition userCommitSeq :: "lib \<Rightarrow> uenv \<Rightarrow> unit ugo" where
  "userCommitSeq L U =
     bnd (gets fst) (\<lambda>o'.
     seq (reject (ui_base o' = None \<or> ui_orderState o' \<in> {UOrder_Init, UOrder_Wait, UOrder_Done}) ''order state'')
    (bnd (deref ''nil base'' (ui_base o')) (\<lambda>base.
     bnd (orErr ''order seq state'' (ui_seq o')) (\<lambda>sq.
     if ui_seqState o' = USeq_Send then
       bnd (on_un userNow) (\<lambda>now. updInst (\<lambda>o'. o'\<lparr>ui_seqState := USeq_Commit, ui_seqTime := now\<rparr>))
     else if ui_seqState o' = USeq_Commit then
       (if ui_inflight o' then ret () else signSeq L U base sq)
     else fail (Err ''commit seq fail'')))))"

text \<open>\<open>ok, _ := m.RoleVerify(...)\<close>: an error counts as a signature that does not verify.\<close>

definition verifyPro :: "lib \<Rightarrow> uenv \<Rightarrow> bytes \<Rightarrow> Signature \<Rightarrow> string \<Rightarrow> unit ugo" where
  "verifyPro L U h sig w =
     bnd (gets fst) (\<lambda>o'.
     bnd (attempt (on_un (un_role (RoleVerify L (ue_role U) (ui_pro o') h sig)))) (\<lambda>r.
     reject (r \<noteq> Inr True) w))"

text \<open>The signed sequence is recorded and pushed to the chain.\<close>

definition recordFinish :: "lib \<Rightarrow> uenv \<Rightarrow> SignedOrder \<Rightarrow> SignedOrderSeq \<Rightarrow> unit ugo" where
  "recordFinish L U base sq =
     bnd (on_un userNow) (\<lambda>now.
     bnd (deref ''nil Price'' (os_Price (sos_OrderSeq sq))) (\<lambda>p.
     seq (updInst (\<lambda>o'. o'\<lparr>ui_seq := Some sq, ui_seqState := USeq_Finish, ui_seqTime := now,
            ui_base := Some (base\<lparr>so_Size := os_Size (sos_OrderSeq sq), so_Price := Some p\<rparr>)\<rparr>))
    (seq (userSaveOrderSeq L)
    (seq (userSaveOrderBase L)
    (seq (userSaveSeqState L U)
    (bnd (Serialize (lb_cSignedOrderSeq L) sq) (\<lambda>data.
     bnd (gets id) (\<lambda>(o', n).
     seq (on_un (pushOut (un_localID n) (ui_pro o') AddDataOrder data))
    (seq (case marshal (lb_cNonceSeq L) \<lparr>ns_Nonce = os_Nonce (sos_OrderSeq sq), ns_SeqNum = os_SeqNum (sos_OrderSeq sq), ns_SubNonce = 0\<rparr> of
            None \<Rightarrow> ret () | Some b \<Rightarrow> dropErr (on_un (un_put L (lastJobKey (un_localID n) (ui_pro o')) b)))
         (updInst (\<lambda>o'. o'\<lparr>ui_seqState := USeq_Init, ui_failCnt := 0\<rparr>)))))))))))"

definition userFinishSeq :: "lib \<Rightarrow> uenv \<Rightarrow> SignedOrderSeq \<Rightarrow> unit ugo" where
  "userFinishSeq L U s =
     bnd (gets fst) (\<lambda>o'.
     bnd (orErr ''order empty'' (ui_base o')) (\<lambda>base.
     bnd (orErr ''order seq state'' (ui_seq o')) (\<lambda>sq.
     seq (reject (ui_seqState o' \<noteq> USeq_Commit) ''order seq state'')
    (seq (verifyPro L U (SignedOrderSeq_Hash L sq) (sos_ProDataSig s) ''seq sign is wrong'')
    (bnd (SignedOrder_Hash (lb_keccak L) (lb_build L) base) (\<lambda>h.
     seq (verifyPro L U h (sos_ProSig s) ''order sign is wrong'')
         (recordFinish L U base (sq\<lparr>sos_ProDataSig := sos_ProDataSig s, sos_ProSig := sos_ProSig s\<rparr>))))))))"

section \<open>The ticker\<close>

definition checkSeqState :: "lib \<Rightarrow> uenv \<Rightarrow> i64 \<Rightarrow> proInst \<Rightarrow> i64 \<Rightarrow> unit ugo" where
  "checkSeqState L U nt o' seqLast = (case ui_seqState o' of
      USeq_Init \<Rightarrow> if ui_jobCnt o' > 0 then dropErr (userCreateSeq L U) else ret ()
    | USeq_Prepare \<Rightarrow>
        if sint (nt - ui_seqTime o') > defaultAckWaiting then
          seq (updInst (\<lambda>o'. o'\<lparr>ui_failCnt := ui_failCnt o' + 1\<rparr>)) (dropErr (userCreateSeq L U))
        else ret ()
    | USeq_Send \<Rightarrow> if sint (nt - ui_seqTime o') > sint seqLast then dropErr (userCommitSeq L U) else ret ()
    | USeq_Commit \<Rightarrow>
        if sint (nt - ui_seqTime o') > defaultAckWaiting then
          seq (updInst (\<lambda>o'. o'\<lparr>ui_failCnt := ui_failCnt o' + 1\<rparr>)) (dropErr (userCommitSeq L U))
        else ret ()
    | USeq_Finish \<Rightarrow> updInst (\<lambda>o'. o'\<lparr>ui_seqState := USeq_Init\<rparr>))"

definition checkClosing :: "lib \<Rightarrow> uenv \<Rightarrow> i64 \<Rightarrow> proInst \<Rightarrow> unit ugo" where
  "checkClosing L U nt o' = (case ui_seqState o' of
      USeq_Send \<Rightarrow> dropErr (userCommitSeq L U)
    | USeq_Commit \<Rightarrow>
        if sint (nt - ui_seqTime o') > defaultAckWaiting then
          seq (updInst (\<lambda>o'. o'\<lparr>ui_failCnt := ui_failCnt o' + 1\<rparr>)) (dropErr (userCommitSeq L U))
        else ret ()
    | _ \<Rightarrow> seq (updInst (\<lambda>o'. o'\<lparr>ui_seqState := USeq_Init\<rparr>)) (dropErr (userDoneOrder L U)))"

definition checkState :: "lib \<Rightarrow> uenv \<Rightarrow> i64 \<Rightarrow> unit ugo" where
  "checkState L U nt =
     bnd (gets id) (\<lambda>(o', n). case ui_orderState o' of
       UOrder_Init \<Rightarrow>
         if ui_jobCnt o' > 0 then
           bnd (on_un userNow) (\<lambda>now.
           seq (updInst (\<lambda>o'. o'\<lparr>ui_orderTime := now\<rparr>)) (spawn (CallQuotation (ui_pro o'))))
         else ret ()
     | UOrder_Wait \<Rightarrow>
         if sint (nt - ui_orderTime o') > defaultAckWaiting then
           seq (updInst (\<lambda>o'. o'\<lparr>ui_failCnt := ui_failCnt o' + 1\<rparr>)) (dropErr (userCreateOrder L U None))
         else ret ()
     | UOrder_Running \<Rightarrow>
         if sint (nt - ui_orderTime o') > sint (un_orderLast n) then dropErr (userCloseOrder L U)
         else checkSeqState L U nt o' (un_seqLast n)
     | UOrder_Closing \<Rightarrow> checkClosing L U nt o'
     | UOrder_Done \<Rightarrow> if ui_jobCnt o' > 0 then updInst (\<lambda>o'. o'\<lparr>ui_orderState := UOrder_Init\<rparr>) else ret ())"

text \<open>A provider not heard of for a while is asked again, is not ready, and is stopped at last.\<close>

definition checkAvail :: "lib \<Rightarrow> uenv \<Rightarrow> i64 \<Rightarrow> unit ugo" where
  "checkAvail L U nt =
     bnd (gets id) (\<lambda>(o', n).
     if sint (nt - ui_availTime o') < 300 then updInst (\<lambda>o'. o'\<lparr>ui_ready := True\<rparr>)
     else
       seq (if sint (nt - ui_updateTime o') > 600 then
              seq (updInst (\<lambda>o'. o'\<lparr>ui_updateTime := nt\<rparr>)) (spawn (CallUpdate (ui_pro o')))
            else ret ())
      (seq (if sint (nt - ui_availTime o') > 3600 then updInst (\<lambda>o'. o'\<lparr>ui_ready := False\<rparr>) else ret ())
           (if sint (nt - ui_availTime o') > sint (un_orderLast n) then dropErr (userStopOrder L U) else ret ())))"

text \<open>A provider that failed too often is stopped; the state of one that is ready is looked at.\<close>

definition checkReady :: "lib \<Rightarrow> uenv \<Rightarrow> i64 \<Rightarrow> unit ugo" where
  "checkReady L U nt =
     bnd (gets fst) (\<lambda>o'.
     if ui_failCnt o' > minFailCnt \<or> ui_failSent o' > minFailCnt then dropErr (userStopOrder L U)
     else if \<not> ui_ready o' then ret ()
     else checkState L U nt)"

definition userCheck :: "lib \<Rightarrow> uenv \<Rightarrow> unit ugo" where
  "userCheck L U =
     bnd (on_un userNow) (\<lambda>nt.
     bnd (gets fst) (\<lambda>o'.
     if ui_inStop o' then ret () else seq (checkAvail L U nt) (checkReady L U nt)))"

end
