(* ===== verification/UserSend.thy ===== *)
theory UserSend
  imports UserOrder
begin

text \<open>
  The rest of one provider's instance on the user's side: taking and sending chunks
  (\<open>addSeg\<close> and \<open>sendChunk\<close> of \<open>data.go\<close>), the requests to the provider (\<open>net.go\<close>), the events of
  \<open>runOrderSched\<close>, and creating and loading an instance (\<open>inst.go\<close>).
\<close>

section \<open>Sending chunks\<close>

definition addSeg :: "SegJob \<Rightarrow> unit ugo" where
  "addSeg sj =
     bnd (gets fst) (\<lambda>o'.
     seq (reject (ui_inStop o') ''is stop'')
         (updInst (\<lambda>o'. case ui_jobs o' (sj_BucketID sj) of
            Some js \<Rightarrow> o'\<lparr>ui_jobs := (ui_jobs o')(sj_BucketID sj \<mapsto> js @ [sj]), ui_jobCnt := ui_jobCnt o' + 1\<rparr>
          | None \<Rightarrow> o'\<lparr>ui_jobs := (ui_jobs o')(sj_BucketID sj \<mapsto> [sj]), ui_jobCnt := ui_jobCnt o' + 1,
              ui_buckets := ui_buckets o' @ [sj_BucketID sj]\<rparr>)))"

text \<open>\<open>bjob = o.jobs[bid]; bjob.jobs = bjob.jobs[1:]; o.jobCnt--\<close>: a nil entry and an empty list panic.\<close>

definition popJob :: "u64 \<Rightarrow> unit ugo" where
  "popJob bid =
     bnd (gets fst) (\<lambda>o'.
     bnd (deref ''nil bucket job'' (ui_jobs o' bid)) (\<lambda>js.
     if js = [] then fail (Panic ''slice bounds out of range'')
     else updInst (\<lambda>o'. o'\<lparr>ui_jobs := (ui_jobs o')(bid \<mapsto> tl js), ui_jobCnt := ui_jobCnt o' - 1\<rparr>)))"

text \<open>The guards of the loop of \<open>sendChunk\<close>; \<open>got\<close> is whether the semaphore was free.\<close>

definition canSend :: "bool \<Rightarrow> proInst \<Rightarrow> bool" where
  "canSend got o' \<longleftrightarrow> \<not> ui_inStop o' \<and> ui_ready o' \<and> ui_base o' \<noteq> None \<and> ui_orderState o' = UOrder_Running \<and>
     ui_seq o' \<noteq> None \<and> ui_seqState o' = USeq_Send \<and> ui_jobCnt o' \<noteq> 0 \<and> got"

definition seqHas :: "proInst \<Rightarrow> SegJob \<Rightarrow> bool" where
  "seqHas o' sj \<longleftrightarrow> (case ui_seq o' of None \<Rightarrow> False
     | Some sq \<Rightarrow> AggSegs_Has (os_Segments (sos_OrderSeq sq)) (sj_BucketID sj) (sj_Start sj) (sj_ChunkID sj))"

text \<open>From the top of the loop to the chunk in flight: the next bucket in turn and its first job.\<close>

definition sendBegin :: "bool \<Rightarrow> unit ugo" where
  "sendBegin got =
     bnd (gets fst) (\<lambda>o'.
     if \<not> canSend got o' then ret ()
     else
       let i = (if ui_turn o' + 1 \<ge> length (ui_buckets o') then 0 else ui_turn o' + 1) in
       seq (updInst (\<lambda>o'. o'\<lparr>ui_turn := i\<rparr>))
      (if i \<ge> length (ui_buckets o') then fail (Panic ''index out of range'')
       else
         let bid = ui_buckets o' ! i in
         case ui_jobs o' bid of
           None \<Rightarrow> ret ()
         | Some [] \<Rightarrow> ret ()
         | Some (sj # _) \<Rightarrow>
             if seqHas o' sj then popJob bid
             else updInst (\<lambda>o'. o'\<lparr>ui_inflight := True, ui_sending := Some (bid, sj)\<rparr>)))"

fun Contains :: "bytes \<Rightarrow> bytes \<Rightarrow> bool" where
  "Contains [] w = (w = [])"
| "Contains (c # cs) w = (take (length w) (c # cs) = w \<or> Contains cs w)"

text \<open>The text of the error of \<open>SendSegmentByID\<close>, if there is one.\<close>

definition sendText :: "uenv \<Rightarrow> dataService \<Rightarrow> bytes \<Rightarrow> u64 \<Rightarrow> bytes option" where
  "sendText U d sid to = (case fst (GetSegmentFromLocal (ue_role U) sid d) of
      Inl e \<Rightarrow> Some (ascii ''missing chunk '' @ en_errText (ue_role U) e)
    | Inr sg \<Rightarrow> (case ue_net U to PutSegmentReq (Segment_Serialize sg) [] of
        Inl t \<Rightarrow> Some t
      | Inr resp \<Rightarrow> if nr_Err resp then Some (ascii ''send to '' @ FormatUint (unat to) @ ascii '' fails '' @ nr_Info resp) else None))"

definition landed :: "unit ugo" where
  "landed = updInst (\<lambda>o'. o'\<lparr>ui_inflight := False, ui_sending := None\<rparr>)"

definition tellSent :: "SegJob \<Rightarrow> unit ugo" where
  "tellSent sj = on_un (modify (\<lambda>n. n\<lparr>un_sent := un_sent n @ [sj]\<rparr>))"

text \<open>The chunk is with the provider: it is added to the sequence and to its jobs, which are saved.\<close>

definition pushChunk :: "lib \<Rightarrow> uenv \<Rightarrow> bytes \<Rightarrow> SegJob \<Rightarrow> unit ugo" where
  "pushChunk L U sid sj =
     bnd (gets fst) (\<lambda>o'.
     bnd (deref ''nil seq'' (ui_seq o')) (\<lambda>sq.
     bnd (deref ''nil Price'' (os_Price (sos_OrderSeq sq))) (\<lambda>p.
     bnd (deref ''nil base'' (ui_base o')) (\<lambda>base.
     bnd (deref ''nil SegPrice'' (ob_SegPrice (so_OrderBase base))) (\<lambda>sp.
     updInst (\<lambda>o'. o'\<lparr>ui_seq := Some (sq\<lparr>sos_OrderSeq := (sos_OrderSeq sq)\<lparr>
         os_Segments := AggSegs_Merge (lb_sortAggSegs L) (AggSegs_Push (os_Segments (sos_OrderSeq sq))
           \<lparr>as_BucketID = GetBucketID sid, as_Start = GetStripeID sid, as_Length = 1, as_ChunkID = GetChunkID sid\<rparr>),
         os_Price := Some (p + sp), os_Size := os_Size (sos_OrderSeq sq) + DefaultSegSize\<rparr>\<rparr>),
       ui_sjq := SegJobs_Merge (ue_sortSegJobs U) (SegJobs_Push (ui_sjq o') sj)\<rparr>))))))"

definition chunkSent :: "lib \<Rightarrow> uenv \<Rightarrow> u64 \<Rightarrow> SegJob \<Rightarrow> bytes \<Rightarrow> unit ugo" where
  "chunkSent L U bid sj sid =
     bnd (on_un userNow) (\<lambda>now.
     seq (updInst (\<lambda>o'. o'\<lparr>ui_availTime := now\<rparr>))
    (seq (pushChunk L U sid sj)
    (seq (popJob bid)
    (seq landed
    (seq (dropErr (userSaveOrderSeq L))
    (seq (dropErr (userSaveSeqJob L U))
         (tellSent sj)))))))"

text \<open>From the answer on.  A provider that ``already has seg'' is taken to have it.\<close>

definition sendEnd :: "lib \<Rightarrow> uenv \<Rightarrow> unit ugo" where
  "sendEnd L U =
     bnd (gets id) (\<lambda>(o', n). case ui_sending o' of
       None \<Rightarrow> ret ()
     | Some (bid, sj) \<Rightarrow> (case NewSegmentID (ui_fsID o') (sj_BucketID sj) (sj_Start sj) (sj_ChunkID sj) of
         Inl _ \<Rightarrow> landed
       | Inr sid \<Rightarrow>
           bnd (attempt (on_un (un_dt (GetSegmentLocation (ue_role U) sid)))) (\<lambda>loc. case loc of
             Inr _ \<Rightarrow> seq (popJob bid) (seq landed (tellSent sj))
           | Inl _ \<Rightarrow> (case sendText U (un_data n) sid (ui_pro o') of
               Some t \<Rightarrow>
                 if Contains t (ascii ''missing chunk'') then seq (popJob bid) landed
                 else if \<not> Contains t (ascii ''already has seg'') then
                   seq landed (updInst (\<lambda>o'. o'\<lparr>ui_failSent := ui_failSent o' + 1\<rparr>))
                 else chunkSent L U bid sj sid
             | None \<Rightarrow> seq (updInst (\<lambda>o'. o'\<lparr>ui_failSent := 0\<rparr>)) (chunkSent L U bid sj sid)))))"

section \<open>Asking the provider\<close>

definition signRequest :: "lib \<Rightarrow> uenv \<Rightarrow> bytes \<Rightarrow> (UserNode, bytes) go" where
  "signRequest L U data =
     bnd (gets un_localID) (\<lambda>u.
     bnd (un_role (RoleSign L (ue_role U) u (lb_blake3 L data) SigSecp256k1)) (\<lambda>sig.
     Serialize (ue_cSignature U) sig))"

definition askNet :: "uenv \<Rightarrow> u64 \<Rightarrow> netRequest \<Rightarrow> bytes \<Rightarrow> bytes \<Rightarrow> (UserNode, NetResp) go" where
  "askNet U pro req data sig = (case ue_net U pro req data sig of Inl _ \<Rightarrow> fail (Err ''send'') | Inr resp \<Rightarrow> ret resp)"

text \<open>The signature of a response over the hash of its payload.\<close>

definition verifyResp :: "lib \<Rightarrow> uenv \<Rightarrow> u64 \<Rightarrow> NetResp \<Rightarrow> (UserNode, bool) go" where
  "verifyResp L U pro resp =
     bnd (orErr ''unmarshal'' (decode (ue_cSignature U) zero_Signature (nr_Sign resp))) (\<lambda>sig.
     un_role (RoleVerify L (ue_role U) pro (lb_blake3 L (nr_Info resp)) sig))"

definition deliver :: "netEvent \<Rightarrow> (UserNode, unit) go" where
  "deliver e = modify (\<lambda>n. n\<lparr>un_net := un_net n @ [e]\<rparr>)"

definition userUpdate :: "uenv \<Rightarrow> u64 \<Rightarrow> (UserNode, unit) go" where
  "userUpdate U pro =
     bnd (gets un_wl) (\<lambda>w.
     if \<not> wl_Has pro w \<or> ue_connectFail U pro then ret () else deliver (GotUpdate pro))"

definition getQuotation :: "lib \<Rightarrow> uenv \<Rightarrow> u64 \<Rightarrow> (UserNode, unit) go" where
  "getQuotation L U pro =
     bnd (gets un_wl) (\<lambda>w.
     seq (reject (\<not> wl_Has pro w) ''provider not in restrict list'')
    (bnd (askNet U pro AskPrice [] []) (\<lambda>resp.
     seq (reject (nr_From resp \<noteq> pro) ''wrong quotation from'')
    (seq (reject (nr_Err resp) ''get new quotation'')
    (bnd (orErr ''unmarshal'' (decode (ue_cQuotation U) \<lparr>qm_ProID = 0, qm_TokenIndex = 0, qm_SegPrice = None, qm_PiecePrice = None\<rparr> (nr_Info resp))) (\<lambda>quo.
     bnd (verifyResp L U pro resp) (\<lambda>ok.
     if ok then deliver (GotQuotation quo) else ret ())))))))"

text \<open>\<open>getNewOrderAck\<close>, \<open>getNewSeqAck\<close> and \<open>getSeqFinishAck\<close>: only the first two report a refusal.\<close>

definition getAck :: "lib \<Rightarrow> uenv \<Rightarrow> netRequest \<Rightarrow> bool \<Rightarrow> 'a codec \<Rightarrow> 'a \<Rightarrow> ('a \<Rightarrow> netEvent) \<Rightarrow> u64 \<Rightarrow> bytes \<Rightarrow> (UserNode, unit) go" where
  "getAck L U req report c zero ev pro data =
     bnd (signRequest L U data) (\<lambda>sig.
     bnd (askNet U pro req data sig) (\<lambda>resp.
     seq (if nr_Err resp then
            seq (if report then deliver (GotFail pro) else ret ()) (fail (Err ''get ack''))
          else ret ())
    (bnd (orErr ''unmarshal'' (decode c zero (nr_Info resp))) (\<lambda>x.
     bnd (verifyResp L U pro resp) (\<lambda>ok.
     if ok then deliver (ev x) else ret ())))))"

definition getNewOrderAck :: "lib \<Rightarrow> uenv \<Rightarrow> u64 \<Rightarrow> bytes \<Rightarrow> (UserNode, unit) go" where
  "getNewOrderAck L U = getAck L U CreateOrderReq True (lb_cSignedOrder L) zero_SignedOrder GotOrder"

definition getNewSeqAck :: "lib \<Rightarrow> uenv \<Rightarrow> u64 \<Rightarrow> bytes \<Rightarrow> (UserNode, unit) go" where
  "getNewSeqAck L U pro = getAck L U CreateSeqReq True (lb_cSignedOrderSeq L) zero_SignedOrderSeq (GotSeqNew pro) pro"

definition getSeqFinishAck :: "lib \<Rightarrow> uenv \<Rightarrow> u64 \<Rightarrow> bytes \<Rightarrow> (UserNode, unit) go" where
  "getSeqFinishAck L U pro = getAck L U FinishSeqReq False (lb_cSignedOrderSeq L) zero_SignedOrderSeq (GotSeqFinish pro) pro"

definition getSeqFixAck :: "lib \<Rightarrow> uenv \<Rightarrow> SignedOrderSeq \<Rightarrow> (UserNode, SignedOrderSeq) go" where
  "getSeqFixAck L U sos =
     (let pro = os_ProID (sos_OrderSeq sos) in
     bnd (Serialize (lb_cSignedOrderSeq L) sos) (\<lambda>data.
     bnd (signRequest L U data) (\<lambda>sig.
     bnd (askNet U pro FixSeqReq data sig) (\<lambda>resp.
     seq (reject (nr_Err resp) ''get fix seq ack'')
    (bnd (orErr ''unmarshal'' (decode (lb_cSignedOrderSeq L) zero_SignedOrderSeq (nr_Info resp))) (\<lambda>os.
     bnd (verifyResp L U pro resp) (\<lambda>ok.
     seq (reject (\<not> ok) ''wrong sign'') (ret os))))))))"

text \<open>A goroutine that was started.\<close>

definition runCall :: "lib \<Rightarrow> uenv \<Rightarrow> netCall \<Rightarrow> (UserNode, unit) go" where
  "runCall L U c = (case c of
      CallUpdate pro \<Rightarrow> userUpdate U pro
    | CallQuotation pro \<Rightarrow> getQuotation L U pro
    | CallNewOrderAck pro data \<Rightarrow> getNewOrderAck L U pro data
    | CallNewSeqAck pro data \<Rightarrow> getNewSeqAck L U pro data
    | CallSeqFinishAck pro data \<Rightarrow> getSeqFinishAck L U pro data)"

section \<open>The events of an instance\<close>

text \<open>The provider an event is dispatched to by \<open>runNetSched\<close>.\<close>

fun eventPro :: "netEvent \<Rightarrow> u64" where
  "eventPro (GotUpdate p) = p"
| "eventPro (GotFail p) = p"
| "eventPro (GotQuotation q) = qm_ProID q"
| "eventPro (GotOrder b) = ob_ProID (so_OrderBase b)"
| "eventPro (GotSeqNew p _) = p"
| "eventPro (GotSeqFinish p _) = p"

definition touch :: "unit ugo" where
  "touch = bnd (on_un userNow) (\<lambda>now. updInst (\<lambda>o'. o'\<lparr>ui_availTime := now\<rparr>))"

text \<open>\<open>runNetSched\<close> and \<open>runOrderSched\<close> on one event.\<close>

definition instEvent :: "lib \<Rightarrow> uenv \<Rightarrow> netEvent \<Rightarrow> unit ugo" where
  "instEvent L U e = (case e of
      GotUpdate _ \<Rightarrow> touch
    | GotFail _ \<Rightarrow> updInst (\<lambda>o'. o'\<lparr>ui_failCnt := ui_failCnt o' + 10\<rparr>)
    | GotQuotation quo \<Rightarrow>
        bnd (deref ''nil SegPrice'' (qm_SegPrice quo)) (\<lambda>sp.
        bnd (gets (\<lambda>(_, n). un_segPrice n)) (\<lambda>mx.
        if sp > mx then updInst (\<lambda>o'. o'\<lparr>ui_failCnt := ui_failCnt o' + 1\<rparr>)
        else
          seq (updInst (\<lambda>o'. o'\<lparr>ui_failCnt := 0\<rparr>))
         (seq touch (dropErr (userCreateOrder L U (Some quo))))))
    | GotOrder ob \<Rightarrow> seq touch (dropErr (userRunOrder L U ob))
    | GotSeqNew _ s \<Rightarrow> seq touch (dropErr (userSendSeq L U))
    | GotSeqFinish _ s \<Rightarrow> seq touch (dropErr (userFinishSeq L U s)))"

text \<open>The long ticker: the location of the provider; a role of another group is a nil pointer, whose \<open>GetDesc\<close> is empty.\<close>

definition refreshLocation :: "lib \<Rightarrow> uenv \<Rightarrow> unit ugo" where
  "refreshLocation L U =
     bnd (gets fst) (\<lambda>o'.
     bnd (attempt (on_un (un_role (RoleGet L (ue_role U) (ui_pro o') True)))) (\<lambda>r. case r of
       Inl _ \<Rightarrow> ret ()
     | Inr mri \<Rightarrow> updInst (\<lambda>o'. o'\<lparr>ui_location := (case mri of None \<Rightarrow> [] | Some ri \<Rightarrow> ri_Desc ri)\<rparr>)))"

section \<open>A new instance\<close>

definition new_PayInfo :: OrderPayInfo where
  "new_PayInfo = \<lparr>pi_ID = 0, pi_Size = 0, pi_ConfirmSize = 0, pi_OnChainSize = 0, pi_ExpireSize = 0, pi_NeedPay = None, pi_Paid = None, pi_Balance = None\<rparr>"

text \<open>\<open>t1\<close> and \<open>t2\<close> are the two readings of the clock.\<close>

definition new_proInst :: "u64 \<Rightarrow> bytes \<Rightarrow> u64 \<Rightarrow> i64 \<Rightarrow> i64 \<Rightarrow> proInst" where
  "new_proInst u fsid pro t1 t2 = \<lparr>ui_localID = u, ui_fsID = fsid, ui_location = [], ui_pro = pro, ui_availTime = t1 - 301, ui_updateTime = 0,
     ui_nonce = 0, ui_seqNum = 0, ui_prevEnd = t2, ui_opi = new_PayInfo, ui_base = None, ui_orderTime = 0, ui_orderState = UOrder_Init,
     ui_seq = None, ui_seqTime = 0, ui_seqState = USeq_Init, ui_sjq = [], ui_inflight = False, ui_buckets = [], ui_jobs = (\<lambda>_. None),
     ui_jobCnt = 0, ui_failCnt = 0, ui_failSent = 0, ui_ready = False, ui_inStop = False, ui_turn = 0, ui_sending = None\<rparr>"

end
