(* ===== verification/UserOrderSafe.thy ===== *)
theory UserOrderSafe
  imports UserSend
begin

text \<open>
  The messages a user pushes for one provider.  The chain opens an order only at the next nonce,
  takes a sequence only with the number of sequences it has, and commits only with that number
  (\<open>createOrder\<close>, \<open>addSeq\<close>, \<open>commitOrder\<close>); \<open>follow\<close> is that rule.  The invariant of the
  instance, proved handler by handler, shows that what is pushed follows it, as long as an order
  is not stopped in the middle of a sequence; stopping there breaks the rule.
\<close>

section \<open>What the chain accepts\<close>

datatype orderEv = EvOpen u64 | EvSeq u64 u32 | EvCommit u64 u32 | EvOther

definition orderEvent :: "lib \<Rightarrow> Message \<Rightarrow> orderEv" where
  "orderEvent L m =
     (if msg_Method m = PreDataOrder then
        (case decode (lb_cSignedOrder L) zero_SignedOrder (msg_Params m) of None \<Rightarrow> EvOther | Some b \<Rightarrow> EvOpen (so_Nonce b))
      else if msg_Method m = AddDataOrder then
        (case decode (lb_cSignedOrderSeq L) zero_SignedOrderSeq (msg_Params m) of None \<Rightarrow> EvOther
         | Some s \<Rightarrow> EvSeq (os_Nonce (sos_OrderSeq s)) (os_SeqNum (sos_OrderSeq s)))
      else if msg_Method m = CommitDataOrder then
        (case decode (lb_cOrderCommitParas L) zero_OrderCommitParas (msg_Params m) of
           None \<Rightarrow> EvOther | Some p \<Rightarrow> EvCommit (ocp_Nonce p) (ocp_SeqNum p))
      else EvOther)"

text \<open>The state of a pair on the chain: the nonce, and the number of sequences of the open order.\<close>

fun evStep :: "u64 \<times> u32 option \<Rightarrow> orderEv \<Rightarrow> (u64 \<times> u32 option) option" where
  "evStep (n, None) (EvOpen m) = (if m = n then Some (n, Some 0) else None)"
| "evStep (n, Some k) (EvSeq m j) = (if m = n \<and> j = k then Some (n, Some (k + 1)) else None)"
| "evStep (n, Some k) (EvCommit m j) = (if m = n \<and> j = k then Some (n + 1, None) else None)"
| "evStep _ _ = None"

fun follow :: "u64 \<times> u32 option \<Rightarrow> orderEv list \<Rightarrow> (u64 \<times> u32 option) option" where
  "follow st [] = Some st"
| "follow st (e # es) = Option.bind (evStep st e) (\<lambda>st'. follow st' es)"

lemma follow_append: "follow st (xs @ ys) = Option.bind (follow st xs) (\<lambda>st'. follow st' ys)"
  by (induction st xs rule: follow.induct) (auto split: bind_splits)

text \<open>The messages to one provider.\<close>

definition followed :: "lib \<Rightarrow> u64 \<Rightarrow> Message list \<Rightarrow> (u64 \<times> u32 option) option" where
  "followed L pro ms = follow (0, None) (map (orderEvent L) (filter (\<lambda>m. msg_To m = pro) ms))"

lemma followed_snoc:
  "followed L pro (ms @ [m]) = (if msg_To m = pro then Option.bind (followed L pro ms) (\<lambda>st. evStep st (orderEvent L m)) else followed L pro ms)"
  by (auto simp: followed_def follow_append split: bind_splits)

section \<open>The invariant\<close>

text \<open>A sequence the provider has not signed, and the order without what is in it.\<close>

definition unsignedSeq :: "u64 \<Rightarrow> u32 \<Rightarrow> proInst \<Rightarrow> SignedOrderSeq \<Rightarrow> bool" where
  "unsignedSeq n0 k o' s \<longleftrightarrow> os_Nonce (sos_OrderSeq s) = n0 \<and> os_SeqNum (sos_OrderSeq s) = k \<and> ui_seqNum o' = k + 1 \<and>
     sig_Data (sos_ProDataSig s) = []"

definition emptySeq :: "u64 \<Rightarrow> u32 \<Rightarrow> SignedOrder \<Rightarrow> proInst \<Rightarrow> SignedOrderSeq \<Rightarrow> bool" where
  "emptySeq n0 k b o' s \<longleftrightarrow> unsignedSeq n0 k o' s \<and> ui_sjq o' = [] \<and> os_Size (sos_OrderSeq s) = so_Size b"

definition finishedSeq :: "u64 \<Rightarrow> u32 \<Rightarrow> proInst \<Rightarrow> SignedOrderSeq \<Rightarrow> bool" where
  "finishedSeq n0 k o' s \<longleftrightarrow> os_SeqNum (sos_OrderSeq s) + 1 = k \<and> ui_seqNum o' = k \<and> sig_Data (sos_ProDataSig s) \<noteq> []"

definition seq_ok :: "u64 \<Rightarrow> u32 \<Rightarrow> SignedOrder \<Rightarrow> proInst \<Rightarrow> bool" where
  "seq_ok n0 k b o' \<longleftrightarrow> (case ui_seqState o' of
      USeq_Init \<Rightarrow> \<not> ui_inflight o' \<and> (case ui_seq o' of
          None \<Rightarrow> k = 0 \<and> ui_seqNum o' = 0 \<and> so_Size b = 0
        | Some s \<Rightarrow> os_Size (sos_OrderSeq s) = so_Size b \<and>
            (finishedSeq n0 k o' s \<or> ui_orderState o' = UOrder_Closing \<and> emptySeq n0 k b o' s))
    | USeq_Prepare \<Rightarrow> \<not> ui_inflight o' \<and> (\<exists>s. ui_seq o' = Some s \<and> emptySeq n0 k b o' s \<and> sos_UserDataSig s = zero_Signature)
    | USeq_Finish \<Rightarrow> False
    | _ \<Rightarrow> (\<exists>s. ui_seq o' = Some s \<and> unsignedSeq n0 k o' s \<and>
        (sos_UserDataSig s \<noteq> zero_Signature \<longrightarrow> os_Size (sos_OrderSeq s) = so_Size b \<and> \<not> ui_inflight o' \<and>
           (ui_seqState o' = USeq_Commit \<or> ui_inStop o'))))"

definition inst_ok :: "u64 \<Rightarrow> u64 \<times> u32 option \<Rightarrow> proInst \<Rightarrow> bool" where
  "inst_ok pro st o' \<longleftrightarrow> ui_pro o' = pro \<and> (ui_inStop o' \<longrightarrow> \<not> ui_inflight o') \<and>
     (\<forall>b. ui_base o' = Some b \<longrightarrow> ob_ProID (so_OrderBase b) = pro) \<and>
     (case ui_orderState o' of
        UOrder_Done \<Rightarrow> False
      | UOrder_Init \<Rightarrow> st = (ui_nonce o', None) \<and> ui_seq o' = None \<and> ui_seqState o' = USeq_Init \<and> \<not> ui_inflight o' \<and>
          (\<forall>b. ui_base o' = Some b \<longrightarrow> so_Size b = 0)
      | UOrder_Wait \<Rightarrow> st = (ui_nonce o', None) \<and> ui_seq o' = None \<and> ui_seqState o' = USeq_Init \<and> \<not> ui_inflight o' \<and>
          ui_seqNum o' = 0 \<and> (\<exists>b. ui_base o' = Some b \<and> so_Size b = 0 \<and> so_Nonce b = ui_nonce o')
      | _ \<Rightarrow> (\<exists>b k. ui_base o' = Some b \<and> st = (so_Nonce b, Some k) \<and> ui_nonce o' = so_Nonce b + 1 \<and> seq_ok (so_Nonce b) k b o'))"

definition user_ok :: "lib \<Rightarrow> u64 \<Rightarrow> proInst \<Rightarrow> Message list \<Rightarrow> bool" where
  "user_ok L pro o' ms \<longleftrightarrow> (\<exists>st. followed L pro ms = Some st \<and> inst_ok pro st o')"

text \<open>The fields the invariant does not speak of.\<close>

lemma user_ok_cong:
  assumes "ui_pro o2 = ui_pro o'" "ui_inStop o2 = ui_inStop o'" "ui_inflight o2 = ui_inflight o'" "ui_base o2 = ui_base o'"
    "ui_orderState o2 = ui_orderState o'" "ui_nonce o2 = ui_nonce o'" "ui_seq o2 = ui_seq o'" "ui_seqState o2 = ui_seqState o'"
    "ui_seqNum o2 = ui_seqNum o'" "ui_sjq o2 = ui_sjq o'"
  shows "user_ok L pro o2 ms = user_ok L pro o' ms"
  unfolding user_ok_def inst_ok_def seq_ok_def emptySeq_def unsignedSeq_def finishedSeq_def assms ..

lemma user_ok_updates [simp]:
  "user_ok L pro (o'\<lparr>ui_orderTime := t\<rparr>) ms = user_ok L pro o' ms"
  "user_ok L pro (o'\<lparr>ui_seqTime := t\<rparr>) ms = user_ok L pro o' ms"
  "user_ok L pro (o'\<lparr>ui_availTime := t\<rparr>) ms = user_ok L pro o' ms"
  "user_ok L pro (o'\<lparr>ui_updateTime := t\<rparr>) ms = user_ok L pro o' ms"
  "user_ok L pro (o'\<lparr>ui_failCnt := i\<rparr>) ms = user_ok L pro o' ms"
  "user_ok L pro (o'\<lparr>ui_failSent := i\<rparr>) ms = user_ok L pro o' ms"
  "user_ok L pro (o'\<lparr>ui_ready := b\<rparr>) ms = user_ok L pro o' ms"
  "user_ok L pro (o'\<lparr>ui_turn := k\<rparr>) ms = user_ok L pro o' ms"
  "user_ok L pro (o'\<lparr>ui_jobs := js, ui_jobCnt := i\<rparr>) ms = user_ok L pro o' ms"
  "user_ok L pro (o'\<lparr>ui_jobs := js, ui_jobCnt := i, ui_buckets := bs\<rparr>) ms = user_ok L pro o' ms"
  "user_ok L pro (o'\<lparr>ui_location := l\<rparr>) ms = user_ok L pro o' ms"
  by (rule user_ok_cong; simp)+

text \<open>The store and the encoders do not fail, what is encoded is decoded, and sorting sorts.\<close>

definition io_ok :: "lib \<Rightarrow> uenv \<Rightarrow> bool" where
  "io_ok L U \<longleftrightarrow> (\<forall>k v. \<not> lb_putFail L k v) \<and>
     (\<forall>x. marshal (lb_cSignedOrder L) x \<noteq> None) \<and> (\<forall>x. marshal (lb_cSignedOrderSeq L) x \<noteq> None) \<and>
     (\<forall>x. marshal (lb_cOrderCommitParas L) x \<noteq> None) \<and> (\<forall>x. marshal (ue_cNonceState U) x \<noteq> None) \<and>
     (\<forall>x. marshal (ue_cSeqState U) x \<noteq> None) \<and> (\<forall>x. marshal (ue_cSegJobs U) x \<noteq> None) \<and>
     codec_law (lb_cSignedOrder L) \<and> codec_law (lb_cSignedOrderSeq L) \<and> codec_law (lb_cOrderCommitParas L) \<and>
     go_sort SegJob_Less (ue_sortSegJobs U)"

section \<open>Following the handlers\<close>

text \<open>The instance, the messages and the length of an order, of one state.\<close>

definition at :: "proInst \<Rightarrow> Message list \<Rightarrow> i64 \<Rightarrow> proInst \<times> UserNode \<Rightarrow> bool" where
  "at o' ms lst s \<longleftrightarrow> fst s = o' \<and> un_msgs (snd s) = ms \<and> un_orderLast (snd s) = lst"

named_theorems at_rules \<open>symbolic execution of a handler\<close>

lemma at_fst [at_rules]: "triple (at o' ms c) (f o') Q R \<Longrightarrow> triple (at o' ms c) (bnd (gets fst) f) Q R"
  by (auto simp: triple_def at_def)

lemma at_id [at_rules]:
  "(\<And>n. un_msgs n = ms \<Longrightarrow> un_orderLast n = c \<Longrightarrow> triple (at o' ms c) (f (o', n)) Q R) \<Longrightarrow> triple (at o' ms c) (bnd (gets id) f) Q R"
  by (auto simp: triple_def at_def)

lemma at_node [at_rules]: "(\<And>v. triple (at o' ms c) (f v) Q R) \<Longrightarrow> triple (at o' ms c) (bnd (gets (\<lambda>(_, n). g n)) f) Q R"
  by (auto simp: triple_def at_def)

lemma at_upd [at_rules]: "triple (at (g o') ms c) m Q R \<Longrightarrow> triple (at o' ms c) (seq (updInst g) m) Q R"
  by (auto simp: triple_def at_def updInst_def)

lemma at_upd_last [at_rules]: "(\<And>s. at (g o') ms c s \<Longrightarrow> Q () s) \<Longrightarrow> triple (at o' ms c) (updInst g) Q R"
  by (auto simp: triple_def at_def updInst_def)

lemma at_now_step: "triple (at o' ms c) (on_un userNow) (\<lambda>_. at o' ms c) R"
  by (auto simp: triple_def at_def userNow_def zoom_def)

lemma at_now [at_rules]: "(\<And>v. triple (at o' ms c) (f v) Q R) \<Longrightarrow> triple (at o' ms c) (bnd (on_un userNow) f) Q R"
  by (rule triple_bnd [OF at_now_step])

lemma at_role_step: "triple (at o' ms c) (on_un (un_role m)) (\<lambda>_. at o' ms c) (at o' ms c)"
  by (auto simp: triple_def at_def zoom_def split: prod.splits sum.splits)

lemma at_role [at_rules]:
  "(\<And>v. triple (at o' ms c) (f v) Q R) \<Longrightarrow> (\<And>s. at o' ms c s \<Longrightarrow> R s) \<Longrightarrow> triple (at o' ms c) (bnd (on_un (un_role m)) f) Q R"
  by (rule triple_bnd [OF triple_err [OF at_role_step]])

lemma at_push [at_rules]:
  "triple (at o' (ms @ [\<lparr>msg_Version = 0, msg_From = from, msg_To = to, msg_Nonce = 0, msg_Value = None, msg_GasLimit = 0,
       msg_GasPrice = None, msg_Method = meth, msg_Params = data\<rparr>]) c) m Q R \<Longrightarrow>
   triple (at o' ms c) (seq (on_un (pushOut from to meth data)) m) Q R"
  by (auto simp: triple_def at_def pushOut_def zoom_def seq_def bnd_def)

lemma at_node_upd [at_rules]:
  "(\<And>n. un_msgs (g n) = un_msgs n) \<Longrightarrow> (\<And>n. un_orderLast (g n) = un_orderLast n) \<Longrightarrow> triple (at o' ms c) m Q R \<Longrightarrow>
   triple (at o' ms c) (seq (on_un (modify g)) m) Q R"
  by (auto simp: triple_def at_def zoom_def seq_def bnd_def)

lemma at_spawn [at_rules]: "(\<And>s. at o' ms c s \<Longrightarrow> Q () s) \<Longrightarrow> triple (at o' ms c) (spawn x) Q R"
  by (auto simp: triple_def at_def spawn_def zoom_def)

text \<open>A save that cannot fail.\<close>

abbreviation sure :: "('s \<Rightarrow> bool) \<Rightarrow> ('s, unit) go \<Rightarrow> bool" where
  "sure P m \<equiv> triple P m (\<lambda>_. P) (\<lambda>_. False)"

lemma sure_dropErr: "sure P m \<Longrightarrow> sure P (dropErr m)"
  by (fastforce simp: triple_def dropErr_def split: prod.splits sum.splits)

lemma after: "sure P m \<Longrightarrow> triple P n Q R \<Longrightarrow> triple P (seq m n) Q R"
  by (rule triple_seq [OF triple_err [where R' = "\<lambda>_. False"]]) simp_all

lemma after_drop: "sure P m \<Longrightarrow> triple P n Q R \<Longrightarrow> triple P (seq (dropErr m) n) Q R"
  by (rule after [OF sure_dropErr])

lemma sure_put: "\<forall>k v. \<not> lb_putFail L k v \<Longrightarrow> sure (at o' ms c) (on_un (un_put L k v))"
  by (auto simp: triple_def at_def un_put_def zoom_def)

lemma at_Serialize: "marshal cd x \<noteq> None \<Longrightarrow> (\<And>b. marshal cd x = Some b \<Longrightarrow> triple P (f b) Q R) \<Longrightarrow> triple P (bnd (Serialize cd x) f) Q R"
  by (cases "marshal cd x") (simp_all add: triple_def Serialize_def)

lemma sure_saves:
  assumes "io_ok L U" and "ui_base o' \<noteq> None"
  shows "sure (at o' ms c) (userSaveOrderBase L)" and "sure (at o' ms c) (userSaveOrderState L U)"
  using assms unfolding userSaveOrderBase_def userSaveOrderState_def
  by (auto simp: io_ok_def deref_def bnd_ret intro!: at_fst at_Serialize sure_put after_drop)

lemma sure_seq_saves:
  assumes "io_ok L U" and "ui_base o' \<noteq> None" and "ui_seq o' \<noteq> None"
  shows "sure (at o' ms c) (userSaveOrderSeq L)" and "sure (at o' ms c) (userSaveSeqState L U)"
    and "sure (at o' ms c) (userSaveSeqJob L U)"
  using assms unfolding userSaveOrderSeq_def userSaveSeqState_def userSaveSeqJob_def
  by (auto simp: io_ok_def deref_def bnd_ret intro!: at_fst at_Serialize sure_put after_drop)

section \<open>Every handler keeps the invariant\<close>

definition good :: "(proInst \<Rightarrow> Message list \<Rightarrow> bool) \<Rightarrow> proInst \<times> UserNode \<Rightarrow> bool" where
  "good G s \<longleftrightarrow> G (fst s) (un_msgs (snd s))"

abbreviation holds :: "(proInst \<Rightarrow> Message list \<Rightarrow> bool) \<Rightarrow> proInst \<Rightarrow> Message list \<Rightarrow> i64 \<Rightarrow> unit ugo \<Rightarrow> bool" where
  "holds G o' ms c m \<equiv> triple (at o' ms c) m (\<lambda>_. good G) (good G)"

text \<open>Data was put into the open sequence and is not in the order yet.\<close>

definition midway :: "proInst \<Rightarrow> bool" where
  "midway o' \<longleftrightarrow> \<not> ui_inflight o' \<and> ui_seqState o' \<in> {USeq_Send, USeq_Commit} \<and>
     (case (ui_base o', ui_seq o') of (Some b, Some s) \<Rightarrow> so_Size b \<noteq> 0 \<and> os_Size (sos_OrderSeq s) \<noteq> so_Size b | _ \<Rightarrow> False)"

definition calm :: "lib \<Rightarrow> u64 \<Rightarrow> proInst \<Rightarrow> Message list \<Rightarrow> bool" where
  "calm L pro o' ms \<longleftrightarrow> user_ok L pro o' ms \<and> \<not> midway o'"

lemma at_good: "G o' ms \<Longrightarrow> at o' ms c s \<Longrightarrow> good G s"
  by (simp add: at_def good_def)

lemma holds_ret [at_rules]: "G o' ms \<Longrightarrow> holds G o' ms c (ret ())"
  by (rule triple_ret) (rule at_good)

lemma holds_fail [at_rules]: "G o' ms \<Longrightarrow> holds G o' ms c (fail e)"
  by (rule triple_fail) (rule at_good)

lemma holds_check [at_rules]:
  "(b \<Longrightarrow> G o' ms) \<Longrightarrow> (\<not> b \<Longrightarrow> holds G o' ms c m) \<Longrightarrow> holds G o' ms c (seq (reject b e) m)"
  by (rule triple_check) (auto simp: at_def good_def)

lemma holds_deref [at_rules]:
  "G o' ms \<Longrightarrow> (\<And>x. p = Some x \<Longrightarrow> holds G o' ms c (f x)) \<Longrightarrow> holds G o' ms c (bnd (deref w p) f)"
  by (rule triple_deref) (auto simp: at_def good_def)

lemma holds_orErr [at_rules]:
  "G o' ms \<Longrightarrow> (\<And>x. p = Some x \<Longrightarrow> holds G o' ms c (f x)) \<Longrightarrow> holds G o' ms c (bnd (orErr w p) f)"
  by (rule triple_orErr) (auto simp: at_def good_def)

lemma holds_role:
  "G o' ms \<Longrightarrow> (\<And>v. holds G o' ms c (f v)) \<Longrightarrow> holds G o' ms c (bnd (on_un (un_role m)) f)"
  by (rule at_role) (auto simp: at_def good_def)

lemma holds_hash:
  "G o' ms \<Longrightarrow> (\<And>h. holds G o' ms c (f h)) \<Longrightarrow> holds G o' ms c (bnd (SignedOrder_Hash k B b) f)"
  by (cases "so_Price b") (auto simp: SignedOrder_Hash_def deref_def bnd_ret at_def good_def triple_def good_def)

lemma holds_dropErr: "holds G o' ms c m \<Longrightarrow> holds G o' ms c (dropErr m)"
  by (rule triple_dropErr)

lemma holds_upd: "G (g o') ms \<Longrightarrow> holds G o' ms c (updInst g)"
  by (rule at_upd_last) (rule at_good)

lemma holds_spawn: "G o' ms \<Longrightarrow> holds G o' ms c (spawn x)"
  by (rule at_spawn) (rule at_good)

text \<open>A good state, in any view of it.\<close>

lemma from_good: "(\<And>o' ms c. G o' ms \<Longrightarrow> holds G o' ms c m) \<Longrightarrow> triple (good G) m (\<lambda>_. good G) (good G)"
  by (rule triple_each, rule triple_pre [where P' = "at (fst s) (un_msgs (snd s)) (un_orderLast (snd s))" for s]) (auto simp: at_def good_def)

lemma holds_seq: "holds G o' ms c m \<Longrightarrow> (\<And>o2 ms2 c2. G o2 ms2 \<Longrightarrow> holds G o2 ms2 c2 n) \<Longrightarrow> holds G o' ms c (seq m n)"
  by (rule triple_seq [OF _ from_good])

subsection \<open>Closing\<close>

lemma at_reset:
  assumes "io_ok L U" and "ui_base o' = Some b" and "ui_seq o' = Some sq"
  shows "triple (at o' ms c) (resetOrder L U)
    (\<lambda>_ s. \<exists>t2 t3. at (o'\<lparr>ui_orderState := UOrder_Init, ui_orderTime := t2, ui_seqState := USeq_Init, ui_seqTime := t3,
       ui_base := None, ui_seq := None, ui_sjq := [], ui_seqNum := 0\<rparr>) ms c s) (\<lambda>_. False)"
  unfolding resetOrder_def
  by (intro at_now at_upd after_drop sure_saves sure_seq_saves at_upd_last assms(1)) (use assms(2,3) in auto)

lemma followed_push:
  assumes "followed L pro ms = Some st" and "msg_To m = pro"
  shows "followed L pro (ms @ [m]) = evStep st (orderEvent L m)"
  using assms by (simp add: followed_snoc)

lemma methods_differ: "PreDataOrder \<noteq> AddDataOrder" "PreDataOrder \<noteq> CommitDataOrder" "AddDataOrder \<noteq> CommitDataOrder"
  by (simp_all add: method_defs)

lemma commitNum_ok:
  assumes "inst_ok pro st o'" and "ui_base o' = Some b" and "ui_orderState o' = UOrder_Closing" and "ui_seqState o' = USeq_Init"
    and "ui_seq o' = Some sq"
  shows "st = (so_Nonce b, Some (commitNum o' b sq))"
  using assms by (auto simp: inst_ok_def seq_ok_def commitNum_def finishedSeq_def emptySeq_def unsignedSeq_def)

lemma userDoneOrder_holds:
  assumes io: "io_ok L U" and ok: "calm L pro o' ms"
  shows "holds (calm L pro) o' ms c (userDoneOrder L U)"
proof -
  have main: "holds (calm L pro) o' ms c (bnd (Serialize (lb_cOrderCommitParas L) p) (\<lambda>data.
     seq (on_un (pushOut u (ob_ProID (so_OrderBase b)) CommitDataOrder data))
    (seq (resetOrder L U) (if j then spawn x else ret ()))))"
    if o': "ui_base o' = Some b" "ui_orderState o' = UOrder_Closing" "ui_seqState o' = USeq_Init" "ui_seq o' = Some sq"
      and p: "ocp_Nonce p = so_Nonce b" "ocp_SeqNum p = commitNum o' b sq" for b sq p u j x
  proof -
    from ok obtain st where st: "followed L pro ms = Some st" "inst_ok pro st o'"
      by (auto simp: calm_def user_ok_def)
    from st(2) o' have to: "ob_ProID (so_OrderBase b) = pro" and nonce: "ui_nonce o' = so_Nonce b + 1" and sub: "st = (so_Nonce b, Some (commitNum o' b sq))"
      and noflight: "\<not> ui_inflight o'"
      using commitNum_ok [OF st(2) o'] by (auto simp: inst_ok_def seq_ok_def)
    have fin: "calm L pro (o'\<lparr>ui_orderState := UOrder_Init, ui_orderTime := t2, ui_seqState := USeq_Init, ui_seqTime := t3,
         ui_base := None, ui_seq := None, ui_sjq := [], ui_seqNum := 0\<rparr>) (ms @ [m])"
      if "msg_To m = pro" "msg_Method m = CommitDataOrder" "decode (lb_cOrderCommitParas L) zero_OrderCommitParas (msg_Params m) = Some p" for t2 t3 m
    proof -
      have "followed L pro (ms @ [m]) = Some (ui_nonce o', None)"
        using followed_push [OF st(1) that(1)] that p methods_differ by (simp add: orderEvent_def sub nonce)
      moreover have "inst_ok pro (ui_nonce o', None) (o'\<lparr>ui_orderState := UOrder_Init, ui_orderTime := t2, ui_seqState := USeq_Init, ui_seqTime := t3,
         ui_base := None, ui_seq := None, ui_sjq := [], ui_seqNum := 0\<rparr>)"
        using st(2) noflight by (simp add: inst_ok_def)
      ultimately show ?thesis
        by (auto simp: user_ok_def calm_def midway_def)
    qed
    have dec: "decode (lb_cOrderCommitParas L) zero_OrderCommitParas data = Some p" if "marshal (lb_cOrderCommitParas L) p = Some data" for data
      using that io by (auto simp: io_ok_def intro: decode_law)
    have reset: "triple (at o' (ms @ [m]) c) (resetOrder L U) (\<lambda>_. good (calm L pro)) (good (calm L pro))"
      if "msg_To m = pro" "msg_Method m = CommitDataOrder" "decode (lb_cOrderCommitParas L) zero_OrderCommitParas (msg_Params m) = Some p" for m
      using fin [OF that] by (auto intro: triple_post [OF triple_err [OF at_reset [OF io o'(1,4)]]] simp: at_def good_def)
    show ?thesis
      by (rule at_Serialize, use io in \<open>simp add: io_ok_def\<close>, rule at_push, rule holds_seq [OF reset])
        (auto simp: to dec intro: holds_spawn holds_ret)
  qed
  show ?thesis
    unfolding userDoneOrder_def using ok
    by (intro at_rules main) auto
qed

subsection \<open>Stopping\<close>

definition stopping :: "lib \<Rightarrow> u64 \<Rightarrow> Message list \<Rightarrow> proInst \<Rightarrow> bool" where
  "stopping L pro ms o' \<longleftrightarrow> user_ok L pro o' ms \<and> \<not> midway o' \<and> \<not> ui_inflight o' \<and> ui_inStop o' \<and> ui_sjq o' = [] \<and> ui_base o' \<noteq> None"

lemma triple_some: "(\<And>x. S x \<Longrightarrow> triple (P x) m Q R) \<Longrightarrow> triple (\<lambda>s. \<exists>x. S x \<and> P x s) m Q R"
  by (rule triple_each) (auto intro: triple_pre)

lemma inst_ok_stop:
  assumes "inst_ok pro st o'" and "\<not> ui_inflight o'"
  shows "inst_ok pro st (clearJobs (o'\<lparr>ui_inStop := True, ui_sjq := []\<rparr>))"
  using assms by (auto simp: inst_ok_def clearJobs_def seq_ok_def emptySeq_def unsignedSeq_def finishedSeq_def
      split: userOrderState.splits userSeqState.splits option.splits)

lemma clearJobs_simps [simp]:
  "ui_base (clearJobs o') = ui_base o'" "ui_seq (clearJobs o') = ui_seq o'" "ui_seqState (clearJobs o') = ui_seqState o'"
  "ui_inflight (clearJobs o') = ui_inflight o'" "ui_inStop (clearJobs o') = ui_inStop o'" "ui_sjq (clearJobs o') = ui_sjq o'"
  by (simp_all add: clearJobs_def)

lemma stopping_start:
  assumes "user_ok L pro o' ms" and "\<not> midway o'" and "\<not> ui_inflight o'" and "ui_base o' \<noteq> None"
  shows "stopping L pro ms (clearJobs (o'\<lparr>ui_inStop := True, ui_sjq := []\<rparr>))"
  using assms inst_ok_stop by (auto simp: stopping_def user_ok_def midway_def)

lemma takeBack_stopping:
  assumes "stopping L pro ms o'"
  shows "triple (at o' ms c) (takeBack n) (\<lambda>_ s. \<exists>o2. stopping L pro ms o2 \<and> at o2 ms c s) (good (calm L pro))"
proof -
  have ok: "calm L pro o' ms"
    using assms by (simp add: stopping_def calm_def)
  have less: "stopping L pro ms (o'\<lparr>ui_seq := Some (sq\<lparr>sos_OrderSeq := (sos_OrderSeq sq)\<lparr>os_Price := p, os_Size := sz\<rparr>\<rparr>),
      ui_base := Some (b\<lparr>so_Size := sz, so_Price := p\<rparr>)\<rparr>)"
    if o': "ui_seqState o' = USeq_Commit" "ui_base o' = Some b" "ui_seq o' = Some sq" for b sq p sz
    using assms o' by (auto simp: stopping_def midway_def user_ok_def inst_ok_def seq_ok_def unsignedSeq_def split: userOrderState.splits)
  have "\<exists>o2. stopping L pro ms o2 \<and> at o2 ms c s" if "at o' ms c s" for s
    using assms that by blast
  then show ?thesis
    unfolding takeBack_def Let_def using less
    by (intro at_fst triple_if triple_deref at_upd_last triple_ret at_good [where G = "calm L pro", OF ok]) blast+
qed

lemma inst_ok_closing:
  assumes "stopping L pro ms o'" and "inst_ok pro st o'" and "ui_base o' = Some b" and "so_Size b \<noteq> 0" and "ui_seq o' = Some s"
  shows "inst_ok pro st (o'\<lparr>ui_orderState := UOrder_Closing, ui_seqState := USeq_Init\<rparr>)"
proof -
  have stp: "\<not> midway o'" "\<not> ui_inflight o'" "ui_sjq o' = []"
    using assms(1) by (simp_all add: stopping_def)
  from assms(2-5) obtain k where st: "st = (so_Nonce b, Some k)" "ui_nonce o' = so_Nonce b + 1" and sq: "seq_ok (so_Nonce b) k b o'"
    by (cases "ui_orderState o'") (auto simp: inst_ok_def)
  have "os_Size (sos_OrderSeq s) = so_Size b \<and> (finishedSeq (so_Nonce b) k o' s \<or> emptySeq (so_Nonce b) k b o' s)"
    using sq stp assms(3-5) by (cases "ui_seqState o'") (auto simp: seq_ok_def midway_def emptySeq_def)
  with st stp assms(2,3,5) show ?thesis
    by (auto simp: inst_ok_def seq_ok_def finishedSeq_def emptySeq_def unsignedSeq_def)
qed

lemma inst_ok_resend:
  assumes "inst_ok pro st o'" and "ui_inStop o'" and "ui_base o' = Some b" and "so_Size b = 0" and "ui_seq o' = Some s"
    and "os_Size (sos_OrderSeq s) = 0" and "ui_seqState o' \<in> {USeq_Send, USeq_Commit}"
  shows "inst_ok pro st (o'\<lparr>ui_seq := Some (s\<lparr>sos_OrderSeq := (sos_OrderSeq s)\<lparr>os_Segments := []\<rparr>\<rparr>), ui_seqState := USeq_Send\<rparr>)"
  using assms by (auto simp: inst_ok_def seq_ok_def unsignedSeq_def split: userOrderState.splits)

lemma after_resend:
  assumes "io_ok L U" and "ui_base o' \<noteq> None" and "\<And>s. at (o'\<lparr>ui_seq := Some sq, ui_seqState := USeq_Send\<rparr>) ms c s \<Longrightarrow> P s"
  shows "triple (at (o'\<lparr>ui_seq := Some sq, ui_seqState := USeq_Send\<rparr>) ms c) (dropErr (userSaveOrderSeq L)) (\<lambda>_. P) P"
  using assms by (intro triple_post [OF triple_err [OF sure_dropErr [OF sure_seq_saves(1) [OF assms(1)]]]]) auto

lemma cleanState_holds:
  assumes io: "io_ok L U" and stp: "stopping L pro ms o'"
  shows "holds (calm L pro) o' ms c (cleanState L U)"
proof -
  have ok: "calm L pro o' ms"
    using stp by (simp add: stopping_def calm_def)
  have resend: "calm L pro (o'\<lparr>ui_seq := Some (sq\<lparr>sos_OrderSeq := (sos_OrderSeq sq)\<lparr>os_Segments := []\<rparr>\<rparr>), ui_seqState := USeq_Send\<rparr>) ms"
    if "ui_base o' = Some b" "so_Size b = 0" "ui_seq o' = Some sq" "os_Size (sos_OrderSeq sq) = 0 \<and> (ui_seqState o' = USeq_Send \<or> ui_seqState o' = USeq_Commit)"
    for b sq
    using that stp inst_ok_resend [of pro _ o' b sq] by (auto simp: stopping_def user_ok_def calm_def midway_def)
  show ?thesis
    unfolding cleanState_def
    by (intro at_fst triple_if holds_deref holds_orErr at_upd after_resend [OF io] at_good [where G = "calm L pro", OF resend] userDoneOrder_holds io holds_ret ok)
      (use stp inst_ok_closing [OF stp] in \<open>auto simp: user_ok_def stopping_def calm_def midway_def\<close>)
qed

lemma after_stopSave:
  assumes "io_ok L U" and "triple (at (o'\<lparr>ui_inStop := True, ui_sjq := []\<rparr>) ms c) m Q R"
  shows "triple (at (o'\<lparr>ui_inStop := True, ui_sjq := []\<rparr>) ms c)
    (seq (if ui_base o' \<noteq> None \<and> ui_seq o' \<noteq> None then dropErr (userSaveSeqJob L U) else ret ()) m) Q R"
  using assms sure_seq_saves(3) [OF assms(1), of "o'\<lparr>ui_inStop := True, ui_sjq := []\<rparr>" ms c]
  by (auto intro: after_drop after triple_ret)

lemma userStopOrder_calm:
  assumes io: "io_ok L U" and ok: "calm L pro o' ms"
  shows "holds (calm L pro) o' ms c (userStopOrder L U)"
proof -
  have empty: "calm L pro (clearJobs (o'\<lparr>ui_inStop := True, ui_sjq := []\<rparr>)) ms" if "\<not> ui_inflight o'"
    using ok that inst_ok_stop by (auto simp: user_ok_def calm_def midway_def)
  show ?thesis
    unfolding userStopOrder_def
    by (intro at_fst holds_check at_upd after_stopSave io at_node_upd triple_seq [OF takeBack_stopping] triple_some cleanState_holds stopping_start)
      (use ok empty in \<open>auto simp: calm_def\<close>)
qed

lemma holds_mono: "(\<And>o2 ms2. G o2 ms2 \<Longrightarrow> H o2 ms2) \<Longrightarrow> holds G o' ms c m \<Longrightarrow> holds H o' ms c m"
  by (rule triple_post [where Q' = "\<lambda>_. good G", OF triple_err [where R' = "good G"]]) (simp_all add: good_def)

lemma calm_good: "holds (calm L pro) o' ms c m \<Longrightarrow> holds (user_ok L pro) o' ms c m"
  by (rule holds_mono [where G = "calm L pro"]) (simp_all add: calm_def)

lemma userStopOrder_holds: "io_ok L U \<Longrightarrow> user_ok L pro o' ms \<Longrightarrow> \<not> midway o' \<Longrightarrow> holds (user_ok L pro) o' ms c (userStopOrder L U)"
  by (rule calm_good [OF userStopOrder_calm]) (auto simp: calm_def)

text \<open>An order without data is stopped and stays open.\<close>

definition idle :: "proInst \<Rightarrow> bool" where
  "idle o' \<longleftrightarrow> ui_orderState o' = UOrder_Running \<and> (\<exists>b. ui_base o' = Some b \<and> so_Size b = 0) \<and>
     (\<forall>s. ui_seq o' = Some s \<longrightarrow> os_Size (sos_OrderSeq s) = 0)"

lemma idle_midway: "idle o' \<Longrightarrow> \<not> midway o'"
  by (auto simp: idle_def midway_def split: option.splits)

lemma takeBack_idle:
  assumes "stopping L pro ms o'" and "idle o'"
  shows "triple (at o' ms c) (takeBack n) (\<lambda>_ s. \<exists>o2. (stopping L pro ms o2 \<and> idle o2) \<and> at o2 ms c s) (\<lambda>s. \<exists>o2. (user_ok L pro o2 ms \<and> idle o2) \<and> at o2 ms c s)"
proof -
  have post: "triple (at o' ms c) (takeBack n) (\<lambda>_ s. idle (fst s)) (at o' ms c)"
    unfolding takeBack_def Let_def
    by (intro at_fst triple_if triple_deref at_upd_last triple_ret) (use assms(2) in \<open>auto simp: idle_def at_def\<close>)
  show ?thesis
  proof (rule tripleI)
    fix s x t assume run: "at o' ms c s" "takeBack n s = (Inr x, t)"
    from triple_Inr [OF takeBack_stopping [OF assms(1)] run] triple_Inr [OF post run]
    show "\<exists>o2. (stopping L pro ms o2 \<and> idle o2) \<and> at o2 ms c t"
      by (auto simp: at_def good_def)
  next
    fix s e t assume run: "at o' ms c s" "takeBack n s = (Inl e, t)"
    from triple_Inl [OF post run] assms show "\<exists>o2. (user_ok L pro o2 ms \<and> idle o2) \<and> at o2 ms c t"
      by (auto simp: stopping_def)
  qed
qed

text \<open>\<open>idleAt\<close> is a good state without data whose messages did not change.\<close>

definition idleAt :: "lib \<Rightarrow> u64 \<Rightarrow> Message list \<Rightarrow> i64 \<Rightarrow> proInst \<times> UserNode \<Rightarrow> bool" where
  "idleAt L pro ms c s \<longleftrightarrow> (\<exists>o2. (user_ok L pro o2 ms \<and> idle o2) \<and> at o2 ms c s)"

lemma idleAtI: "user_ok L pro o' ms \<Longrightarrow> idle o' \<Longrightarrow> at o' ms c s \<Longrightarrow> idleAt L pro ms c s"
  by (auto simp: idleAt_def)

lemma cleanState_idle:
  assumes io: "io_ok L U" and stp: "stopping L pro ms o'" and id: "idle o'"
  shows "triple (at o' ms c) (cleanState L U) (\<lambda>_. idleAt L pro ms c) (idleAt L pro ms c)"
proof -
  have ok: "user_ok L pro o' ms"
    using stp by (simp add: stopping_def)
  have resend: "user_ok L pro (o'\<lparr>ui_seq := Some (sq\<lparr>sos_OrderSeq := (sos_OrderSeq sq)\<lparr>os_Segments := []\<rparr>\<rparr>), ui_seqState := USeq_Send\<rparr>) ms"
    "idle (o'\<lparr>ui_seq := Some (sq\<lparr>sos_OrderSeq := (sos_OrderSeq sq)\<lparr>os_Segments := []\<rparr>\<rparr>), ui_seqState := USeq_Send\<rparr>)"
    if "ui_base o' = Some b" "so_Size b = 0" "ui_seq o' = Some sq" "os_Size (sos_OrderSeq sq) = 0 \<and> (ui_seqState o' = USeq_Send \<or> ui_seqState o' = USeq_Commit)"
    for b sq
    using that stp id inst_ok_resend [of pro _ o' b sq] by (auto simp: stopping_def user_ok_def idle_def)
  show ?thesis
    unfolding cleanState_def
    by (intro at_fst triple_if triple_deref triple_orErr at_upd after_resend [OF io] idleAtI [OF resend] idleAtI [OF ok id] triple_ret)
      (use id in \<open>auto simp: idle_def\<close>)
qed

lemma userStopOrder_idle:
  assumes io: "io_ok L U" and ok: "user_ok L pro o' ms" and id: "idle o'"
  shows "triple (at o' ms c) (userStopOrder L U) (\<lambda>_. idleAt L pro ms c) (idleAt L pro ms c)"
proof -
  have base: "ui_base o' \<noteq> None"
    using id by (auto simp: idle_def)
  have start: "stopping L pro ms (clearJobs (o'\<lparr>ui_inStop := True, ui_sjq := []\<rparr>))" "idle (clearJobs (o'\<lparr>ui_inStop := True, ui_sjq := []\<rparr>))"
    if "\<not> ui_inflight o'"
    using stopping_start [OF ok idle_midway [OF id] that base] id by (auto simp: idle_def clearJobs_def)
  have clean: "triple (\<lambda>s. \<exists>o2. (stopping L pro ms o2 \<and> idle o2) \<and> at o2 ms c s) (cleanState L U) (\<lambda>_. idleAt L pro ms c) (idleAt L pro ms c)"
    by (rule triple_some) (auto intro: cleanState_idle io)
  show ?thesis
    unfolding userStopOrder_def
    by (intro at_fst triple_check at_upd after_stopSave io at_node_upd triple_seq [OF takeBack_idle [folded idleAt_def] clean])
      (use base start idleAtI [OF ok id] in auto)
qed

lemma inst_ok_close:
  assumes "inst_ok pro st o'" and "ui_orderState o' = UOrder_Running"
  shows "inst_ok pro st (o'\<lparr>ui_orderState := UOrder_Closing, ui_orderTime := t\<rparr>)"
  using assms by (auto simp: inst_ok_def seq_ok_def emptySeq_def unsignedSeq_def finishedSeq_def split: userSeqState.splits option.splits)

lemma user_ok_close:
  "user_ok L pro o' ms \<Longrightarrow> ui_orderState o' = UOrder_Running \<Longrightarrow> user_ok L pro (o'\<lparr>ui_orderState := UOrder_Closing, ui_orderTime := t\<rparr>) ms"
  using inst_ok_close by (auto simp: user_ok_def)

lemma user_ok_open: "user_ok L pro o' ms \<Longrightarrow> ui_orderState o' \<noteq> UOrder_Init \<Longrightarrow> ui_base o' \<noteq> None"
  by (cases "ui_orderState o'") (auto simp: user_ok_def inst_ok_def)

text \<open>A save as the last step.\<close>

lemma holds_saveState: "io_ok L U \<Longrightarrow> ui_base o' \<noteq> None \<Longrightarrow> user_ok L pro o' ms \<Longrightarrow> holds (user_ok L pro) o' ms c (userSaveOrderState L U)"
  by (rule triple_post [OF triple_err [OF sure_saves(2)]]) (auto simp: at_def good_def)

lemma running_idle:
  assumes "user_ok L pro o' ms" and "ui_orderState o' = UOrder_Running" and "\<not> midway o'" and "\<not> ui_inflight o'"
    and "case ui_seq o' of None \<Rightarrow> True | Some sq \<Rightarrow> os_Size (sos_OrderSeq sq) = 0"
  shows "idle o'"
proof -
  from assms(1,2) obtain b k where b: "ui_base o' = Some b" and sq: "seq_ok (so_Nonce b) k b o'"
    by (auto simp: user_ok_def inst_ok_def)
  have "so_Size b = 0"
    using sq b assms(3-5) by (cases "ui_seqState o'") (auto simp: seq_ok_def emptySeq_def midway_def split: option.splits)
  with assms(2,5) b show ?thesis
    by (auto simp: idle_def)
qed

lemma userStopOrder_inflight: "ui_inflight o' \<Longrightarrow> triple (at o' ms c) (userStopOrder L U) Q (at o' ms c)"
  unfolding userStopOrder_def by (intro at_fst triple_check) auto

lemma userCloseOrder_holds:
  assumes io: "io_ok L U" and ok: "user_ok L pro o' ms" and mid: "\<not> midway o' \<or> (\<forall>s. ui_seq o' = Some s \<longrightarrow> os_Size (sos_OrderSeq s) \<noteq> 0)"
  shows "holds (user_ok L pro) o' ms c (userCloseOrder L U)"
proof -
  have closing: "holds (user_ok L pro) o2 ms2 c2 (bnd (on_un userNow) (\<lambda>now.
       seq (updInst (\<lambda>o'. o'\<lparr>ui_orderState := UOrder_Closing, ui_orderTime := now\<rparr>)) (userSaveOrderState L U)))"
    if "user_ok L pro o2 ms2" "ui_orderState o2 = UOrder_Running" for o2 ms2 c2
    using that user_ok_open by (intro at_now at_upd holds_saveState io user_ok_close) auto
  have stop: "holds (user_ok L pro) o' ms c (seq (dropErr (userStopOrder L U)) (bnd (on_un userNow) (\<lambda>now.
       seq (updInst (\<lambda>o'. o'\<lparr>ui_orderState := UOrder_Closing, ui_orderTime := now\<rparr>)) (userSaveOrderState L U))))"
    if run: "ui_orderState o' = UOrder_Running" and sq: "case ui_seq o' of None \<Rightarrow> True | Some sq \<Rightarrow> os_Size (sos_OrderSeq sq) = 0"
  proof (cases "ui_inflight o'")
    case True
    then have "triple (at o' ms c) (dropErr (userStopOrder L U)) (\<lambda>_. at o' ms c) (at o' ms c)"
      by (intro triple_dropErr userStopOrder_inflight)
    then have "triple (at o' ms c) (dropErr (userStopOrder L U)) (\<lambda>_. at o' ms c) (good (user_ok L pro))"
      by (rule triple_err) (rule at_good [where G = "user_ok L pro", OF ok])
    then show ?thesis
      by (rule triple_seq) (rule closing [OF ok run])
  next
    case False
    have "\<not> midway o'"
      using mid sq by (auto simp: midway_def split: option.splits)
    with False have "idle o'"
      using running_idle [OF ok run] sq by blast
    then have "triple (at o' ms c) (dropErr (userStopOrder L U)) (\<lambda>_. idleAt L pro ms c) (idleAt L pro ms c)"
      by (intro triple_dropErr userStopOrder_idle io ok)
    then have "triple (at o' ms c) (dropErr (userStopOrder L U)) (\<lambda>_. idleAt L pro ms c) (good (user_ok L pro))"
      by (rule triple_err) (auto simp: idleAt_def at_def good_def)
    moreover have "triple (idleAt L pro ms c) (bnd (on_un userNow) (\<lambda>now.
       seq (updInst (\<lambda>o'. o'\<lparr>ui_orderState := UOrder_Closing, ui_orderTime := now\<rparr>)) (userSaveOrderState L U))) (\<lambda>_. good (user_ok L pro)) (good (user_ok L pro))"
      unfolding idleAt_def [abs_def] by (rule triple_some) (auto simp: idle_def intro: closing)
    ultimately show ?thesis
      by (rule triple_seq)
  qed
  show ?thesis
    unfolding userCloseOrder_def Let_def
    by (intro at_fst holds_orErr holds_check triple_if at_now [where f = "\<lambda>nt. bnd (gets _) _"] at_node at_now at_upd holds_saveState io stop closing ok)
      (use ok in auto)
qed

subsection \<open>Opening\<close>

lemma unopened_midway: "user_ok L pro o' ms \<Longrightarrow> ui_orderState o' \<in> {UOrder_Init, UOrder_Wait} \<Longrightarrow> \<not> midway o'"
  by (auto simp: user_ok_def inst_ok_def midway_def)

lemma inst_ok_offer:
  assumes "inst_ok pro st o'" and "ui_orderState o' = UOrder_Init" and "ob_ProID (so_OrderBase b) = pro" and "so_Size b = 0"
  shows "inst_ok pro st (o'\<lparr>ui_base := Some b\<rparr>)"
    and "so_Nonce b = ui_nonce o' \<Longrightarrow> inst_ok pro st (o'\<lparr>ui_base := Some b, ui_orderState := UOrder_Wait, ui_orderTime := t, ui_seqNum := 0, ui_seqState := USeq_Init\<rparr>)"
  using assms by (simp_all add: inst_ok_def)

lemma userNewOrder_holds:
  assumes io: "io_ok L U" and ok: "user_ok L pro o' ms" and init: "ui_orderState o' = UOrder_Init" and quo: "\<And>q. mquo = Some q \<Longrightarrow> qm_ProID q = pro"
  shows "holds (user_ok L pro) o' ms c (userNewOrder L U mquo)"
proof -
  have stop: "holds (user_ok L pro) o' ms c (seq (dropErr (userStopOrder L U)) (fail e))" for e
    using unopened_midway [OF ok] init by (intro holds_seq [OF holds_dropErr [OF userStopOrder_holds]] holds_fail io ok) auto
  have chk: "triple (at o' ms c) (case mquo of None \<Rightarrow> ret () | Some quo \<Rightarrow>
      bnd (deref ''nil SegPrice'' (qm_SegPrice quo)) (\<lambda>sp.
      if sp > p then seq (dropErr (userStopOrder L U)) (fail (Err ''price is too high''))
      else if qm_TokenIndex quo \<noteq> 0 then seq (dropErr (userStopOrder L U)) (fail (Err ''token index is not right''))
      else ret ())) (\<lambda>_. at o' ms c) (good (user_ok L pro))" for p
  proof (cases mquo)
    case (Some q)
    have stop': "triple (at o' ms c) (seq (dropErr (userStopOrder L U)) (fail e)) (\<lambda>_. at o' ms c) (good (user_ok L pro))" for e
      using stop [of e] by (auto simp: triple_def seq_def bnd_def split: prod.splits sum.splits)
    with Some show ?thesis
      by (auto intro!: triple_deref triple_if triple_ret at_good [where G = "user_ok L pro", OF ok])
  qed (auto intro: triple_ret)
  let ?b = "\<lambda>q start n sg. \<lparr>so_OrderBase = \<lparr>ob_UserID = ui_localID o', ob_ProID = qm_ProID q, ob_Nonce = ui_nonce o', ob_Start = start,
        ob_End = orderEnd start (un_orderDur n) (ui_prevEnd o'), ob_TokenIndex = qm_TokenIndex q, ob_SegPrice = qm_SegPrice q, ob_PiecePrice = qm_PiecePrice q\<rparr>,
        so_Size = 0, so_Price = Some 0, so_Usign = sg, so_Psign = zero_Signature\<rparr>"
  have ok1: "user_ok L pro (o'\<lparr>ui_base := Some (?b q start n sg)\<rparr>) ms" if "mquo = Some q" for q start n sg
    using ok init quo [OF that] inst_ok_offer(1) [of pro _ o' "?b q start n sg"] by (auto simp: user_ok_def)
  have ok2: "user_ok L pro (o'\<lparr>ui_base := Some (?b q start n sg), ui_orderState := UOrder_Wait, ui_orderTime := t, ui_seqNum := 0, ui_seqState := USeq_Init\<rparr>) ms"
    if "mquo = Some q" for q start n sg t
    using ok init quo [OF that] inst_ok_offer(2) [of pro _ o' "?b q start n sg"] by (auto simp: user_ok_def)
  show ?thesis
    unfolding userNewOrder_def Let_def
    by (rule at_id, simp only: prod.case, rule triple_seq [OF chk],
        intro at_now holds_deref ok at_upd holds_hash holds_role after [OF sure_saves(1) [OF io]] holds_saveState io)
      (simp_all add: ok1 ok2)
qed

lemma inst_ok_withdraw: "inst_ok pro st o' \<Longrightarrow> ui_orderState o' = UOrder_Wait \<Longrightarrow> inst_ok pro st (o'\<lparr>ui_orderState := UOrder_Init\<rparr>)"
  by (auto simp: inst_ok_def)

lemma offerOrder_holds:
  assumes io: "io_ok L U" and ok: "user_ok L pro o' ms"
  shows "holds (user_ok L pro) o' ms c (offerOrder L U)"
proof -
  have withdraw: "user_ok L pro (o'\<lparr>ui_orderState := UOrder_Init\<rparr>) ms" if "ui_orderState o' = UOrder_Wait"
    using ok that inst_ok_withdraw by (auto simp: user_ok_def)
  have stop: "\<not> midway o'" if "ui_orderState o' = UOrder_Wait"
    using unopened_midway [OF ok] that by simp
  show ?thesis
    unfolding offerOrder_def Let_def
    by (intro at_fst triple_if holds_ret ok holds_deref holds_upd withdraw at_now holds_dropErr userStopOrder_holds io stop at_Serialize holds_spawn)
      (use io in \<open>auto simp: io_ok_def\<close>)
qed

lemma userCreateOrder_holds:
  assumes io: "io_ok L U" and ok: "user_ok L pro o' ms" and quo: "\<And>q. mquo = Some q \<Longrightarrow> qm_ProID q = pro"
  shows "holds (user_ok L pro) o' ms c (userCreateOrder L U mquo)"
proof -
  have new: "holds (user_ok L pro) o' ms c (if ui_orderState o' = UOrder_Init then userNewOrder L U mquo else ret ())"
    by (intro triple_if userNewOrder_holds holds_ret io ok quo)
  show ?thesis
    unfolding userCreateOrder_def by (intro at_fst holds_check ok holds_seq [OF new] offerOrder_holds io)
qed

lemma inst_ok_run:
  assumes "inst_ok pro st o'" and "ui_orderState o' = UOrder_Wait" and "ui_base o' = Some b"
  shows "st = (so_Nonce b, None)"
    and "inst_ok pro (so_Nonce b, Some 0) (o'\<lparr>ui_nonce := ui_nonce o' + 1, ui_prevEnd := e, ui_orderState := UOrder_Running, ui_orderTime := t,
        ui_base := Some (b\<lparr>so_Psign := sg\<rparr>), ui_failCnt := 0\<rparr>)"
  using assms by (auto simp: inst_ok_def seq_ok_def)

lemma userRunOrder_holds:
  assumes io: "io_ok L U" and ok: "user_ok L pro o' ms"
  shows "holds (user_ok L pro) o' ms c (userRunOrder L U ob)"
proof -
  have push: "holds (user_ok L pro) (o'\<lparr>ui_nonce := ui_nonce o' + 1, ui_prevEnd := e, ui_orderState := UOrder_Running, ui_orderTime := t,
        ui_base := Some (b\<lparr>so_Psign := sg\<rparr>)\<rparr>) ms c
    (seq (userSaveOrderBase L)
    (seq (userSaveOrderState L U)
    (bnd (Serialize (lb_cSignedOrder L) (b\<lparr>so_Psign := sg\<rparr>)) (\<lambda>data.
     seq (on_un (pushOut u (ob_ProID (so_OrderBase (b\<lparr>so_Psign := sg\<rparr>))) PreDataOrder data))
         (updInst (\<lambda>o'. o'\<lparr>ui_failCnt := 0\<rparr>))))))"
    if wait: "ui_orderState o' = UOrder_Wait" and b: "ui_base o' = Some b" for b sg e t u
  proof -
    from ok obtain st where st: "followed L pro ms = Some st" "inst_ok pro st o'"
      by (auto simp: user_ok_def)
    from inst_ok_run [OF st(2) wait b] have st_eq: "st = (so_Nonce b, None)" and
      new: "inst_ok pro (so_Nonce b, Some 0) (o'\<lparr>ui_nonce := ui_nonce o' + 1, ui_prevEnd := e, ui_orderState := UOrder_Running, ui_orderTime := t,
        ui_base := Some (b\<lparr>so_Psign := sg\<rparr>), ui_failCnt := 0\<rparr>)" by blast+
    have to: "ob_ProID (so_OrderBase b) = pro"
      using st(2) b by (simp add: inst_ok_def)
    have dec: "decode (lb_cSignedOrder L) zero_SignedOrder data = Some (b\<lparr>so_Psign := sg\<rparr>)" if "marshal (lb_cSignedOrder L) (b\<lparr>so_Psign := sg\<rparr>) = Some data" for data
      using that io by (auto simp: io_ok_def intro: decode_law)
    have pushed: "user_ok L pro (o'\<lparr>ui_nonce := ui_nonce o' + 1, ui_prevEnd := e, ui_orderState := UOrder_Running, ui_orderTime := t,
        ui_base := Some (b\<lparr>so_Psign := sg\<rparr>), ui_failCnt := 0\<rparr>) (ms @ [m])"
      if "msg_To m = pro" "msg_Method m = PreDataOrder" "decode (lb_cSignedOrder L) zero_SignedOrder (msg_Params m) = Some (b\<lparr>so_Psign := sg\<rparr>)" for m
      using followed_push [OF st(1) that(1)] that new by (auto simp: user_ok_def orderEvent_def st_eq)
    show ?thesis
      by (intro after [OF sure_saves(1) [OF io]] after [OF sure_saves(2) [OF io]] at_Serialize at_push holds_upd)
        (use io to dec pushed in \<open>auto simp: io_ok_def\<close>)
  qed
  show ?thesis
    unfolding userRunOrder_def Let_def
    by (intro at_fst holds_check ok holds_deref holds_hash holds_role at_now at_upd push) auto
qed

subsection \<open>Sequences\<close>

lemma mergeSegs_simps [simp]:
  "os_Nonce (sos_OrderSeq (mergeSegs L s)) = os_Nonce (sos_OrderSeq s)" "os_SeqNum (sos_OrderSeq (mergeSegs L s)) = os_SeqNum (sos_OrderSeq s)"
  "os_Size (sos_OrderSeq (mergeSegs L s)) = os_Size (sos_OrderSeq s)" "os_Price (sos_OrderSeq (mergeSegs L s)) = os_Price (sos_OrderSeq s)"
  "sos_ProDataSig (mergeSegs L s) = sos_ProDataSig s" "sos_UserDataSig (mergeSegs L s) = sos_UserDataSig s"
  by (simp_all add: mergeSegs_def)

lemma merge_empty:
  assumes "io_ok L U"
  shows "SegJobs_Merge (ue_sortSegJobs U) [] = []"
proof -
  have "length (ue_sortSegJobs U []) = length ([] :: SegJob list)"
    using assms unfolding io_ok_def go_sort_def by blast
  then show ?thesis
    by (simp add: SegJobs_Merge_def)
qed

lemma inst_ok_announce:
  assumes "inst_ok pro st o'" and "ui_orderState o' = UOrder_Running" and "ui_seqState o' = USeq_Prepare" and "ui_seq o' = Some sq"
  shows "inst_ok pro st (o'\<lparr>ui_seq := Some (mergeSegs L sq), ui_sjq := []\<rparr>)" and "ui_sjq o' = []"
  using assms by (auto simp: inst_ok_def seq_ok_def emptySeq_def unsignedSeq_def)

lemma announceSeq_holds:
  assumes io: "io_ok L U" and ok: "user_ok L pro o' ms" and run: "ui_orderState o' = UOrder_Running"
  shows "holds (user_ok L pro) o' ms c (announceSeq L U)"
proof -
  have base: "ui_base o' \<noteq> None"
    using user_ok_open [OF ok] run by simp
  have main: "user_ok L pro (o'\<lparr>ui_seq := Some (mergeSegs L sq), ui_sjq := SegJobs_Merge (ue_sortSegJobs U) (ui_sjq o')\<rparr>) ms"
    if "ui_seq o' = Some sq" "ui_seqState o' = USeq_Prepare" for sq
    using ok inst_ok_announce [OF _ run that(2,1)] by (auto simp: user_ok_def merge_empty [OF io])
  show ?thesis
  proof (cases "ui_seq o'")
    case None
    then show ?thesis
      unfolding announceSeq_def by (intro at_fst) (simp add: holds_fail [where G = "user_ok L pro", OF ok])
  next
    case (Some sq)
    show ?thesis
      unfolding announceSeq_def
      by (intro at_fst, simp only: Some option.case,
          intro triple_if holds_fail ok at_upd after [OF sure_seq_saves(1) [OF io]] after [OF sure_seq_saves(2) [OF io]]
            after [OF sure_seq_saves(3) [OF io]] at_Serialize holds_spawn)
        (use base io main [OF Some] in \<open>auto simp: io_ok_def\<close>)
  qed
qed

lemma inst_ok_newSeq:
  assumes "inst_ok pro st o'" and "ui_orderState o' = UOrder_Running" and "ui_seqState o' = USeq_Init" and "ui_base o' = Some b"
  shows "inst_ok pro st (o'\<lparr>ui_seq := Some (newSeq o' b p), ui_seqNum := ui_seqNum o' + 1, ui_seqState := USeq_Prepare, ui_seqTime := t, ui_sjq := []\<rparr>)"
  using assms by (auto simp: inst_ok_def seq_ok_def emptySeq_def unsignedSeq_def finishedSeq_def newSeq_def zero_Signature_def split: option.splits)

lemma userCreateSeq_holds:
  assumes io: "io_ok L U" and ok: "user_ok L pro o' ms"
  shows "holds (user_ok L pro) o' ms c (userCreateSeq L U)"
proof -
  have new: "user_ok L pro (o'\<lparr>ui_seq := Some (newSeq o' b p), ui_seqNum := ui_seqNum o' + 1, ui_seqState := USeq_Prepare, ui_seqTime := t, ui_sjq := []\<rparr>) ms"
    if "ui_orderState o' = UOrder_Running" "ui_seqState o' = USeq_Init" "ui_base o' = Some b" for b p t
    using ok inst_ok_newSeq [OF _ that] by (auto simp: user_ok_def)
  show ?thesis
    unfolding userCreateSeq_def
    by (intro at_fst holds_check ok holds_deref triple_if holds_ret at_now at_upd announceSeq_holds io new) auto
qed

lemma inst_ok_send:
  assumes "inst_ok pro st o'" and "ui_orderState o' = UOrder_Running" and "ui_seqState o' = USeq_Prepare"
  shows "inst_ok pro st (o'\<lparr>ui_seqState := USeq_Send, ui_seqTime := t\<rparr>)"
  using assms by (auto simp: inst_ok_def seq_ok_def emptySeq_def unsignedSeq_def)

lemma userSendSeq_holds:
  assumes io: "io_ok L U" and ok: "user_ok L pro o' ms"
  shows "holds (user_ok L pro) o' ms c (userSendSeq L U)"
proof -
  have main: "user_ok L pro (o'\<lparr>ui_seqState := USeq_Send, ui_seqTime := t\<rparr>) ms" if "ui_orderState o' = UOrder_Running" "ui_seqState o' = USeq_Prepare" for t
    using ok inst_ok_send [OF _ that] by (auto simp: user_ok_def)
  show ?thesis
    unfolding userSendSeq_def
    by (intro at_fst holds_check ok triple_if holds_fail at_now at_upd after [OF sure_seq_saves(2) [OF io]] holds_upd) (use main in auto)
qed

lemma inst_ok_commit:
  assumes "inst_ok pro st o'" and "ui_seqState o' = USeq_Send"
  shows "inst_ok pro st (o'\<lparr>ui_seqState := USeq_Commit, ui_seqTime := t\<rparr>)"
  using assms by (auto simp: inst_ok_def seq_ok_def unsignedSeq_def split: userOrderState.splits)

lemma inst_ok_sign:
  assumes "inst_ok pro st o'" and "ui_seqState o' = USeq_Commit" and "ui_base o' = Some b" and "ui_seq o' = Some sq" and "\<not> ui_inflight o'"
  shows "inst_ok pro st (o'\<lparr>ui_seqTime := t, ui_seq := Some (mergeSegs L sq)\<rparr>)"
    and "inst_ok pro st (o'\<lparr>ui_seqTime := t, ui_seq := Some (mergeSegs L sq), ui_base := Some (b\<lparr>so_Size := os_Size (sos_OrderSeq sq), so_Price := p\<rparr>)\<rparr>)"
    and "inst_ok pro st (o'\<lparr>ui_seqTime := t, ui_base := Some (b\<lparr>so_Size := os_Size (sos_OrderSeq sq), so_Price := p\<rparr>),
           ui_seq := Some ((mergeSegs L sq)\<lparr>sos_UserDataSig := ssig, sos_UserSig := osig\<rparr>)\<rparr>)"
  using assms by (auto simp: inst_ok_def seq_ok_def unsignedSeq_def split: userOrderState.splits)

lemma holds_sign: "user_ok L pro o' ms \<Longrightarrow> (\<And>v. holds (user_ok L pro) o' ms c (f v)) \<Longrightarrow> holds (user_ok L pro) o' ms c (bnd (userSignHash L U h) f)"
  unfolding userSignHash_def
  by (rule triple_bnd [OF at_node [OF triple_err [OF at_role_step]]]) (auto simp: at_def good_def)

lemma signSeq_holds:
  assumes io: "io_ok L U" and ok: "user_ok L pro o' ms" and com: "ui_seqState o' = USeq_Commit"
    and b: "ui_base o' = Some b" and sq: "ui_seq o' = Some sq" and fl: "\<not> ui_inflight o'"
  shows "holds (user_ok L pro) o' ms c (signSeq L U b sq)"
proof -
  from ok obtain st where st: "followed L pro ms = Some st" "inst_ok pro st o'"
    by (auto simp: user_ok_def)
  note steps = inst_ok_sign [OF st(2) com b sq fl]
  have ok1: "user_ok L pro (o'\<lparr>ui_seqTime := t, ui_seq := Some (mergeSegs L sq)\<rparr>) ms" for t
    using st(1) steps(1) by (auto simp: user_ok_def)
  have ok2: "user_ok L pro (o'\<lparr>ui_seqTime := t, ui_seq := Some (mergeSegs L sq), ui_base := Some (b\<lparr>so_Size := os_Size (sos_OrderSeq sq), so_Price := p\<rparr>)\<rparr>) ms" for t p
    using st(1) steps(2) by (auto simp: user_ok_def)
  have ok3: "user_ok L pro (o'\<lparr>ui_seqTime := t, ui_base := Some (b\<lparr>so_Size := os_Size (sos_OrderSeq sq), so_Price := p\<rparr>),
           ui_seq := Some ((mergeSegs L sq)\<lparr>sos_UserDataSig := ssig, sos_UserSig := osig\<rparr>)\<rparr>) ms" for t p ssig osig
    using st(1) steps(3) by (auto simp: user_ok_def)
  show ?thesis
    unfolding signSeq_def Let_def
    by (intro at_now at_upd holds_sign holds_deref holds_hash after [OF sure_seq_saves(1) [OF io]] after [OF sure_seq_saves(2) [OF io]]
        at_Serialize at_fst holds_spawn) (use ok1 ok2 ok3 io in \<open>auto simp: io_ok_def\<close>)
qed

lemma userCommitSeq_holds:
  assumes io: "io_ok L U" and ok: "user_ok L pro o' ms"
  shows "holds (user_ok L pro) o' ms c (userCommitSeq L U)"
proof -
  have main: "user_ok L pro (o'\<lparr>ui_seqState := USeq_Commit, ui_seqTime := t\<rparr>) ms" if "ui_seqState o' = USeq_Send" for t
    using ok inst_ok_commit [OF _ that] by (auto simp: user_ok_def)
  show ?thesis
    unfolding userCommitSeq_def
    by (intro at_fst holds_check ok holds_deref holds_orErr triple_if at_now holds_upd main holds_ret holds_fail signSeq_holds io)
qed

text \<open>An empty signature does not verify (a signature of the chain has 65 bytes).\<close>

definition sig_law :: "lib \<Rightarrow> bool" where
  "sig_law L \<longleftrightarrow> (\<forall>pub m. lb_sigVerify L pub m [] \<noteq> Some True)"

lemma RoleVerify_data: "RoleVerify L E i m sig r = (Inr True, t) \<Longrightarrow> sig_law L \<Longrightarrow> sig_Data sig \<noteq> []"
  by (auto simp: RoleVerify_def sig_law_def go_simps)

lemma holds_verify:
  assumes "user_ok L pro o' ms" and "sig_law L" and "sig_Data sig \<noteq> [] \<Longrightarrow> holds (user_ok L pro) o' ms c m"
  shows "holds (user_ok L pro) o' ms c (seq (verifyPro L U h sig w) m)"
proof -
  have step: "triple (at o' ms c) (verifyPro L U h sig w) (\<lambda>_ s. at o' ms c s \<and> sig_Data sig \<noteq> []) (good (user_ok L pro))"
  proof (rule tripleI)
    fix s x t assume "at o' ms c s" "verifyPro L U h sig w s = (Inr x, t)"
    then show "at o' ms c t \<and> sig_Data sig \<noteq> []"
      using assms(2) by (cases s) (auto simp: verifyPro_def go_simps at_def dest: RoleVerify_data)
  next
    fix s e t assume "at o' ms c s" "verifyPro L U h sig w s = (Inl e, t)"
    with assms(1) show "good (user_ok L pro) t"
      by (cases s) (auto simp: verifyPro_def bnd_Inl at_def good_def attempt_def zoom_def reject_def split: prod.splits sum.splits err.splits if_splits)
  qed
  show ?thesis
    by (rule triple_seq [OF step]) (cases "sig_Data sig = []"; simp add: triple_False assms(3))
qed

lemma inst_ok_finish:
  assumes "inst_ok pro st o'" and "ui_seqState o' = USeq_Commit" and "ui_base o' = Some b" and "ui_seq o' = Some sq"
    and "sos_UserDataSig sq \<noteq> zero_Signature" and "sig_Data (sos_ProDataSig sq') \<noteq> []" and "sos_OrderSeq sq' = sos_OrderSeq sq"
  shows "\<exists>k. st = (os_Nonce (sos_OrderSeq sq), Some k) \<and> os_SeqNum (sos_OrderSeq sq) = k \<and>
    inst_ok pro (os_Nonce (sos_OrderSeq sq), Some (k + 1)) (o'\<lparr>ui_seq := Some sq', ui_seqTime := t,
      ui_base := Some (b\<lparr>so_Size := os_Size (sos_OrderSeq sq'), so_Price := p\<rparr>), ui_seqState := USeq_Init, ui_failCnt := i\<rparr>)"
  using assms by (auto simp: inst_ok_def seq_ok_def unsignedSeq_def finishedSeq_def split: userOrderState.splits)

lemma recordFinish_holds:
  assumes io: "io_ok L U" and ok: "user_ok L pro o' ms" and com: "ui_seqState o' = USeq_Commit" and b: "ui_base o' = Some b" and sq: "ui_seq o' = Some sq"
    and signed: "sos_UserDataSig sq \<noteq> zero_Signature" and psig: "sig_Data (sos_ProDataSig sq') \<noteq> []" and same: "sos_OrderSeq sq' = sos_OrderSeq sq"
  shows "holds (user_ok L pro) o' ms c (recordFinish L U b sq')"
proof -
  from ok obtain st where st: "followed L pro ms = Some st" "inst_ok pro st o'"
    by (auto simp: user_ok_def)
  have pro: "ui_pro o' = pro"
    using st(2) by (simp add: inst_ok_def)
  have dec: "decode (lb_cSignedOrderSeq L) zero_SignedOrderSeq data = Some sq'" if "marshal (lb_cSignedOrderSeq L) sq' = Some data" for data
    using that io by (auto simp: io_ok_def intro: decode_law)
  have pushed: "user_ok L pro (o'\<lparr>ui_seq := Some sq', ui_seqTime := t, ui_base := Some (b\<lparr>so_Size := os_Size (sos_OrderSeq sq'), so_Price := p\<rparr>),
      ui_seqState := USeq_Init, ui_failCnt := 0\<rparr>) (ms @ [m])"
    if "msg_To m = pro" "msg_Method m = AddDataOrder" "decode (lb_cSignedOrderSeq L) zero_SignedOrderSeq (msg_Params m) = Some sq'" for m t p
    using followed_push [OF st(1) that(1)] that inst_ok_finish [OF st(2) com b sq signed psig same, where t = t and p = p and i = 0] methods_differ
    by (auto simp: user_ok_def orderEvent_def same)
  have mark: "sure (at o2 ms2 c) (case x of None \<Rightarrow> ret () | Some d \<Rightarrow> dropErr (on_un (un_put L k d)))" for o2 ms2 x k
    using io by (cases x) (auto simp: io_ok_def intro: triple_ret sure_dropErr sure_put)
  show ?thesis
    unfolding recordFinish_def
    by (intro at_now holds_deref ok at_upd after [OF sure_seq_saves(1) [OF io]] after [OF sure_saves(1) [OF io]] after [OF sure_seq_saves(2) [OF io]]
        at_Serialize at_id, simp_all only: prod.case)
      (intro at_push after [OF mark] holds_upd | use io dec pushed pro in \<open>simp add: io_ok_def\<close>)+
qed

lemma userFinishSeq_holds:
  assumes io: "io_ok L U" "sig_law L" and ok: "user_ok L pro o' ms" and signed: "\<And>sq. ui_seq o' = Some sq \<Longrightarrow> sos_UserDataSig sq \<noteq> zero_Signature"
  shows "holds (user_ok L pro) o' ms c (userFinishSeq L U s)"
  unfolding userFinishSeq_def
  by (intro at_fst holds_orErr holds_check holds_hash ok holds_verify io recordFinish_holds) (use signed in auto)

subsection \<open>The ticker\<close>

text \<open>
  When the ticker gives an order up: the provider was not heard of for the length of an order, or
  failed too often.  (The size of an open sequence is zero in the middle of one only after a
  wrap-around.)
\<close>

definition giveUp :: "i64 \<Rightarrow> i64 \<Rightarrow> proInst \<Rightarrow> bool" where
  "giveUp nt lst o' \<longleftrightarrow> \<not> sint (nt - ui_availTime o') < 300 \<and> sint (nt - ui_availTime o') > sint lst \<or>
     ui_failCnt o' > minFailCnt \<or> ui_failSent o' > minFailCnt \<or> (\<exists>s. ui_seq o' = Some s \<and> os_Size (sos_OrderSeq s) = 0)"

lemma checkSeqState_holds:
  assumes io: "io_ok L U" and ok: "user_ok L pro o' ms" and run: "ui_orderState o' = UOrder_Running"
  shows "holds (user_ok L pro) o' ms c (checkSeqState L U nt o' sl)"
proof -
  have "ui_seqState o' \<noteq> USeq_Finish"
    using ok run by (auto simp: user_ok_def inst_ok_def seq_ok_def)
  then show ?thesis
    unfolding checkSeqState_def using ok
    by (cases "ui_seqState o'") (auto intro!: triple_if holds_ret holds_dropErr userCreateSeq_holds userCommitSeq_holds at_upd io)
qed

lemma user_ok_closing:
  assumes "user_ok L pro o' ms" and cl: "ui_orderState o' = UOrder_Closing" and st: "ui_seqState o' \<in> {USeq_Init, USeq_Prepare}"
  shows "calm L pro (o'\<lparr>ui_seqState := USeq_Init\<rparr>) ms"
proof -
  from assms(1) obtain st where fol: "followed L pro ms = Some st" and ok: "inst_ok pro st o'"
    by (auto simp: user_ok_def)
  from ok cl obtain b k where b: "ui_base o' = Some b" "st = (so_Nonce b, Some k)" and sq: "seq_ok (so_Nonce b) k b o'"
    by (auto simp: inst_ok_def)
  have "seq_ok (so_Nonce b) k b (o'\<lparr>ui_seqState := USeq_Init\<rparr>)"
    using sq st cl by (cases "ui_seqState o'") (auto simp: seq_ok_def emptySeq_def unsignedSeq_def finishedSeq_def split: option.splits)
  with ok cl b have "inst_ok pro st (o'\<lparr>ui_seqState := USeq_Init\<rparr>)"
    by (simp add: inst_ok_def)
  with fol show ?thesis
    by (auto simp: calm_def midway_def user_ok_def)
qed

lemma checkClosing_holds:
  assumes io: "io_ok L U" and ok: "user_ok L pro o' ms" and cl: "ui_orderState o' = UOrder_Closing"
  shows "holds (user_ok L pro) o' ms c (checkClosing L U nt o')"
proof -
  have fin: "holds (user_ok L pro) o' ms c (seq (updInst (\<lambda>o'. o'\<lparr>ui_seqState := USeq_Init\<rparr>)) (dropErr (userDoneOrder L U)))"
    if "ui_seqState o' \<in> {USeq_Init, USeq_Prepare}"
    using user_ok_closing [OF ok cl that] by (intro at_upd holds_dropErr calm_good userDoneOrder_holds io)
  have "ui_seqState o' \<noteq> USeq_Finish"
    using ok cl by (auto simp: user_ok_def inst_ok_def seq_ok_def)
  then show ?thesis
    unfolding checkClosing_def using ok
    by (cases "ui_seqState o'") (auto intro!: triple_if holds_ret holds_dropErr userCommitSeq_holds at_upd fin io)
qed

lemma checkState_holds:
  assumes io: "io_ok L U" and ok: "user_ok L pro o' ms" and mid: "\<not> midway o' \<or> (\<forall>s. ui_seq o' = Some s \<longrightarrow> os_Size (sos_OrderSeq s) \<noteq> 0)"
  shows "holds (user_ok L pro) o' ms c (checkState L U nt)"
proof -
  have "ui_orderState o' \<noteq> UOrder_Done"
    using ok by (auto simp: user_ok_def inst_ok_def)
  then show ?thesis
    unfolding checkState_def
    by (intro at_id, cases "ui_orderState o'")
      (use ok mid in \<open>auto intro!: triple_if holds_ret at_now at_upd holds_spawn holds_dropErr userCreateOrder_holds userCloseOrder_holds
        checkSeqState_holds checkClosing_holds io\<close>)
qed

lemma midway_updates [simp]:
  "midway (o'\<lparr>ui_ready := b\<rparr>) = midway o'" "midway (o'\<lparr>ui_updateTime := t\<rparr>) = midway o'" "midway (o'\<lparr>ui_updateTime := t, ui_ready := b\<rparr>) = midway o'"
  by (simp_all add: midway_def)

text \<open>In the middle of a sequence the first part of the ticker does not stop; otherwise it may.\<close>

definition spared :: "lib \<Rightarrow> u64 \<Rightarrow> proInst \<Rightarrow> Message list \<Rightarrow> bool" where
  "spared L pro o' ms \<longleftrightarrow> user_ok L pro o' ms \<and> (midway o' \<longrightarrow> \<not> ui_failCnt o' > minFailCnt \<and> \<not> ui_failSent o' > minFailCnt \<and>
     (\<forall>s. ui_seq o' = Some s \<longrightarrow> os_Size (sos_OrderSeq s) \<noteq> 0))"

lemma spared_calm: "calm L pro o' ms \<Longrightarrow> spared L pro o' ms"
  by (simp add: calm_def spared_def)

lemma spared_updates [simp]:
  "spared L pro (o'\<lparr>ui_ready := b\<rparr>) ms = spared L pro o' ms" "spared L pro (o'\<lparr>ui_updateTime := t\<rparr>) ms = spared L pro o' ms"
  by (simp_all add: spared_def)

lemma checkAvail_spared:
  assumes io: "io_ok L U" and ok: "spared L pro o' ms" and stp: "midway o' \<longrightarrow> \<not> giveUp nt c o'"
  shows "holds (spared L pro) o' ms c (checkAvail L U nt)"
proof -
  have stop: "holds (spared L pro) o2 ms c (dropErr (userStopOrder L U))"
    if "calm L pro o2 ms" for o2
    by (rule holds_mono [OF spared_calm holds_dropErr [OF userStopOrder_calm [OF io that]]])
  have late: "holds (spared L pro) o2 ms c
      (seq (if sint (nt - ui_availTime o') > 3600 then updInst (\<lambda>o'. o'\<lparr>ui_ready := False\<rparr>) else ret ())
           (if sint (nt - ui_availTime o') > sint c then dropErr (userStopOrder L U) else ret ()))"
    if o2: "spared L pro o2 ms" and avail: "\<not> sint (nt - ui_availTime o') < 300" and same: "midway o2 = midway o'" for o2
  proof -
    have "calm L pro o2 ms" if "sint (nt - ui_availTime o') > sint c"
      using o2 that stp avail same by (auto simp: spared_def calm_def giveUp_def)
    moreover from this have "calm L pro (o2\<lparr>ui_ready := False\<rparr>) ms" if "sint (nt - ui_availTime o') > sint c"
      using that by (simp add: calm_def)
    ultimately show ?thesis
      using o2 by (auto intro!: at_upd after [OF triple_ret] stop triple_if holds_ret)
  qed
  have ask: "triple (at o' ms c) (if sint (nt - ui_updateTime o') > 600 then seq (updInst (\<lambda>o'. o'\<lparr>ui_updateTime := nt\<rparr>)) (spawn (CallUpdate (ui_pro o'))) else ret ())
      (\<lambda>_ s. \<exists>o2. (spared L pro o2 ms \<and> midway o2 = midway o') \<and> at o2 ms c s) (good (spared L pro))"
    using ok by (intro triple_if at_upd at_spawn triple_ret) (force intro: exI [of _ "o'\<lparr>ui_updateTime := nt\<rparr>"], blast)
  show ?thesis
    unfolding checkAvail_def
    by (rule at_id, simp only: prod.case, intro triple_if holds_upd triple_seq [OF ask] triple_some late) (use ok in auto)
qed

lemma checkReady_holds: "io_ok L U \<Longrightarrow> spared L pro o' ms \<Longrightarrow> holds (user_ok L pro) o' ms c (checkReady L U nt)"
  unfolding checkReady_def
  by (intro at_fst triple_if holds_dropErr userStopOrder_holds checkState_holds holds_ret) (auto simp: spared_def)

lemma userCheck_holds:
  assumes io: "io_ok L U" and ok: "user_ok L pro o' ms" and stp: "midway o' \<longrightarrow> \<not> giveUp nt c o'"
  shows "triple (\<lambda>s. at o' ms c s \<and> un_clock (snd s) (un_reads (snd s)) = nt) (userCheck L U) (\<lambda>_. good (user_ok L pro)) (good (user_ok L pro))"
proof -
  have sp: "spared L pro o' ms"
    using ok stp by (auto simp: spared_def giveUp_def)
  have now: "triple (\<lambda>s. at o' ms c s \<and> un_clock (snd s) (un_reads (snd s)) = nt) (on_un userNow) (\<lambda>v s. v = nt \<and> at o' ms c s) R" for R
    by (auto simp: triple_def at_def userNow_def zoom_def)
  have avail: "triple (at o' ms c) (checkAvail L U nt) (\<lambda>_. good (spared L pro)) (good (user_ok L pro))"
    by (rule triple_err [OF checkAvail_spared [OF io sp stp]]) (simp add: good_def spared_def)
  have ready: "triple (good (spared L pro)) (checkReady L U nt) (\<lambda>_. good (user_ok L pro)) (good (user_ok L pro))"
    by (rule triple_each, rule triple_pre [OF checkReady_holds [OF io]]) (auto simp: at_def good_def)
  have main: "holds (user_ok L pro) o' ms c (bnd (gets fst) (\<lambda>o'. if ui_inStop o' then ret () else seq (checkAvail L U nt) (checkReady L U nt)))"
    by (intro at_fst triple_if holds_ret ok triple_seq [OF avail ready])
  have "triple (\<lambda>s. v = nt \<and> at o' ms c s) (bnd (gets fst) (\<lambda>o'. if ui_inStop o' then ret () else seq (checkAvail L U v) (checkReady L U v)))
      (\<lambda>_. good (user_ok L pro)) (good (user_ok L pro))" for v
    using main by (cases "v = nt") (simp_all only: simp_thms triple_False)
  then show ?thesis
    unfolding userCheck_def by (rule triple_bnd [OF now])
qed

section \<open>The jobs of an instance\<close>

text \<open>The buckets, their jobs and the count agree, and the chunk in flight is the first job of its bucket.\<close>

definition jobs_ok :: "proInst \<Rightarrow> bool" where
  "jobs_ok o' \<longleftrightarrow> distinct (ui_buckets o') \<and> dom (ui_jobs o') = set (ui_buckets o') \<and>
     ui_jobCnt o' = (\<Sum>b\<leftarrow>ui_buckets o'. int (length (the (ui_jobs o' b)))) \<and> (ui_inflight o' \<longleftrightarrow> ui_sending o' \<noteq> None) \<and>
     (\<forall>b sj. ui_sending o' = Some (b, sj) \<longrightarrow> (\<exists>js. ui_jobs o' b = Some (sj # js)))"

abbreviation jobs_inv :: "proInst \<times> UserNode \<Rightarrow> bool" where
  "jobs_inv s \<equiv> jobs_ok (fst s)"

abbreviation landed_inv :: "proInst \<times> UserNode \<Rightarrow> bool" where
  "landed_inv s \<equiv> jobs_ok (fst s) \<and> \<not> ui_inflight (fst s)"

text \<open>The handlers of the order leave the jobs alone; \<open>same_jobs\<close> collects what they leave.\<close>

definition job_view :: "proInst \<Rightarrow> u64 list \<times> (u64 \<Rightarrow> SegJob list option) \<times> int \<times> bool \<times> (u64 \<times> SegJob) option" where
  "job_view o' = (ui_buckets o', ui_jobs o', ui_jobCnt o', ui_inflight o', ui_sending o')"

lemma jobs_ok_view: "job_view o2 = job_view o' \<Longrightarrow> jobs_ok o2 = jobs_ok o'"
  by (simp add: job_view_def jobs_ok_def)

lemma keeps_updInst: "(\<And>o'. job_view (f o') = job_view o') \<Longrightarrow> keeps (\<lambda>s. job_view (fst s) = v) (updInst f)"
  by (auto simp: keeps_def updInst_def)

lemma keeps_on_un: "keeps (\<lambda>s. job_view (fst s) = v) (on_un m)"
  by (auto simp: keeps_def zoom_def split: prod.splits)

lemma keeps_spawn: "keeps (\<lambda>s. job_view (fst s) = v) (spawn x)"
  unfolding spawn_def by (rule keeps_on_un)

lemmas view_rules = keeps_rules keeps_on_un keeps_spawn

lemma view_saves:
  "keeps (\<lambda>s. job_view (fst s) = v) (userSaveOrderBase L)" "keeps (\<lambda>s. job_view (fst s) = v) (userSaveOrderState L U)"
  "keeps (\<lambda>s. job_view (fst s) = v) (userSaveOrderSeq L)" "keeps (\<lambda>s. job_view (fst s) = v) (userSaveSeqState L U)"
  "keeps (\<lambda>s. job_view (fst s) = v) (userSaveSeqJob L U)"
  unfolding userSaveOrderBase_def userSaveOrderState_def userSaveOrderSeq_def userSaveSeqState_def userSaveSeqJob_def Serialize_def
  by (intro view_rules)+

lemma view_done: "keeps (\<lambda>s. job_view (fst s) = v) (userDoneOrder L U)"
  unfolding userDoneOrder_def resetOrder_def Serialize_def
  by (intro view_rules view_saves keeps_updInst; simp add: job_view_def)

lemma jobs_of_view: "(\<And>v. keeps (\<lambda>s. job_view (fst s) = v) m) \<Longrightarrow> keeps jobs_inv m"
  unfolding keeps_def by (metis jobs_ok_view)

lemma landed_of_view: "(\<And>v. keeps (\<lambda>s. job_view (fst s) = v) m) \<Longrightarrow> keeps landed_inv m"
proof (rule keepsI)
  fix s :: "proInst \<times> UserNode" assume m: "\<And>v. keeps (\<lambda>s. job_view (fst s) = v) m" and s: "landed_inv s"
  have "job_view (fst (snd (m s))) = job_view (fst s)"
    using keepsD [OF m, of s "job_view (fst s)"] by simp
  from jobs_ok_view [OF this] this s show "landed_inv (snd (m s))"
    by (simp add: job_view_def)
qed

lemma jobs_ok_clear: "jobs_ok o' \<Longrightarrow> \<not> ui_inflight o' \<Longrightarrow> jobs_ok (clearJobs o')"
proof -
  assume ok: "jobs_ok o'" and fl: "\<not> ui_inflight o'"
  let ?jobs = "\<lambda>b. if b \<in> set (ui_buckets o') then map_option (\<lambda>_. []) (ui_jobs o' b) else ui_jobs o' b"
  have "?jobs b = Some []" if "b \<in> set (ui_buckets o')" for b
    using that ok by (auto simp: jobs_ok_def)
  then have "(\<Sum>b\<leftarrow>ui_buckets o'. int (length (the (?jobs b)))) = (\<Sum>b\<leftarrow>ui_buckets o'. 0)"
    by (intro arg_cong [where f = sum_list] map_cong) (simp_all only: option.sel list.size of_nat_0)
  with ok fl show "jobs_ok (clearJobs o')"
    by (auto simp: jobs_ok_def clearJobs_def dom_def)
qed

lemma view_takeBack: "keeps (\<lambda>s. job_view (fst s) = v) (takeBack n)"
  unfolding takeBack_def Let_def by (intro view_rules keeps_updInst; simp add: job_view_def)

lemma view_clean: "keeps (\<lambda>s. job_view (fst s) = v) (cleanState L U)"
  unfolding cleanState_def by (intro view_rules view_saves view_done keeps_updInst; simp add: job_view_def)

lemma jobs_stop: "keeps jobs_inv (userStopOrder L U)"
proof (rule keepsI)
  fix s :: "proInst \<times> UserNode" assume ok: "jobs_inv s"
  define rest where "rest = (\<lambda>o'. seq (updInst (\<lambda>o'. o'\<lparr>ui_inStop := True, ui_sjq := []\<rparr>))
    (seq (if ui_base o' \<noteq> None \<and> ui_seq o' \<noteq> None then dropErr (userSaveSeqJob L U) else ret ())
    (seq (updInst clearJobs)
    (seq (on_un (modify (\<lambda>n. n\<lparr>un_redo := un_redo n @ ui_sjq o' @ bucketJobs o'\<rparr>)))
    (seq (reject (ui_base o' = None) ''order is empty'')
    (seq (takeBack (sum_list (map sj_Length (ui_sjq o'))))
         (cleanState L U)))))))"
  have "keeps landed_inv (updInst clearJobs)"
    by (auto simp: keeps_def updInst_def jobs_ok_clear)
  then have "keeps landed_inv (rest o')" for o'
    unfolding rest_def by (intro keeps_seq landed_of_view [OF keeps_updInst [where f = "\<lambda>o'. o'\<lparr>ui_inStop := True, ui_sjq := []\<rparr>"]] landed_of_view [OF view_saves(5)] landed_of_view [OF keeps_on_un]
        landed_of_view [OF view_takeBack] landed_of_view [OF view_clean] keeps_if keeps_dropErr keeps_ret keeps_reject) (simp_all add: job_view_def)
  then have "landed_inv s \<Longrightarrow> jobs_inv (snd (rest (fst s) s))"
    by (auto dest: keepsD)
  with ok show "jobs_inv (snd (userStopOrder L U s))"
    unfolding userStopOrder_def rest_def by (cases "ui_inflight (fst s)") simp_all
qed

lemmas jobs_rules = keeps_rules jobs_stop jobs_of_view [OF keeps_on_un] jobs_of_view [OF keeps_spawn] jobs_of_view [OF view_done]
  jobs_of_view [OF view_saves(1)] jobs_of_view [OF view_saves(2)] jobs_of_view [OF view_saves(3)] jobs_of_view [OF view_saves(4)]
  jobs_of_view [OF view_saves(5)]

lemma jobs_handlers:
  "keeps jobs_inv (userCloseOrder L U)" "keeps jobs_inv (userCreateOrder L U q)" "keeps jobs_inv (userRunOrder L U ob)"
  "keeps jobs_inv (userCreateSeq L U)" "keeps jobs_inv (userSendSeq L U)" "keeps jobs_inv (userCommitSeq L U)" "keeps jobs_inv (userFinishSeq L U s)"
  unfolding userCloseOrder_def userCreateOrder_def userNewOrder_def offerOrder_def userRunOrder_def userCreateSeq_def announceSeq_def userSendSeq_def
    userCommitSeq_def signSeq_def userSignHash_def userFinishSeq_def recordFinish_def verifyPro_def Let_def Serialize_def SignedOrder_Hash_def
  by (intro jobs_rules jobs_of_view [OF keeps_updInst]; simp add: job_view_def)+

lemma jobs_check: "keeps jobs_inv (userCheck L U)"
  unfolding userCheck_def checkAvail_def checkReady_def checkState_def checkSeqState_def checkClosing_def
  by (intro jobs_rules jobs_handlers jobs_of_view [OF keeps_updInst] | simp add: job_view_def | (split userOrderState.split userSeqState.split; intro conjI impI))+

end
