(* ===== verification/UserRun.thy ===== *)
theory UserRun
  imports UserOrderSafe
begin

text \<open>
  Runs of one provider's instance on the user's side: the network's events, the ticker, new jobs
  and the two halves of sending a chunk, in any order, between changes of the node by others.
\<close>

section \<open>Sending\<close>

definition inst_inv :: "lib \<Rightarrow> u64 \<Rightarrow> proInst \<Rightarrow> Message list \<Rightarrow> bool" where
  "inst_inv L pro o' ms \<longleftrightarrow> user_ok L pro o' ms \<and> jobs_ok o'"

lemma both: "holds (user_ok L pro) o' ms c m \<Longrightarrow> keeps jobs_inv m \<Longrightarrow> jobs_ok o' \<Longrightarrow> holds (inst_inv L pro) o' ms c m"
  by (auto simp: triple_def keeps_def good_def inst_inv_def at_def split: prod.splits sum.splits)
    (metis fst_conv snd_conv)+

lemma sum_upd_new:
  "b \<notin> set bs \<Longrightarrow> (\<Sum>x\<leftarrow>bs. int (length (the ((m(b \<mapsto> js)) x)))) = (\<Sum>x\<leftarrow>bs. int (length (the (m x))))"
  by (intro arg_cong [where f = sum_list] map_cong) auto

lemma sum_upd:
  "distinct bs \<Longrightarrow> b \<in> set bs \<Longrightarrow> (\<Sum>x\<leftarrow>bs. int (length (the ((m(b \<mapsto> js)) x)))) =
     (\<Sum>x\<leftarrow>bs. int (length (the (m x)))) + int (length js) - int (length (the (m b)))"
proof (induction bs)
  case (Cons a bs)
  then show ?case
    using sum_upd_new [of b bs m js] by (cases "a = b") (simp_all del: fun_upd_apply add: fun_upd_same fun_upd_other)
qed simp

lemma jobs_ok_pop:
  assumes "jobs_ok o'" and "ui_jobs o' bid = Some (sj # js)"
  shows "jobs_ok (o'\<lparr>ui_jobs := (ui_jobs o')(bid \<mapsto> js), ui_jobCnt := ui_jobCnt o' - 1, ui_inflight := False, ui_sending := None\<rparr>)"
proof -
  have "bid \<in> set (ui_buckets o')" "distinct (ui_buckets o')"
    using assms by (auto simp: jobs_ok_def dom_def)
  from sum_upd [OF this(2,1), of "ui_jobs o'" js] assms show ?thesis
    by (auto simp: jobs_ok_def)
qed

lemma jobs_addSeg: "keeps jobs_inv (addSeg sj)"
proof (rule keepsI)
  fix s :: "proInst \<times> UserNode" assume ok: "jobs_inv s"
  obtain o' n where s: "s = (o', n)" by (cases s)
  show "jobs_inv (snd (addSeg sj s))"
  proof (cases "ui_jobs o' (sj_BucketID sj)")
    case None
    then have "sj_BucketID sj \<notin> dom (ui_jobs o')"
      by auto
    with ok have "sj_BucketID sj \<notin> set (ui_buckets o')"
      by (simp add: s jobs_ok_def)
    with None ok sum_upd_new [OF this, of "ui_jobs o'" "[sj]"] show ?thesis
      by (cases "ui_inStop o'") (auto simp: s addSeg_def updInst_def jobs_ok_def)
  next
    case (Some js)
    with ok have "sj_BucketID sj \<in> set (ui_buckets o')" "distinct (ui_buckets o')"
      by (auto simp: s jobs_ok_def dom_def)
    with Some ok sum_upd [OF this(2,1), of "ui_jobs o'" "js @ [sj]"] show ?thesis
      by (cases "ui_inStop o'") (auto simp: s addSeg_def updInst_def jobs_ok_def)
  qed
qed

lemma addSeg_holds: "user_ok L pro o' ms \<Longrightarrow> holds (user_ok L pro) o' ms c (addSeg sj)"
  unfolding addSeg_def by (intro at_fst holds_check holds_upd) (auto split: option.splits)

text \<open>Taking the first job of a bucket.\<close>

lemma at_pop:
  "ui_jobs o' bid = Some (sj # js) \<Longrightarrow> triple (at (o'\<lparr>ui_jobs := (ui_jobs o')(bid \<mapsto> js), ui_jobCnt := ui_jobCnt o' - 1\<rparr>) ms c) m Q R \<Longrightarrow>
   triple (at o' ms c) (seq (popJob bid) m) Q R"
  by (auto simp: triple_def at_def popJob_def updInst_def)

lemma at_landed: "triple (at (o'\<lparr>ui_inflight := False, ui_sending := None\<rparr>) ms c) m Q R \<Longrightarrow> triple (at o' ms c) (seq landed m) Q R"
  unfolding landed_def by (rule at_upd)

lemma at_landed_last: "holds G o' ms c (updInst (\<lambda>o'. o'\<lparr>ui_inflight := False, ui_sending := None\<rparr>)) \<Longrightarrow> holds G o' ms c landed"
  by (simp add: landed_def)

lemma at_tellSent: "G o' ms \<Longrightarrow> holds G o' ms c (tellSent sj)"
  by (auto simp: triple_def at_def tellSent_def zoom_def good_def)

lemma sendBegin_holds:
  assumes "inst_inv L pro o' ms" and "ui_sending o' = None"
  shows "holds (inst_inv L pro) o' ms c (sendBegin got)"
proof (cases "canSend got o'")
  case False
  with assms(1) show ?thesis
    unfolding sendBegin_def by (intro at_fst) (simp add: holds_ret)
next
  case True
  let ?i = "if ui_turn o' + 1 \<ge> length (ui_buckets o') then 0 else ui_turn o' + 1"
  let ?o = "o'\<lparr>ui_turn := ?i\<rparr>"
  have ok: "inst_inv L pro ?o ms"
    using assms(1) by (simp add: inst_inv_def jobs_ok_def)
  have fl: "\<not> ui_inflight o'"
    using assms by (auto simp: inst_inv_def jobs_ok_def)
  have pop: "inst_inv L pro (?o\<lparr>ui_jobs := (ui_jobs o')(bid \<mapsto> js), ui_jobCnt := ui_jobCnt o' - 1\<rparr>) ms" if "ui_jobs o' bid = Some (sj # js)" for bid sj js
    using assms fl jobs_ok_pop [of ?o bid sj js] that ok by (auto simp: inst_inv_def jobs_ok_def)
  have popped: "holds (inst_inv L pro) ?o ms c (popJob bid)" if "ui_jobs o' bid = Some (sj # js)" for bid sj js
    using pop [OF that] that unfolding popJob_def by (intro at_fst) (auto simp: deref_def bnd_ret intro: holds_upd)
  have fly: "inst_inv L pro (?o\<lparr>ui_inflight := True, ui_sending := Some (bid, sj)\<rparr>) ms" if "ui_jobs o' bid = Some (sj # js)" for bid sj js
  proof -
    have "user_ok L pro (?o\<lparr>ui_inflight := True, ui_sending := Some (bid, sj)\<rparr>) ms"
      using ok True by (auto simp: inst_inv_def user_ok_def inst_ok_def seq_ok_def unsignedSeq_def canSend_def)
    with ok that show ?thesis
      by (auto simp: inst_inv_def jobs_ok_def)
  qed
  show ?thesis
    unfolding sendBegin_def Let_def using True
    by (intro at_fst, simp only: not_not if_False simp_thms, intro at_upd)
      (use ok popped fly in \<open>auto intro!: holds_fail holds_ret holds_upd split: option.splits list.splits\<close>)
qed

lemma inflight_open:
  assumes "user_ok L pro o' ms" and "ui_inflight o'"
  obtains b sq where "ui_base o' = Some b" "ui_seq o' = Some sq" "sos_UserDataSig sq = zero_Signature" "ui_seqState o' \<in> {USeq_Send, USeq_Commit}"
proof -
  from assms obtain b k where b: "ui_base o' = Some b" "seq_ok (so_Nonce b) k b o'"
    by (cases "ui_orderState o'") (auto simp: user_ok_def inst_ok_def)
  with assms(2) that show ?thesis
    by (cases "ui_seqState o'") (auto simp: seq_ok_def)
qed

lemma user_ok_land:
  assumes ok: "user_ok L pro o' ms" and fl: "ui_inflight o'"
  shows "user_ok L pro (o'\<lparr>ui_inflight := False, ui_sending := None\<rparr>) ms"
proof -
  obtain b sq where o': "ui_base o' = Some b" "ui_seq o' = Some sq" "sos_UserDataSig sq = zero_Signature" "ui_seqState o' \<in> {USeq_Send, USeq_Commit}"
    by (rule inflight_open [OF ok fl])
  from ok obtain st where st: "followed L pro ms = Some st" "inst_ok pro st o'"
    by (auto simp: user_ok_def)
  from st(2) o' fl have "inst_ok pro st (o'\<lparr>ui_inflight := False, ui_sending := None\<rparr>)"
    by (cases "ui_orderState o'") (auto simp: inst_ok_def seq_ok_def unsignedSeq_def)
  with st(1) show ?thesis
    by (auto simp: user_ok_def)
qed

lemma user_ok_chunk:
  assumes ok: "user_ok L pro o' ms" and fl: "ui_inflight o'" and sq: "ui_seq o' = Some sq"
  shows "user_ok L pro (o'\<lparr>ui_seq := Some (sq\<lparr>sos_OrderSeq := (sos_OrderSeq sq)\<lparr>os_Segments := a, os_Price := p, os_Size := z\<rparr>\<rparr>), ui_sjq := q\<rparr>) ms"
proof -
  obtain b sq' where o': "ui_base o' = Some b" "ui_seq o' = Some sq'" "sos_UserDataSig sq' = zero_Signature" "ui_seqState o' \<in> {USeq_Send, USeq_Commit}"
    by (rule inflight_open [OF ok fl])
  from ok obtain st where st: "followed L pro ms = Some st" "inst_ok pro st o'"
    by (auto simp: user_ok_def)
  from st(2) o' fl sq have "inst_ok pro st (o'\<lparr>ui_seq := Some (sq\<lparr>sos_OrderSeq := (sos_OrderSeq sq)\<lparr>os_Segments := a, os_Price := p, os_Size := z\<rparr>\<rparr>), ui_sjq := q\<rparr>)"
    by (cases "ui_orderState o'") (auto simp: inst_ok_def seq_ok_def unsignedSeq_def)
  with st(1) show ?thesis
    by (auto simp: user_ok_def)
qed

text \<open>The states sending ends in.\<close>

lemma inst_inv_land:
  assumes "inst_inv L pro o' ms" and "ui_sending o' = Some (bid, sj)"
  shows "inst_inv L pro (o'\<lparr>ui_inflight := False, ui_sending := None\<rparr>) ms"
  using assms user_ok_land [of L pro o' ms] by (auto simp: inst_inv_def jobs_ok_def)

lemma inst_inv_pop:
  assumes "inst_inv L pro o' ms" and "ui_sending o' = Some (bid, sj)" and "ui_jobs o' bid = Some (sj # js)"
  shows "inst_inv L pro (o'\<lparr>ui_jobs := (ui_jobs o')(bid \<mapsto> js), ui_jobCnt := ui_jobCnt o' - 1, ui_inflight := False, ui_sending := None\<rparr>) ms"
proof -
  have fl: "ui_inflight o'" and ok: "user_ok L pro o' ms"
    using assms by (auto simp: inst_inv_def jobs_ok_def)
  have "user_ok L pro (o'\<lparr>ui_jobs := (ui_jobs o')(bid \<mapsto> js), ui_jobCnt := ui_jobCnt o' - 1\<rparr>) ms"
    using ok by simp
  from user_ok_land [OF this] fl jobs_ok_pop [OF _ assms(3)] assms(1) show ?thesis
    by (simp add: inst_inv_def)
qed

lemma inst_inv_chunk:
  assumes "inst_inv L pro o' ms" and "ui_sending o' = Some (bid, sj)" and "ui_seq o' = Some sq"
  shows "inst_inv L pro (o'\<lparr>ui_seq := Some (sq\<lparr>sos_OrderSeq := (sos_OrderSeq sq)\<lparr>os_Segments := a, os_Price := p, os_Size := z\<rparr>\<rparr>), ui_sjq := q\<rparr>) ms"
  using assms user_ok_chunk [of L pro o' ms sq q z p a] by (auto simp: inst_inv_def jobs_ok_def)

lemma at_pushChunk:
  assumes "inst_inv L pro o' ms" and "ui_sending o' = Some (bid, sj)"
  shows "triple (at o' ms c) (pushChunk L U sid sj)
    (\<lambda>_ s. \<exists>o2. (inst_inv L pro o2 ms \<and> ui_sending o2 = Some (bid, sj) \<and> ui_jobs o2 = ui_jobs o' \<and> ui_base o2 \<noteq> None \<and> ui_seq o2 \<noteq> None) \<and> at o2 ms c s)
    (good (inst_inv L pro))"
proof -
  have ex: "\<exists>o2. (inst_inv L pro o2 ms \<and> ui_sending o2 = Some (bid, sj) \<and> ui_jobs o2 = ui_jobs o' \<and> ui_base o2 \<noteq> None \<and> ui_seq o2 \<noteq> None) \<and> at o2 ms c s"
    if "ui_seq o' = Some sq" "ui_base o' = Some b"
      "at (o'\<lparr>ui_seq := Some (sq\<lparr>sos_OrderSeq := (sos_OrderSeq sq)\<lparr>os_Segments := a, os_Price := p, os_Size := z\<rparr>\<rparr>), ui_sjq := q\<rparr>) ms c s" for sq b a p z q s
    using that(2,3) inst_inv_chunk [OF assms that(1), of q z p a] assms(2) by (intro exI conjI) (assumption | simp)+
  show ?thesis
    unfolding pushChunk_def
    by (intro at_fst triple_deref at_upd_last at_good [where G = "inst_inv L pro", OF assms(1)] ex)
qed

lemma chunkSent_holds:
  assumes io: "io_ok L U" and inv: "inst_inv L pro o' ms" and snd: "ui_sending o' = Some (bid, sj)"
  shows "holds (inst_inv L pro) o' ms c (chunkSent L U bid sj sid)"
proof -
  have job: "\<exists>js. ui_jobs o2 bid = Some (sj # js)" if "inst_inv L pro o2 ms" "ui_sending o2 = Some (bid, sj)" for o2
    using that by (auto simp: inst_inv_def jobs_ok_def)
  have rest: "holds (inst_inv L pro) o2 ms c (seq (popJob bid) (seq landed (seq (dropErr (userSaveOrderSeq L)) (seq (dropErr (userSaveSeqJob L U)) (tellSent sj)))))"
    if o2: "inst_inv L pro o2 ms" "ui_sending o2 = Some (bid, sj)" "ui_base o2 \<noteq> None" "ui_seq o2 \<noteq> None" for o2
  proof -
    obtain js where js: "ui_jobs o2 bid = Some (sj # js)"
      using job o2 by blast
    show ?thesis
      by (rule at_pop [OF js], intro at_landed after_drop [OF sure_seq_saves(1) [OF io]] after_drop [OF sure_seq_saves(3) [OF io]] at_tellSent)
        (use o2 inst_inv_pop [OF o2(1,2) js] in auto)
  qed
  have inv': "inst_inv L pro (o'\<lparr>ui_availTime := t\<rparr>) ms" "ui_sending (o'\<lparr>ui_availTime := t\<rparr>) = Some (bid, sj)" for t
    using inv snd by (simp_all add: inst_inv_def jobs_ok_def)
  show ?thesis
    unfolding chunkSent_def
    by (intro at_now at_upd, rule triple_seq [OF at_pushChunk [OF inv']], rule triple_some, rule rest) simp_all
qed

lemma sendEnd_holds:
  assumes io: "io_ok L U" and inv: "inst_inv L pro o' ms"
  shows "holds (inst_inv L pro) o' ms c (sendEnd L U)"
proof (cases "ui_sending o'")
  case None
  then show ?thesis
    unfolding sendEnd_def using inv by (intro at_id) (simp add: holds_ret)
next
  case (Some x)
  obtain bid sj where x: "ui_sending o' = Some (bid, sj)"
    using Some by (cases x) simp
  then obtain js where js: "ui_jobs o' bid = Some (sj # js)"
    using inv by (auto simp: inst_inv_def jobs_ok_def)
  have inv': "inst_inv L pro (o'\<lparr>ui_failSent := k\<rparr>) ms" for k
    using inv by (simp add: inst_inv_def jobs_ok_def)
  have land: "holds (inst_inv L pro) o' ms c landed"
    using inst_inv_land [OF inv x] by (intro at_landed_last holds_upd)
  have pops: "holds (inst_inv L pro) o' ms c (seq (popJob bid) landed)" "holds (inst_inv L pro) o' ms c (seq (popJob bid) (seq landed (tellSent sj)))"
    using inst_inv_pop [OF inv x js] by (intro at_pop [OF js] at_landed at_landed_last holds_upd at_tellSent; simp)+
  have fails: "holds (inst_inv L pro) o' ms c (seq landed (updInst (\<lambda>o'. o'\<lparr>ui_failSent := ui_failSent o' + 1\<rparr>)))"
    using inst_inv_land [OF inv x] by (intro at_landed holds_upd) (simp add: inst_inv_def jobs_ok_def)
  have loc: "triple (at o' ms c) (attempt (on_un (un_dt m))) (\<lambda>_. at o' ms c) (at o' ms c)" for m :: "u64 dtgo"
    by (auto simp: triple_def at_def attempt_def zoom_def split: prod.splits sum.splits err.splits)
  have sent: "holds (inst_inv L pro) o' ms c (case t of
      Some t \<Rightarrow>
        if Contains t (ascii ''missing chunk'') then seq (popJob bid) landed
        else if \<not> Contains t (ascii ''already has seg'') then seq landed (updInst (\<lambda>o'. o'\<lparr>ui_failSent := ui_failSent o' + 1\<rparr>))
        else chunkSent L U bid sj sid
    | None \<Rightarrow> seq (updInst (\<lambda>o'. o'\<lparr>ui_failSent := 0\<rparr>)) (chunkSent L U bid sj sid))" for t sid
    by (cases t) (auto intro!: triple_if pops fails chunkSent_holds io inv x at_upd inv')
  have ask: "holds (inst_inv L pro) o' ms c (bnd (attempt (on_un (un_dt m))) (\<lambda>loc. case loc of Inr _ \<Rightarrow> seq (popJob bid) (seq landed (tellSent sj)) | Inl _ \<Rightarrow> k))"
    if "holds (inst_inv L pro) o' ms c k" for m :: "u64 dtgo" and k
    by (rule triple_bnd [OF triple_err [OF loc at_good [where G = "inst_inv L pro", OF inv]]]) (auto intro: that pops split: sum.split)
  show ?thesis
    unfolding sendEnd_def
    by (rule at_id, simp only: x prod.case option.case, split sum.split, intro conjI allI impI land ask sent)
qed

section \<open>Runs\<close>

text \<open>
  The steps of a run.  The network delivers what it likes to the instance it names, but a sequence
  is acknowledged as finished only after the user signed it and sent it for that; the ticker does
  not give the order up in the middle of a sequence; a chunk is sent after the one before has
  landed.  Everything else may change the node as it likes, except for the messages to the provider.
\<close>

definition signed :: "proInst \<Rightarrow> bool" where
  "signed o' \<longleftrightarrow> (case ui_seq o' of None \<Rightarrow> False | Some sq \<Rightarrow> sos_UserDataSig sq \<noteq> zero_Signature)"

fun isFinish :: "netEvent \<Rightarrow> bool" where
  "isFinish (GotSeqFinish p s) = True"
| "isFinish _ = False"

definition nowOf :: "UserNode \<Rightarrow> i64" where
  "nowOf n = un_clock n (un_reads n)"

definition msgsTo :: "u64 \<Rightarrow> UserNode \<Rightarrow> Message list" where
  "msgsTo pro n = filter (\<lambda>m. msg_To m = pro) (un_msgs n)"

inductive user_reach :: "lib \<Rightarrow> uenv \<Rightarrow> u64 \<Rightarrow> proInst \<times> UserNode \<Rightarrow> bool" for L U pro where
  fresh: "msgsTo pro n = [] \<Longrightarrow> user_reach L U pro (new_proInst u fsid pro t1 t2, n)"
| event: "user_reach L U pro s \<Longrightarrow> eventPro e = pro \<Longrightarrow> (isFinish e \<Longrightarrow> signed (fst s)) \<Longrightarrow> user_reach L U pro (snd (instEvent L U e s))"
| tick: "user_reach L U pro s \<Longrightarrow> (midway (fst s) \<Longrightarrow> \<not> giveUp (nowOf (snd s)) (un_orderLast (snd s)) (fst s)) \<Longrightarrow>
    user_reach L U pro (snd (userCheck L U s))"
| job: "user_reach L U pro s \<Longrightarrow> user_reach L U pro (snd (addSeg sj s))"
| send: "user_reach L U pro s \<Longrightarrow> ui_sending (fst s) = None \<Longrightarrow> user_reach L U pro (snd (sendBegin got s))"
| answered: "user_reach L U pro s \<Longrightarrow> user_reach L U pro (snd (sendEnd L U s))"
| moved: "user_reach L U pro s \<Longrightarrow> user_reach L U pro (snd (refreshLocation L U s))"
| others: "user_reach L U pro (o', n) \<Longrightarrow> msgsTo pro n' = msgsTo pro n \<Longrightarrow> user_reach L U pro (o', n')"

lemma at_touch: "(\<And>t. triple (at (o'\<lparr>ui_availTime := t\<rparr>) ms c) m Q R) \<Longrightarrow> triple (at o' ms c) (seq touch m) Q R"
  by (auto simp: triple_def at_def touch_def userNow_def zoom_def updInst_def seq_def bnd_def)

lemma instEvent_holds:
  assumes io: "io_ok L U" "sig_law L" and ok: "user_ok L pro o' ms" and e: "eventPro e = pro" and fin: "isFinish e \<Longrightarrow> signed o'"
  shows "holds (user_ok L pro) o' ms c (instEvent L U e)"
proof (cases e)
  case (GotUpdate p)
  then show ?thesis
    using ok by (auto simp: instEvent_def touch_def intro!: at_now holds_upd)
next
  case (GotFail p)
  then show ?thesis
    using ok by (auto simp: instEvent_def intro!: holds_upd)
next
  case (GotQuotation q)
  have "holds (user_ok L pro) o' ms c (bnd (deref ''nil SegPrice'' (qm_SegPrice q)) (\<lambda>sp.
        bnd (gets (\<lambda>(_, n). un_segPrice n)) (\<lambda>mx.
        if sp > mx then updInst (\<lambda>o'. o'\<lparr>ui_failCnt := ui_failCnt o' + 1\<rparr>)
        else seq (updInst (\<lambda>o'. o'\<lparr>ui_failCnt := 0\<rparr>)) (seq touch (dropErr (userCreateOrder L U (Some q)))))))"
    by (intro holds_deref ok at_node triple_if holds_upd at_upd at_touch holds_dropErr userCreateOrder_holds io) (use ok e GotQuotation in auto)
  with GotQuotation show ?thesis
    by (simp add: instEvent_def)
next
  case (GotOrder b)
  have "holds (user_ok L pro) o' ms c (seq touch (dropErr (userRunOrder L U b)))"
    by (intro at_touch holds_dropErr userRunOrder_holds io) (simp add: ok)
  with GotOrder show ?thesis
    by (simp add: instEvent_def)
next
  case (GotSeqNew p q)
  have "holds (user_ok L pro) o' ms c (seq touch (dropErr (userSendSeq L U)))"
    by (intro at_touch holds_dropErr userSendSeq_holds io) (simp add: ok)
  with GotSeqNew show ?thesis
    by (simp add: instEvent_def)
next
  case (GotSeqFinish p q)
  have "holds (user_ok L pro) o' ms c (seq touch (dropErr (userFinishSeq L U q)))"
    using fin GotSeqFinish by (intro at_touch holds_dropErr userFinishSeq_holds io) (auto simp: ok signed_def)
  with GotSeqFinish show ?thesis
    by (simp add: instEvent_def)
qed

lemma jobs_event: "keeps jobs_inv (instEvent L U e)"
  unfolding instEvent_def touch_def
  by (cases e; simp only: netEvent.case; intro jobs_rules jobs_handlers jobs_of_view [OF keeps_updInst]; simp add: job_view_def)

lemma triple_snd:
  assumes "triple P m (\<lambda>_. Q) Q" and "P s"
  shows "Q (snd (m s))"
proof (cases "m s")
  case (Pair r t)
  then show ?thesis
    using triple_Inr [OF assms(1,2)] triple_Inl [OF assms(1,2)] by (cases r) auto
qed

lemma holds_run: "holds G o' ms c m \<Longrightarrow> at o' ms c s \<Longrightarrow> good G (snd (m s))"
  by (rule triple_snd)

lemma at_self: "at (fst s) (un_msgs (snd s)) (un_orderLast (snd s)) s"
  by (simp add: at_def)

lemma refresh_holds: "user_ok L pro o' ms \<Longrightarrow> holds (user_ok L pro) o' ms c (refreshLocation L U)"
proof -
  assume ok: "user_ok L pro o' ms"
  have "triple (at o' ms c) (attempt (on_un (un_role m))) (\<lambda>_. at o' ms c) (good (user_ok L pro))" for m :: "RoleInfo option rgo"
    using ok by (auto simp: triple_def at_def attempt_def zoom_def good_def split: prod.splits sum.splits err.splits)
  then show ?thesis
    unfolding refreshLocation_def
    by (intro at_fst triple_bnd) (auto split: sum.split intro!: holds_ret holds_upd ok)
qed

lemma jobs_refresh: "keeps jobs_inv (refreshLocation L U)"
  unfolding refreshLocation_def by (intro jobs_rules jobs_of_view [OF keeps_updInst]; simp add: job_view_def)

lemma followed_msgsTo: "followed L pro (un_msgs n) = follow (0, None) (map (orderEvent L) (msgsTo pro n))"
  by (simp add: followed_def msgsTo_def)

lemma reach_inv:
  assumes "user_reach L U pro s" and io: "io_ok L U" "sig_law L"
  shows "good (inst_inv L pro) s"
  using assms(1)
proof induction
  case (fresh n u fsid t1 t2)
  then show ?case
    by (auto simp: good_def inst_inv_def user_ok_def followed_msgsTo inst_ok_def jobs_ok_def new_proInst_def)
next
  case (event s e)
  then have "holds (inst_inv L pro) (fst s) (un_msgs (snd s)) (un_orderLast (snd s)) (instEvent L U e)"
    by (intro both instEvent_holds jobs_event io) (auto simp: good_def inst_inv_def)
  then show ?case
    by (rule holds_run) (rule at_self)
next
  case (tick s)
  then have "triple (\<lambda>s'. at (fst s) (un_msgs (snd s)) (un_orderLast (snd s)) s' \<and> un_clock (snd s') (un_reads (snd s')) = nowOf (snd s))
      (userCheck L U) (\<lambda>_. good (user_ok L pro)) (good (user_ok L pro))"
    by (intro userCheck_holds io) (auto simp: good_def inst_inv_def)
  then have "good (user_ok L pro) (snd (userCheck L U s))"
    by (rule triple_snd) (simp add: at_def nowOf_def)
  with tick jobs_check show ?case
    by (auto simp: good_def inst_inv_def dest: keepsD)
next
  case (job s sj)
  then have "holds (inst_inv L pro) (fst s) (un_msgs (snd s)) (un_orderLast (snd s)) (addSeg sj)"
    by (intro both addSeg_holds jobs_addSeg) (auto simp: good_def inst_inv_def)
  then show ?case
    by (rule holds_run) (rule at_self)
next
  case (send s got)
  then have "holds (inst_inv L pro) (fst s) (un_msgs (snd s)) (un_orderLast (snd s)) (sendBegin got)"
    by (intro sendBegin_holds) (auto simp: good_def)
  then show ?case
    by (rule holds_run) (rule at_self)
next
  case (answered s)
  then have "holds (inst_inv L pro) (fst s) (un_msgs (snd s)) (un_orderLast (snd s)) (sendEnd L U)"
    by (intro sendEnd_holds io) (auto simp: good_def)
  then show ?case
    by (rule holds_run) (rule at_self)
next
  case (moved s)
  then have "holds (inst_inv L pro) (fst s) (un_msgs (snd s)) (un_orderLast (snd s)) (refreshLocation L U)"
    by (intro both refresh_holds jobs_refresh) (auto simp: good_def inst_inv_def)
  then show ?case
    by (rule holds_run) (rule at_self)
next
  case (others o' n n')
  then show ?case
    by (auto simp: good_def inst_inv_def user_ok_def followed_msgsTo)
qed

end
