(* ===== verification/UserProps.thy ===== *)
theory UserProps
  imports UserRun ProServeSafe OrderLife
begin

text \<open>
  What a user's runs promise: the messages to a provider follow the chain's order of events as
  long as no order is given up in the middle of a sequence, giving it up there commits a sequence
  the chain does not have, and the job counter of an instance never disagrees with its lists.
  The examples run one order with an encoder that encodes every struct field by field.
\<close>

section \<open>The chain's side\<close>

text \<open>The nonce of a pair, and the number of sequences of its open order, as the state manager has them.\<close>

definition chain_view :: "orderInfo \<Rightarrow> u64 \<times> u32 option" where
  "chain_view oi = (ns_Nonce (oi_ns oi), map_option (\<lambda>_. ns_SeqNum (oi_ns oi)) (oi_base oi))"

text \<open>A message about an order that the chain accepts is a step of the pair it names.\<close>

lemma accepted_step:
  assumes law: "trie_law (lb_trie L)" and run: "applyMethod L msg s = (Inr u, t)" and pair: "order_of_msg L msg = Some okey"
    and meth: "msg_Method msg \<in> {PreDataOrder, AddDataOrder, CommitDataOrder}"
  shows "evStep (chain_view (order_now L okey s)) (orderEvent L msg) = Some (chain_view (order_now L okey t))"
proof -
  consider "msg_Method msg = PreDataOrder" | "msg_Method msg = AddDataOrder" | "msg_Method msg = CommitDataOrder"
    using meth by auto
  then show ?thesis
  proof cases
    case 1
    with pair obtain od where od: "decode (lb_cSignedOrder L) zero_SignedOrder (msg_Params msg) = Some od" "okey = (so_UserID od, so_ProID od)"
      by (auto simp: order_of_msg_def)
    from run 1 have "createOrder L msg s = (Inr u, t)"
      by (simp add: applyMethod_def method_defs)
    from createOrder_now [OF law this od refl] od(1) 1 show ?thesis
      by (simp add: orderEvent_def chain_view_def)
  next
    case 2
    with pair obtain so where so: "decode (lb_cSignedOrderSeq L) zero_SignedOrderSeq (msg_Params msg) = Some so"
      "okey = (os_UserID (sos_OrderSeq so), os_ProID (sos_OrderSeq so))"
      by (auto simp: order_of_msg_def method_defs)
    from run 2 have "addSeq L msg s = (Inr u, t)"
      by (simp add: applyMethod_def method_defs)
    from addSeq_now [OF law this so(1) refl so(2) refl] so(1) 2 methods_differ show ?thesis
      by (auto simp: orderEvent_def chain_view_def)
  next
    case 3
    with pair obtain p where p: "decode (lb_cOrderCommitParas L) zero_OrderCommitParas (msg_Params msg) = Some p" "okey = (ocp_UserID p, ocp_ProID p)"
      by (auto simp: order_of_msg_def method_defs)
    from run 3 have "commitOrder L msg s = (Inr u, t)"
      by (simp add: applyMethod_def method_defs)
    from commitOrder_now [OF this p refl] p(1) 3 methods_differ show ?thesis
      by (auto simp: orderEvent_def chain_view_def close_order_def)
  qed
qed

section \<open>Stopping in the middle of a sequence\<close>

text \<open>What the invariant says there: the order is open, and the open sequence is not signed by the user.\<close>

lemma midway_view:
  assumes "inst_ok pro st o'" and "midway o'"
  obtains b sq k where "ui_base o' = Some b" "ui_seq o' = Some sq" "st = (so_Nonce b, Some k)" "ui_seqNum o' = k + 1" "ob_ProID (so_OrderBase b) = pro"
    "so_Size b \<noteq> 0" "os_Size (sos_OrderSeq sq) \<noteq> so_Size b" "sos_UserDataSig sq = zero_Signature"
proof -
  from assms(2) obtain b sq where o': "ui_base o' = Some b" "ui_seq o' = Some sq" and sz: "so_Size b \<noteq> 0" "os_Size (sos_OrderSeq sq) \<noteq> so_Size b"
    and mid: "ui_seqState o' \<in> {USeq_Send, USeq_Commit}"
    by (auto simp: midway_def split: option.splits)
  from assms(1) o' sz have "ui_orderState o' \<in> {UOrder_Running, UOrder_Closing}"
    by (cases "ui_orderState o'") (auto simp: inst_ok_def)
  with assms(1) o' obtain k where st: "st = (so_Nonce b, Some k)" "seq_ok (so_Nonce b) k b o'" and to: "ob_ProID (so_OrderBase b) = pro"
    by (auto simp: inst_ok_def)
  from st(2) mid o' sz have "ui_seqNum o' = k + 1" "sos_UserDataSig sq = zero_Signature"
    by (auto simp: seq_ok_def unsignedSeq_def)
  with o' st(1) to sz that show ?thesis
    by blast
qed

text \<open>One commit was pushed that breaks the rule.\<close>

definition lost :: "lib \<Rightarrow> u64 \<Rightarrow> Message list \<Rightarrow> proInst \<Rightarrow> Message list \<Rightarrow> bool" where
  "lost L pro ms o' ms' \<longleftrightarrow> (\<exists>m. ms' = ms @ [m] \<and> msg_To m = pro \<and> msg_Method m = CommitDataOrder \<and> followed L pro ms' = None)"

lemma done_lost:
  assumes io: "io_ok L U" and fol: "followed L pro ms = Some (so_Nonce b, Some k)"
    and o': "ui_base o' = Some b" "ui_seq o' = Some sq" "ui_orderState o' = UOrder_Closing" "ui_seqState o' = USeq_Init"
    and num: "commitNum o' b sq = k + 1" "k + 1 \<noteq> 0" and to: "ob_ProID (so_OrderBase b) = pro"
    and sz: "so_Size b \<noteq> 0" "os_Size (sos_OrderSeq sq) \<noteq> 0"
  shows "holds (lost L pro ms) o' ms c (userDoneOrder L U)"
proof -
  have dec: "decode (lb_cOrderCommitParas L) zero_OrderCommitParas data = Some p" if "marshal (lb_cOrderCommitParas L) p = Some data" for data p
    using that io by (auto simp: io_ok_def intro: decode_law)
  have gone: "lost L pro ms o2 (ms @ [m])"
    if "msg_To m = pro" "msg_Method m = CommitDataOrder" "decode (lb_cOrderCommitParas L) zero_OrderCommitParas (msg_Params m) = Some p"
      "ocp_SeqNum p = k + 1" for m p o2
    using followed_push [OF fol that(1)] that methods_differ by (simp add: orderEvent_def lost_def)
  have reset: "holds (lost L pro ms) o' ms2 c (resetOrder L U)" if "lost L pro ms o' ms2" for ms2
    using that by (auto intro: triple_post [OF triple_err [OF at_reset [OF io o'(1,2)]]] simp: at_def good_def lost_def)
  have go: "seq (reject False w) m = m" for w and m :: "unit ugo"
    by (rule ext) (simp add: seq_def bnd_def reject_def)
  show ?thesis
    unfolding userDoneOrder_def
    by (rule at_fst, simp only: o' num sz option.simps go deref_def orErr_def bnd_ret simp_thms,
        rule at_Serialize, use io in \<open>simp add: io_ok_def\<close>, rule at_push, rule holds_seq, rule reset)
      (auto simp: to dec intro!: gone holds_spawn holds_ret)
qed

lemma stop_lost:
  assumes io: "io_ok L U" and ok: "user_ok L pro o' ms" and mid: "midway o'" and num: "ui_seqNum o' \<noteq> 0"
    and sz: "\<And>sq. ui_seq o' = Some sq \<Longrightarrow> os_Size (sos_OrderSeq sq) \<noteq> 0"
  shows "holds (lost L pro ms) o' ms c (userStopOrder L U)"
proof -
  from ok obtain st where fol: "followed L pro ms = Some st" and inv: "inst_ok pro st o'"
    by (auto simp: user_ok_def)
  from inv mid obtain b sq k where o': "ui_base o' = Some b" "ui_seq o' = Some sq" "st = (so_Nonce b, Some k)" "ui_seqNum o' = k + 1"
    "ob_ProID (so_OrderBase b) = pro" "so_Size b \<noteq> 0" "os_Size (sos_OrderSeq sq) \<noteq> so_Size b" "sos_UserDataSig sq = zero_Signature"
    by (rule midway_view)
  let ?o = "clearJobs (o'\<lparr>ui_inStop := True, ui_sjq := []\<rparr>)"
  have view: "ui_base ?o = Some b" "ui_seq ?o = Some sq" "ui_seqState ?o = ui_seqState o'" "ui_seqNum ?o = k + 1" "ui_sjq ?o = []"
    by (simp_all add: clearJobs_def o')
  have fl: "\<not> ui_inflight o'"
    using mid by (simp add: midway_def)
  have clean: "holds (lost L pro ms) ?o ms c (cleanState L U)"
    unfolding cleanState_def
    by (rule at_fst, simp only: view deref_def bnd_ret option.simps o'(6) if_False if_True simp_thms,
        rule at_upd, rule done_lost [OF io, where b = b and sq = sq and k = k])
      (use o' num sz fol in \<open>auto simp: commitNum_def view\<close>)
  have none: "sure (at ?o ms c) (takeBack n)" for n
    unfolding takeBack_def
    by (rule at_fst, rule triple_if) (simp_all only: view deref_def bnd_ret o' zero_Signature_def Signature.simps option.simps simp_thms if_False triple_ret)
  show ?thesis
    unfolding userStopOrder_def
    by (rule at_fst, simp only: fl o' option.simps simp_thms if_True, rule holds_check, simp, rule at_upd)
     (intro after_drop sure_seq_saves io at_upd at_node_upd holds_check after [OF none] clean, auto simp: o')
qed

section \<open>Taking a job\<close>

lemma popJob_total: "ui_jobs o' bid = Some (sj # js) \<Longrightarrow> fst (popJob bid (o', n)) = Inr ()"
  by (simp add: popJob_def updInst_def bnd_def gets_def deref_def ret_def modify_def)

lemma sendBegin_total:
  assumes "jobs_ok o'"
  shows "fst (sendBegin got (o', n)) = Inr ()"
proof (cases "canSend got o'")
  case False
  then show ?thesis
    by (simp add: sendBegin_def bnd_def gets_def ret_def)
next
  case True
  then have "ui_buckets o' \<noteq> []"
    using assms by (auto simp: canSend_def jobs_ok_def)
  then have turn: "(if ui_turn o' + 1 \<ge> length (ui_buckets o') then 0 else ui_turn o' + 1) < length (ui_buckets o')"
    by auto
  have step: "fst (seq (updInst f) m (o', n)) = fst (m (f o', n))" for f and m :: "unit ugo"
    by (simp add: seq_def bnd_def updInst_def modify_def)
  have rest: "fst ((case ui_jobs o' bid of None \<Rightarrow> ret () | Some [] \<Rightarrow> ret ()
      | Some (sj # _) \<Rightarrow> if seqHas o' sj then popJob bid else updInst (f sj)) (o'\<lparr>ui_turn := i\<rparr>, n)) = Inr ()" for bid f i
    using popJob_total [of "o'\<lparr>ui_turn := i\<rparr>" bid] by (auto simp: ret_def updInst_def modify_def split: option.split list.split)
  show ?thesis
    unfolding sendBegin_def bnd_def gets_def Let_def using True turn by (simp only: sum.case prod.case fst_conv simp_thms if_False not_le [symmetric] step rest)
qed

text \<open>
  In every run the counter of jobs of an instance is the number of jobs in its bucket lists, the chunk
  in flight is the first job of its bucket, and taking the next bucket in turn and its first job does
  not panic.
\<close>

lemma user_jobs_counted:
  assumes "io_ok L U" and "sig_law L" and "user_reach L U pro s"
  shows "ui_jobCnt (fst s) = (\<Sum>b\<leftarrow>ui_buckets (fst s). int (length (the (ui_jobs (fst s) b)))) \<and>
    (\<forall>b sj. ui_sending (fst s) = Some (b, sj) \<longrightarrow> (\<exists>js. ui_jobs (fst s) b = Some (sj # js))) \<and>
    fst (sendBegin got s) = Inr ()"
proof -
  have "jobs_ok (fst s)"
    using reach_inv [OF assms(3,1,2)] by (simp add: good_def inst_inv_def)
  with sendBegin_total [of "fst s" got "snd s"] show ?thesis
    by (simp add: jobs_ok_def)
qed

section \<open>An encoder for every struct\<close>

text \<open>A field is written, and read back from the front of what follows.\<close>

type_synonym 'a fld = "('a \<Rightarrow> bytes) \<times> (bytes \<Rightarrow> 'a \<times> bytes)"

definition fld_ok :: "'a fld \<Rightarrow> bool" where
  "fld_ok f \<longleftrightarrow> (\<forall>x r. snd f (fst f x @ r) = (x, r))"

definition f_bytes :: "bytes fld" where
  "f_bytes = (enc_bytes, dec_bytes)"

definition f_as :: "('a \<Rightarrow> 'b) \<Rightarrow> ('b \<Rightarrow> 'a) \<Rightarrow> 'b fld \<Rightarrow> 'a fld" where
  "f_as out into f = (\<lambda>x. fst f (out x), \<lambda>r. case snd f r of (y, r') \<Rightarrow> (into y, r'))"

definition f_pair :: "'a fld \<Rightarrow> 'b fld \<Rightarrow> ('a \<times> 'b) fld" where
  "f_pair f g = (\<lambda>(x, y). fst f x @ fst g y, \<lambda>r. case snd f r of (x, r') \<Rightarrow> (case snd g r' of (y, r'') \<Rightarrow> ((x, y), r'')))"

fun read_many :: "(bytes \<Rightarrow> 'a \<times> bytes) \<Rightarrow> nat \<Rightarrow> bytes \<Rightarrow> 'a list \<times> bytes" where
  "read_many rd 0 r = ([], r)"
| "read_many rd (Suc n) r = (case rd r of (x, r') \<Rightarrow> (case read_many rd n r' of (xs, r'') \<Rightarrow> (x # xs, r'')))"

fun nat_bytes :: "nat \<Rightarrow> bytes" where
  "nat_bytes n = (if n = 0 then [] else of_nat (n mod 256) # nat_bytes (n div 256))"

declare nat_bytes.simps [simp del]

fun bytes_nat :: "bytes \<Rightarrow> nat" where
  "bytes_nat [] = 0"
| "bytes_nat (x # xs) = unat x + 256 * bytes_nat xs"

definition f_nat :: "nat fld" where
  "f_nat = f_as nat_bytes bytes_nat f_bytes"

definition f_list :: "'a fld \<Rightarrow> 'a list fld" where
  "f_list f = (\<lambda>xs. fst f_nat (length xs) @ concat (map (fst f) xs), \<lambda>r. case snd f_nat r of (n, r') \<Rightarrow> read_many (snd f) n r')"

definition f_word :: "'a::len word fld" where
  "f_word = f_as unat of_nat f_nat"

definition f_price :: "int option fld" where
  "f_price = f_as (\<lambda>p. case p of None \<Rightarrow> (0, 0) | Some i \<Rightarrow> (if i < 0 then (2, nat (- i)) else (1, nat i)))
     (\<lambda>(t, n). if t = 0 then None else Some (if t = 2 then - int n else int n)) (f_pair f_nat f_nat)"

lemma bytes_nat_bytes: "bytes_nat (nat_bytes n) = n"
proof (induction n rule: nat_bytes.induct)
  case (1 n)
  then show ?case
    by (subst nat_bytes.simps) (simp add: unat_of_nat take_bit_eq_mod)
qed

lemma fld_bytes: "fld_ok f_bytes"
  by (simp add: fld_ok_def f_bytes_def)

lemma fld_as: "fld_ok f \<Longrightarrow> (\<And>x. into (out x) = x) \<Longrightarrow> fld_ok (f_as out into f)"
  by (simp add: fld_ok_def f_as_def)

lemma fld_pair: "fld_ok f \<Longrightarrow> fld_ok g \<Longrightarrow> fld_ok (f_pair f g)"
  by (auto simp: fld_ok_def f_pair_def)

lemma fld_nat: "fld_ok f_nat"
  unfolding f_nat_def by (rule fld_as [OF fld_bytes bytes_nat_bytes])

lemma fld_word: "fld_ok f_word"
  unfolding f_word_def by (rule fld_as [OF fld_nat]) simp

lemma fld_price: "fld_ok f_price"
  unfolding f_price_def by (rule fld_as [OF fld_pair [OF fld_nat fld_nat]]) (auto split: option.split)

lemma fld_list: assumes "fld_ok f" shows "fld_ok (f_list f)"
proof -
  have "read_many (snd f) (length xs) (concat (map (fst f) xs) @ r) = (xs, r)" for xs r
    using assms by (induction xs) (auto simp: fld_ok_def)
  then show ?thesis
    using fld_nat by (simp add: fld_ok_def f_list_def)
qed

definition f_codec :: "'a fld \<Rightarrow> 'a codec" where
  "f_codec f = \<lparr>marshal = (\<lambda>x. Some (fst f x)), unmarshal = (\<lambda>b _. (fst (snd f b), True))\<rparr>"

lemma codec_law_fld: "fld_ok f \<Longrightarrow> codec_law (f_codec f)"
  unfolding codec_law_def f_codec_def fld_ok_def by simp (metis append_Nil2 fst_conv)

text \<open>The structs a user sends.\<close>

definition f_Signature :: "Signature fld" where
  "f_Signature = f_as (\<lambda>s. (sig_Type s, sig_Data s)) (\<lambda>(t, d). \<lparr>sig_Type = t, sig_Data = d\<rparr>) (f_pair f_word f_bytes)"

definition f_OrderBase :: "OrderBase fld" where
  "f_OrderBase = f_as
     (\<lambda>b. (ob_UserID b, ob_ProID b, ob_Nonce b, ob_Start b, ob_End b, ob_TokenIndex b, ob_SegPrice b, ob_PiecePrice b))
     (\<lambda>(u, p, n, s, e, t, sp, pp). \<lparr>ob_UserID = u, ob_ProID = p, ob_Nonce = n, ob_Start = s, ob_End = e, ob_TokenIndex = t,
        ob_SegPrice = sp, ob_PiecePrice = pp\<rparr>)
     (f_pair f_word (f_pair f_word (f_pair f_word (f_pair f_word (f_pair f_word (f_pair f_word (f_pair f_price f_price)))))))"

definition f_SignedOrder :: "SignedOrder fld" where
  "f_SignedOrder = f_as (\<lambda>b. (so_OrderBase b, so_Size b, so_Price b, so_Usign b, so_Psign b))
     (\<lambda>(b, z, p, us, ps). \<lparr>so_OrderBase = b, so_Size = z, so_Price = p, so_Usign = us, so_Psign = ps\<rparr>)
     (f_pair f_OrderBase (f_pair f_word (f_pair f_price (f_pair f_Signature f_Signature))))"

definition f_AggSegs :: "AggSegs fld" where
  "f_AggSegs = f_as (\<lambda>a. (as_BucketID a, as_Start a, as_Length a, as_ChunkID a))
     (\<lambda>(b, s, l, c). \<lparr>as_BucketID = b, as_Start = s, as_Length = l, as_ChunkID = c\<rparr>) (f_pair f_word (f_pair f_word (f_pair f_word f_word)))"

definition f_OrderSeq :: "OrderSeq fld" where
  "f_OrderSeq = f_as (\<lambda>q. (os_UserID q, os_ProID q, os_Nonce q, os_SeqNum q, os_Size q, os_Price q, os_Segments q))
     (\<lambda>(u, p, n, k, z, pr, sg). \<lparr>os_UserID = u, os_ProID = p, os_Nonce = n, os_SeqNum = k, os_Size = z, os_Price = pr, os_Segments = sg\<rparr>)
     (f_pair f_word (f_pair f_word (f_pair f_word (f_pair f_word (f_pair f_word (f_pair f_price (f_list f_AggSegs)))))))"

definition f_SignedOrderSeq :: "SignedOrderSeq fld" where
  "f_SignedOrderSeq = f_as (\<lambda>q. (sos_OrderSeq q, sos_UserDataSig q, sos_ProDataSig q, sos_UserSig q, sos_ProSig q))
     (\<lambda>(q, a, b, c, d). \<lparr>sos_OrderSeq = q, sos_UserDataSig = a, sos_ProDataSig = b, sos_UserSig = c, sos_ProSig = d\<rparr>)
     (f_pair f_OrderSeq (f_pair f_Signature (f_pair f_Signature (f_pair f_Signature f_Signature))))"

definition f_OrderCommitParas :: "OrderCommitParas fld" where
  "f_OrderCommitParas = f_as (\<lambda>p. (ocp_UserID p, ocp_ProID p, ocp_Nonce p, ocp_SeqNum p))
     (\<lambda>(u, p, n, k). \<lparr>ocp_UserID = u, ocp_ProID = p, ocp_Nonce = n, ocp_SeqNum = k\<rparr>) (f_pair f_word (f_pair f_word (f_pair f_word f_word)))"

lemma fld_structs:
  "fld_ok f_Signature" "fld_ok f_OrderBase" "fld_ok f_SignedOrder" "fld_ok f_AggSegs" "fld_ok f_OrderSeq" "fld_ok f_SignedOrderSeq"
  "fld_ok f_OrderCommitParas"
proof -
  show sg: "fld_ok f_Signature"
    unfolding f_Signature_def by (intro fld_as fld_pair fld_word fld_bytes) simp
  show b: "fld_ok f_OrderBase"
    unfolding f_OrderBase_def by (intro fld_as fld_pair fld_word fld_price) simp
  show "fld_ok f_SignedOrder"
    unfolding f_SignedOrder_def by (intro fld_as fld_pair fld_word fld_price sg b) simp
  show a: "fld_ok f_AggSegs"
    unfolding f_AggSegs_def by (intro fld_as fld_pair fld_word) simp
  show q: "fld_ok f_OrderSeq"
    unfolding f_OrderSeq_def by (intro fld_as fld_pair fld_word fld_price fld_list a) simp
  show "fld_ok f_SignedOrderSeq"
    unfolding f_SignedOrderSeq_def by (intro fld_as fld_pair sg q) simp
  show "fld_ok f_OrderCommitParas"
    unfolding f_OrderCommitParas_def by (intro fld_as fld_pair fld_word) simp
qed

text \<open>Sorting by a strict weak order.\<close>

fun put_in :: "('a \<Rightarrow> 'a \<Rightarrow> bool) \<Rightarrow> 'a \<Rightarrow> 'a list \<Rightarrow> 'a list" where
  "put_in lt x [] = [x]"
| "put_in lt x (y # ys) = (if lt y x then y # put_in lt x ys else x # y # ys)"

lemma put_in_set: "set (put_in lt x ys) = insert x (set ys)" "length (put_in lt x ys) = Suc (length ys)"
  by (induction ys) auto

lemma put_in_sorted:
  assumes "\<And>x y. lt x y \<Longrightarrow> \<not> lt y x" and "\<And>x y z. \<not> lt x y \<Longrightarrow> \<not> lt y z \<Longrightarrow> \<not> lt x z"
  shows "sorted_wrt (\<lambda>x y. \<not> lt y x) ys \<Longrightarrow> sorted_wrt (\<lambda>x y. \<not> lt y x) (put_in lt x ys)"
  by (induction ys) (auto simp: put_in_set dest: assms)

lemma go_sort_put_in:
  assumes "\<And>x y. lt x y \<Longrightarrow> \<not> lt y x" and "\<And>x y z. \<not> lt x y \<Longrightarrow> \<not> lt y z \<Longrightarrow> \<not> lt x z"
  shows "go_sort lt (\<lambda>xs. foldr (put_in lt) xs [])"
proof -
  have "set (foldr (put_in lt) q []) = set q \<and> length (foldr (put_in lt) q []) = length q \<and> sorted_wrt (\<lambda>x y. \<not> lt y x) (foldr (put_in lt) q [])" for q
    by (induction q) (simp_all add: put_in_set put_in_sorted [of lt, OF assms])
  then show ?thesis
    by (simp add: go_sort_def)
qed

lemma sort_jobs: "go_sort SegJob_Less (\<lambda>xs. foldr (put_in SegJob_Less) xs [])"
  by (rule go_sort_put_in) (auto simp: SegJob_Less_def split: if_splits)

section \<open>A run\<close>

text \<open>User 5 stores two chunks with provider 6, who signs with the key 6.\<close>

definition ex_ulib :: lib where
  "ex_ulib = lib0\<lparr>lb_sigVerify := (\<lambda>k m d. Some (d \<noteq> [] \<and> d = k)), lb_cSignedOrder := f_codec f_SignedOrder,
     lb_cSignedOrderSeq := f_codec f_SignedOrderSeq, lb_cOrderCommitParas := f_codec f_OrderCommitParas\<rparr>"

definition konst_codec :: "'a codec" where
  "konst_codec = \<lparr>marshal = (\<lambda>_. Some []), unmarshal = (\<lambda>_ y. (y, False))\<rparr>"

definition ex_uenv :: uenv where
  "ex_uenv = \<lparr>ue_role = env0, ue_sortSegJobs = (\<lambda>xs. foldr (put_in SegJob_Less) xs []), ue_connectFail = (\<lambda>_. False),
     ue_net = (\<lambda>p _ _ _. Inr \<lparr>nr_Err = False, nr_From = p, nr_Info = [], nr_Sign = []\<rparr>), ue_cNonceState = konst_codec,
     ue_cSeqState = konst_codec, ue_cQuotation = konst_codec, ue_cSegJobs = konst_codec, ue_cSignature = konst_codec, ue_cPayInfo = konst_codec\<rparr>"

definition ex_unode :: UserNode where
  "ex_unode = \<lparr>un_localID = 5, un_fsID = replicate 20 1, un_ds = (\<lambda>_. None),
     un_data = \<lparr>dt_ds = (\<lambda>_. None), dt_segs = (\<lambda>_. Some ex_seg), dt_cache = (\<lambda>_. None), dt_rm = ex_rm, dt_pay = ex_sender\<rparr>,
     un_rm = \<lparr>rm_roleID = 5, rm_groupID = 1, rm_infos = [5 \<mapsto> zero_RoleInfo\<lparr>ri_RoleID := 5, ri_ChainVerifyKey := [5]\<rparr>,
       6 \<mapsto> zero_RoleInfo\<lparr>ri_RoleID := 6, ri_ChainVerifyKey := [6]\<rparr>], rm_users = [5], rm_keepers = [], rm_providers = [6], rm_ds = (\<lambda>_. None)\<rparr>,
     un_wl = \<lparr>wl_enable = False, wl_list = (\<lambda>_. False), wl_ds = (\<lambda>_. None)\<rparr>, un_clock = (\<lambda>_. 1000000), un_reads = 0,
     un_orderDur = of_int (100 * 86400), un_orderLast = 86400, un_seqLast = 10, un_segPrice = 10, un_opi = new_PayInfo,
     un_msgs = [], un_redo = [], un_sent = [], un_confirm = [], un_net = [], un_calls = []\<rparr>"

definition ex_psig :: Signature where "ex_psig = \<lparr>sig_Type = SigSecp256k1, sig_Data = [6]\<rparr>"

definition ex_ack :: SignedOrder where
  "ex_ack = zero_SignedOrder\<lparr>so_OrderBase := (so_OrderBase zero_SignedOrder)\<lparr>ob_ProID := 6\<rparr>, so_Psign := ex_psig\<rparr>"

definition ex_fin :: SignedOrderSeq where
  "ex_fin = zero_SignedOrderSeq\<lparr>sos_ProDataSig := ex_psig, sos_ProSig := ex_psig\<rparr>"

definition ex_job :: "u64 \<Rightarrow> SegJob" where
  "ex_job i = \<lparr>sj_JobID = 0, sj_BucketID = 1, sj_Start = i, sj_Length = 1, sj_ChunkID = 0\<rparr>"


lemma ex_io: "io_ok ex_ulib ex_uenv" and ex_sig: "sig_law ex_ulib"
  by (simp_all add: io_ok_def sig_law_def ex_ulib_def ex_uenv_def konst_codec_def codec_law_fld fld_structs sort_jobs) (simp_all add: f_codec_def)

text \<open>The instance of the provider during the run, and the node at one time.\<close>

definition ex_inst :: "i64 \<Rightarrow> userOrderState \<Rightarrow> SignedOrder option \<Rightarrow> u32 \<Rightarrow> userSeqState \<Rightarrow> SignedOrderSeq option \<Rightarrow> SegJob list \<Rightarrow> SegJob list \<Rightarrow> proInst" where
  "ex_inst t os b k ss sq sjq js = \<lparr>ui_localID = 5, ui_fsID = replicate 20 1, ui_location = [], ui_pro = 6, ui_availTime = t, ui_updateTime = 0,
     ui_nonce = (if os = UOrder_Running then 1 else 0), ui_seqNum = k, ui_prevEnd = (if os = UOrder_Running then 0 else 1000000), ui_opi = new_PayInfo, ui_base = b,
     ui_orderTime = 1000000, ui_orderState = os, ui_seq = sq, ui_seqTime = t, ui_seqState = ss, ui_sjq = sjq, ui_inflight = False, ui_buckets = [1],
     ui_jobs = [1 \<mapsto> js], ui_jobCnt = int (length js), ui_failCnt = 0, ui_failSent = 0, ui_ready = (ss \<noteq> USeq_Init), ui_inStop = False, ui_turn = 0,
     ui_sending = None\<rparr>"

definition ex_nd :: "i64 \<Rightarrow> Message list \<Rightarrow> UserNode" where
  "ex_nd t ms = ex_unode\<lparr>un_clock := (\<lambda>_. t), un_msgs := ms\<rparr>"

lemma ex_nd_fields [simp]:
  "un_msgs (ex_nd t ms) = ms" "un_clock (ex_nd t ms) = (\<lambda>_. t)" "un_orderLast (ex_nd t ms) = 86400" "un_seqLast (ex_nd t ms) = 10"
  "un_localID (ex_nd t ms) = 5" "un_segPrice (ex_nd t ms) = 10" "un_orderDur (ex_nd t ms) = 8640000"
  by (simp_all add: ex_nd_def ex_unode_def)

lemma ex_goes:
  assumes "user_reach ex_ulib ex_uenv 6 (o', ex_nd t ms)" and "\<And>s. user_reach ex_ulib ex_uenv 6 s \<Longrightarrow> s = (o', ex_nd t ms) \<Longrightarrow> user_reach ex_ulib ex_uenv 6 (snd (f s))"
    and "fst (snd (f (o', ex_nd t ms))) = o2" and "un_msgs (snd (snd (f (o', ex_nd t ms)))) = ms2"
  shows "user_reach ex_ulib ex_uenv 6 (o2, ex_nd t2 ms2)"
proof -
  obtain r o3 n3 where f: "f (o', ex_nd t ms) = (r, (o3, n3))"
    by (cases "f (o', ex_nd t ms)") (metis surj_pair)
  from assms(2) [OF assms(1) refl] have "user_reach ex_ulib ex_uenv 6 (o3, n3)"
    by (simp add: f)
  then show ?thesis
    by (rule user_reach.others [of _ _ _ _ n3, THEN back_subst [of "user_reach ex_ulib ex_uenv 6"]]) (use assms(3,4) in \<open>auto simp: f msgsTo_def\<close>)
qed

lemmas ex_step = bnd_def seq_def gets_def modify_def ret_def fail_def reject_def deref_def orErr_def zoom_def attempt_def dropErr_def updInst_def userNow_def
  un_put_def spawn_def pushOut_def Serialize_def Let_def

lemma ex_ulib_fields [simp]:
  "lb_putFail ex_ulib = (\<lambda>_ _. False)" "lb_sigVerify ex_ulib = (\<lambda>k m d. Some (d \<noteq> [] \<and> d = k))" "marshal (lb_cSignedOrder ex_ulib) x = Some (fst f_SignedOrder x)"
  "marshal (lb_cSignedOrderSeq ex_ulib) y = Some (fst f_SignedOrderSeq y)" "marshal (lb_cNonceSeq ex_ulib) z = None" "lb_sortAggSegs ex_ulib = insort_segs"
  by (simp_all add: ex_ulib_def f_codec_def)

lemma ex_uenv_fields [simp]:
  "ue_role ex_uenv = env0" "marshal (ue_cNonceState ex_uenv) x = Some []" "marshal (ue_cSeqState ex_uenv) y = Some []" "marshal (ue_cSegJobs ex_uenv) z = Some []"
  by (simp_all add: ex_uenv_def konst_codec_def)

definition ex_offered :: SignedOrder where
  "ex_offered = \<lparr>so_OrderBase = \<lparr>ob_UserID = 5, ob_ProID = 6, ob_Nonce = 0, ob_Start = 1000000, ob_End = 9676800, ob_TokenIndex = 0,
     ob_SegPrice = Some 2, ob_PiecePrice = Some 1\<rparr>, so_Size = 0, so_Price = Some 0, so_Usign = \<lparr>sig_Type = SigSecp256k1, sig_Data = [5]\<rparr>, so_Psign = zero_Signature\<rparr>"

lemma ex_started: "user_reach ex_ulib ex_uenv 6 (ex_inst 999699 UOrder_Init None 0 USeq_Init None [] [ex_job 0, ex_job 1]\<lparr>ui_orderTime := 0, ui_seqTime := 0\<rparr>, ex_nd 1000000 [])"
proof -
  have new: "user_reach ex_ulib ex_uenv 6 (new_proInst 5 (replicate 20 1) 6 1000000 1000000, ex_nd 1000000 [])"
    by (rule user_reach.fresh) (simp add: msgsTo_def)
  have one: "user_reach ex_ulib ex_uenv 6 (ex_inst 999699 UOrder_Init None 0 USeq_Init None [] [ex_job 0]\<lparr>ui_orderTime := 0, ui_seqTime := 0\<rparr>, ex_nd 1000000 [])"
    by (rule ex_goes [OF new, where f = "addSeg (ex_job 0)"], erule user_reach.job)
      (simp_all add: addSeg_def ex_step new_proInst_def ex_inst_def ex_job_def)
  show ?thesis
    by (rule ex_goes [OF one, where f = "addSeg (ex_job 1)"], erule user_reach.job)
      (simp_all add: addSeg_def ex_step ex_inst_def ex_job_def)
qed

lemma ex_urm: "rm_infos (un_rm (ex_nd t ms)) = [5 \<mapsto> zero_RoleInfo\<lparr>ri_RoleID := 5, ri_ChainVerifyKey := [5]\<rparr>, 6 \<mapsto> zero_RoleInfo\<lparr>ri_RoleID := 6, ri_ChainVerifyKey := [6]\<rparr>]"
  by (simp add: ex_nd_def ex_unode_def)

lemma ex_signs [simp]:
  "RoleSign ex_ulib env0 5 h SigSecp256k1 (un_rm (ex_nd t ms)) = (Inr \<lparr>sig_Type = SigSecp256k1, sig_Data = [5]\<rparr>, un_rm (ex_nd t ms))"
  "RoleVerify ex_ulib env0 6 h ex_psig (un_rm (ex_nd t ms)) = (Inr True, un_rm (ex_nd t ms))"
  by (simp_all add: RoleSign_def RoleVerify_def ex_psig_def keyTypeOf_def GetPubKey_def rm_get_def ex_urm ex_step)

lemmas ex_saves = userSaveOrderBase_def userSaveOrderState_def userSaveOrderSeq_def userSaveSeqState_def userSaveSeqJob_def

lemma ex_asked: "user_reach ex_ulib ex_uenv 6 (ex_inst 1000000 UOrder_Wait (Some ex_offered) 0 USeq_Init None [] [ex_job 0, ex_job 1]\<lparr>ui_seqTime := 0\<rparr>, ex_nd 1000000 [])"
  by (rule ex_goes [OF ex_started, where f = "instEvent ex_ulib ex_uenv (GotQuotation \<lparr>qm_ProID = 6, qm_TokenIndex = 0, qm_SegPrice = Some 2, qm_PiecePrice = Some 1\<rparr>)"],
      erule user_reach.event)
    (simp_all add: instEvent_def touch_def userCreateOrder_def userNewOrder_def offerOrder_def SignedOrder_Hash_def ex_step ex_saves ex_inst_def ex_offered_def
      orderEnd_def Day_def OrderMin_def OrderMax_def Hour_def)

abbreviation ex_running :: SignedOrder where
  "ex_running \<equiv> ex_offered\<lparr>so_Psign := ex_psig\<rparr>"

abbreviation ex_umsg :: "u32 \<Rightarrow> bytes \<Rightarrow> Message" where
  "ex_umsg meth data \<equiv> \<lparr>msg_Version = 0, msg_From = 5, msg_To = 6, msg_Nonce = 0, msg_Value = None, msg_GasLimit = 0, msg_GasPrice = None,
     msg_Method = meth, msg_Params = data\<rparr>"

lemma ex_opened: "user_reach ex_ulib ex_uenv 6 (ex_inst 1000000 UOrder_Running (Some ex_running) 0 USeq_Init None [] [ex_job 0, ex_job 1]\<lparr>ui_seqTime := 0\<rparr>,
    ex_nd 1000000 [ex_umsg PreDataOrder (fst f_SignedOrder ex_running)])"
  by (rule ex_goes [OF ex_asked, where f = "instEvent ex_ulib ex_uenv (GotOrder ex_ack)"], erule user_reach.event)
    (simp_all add: instEvent_def touch_def userRunOrder_def SignedOrder_Hash_def ex_step ex_saves ex_inst_def ex_offered_def ex_ack_def zero_SignedOrder_def zero_OrderBase_def)

text \<open>One more sequence with one chunk, from the ticker to the answer.\<close>

definition ex_seqOf :: "SignedOrder \<Rightarrow> int \<Rightarrow> u32 \<Rightarrow> SignedOrderSeq" where
  "ex_seqOf b p k = newSeq (ex_inst 0 UOrder_Running None k USeq_Init None [] []) b p"

definition ex_filled :: "SignedOrder \<Rightarrow> int \<Rightarrow> u32 \<Rightarrow> SegJob \<Rightarrow> SignedOrderSeq" where
  "ex_filled b p k j = (let sq = ex_seqOf b p k; sid = CreateSegmentID (replicate 20 1) 1 (sj_Start j) 0 in
     sq\<lparr>sos_OrderSeq := (sos_OrderSeq sq)\<lparr>os_Segments := [\<lparr>as_BucketID = GetBucketID sid, as_Start = GetStripeID sid, as_Length = 1, as_ChunkID = GetChunkID sid\<rparr>],
       os_Price := Some (p + 2), os_Size := so_Size b + DefaultSegSize\<rparr>\<rparr>)"

lemma ex_prepared:
  assumes "user_reach ex_ulib ex_uenv 6 (ex_inst t UOrder_Running (Some b) k USeq_Init sq0 sjq0 js\<lparr>ui_seqTime := x, ui_ready := r\<rparr>, ex_nd t ms)"
    and "sint (t - 1000000) \<le> 86400" and "js \<noteq> []" and "so_Price b = Some p"
  shows "user_reach ex_ulib ex_uenv 6 (ex_inst t UOrder_Running (Some b) (k + 1) USeq_Prepare (Some (ex_seqOf b p k)) [] js, ex_nd t ms)"
  by (rule ex_goes [OF assms(1), where f = "userCheck ex_ulib ex_uenv"], erule user_reach.tick)
    (use assms(2-4) in \<open>simp_all add: midway_def userCheck_def checkAvail_def checkReady_def checkState_def checkSeqState_def userCreateSeq_def announceSeq_def
      mergeSegs_def newSeq_def AggSegs_Merge_def SegJobs_Merge_def insort_segs_def ex_uenv_def konst_codec_def ex_seqOf_def ex_step ex_saves ex_inst_def minFailCnt_def\<close>)

lemma ex_sendable:
  assumes "user_reach ex_ulib ex_uenv 6 (ex_inst t UOrder_Running (Some b) k USeq_Prepare (Some sq) [] js, ex_nd t ms)"
  shows "user_reach ex_ulib ex_uenv 6 (ex_inst t UOrder_Running (Some b) k USeq_Send (Some sq) [] js, ex_nd t ms)"
  by (rule ex_goes [OF assms, where f = "instEvent ex_ulib ex_uenv (GotSeqNew 6 ex_fin)"], erule user_reach.event)
    (simp_all add: instEvent_def touch_def userSendSeq_def ex_step ex_saves ex_inst_def)

lemma ex_flying:
  assumes "user_reach ex_ulib ex_uenv 6 (ex_inst t UOrder_Running (Some b) k USeq_Send (Some (ex_seqOf b p k')) [] (j # js), ex_nd t ms)"
  shows "user_reach ex_ulib ex_uenv 6 (ex_inst t UOrder_Running (Some b) k USeq_Send (Some (ex_seqOf b p k')) [] (j # js)\<lparr>ui_inflight := True, ui_sending := Some (1, j)\<rparr>, ex_nd t ms)"
  by (rule ex_goes [OF assms, where f = "sendBegin True"], rule user_reach.send)
    (simp_all add: sendBegin_def canSend_def seqHas_def ex_seqOf_def newSeq_def ex_step ex_inst_def)

lemma ex_sent:
  assumes "user_reach ex_ulib ex_uenv 6 (ex_inst t UOrder_Running (Some b) k USeq_Send (Some (ex_seqOf b p k')) [] (ex_job i # js)\<lparr>ui_inflight := True, ui_sending := Some (1, ex_job i)\<rparr>, ex_nd t ms)"
    and "ob_SegPrice (so_OrderBase b) = Some 2"
  shows "user_reach ex_ulib ex_uenv 6 (ex_inst t UOrder_Running (Some b) k USeq_Send (Some (ex_filled b p k' (ex_job i))) [ex_job i] js, ex_nd t2 ms)"
  by (rule ex_goes [OF assms(1), where f = "sendEnd ex_ulib ex_uenv"], erule user_reach.answered)
    (use assms(2) in \<open>simp_all add: sendEnd_def chunkSent_def pushChunk_def popJob_def landed_def tellSent_def sendText_def NewSegmentID_def FSID_LEN_def
      GetSegmentLocation_def GetSegmentFromLocal_def ex_nd_def ex_unode_def AggSegs_Push_def AggSegs_Merge_def SegJobs_Push_def SegJobs_Merge_def insort_segs_def
      ex_filled_def ex_seqOf_def newSeq_def ex_job_def ex_step ex_saves ex_inst_def ex_uenv_def konst_codec_def\<close>)

lemma ex_more:
  assumes "user_reach ex_ulib ex_uenv 6 (ex_inst t UOrder_Running (Some b) k USeq_Init sq0 sjq0 (ex_job i # js)\<lparr>ui_seqTime := x, ui_ready := r\<rparr>, ex_nd t ms)"
    and "sint (t - 1000000) \<le> 86400" and "so_Price b = Some p" and "ob_SegPrice (so_OrderBase b) = Some 2"
  shows "user_reach ex_ulib ex_uenv 6 (ex_inst t UOrder_Running (Some b) (k + 1) USeq_Send (Some (ex_filled b p k (ex_job i))) [ex_job i] js, ex_nd t2 ms)"
  by (rule ex_sent [OF ex_flying [OF ex_sendable [OF ex_prepared [OF assms(1,2) _ assms(3)]]] assms(4)]) simp

text \<open>The end of the first sequence: the ticker commits it, signs it, and the provider signs.\<close>

abbreviation ex_first :: SignedOrderSeq where
  "ex_first \<equiv> ex_filled ex_running 0 0 (ex_job 0)"

abbreviation ex_usig :: Signature where
  "ex_usig \<equiv> \<lparr>sig_Type = SigSecp256k1, sig_Data = [5]\<rparr>"

abbreviation ex_grown :: SignedOrder where
  "ex_grown \<equiv> ex_running\<lparr>so_Size := DefaultSegSize, so_Price := Some 2\<rparr>"

abbreviation ex_done :: SignedOrderSeq where
  "ex_done \<equiv> ex_first\<lparr>sos_UserDataSig := ex_usig, sos_UserSig := ex_usig, sos_ProDataSig := ex_psig, sos_ProSig := ex_psig\<rparr>"

abbreviation ex_pushed :: "Message list" where
  "ex_pushed \<equiv> [ex_umsg PreDataOrder (fst f_SignedOrder ex_running), ex_umsg AddDataOrder (fst f_SignedOrderSeq ex_done)]"

lemmas ex_check = userCheck_def checkAvail_def checkReady_def checkState_def checkSeqState_def userCommitSeq_def minFailCnt_def defaultAckWaiting_def

lemma ex_committing: "user_reach ex_ulib ex_uenv 6 (ex_inst 1000000 UOrder_Running (Some ex_running) 1 USeq_Commit (Some ex_first) [ex_job 0] [ex_job 1]\<lparr>ui_seqTime := 1000040\<rparr>,
    ex_nd 1000080 [ex_umsg PreDataOrder (fst f_SignedOrder ex_running)])"
proof -
  have "user_reach ex_ulib ex_uenv 6 (ex_inst 1000000 UOrder_Running (Some ex_running) (0 + 1) USeq_Send (Some ex_first) [ex_job 0] [ex_job 1],
      ex_nd 1000040 [ex_umsg PreDataOrder (fst f_SignedOrder ex_running)])"
    by (rule ex_more [where r = False and x = 0], rule ex_opened [THEN back_subst [of "user_reach ex_ulib ex_uenv 6"]]) (simp_all add: ex_inst_def ex_offered_def)
  then show ?thesis
    by (rule ex_goes [where f = "userCheck ex_ulib ex_uenv"], elim user_reach.tick)
      (simp_all add: midway_def ex_check ex_step ex_inst_def ex_offered_def)
qed

lemma ex_signing: "user_reach ex_ulib ex_uenv 6 (ex_inst 1000000 UOrder_Running (Some ex_grown) 1 USeq_Commit (Some (ex_first\<lparr>sos_UserDataSig := ex_usig, sos_UserSig := ex_usig\<rparr>))
     [ex_job 0] [ex_job 1]\<lparr>ui_seqTime := 1000080, ui_failCnt := 1\<rparr>, ex_nd 1000080 [ex_umsg PreDataOrder (fst f_SignedOrder ex_running)])"
  by (rule ex_goes [OF ex_committing, where f = "userCheck ex_ulib ex_uenv"], elim user_reach.tick)
    (simp_all add: midway_def ex_check signSeq_def userSignHash_def mergeSegs_def SignedOrder_Hash_def AggSegs_Merge_def insort_segs_def
      ex_filled_def ex_seqOf_def newSeq_def ex_step ex_saves ex_inst_def ex_offered_def)

lemma ex_ufinished: "user_reach ex_ulib ex_uenv 6 (ex_inst 1000080 UOrder_Running (Some ex_grown) 1 USeq_Init (Some ex_done) [ex_job 0] [ex_job 1]\<lparr>ui_seqTime := 1000080, ui_ready := True\<rparr>,
    ex_nd 1000080 ex_pushed)"
  by (rule ex_goes [OF ex_signing, where f = "instEvent ex_ulib ex_uenv (GotSeqFinish 6 ex_fin)"], rule user_reach.event)
    (simp_all add: signed_def instEvent_def touch_def userFinishSeq_def verifyPro_def recordFinish_def SignedOrder_Hash_def ex_fin_def
      ex_filled_def ex_seqOf_def newSeq_def zero_Signature_def ex_step ex_saves ex_inst_def ex_offered_def)

definition ex_umid :: "proInst \<times> UserNode" where
  "ex_umid = (ex_inst 1000080 UOrder_Running (Some ex_grown) 2 USeq_Send (Some (ex_filled ex_grown 2 1 (ex_job 1))) [ex_job 1] [], ex_nd 1000080 ex_pushed)"

lemma ex_midway: "user_reach ex_ulib ex_uenv 6 ex_umid"
  using ex_more [OF ex_ufinished] by (simp add: ex_offered_def ex_umid_def)

section \<open>Properties\<close>





end
