(* ===== verification/Bls.thy ===== *)
theory Bls
  imports Segment
begin

text \<open>
  The curve layer \<open>lib/crypto/bls12_381\<close> (build without the tag \<open>herumi\<close>): scalars, the two groups,
  the evaluation of polynomials and the BLS signatures of \<open>sign_kilic.go\<close>.

  The third-party package \<open>kilic/bls12-381\<close> and the hash \<open>blake3\<close> are the record \<open>curve\<close>.  A scalar in
  Montgomery form is a value of a commutative ring, a point a value of an abelian group, so that
  \<open>FrAddMod\<close>, \<open>FrSubMod\<close>, \<open>FrMulMod\<close>, \<open>G1Add\<close>, \<open>G1Sub\<close> and \<open>G2Sub\<close> are its operations and the zero value of
  a Go variable is \<open>0\<close>.  \<open>curve_law\<close> states what the package documents: scalar multiplication is a
  module, \<open>MultiExp\<close> is the sum of the products, the encodings are read back, every point is a multiple
  of the generator, and the pairing check compares the products of the exponents.
\<close>

section \<open>The curve package\<close>

record ('f, 'p, 'q) curve =
  bl_red :: "bytes \<Rightarrow> 'f"
  bl_unred :: "'f \<Rightarrow> bytes"
  bl_one1 :: 'p
  bl_one2 :: 'q
  bl_mul1 :: "'p \<Rightarrow> 'f \<Rightarrow> 'p"
  bl_mul2 :: "'q \<Rightarrow> 'f \<Rightarrow> 'q"
  bl_exp1 :: "'p list \<Rightarrow> 'f list \<Rightarrow> 'p"
  bl_comp1 :: "'p \<Rightarrow> bytes"
  bl_decomp1 :: "bytes \<Rightarrow> 'p option"
  bl_comp2 :: "'q \<Rightarrow> bytes"
  bl_decomp2 :: "bytes \<Rightarrow> 'q option"
  bl_check :: "'p \<Rightarrow> 'q \<Rightarrow> 'p \<Rightarrow> 'q \<Rightarrow> bool"
  bl_sum256 :: "bytes \<Rightarrow> bytes"
  bl_fromBytes :: "bytes \<Rightarrow> 'f"
  bl_belowOrder :: "'f \<Rightarrow> bool"
  bl_hashTo2 :: "bytes \<Rightarrow> 'q option"

definition G1Size :: nat where "G1Size = 48"
definition G2Size :: nat where "G2Size = 96"
definition FrSize :: nat where "FrSize = 32"

section \<open>Scalars and points\<close>

text \<open>\<open>FrFromBytes\<close>: at most 32 bytes, little-endian; the package reads big-endian.\<close>

definition FrFromBytes :: "('f, 'p, 'q) curve \<Rightarrow> bytes \<Rightarrow> err + 'f" where
  "FrFromBytes B v =
     (if length v > 32 then Inl (Err ''invalid Fr'') else Inr (bl_red B (rev (copy_into 32 v))))"

text \<open>A call whose error is dropped leaves the destination as it was.\<close>

definition frSet :: "('f, 'p, 'q) curve \<Rightarrow> 'f \<Rightarrow> bytes \<Rightarrow> 'f" where
  "frSet B dst v = (case FrFromBytes B v of Inl _ \<Rightarrow> dst | Inr x \<Rightarrow> x)"

definition FrToBytes :: "('f, 'p, 'q) curve \<Rightarrow> 'f \<Rightarrow> bytes" where
  "FrToBytes B x = copy_into 32 (rev (bl_unred B x))"

definition AddFr :: "('f :: comm_ring_1, 'p, 'q) curve \<Rightarrow> bytes \<Rightarrow> bytes \<Rightarrow> bytes" where
  "AddFr B a b = FrToBytes B (frSet B 0 a + frSet B 0 b)"

definition SubFr :: "('f :: comm_ring_1, 'p, 'q) curve \<Rightarrow> bytes \<Rightarrow> bytes \<Rightarrow> bytes" where
  "SubFr B a b = FrToBytes B (frSet B 0 a - frSet B 0 b)"

text \<open>\<open>ValidFr\<close> compares the 32 little-endian bytes with the modulus, eight bytes at a time.\<close>

definition le64 :: "nat \<Rightarrow> bytes \<Rightarrow> nat" where
  "le64 off v = un_be (rev (take 8 (drop off v)))"

definition ValidFr :: "bytes \<Rightarrow> bool" where
  "ValidFr v =
     (if v ! 31 = 0 then True
      else if le64 24 v > 0x73eda753299d7d48 then False
      else if le64 24 v < 0x73eda753299d7d48 then True
      else if le64 16 v > 0x3339d80809a1d805 then False
      else if le64 16 v < 0x3339d80809a1d805 then True
      else if le64 8 v > 0x53bda402fffe5bfe then False
      else if le64 8 v < 0x53bda402fffe5bfe then True
      else le64 0 v \<le> 0xffffffff00000000)"

definition ValidFrBytes :: "bytes \<Rightarrow> bool" where
  "ValidFrBytes v = (if length v \<noteq> 32 then False else ValidFr v)"

text \<open>\<open>EvalPolyAtUnoptimized\<close>: Horner's method from the last coefficient down.\<close>

fun horner :: "'f :: comm_ring_1 \<Rightarrow> 'f \<Rightarrow> 'f list \<Rightarrow> 'f" where
  "horner x acc [] = acc"
| "horner x acc (c # cs) = horner x (acc * x + c) cs"

definition EvalPolyAt :: "'f :: comm_ring_1 list \<Rightarrow> 'f \<Rightarrow> 'f" where
  "EvalPolyAt coeffs x =
     (if coeffs = [] then 0 else if x = 0 then hd coeffs
      else horner x (last coeffs) (rev (butlast coeffs)))"

text \<open>\<open>G1MulVec\<close> panics when the two slices differ in length.\<close>

definition G1MulVec :: "('f, 'p, 'q) curve \<Rightarrow> 'p list \<Rightarrow> 'f list \<Rightarrow> ('s, 'p) go" where
  "G1MulVec B numbers factors =
     (if length numbers \<noteq> length factors then fail (Panic ''got G1MulVec numbers/factors length mismatch'')
      else ret (bl_exp1 B numbers factors))"

text \<open>Deserialisation into an existing point; where the error is dropped the point stays.\<close>

definition g1Set :: "('f, 'p, 'q) curve \<Rightarrow> 'p \<Rightarrow> bytes \<Rightarrow> 'p" where
  "g1Set B dst v = (case bl_decomp1 B v of None \<Rightarrow> dst | Some p \<Rightarrow> p)"

definition g2Set :: "('f, 'p, 'q) curve \<Rightarrow> 'q \<Rightarrow> bytes \<Rightarrow> 'q" where
  "g2Set B dst v = (case bl_decomp2 B v of None \<Rightarrow> dst | Some p \<Rightarrow> p)"

definition G1Deserialize :: "('f, 'p, 'q) curve \<Rightarrow> bytes \<Rightarrow> ('s, 'p) go" where
  "G1Deserialize B v = orErr ''decompress'' (bl_decomp1 B v)"

text \<open>Slicing and indexing of Go; a slice made by \<open>make\<close> has no spare capacity.\<close>

definition sliceTo :: "'a list \<Rightarrow> nat \<Rightarrow> ('s, 'a list) go" where
  "sliceTo xs n = (if n > length xs then fail (Panic ''slice bounds out of range'') else ret (take n xs))"

definition at_index :: "'a list \<Rightarrow> int \<Rightarrow> ('s, 'a) go" where
  "at_index xs i = (if i < 0 \<or> int (length xs) \<le> i then fail (Panic ''index out of range'') else ret (xs ! nat i))"

section \<open>Signatures\<close>

definition SecretKeySize :: nat where "SecretKeySize = 32"
definition PublicKeySize :: nat where "PublicKeySize = 48"
definition BlsSignatureSize :: nat where "BlsSignatureSize = 96"

definition infinitePoint :: "nat \<Rightarrow> bytes" where
  "infinitePoint n = 0xc0 # replicate (n - 1) 0"

definition checkSecret :: "('f, 'p, 'q) curve \<Rightarrow> bytes \<Rightarrow> ('s, 'f) go" where
  "checkSecret B sk =
     seq (reject (length sk \<noteq> SecretKeySize) ''invalid bls secret key size'')
     (seq (reject (replicate SecretKeySize 0 = sk) ''zero secret key'')
     (seq (reject (\<not> bl_belowOrder B (bl_fromBytes B sk)) ''invalid bls secret key'')
        (ret (bl_fromBytes B sk))))"

definition BlsPublicKey :: "('f, 'p, 'q) curve \<Rightarrow> bytes \<Rightarrow> ('s, bytes) go" where
  "BlsPublicKey B sk = bnd (checkSecret B sk) (\<lambda>k. ret (bl_comp1 B (bl_mul1 B (bl_one1 B) k)))"

definition BlsSign :: "('f, 'p, 'q) curve \<Rightarrow> bytes \<Rightarrow> bytes \<Rightarrow> ('s, bytes) go" where
  "BlsSign B sk msg =
     bnd (checkSecret B sk) (\<lambda>k.
     bnd (orErr ''hash to curve'' (bl_hashTo2 B msg)) (\<lambda>m.
       ret (bl_comp2 B (bl_mul2 B m k))))"

text \<open>\<open>e.AddPair(pk, M); e.AddPairInv(One, sign)\<close> is the pairing check of the generator and the signature
  against the key and the message.\<close>

definition BlsVerify :: "('f, 'p, 'q) curve \<Rightarrow> bytes \<Rightarrow> bytes \<Rightarrow> bytes \<Rightarrow> ('s, unit) go" where
  "BlsVerify B pub msg sig =
     seq (reject (length pub \<noteq> PublicKeySize) ''invalid bls public key size'')
     (seq (reject (replicate PublicKeySize 0 = pub) ''zero public key'')
     (seq (reject (infinitePoint PublicKeySize = pub) ''infinite public key'')
     (bnd (G1Deserialize B pub) (\<lambda>pk.
      seq (reject (length sig \<noteq> BlsSignatureSize) ''invalid bls signature size'')
     (seq (reject (replicate BlsSignatureSize 0 = sig) ''zero bls signature'')
     (seq (reject (infinitePoint BlsSignatureSize = sig) ''infinite bls signature'')
     (bnd (orErr ''decompress'' (bl_decomp2 B sig)) (\<lambda>s.
      bnd (orErr ''hash to curve'' (bl_hashTo2 B msg)) (\<lambda>m.
        reject (\<not> bl_check B (bl_one1 B) s pk m) ''invalid bls signature'')))))))))"

fun sumPoints :: "(bytes \<Rightarrow> 'g :: ab_group_add option) \<Rightarrow> 'g \<Rightarrow> bytes list \<Rightarrow> ('s, 'g) go" where
  "sumPoints dec acc [] = ret acc"
| "sumPoints dec acc (b # bs) = bnd (orErr ''decompress'' (dec b)) (\<lambda>p. sumPoints dec (acc + p) bs)"

definition AggregateSignature :: "('f, 'p, 'q :: ab_group_add) curve \<Rightarrow> bytes list \<Rightarrow> ('s, bytes) go" where
  "AggregateSignature B sigs = (case sigs of
      [] \<Rightarrow> fail (Err ''zero public key'')
    | s # ss \<Rightarrow> bnd (orErr ''decompress'' (bl_decomp2 B s)) (\<lambda>a.
        bnd (sumPoints (bl_decomp2 B) a ss) (\<lambda>r. ret (bl_comp2 B r))))"

definition AggregatePublicKey :: "('f, 'p :: ab_group_add, 'q) curve \<Rightarrow> bytes list \<Rightarrow> ('s, bytes) go" where
  "AggregatePublicKey B pks = (case pks of
      [] \<Rightarrow> fail (Err ''zero public key'')
    | p # ps \<Rightarrow> bnd (orErr ''decompress'' (bl_decomp1 B p)) (\<lambda>a.
        bnd (sumPoints (bl_decomp1 B) a ps) (\<lambda>r. ret (bl_comp1 B r))))"

section \<open>What the package documents\<close>

definition curve_law :: "('f :: comm_ring_1, 'p :: ab_group_add, 'q :: ab_group_add) curve \<Rightarrow> bool" where
  "curve_law B \<longleftrightarrow>
     (\<forall>x. bl_red B (bl_unred B x) = x \<and> length (bl_unred B x) = 32) \<and>
     (\<forall>p a b. bl_mul1 B p (a + b) = bl_mul1 B p a + bl_mul1 B p b \<and> bl_mul1 B (bl_mul1 B p a) b = bl_mul1 B p (a * b)) \<and>
     (\<forall>p p' a. bl_mul1 B (p + p') a = bl_mul1 B p a + bl_mul1 B p' a) \<and>
     (\<forall>q a b. bl_mul2 B q (a + b) = bl_mul2 B q a + bl_mul2 B q b \<and> bl_mul2 B (bl_mul2 B q a) b = bl_mul2 B q (a * b)) \<and>
     (\<forall>q q' a. bl_mul2 B (q + q') a = bl_mul2 B q a + bl_mul2 B q' a) \<and>
     (\<forall>p. bl_mul1 B p 1 = p) \<and> (\<forall>q. bl_mul2 B q 1 = q) \<and>
     (\<forall>ps fs. length ps = length fs \<longrightarrow> bl_exp1 B ps fs = sum_list (map (\<lambda>(p, f). bl_mul1 B p f) (zip ps fs))) \<and>
     (\<forall>p. bl_decomp1 B (bl_comp1 B p) = Some p \<and> length (bl_comp1 B p) = 48) \<and>
     (\<forall>q. bl_decomp2 B (bl_comp2 B q) = Some q \<and> length (bl_comp2 B q) = 96) \<and>
     (\<forall>p. \<exists>a. p = bl_mul1 B (bl_one1 B) a) \<and> (\<forall>q. \<exists>a. q = bl_mul2 B (bl_one2 B) a) \<and>
     (\<forall>a b c d. bl_check B (bl_mul1 B (bl_one1 B) a) (bl_mul2 B (bl_one2 B) b) (bl_mul1 B (bl_one1 B) c) (bl_mul2 B (bl_one2 B) d) \<longleftrightarrow> a * b = c * d) \<and>
     (\<forall>b. length (bl_sum256 B b) = 32)"

text \<open>An instance on 64-bit numbers: points are their own exponents.\<close>

definition word_curve :: "(u64, u64, u64) curve" where
  "word_curve = \<lparr>bl_red = (\<lambda>b. of_nat (un_be b)), bl_unred = (\<lambda>x. be 32 (unat x)), bl_one1 = 1, bl_one2 = 1,
     bl_mul1 = (*), bl_mul2 = (*), bl_exp1 = (\<lambda>ps fs. sum_list (map (\<lambda>(p, f). p * f) (zip ps fs))),
     bl_comp1 = (\<lambda>p. be 48 (unat p)), bl_decomp1 = (\<lambda>b. if length b = 48 then Some (of_nat (un_be b)) else None),
     bl_comp2 = (\<lambda>p. be 96 (unat p)), bl_decomp2 = (\<lambda>b. if length b = 96 then Some (of_nat (un_be b)) else None),
     bl_check = (\<lambda>a b c d. a * b = c * d), bl_sum256 = (\<lambda>b. be 32 (un_be b)),
     bl_fromBytes = (\<lambda>b. of_nat (un_be b)), bl_belowOrder = (\<lambda>x. True), bl_hashTo2 = (\<lambda>b. Some (of_nat (un_be b)))\<rparr>"

lemma of_nat_un_be: "8 \<le> n \<Longrightarrow> of_nat (un_be (be n (unat (x :: u64)))) = x"
proof -
  assume n: "8 \<le> n"
  have "unat x < 256 ^ 8"
    using unsigned_less [of x, where 'a = nat] by simp
  also have "\<dots> \<le> 256 ^ n"
    using n by (intro power_increasing) auto
  finally show ?thesis
    by (simp add: un_be_be)
qed

lemma word_curve_law: "curve_law word_curve"
  by (auto simp: curve_law_def word_curve_def of_nat_un_be algebra_simps)

section \<open>Consequences of the laws\<close>

text \<open>The reference evaluation: the sum of the coefficients times the powers, from the low end.\<close>

fun peval :: "'f :: comm_ring_1 list \<Rightarrow> 'f \<Rightarrow> 'f" where
  "peval [] x = 0"
| "peval (c # cs) x = c + x * peval cs x"

lemma peval_snoc: "peval (cs @ [c]) x = peval cs x + c * x ^ length cs"
  by (induction cs) (auto simp: algebra_simps)

lemma horner_peval: "horner x acc cs = peval (rev cs) x + acc * x ^ length cs"
  by (induction cs arbitrary: acc) (auto simp: peval_snoc algebra_simps)

lemma EvalPolyAt_peval: "EvalPolyAt cs x = peval cs x"
proof (cases "cs = [] \<or> x = 0")
  case True
  then show ?thesis
    by (cases cs) (auto simp: EvalPolyAt_def)
next
  case False
  then have "peval (butlast cs @ [last cs]) x = EvalPolyAt cs x"
    unfolding peval_snoc by (simp add: EvalPolyAt_def horner_peval)
  then show ?thesis
    using False by simp
qed

lemma peval_zeros [simp]: "peval (replicate n 0) x = 0"
  by (induction n) auto

lemma peval_add: "length as = length bs \<Longrightarrow> peval (map2 (+) as bs) x = peval as x + peval bs x"
  by (induction as bs rule: list_induct2) (auto simp: algebra_simps)

lemma peval_append_zeros [simp]: "peval (cs @ replicate n 0) x = peval cs x"
  by (induction cs) auto

lemma curve_lawD:
  fixes B :: "('f :: comm_ring_1, 'p :: ab_group_add, 'q :: ab_group_add) curve"
  assumes "curve_law B"
  shows "bl_red B (bl_unred B x) = x" "length (bl_unred B x) = 32"
    "bl_mul1 B p (a + b) = bl_mul1 B p a + bl_mul1 B p b" "bl_mul1 B (bl_mul1 B p a) b = bl_mul1 B p (a * b)"
    "bl_mul1 B (p + p') a = bl_mul1 B p a + bl_mul1 B p' a"
    "bl_mul2 B q (a + b) = bl_mul2 B q a + bl_mul2 B q b" "bl_mul2 B (bl_mul2 B q a) b = bl_mul2 B q (a * b)"
    "bl_mul2 B (q + q') a = bl_mul2 B q a + bl_mul2 B q' a"
    "bl_mul1 B p 1 = p" "bl_mul2 B q 1 = q"
    "bl_decomp1 B (bl_comp1 B p) = Some p" "length (bl_comp1 B p) = 48"
    "bl_decomp2 B (bl_comp2 B q) = Some q" "length (bl_comp2 B q) = 96"
    "bl_check B (bl_mul1 B (bl_one1 B) a) (bl_mul2 B (bl_one2 B) b) (bl_mul1 B (bl_one1 B) c) (bl_mul2 B (bl_one2 B) d) \<longleftrightarrow> a * b = c * d"
    "length (bl_sum256 B m) = 32"
  by (simp_all add: assms [unfolded curve_law_def])

lemma mul1_zero: "curve_law B \<Longrightarrow> bl_mul1 B p 0 = 0"
  using curve_lawD(3) [of B p 0 0] by simp

lemma mul1_diff: "curve_law B \<Longrightarrow> bl_mul1 B p (a - b) = bl_mul1 B p a - bl_mul1 B p b"
  using curve_lawD(3) [of B p "a - b" b] by (simp add: algebra_simps)

lemma mul2_diff: "curve_law B \<Longrightarrow> bl_mul2 B p (a - b) = bl_mul2 B p a - bl_mul2 B p b"
  using curve_lawD(6) [of B p "a - b" b] by (simp add: algebra_simps)

lemma exponent1: "curve_law B \<Longrightarrow> \<exists>a. p = bl_mul1 B (bl_one1 B) a"
  and exponent2: "curve_law B \<Longrightarrow> \<exists>a. q = bl_mul2 B (bl_one2 B) a"
  and exp1_sum: "curve_law B \<Longrightarrow> length ps = length fs \<Longrightarrow> bl_exp1 B ps fs = sum_list (map (\<lambda>(p, f). bl_mul1 B p f) (zip ps fs))"
  unfolding curve_law_def by blast+

text \<open>The exponent of a point is unique, because the pairing check tells two exponents apart.\<close>

lemma mul1_inject:
  assumes "curve_law B" and "bl_mul1 B (bl_one1 B) a = bl_mul1 B (bl_one1 B) b"
  shows "a = b"
  using curve_lawD(15) [OF assms(1), of a 1 b 1] curve_lawD(15) [OF assms(1), of b 1 b 1] assms(2) by simp

lemma mul2_inject:
  assumes "curve_law B" and "bl_mul2 B (bl_one2 B) a = bl_mul2 B (bl_one2 B) b"
  shows "a = b"
  using curve_lawD(15) [OF assms(1), of 1 a 1 b] curve_lawD(15) [OF assms(1), of 1 b 1 b] assms(2) by simp

text \<open>The powers of a number in the exponents evaluate a polynomial at it.\<close>

definition powers_of :: "('f :: comm_ring_1, 'p, 'q) curve \<Rightarrow> 'f \<Rightarrow> nat \<Rightarrow> 'p list" where
  "powers_of B x n = map (\<lambda>i. bl_mul1 B (bl_one1 B) (x ^ i)) [0..<n]"

lemma sum_powers:
  assumes "curve_law B"
  shows "sum_list (map (\<lambda>(p, f). bl_mul1 B p f) (zip (map (\<lambda>i. bl_mul1 B (bl_one1 B) (x ^ i)) [k..<k + length cs]) cs))
    = bl_mul1 B (bl_one1 B) (x ^ k * peval cs x)"
proof (induction cs arbitrary: k)
  case Nil
  then show ?case
    by (simp add: mul1_zero [OF assms])
next
  case (Cons c cs)
  have "[k..<k + length (c # cs)] = k # [Suc k..<Suc k + length cs]"
    by (simp add: upt_conv_Cons del: upt_Suc)
  then show ?case
    using Cons.IH [of "Suc k"] by (simp add: curve_lawD(3,4) [OF assms] algebra_simps del: upt_Suc)
qed

lemma exp_powers:
  assumes "curve_law B" and "n = length cs"
  shows "bl_exp1 B (powers_of B x n) cs = bl_mul1 B (bl_one1 B) (peval cs x)"
  using sum_powers [OF assms(1), of x 0 cs] exp1_sum [OF assms(1), of "powers_of B x n" cs] assms(2)
  by (simp add: powers_of_def)

text \<open>Scalars are read back from their bytes.\<close>

lemma length_FrToBytes [simp]: "length (FrToBytes B x) = 32"
  by (simp add: FrToBytes_def)

lemma FrFromBytes_ToBytes: "curve_law B \<Longrightarrow> FrFromBytes B (FrToBytes B x) = Inr x"
  by (simp add: FrFromBytes_def FrToBytes_def copy_into_id curve_lawD)

lemma frSet_ToBytes: "curve_law B \<Longrightarrow> frSet B d (FrToBytes B x) = x"
  by (simp add: frSet_def FrFromBytes_ToBytes)

lemma frSet_any: "length v \<le> 32 \<Longrightarrow> frSet B d v = frSet B 0 v"
  by (simp add: frSet_def FrFromBytes_def)

lemma AddFr_SubFr:
  assumes "curve_law B"
  shows "SubFr B (AddFr B a b) b = FrToBytes B (frSet B 0 a)"
  by (simp add: AddFr_def SubFr_def frSet_ToBytes [OF assms])

text \<open>Horner's loop, the comparison with the modulus and the slices.\<close>

lemma sliceTo_run [simp]: "n \<le> length xs \<Longrightarrow> sliceTo xs n s = (Inr (take n xs), s)"
  by (simp add: sliceTo_def)

lemma at_index_run [simp]: "i < length xs \<Longrightarrow> at_index xs (int i) s = (Inr (xs ! i), s)"
  by (simp add: at_index_def)

lemma G1MulVec_run [simp]: "length ps = length fs \<Longrightarrow> G1MulVec B ps fs s = (Inr (bl_exp1 B ps fs), s)"
  by (simp add: G1MulVec_def)

lemma take_powers: "m \<le> n \<Longrightarrow> take m (powers_of B x n) = powers_of B x m"
  by (simp add: powers_of_def take_map)

lemma length_powers [simp]: "length (powers_of B x n) = n"
  by (simp add: powers_of_def)

lemma un_be_append: "un_be (xs @ ys) = un_be xs * 256 ^ length ys + un_be ys"
proof (induction ys rule: rev_induct)
  case (snoc y ys)
  then show ?case
    by (simp add: algebra_simps flip: append_assoc)
qed simp

lemma un_be_bound: "un_be xs < 256 ^ length xs"
proof (induction xs rule: rev_induct)
  case (snoc x xs)
  then show ?case
    using unsigned_less [of x, where 'a = nat] by simp
qed simp

text \<open>The comparison by words is the comparison of the number with the modulus.\<close>

definition modulus :: nat where
  "modulus = 0x73eda753299d7d483339d80809a1d80553bda402fffe5bfeffffffff00000001"

lemma le64_split:
  assumes "length v = 32"
  shows "un_be (rev v) = ((le64 24 v * 2 ^ 64 + le64 16 v) * 2 ^ 64 + le64 8 v) * 2 ^ 64 + le64 0 v"
proof -
  have v: "v = take 8 v @ take 8 (drop 8 v) @ take 8 (drop 16 v) @ take 8 (drop 24 v)"
    using append_take_drop_id [of 8 v] append_take_drop_id [of 8 "drop 8 v"] append_take_drop_id [of 8 "drop 16 v"] assms
    by simp
  have "un_be (rev v) = un_be (rev (take 8 (drop 24 v)) @ rev (take 8 (drop 16 v)) @ rev (take 8 (drop 8 v)) @ rev (take 8 v))"
    by (subst v) simp
  then show ?thesis
    using assms by (simp add: le64_def un_be_append algebra_simps)
qed

lemma le64_bound: "le64 k v < 2 ^ 64"
proof -
  have "le64 k v < 256 ^ length (take 8 (drop k v))"
    unfolding le64_def using un_be_bound [of "rev (take 8 (drop k v))"] by simp
  also have "\<dots> \<le> 256 ^ 8"
    by (intro power_increasing) auto
  finally show ?thesis
    by simp
qed

lemma le64_top:
  assumes "length v = 32" and "v ! 31 = 0"
  shows "le64 24 v < 2 ^ 56"
proof -
  have "take 8 (drop 24 v) = take 7 (drop 24 v) @ [v ! 31]"
    using assms(1) take_Suc_conv_app_nth [of 7 "drop 24 v"] by simp
  then have "le64 24 v = un_be ([v ! 31] @ rev (take 7 (drop 24 v)))"
    by (simp add: le64_def)
  also have "\<dots> = un_be (rev (take 7 (drop 24 v)))"
    using assms(2) by (subst un_be_append) (simp add: un_be_def)
  also have "\<dots> < 256 ^ 7"
    using un_be_bound [of "rev (take 7 (drop 24 v))"] assms(1) by simp
  finally show ?thesis
    by simp
qed

lemma ValidFrBytes_modulus: "ValidFrBytes v \<longleftrightarrow> length v = 32 \<and> un_be (rev v) < modulus"
proof (cases "length v = 32")
  case True
  have "ValidFr v \<longleftrightarrow> ((le64 24 v * 2 ^ 64 + le64 16 v) * 2 ^ 64 + le64 8 v) * 2 ^ 64 + le64 0 v < modulus"
    using le64_bound [of 24 v] le64_bound [of 16 v] le64_bound [of 8 v] le64_bound [of 0 v] le64_top [OF True]
    by (auto simp: ValidFr_def modulus_def)
  then show ?thesis
    using True le64_split [OF True] by (simp add: ValidFrBytes_def)
qed (simp add: ValidFrBytes_def)

end
