(* ===== verification/Pdp.thy ===== *)
theory Pdp
  imports Bls
begin

text \<open>
  The proofs of data possession, \<open>lib/crypto/pdp\<close>: keys, tags, challenges, proofs, the aggregation of
  proofs by a provider and of checks by a reader (\<open>version2\<close>), and the dispatch by version
  (\<open>types.go\<close>).  Version two is the only one, so that an interface value is a value of its type or nil
  (\<open>None\<close>).  A method that writes its receiver runs on it as the state; the others leave the state
  alone.  Go's \<open>int\<close> is \<open>int\<close>, the stored \<open>Count\<close> an \<open>int64\<close>.
\<close>

section \<open>Constants and bytes\<close>

definition PDPV2 :: nat where "PDPV2 = 5"
definition SCount :: nat where "SCount = 8192"
definition DefaultType :: int where "DefaultType = 31"

definition PutUint16 :: "nat \<Rightarrow> bytes" where "PutUint16 v = be 2 v"
definition Uint16 :: "bytes \<Rightarrow> nat" where "Uint16 b = un_be (take 2 b)"

text \<open>\<open>copy(buf[i:j], src)\<close>: the bounds are checked, then the shorter of both lengths is copied.\<close>

definition copyAt :: "nat \<Rightarrow> nat \<Rightarrow> bytes \<Rightarrow> bytes \<Rightarrow> ('s, bytes) go" where
  "copyAt i j src buf =
     (if j < i \<or> length buf < j then fail (Panic ''slice bounds out of range'')
      else ret (take i buf @ take (j - i) src @ drop (i + min (j - i) (length src)) buf))"

definition sub :: "nat \<Rightarrow> nat \<Rightarrow> bytes \<Rightarrow> bytes" where
  "sub i j data = take (j - i) (drop i data)"

section \<open>Keys\<close>

record 'f SecretKey =
  sk_BlsSk :: 'f
  sk_Alpha :: 'f
  sk_ElemAlpha :: "'f list"

record ('p, 'q) PublicKey =
  pk_Count :: i64
  pk_BlsPk :: 'q
  pk_Zeta :: 'q
  pk_Phi :: 'p
  pk_ElemAlphas :: "'p list"

record ('p, 'q) VerifyKey =
  vk_BlsPk :: 'q
  vk_Zeta :: 'q
  vk_Phi :: 'p

record ('f, 'p, 'q) KeySet =
  ks_Pk :: "('p, 'q) PublicKey option"
  ks_Sk :: "'f SecretKey option"
  ks_typ :: int

text \<open>The loop \<open>x[i] = x[i-1] * alpha\<close> from one.\<close>

definition powLoop :: "'f :: comm_ring_1 \<Rightarrow> nat \<Rightarrow> 'f list \<Rightarrow> 'f list" where
  "powLoop a n xs = foldl (\<lambda>xs i. xs[i := xs ! (i - 1) * a]) xs [1..<n]"

definition SecretKey_Calculate :: "'f :: comm_ring_1 SecretKey \<Rightarrow> 'f SecretKey" where
  "SecretKey_Calculate sk =
     (let xs = (if length (sk_ElemAlpha sk) \<noteq> SCount then replicate SCount 0 else sk_ElemAlpha sk)
      in sk\<lparr>sk_ElemAlpha := powLoop (sk_Alpha sk) SCount (xs[0 := 1])\<rparr>)"

definition SecretKey_Serialize :: "('f, 'p, 'q) curve \<Rightarrow> 'f SecretKey \<Rightarrow> ('s, bytes) go" where
  "SecretKey_Serialize B sk =
     bnd (copyAt 0 2 (PutUint16 PDPV2) (replicate (2 + 2 * FrSize) 0)) (\<lambda>b.
     bnd (copyAt 2 (2 + FrSize) (FrToBytes B (sk_BlsSk sk)) b) (\<lambda>b.
     copyAt (2 + FrSize) (2 + 2 * FrSize) (FrToBytes B (sk_Alpha sk)) b))"

definition SecretKey_Deserialize :: "('f :: comm_ring_1, 'p, 'q) curve \<Rightarrow> bytes \<Rightarrow> ('f SecretKey, unit) go" where
  "SecretKey_Deserialize B data =
     seq (reject (length data \<noteq> 2 + 2 * FrSize) ''numOfAtoms is out of range'')
     (seq (reject (Uint16 data \<noteq> PDPV2) ''version unmatch'')
     (bnd (orFail (FrFromBytes B (sub 2 (2 + FrSize) data))) (\<lambda>x.
      seq (modify (\<lambda>sk. sk\<lparr>sk_BlsSk := x\<rparr>))
     (bnd (orFail (FrFromBytes B (sub (2 + FrSize) (2 + 2 * FrSize) data))) (\<lambda>a.
      modify (\<lambda>sk. SecretKey_Calculate (sk\<lparr>sk_Alpha := a\<rparr>)))))))"

definition PublicKey_VerifyKey :: "('p, 'q) PublicKey \<Rightarrow> ('p, 'q) VerifyKey" where
  "PublicKey_VerifyKey pk = \<lparr>vk_BlsPk = pk_BlsPk pk, vk_Zeta = pk_Zeta pk, vk_Phi = pk_Phi pk\<rparr>"

text \<open>The fixed part of a serialised public key has 250 bytes.  With a negative count the
  buffer is too short for it, with a count beyond the elements the loop leaves the slice.\<close>

definition pkHead :: nat where "pkHead = 10 + 2 * G2Size + G1Size"

definition PublicKey_Serialize :: "('f, 'p, 'q) curve \<Rightarrow> ('p, 'q) PublicKey \<Rightarrow> ('s, bytes) go" where
  "PublicKey_Serialize B pk =
     (if pk_Count pk <s 0 then fail (Panic ''slice bounds out of range'')
      else let n = unat (pk_Count pk) in
     bnd (copyAt 0 2 (PutUint16 PDPV2) (replicate (pkHead + n * G1Size) 0)) (\<lambda>b.
     bnd (copyAt 2 10 (PutUint64 (pk_Count pk)) b) (\<lambda>b.
     bnd (copyAt 10 (10 + G2Size) (bl_comp2 B (pk_BlsPk pk)) b) (\<lambda>b.
     bnd (copyAt (10 + G2Size) (10 + 2 * G2Size) (bl_comp2 B (pk_Zeta pk)) b) (\<lambda>b.
     bnd (copyAt (10 + 2 * G2Size) pkHead (bl_comp1 B (pk_Phi pk)) b) (\<lambda>b.
     foldM [0..<n] b (\<lambda>i b. bnd (at_index (pk_ElemAlphas pk) (int i)) (\<lambda>e.
       copyAt (pkHead + i * G1Size) (pkHead + (i + 1) * G1Size) (bl_comp1 B e) b))))))))"

text \<open>The errors of the points are dropped; the counts are checked in between, and the count is
  assigned before it is checked.\<close>

definition PublicKey_Deserialize :: "('f, 'p :: zero, 'q) curve \<Rightarrow> bytes \<Rightarrow> (('p, 'q) PublicKey, unit) go" where
  "PublicKey_Deserialize B data =
     seq (reject (length data < pkHead) ''length is too short'')
     (seq (reject (Uint16 data \<noteq> PDPV2) ''version unmatch'')
     (seq (modify (\<lambda>pk. pk\<lparr>pk_Count := Uint64 (sub 2 10 data)\<rparr>))
     (bnd (gets pk_Count) (\<lambda>n.
      seq (reject (word_of_nat SCount <s n) ''setting is invalid'')
     (seq (modify (\<lambda>pk. pk\<lparr>pk_BlsPk := g2Set B (pk_BlsPk pk) (sub 10 (10 + G2Size) data)\<rparr>))
     (seq (modify (\<lambda>pk. pk\<lparr>pk_Zeta := g2Set B (pk_Zeta pk) (sub (10 + G2Size) (10 + 2 * G2Size) data)\<rparr>))
     (seq (modify (\<lambda>pk. pk\<lparr>pk_Phi := g1Set B (pk_Phi pk) (sub (10 + 2 * G2Size) pkHead data)\<rparr>))
     (seq (reject (int ((length data - pkHead) div G1Size) \<noteq> sint n) ''numOfAtoms is out of range'')
     (seq (modify (\<lambda>pk. if int (length (pk_ElemAlphas pk)) \<noteq> sint n then pk\<lparr>pk_ElemAlphas := replicate (nat (sint n)) 0\<rparr> else pk))
     (forM [0..<nat (sint n)] (\<lambda>i.
        modify (\<lambda>pk. pk\<lparr>pk_ElemAlphas := (pk_ElemAlphas pk)[i := g1Set B (pk_ElemAlphas pk ! i)
          (sub (pkHead + i * G1Size) (pkHead + (i + 1) * G1Size) data)]\<rparr>))))))))))))"

text \<open>\<open>Validate\<close> reads through the key before it compares it with nil.\<close>

definition validateHead :: "('f, 'p, 'q) curve \<Rightarrow> ('p, 'q) PublicKey \<Rightarrow> ('p, 'q) VerifyKey \<Rightarrow> bool" where
  "validateHead B k vk \<longleftrightarrow>
     pk_BlsPk k = vk_BlsPk vk \<and> pk_Zeta k = vk_Zeta vk \<and> pk_Phi k = vk_Phi vk \<and>
     pk_ElemAlphas k \<noteq> [] \<and> int (length (pk_ElemAlphas k)) = sint (pk_Count k) \<and>
     pk_ElemAlphas k ! 0 = bl_one1 B"

definition validateAt :: "('f, 'p, 'q) curve \<Rightarrow> ('p, 'q) PublicKey \<Rightarrow> nat \<Rightarrow> bool" where
  "validateAt B k i = bl_check B (pk_ElemAlphas k ! i) (pk_Zeta k) (pk_ElemAlphas k ! (i + 1)) (pk_BlsPk k)"

definition PublicKey_Validate :: "('f, 'p, 'q) curve \<Rightarrow> ('p, 'q) PublicKey option \<Rightarrow> ('p, 'q) VerifyKey \<Rightarrow> ('s, bool) go" where
  "PublicKey_Validate B k vk =
     bnd (deref ''nil key'' k) (\<lambda>k.
       ret (validateHead B k vk \<and> list_all (validateAt B k) [0..<nat (sint (pk_Count k)) - 1]))"

text \<open>\<open>ValidateFast\<close> looks at 470 positions of \<open>rand.Int63n(Count - 1)\<close>, which panics when the count is
  one; \<open>draws\<close> are the random numbers before they are reduced.\<close>

definition PublicKey_ValidateFast ::
    "('f, 'p, 'q) curve \<Rightarrow> nat list \<Rightarrow> ('p, 'q) PublicKey option \<Rightarrow> ('p, 'q) VerifyKey \<Rightarrow> ('s, bool) go" where
  "PublicKey_ValidateFast B draws k vk =
     bnd (deref ''nil key'' k) (\<lambda>k.
       if \<not> validateHead B k vk then ret False
       else if sint (pk_Count k) \<le> 1 then fail (Panic ''invalid argument to Int63n'')
       else ret (list_all (\<lambda>d. validateAt B k (d mod (nat (sint (pk_Count k)) - 1))) (take 470 draws)))"

definition vkSize :: nat where "vkSize = 2 + 2 * G2Size + G1Size"

definition VerifyKey_Serialize :: "('f, 'p, 'q) curve \<Rightarrow> ('p, 'q) VerifyKey \<Rightarrow> ('s, bytes) go" where
  "VerifyKey_Serialize B vk =
     bnd (copyAt 0 2 (PutUint16 PDPV2) (replicate vkSize 0)) (\<lambda>b.
     bnd (copyAt 2 (2 + G2Size) (bl_comp2 B (vk_BlsPk vk)) b) (\<lambda>b.
     bnd (copyAt (2 + G2Size) (2 + 2 * G2Size) (bl_comp2 B (vk_Zeta vk)) b) (\<lambda>b.
     copyAt (2 + 2 * G2Size) vkSize (bl_comp1 B (vk_Phi vk)) b)))"

definition VerifyKey_Hash :: "('f, 'p, 'q) curve \<Rightarrow> ('p, 'q) VerifyKey \<Rightarrow> ('s, bytes) go" where
  "VerifyKey_Hash B vk = bnd (VerifyKey_Serialize B vk) (\<lambda>b. ret (take 20 (bl_sum256 B b)))"

definition VerifyKey_Deserialize :: "('f, 'p, 'q) curve \<Rightarrow> bytes \<Rightarrow> (('p, 'q) VerifyKey, unit) go" where
  "VerifyKey_Deserialize B data =
     seq (reject (length data \<noteq> vkSize) ''numOfAtoms is out of range'')
     (seq (reject (Uint16 data \<noteq> PDPV2) ''version unmatch'')
     (seq (modify (\<lambda>vk. vk\<lparr>vk_BlsPk := g2Set B (vk_BlsPk vk) (sub 2 (2 + G2Size) data)\<rparr>))
     (seq (modify (\<lambda>vk. vk\<lparr>vk_Zeta := g2Set B (vk_Zeta vk) (sub (2 + G2Size) (2 + 2 * G2Size) data)\<rparr>))
      (modify (\<lambda>vk. vk\<lparr>vk_Phi := g1Set B (vk_Phi vk) (sub (2 + 2 * G2Size) vkSize data)\<rparr>)))))"

text \<open>\<open>(k *KeySet) Calculate\<close>: the powers of the secret, the exponents in both groups.\<close>

definition KeySet_Calculate ::
    "('f :: comm_ring_1, 'p, 'q) curve \<Rightarrow> ('p, 'q) PublicKey \<Rightarrow> 'f SecretKey \<Rightarrow> ('s, ('p, 'q) PublicKey \<times> 'f SecretKey) go" where
  "KeySet_Calculate B pk sk =
     (let n = nat (sint (pk_Count pk)) in
      if length (sk_ElemAlpha sk) = 0 \<or> length (sk_ElemAlpha sk) < n \<or> length (pk_ElemAlphas pk) < n
      then fail (Panic ''index out of range'')
      else let es = powLoop (sk_Alpha sk) n ((sk_ElemAlpha sk)[0 := 1]);
        pk = pk\<lparr>pk_Zeta := bl_mul2 B (bl_one2 B) (sk_Alpha sk * sk_BlsSk sk),
                pk_BlsPk := bl_mul2 B (bl_one2 B) (sk_BlsSk sk),
                pk_Phi := bl_mul1 B (bl_one1 B) (sk_BlsSk sk),
                pk_ElemAlphas := foldl (\<lambda>us i. us[i := bl_mul1 B (us ! 0) (es ! i)]) (pk_ElemAlphas pk) [1..<n]\<rparr>
        in ret (pk, sk\<lparr>sk_ElemAlpha := es\<rparr>))"

text \<open>Both generators; \<open>pk.ElemAlphas[0]\<close> needs a positive count.\<close>

definition newKeys ::
    "('f :: comm_ring_1, 'p :: zero, 'q :: zero) curve \<Rightarrow> i64 \<Rightarrow> 'f \<Rightarrow> 'f \<Rightarrow> ('s, ('f, 'p, 'q) KeySet) go" where
  "newKeys B count bsk alpha =
     (if count <s 0 then fail (Panic ''makeslice: len out of range'')
      else if count = 0 then fail (Panic ''index out of range'')
      else let n = nat (sint count);
        sk = \<lparr>sk_BlsSk = bsk, sk_Alpha = alpha, sk_ElemAlpha = replicate n 0\<rparr>;
        pk = \<lparr>pk_Count = count, pk_BlsPk = 0, pk_Zeta = 0, pk_Phi = 0, pk_ElemAlphas = (replicate n 0)[0 := bl_one1 B]\<rparr>
        in bnd (KeySet_Calculate B pk sk) (\<lambda>(pk, sk).
             ret \<lparr>ks_Pk = Some pk, ks_Sk = Some sk, ks_typ = DefaultType\<rparr>))"

definition GenKeySetWithSeed ::
    "('f :: comm_ring_1, 'p :: zero, 'q :: zero) curve \<Rightarrow> bytes \<Rightarrow> i64 \<Rightarrow> ('s, ('f, 'p, 'q) KeySet) go" where
  "GenKeySetWithSeed B seed count =
     (let seed1 = bl_sum256 B seed; seed2 = bl_sum256 B seed1
      in newKeys B count (frSet B 0 seed1) (frSet B 0 seed2))"

text \<open>The two random scalars of \<open>GenKeySet\<close> are arguments.\<close>

definition GenKeySet :: "('f :: comm_ring_1, 'p :: zero, 'q :: zero) curve \<Rightarrow> 'f \<Rightarrow> 'f \<Rightarrow> ('s, ('f, 'p, 'q) KeySet) go" where
  "GenKeySet B bsk alpha = newKeys B (word_of_nat SCount) bsk alpha"

definition zero_PublicKey :: "('p :: zero, 'q :: zero) PublicKey" where
  "zero_PublicKey = \<lparr>pk_Count = 0, pk_BlsPk = 0, pk_Zeta = 0, pk_Phi = 0, pk_ElemAlphas = []\<rparr>"

definition onNew :: "'t \<Rightarrow> ('t, unit) go \<Rightarrow> err + 't" where
  "onNew new m = (case m new of (Inl e, _) \<Rightarrow> Inl e | (Inr _, t) \<Rightarrow> Inr t)"

definition ReKeyWithPublicKey :: "('f, 'p :: zero, 'q :: zero) curve \<Rightarrow> bytes \<Rightarrow> err + ('f, 'p, 'q) KeySet" where
  "ReKeyWithPublicKey B data = (case onNew zero_PublicKey (PublicKey_Deserialize B data) of
      Inl e \<Rightarrow> Inl e
    | Inr pk \<Rightarrow> Inr \<lparr>ks_Pk = Some pk, ks_Sk = None, ks_typ = DefaultType\<rparr>)"

section \<open>Atoms, tags and their check\<close>

definition splitSegmentToAtoms :: "('f :: comm_ring_1, 'p, 'q) curve \<Rightarrow> bytes \<Rightarrow> int \<Rightarrow> ('s, 'f list) go" where
  "splitSegmentToAtoms B data typ =
     seq (reject (data = []) ''length is zero'')
     (seq (reject (typ > 32 \<or> typ \<le> 0) ''the size of the segment is wrong'')
     (let t = nat typ; num = (length data - 1) div t + 1
      in ret (map (\<lambda>i. frSet B 0 (sub (t * i) (t * (i + 1)) data)) [0..<num - 1] @
              [frSet B 0 (drop (t * (num - 1)) data)])))"

text \<open>The hash of an index: 32 bytes are taken as they are.\<close>

definition indexFr :: "('f, 'p, 'q) curve \<Rightarrow> 'f \<Rightarrow> bytes \<Rightarrow> 'f" where
  "indexFr B dst index = frSet B dst (if length index \<noteq> 32 then bl_sum256 B index else index)"

definition GenTag ::
    "('f :: comm_ring_1, 'p :: ab_group_add, 'q) curve \<Rightarrow> ('f, 'p, 'q) KeySet option \<Rightarrow> bytes \<Rightarrow> bytes \<Rightarrow> int \<Rightarrow> bool \<Rightarrow> ('s, bytes) go" where
  "GenTag B ko index segment start mode =
     bnd (orErr ''the key is nil'' ko) (\<lambda>k.
     bnd (orErr ''the key is nil'' (ks_Pk k)) (\<lambda>pk.
     bnd (splitSegmentToAtoms B segment (ks_typ k)) (\<lambda>atoms.
     bnd (case ks_Sk k of
         Some sk \<Rightarrow>
           bnd (if start = 0 then ret (EvalPolyAt atoms (sk_Alpha sk))
                else foldM (enumerate 0 atoms) 0 (\<lambda>(j, atom) power.
                  bnd (at_index (sk_ElemAlpha sk) (int j + start)) (\<lambda>e. ret (power + e * atom)))) (\<lambda>power.
           ret (bl_mul1 B (bl_one1 B) power))
       | None \<Rightarrow>
           if start = 0 then bnd (sliceTo (pk_ElemAlphas pk) (length atoms)) (\<lambda>us. G1MulVec B us atoms)
           else foldM (enumerate 0 atoms) 0 (\<lambda>(j, atom) u.
             bnd (at_index (pk_ElemAlphas pk) (int j + start)) (\<lambda>e. ret (u + bl_mul1 B e atom)))) (\<lambda>u.
     let u = (if start = 0 then bl_mul1 B (bl_one1 B) (indexFr B 0 index) + u else u)
     in if mode then bnd (deref ''nil Sk'' (ks_Sk k)) (\<lambda>sk. ret (bl_comp1 B (bl_mul1 B u (sk_BlsSk sk))))
        else ret (bl_comp1 B u)))))"

text \<open>\<open>(k *KeySet) VerifyTag\<close>.  Without a secret key the elements are not cut to the atoms.\<close>

definition KeySet_VerifyTag ::
    "('f :: comm_ring_1, 'p :: ab_group_add, 'q) curve \<Rightarrow> ('f, 'p, 'q) KeySet \<Rightarrow> bytes \<Rightarrow> bytes \<Rightarrow> bytes \<Rightarrow> ('s, bool) go" where
  "KeySet_VerifyTag B k index segment tag =
     bnd (orErr ''the key is nil'' (ks_Pk k)) (\<lambda>pk.
     seq (reject (segment = []) ''the size of the segment is wrong'')
     (if ks_typ k = 0 then fail (Panic ''integer divide by zero'') else
     (seq (reject (ks_typ k > 0 \<and> length (pk_ElemAlphas pk) < length segment div nat (ks_typ k)) ''numOfAtoms is out of range'')
     (bnd (splitSegmentToAtoms B segment (ks_typ k)) (\<lambda>atoms.
      bnd (case ks_Sk k of
          Some sk \<Rightarrow> ret (bl_mul1 B (bl_one1 B) (EvalPolyAt atoms (sk_Alpha sk)))
        | None \<Rightarrow> G1MulVec B (pk_ElemAlphas pk) atoms) (\<lambda>mu.
      bnd (G1Deserialize B tag) (\<lambda>delta.
      if \<not> bl_check B delta (bl_one2 B) (bl_mul1 B (bl_one1 B) (indexFr B 0 index) + mu) (pk_BlsPk pk)
      then fail (Err ''verification failed'') else ret True)))))))"

definition PublicKey_VerifyTag ::
    "('f :: comm_ring_1, 'p :: ab_group_add, 'q) curve \<Rightarrow> ('p, 'q) PublicKey option \<Rightarrow> bytes \<Rightarrow> bytes \<Rightarrow> bytes \<Rightarrow> int \<Rightarrow> ('s, bool) go" where
  "PublicKey_VerifyTag B ko index segment tag typ =
     bnd (orErr ''the key is nil'' ko) (\<lambda>k.
     bnd (G1Deserialize B tag) (\<lambda>delta.
     bnd (splitSegmentToAtoms B segment typ) (\<lambda>atoms.
     bnd (sliceTo (pk_ElemAlphas k) (length atoms)) (\<lambda>us.
     bnd (G1MulVec B us atoms) (\<lambda>mid.
       ret (bl_check B delta (bl_one2 B) (bl_mul1 B (bl_one1 B) (indexFr B 0 index) + mid) (pk_BlsPk k)))))))"

definition CheckTag :: "('f, 'p, 'q) curve \<Rightarrow> bytes \<Rightarrow> ('s, unit) go" where
  "CheckTag B tag = bnd (G1Deserialize B tag) (\<lambda>_. ret ())"

section \<open>Challenges and proofs\<close>

record 'f Challenge =
  ch_r :: bytes
  ch_pubInput :: 'f

definition NewChallenge :: "bytes \<Rightarrow> 'f :: zero Challenge" where
  "NewChallenge r = \<lparr>ch_r = r, ch_pubInput = 0\<rparr>"

definition Challenge_PublicInput :: "('f, 'p, 'q) curve \<Rightarrow> 'f Challenge \<Rightarrow> bytes" where
  "Challenge_PublicInput B c = FrToBytes B (ch_pubInput c)"

definition challengeFr :: "('f, 'p, 'q) curve \<Rightarrow> bytes \<Rightarrow> err + 'f" where
  "challengeFr B b = FrFromBytes B (if length b \<noteq> 32 then bl_sum256 B b else b)"

definition Challenge_Add :: "('f :: comm_ring_1, 'p, 'q) curve \<Rightarrow> bytes \<Rightarrow> ('f Challenge, unit) go" where
  "Challenge_Add B b = bnd (orFail (challengeFr B b)) (\<lambda>x. modify (\<lambda>c. c\<lparr>ch_pubInput := ch_pubInput c + x\<rparr>))"

definition Challenge_Delete :: "('f :: comm_ring_1, 'p, 'q) curve \<Rightarrow> bytes \<Rightarrow> ('f Challenge, unit) go" where
  "Challenge_Delete B b = bnd (orFail (challengeFr B b)) (\<lambda>x. modify (\<lambda>c. c\<lparr>ch_pubInput := ch_pubInput c - x\<rparr>))"

text \<open>The buffer has ten bytes and a scalar, the last copy starts behind 34.\<close>

definition Challenge_Serialize :: "('f, 'p, 'q) curve \<Rightarrow> 'f Challenge \<Rightarrow> ('s, bytes) go" where
  "Challenge_Serialize B c =
     bnd (copyAt 0 2 (PutUint16 PDPV2) (replicate (10 + FrSize) 0)) (\<lambda>b.
     bnd (copyAt 2 34 (ch_r c) b) (\<lambda>b.
     copyAt 34 (34 + FrSize) (FrToBytes B (ch_pubInput c)) b))"

definition Challenge_Deserialize :: "('f, 'p, 'q) curve \<Rightarrow> bytes \<Rightarrow> ('f Challenge, unit) go" where
  "Challenge_Deserialize B buf =
     seq (reject (length buf < 34 + FrSize) ''length is short'')
     (seq (reject (Uint16 buf \<noteq> PDPV2) ''version unmatch'')
     (seq (modify (\<lambda>c. c\<lparr>ch_r := sub 2 34 buf\<rparr>))
     (bnd (orFail (FrFromBytes B (sub 34 (34 + FrSize) buf))) (\<lambda>x.
      modify (\<lambda>c. c\<lparr>ch_pubInput := x\<rparr>)))))"

record 'p Proof =
  pf_Psi :: 'p
  pf_Kappa :: 'p

definition proofSize :: nat where "proofSize = 2 + 2 * G1Size"

definition Proof_Serialize :: "('f, 'p, 'q) curve \<Rightarrow> 'p Proof \<Rightarrow> ('s, bytes) go" where
  "Proof_Serialize B pf =
     bnd (copyAt 0 2 (PutUint16 PDPV2) (replicate proofSize 0)) (\<lambda>b.
     bnd (copyAt 2 (2 + G1Size) (bl_comp1 B (pf_Psi pf)) b) (\<lambda>b.
     copyAt (2 + G1Size) proofSize (bl_comp1 B (pf_Kappa pf)) b))"

definition Proof_Deserialize :: "('f, 'p, 'q) curve \<Rightarrow> bytes \<Rightarrow> ('p Proof, unit) go" where
  "Proof_Deserialize B buf =
     seq (reject (length buf \<noteq> proofSize) ''numOfAtoms is out of range'')
     (seq (reject (Uint16 buf \<noteq> PDPV2) ''version unmatch'')
     (bnd (G1Deserialize B (sub 2 (2 + G1Size) buf)) (\<lambda>p.
      seq (modify (\<lambda>pf. pf\<lparr>pf_Psi := p\<rparr>))
     (bnd (G1Deserialize B (sub (2 + G1Size) proofSize buf)) (\<lambda>q.
      modify (\<lambda>pf. pf\<lparr>pf_Kappa := q\<rparr>))))))"

text \<open>The division by \<open>x - r\<close>: the last coefficient is copied, the others are filled downwards.
  \<open>make\<close> panics for the empty polynomial.\<close>

fun quotLoop :: "'f :: comm_ring_1 list \<Rightarrow> 'f \<Rightarrow> nat \<Rightarrow> 'f list \<Rightarrow> 'f list" where
  "quotLoop p r 0 q = q"
| "quotLoop p r (Suc j) q = quotLoop p r j (q[j := q ! (j + 1) * r + p ! (j + 1)])"

definition Polydiv :: "'f :: comm_ring_1 list \<Rightarrow> 'f \<Rightarrow> ('s, 'f list) go" where
  "Polydiv p r =
     (if p = [] then fail (Panic ''makeslice: len out of range'')
      else let n = length p - 1 in
        if n = 0 then ret [] else ret (quotLoop p r (n - 1) ((replicate n 0)[n - 1 := p ! n])))"

definition GenProof ::
    "('f :: comm_ring_1, 'p :: ab_group_add, 'q) curve \<Rightarrow> ('p, 'q) PublicKey option \<Rightarrow> 'f Challenge \<Rightarrow> bytes \<Rightarrow> bytes \<Rightarrow> int \<Rightarrow> ('s, 'p Proof) go" where
  "GenProof B ko chal segment tag typ =
     bnd (orErr ''the key is nil'' (if typ \<le> 0 then None else ko)) (\<lambda>pk.
     seq (reject (segment = []) ''the size of the segment is wrong'')
     (seq (reject (length (pk_ElemAlphas pk) < length segment div nat typ) ''numOfAtoms is out of range'')
     (bnd (splitSegmentToAtoms B segment typ) (\<lambda>atoms.
      let r = frSet B 0 (ch_r chal); pr = EvalPolyAt atoms r in
      bnd (Polydiv atoms r) (\<lambda>quotient.
      bnd (sliceTo (pk_ElemAlphas pk) (length quotient)) (\<lambda>us.
      bnd (G1MulVec B us quotient) (\<lambda>psi.
      bnd (G1Deserialize B tag) (\<lambda>delta.
        ret \<lparr>pf_Psi = psi, pf_Kappa = delta - bl_mul1 B (pk_Phi pk) pr\<rparr>))))))))"

text \<open>The equation that the verifier and the aggregator of proofs check.\<close>

definition proofCheck ::
    "('f :: comm_ring_1, 'p :: ab_group_add, 'q :: ab_group_add) curve \<Rightarrow> ('p, 'q) VerifyKey \<Rightarrow> 'f \<Rightarrow> 'f \<Rightarrow> 'p Proof \<Rightarrow> bool" where
  "proofCheck B vk h r pf =
     bl_check B (pf_Kappa pf - bl_mul1 B (vk_Phi vk) h) (bl_one2 B) (pf_Psi pf) (vk_Zeta vk - bl_mul2 B (vk_BlsPk vk) r)"

definition VerifyProof ::
    "('f :: comm_ring_1, 'p :: ab_group_add, 'q :: ab_group_add) curve \<Rightarrow> ('p, 'q) VerifyKey option \<Rightarrow> 'f Challenge \<Rightarrow> 'p Proof option \<Rightarrow> ('s, bool) go" where
  "VerifyProof B vko chal proof =
     bnd (orErr ''the key is nil'' vko) (\<lambda>vk.
     bnd (orErr ''version unmatch'' proof) (\<lambda>pf.
       ret (proofCheck B vk (frSet B 0 (Challenge_PublicInput B chal)) (frSet B 0 (ch_r chal)) pf)))"

section \<open>Aggregation\<close>

record ('f, 'p, 'q) ProofAggregator =
  pa_pk :: "('p, 'q) PublicKey"
  pa_r :: bytes
  pa_typ :: int
  pa_sums :: "'f list"
  pa_delta :: 'p
  pa_tempG1 :: 'p
  pa_tempFr :: 'f
  pa_HWi :: 'f

definition makeFrs :: "i64 \<Rightarrow> ('s, 'f :: zero list) go" where
  "makeFrs n = (if n <s 0 then fail (Panic ''makeslice: len out of range'') else ret (replicate (nat (sint n)) 0))"

definition NewProofAggregator ::
    "('p, 'q) PublicKey \<Rightarrow> bytes \<Rightarrow> ('s, ('f :: zero, 'p :: zero, 'q) ProofAggregator) go" where
  "NewProofAggregator pk seed =
     bnd (makeFrs (pk_Count pk)) (\<lambda>sums.
       ret \<lparr>pa_pk = pk, pa_r = seed, pa_typ = DefaultType, pa_sums = sums, pa_delta = 0, pa_tempG1 = 0, pa_tempFr = 0, pa_HWi = 0\<rparr>)"

text \<open>The atoms are added one position at a time; a position beyond the sums panics.\<close>

fun addAtoms :: "nat \<Rightarrow> 'f :: comm_ring_1 list \<Rightarrow> ('f list, unit) go" where
  "addAtoms j [] = ret ()"
| "addAtoms j (a # as) =
     bnd (gets length) (\<lambda>n.
       if n \<le> j then fail (Panic ''index out of range'')
       else seq (modify (\<lambda>s. s[j := s ! j + a])) (addAtoms (Suc j) as))"

definition onSums :: "('x \<Rightarrow> 'f list) \<Rightarrow> ('f list \<Rightarrow> 'x \<Rightarrow> 'x) \<Rightarrow> ('f list, unit) go \<Rightarrow> ('x, unit) go" where
  "onSums get put m s = (let (r, t) = m (get s) in (r, put t s))"

text \<open>The sums are changed before the tag is read.\<close>

definition ProofAggregator_Add ::
    "('f :: comm_ring_1, 'p :: ab_group_add, 'q) curve \<Rightarrow> bytes \<Rightarrow> bytes \<Rightarrow> bytes \<Rightarrow> (('f, 'p, 'q) ProofAggregator, unit) go" where
  "ProofAggregator_Add B index segment tag =
     bnd (gets pa_typ) (\<lambda>typ.
     bnd (splitSegmentToAtoms B segment typ) (\<lambda>atoms.
     seq (onSums pa_sums (\<lambda>x. pa_sums_update (\<lambda>_. x)) (addAtoms 0 atoms))
     (bnd (G1Deserialize B tag) (\<lambda>t.
      seq (modify (\<lambda>pa. pa\<lparr>pa_tempG1 := t, pa_delta := pa_delta pa + t\<rparr>))
     (seq (modify (\<lambda>pa. pa\<lparr>pa_tempFr := indexFr B (pa_tempFr pa) index\<rparr>))
      (modify (\<lambda>pa. pa\<lparr>pa_HWi := pa_HWi pa + pa_tempFr pa\<rparr>)))))))"

text \<open>\<open>Result\<close> returns the proof beside the error when its own check fails.\<close>

definition ProofAggregator_Result ::
    "('f :: comm_ring_1, 'p :: ab_group_add, 'q :: ab_group_add) curve \<Rightarrow> (('f, 'p, 'q) ProofAggregator, 'p Proof \<times> err option) go" where
  "ProofAggregator_Result B =
     bnd (gets id) (\<lambda>pa.
     let r = frSet B 0 (pa_r pa); pr = EvalPolyAt (pa_sums pa) r; pk = pa_pk pa in
     bnd (Polydiv (pa_sums pa) r) (\<lambda>quotient.
     bnd (sliceTo (pk_ElemAlphas pk) (length quotient)) (\<lambda>us.
     bnd (G1MulVec B us quotient) (\<lambda>psi.
     let pf = \<lparr>pf_Psi = psi, pf_Kappa = pa_delta pa - bl_mul1 B (pk_Phi pk) pr\<rparr> in
     seq (modify (\<lambda>pa. pa\<lparr>pa_tempFr := frSet B (pa_tempFr pa) (pa_r pa)\<rparr>))
     (bnd (gets pa_tempFr) (\<lambda>t.
      ret (pf, if proofCheck B (PublicKey_VerifyKey pk) (pa_HWi pa) t pf then None else Some (Err ''verification failed''))))))))"

record ('f, 'p, 'q) DataVerifier =
  dv_pk :: "('p, 'q) PublicKey"
  dv_sk :: "'f SecretKey option"
  dv_typ :: int
  dv_sums :: "'f list"
  dv_delta :: 'p
  dv_HWi :: 'f

definition NewDataVerifier ::
    "('p, 'q) PublicKey \<Rightarrow> 'f SecretKey option \<Rightarrow> ('s, ('f :: zero, 'p :: zero, 'q) DataVerifier) go" where
  "NewDataVerifier pk sk =
     bnd (makeFrs (pk_Count pk)) (\<lambda>sums.
       ret \<lparr>dv_pk = pk, dv_sk = sk, dv_typ = DefaultType, dv_sums = sums, dv_delta = 0, dv_HWi = 0\<rparr>)"

definition DataVerifier_Add ::
    "('f :: comm_ring_1, 'p :: ab_group_add, 'q) curve \<Rightarrow> bytes \<Rightarrow> bytes \<Rightarrow> bytes \<Rightarrow> (('f, 'p, 'q) DataVerifier, unit) go" where
  "DataVerifier_Add B index segment tag =
     bnd (G1Deserialize B tag) (\<lambda>t.
     bnd (gets dv_typ) (\<lambda>typ.
     bnd (splitSegmentToAtoms B segment typ) (\<lambda>atoms.
     seq (onSums dv_sums (\<lambda>x. dv_sums_update (\<lambda>_. x)) (addAtoms 0 atoms))
     (seq (modify (\<lambda>dv. dv\<lparr>dv_delta := dv_delta dv + t\<rparr>))
      (modify (\<lambda>dv. dv\<lparr>dv_HWi := dv_HWi dv + indexFr B 0 index\<rparr>))))))"

definition DataVerifier_Result ::
    "('f :: comm_ring_1, 'p :: ab_group_add, 'q) curve \<Rightarrow> (('f, 'p, 'q) DataVerifier, bool) go" where
  "DataVerifier_Result B =
     bnd (gets id) (\<lambda>dv.
     bnd (case dv_sk dv of
         Some sk \<Rightarrow> ret (bl_mul1 B (bl_one1 B) (EvalPolyAt (dv_sums dv) (sk_Alpha sk)))
       | None \<Rightarrow> G1MulVec B (pk_ElemAlphas (dv_pk dv)) (dv_sums dv)) (\<lambda>mu.
       ret (bl_check B (dv_delta dv) (bl_one2 B) (bl_mul1 B (bl_one1 B) (dv_HWi dv) + mu) (pk_BlsPk (dv_pk dv)))))"

definition DataVerifier_Reset :: "(('f :: zero, 'p :: zero, 'q) DataVerifier, unit) go" where
  "DataVerifier_Reset =
     bnd (gets id) (\<lambda>dv.
       if int (length (dv_sums dv)) < sint (pk_Count (dv_pk dv)) then fail (Panic ''index out of range'')
       else let n = nat (sint (pk_Count (dv_pk dv))) in
         modify (\<lambda>dv. dv\<lparr>dv_sums := replicate n 0 @ drop n (dv_sums dv), dv_delta := 0, dv_HWi := 0\<rparr>))"

section \<open>Dispatch by version\<close>

definition GenerateKeyWithSeed ::
    "('f :: comm_ring_1, 'p :: zero, 'q :: zero) curve \<Rightarrow> nat \<Rightarrow> bytes \<Rightarrow> ('s, ('f, 'p, 'q) KeySet) go" where
  "GenerateKeyWithSeed B ver seed =
     (if ver = PDPV2 then GenKeySetWithSeed B seed (word_of_nat SCount) else fail (Err ''setting is invalid''))"

definition GenerateKey ::
    "('f :: comm_ring_1, 'p :: zero, 'q :: zero) curve \<Rightarrow> nat \<Rightarrow> 'f \<Rightarrow> 'f \<Rightarrow> ('s, ('f, 'p, 'q) KeySet) go" where
  "GenerateKey B ver bsk alpha = (if ver = PDPV2 then GenKeySet B bsk alpha else fail (Err ''setting is invalid''))"

definition pdp_ReKeyWithPublicKey :: "('f, 'p :: zero, 'q :: zero) curve \<Rightarrow> nat \<Rightarrow> bytes \<Rightarrow> err + ('f, 'p, 'q) KeySet" where
  "pdp_ReKeyWithPublicKey B ver data = (if ver = PDPV2 then ReKeyWithPublicKey B data else Inl (Err ''setting is invalid''))"

text \<open>The four \<open>Deserialize\<close> functions share the length check, the version and a fresh value;
  \<open>DeserializeChallenge\<close> has no length check.\<close>

definition versioned :: "'t \<Rightarrow> (bytes \<Rightarrow> ('t, unit) go) \<Rightarrow> bytes \<Rightarrow> err + 't" where
  "versioned new des data =
     (if length data \<le> 2 then Inl (Err ''numOfAtoms is out of range'')
      else if Uint16 data \<noteq> PDPV2 then Inl (Err ''setting is invalid'')
      else onNew new (des data))"

definition zero_SecretKey :: "'f :: zero SecretKey" where
  "zero_SecretKey = \<lparr>sk_BlsSk = 0, sk_Alpha = 0, sk_ElemAlpha = []\<rparr>"

definition zero_VerifyKey :: "('p :: zero, 'q :: zero) VerifyKey" where
  "zero_VerifyKey = \<lparr>vk_BlsPk = 0, vk_Zeta = 0, vk_Phi = 0\<rparr>"

definition zero_Proof :: "'p :: zero Proof" where
  "zero_Proof = \<lparr>pf_Psi = 0, pf_Kappa = 0\<rparr>"

definition DeserializeSecretKey :: "('f :: comm_ring_1, 'p, 'q) curve \<Rightarrow> bytes \<Rightarrow> err + 'f SecretKey" where
  "DeserializeSecretKey B = versioned zero_SecretKey (SecretKey_Deserialize B)"

definition DeserializePublicKey :: "('f, 'p :: zero, 'q :: zero) curve \<Rightarrow> bytes \<Rightarrow> err + ('p, 'q) PublicKey" where
  "DeserializePublicKey B = versioned zero_PublicKey (PublicKey_Deserialize B)"

definition DeserializeVerifyKey :: "('f, 'p :: zero, 'q :: zero) curve \<Rightarrow> bytes \<Rightarrow> err + ('p, 'q) VerifyKey" where
  "DeserializeVerifyKey B = versioned zero_VerifyKey (VerifyKey_Deserialize B)"

definition DeserializeProof :: "('f, 'p :: zero, 'q) curve \<Rightarrow> bytes \<Rightarrow> err + 'p Proof" where
  "DeserializeProof B = versioned zero_Proof (Proof_Deserialize B)"

definition DeserializeChallenge :: "('f :: zero, 'p, 'q) curve \<Rightarrow> bytes \<Rightarrow> err + 'f Challenge" where
  "DeserializeChallenge B data =
     (if length data < 2 then Inl (Panic ''slice bounds out of range'')
      else if Uint16 data \<noteq> PDPV2 then Inl (Err ''setting is invalid'')
      else onNew (NewChallenge (replicate 32 0)) (Challenge_Deserialize B data))"

definition pdp_Validate :: "('f, 'p, 'q) curve \<Rightarrow> ('p, 'q) PublicKey option \<Rightarrow> ('p, 'q) VerifyKey \<Rightarrow> ('s, bool) go" where
  "pdp_Validate B pk vk = PublicKey_Validate B pk vk"

definition pdp_CheckTag :: "('f, 'p, 'q) curve \<Rightarrow> nat \<Rightarrow> bytes \<Rightarrow> ('s, unit) go" where
  "pdp_CheckTag B ver tag = (if ver = PDPV2 then CheckTag B tag else fail (Err ''setting is invalid''))"

end
