(* ===== verification/ErasureCode.thy ===== *)
theory ErasureCode
  imports Pdp Types
begin

text \<open>
  The erasure coding of \<open>lib/code\<close>: a stripe of data becomes chunks, each a prefix, a segment and tags; the
  segments are Reed-Solomon coded or copied, and so are the tags over all chunks, so that a lost chunk
  is restored with its tag.

  The package \<open>klauspost/reedsolomon\<close> and the checksum are the record \<open>codeLib\<close>; a shard that is nil is
  \<open>None\<close>.  A method that marks bad chunks of the caller's slice runs on the coder and that slice.
  Go's \<open>int\<close> is \<open>nat\<close> where it counts bytes; a slice has no spare capacity, so that \<open>append\<close> to it
  moves to another array.
\<close>

record ('f, 'p, 'q) codeLib =
  cl_B :: "('f, 'p, 'q) curve"
  cl_New :: "nat \<Rightarrow> nat \<Rightarrow> bool"
  cl_Encode :: "nat \<Rightarrow> nat \<Rightarrow> bytes list \<Rightarrow> err + bytes list"
  cl_Verify :: "nat \<Rightarrow> nat \<Rightarrow> bytes option list \<Rightarrow> err + bool"
  cl_Reconstruct :: "nat \<Rightarrow> nat \<Rightarrow> bytes option list \<Rightarrow> err + bytes option list"
  cl_crc32 :: "bytes \<Rightarrow> u32"

definition RsPolicy :: u32 where "RsPolicy = 1"
definition MulPolicy :: u32 where "MulPolicy = 2"
definition DefaultSegSize :: nat where "DefaultSegSize = 248 * 1024"

record ('f, 'p, 'q) DataCoder =
  cd_Prefix :: Prefix
  cd_blsKey :: "('f, 'p, 'q) KeySet"
  cd_dv :: "('f, 'p, 'q) DataVerifier"
  cd_chunkCount :: nat
  cd_prefixSize :: nat
  cd_tagCount :: nat
  cd_tagSize :: nat
  cd_fragmentSize :: nat

type_synonym ('f, 'p, 'q) coding = "('f, 'p, 'q) DataCoder \<times> bytes option list"

abbreviation cd_dc :: "('f, 'p, 'q) DataCoder \<Rightarrow> nat" where "cd_dc d \<equiv> unat (px_DataCount (cd_Prefix d))"
abbreviation cd_pc :: "('f, 'p, 'q) DataCoder \<Rightarrow> nat" where "cd_pc d \<equiv> unat (px_ParityCount (cd_Prefix d))"
abbreviation cd_seg :: "('f, 'p, 'q) DataCoder \<Rightarrow> nat" where "cd_seg d \<equiv> unat (px_SegSize (cd_Prefix d))"

section \<open>Construction\<close>

definition preCompute :: "('f, 'p, 'q) DataCoder \<Rightarrow> err + ('f, 'p, 'q) DataCoder" where
  "preCompute d =
     (let d = d\<lparr>cd_prefixSize := DefaultPrefixLen\<rparr> in
      if cd_dc d < 1 \<or> cd_pc d < 1 then Inl (Err ''policy is not supported'')
      else let s = (if TagMap (px_TagFlag (cd_Prefix d)) = 0 then 48 else TagMap (px_TagFlag (cd_Prefix d)));
        tc = 2 + (cd_pc d - 1) div cd_dc d
        in Inr (d\<lparr>cd_chunkCount := cd_dc d + cd_pc d, cd_tagCount := tc, cd_tagSize := s,
                  cd_fragmentSize := DefaultPrefixLen + cd_seg d + s * tc\<rparr>))"

text \<open>A key set without a public key panics in \<open>NewDataVerifier\<close>, a missing prefix in \<open>preCompute\<close>.\<close>

definition NewDataCoderWithPrefix ::
    "('f :: zero, 'p :: zero, 'q) KeySet \<Rightarrow> Prefix option \<Rightarrow> ('s, ('f, 'p, 'q) DataCoder) go" where
  "NewDataCoderWithPrefix ks po =
     bnd (deref ''nil Pk'' (ks_Pk ks)) (\<lambda>pk.
     bnd (NewDataVerifier pk (ks_Sk ks)) (\<lambda>dv.
     bnd (deref ''nil Prefix'' po) (\<lambda>p.
       orFail (preCompute \<lparr>cd_Prefix = p, cd_blsKey = ks, cd_dv = dv, cd_chunkCount = 0, cd_prefixSize = 0,
         cd_tagCount = 0, cd_tagSize = 0, cd_fragmentSize = 0\<rparr>))))"

text \<open>The size of a segment is always the default one.\<close>

definition NewDataCoder ::
    "('f :: zero, 'p :: zero, 'q) KeySet \<Rightarrow> int \<Rightarrow> int \<Rightarrow> int \<Rightarrow> int \<Rightarrow> int \<Rightarrow> int \<Rightarrow> ('s, ('f, 'p, 'q) DataCoder) go" where
  "NewDataCoder ks version policy dataCount parityCount tagFlag segSize =
     (if policy \<noteq> 1 \<and> policy \<noteq> 2 then fail (Err ''policy is not supported'')
      else let pc = (if policy = 2 then dataCount + parityCount - 1 else parityCount);
               dc = (if policy = 2 then 1 else dataCount)
        in NewDataCoderWithPrefix ks (Some \<lparr>px_Version = word_of_int version, px_Policy = word_of_int policy,
             px_DataCount = word_of_int dc, px_ParityCount = word_of_int pc, px_TagFlag = word_of_int tagFlag,
             px_SegSize = word_of_nat DefaultSegSize\<rparr>))"

definition NewDataCoderWithBopts :: "('f :: zero, 'p :: zero, 'q) KeySet \<Rightarrow> BucketOption \<Rightarrow> ('s, ('f, 'p, 'q) DataCoder) go" where
  "NewDataCoderWithBopts ks bo =
     NewDataCoder ks (uint (bo_Version bo)) (uint (bo_Policy bo)) (uint (bo_DataCount bo)) (uint (bo_ParityCount bo)) (uint (bo_TagFlag bo)) (uint (bo_SegSize bo))"

definition NewDataCoderWithDefault :: "('f :: zero, 'p :: zero, 'q) KeySet \<Rightarrow> int \<Rightarrow> int \<Rightarrow> int \<Rightarrow> ('s, ('f, 'p, 'q) DataCoder) go" where
  "NewDataCoderWithDefault ks policy dataCount parityCount = NewDataCoder ks 1 policy dataCount parityCount 5 (int DefaultSegSize)"

definition DataCoder_GenTag :: "('f :: comm_ring_1, 'p :: ab_group_add, 'q) codeLib \<Rightarrow> ('f, 'p, 'q) DataCoder \<Rightarrow> bytes \<Rightarrow> bytes \<Rightarrow> ('s, bytes) go" where
  "DataCoder_GenTag E d index data =
     (if px_TagFlag (cd_Prefix d) = 1 then ret (PutUint32 (cl_crc32 E data))
      else if px_TagFlag (cd_Prefix d) = 5 then GenTag (cl_B E) (Some (cd_blsKey d)) index data 0 True
      else fail (Err ''tag flag is not supported''))"

definition VerifyPrefix :: "('f, 'p, 'q) DataCoder \<Rightarrow> Prefix \<Rightarrow> bool" where
  "VerifyPrefix d pre \<longleftrightarrow>
     px_Version pre = px_Version (cd_Prefix d) \<and> px_DataCount pre = px_DataCount (cd_Prefix d) \<and>
     px_ParityCount pre = px_ParityCount (cd_Prefix d) \<and> px_Policy pre = px_Policy (cd_Prefix d) \<and>
     px_SegSize pre = px_SegSize (cd_Prefix d) \<and> px_TagFlag pre = px_TagFlag (cd_Prefix d)"

section \<open>Encoding\<close>

text \<open>The chunks share their bytes with the shards that the package fills, so a chunk is written here
  as the prefix, its segment and its tags.\<close>

definition segsOf :: "('f, 'p, 'q) DataCoder \<Rightarrow> bytes \<Rightarrow> bytes list" where
  "segsOf d data =
     map (\<lambda>i. if i < cd_dc d then sub (i * cd_seg d) ((i + 1) * cd_seg d) data else replicate (cd_seg d) 0) [0..<cd_chunkCount d]"

fun genTags :: "('f :: comm_ring_1, 'p :: ab_group_add, 'q) codeLib \<Rightarrow> ('f, 'p, 'q) DataCoder \<Rightarrow> bytes \<Rightarrow> nat \<Rightarrow> bytes list \<Rightarrow> ('s, bytes list) go" where
  "genTags E d name j [] = ret []"
| "genTags E d name j (seg # segs) =
     bnd (DataCoder_GenTag E d (SetChunkID (word_of_nat j) name) seg) (\<lambda>tag.
     bnd (genTags E d name (Suc j) segs) (\<lambda>tags. ret (copy_into (cd_tagSize d) tag # tags)))"

definition chunkOf :: "('f, 'p, 'q) DataCoder \<Rightarrow> bytes list \<Rightarrow> bytes list \<Rightarrow> nat \<Rightarrow> bytes" where
  "chunkOf d segs tagGroup i =
     copy_into (cd_prefixSize d) (Prefix_Serialize (cd_Prefix d)) @ segs ! i @
     concat (map (\<lambda>j. tagGroup ! (j * cd_chunkCount d + i)) [0..<cd_tagCount d])"

definition encodeSegs :: "('f, 'p, 'q) codeLib \<Rightarrow> ('f, 'p, 'q) DataCoder \<Rightarrow> bytes list \<Rightarrow> ('s, bytes list) go" where
  "encodeSegs E d segs =
     (if px_Policy (cd_Prefix d) = MulPolicy then ret (map (\<lambda>j. if j < cd_dc d then segs ! j else segs ! 0) [0..<cd_chunkCount d])
      else if px_Policy (cd_Prefix d) = RsPolicy then orFail (cl_Encode E (cd_dc d) (cd_pc d) segs)
      else fail (Err ''policy is not supported''))"

definition Encode :: "('f :: comm_ring_1, 'p :: ab_group_add, 'q) codeLib \<Rightarrow> ('f, 'p, 'q) DataCoder \<Rightarrow> bytes \<Rightarrow> bytes \<Rightarrow> ('s, bytes list) go" where
  "Encode E d name data =
     seq (reject (data = []) ''data length is wrong'')
     (seq (reject (length data > cd_dc d * cd_seg d) ''data length is too large'')
     (let data = data @ replicate (cd_dc d * cd_seg d - length data) 0; n = cd_chunkCount d in
      seq (reject (\<not> cl_New E (cd_dc d) (cd_pc d)) ''cannot create Encoder'')
     (seq (reject (\<not> cl_New E n (n * (cd_tagCount d - 1))) ''cannot create Encoder'')
     (bnd (encodeSegs E d (segsOf d data)) (\<lambda>segs.
      bnd (genTags E d name 0 segs) (\<lambda>tags.
      bnd (orFail (cl_Encode E n (n * (cd_tagCount d - 1)) (tags @ replicate (n * (cd_tagCount d - 1)) (replicate (cd_tagSize d) 0)))) (\<lambda>tagGroup.
        ret (map (chunkOf d segs tagGroup) [0..<n]))))))))"

section \<open>Verification of chunks\<close>

definition onDv :: "(('f, 'p, 'q) DataVerifier, 'a) go \<Rightarrow> (('f, 'p, 'q) coding, 'a) go" where
  "onDv m s = (let (r, dv) = m (cd_dv (fst s)) in (r, ((fst s)\<lparr>cd_dv := dv\<rparr>, snd s)))"

definition setNil :: "nat \<Rightarrow> (('f, 'p, 'q) coding, unit) go" where
  "setNil j = modify (\<lambda>(d, st). (d, st[j := None]))"

definition segPart :: "('f, 'p, 'q) DataCoder \<Rightarrow> bytes \<Rightarrow> bytes" where
  "segPart d c = sub (cd_prefixSize d) (cd_prefixSize d + cd_seg d) c"

definition tagPart :: "('f, 'p, 'q) DataCoder \<Rightarrow> bytes \<Rightarrow> bytes" where
  "tagPart d c = sub (cd_prefixSize d + cd_seg d) (cd_prefixSize d + cd_seg d + cd_tagSize d) c"

definition VerifyChunk :: "('f :: comm_ring_1, 'p :: ab_group_add, 'q) codeLib \<Rightarrow> ('f, 'p, 'q) DataCoder \<Rightarrow> bytes \<Rightarrow> bytes \<Rightarrow> ('s, bool) go" where
  "VerifyChunk E d name data =
     seq (reject (length data < cd_fragmentSize d) ''data length is shorter'')
       (KeySet_VerifyTag (cl_B E) (cd_blsKey d) name (segPart d data) (tagPart d data))"

text \<open>A call whose error marks the chunk as bad; a panic is not caught.\<close>

definition onBad :: "('s, 'a) go \<Rightarrow> ('a \<Rightarrow> ('s, 'b) go) \<Rightarrow> ('s, 'b) go \<Rightarrow> ('s, 'b) go" where
  "onBad m f bad s = (case m s of
      (Inl (Panic p), t) \<Rightarrow> (Inl (Panic p), t)
    | (Inl (Err e), t) \<Rightarrow> bad t
    | (Inr x, t) \<Rightarrow> f x t)"

definition chunkAt :: "('f, 'p, 'q) coding \<Rightarrow> nat \<Rightarrow> bytes" where
  "chunkAt s j = (case snd s ! j of None \<Rightarrow> [] | Some c \<Rightarrow> c)"

text \<open>One round of the first loop of \<open>VerifyStripe\<close>; the count of good chunks is carried.\<close>

definition verifyAt :: "('f :: comm_ring_1, 'p :: ab_group_add, 'q) codeLib \<Rightarrow> bytes option \<Rightarrow> nat \<Rightarrow> nat \<Rightarrow> (('f, 'p, 'q) coding, nat) go" where
  "verifyAt E name j good =
     bnd (gets (\<lambda>s. (fst s, chunkAt s j))) (\<lambda>(d, c).
     if length c \<noteq> cd_fragmentSize d then seq (setNil j) (ret good)
     else case DeserializePrefix c of
         Inl _ \<Rightarrow> seq (setNil j) (ret good)
       | Inr pre \<Rightarrow>
         if \<not> VerifyPrefix d pre then seq (setNil j) (ret good)
         else onBad
           (case name of
              Some nm \<Rightarrow> onDv (DataVerifier_Add (cl_B E) (SetChunkID (word_of_nat j) nm) (segPart d c) (tagPart d c))
            | None \<Rightarrow> pdp_CheckTag (cl_B E) PDPV2 (tagPart d c))
           (\<lambda>_. ret (good + 1)) (seq (setNil j) (ret good)))"

text \<open>One round of the second loop: each chunk is checked on its own.\<close>

definition recheckAt :: "('f :: comm_ring_1, 'p :: ab_group_add, 'q) codeLib \<Rightarrow> bytes \<Rightarrow> nat \<Rightarrow> bool \<times> nat \<Rightarrow> (('f, 'p, 'q) coding, bool \<times> nat) go" where
  "recheckAt E nm j acc =
     bnd (gets (\<lambda>s. (fst s, chunkAt s j))) (\<lambda>(d, c).
     if length c \<noteq> cd_fragmentSize d then ret acc
     else let bad = seq (setNil j) (ret (fst acc \<and> \<not> j < cd_dc d, snd acc)) in
       onBad (VerifyChunk E d (SetChunkID (word_of_nat j) nm) c)
         (\<lambda>ok. if ok then ret (fst acc, snd acc + 1) else bad) bad)"

definition VerifyStripe :: "('f :: comm_ring_1, 'p :: ab_group_add, 'q) codeLib \<Rightarrow> bytes option \<Rightarrow> (('f, 'p, 'q) coding, bool \<times> nat) go" where
  "VerifyStripe E name =
     bnd (gets (\<lambda>s. (cd_dc (fst s), length (snd s)))) (\<lambda>(dc, n).
     seq (reject (n < dc) ''stripe data is not enough'')
     (seq (onDv DataVerifier_Reset)
     (bnd (foldM [0..<n] 0 (verifyAt E name)) (\<lambda>good.
      bnd (gets (\<lambda>s. list_all (\<lambda>j. chunkAt s j \<noteq> []) [0..<dc])) (\<lambda>direct.
      seq (reject (good < dc) ''the recovered data is incorrect'')
     (case name of
        None \<Rightarrow> ret (direct, good)
      | Some nm \<Rightarrow> onBad (onDv (DataVerifier_Result (cl_B E)))
          (\<lambda>ok. if ok then ret (direct, good) else foldM [0..<n] (direct, 0) (recheckAt E nm))
          (foldM [0..<n] (direct, 0) (recheckAt E nm))))))))"

section \<open>Recovery\<close>

definition recoverData :: "('f, 'p, 'q) codeLib \<Rightarrow> nat \<Rightarrow> bytes option list \<Rightarrow> nat \<Rightarrow> nat \<Rightarrow> err + bytes option list" where
  "recoverData E chunkCount data dc pc =
     (if dc > 1 then
        if \<not> cl_New E dc pc then Inl (Err ''cannot create Encoder'')
        else case cl_Verify E dc pc data of
            Inr True \<Rightarrow> Inr data
          | r \<Rightarrow>
            if r = Inl (Err ''no shard data'') \<or> r = Inl (Err ''too few shards given'') then (case r of Inl e \<Rightarrow> Inl e | Inr _ \<Rightarrow> Inr data)
            else (case cl_Reconstruct E dc pc data of
                Inl e \<Rightarrow> Inl e
              | Inr data' \<Rightarrow> (case cl_Verify E dc pc data' of
                    Inl e \<Rightarrow> Inl e
                  | Inr ok \<Rightarrow> if ok then Inr data' else Inl (Err ''data is broken'')))
      else if dc = 1 then
        (case find (\<lambda>c. c \<noteq> None) (take chunkCount data) of
           None \<Rightarrow> Inl (Err ''the recovered data is incorrect'')
         | Some c \<Rightarrow> Inr (map (\<lambda>x. if x = None then c else x) (take chunkCount data) @ drop chunkCount data))
      else Inl (Err ''policy is not supported''))"

text \<open>The chunks without their prefixes; a nil one is filled from the recovered segments and tags.
  The faulty positions are visited in ascending order; Go visits the map of them in any order.\<close>

definition tagShards :: "('f, 'p, 'q) DataCoder \<Rightarrow> bytes option list \<Rightarrow> bytes option list" where
  "tagShards d flds =
     concat (map (\<lambda>j. map (\<lambda>f. map_option (\<lambda>c. sub (cd_seg d + j * cd_tagSize d) (cd_seg d + (j + 1) * cd_tagSize d) c) f) flds)
       [0..<cd_tagCount d])"

definition shardAt :: "bytes option list \<Rightarrow> nat \<Rightarrow> bytes" where
  "shardAt xs i = (case xs ! i of None \<Rightarrow> [] | Some b \<Rightarrow> b)"

definition checkFault :: "('f :: comm_ring_1, 'p :: ab_group_add, 'q) codeLib \<Rightarrow> bytes option \<Rightarrow> bytes option list \<Rightarrow> bytes option list \<Rightarrow> nat list \<Rightarrow> (('f, 'p, 'q) coding, unit) go" where
  "checkFault E name segs tags fault = (case name of
      Some nm \<Rightarrow>
        seq (onDv DataVerifier_Reset)
        (seq (forM fault (\<lambda>i. onDv (DataVerifier_Add (cl_B E) (SetChunkID (word_of_nat i) nm) (shardAt segs i) (shardAt tags i))))
        (bnd (onDv (DataVerifier_Result (cl_B E))) (\<lambda>ok.
          reject (\<not> ok) ''the recovered data is incorrect'')))
    | None \<Rightarrow> forM fault (\<lambda>i. pdp_CheckTag (cl_B E) PDPV2 (shardAt tags i)))"

definition recoverField :: "('f :: comm_ring_1, 'p :: ab_group_add, 'q) codeLib \<Rightarrow> bytes option \<Rightarrow> bytes option list \<Rightarrow> (('f, 'p, 'q) coding, bytes option list) go" where
  "recoverField E name flds =
     bnd (gets fst) (\<lambda>d.
     let n = cd_chunkCount d; fault = filter (\<lambda>i. flds ! i = None) [0..<n] in
     bnd (orFail (recoverData E n (map (map_option (take (cd_seg d))) flds) (cd_dc d) (cd_pc d))) (\<lambda>segs.
     bnd (orFail (recoverData E n (tagShards d flds) n (n * (cd_tagCount d - 1)))) (\<lambda>tags.
     seq (checkFault E name segs tags fault)
     (ret (map (\<lambda>i. case flds ! i of
          Some c \<Rightarrow> Some c
        | None \<Rightarrow> Some (shardAt segs i @ concat (map (\<lambda>j. shardAt tags (j * n + i)) [0..<cd_tagCount d])))
       [0..<n])))))"

text \<open>\<open>Recover\<close> extends a short slice by \<open>append\<close>: the caller then keeps the chunks as the check left them.\<close>

definition normAt :: "('f, 'p, 'q) coding \<Rightarrow> nat \<Rightarrow> bytes option" where
  "normAt s i = (if i < length (snd s) \<and> length (chunkAt s i) = cd_fragmentSize (fst s) then snd s ! i else None)"

definition restored :: "('f, 'p, 'q) coding \<Rightarrow> bytes option list \<Rightarrow> nat \<Rightarrow> bytes option" where
  "restored s flds i =
     (if i < cd_chunkCount (fst s) then
        if length (snd s) < cd_chunkCount (fst s) then normAt s i
        else (case normAt s i of Some c \<Rightarrow> Some c | None \<Rightarrow> Some (Prefix_Serialize (cd_Prefix (fst s)) @ shardAt flds i))
      else snd s ! i)"

definition Recover :: "('f :: comm_ring_1, 'p :: ab_group_add, 'q) codeLib \<Rightarrow> bytes option \<Rightarrow> (('f, 'p, 'q) coding, unit) go" where
  "Recover E name =
     bnd (VerifyStripe E name) (\<lambda>(_, scount).
     bnd (gets id) (\<lambda>s. let d = fst s in
     seq (reject (scount < cd_dc d) ''the recovered data is incorrect'')
     (bnd (recoverField E name (map (\<lambda>i. map_option (sub (cd_prefixSize d) (cd_fragmentSize d)) (normAt s i)) [0..<cd_chunkCount d])) (\<lambda>flds.
        modify (\<lambda>s. (fst s, map (restored s flds) [0..<length (snd s)]))))))"

definition Decode :: "('f :: comm_ring_1, 'p :: ab_group_add, 'q) codeLib \<Rightarrow> bytes option \<Rightarrow> (('f, 'p, 'q) coding, bytes) go" where
  "Decode E name =
     bnd (VerifyStripe E name) (\<lambda>(ok, scount).
     bnd (gets (\<lambda>s. cd_dc (fst s))) (\<lambda>dc.
     seq (reject (scount < dc) ''the recovered data is incorrect'')
     (seq (if ok then ret () else Recover E None)
     (bnd (gets id) (\<lambda>(d, st).
      foldM [0..<dc] [] (\<lambda>j res. case st ! j of
          None \<Rightarrow> fail (Panic ''slice bounds out of range'')
        | Some c \<Rightarrow> ret (res @ segPart d c)))))))"

section \<open>Functions over a chunk or a stripe\<close>

text \<open>The count of tags is computed in 32 bits, where a parity of zero wraps around.\<close>

definition VerifyChunkLength :: "bytes option \<Rightarrow> ('s, unit) go" where
  "VerifyChunkLength data =
     bnd (orErr ''data length is zero'' data) (\<lambda>b.
     bnd (orFail (DeserializePrefix b)) (\<lambda>pre.
     seq (reject (px_Version pre \<noteq> 1) ''version is not supported'')
     (seq (reject (px_DataCount pre = 0) ''policy is not supported'')
     (let tagLen = (if TagMap (px_TagFlag pre) = 0 then 48 else TagMap (px_TagFlag pre));
          fragSize = unat (px_SegSize pre) + tagLen * unat (2 + (px_ParityCount pre - 1) div px_DataCount pre) + DefaultPrefixLen
      in reject (length b \<noteq> fragSize) ''data length is wrong''))))"

definition code_Verify :: "('f :: comm_ring_1, 'p :: ab_group_add, 'q) codeLib \<Rightarrow> ('f, 'p, 'q) KeySet option \<Rightarrow> bytes \<Rightarrow> bytes \<Rightarrow> ('s, bool) go" where
  "code_Verify E ko name data = (case ko of
      None \<Rightarrow> ret False
    | Some k \<Rightarrow>
      if data = [] \<or> ks_Pk k = None then ret False
      else if length data < DefaultPrefixLen then fail (Panic ''slice bounds out of range'')
      else case DeserializePrefix (take DefaultPrefixLen data) of
          Inl _ \<Rightarrow> ret False
        | Inr prefix \<Rightarrow>
          if px_Version prefix = 0 \<or> px_DataCount prefix = 0 then ret False
          else onBad (NewDataCoderWithPrefix k (Some prefix))
            (\<lambda>d. onBad (VerifyChunk E d name data) ret (ret False)) (ret False))"

definition Repair :: "('f :: comm_ring_1, 'p :: ab_group_add, 'q) codeLib \<Rightarrow> ('f, 'p, 'q) KeySet \<Rightarrow> bytes option list \<Rightarrow> (err + bytes option list)" where
  "Repair E ks stripe =
     (let pre = (case find (\<lambda>c. case c of None \<Rightarrow> False | Some b \<Rightarrow> length b \<ge> DefaultPrefixLen) stripe of
          Some (Some b) \<Rightarrow> (case DeserializePrefix b of Inl e \<Rightarrow> Inl e | Inr p \<Rightarrow> Inr (Some p))
        | _ \<Rightarrow> Inr None)
      in case pre of
          Inl e \<Rightarrow> Inl e
        | Inr po \<Rightarrow> (case NewDataCoderWithPrefix ks po () of
            (Inl e, _) \<Rightarrow> Inl e
          | (Inr coder, _) \<Rightarrow> (case Recover E None (coder, stripe) of
              (Inl e, _) \<Rightarrow> Inl e
            | (Inr _, (_, st)) \<Rightarrow> Inr st)))"

end
