(* ===== verification/PdpSafe.thy ===== *)
theory PdpSafe
  imports Pdp "HOL-Library.Multiset"
begin

text \<open>
  Why a proof of storage convinces the chain: the keys that are generated, the tags made with them and
  the division by \<open>x - r\<close> satisfy the pairing equation of the verifier.
\<close>

section \<open>Keys\<close>

text \<open>The key set of a secret \<open>s\<close> and a point \<open>a\<close>.\<close>

definition keyset :: "('f :: comm_ring_1, 'p, 'q) curve \<Rightarrow> i64 \<Rightarrow> 'f \<Rightarrow> 'f \<Rightarrow> ('f, 'p, 'q) KeySet" where
  "keyset B cnt s a = \<lparr>
     ks_Pk = Some \<lparr>pk_Count = cnt, pk_BlsPk = bl_mul2 B (bl_one2 B) s, pk_Zeta = bl_mul2 B (bl_one2 B) (a * s),
       pk_Phi = bl_mul1 B (bl_one1 B) s, pk_ElemAlphas = powers_of B a (nat (sint cnt))\<rparr>,
     ks_Sk = Some \<lparr>sk_BlsSk = s, sk_Alpha = a, sk_ElemAlpha = map (\<lambda>i. a ^ i) [0..<nat (sint cnt)]\<rparr>,
     ks_typ = DefaultType\<rparr>"

text \<open>A loop that fills a slice from one upwards, each element from those before it.\<close>

lemma fill_loop:
  assumes step: "\<And>i rest. 0 < i \<Longrightarrow> i < n \<Longrightarrow> f (map g [0..<i] @ z # rest) i = g i"
    and m: "0 < m" "m \<le> n"
  shows "foldl (\<lambda>xs i. xs[i := f xs i]) (map g [0..<1] @ replicate (n - 1) z) [1..<m] = map g [0..<m] @ replicate (n - m) z"
  using m
proof (induction m)
  case (Suc m)
  show ?case
  proof (cases "m = 0")
    case False
    then have m: "0 < m" "m < n"
      using Suc.prems by auto
    have r: "replicate (n - m) z = z # replicate (n - Suc m) z"
      using m(2) by (metis Suc_diff_Suc replicate_Suc)
    have "f (map g [0..<m] @ z # replicate (n - Suc m) z) m = g m"
      by (rule step [OF m])
    then show ?thesis
      using Suc.IH m r by (simp add: list_update_append)
  qed simp
qed simp

lemma powLoop_powers: "0 < n \<Longrightarrow> powLoop a n ((replicate n 0)[0 := 1]) = map (\<lambda>i. a ^ i) [0..<n]"
proof -
  assume n: "0 < n"
  have start: "(replicate n 0)[0 := 1] = map (\<lambda>i. a ^ i) [0..<1] @ replicate (n - 1) 0"
    using n by (cases n) auto
  show ?thesis
    unfolding powLoop_def start
    using n by (subst fill_loop) (auto simp: nth_append power_eq_if)
qed

lemma elems_powers:
  assumes "curve_law B" and n: "0 < n"
  shows "foldl (\<lambda>us i. us[i := bl_mul1 B (us ! 0) (map (\<lambda>i. a ^ i) [0..<n] ! i)]) ((replicate n 0)[0 := bl_one1 B]) [1..<n] = powers_of B a n"
proof -
  have start: "(replicate n 0)[0 := bl_one1 B] = map (\<lambda>i. bl_mul1 B (bl_one1 B) (a ^ i)) [0..<1] @ replicate (n - 1) 0"
    using n by (cases n) (auto simp: curve_lawD(9) [OF assms(1)])
  show ?thesis
    unfolding start powers_of_def
    using n by (subst fill_loop) (auto simp: nth_append curve_lawD(9) [OF assms(1)])
qed

lemma newKeys_run:
  assumes "curve_law B" and "0 <s cnt"
  shows "newKeys B cnt s a st = (Inr (keyset B cnt s a), st)"
proof -
  have n: "0 < nat (sint cnt)" "\<not> cnt <s 0" "cnt \<noteq> 0"
    using assms(2) by (auto simp: word_sless_alt)
  then show ?thesis
    by (simp add: newKeys_def KeySet_Calculate_def Let_def keyset_def powLoop_powers elems_powers [OF assms(1), unfolded One_nat_def])
qed

lemma newKeys_Inr:
  assumes "curve_law B" and "newKeys B cnt s a st = (Inr ks, st')"
  shows "ks = keyset B cnt s a" and "0 < sint cnt" and "st' = st"
proof -
  have "0 <s cnt"
    using assms(2) by (auto simp: newKeys_def word_sless_alt less_le signed_eq_0_iff split: if_splits)
  then show "ks = keyset B cnt s a" "0 < sint cnt" "st' = st"
    using newKeys_run [OF assms(1), of cnt s a st] assms(2) by (auto simp: word_sless_alt)
qed

section \<open>Atoms and tags\<close>

definition atoms_of :: "('f :: comm_ring_1, 'p, 'q) curve \<Rightarrow> bytes \<Rightarrow> 'f list" where
  "atoms_of B seg = map (\<lambda>i. frSet B 0 (sub (31 * i) (31 * (i + 1)) seg)) [0..<(length seg - 1) div 31] @
     [frSet B 0 (drop (31 * ((length seg - 1) div 31)) seg)]"

lemma length_atoms [simp]: "length (atoms_of B seg) = (length seg - 1) div 31 + 1"
  by (simp add: atoms_of_def)

lemma split_run [simp]: "seg \<noteq> [] \<Longrightarrow> splitSegmentToAtoms B seg DefaultType st = (Inr (atoms_of B seg), st)"
  by (simp add: splitSegmentToAtoms_def DefaultType_def atoms_of_def Let_def)

lemma split_empty [simp]: "splitSegmentToAtoms B [] typ st = (Inl (Err ''length is zero''), st)"
  by (simp add: splitSegmentToAtoms_def)

lemma indexFr_any: "curve_law B \<Longrightarrow> indexFr B d i = indexFr B 0 i"
  by (simp add: indexFr_def frSet_def FrFromBytes_def curve_lawD)

lemma challengeFr_index: "curve_law B \<Longrightarrow> challengeFr B i = Inr (indexFr B 0 i)"
  by (simp add: challengeFr_def indexFr_def frSet_def FrFromBytes_def curve_lawD)

text \<open>The exponent of an honest tag, without the factor of the secret key.\<close>

definition content :: "('f :: comm_ring_1, 'p, 'q) curve \<Rightarrow> 'f \<Rightarrow> bytes \<Rightarrow> bytes \<Rightarrow> 'f" where
  "content B a i seg = indexFr B 0 i + peval (atoms_of B seg) a"

lemma GenTag_run:
  assumes "curve_law B" and "seg \<noteq> []"
  shows "GenTag B (Some (keyset B cnt s a)) i seg 0 True st = (Inr (bl_comp1 B (bl_mul1 B (bl_one1 B) (content B a i seg * s))), st)"
  using assms(2) by (simp add: GenTag_def keyset_def Let_def EvalPolyAt_peval content_def distrib_right curve_lawD(3,4,5) [OF assms(1)])

lemma GenTag_Inr:
  assumes "curve_law B" and "GenTag B (Some (keyset B cnt s a)) i seg 0 True st = (Inr tag, st')"
  shows "seg \<noteq> []" and "bl_decomp1 B tag = Some (bl_mul1 B (bl_one1 B) (content B a i seg * s))"
proof -
  show seg: "seg \<noteq> []"
    using assms(2) by (auto simp: GenTag_def keyset_def)
  show "bl_decomp1 B tag = Some (bl_mul1 B (bl_one1 B) (content B a i seg * s))"
    using GenTag_run [OF assms(1) seg, of cnt s a i st] assms(2) by (auto simp: curve_lawD(11) [OF assms(1)])
qed

section \<open>The division\<close>

lemma quotLoop_inv:
  assumes "length q = n" and "length p = Suc n" and "j < n"
    and "\<forall>i. j \<le> i \<and> i < n \<longrightarrow> q ! i = peval (drop (Suc i) p) r"
  shows "quotLoop p r j q = map (\<lambda>i. peval (drop (Suc i) p) r) [0..<n]"
  using assms
proof (induction j arbitrary: q)
  case 0
  then show ?case
    by (auto intro: nth_equalityI)
next
  case (Suc j)
  have "drop (Suc j) p = p ! Suc j # drop (Suc (Suc j)) p"
    using Suc.prems by (simp add: Cons_nth_drop_Suc)
  then have "q ! Suc j * r + p ! Suc j = peval (drop (Suc j) p) r"
    using Suc.prems by (simp add: algebra_simps)
  then have "quotLoop p r j (q[j := q ! Suc j * r + p ! Suc j]) = map (\<lambda>i. peval (drop (Suc i) p) r) [0..<n]"
    using Suc.prems by (intro Suc.IH) (auto simp: nth_list_update)
  then show ?case
    by simp
qed

lemma quotient_eval:
  "peval p x - peval p r = (x - r) * peval (map (\<lambda>i. peval (drop (Suc i) p) r) [0..<length p - 1]) x"
proof (induction p)
  case (Cons c p)
  have "map (\<lambda>i. peval (drop (Suc i) (c # p)) r) [0..<length (c # p) - 1] = (if p = [] then [] else peval p r # map (\<lambda>i. peval (drop (Suc i) p) r) [0..<length p - 1])"
    by (cases p) (auto simp: upt_conv_Cons comp_def simp del: upt_Suc simp flip: map_Suc_upt)
  moreover have "peval (c # p) x - peval (c # p) r = (x - r) * peval p r + x * (peval p x - peval p r)"
    by (simp add: algebra_simps)
  ultimately show ?case
    unfolding Cons.IH by (simp add: algebra_simps)
qed simp

lemma Polydiv_run:
  assumes "p \<noteq> []"
  shows "\<exists>q. Polydiv p r st = (Inr q, st) \<and> length q = length p - 1 \<and> (\<forall>x. peval p x - peval p r = (x - r) * peval q x)"
proof -
  let ?q = "map (\<lambda>i. peval (drop (Suc i) p) r) [0..<length p - 1]"
  have "Polydiv p r st = (Inr ?q, st)"
  proof (cases "length p - 1")
    case 0
    then show ?thesis
      using assms by (simp add: Polydiv_def)
  next
    case (Suc m)
    have "drop (Suc m) p = [p ! Suc m]"
      using Suc Cons_nth_drop_Suc [of "Suc m" p] by simp
    then have "quotLoop p r m ((replicate (Suc m) 0)[m := p ! Suc m]) = map (\<lambda>i. peval (drop (Suc i) p) r) [0..<Suc m]"
      using Suc by (intro quotLoop_inv) (auto simp: less_Suc_eq_le simp del: replicate_Suc)
    then show ?thesis
      using assms Suc by (simp add: Polydiv_def Let_def del: upt_Suc replicate_Suc)
  qed
  then show ?thesis
    using quotient_eval [of p _ r] by auto
qed

section \<open>Sums\<close>

lemma peval_update: "j < length xs \<Longrightarrow> peval (xs[j := xs ! j + c]) x = peval xs x + c * x ^ j"
proof (induction xs arbitrary: j)
  case (Cons y ys)
  then show ?case
    by (cases j) (auto simp: algebra_simps)
qed simp

lemma addAtoms_run:
  "j + length as \<le> length xs \<Longrightarrow>
     \<exists>t. addAtoms j as xs = (Inr (), t) \<and> length t = length xs \<and> (\<forall>x. peval t x = peval xs x + x ^ j * peval as x)"
proof (induction as arbitrary: j xs)
  case (Cons a as)
  then obtain t where "addAtoms (Suc j) as (xs[j := xs ! j + a]) = (Inr (), t)" "length t = length xs"
    and "\<forall>x. peval t x = peval (xs[j := xs ! j + a]) x + x ^ Suc j * peval as x"
    using Cons.IH [of "Suc j" "xs[j := xs ! j + a]"] by auto
  then show ?case
    using Cons.prems peval_update [of j xs a] by (auto simp: algebra_simps)
qed simp

lemma onSums_run: "m (get s) = (Inr (), t) \<Longrightarrow> onSums get put m s = (Inr (), put t s)"
  by (simp add: onSums_def)

text \<open>One segment added on either side.  The count of the atoms has to fit into the sums.\<close>

definition fits :: "nat \<Rightarrow> bytes \<Rightarrow> bool" where
  "fits n seg \<longleftrightarrow> seg \<noteq> [] \<and> (length seg - 1) div 31 < n"

lemma pa_Add_run:
  assumes "curve_law B" and "fits (length (pa_sums pa)) seg" and "bl_decomp1 B tag = Some t" and "pa_typ pa = DefaultType"
  shows "\<exists>pa'. ProofAggregator_Add B i seg tag pa = (Inr (), pa') \<and> length (pa_sums pa') = length (pa_sums pa) \<and>
     (\<forall>x. peval (pa_sums pa') x = peval (pa_sums pa) x + peval (atoms_of B seg) x) \<and> pa_delta pa' = pa_delta pa + t \<and>
     pa_HWi pa' = pa_HWi pa + indexFr B 0 i \<and> pa_pk pa' = pa_pk pa \<and> pa_r pa' = pa_r pa \<and> pa_typ pa' = pa_typ pa"
proof -
  have "0 + length (atoms_of B seg) \<le> length (pa_sums pa)" and seg: "seg \<noteq> []"
    using assms(2) by (auto simp: fits_def)
  from addAtoms_run [OF this(1)] obtain u where u: "addAtoms 0 (atoms_of B seg) (pa_sums pa) = (Inr (), u)"
    "length u = length (pa_sums pa)" "\<forall>x. peval u x = peval (pa_sums pa) x + peval (atoms_of B seg) x"
    by auto
  show ?thesis
    using onSums_run [where get = pa_sums and s = pa and m = "addAtoms 0 (atoms_of B seg)", OF u(1)] u(2,3) seg assms(3,4) indexFr_any [OF assms(1), of "pa_tempFr pa" i]
    by (simp add: ProofAggregator_Add_def G1Deserialize_def)
qed

lemma dv_Add_run:
  assumes "fits (length (dv_sums dv)) seg" and "bl_decomp1 B tag = Some t" and "dv_typ dv = DefaultType"
  shows "\<exists>dv'. DataVerifier_Add B i seg tag dv = (Inr (), dv') \<and> length (dv_sums dv') = length (dv_sums dv) \<and>
     (\<forall>x. peval (dv_sums dv') x = peval (dv_sums dv) x + peval (atoms_of B seg) x) \<and> dv_delta dv' = dv_delta dv + t \<and>
     dv_HWi dv' = dv_HWi dv + indexFr B 0 i \<and> dv_pk dv' = dv_pk dv \<and> dv_sk dv' = dv_sk dv \<and> dv_typ dv' = dv_typ dv"
proof -
  have "0 + length (atoms_of B seg) \<le> length (dv_sums dv)" and seg: "seg \<noteq> []"
    using assms(1) by (auto simp: fits_def)
  from addAtoms_run [OF this(1)] obtain u where u: "addAtoms 0 (atoms_of B seg) (dv_sums dv) = (Inr (), u)"
    "length u = length (dv_sums dv)" "\<forall>x. peval u x = peval (dv_sums dv) x + peval (atoms_of B seg) x"
    by auto
  show ?thesis
    using onSums_run [where get = dv_sums and s = dv and m = "addAtoms 0 (atoms_of B seg)", OF u(1)] u(2,3) seg assms(2,3)
    by (simp add: DataVerifier_Add_def G1Deserialize_def)
qed

text \<open>A list of segments; \<open>tx\<close> gives the exponents of the tags.\<close>

lemma pa_items_run:
  assumes "curve_law B" and "\<forall>(i, seg, tag) \<in> set items. fits (length (pa_sums pa)) seg \<and> bl_decomp1 B tag = Some (bl_mul1 B (bl_one1 B) (tx (i, seg, tag)))"
    and "pa_typ pa = DefaultType"
  shows "\<exists>pa'. forM items (\<lambda>(i, seg, tag). ProofAggregator_Add B i seg tag) pa = (Inr (), pa') \<and> length (pa_sums pa') = length (pa_sums pa) \<and>
     (\<forall>x. peval (pa_sums pa') x = peval (pa_sums pa) x + (\<Sum>(i, seg, tag) \<leftarrow> items. peval (atoms_of B seg) x)) \<and>
     pa_delta pa' = pa_delta pa + bl_mul1 B (bl_one1 B) (\<Sum>it \<leftarrow> items. tx it) \<and>
     pa_HWi pa' = pa_HWi pa + (\<Sum>(i, seg, tag) \<leftarrow> items. indexFr B 0 i) \<and> pa_pk pa' = pa_pk pa \<and> pa_r pa' = pa_r pa"
  using assms(2,3)
proof (induction items arbitrary: pa)
  case Nil
  then show ?case
    by (simp add: mul1_zero [OF assms(1)])
next
  case (Cons it items)
  obtain i seg tag where it: "it = (i, seg, tag)"
    by (metis prod_cases3)
  obtain pa1 where 1: "ProofAggregator_Add B i seg tag pa = (Inr (), pa1)" "length (pa_sums pa1) = length (pa_sums pa)"
    "\<forall>x. peval (pa_sums pa1) x = peval (pa_sums pa) x + peval (atoms_of B seg) x" "pa_delta pa1 = pa_delta pa + bl_mul1 B (bl_one1 B) (tx it)"
    "pa_HWi pa1 = pa_HWi pa + indexFr B 0 i" "pa_pk pa1 = pa_pk pa" "pa_r pa1 = pa_r pa" "pa_typ pa1 = pa_typ pa"
    using pa_Add_run [OF assms(1), of pa seg tag _ i] Cons.prems it by auto
  then show ?case
    using Cons.IH [of pa1] Cons.prems it by (auto simp: curve_lawD(3) [OF assms(1)] add.assoc)
qed

lemma dv_items_run:
  assumes "curve_law B" and "\<forall>(i, seg, tag) \<in> set items. fits (length (dv_sums dv)) seg \<and> bl_decomp1 B tag = Some (bl_mul1 B (bl_one1 B) (tx (i, seg, tag)))"
    and "dv_typ dv = DefaultType"
  shows "\<exists>dv'. forM items (\<lambda>(i, seg, tag). DataVerifier_Add B i seg tag) dv = (Inr (), dv') \<and> length (dv_sums dv') = length (dv_sums dv) \<and>
     (\<forall>x. peval (dv_sums dv') x = peval (dv_sums dv) x + (\<Sum>(i, seg, tag) \<leftarrow> items. peval (atoms_of B seg) x)) \<and>
     dv_delta dv' = dv_delta dv + bl_mul1 B (bl_one1 B) (\<Sum>it \<leftarrow> items. tx it) \<and>
     dv_HWi dv' = dv_HWi dv + (\<Sum>(i, seg, tag) \<leftarrow> items. indexFr B 0 i) \<and> dv_pk dv' = dv_pk dv \<and> dv_sk dv' = dv_sk dv \<and> dv_typ dv' = dv_typ dv"
  using assms(2,3)
proof (induction items arbitrary: dv)
  case Nil
  then show ?case
    by (simp add: mul1_zero [OF assms(1)])
next
  case (Cons it items)
  obtain i seg tag where it: "it = (i, seg, tag)"
    by (metis prod_cases3)
  obtain dv1 where 1: "DataVerifier_Add B i seg tag dv = (Inr (), dv1)" "length (dv_sums dv1) = length (dv_sums dv)"
    "\<forall>x. peval (dv_sums dv1) x = peval (dv_sums dv) x + peval (atoms_of B seg) x" "dv_delta dv1 = dv_delta dv + bl_mul1 B (bl_one1 B) (tx it)"
    "dv_HWi dv1 = dv_HWi dv + indexFr B 0 i" "dv_pk dv1 = dv_pk dv" "dv_sk dv1 = dv_sk dv" "dv_typ dv1 = dv_typ dv"
    using dv_Add_run [of dv seg B tag _ i] Cons.prems it by auto
  then show ?case
    using Cons.IH [of dv1] Cons.prems it by (auto simp: curve_lawD(3) [OF assms(1)] add.assoc)
qed

section \<open>The equations\<close>

text \<open>The public part of a key set.\<close>

definition pubOf :: "('f :: comm_ring_1, 'p, 'q) curve \<Rightarrow> i64 \<Rightarrow> 'f \<Rightarrow> 'f \<Rightarrow> ('p, 'q) PublicKey" where
  "pubOf B cnt s a = the (ks_Pk (keyset B cnt s a))"

lemma pubOf_simps [simp]:
  "pk_Count (pubOf B cnt s a) = cnt" "pk_BlsPk (pubOf B cnt s a) = bl_mul2 B (bl_one2 B) s"
  "pk_Zeta (pubOf B cnt s a) = bl_mul2 B (bl_one2 B) (a * s)" "pk_Phi (pubOf B cnt s a) = bl_mul1 B (bl_one1 B) s"
  "pk_ElemAlphas (pubOf B cnt s a) = powers_of B a (nat (sint cnt))" "ks_Pk (keyset B cnt s a) = Some (pubOf B cnt s a)"
  by (simp_all add: pubOf_def keyset_def)

lemma check_one2:
  assumes "curve_law B"
  shows "bl_check B (bl_mul1 B (bl_one1 B) x) (bl_one2 B) (bl_mul1 B (bl_one1 B) y) (bl_mul2 B (bl_one2 B) z) \<longleftrightarrow> x = y * z"
  using curve_lawD(15) [OF assms, of x 1 y z] curve_lawD(10) [OF assms, of "bl_one2 B"] by simp

lemma proofCheck_iff:
  assumes "curve_law B"
  shows "proofCheck B (PublicKey_VerifyKey (pubOf B cnt s a)) h r
      \<lparr>pf_Psi = bl_mul1 B (bl_one1 B) z, pf_Kappa = bl_mul1 B (bl_one1 B) k\<rparr> \<longleftrightarrow> k - s * h = z * (a * s - s * r)"
  unfolding proofCheck_def PublicKey_VerifyKey_def
  by (simp add: curve_lawD(4,7) [OF assms] check_one2 [OF assms] flip: mul1_diff [OF assms] mul2_diff [OF assms])

lemma pa_Result_run:
  assumes "curve_law B" and "length (pa_r pa) = 32" and pk: "pa_pk pa = pubOf B cnt s a" and n: "0 < sint cnt" "length (pa_sums pa) = nat (sint cnt)"
    and delta: "pa_delta pa = bl_mul1 B (bl_one1 B) ((pa_HWi pa + peval (pa_sums pa) a) * s)"
  shows "\<exists>pf pa'. ProofAggregator_Result B pa = (Inr (pf, None), pa') \<and>
     proofCheck B (PublicKey_VerifyKey (pubOf B cnt s a)) (pa_HWi pa) (frSet B 0 (pa_r pa)) pf"
proof -
  let ?r = "frSet B 0 (pa_r pa)" and ?g = "bl_mul1 B (bl_one1 B)"
  have "pa_sums pa \<noteq> []"
    using n by auto
  from Polydiv_run [OF this, of ?r pa] obtain q where q: "Polydiv (pa_sums pa) ?r pa = (Inr q, pa)" "length q = nat (sint cnt) - 1"
    "peval (pa_sums pa) a - peval (pa_sums pa) ?r = (a - ?r) * peval q a"
    using n by auto
  let ?pf = "\<lparr>pf_Psi = ?g (peval q a), pf_Kappa = ?g ((pa_HWi pa + peval (pa_sums pa) a) * s - s * peval (pa_sums pa) ?r)\<rparr>"
  have "(pa_HWi pa + peval (pa_sums pa) a) * s - s * peval (pa_sums pa) ?r - s * pa_HWi pa = peval q a * (a * s - s * ?r)"
    using arg_cong [OF q(3), of "\<lambda>x. s * x"] by (simp add: algebra_simps)
  then have ok: "proofCheck B (PublicKey_VerifyKey (pubOf B cnt s a)) (pa_HWi pa) ?r ?pf"
    unfolding proofCheck_iff [OF assms(1)] .
  have "ProofAggregator_Result B pa = (Inr (?pf, None), pa\<lparr>pa_tempFr := ?r\<rparr>)"
    using ok q(1,2) n
    by (simp add: ProofAggregator_Result_def Let_def pk delta EvalPolyAt_peval take_powers exp_powers [OF assms(1)]
        mul1_diff [OF assms(1)] curve_lawD(4) [OF assms(1)] frSet_any [of "pa_r pa" B "pa_tempFr pa"] assms(2))
  then show ?thesis
    using ok by blast
qed

lemma chal_items_run:
  assumes "curve_law B"
  shows "forM items (\<lambda>(i, seg, tag). Challenge_Add B i) c =
     (Inr (), c\<lparr>ch_pubInput := ch_pubInput c + (\<Sum>(i, seg, tag) \<leftarrow> items. indexFr B 0 i)\<rparr>)"
proof (induction items arbitrary: c)
  case (Cons it items)
  then show ?case
    by (cases it) (simp add: Challenge_Add_def challengeFr_index [OF assms] add.assoc)
qed simp

lemma makeFrs_run: "0 < sint n \<Longrightarrow> makeFrs n st = (Inr (replicate (nat (sint n)) 0), st)"
  by (simp add: makeFrs_def word_sless_alt)

lemma GenKeySetWithSeed_Inr:
  assumes "curve_law B" and "GenKeySetWithSeed B seed cnt st = (Inr ks, st')"
  obtains s a where "ks = keyset B cnt s a" and "0 < sint cnt" and "st' = st"
  using newKeys_Inr [OF assms(1) assms(2) [unfolded GenKeySetWithSeed_def Let_def]] that by metis

lemma sum_content:
  "(\<Sum>(i, seg, tag) \<leftarrow> items. content B a i seg * s) =
     ((\<Sum>(i, seg, tag) \<leftarrow> items. indexFr B 0 i) + (\<Sum>(i, seg, tag) \<leftarrow> items. peval (atoms_of B seg) a)) * s"
  by (induction items) (auto simp: content_def algebra_simps)

text \<open>
  C34: A proof of storage is accepted.  Take keys from \<open>GenKeySetWithSeed\<close>, any segments of at most as
  many atoms as the key has elements, and the tags that \<open>GenTag\<close> makes for them: a provider that adds
  all of them to a new aggregator gets a proof without an error, and \<open>VerifyProof\<close> accepts it for the
  challenge to which the same indices were added.
\<close>

theorem proof_of_storage:
  fixes B :: "('f :: comm_ring_1, 'p :: ab_group_add, 'q :: ab_group_add) curve"
  assumes law: "curve_law B" and keys: "GenKeySetWithSeed B seed cnt () = (Inr ks, ())" and pk: "ks_Pk ks = Some pk"
    and tags: "\<forall>(i, seg, tag) \<in> set items. fits (nat (sint cnt)) seg \<and> GenTag B (Some ks) i seg 0 True () = (Inr tag, ())"
    and r: "length r = 32"
  shows "\<exists>pa pa' pa'' pf chal. NewProofAggregator pk r () = (Inr pa, ()) \<and>
    forM items (\<lambda>(i, seg, tag). ProofAggregator_Add B i seg tag) pa = (Inr (), pa') \<and>
    ProofAggregator_Result B pa' = (Inr (pf, None), pa'') \<and>
    forM items (\<lambda>(i, seg, tag). Challenge_Add B i) (NewChallenge r) = (Inr (), chal) \<and>
    VerifyProof B (Some (PublicKey_VerifyKey pk)) chal (Some pf) () = (Inr True, ())"
proof -
  obtain s a where ks: "ks = keyset B cnt s a" and cnt: "0 < sint cnt"
    using GenKeySetWithSeed_Inr [OF law keys] by blast
  then have pk: "pk = pubOf B cnt s a"
    using pk by simp
  define pa :: "('f, 'p, 'q) ProofAggregator" where
    "pa = \<lparr>pa_pk = pk, pa_r = r, pa_typ = DefaultType, pa_sums = replicate (nat (sint cnt)) 0, pa_delta = 0, pa_tempG1 = 0, pa_tempFr = 0, pa_HWi = 0\<rparr>"
  have new: "NewProofAggregator pk r () = (Inr pa, ())"
    by (simp add: NewProofAggregator_def makeFrs_run [OF cnt] pk pa_def)
  let ?tx = "\<lambda>(i, seg, tag :: bytes). content B a i seg * s"
  have "\<forall>(i, seg, tag) \<in> set items. fits (length (pa_sums pa)) seg \<and> bl_decomp1 B tag = Some (bl_mul1 B (bl_one1 B) (?tx (i, seg, tag)))"
    using tags GenTag_Inr(2) [OF law] unfolding ks by (fastforce simp: pa_def)
  from pa_items_run [OF law this] obtain pa' where add: "forM items (\<lambda>(i, seg, tag). ProofAggregator_Add B i seg tag) pa = (Inr (), pa')"
    and pa': "length (pa_sums pa') = nat (sint cnt)" "peval (pa_sums pa') a = (\<Sum>(i, seg, tag) \<leftarrow> items. peval (atoms_of B seg) a)"
      "pa_delta pa' = bl_mul1 B (bl_one1 B) (\<Sum>it \<leftarrow> items. ?tx it)" "pa_HWi pa' = (\<Sum>(i, seg, tag) \<leftarrow> items. indexFr B 0 i)" "pa_pk pa' = pk" "pa_r pa' = r"
    by (auto simp: pa_def)
  have "pa_delta pa' = bl_mul1 B (bl_one1 B) ((pa_HWi pa' + peval (pa_sums pa') a) * s)"
    using pa' sum_content [of B a s items] by simp
  from pa_Result_run [OF law _ _ cnt pa'(1) this] obtain pf pa'' where res: "ProofAggregator_Result B pa' = (Inr (pf, None), pa'')"
    and ok: "proofCheck B (PublicKey_VerifyKey (pubOf B cnt s a)) (pa_HWi pa') (frSet B 0 r) pf"
    using r pk pa'(5,6) by auto
  show ?thesis
    using new add res ok chal_items_run [OF law, of items "NewChallenge r"] pa'(4) unfolding pk
    by (auto simp: VerifyProof_def Challenge_PublicInput_def frSet_ToBytes [OF law] NewChallenge_def)
qed

text \<open>An example on the curve of 64-bit numbers: a key of two elements, two segments of one and of two atoms.\<close>

definition ex_s :: u64 where "ex_s = frSet word_curve 0 (bl_sum256 word_curve [3])"
definition ex_a :: u64 where "ex_a = frSet word_curve 0 (bl_sum256 word_curve (bl_sum256 word_curve [3]))"
definition ex_ks :: "(u64, u64, u64) KeySet" where "ex_ks = keyset word_curve 2 ex_s ex_a"

definition ex_tag :: "bytes \<Rightarrow> bytes \<Rightarrow> bytes" where
  "ex_tag i seg = bl_comp1 word_curve (content word_curve ex_a i seg * ex_s)"

definition ex_items :: "(bytes \<times> bytes \<times> bytes) list" where
  "ex_items = [([1], [7], ex_tag [1] [7]), ([2], replicate 40 5, ex_tag [2] (replicate 40 5))]"

lemma ex_keys: "GenKeySetWithSeed word_curve [3] 2 st = (Inr ex_ks, st)"
  unfolding GenKeySetWithSeed_def Let_def ex_ks_def ex_s_def ex_a_def
  by (rule newKeys_run [OF word_curve_law]) (simp add: word_sless_alt)

lemma ex_GenTag: "seg \<noteq> [] \<Longrightarrow> GenTag word_curve (Some ex_ks) i seg 0 True st = (Inr (ex_tag i seg), st)"
  using GenTag_run [OF word_curve_law, of seg 2 ex_s ex_a i st] by (simp add: ex_ks_def ex_tag_def word_curve_def)

lemma ex_items_ok:
  "\<forall>(i, seg, tag) \<in> set ex_items. fits (nat (sint (2 :: i64))) seg \<and> GenTag word_curve (Some ex_ks) i seg 0 True () = (Inr tag, ())"
  by (simp add: ex_items_def ex_GenTag fits_def)

theorem proof_of_storage_witness:
  "\<exists>pa pa' pa'' pf chal. NewProofAggregator (pubOf word_curve 2 ex_s ex_a) (replicate 32 1) () = (Inr pa, ()) \<and>
    forM ex_items (\<lambda>(i, seg, tag). ProofAggregator_Add word_curve i seg tag) pa = (Inr (), pa') \<and>
    ProofAggregator_Result word_curve pa' = (Inr (pf, None), pa'') \<and>
    forM ex_items (\<lambda>(i, seg, tag). Challenge_Add word_curve i) (NewChallenge (replicate 32 1)) = (Inr (), chal) \<and>
    VerifyProof word_curve (Some (PublicKey_VerifyKey (pubOf word_curve 2 ex_s ex_a))) chal (Some pf) () = (Inr True, ())"
  by (rule proof_of_storage [OF word_curve_law ex_keys _ ex_items_ok]) (simp_all add: ex_ks_def)

lemma DefaultType_simps [simp]: "DefaultType \<noteq> 0" "0 < DefaultType" "nat DefaultType = 31"
  by (simp_all add: DefaultType_def)

lemma comp1_inject: "curve_law B \<Longrightarrow> bl_comp1 B p = bl_comp1 B q \<longleftrightarrow> p = q"
  using curve_lawD(11) by (metis option.inject)

lemma check_tag:
  assumes "curve_law B"
  shows "bl_check B t (bl_one2 B) (bl_mul1 B (bl_one1 B) c) (bl_mul2 B (bl_one2 B) s) \<longleftrightarrow> t = bl_mul1 B (bl_one1 B) (c * s)"
proof -
  obtain e where "t = bl_mul1 B (bl_one1 B) e"
    using exponent1 [OF assms] by blast
  then show ?thesis
    using check_one2 [OF assms] mul1_inject [OF assms] by auto
qed

lemma fits_elems: "fits n seg \<Longrightarrow> length seg div 31 \<le> n"
  unfolding fits_def by (cases "length seg") (auto simp: div_Suc split: if_splits)

lemma KeySet_VerifyTag_run:
  assumes "curve_law B" and "fits (nat (sint cnt)) seg"
  shows "KeySet_VerifyTag B (keyset B cnt s a) i seg tag st = (case bl_decomp1 B tag of
      None \<Rightarrow> (Inl (Err ''decompress''), st)
    | Some t \<Rightarrow> if t = bl_mul1 B (bl_one1 B) (content B a i seg * s) then (Inr True, st) else (Inl (Err ''verification failed''), st))"
proof -
  have "seg \<noteq> []" and "\<not> nat (sint cnt) < length seg div 31"
    using assms(2) fits_elems [OF assms(2)] by (auto simp: fits_def)
  then show ?thesis
    unfolding KeySet_VerifyTag_def keyset_def
    by (simp add: EvalPolyAt_peval G1Deserialize_def content_def check_tag [OF assms(1)]
        flip: curve_lawD(3) [OF assms(1)] split: option.splits)
qed

lemma PublicKey_VerifyTag_run:
  assumes "curve_law B" and "fits (nat (sint cnt)) seg"
  shows "PublicKey_VerifyTag B (Some (pubOf B cnt s a)) i seg tag DefaultType st = (case bl_decomp1 B tag of
      None \<Rightarrow> (Inl (Err ''decompress''), st)
    | Some t \<Rightarrow> (Inr (t = bl_mul1 B (bl_one1 B) (content B a i seg * s)), st))"
proof -
  have "seg \<noteq> []" and "Suc ((length seg - Suc 0) div 31) \<le> nat (sint cnt)"
    using assms(2) by (auto simp: fits_def)
  then show ?thesis
    unfolding PublicKey_VerifyTag_def
    by (simp add: take_powers exp_powers [OF assms(1)] G1Deserialize_def content_def check_tag [OF assms(1)]
        flip: curve_lawD(3) [OF assms(1)] split: option.splits)
qed

text \<open>
  C35: The check of a tag decides.  For keys from \<open>GenKeySetWithSeed\<close> and a segment that fits, \<open>VerifyTag\<close> of
  the key set accepts a tag exactly when its bytes are a point, and that point is the one \<open>GenTag\<close>
  makes for this index and this segment; the check with the public key alone agrees.
\<close>

theorem tag_check_decides:
  assumes law: "curve_law B" and keys: "GenKeySetWithSeed B seed cnt () = (Inr ks, ())" and seg: "fits (nat (sint cnt)) seg"
  shows "(KeySet_VerifyTag B ks i seg tag () = (Inr True, ()) \<longleftrightarrow>
      (\<exists>t. bl_decomp1 B tag = Some t \<and> GenTag B (Some ks) i seg 0 True () = (Inr (bl_comp1 B t), ()))) \<and>
    (PublicKey_VerifyTag B (ks_Pk ks) i seg tag DefaultType () = (Inr True, ()) \<longleftrightarrow>
      KeySet_VerifyTag B ks i seg tag () = (Inr True, ()))"
proof -
  obtain s a where ks: "ks = keyset B cnt s a"
    using GenKeySetWithSeed_Inr [OF law keys] by blast
  have "seg \<noteq> []"
    using seg by (simp add: fits_def)
  then have gen: "GenTag B (Some ks) i seg 0 True () = (Inr (bl_comp1 B t), ()) \<longleftrightarrow> t = bl_mul1 B (bl_one1 B) (content B a i seg * s)" for t
    using GenTag_run [OF law, of seg cnt s a i "()"] unfolding ks by (auto simp: comp1_inject [OF law])
  show ?thesis
    unfolding gen unfolding ks pubOf_simps KeySet_VerifyTag_run [OF law seg] PublicKey_VerifyTag_run [OF law seg]
    by (auto split: option.splits)
qed

theorem tag_check_decides_witness:
  "(KeySet_VerifyTag word_curve ex_ks [1] [7] (ex_tag [1] [7]) () = (Inr True, ()) \<longleftrightarrow>
      (\<exists>t. bl_decomp1 word_curve (ex_tag [1] [7]) = Some t \<and> GenTag word_curve (Some ex_ks) [1] [7] 0 True () = (Inr (bl_comp1 word_curve t), ()))) \<and>
    (PublicKey_VerifyTag word_curve (ks_Pk ex_ks) [1] [7] (ex_tag [1] [7]) DefaultType () = (Inr True, ()) \<longleftrightarrow>
      KeySet_VerifyTag word_curve ex_ks [1] [7] (ex_tag [1] [7]) () = (Inr True, ()))"
  by (rule tag_check_decides [OF word_curve_law ex_keys]) (simp add: fits_def)

lemma dv_Result_run:
  assumes "curve_law B" and "dv_pk dv = pubOf B cnt s a" and "length (dv_sums dv) = nat (sint cnt)"
    and "\<forall>sk. dv_sk dv = Some sk \<longrightarrow> sk_Alpha sk = a"
  shows "DataVerifier_Result B dv = (Inr (dv_delta dv = bl_mul1 B (bl_one1 B) ((dv_HWi dv + peval (dv_sums dv) a) * s)), dv)"
  using assms(2-4)
  by (cases "dv_sk dv") (simp_all add: DataVerifier_Result_def EvalPolyAt_peval exp_powers [OF assms(1)] check_tag [OF assms(1)] flip: curve_lawD(3) [OF assms(1)])

lemma exponent_fun:
  assumes "curve_law B"
  shows "\<exists>ex. \<forall>tag t. bl_decomp1 B tag = Some t \<longrightarrow> t = bl_mul1 B (bl_one1 B) (ex tag)"
proof -
  have "t = bl_mul1 B (bl_one1 B) (SOME x. t = bl_mul1 B (bl_one1 B) x)" for t
    by (rule someI_ex) (rule exponent1 [OF assms])
  then show ?thesis
    by (intro exI [of _ "\<lambda>tag. SOME x. the (bl_decomp1 B tag) = bl_mul1 B (bl_one1 B) x"]) auto
qed

lemma honest_exponent:
  assumes "curve_law B" and ex: "\<And>t tag. bl_decomp1 B tag = Some t \<Longrightarrow> t = bl_mul1 B (bl_one1 B) (ex tag)"
    and "GenTag B (Some (keyset B cnt s a)) i seg 0 True st = (Inr tag, st')"
  shows "ex tag = content B a i seg * s" and "bl_decomp1 B tag = Some (bl_mul1 B (bl_one1 B) (ex tag))"
proof -
  note dec = GenTag_Inr(2) [OF assms(1,3)]
  show eq: "ex tag = content B a i seg * s"
    using ex [OF dec] by (rule mul1_inject [OF assms(1), symmetric])
  show "bl_decomp1 B tag = Some (bl_mul1 B (bl_one1 B) (ex tag))"
    using dec eq by simp
qed

lemma sum_exchange:
  fixes xs ys :: "('i \<times> 'u \<times> 'v) list" and f :: "'u \<Rightarrow> 'v \<Rightarrow> 'f :: comm_ring_1"
  shows
  "mset (map snd xs) = mset (map snd ys) \<Longrightarrow> (\<Sum>(i, u, v) \<leftarrow> xs. f u v) = (\<Sum>(i, u, v) \<leftarrow> ys. f u v)"
proof -
  assume eq: "mset (map snd xs) = mset (map snd ys)"
  have "(\<Sum>(i, u, v) \<leftarrow> zs. f u v) = sum_mset (image_mset (\<lambda>(u, v). f u v) (mset (map snd zs)))" for zs :: "('i \<times> 'u \<times> 'v) list"
    by (induction zs) auto
  then show ?thesis
    using eq by metis
qed

lemma sum_indices: "map fst xs = map fst ys \<Longrightarrow> (\<Sum>(i, u, v) \<leftarrow> xs. f i) = (\<Sum>(i, u, v) \<leftarrow> ys. f i)"
proof -
  assume eq: "map fst xs = map fst ys"
  have "(\<Sum>(i, u, v) \<leftarrow> zs. f i) = sum_list (map f (map fst zs))" for zs
    by (induction zs) auto
  then show ?thesis
    using eq by metis
qed

text \<open>
  C36: The aggregated check compares sums only.  Add segments with honest tags to a data verifier, but
  let the pairs of segment and tag be exchanged among the indices: the result is still true.
\<close>

theorem exchanged_segments_pass:
  fixes B :: "('f :: comm_ring_1, 'p :: ab_group_add, 'q :: ab_group_add) curve"
  assumes law: "curve_law B" and keys: "GenKeySetWithSeed B seed cnt () = (Inr ks, ())" and pk: "ks_Pk ks = Some pk"
    and tags: "\<forall>(i, seg, tag) \<in> set items. fits (nat (sint cnt)) seg \<and> GenTag B (Some ks) i seg 0 True () = (Inr tag, ())"
    and swap: "map fst items' = map fst items" "mset (map snd items') = mset (map snd items)"
  shows "\<exists>dv dv'. NewDataVerifier pk None () = (Inr dv, ()) \<and>
    forM items' (\<lambda>(i, seg, tag). DataVerifier_Add B i seg tag) dv = (Inr (), dv') \<and>
    DataVerifier_Result B dv' = (Inr True, dv')"
proof -
  let ?g = "bl_mul1 B (bl_one1 B)"
  obtain s a where ks: "ks = keyset B cnt s a" and cnt: "0 < sint cnt"
    using GenKeySetWithSeed_Inr [OF law keys] by blast
  then have pk: "pk = pubOf B cnt s a"
    using pk by simp
  define dv :: "('f, 'p, 'q) DataVerifier" where
    "dv = \<lparr>dv_pk = pk, dv_sk = None, dv_typ = DefaultType, dv_sums = replicate (nat (sint cnt)) 0, dv_delta = 0, dv_HWi = 0\<rparr>"
  have new: "NewDataVerifier pk None () = (Inr dv, ())"
    by (simp add: NewDataVerifier_def makeFrs_run [OF cnt] pk dv_def)
  obtain ex where ex: "\<And>tag t. bl_decomp1 B tag = Some t \<Longrightarrow> t = ?g (ex tag)"
    using exponent_fun [OF law] by blast
  have honest: "ex tag = content B a i seg * s" "fits (nat (sint cnt)) seg" "bl_decomp1 B tag = Some (?g (ex tag))" if "(i, seg, tag) \<in> set items" for i seg tag
  proof -
    have "fits (nat (sint cnt)) seg" and "GenTag B (Some (keyset B cnt s a)) i seg 0 True () = (Inr tag, ())"
      using that tags unfolding ks by auto
    with honest_exponent [of B ex, OF law ex this(2)] show "ex tag = content B a i seg * s" "fits (nat (sint cnt)) seg" "bl_decomp1 B tag = Some (?g (ex tag))"
      by simp_all
  qed
  have "fits (nat (sint cnt)) seg \<and> bl_decomp1 B tag = Some (?g (ex tag))" if "(i, seg, tag) \<in> set items'" for i seg tag
  proof -
    have "snd (i, seg, tag) \<in> set (map snd items)"
      using that mset_eq_setD [OF swap(2)] by (metis imageI list.set_map)
    then obtain j where "(j, seg, tag) \<in> set items"
      by auto
    then show ?thesis
      using honest(2,3) by blast
  qed
  then have "\<forall>(i, seg, tag) \<in> set items'. fits (length (dv_sums dv)) seg \<and> bl_decomp1 B tag = Some (?g ((\<lambda>(i, seg, tag). ex tag) (i, seg, tag)))"
    by (auto simp: dv_def)
  from dv_items_run [OF law this] obtain dv' where add: "forM items' (\<lambda>(i, seg, tag). DataVerifier_Add B i seg tag) dv = (Inr (), dv')"
    and dv': "length (dv_sums dv') = nat (sint cnt)" "peval (dv_sums dv') a = (\<Sum>(i, seg, tag) \<leftarrow> items'. peval (atoms_of B seg) a)"
      "dv_delta dv' = ?g (\<Sum>(i, seg, tag) \<leftarrow> items'. ex tag)" "dv_HWi dv' = (\<Sum>(i, seg, tag) \<leftarrow> items'. indexFr B 0 i)" "dv_pk dv' = pk" "dv_sk dv' = None"
    by (auto simp: dv_def)
  have "(\<Sum>(i, seg, tag) \<leftarrow> items'. ex tag) = (\<Sum>(i, seg, tag) \<leftarrow> items. content B a i seg * s)"
    unfolding sum_exchange [OF swap(2), of "\<lambda>seg tag. ex tag"] using honest(1) by (intro arg_cong [where f = sum_list] map_cong) auto
  also have "\<dots> = (dv_HWi dv' + peval (dv_sums dv') a) * s"
    unfolding sum_content dv'(2,4) sum_exchange [OF swap(2), of "\<lambda>seg tag. peval (atoms_of B seg) a"] sum_indices [OF swap(1)] ..
  finally show ?thesis
    using new add dv_Result_run [OF law, of dv' cnt s a] dv' pk by auto
qed

definition ex_swapped :: "(bytes \<times> bytes \<times> bytes) list" where
  "ex_swapped = [([1], replicate 40 5, ex_tag [2] (replicate 40 5)), ([2], [7], ex_tag [1] [7])]"

theorem exchanged_segments_pass_witness:
  "\<exists>dv dv'. NewDataVerifier (pubOf word_curve 2 ex_s ex_a) None () = (Inr dv, ()) \<and>
    forM ex_swapped (\<lambda>(i, seg, tag). DataVerifier_Add word_curve i seg tag) dv = (Inr (), dv') \<and>
    DataVerifier_Result word_curve dv' = (Inr True, dv')"
  by (rule exchanged_segments_pass [OF word_curve_law ex_keys _ ex_items_ok]) (simp_all add: ex_ks_def ex_swapped_def ex_items_def)

end
