(* ===== verification/PdpBytes.thy ===== *)
theory PdpBytes
  imports Pdp
begin

text \<open>
  The encodings of keys, proofs and challenges: what is written is read back, and the encoding of a
  challenge that never returns.
\<close>

section \<open>Buffers\<close>

lemma copyAt_zeros:
  "length pre = i \<Longrightarrow> length src = j - i \<Longrightarrow> i \<le> j \<Longrightarrow> j \<le> i + m \<Longrightarrow>
     copyAt i j src (pre @ replicate m 0) st = (Inr (pre @ src @ replicate (m - (j - i)) 0), st)"
  by (simp add: copyAt_def)

lemma copyAt_start:
  "length src = j \<Longrightarrow> j \<le> m \<Longrightarrow> copyAt 0 j src (replicate m 0) st = (Inr (src @ replicate (m - j) 0), st)"
  using copyAt_zeros [of "[]" 0 src j m st] by simp

lemma sub_mid: "length a = i \<Longrightarrow> length b = j - i \<Longrightarrow> sub i j (a @ b @ c) = b"
  by (simp add: sub_def)

lemma sub_end: "length a = i \<Longrightarrow> length b = j - i \<Longrightarrow> sub i j (a @ b) = b"
  by (simp add: sub_def)

lemma version_bytes [simp]: "length (PutUint16 v) = 2" "Uint16 (PutUint16 PDPV2 @ rest) = PDPV2"
  by (simp_all add: PutUint16_def Uint16_def un_be_be PDPV2_def)

lemmas sizes = G1Size_def G2Size_def FrSize_def pkHead_def vkSize_def proofSize_def

lemma g1Set_comp: "curve_law B \<Longrightarrow> g1Set B d (bl_comp1 B p) = p"
  by (simp add: g1Set_def curve_lawD)

lemma g2Set_comp: "curve_law B \<Longrightarrow> g2Set B d (bl_comp2 B p) = p"
  by (simp add: g2Set_def curve_lawD)

section \<open>Proofs and verify keys\<close>

lemma Proof_bytes:
  assumes "curve_law B"
  shows "Proof_Serialize B pf st = (Inr (PutUint16 PDPV2 @ bl_comp1 B (pf_Psi pf) @ bl_comp1 B (pf_Kappa pf)), st)"
  by (simp add: Proof_Serialize_def sizes copyAt_def curve_lawD [OF assms])

lemma Proof_roundtrip:
  assumes "curve_law B" and "Proof_Serialize B pf () = (Inr b, ())"
  shows "DeserializeProof B b = Inr pf"
proof -
  have b: "b = PutUint16 PDPV2 @ bl_comp1 B (pf_Psi pf) @ bl_comp1 B (pf_Kappa pf)"
    using Proof_bytes [OF assms(1), of pf "()"] assms(2) by simp
  have "sub 2 (2 + G1Size) b = bl_comp1 B (pf_Psi pf)" "sub (2 + G1Size) proofSize b = bl_comp1 B (pf_Kappa pf)"
    unfolding b using sub_mid [of "PutUint16 PDPV2" 2 "bl_comp1 B (pf_Psi pf)" 50 "bl_comp1 B (pf_Kappa pf)"]
      sub_end [of "PutUint16 PDPV2 @ bl_comp1 B (pf_Psi pf)" 50 "bl_comp1 B (pf_Kappa pf)" 98]
    by (simp_all add: sizes curve_lawD [OF assms(1)])
  moreover have "length b = proofSize" "Uint16 b = PDPV2"
    by (simp_all add: b sizes curve_lawD [OF assms(1)])
  ultimately show ?thesis
    by (simp add: DeserializeProof_def versioned_def onNew_def Proof_Deserialize_def G1Deserialize_def zero_Proof_def curve_lawD [OF assms(1)])
      (simp add: sizes)
qed

lemma VerifyKey_bytes:
  assumes "curve_law B"
  shows "VerifyKey_Serialize B vk st = (Inr (PutUint16 PDPV2 @ bl_comp2 B (vk_BlsPk vk) @ bl_comp2 B (vk_Zeta vk) @ bl_comp1 B (vk_Phi vk)), st)"
  by (simp add: VerifyKey_Serialize_def sizes copyAt_def curve_lawD [OF assms])

lemma VerifyKey_roundtrip:
  assumes "curve_law B" and "VerifyKey_Serialize B vk () = (Inr b, ())"
  shows "DeserializeVerifyKey B b = Inr vk"
proof -
  let ?x = "bl_comp2 B (vk_BlsPk vk)" and ?y = "bl_comp2 B (vk_Zeta vk)" and ?z = "bl_comp1 B (vk_Phi vk)"
  have b: "b = PutUint16 PDPV2 @ ?x @ ?y @ ?z"
    using VerifyKey_bytes [OF assms(1), of vk "()"] assms(2) by simp
  have "sub 2 (2 + G2Size) b = ?x" "sub (2 + G2Size) (2 + 2 * G2Size) b = ?y" "sub (2 + 2 * G2Size) vkSize b = ?z"
    unfolding b using sub_mid [of "PutUint16 PDPV2" 2 ?x 98 "?y @ ?z"] sub_mid [of "PutUint16 PDPV2 @ ?x" 98 ?y 194 ?z]
      sub_end [of "PutUint16 PDPV2 @ ?x @ ?y" 194 ?z 242]
    by (simp_all add: sizes curve_lawD [OF assms(1)])
  moreover have "length b = vkSize" "Uint16 b = PDPV2"
    by (simp_all add: b sizes curve_lawD [OF assms(1)])
  ultimately show ?thesis
    by (simp add: DeserializeVerifyKey_def versioned_def onNew_def VerifyKey_Deserialize_def zero_VerifyKey_def g1Set_comp g2Set_comp assms(1))
      (simp add: sizes)
qed

section \<open>Public keys\<close>

definition pkHeadBytes :: "('f, 'p, 'q) curve \<Rightarrow> ('p, 'q) PublicKey \<Rightarrow> bytes" where
  "pkHeadBytes B pk = PutUint16 PDPV2 @ PutUint64 (pk_Count pk) @ bl_comp2 B (pk_BlsPk pk) @ bl_comp2 B (pk_Zeta pk) @ bl_comp1 B (pk_Phi pk)"

lemma length_pkHeadBytes: "curve_law B \<Longrightarrow> length (pkHeadBytes B pk) = pkHead"
  by (simp add: pkHeadBytes_def sizes curve_lawD)

lemma length_comps: "curve_law B \<Longrightarrow> length (concat (map (bl_comp1 B) ps)) = 48 * length ps"
  by (induction ps) (auto simp: curve_lawD)

lemma foldM_append: "foldM (xs @ ys) c f = bnd (foldM xs c f) (\<lambda>c. foldM ys c f)"
  by (induction xs arbitrary: c) (auto simp: bnd_def ret_def fun_eq_iff split: prod.splits sum.splits)

lemma forM_append: "forM (xs @ ys) f = seq (forM xs f) (forM ys f)"
  by (induction xs) (auto simp: seq_def bnd_def ret_def fun_eq_iff split: prod.splits sum.splits)

lemma elems_bytes:
  assumes "curve_law B" and "k \<le> n" and "n \<le> length ps" and "length h = pkHead"
  shows "foldM [0..<k] (h @ replicate (n * G1Size) 0) (\<lambda>i b. bnd (at_index ps (int i)) (\<lambda>e.
       copyAt (pkHead + i * G1Size) (pkHead + (i + 1) * G1Size) (bl_comp1 B e) b)) st =
     (Inr (h @ concat (map (bl_comp1 B) (take k ps)) @ replicate ((n - k) * G1Size) 0), st)"
  using assms(2)
proof (induction k)
  case (Suc k)
  let ?pre = "h @ concat (map (bl_comp1 B) (take k ps))"
  have "copyAt (pkHead + k * G1Size) (pkHead + (k + 1) * G1Size) (bl_comp1 B (ps ! k)) (?pre @ replicate ((n - k) * G1Size) 0) st =
      (Inr (?pre @ bl_comp1 B (ps ! k) @ replicate ((n - k) * G1Size - (pkHead + (k + 1) * G1Size - (pkHead + k * G1Size))) 0), st)"
    using Suc.prems assms(3,4) by (intro copyAt_zeros) (auto simp: length_comps [OF assms(1)] curve_lawD [OF assms(1)] G1Size_def)
  moreover have "(n - k) * G1Size - (pkHead + (k + 1) * G1Size - (pkHead + k * G1Size)) = (n - Suc k) * G1Size"
    using Suc.prems by (simp add: G1Size_def)
  ultimately show ?case
    using Suc assms(3) by (simp add: foldM_append take_Suc_conv_app_nth)
qed simp

lemma unat_sint: "0 \<le> sint (w :: i64) \<Longrightarrow> unat w = nat (sint w)"
proof -
  assume "0 \<le> sint w"
  moreover have "sint w < 2 ^ 64"
    using sint_lt [of w] by simp
  ultimately have "take_bit 64 (sint w) = sint w"
    by (simp add: take_bit_int_eq_self)
  then show ?thesis
    using uint_sint [of w] unat_eq_nat_uint [of w] by simp
qed

lemma PublicKey_bytes:
  assumes "curve_law B" and "0 \<le> sint (pk_Count pk)" and "length (pk_ElemAlphas pk) = nat (sint (pk_Count pk))"
  shows "PublicKey_Serialize B pk st = (Inr (pkHeadBytes B pk @ concat (map (bl_comp1 B) (pk_ElemAlphas pk))), st)"
proof -
  have n: "unat (pk_Count pk) = length (pk_ElemAlphas pk)" "\<not> pk_Count pk <s 0"
    using assms(2,3) unat_sint [OF assms(2)] by (auto simp: word_sless_alt)
  let ?n = "length (pk_ElemAlphas pk) * G1Size" and ?v = "PutUint16 PDPV2" and ?c = "PutUint64 (pk_Count pk)"
  let ?x = "bl_comp2 B (pk_BlsPk pk)" and ?y = "bl_comp2 B (pk_Zeta pk)" and ?z = "bl_comp1 B (pk_Phi pk)"
  have "PublicKey_Serialize B pk st = foldM [0..<length (pk_ElemAlphas pk)] (pkHeadBytes B pk @ replicate ?n 0) (\<lambda>i b. bnd (at_index (pk_ElemAlphas pk) (int i)) (\<lambda>e.
       copyAt (pkHead + i * G1Size) (pkHead + (i + 1) * G1Size) (bl_comp1 B e) b)) st"
    using n by (simp add: PublicKey_Serialize_def Let_def sizes copyAt_def curve_lawD [OF assms(1)] pkHeadBytes_def)
  then show ?thesis
    using elems_bytes [OF assms(1), of "length (pk_ElemAlphas pk)" "length (pk_ElemAlphas pk)" "pk_ElemAlphas pk" "pkHeadBytes B pk" st]
      length_pkHeadBytes [OF assms(1)] by simp
qed

lemma elems_read:
  assumes "\<And>i. i < length ps \<Longrightarrow> g1Set B (d i) (sub (pkHead + i * G1Size) (pkHead + (i + 1) * G1Size) data) = ps ! i"
    and "k \<le> length ps" and "length (pk_ElemAlphas pk) = length ps"
    and "\<And>i. i < length ps \<Longrightarrow> pk_ElemAlphas pk ! i = d i"
  shows "forM [0..<k] (\<lambda>i. modify (\<lambda>pk. pk\<lparr>pk_ElemAlphas := (pk_ElemAlphas pk)[i := g1Set B (pk_ElemAlphas pk ! i)
       (sub (pkHead + i * G1Size) (pkHead + (i + 1) * G1Size) data)]\<rparr>)) pk = (Inr (), pk\<lparr>pk_ElemAlphas := take k ps @ drop k (pk_ElemAlphas pk)\<rparr>)"
  using assms(2)
proof (induction k)
  case (Suc k)
  then have k: "k < length ps"
    by simp
  have "drop k (pk_ElemAlphas pk) = d k # drop (Suc k) (pk_ElemAlphas pk)"
    using k assms(3,4) by (metis Cons_nth_drop_Suc)
  then show ?case
    using Suc k assms(1) [OF k] by (simp add: forM_append take_Suc_conv_app_nth nth_append list_update_append)
qed simp

lemma sub_comps:
  assumes "curve_law B" and "length h = pkHead" and "i < length ps"
  shows "sub (pkHead + i * G1Size) (pkHead + (i + 1) * G1Size) (h @ concat (map (bl_comp1 B) ps)) = bl_comp1 B (ps ! i)"
proof -
  have "ps = take i ps @ ps ! i # drop (Suc i) ps"
    using assms(3) by (rule id_take_nth_drop)
  then have "concat (map (bl_comp1 B) ps) = concat (map (bl_comp1 B) (take i ps)) @ bl_comp1 B (ps ! i) @ concat (map (bl_comp1 B) (drop (Suc i) ps))"
    by (metis concat_append concat.simps(2) list.simps(9) map_append)
  then show ?thesis
    using assms sub_mid [of "h @ concat (map (bl_comp1 B) (take i ps))" "pkHead + i * G1Size" "bl_comp1 B (ps ! i)" "pkHead + (i + 1) * G1Size"]
    by (simp add: length_comps curve_lawD G1Size_def)
qed

lemma PublicKey_roundtrip:
  assumes law: "curve_law B" and n: "0 \<le> sint (pk_Count pk)" "sint (pk_Count pk) \<le> 8192" "length (pk_ElemAlphas pk) = nat (sint (pk_Count pk))"
    and b: "PublicKey_Serialize B pk () = (Inr b, ())"
  shows "DeserializePublicKey B b = Inr pk"
proof -
  let ?x = "bl_comp2 B (pk_BlsPk pk)" and ?y = "bl_comp2 B (pk_Zeta pk)" and ?z = "bl_comp1 B (pk_Phi pk)" and ?v = "PutUint16 PDPV2" and ?c = "PutUint64 (pk_Count pk)"
  let ?e = "concat (map (bl_comp1 B) (pk_ElemAlphas pk))"
  have b: "b = pkHeadBytes B pk @ ?e"
    using PublicKey_bytes [OF law n(1,3), of "()"] b by simp
  have head: "sub 2 10 b = ?c" "sub 10 (10 + G2Size) b = ?x" "sub (10 + G2Size) (10 + 2 * G2Size) b = ?y" "sub (10 + 2 * G2Size) pkHead b = ?z" "Uint16 b = PDPV2"
    unfolding b pkHeadBytes_def by (simp_all add: sub_def sizes curve_lawD [OF law])
  have len: "length b = pkHead + 48 * length (pk_ElemAlphas pk)"
    by (simp add: b length_pkHeadBytes [OF law] length_comps [OF law])
  have elems: "g1Set B 0 (sub (pkHead + i * G1Size) (pkHead + (i + 1) * G1Size) b) = pk_ElemAlphas pk ! i" if "i < length (pk_ElemAlphas pk)" for i
    unfolding b using sub_comps [OF law length_pkHeadBytes [OF law] that] by (simp add: g1Set_comp [OF law])
  let ?new = "\<lparr>pk_Count = pk_Count pk, pk_BlsPk = pk_BlsPk pk, pk_Zeta = pk_Zeta pk, pk_Phi = pk_Phi pk, pk_ElemAlphas = replicate (length (pk_ElemAlphas pk)) 0\<rparr>"
  have "PublicKey_Deserialize B b zero_PublicKey = forM [0..<length (pk_ElemAlphas pk)] (\<lambda>i. modify (\<lambda>pk. pk\<lparr>pk_ElemAlphas := (pk_ElemAlphas pk)[i := g1Set B (pk_ElemAlphas pk ! i)
       (sub (pkHead + i * G1Size) (pkHead + (i + 1) * G1Size) b)]\<rparr>)) ?new"
    using n len head by (simp add: PublicKey_Deserialize_def zero_PublicKey_def word_sless_alt SCount_def g1Set_comp [OF law] g2Set_comp [OF law] G1Size_def)
  also have "\<dots> = (Inr (), pk)"
    using elems_read [of "pk_ElemAlphas pk" B "\<lambda>_. 0" b "length (pk_ElemAlphas pk)" ?new, OF elems] by simp
  finally show ?thesis
    using len head(5) by (simp add: DeserializePublicKey_def versioned_def onNew_def sizes)
qed

text \<open>
  C37: Keys and proofs survive their encoding.  For a public key whose count is the number of its
  elements and at most \<open>SCount\<close>, its verify key and any proof, \<open>Serialize\<close> returns bytes, and the
  \<open>Deserialize\<close> functions of \<open>types.go\<close> give back the same values.
\<close>

theorem pdp_roundtrip:
  assumes law: "curve_law B" and n: "0 \<le> sint (pk_Count pk)" "sint (pk_Count pk) \<le> 8192" "length (pk_ElemAlphas pk) = nat (sint (pk_Count pk))"
  shows "(\<exists>b. PublicKey_Serialize B pk () = (Inr b, ()) \<and> DeserializePublicKey B b = Inr pk) \<and>
    (\<exists>b. VerifyKey_Serialize B (PublicKey_VerifyKey pk) () = (Inr b, ()) \<and> DeserializeVerifyKey B b = Inr (PublicKey_VerifyKey pk)) \<and>
    (\<exists>b. Proof_Serialize B pf () = (Inr b, ()) \<and> DeserializeProof B b = Inr pf)"
  using PublicKey_roundtrip [OF law n] PublicKey_bytes [OF law n(1,3)] VerifyKey_roundtrip [OF law] VerifyKey_bytes [OF law]
    Proof_roundtrip [OF law] Proof_bytes [OF law] by metis

definition ex_pk :: "(u64, u64) PublicKey" where
  "ex_pk = \<lparr>pk_Count = 2, pk_BlsPk = 5, pk_Zeta = 6, pk_Phi = 7, pk_ElemAlphas = [1, 9]\<rparr>"

theorem pdp_roundtrip_witness:
  "(\<exists>b. PublicKey_Serialize word_curve ex_pk () = (Inr b, ()) \<and> DeserializePublicKey word_curve b = Inr ex_pk) \<and>
    (\<exists>b. VerifyKey_Serialize word_curve (PublicKey_VerifyKey ex_pk) () = (Inr b, ()) \<and> DeserializeVerifyKey word_curve b = Inr (PublicKey_VerifyKey ex_pk)) \<and>
    (\<exists>b. Proof_Serialize word_curve \<lparr>pf_Psi = 3, pf_Kappa = 4\<rparr> () = (Inr b, ()) \<and> DeserializeProof word_curve b = Inr \<lparr>pf_Psi = 3, pf_Kappa = 4\<rparr>)"
  by (rule pdp_roundtrip [OF word_curve_law]) (simp_all add: ex_pk_def)

text \<open>
  A challenge cannot be encoded.  \<open>Serialize\<close> allocates 42 bytes and copies the public input behind
  byte 34, so it panics for every challenge; a buffer of that size is too short for \<open>Deserialize\<close>.
\<close>

lemma challenge_encoding_panics:
  "Challenge_Serialize B c () = (Inl (Panic ''slice bounds out of range''), ()) \<and>
   Challenge_Deserialize B (replicate (10 + FrSize) 0) c = (Inl (Err ''length is short''), c)"
  by (simp add: Challenge_Serialize_def copyAt_def FrSize_def Challenge_Deserialize_def PutUint16_def)

end
