(* ===== verification/ErasureSafe.thy ===== *)
theory ErasureSafe
  imports ErasureCode PdpSafe PdpBytes
begin

unbundle bit_operations_syntax

text \<open>
  A stripe survives the loss of chunks: with at least as many chunks left as it has data chunks, decoding
  gives the data back.  The Reed-Solomon package is described by \<open>rs_code\<close>: what \<open>Encode\<close> returns keeps the
  data shards, \<open>Verify\<close> accepts it and refuses missing shards, and \<open>Reconstruct\<close> restores it from any subset
  that is large enough.
\<close>

section \<open>Lists of shards\<close>

definition hole :: "'a option \<Rightarrow> 'a \<Rightarrow> bool" where
  "hole x y \<longleftrightarrow> x = None \<or> x = Some y"

fun present :: "'a option list \<Rightarrow> nat" where
  "present [] = 0"
| "present (x # xs) = (if x = None then 0 else 1) + present xs"

definition rs_code :: "('f, 'p, 'q) codeLib \<Rightarrow> nat \<Rightarrow> nat \<Rightarrow> bool" where
  "rs_code E dc pc \<longleftrightarrow> cl_New E dc pc \<and>
     (\<forall>shards k. length shards = dc + pc \<and> 0 < k \<and> (\<forall>x \<in> set shards. length x = k) \<longrightarrow>
       (\<exists>es. cl_Encode E dc pc shards = Inr es \<and> length es = dc + pc \<and> take dc es = take dc shards \<and> (\<forall>x \<in> set es. length x = k) \<and>
         cl_Verify E dc pc (map Some es) = Inr True \<and>
         (\<forall>ds. list_all2 hole ds es \<and> dc \<le> present ds \<longrightarrow>
           (None \<in> set ds \<longrightarrow> cl_Verify E dc pc ds = Inl (Err ''shard sizes do not match'')) \<and>
           cl_Reconstruct E dc pc ds = Inr (map Some es))))"

text \<open>What is known of shards that the package encoded.\<close>

definition coded :: "('f, 'p, 'q) codeLib \<Rightarrow> nat \<Rightarrow> nat \<Rightarrow> bytes list \<Rightarrow> bool" where
  "coded E dc pc es \<longleftrightarrow> cl_New E dc pc \<and> cl_Verify E dc pc (map Some es) = Inr True \<and>
     (\<forall>ds. list_all2 hole ds es \<and> dc \<le> present ds \<longrightarrow>
       (None \<in> set ds \<longrightarrow> cl_Verify E dc pc ds = Inl (Err ''shard sizes do not match'')) \<and>
       cl_Reconstruct E dc pc ds = Inr (map Some es))"

lemma rs_codeD:
  assumes "rs_code E dc pc" and "length shards = dc + pc" and "0 < k" and "\<forall>x \<in> set shards. length x = k"
  obtains es where "cl_Encode E dc pc shards = Inr es" and "length es = dc + pc" and "take dc es = take dc shards"
    and "\<forall>x \<in> set es. length x = k" and "coded E dc pc es"
  using assms unfolding rs_code_def coded_def by blast

lemma present_append [simp]: "present (xs @ ys) = present xs + present ys"
  by (induction xs) auto

lemma present_map [simp]: "present (map (map_option f) xs) = present xs"
  by (induction xs) auto

lemma present_le: "present xs \<le> length xs"
  by (induction xs) auto

lemma holes_full: "list_all2 hole ds es \<Longrightarrow> None \<notin> set ds \<Longrightarrow> ds = map Some es"
  by (induction rule: list_all2_induct) (auto simp: hole_def)

lemma recoverData_coded:
  assumes "coded E dc pc es" and "1 < dc" and "list_all2 hole ds es" and "dc \<le> present ds"
  shows "recoverData E n ds dc pc = Inr (map Some es)"
proof (cases "None \<in> set ds")
  case True
  then show ?thesis
    using assms by (simp add: recoverData_def coded_def)
next
  case False
  then show ?thesis
    using assms holes_full [OF assms(3)] by (simp add: recoverData_def coded_def)
qed

lemma present_find: "0 < present ds \<Longrightarrow> list_all2 hole ds (replicate n c) \<Longrightarrow> find (\<lambda>x. x \<noteq> None) ds = Some (Some c)"
proof (induction ds arbitrary: n)
  case (Cons x ds)
  then show ?case
    by (cases n) (auto simp: hole_def)
qed simp

lemma holes_copy: "list_all2 hole ds (replicate n c) \<Longrightarrow> map (\<lambda>x. if x = None then Some c else x) ds = map Some (replicate n c)"
proof (induction ds arbitrary: n)
  case (Cons x ds)
  then show ?case
    by (cases n) (auto simp: hole_def)
qed simp

lemma recoverData_copies:
  assumes "list_all2 hole ds (replicate n c)" and "0 < present ds"
  shows "recoverData E n ds 1 pc = Inr (map Some (replicate n c))"
  using present_find [OF assms(2,1)] holes_copy [OF assms(1)] list_all2_lengthD [OF assms(1)]
  by (simp add: recoverData_def)

text \<open>Concatenations of pieces of one length.\<close>

lemma length_concat_same: "\<forall>x \<in> set xs. length x = k \<Longrightarrow> length (concat xs) = length xs * k"
  by (induction xs) auto

lemma sub_concat:
  assumes "\<forall>x \<in> set xs. length x = k" and "j < length xs"
  shows "sub (j * k) ((j + 1) * k) (concat xs @ rest) = xs ! j"
proof -
  have xs: "xs = take j xs @ xs ! j # drop (Suc j) xs"
    using assms(2) by (rule id_take_nth_drop)
  have "length (concat (take j xs)) = j * k"
    using assms length_concat_same [of "take j xs" k] by (metis in_set_takeD length_take less_imp_le min.absorb2)
  moreover have "length (xs ! j) = k"
    using assms by simp
  moreover have "concat xs @ rest = concat (take j xs) @ xs ! j @ concat (drop (Suc j) xs) @ rest"
  proof -
    have "concat xs = concat (take j xs @ xs ! j # drop (Suc j) xs)"
      using xs by (rule arg_cong)
    then show ?thesis
      by (simp only: concat_append concat.simps append_assoc)
  qed
  ultimately show ?thesis
    by (simp add: sub_def)
qed

lemma sub_drop: "length a = i \<Longrightarrow> sub (i + x) (i + y) (a @ b) = sub x y b"
  by (simp add: sub_def)

lemma concat_subs: "length b = n * k \<Longrightarrow> concat (map (\<lambda>i. sub (i * k) ((i + 1) * k) b) [0..<n]) = b"
proof (induction n arbitrary: b)
  case (Suc n)
  have "map (\<lambda>i. sub (i * k) ((i + 1) * k) b) [0..<n] = map (\<lambda>i. sub (i * k) ((i + 1) * k) (take (n * k) b)) [0..<n]"
  proof (rule map_cong)
    fix i assume "i \<in> set [0..<n]"
    then have "(i + 1) * k \<le> n * k"
      by (intro mult_le_mono1) auto
    then show "sub (i * k) ((i + 1) * k) b = sub (i * k) ((i + 1) * k) (take (n * k) b)"
      by (simp add: sub_def take_drop min_def)
  qed simp
  moreover have "sub (n * k) ((n + 1) * k) b = drop (n * k) b"
    using Suc.prems by (simp add: sub_def)
  moreover have "concat (map (\<lambda>i. sub (i * k) ((i + 1) * k) (take (n * k) b)) [0..<n]) = take (n * k) b"
    using Suc.prems by (intro Suc.IH) simp
  ultimately have "concat (map (\<lambda>i. sub (i * k) ((i + 1) * k) b) [0..<n]) @ sub (n * k) ((n + 1) * k) b = take (n * k) b @ drop (n * k) b"
    by (simp only:)
  then show ?case
    by simp
qed simp

lemma present_concat: "present (concat xss) = sum_list (map present xss)"
  by (induction xss) auto

lemma holes_concat: "list_all2 (list_all2 R) xss yss \<Longrightarrow> list_all2 R (concat xss) (concat yss)"
  by (induction rule: list_all2_induct) (auto intro: list_all2_appendI)

lemma group_concat: "length xs = m * n \<Longrightarrow> concat (map (\<lambda>j. map (\<lambda>i. xs ! (j * n + i)) [0..<n]) [0..<m]) = xs"
proof (induction m arbitrary: xs)
  case (Suc m)
  have "concat (map (\<lambda>j. map (\<lambda>i. take (m * n) xs ! (j * n + i)) [0..<n]) [0..<m]) = take (m * n) xs"
    using Suc.prems by (intro Suc.IH) simp
  moreover have "map (\<lambda>j. map (\<lambda>i. take (m * n) xs ! (j * n + i)) [0..<n]) [0..<m] = map (\<lambda>j. map (\<lambda>i. xs ! (j * n + i)) [0..<n]) [0..<m]"
  proof (intro map_cong refl)
    fix j i assume "j \<in> set [0..<m]" "i \<in> set [0..<n]"
    then have "j * n + i < Suc j * n" "Suc j * n \<le> m * n"
      by (auto intro: mult_le_mono1 simp del: mult_Suc) (simp)
    then show "take (m * n) xs ! (j * n + i) = xs ! (j * n + i)"
      by simp
  qed
  moreover have "map (\<lambda>i. xs ! (m * n + i)) [0..<n] = drop (m * n) xs"
    using Suc.prems by (auto intro: nth_equalityI)
  ultimately show ?case
    by simp
qed simp

section \<open>The coder and its verifier\<close>

definition dv_inv :: "('f :: comm_ring_1, 'p :: ab_group_add, 'q :: ab_group_add) curve \<Rightarrow> i64 \<Rightarrow> 'f \<Rightarrow> 'f \<Rightarrow> ('f, 'p, 'q) DataVerifier \<Rightarrow> bool" where
  "dv_inv B cnt s a dv \<longleftrightarrow> dv_pk dv = pubOf B cnt s a \<and> dv_sk dv = ks_Sk (keyset B cnt s a) \<and> dv_typ dv = DefaultType \<and>
     length (dv_sums dv) = nat (sint cnt) \<and> dv_delta dv = bl_mul1 B (bl_one1 B) ((dv_HWi dv + peval (dv_sums dv) a) * s)"

definition honestTag :: "('f :: comm_ring_1, 'p, 'q) curve \<Rightarrow> 'f \<Rightarrow> 'f \<Rightarrow> bytes \<Rightarrow> bytes \<Rightarrow> bytes" where
  "honestTag B s a i seg = bl_comp1 B (bl_mul1 B (bl_one1 B) (content B a i seg * s))"

lemma dv_inv_Add:
  assumes "curve_law B" and "dv_inv B cnt s a dv" and "fits (nat (sint cnt)) seg"
  shows "\<exists>dv'. DataVerifier_Add B i seg (honestTag B s a i seg) dv = (Inr (), dv') \<and> dv_inv B cnt s a dv'"
proof -
  have "bl_decomp1 B (honestTag B s a i seg) = Some (bl_mul1 B (bl_one1 B) (content B a i seg * s))"
    by (simp add: honestTag_def curve_lawD(11) [OF assms(1)])
  from dv_Add_run [OF _ this, of dv seg i] obtain dv' where
    add: "DataVerifier_Add B i seg (honestTag B s a i seg) dv = (Inr (), dv')" and
    dv': "length (dv_sums dv') = length (dv_sums dv)" "\<forall>x. peval (dv_sums dv') x = peval (dv_sums dv) x + peval (atoms_of B seg) x"
      "dv_delta dv' = dv_delta dv + bl_mul1 B (bl_one1 B) (content B a i seg * s)" "dv_HWi dv' = dv_HWi dv + indexFr B 0 i"
      "dv_pk dv' = dv_pk dv" "dv_sk dv' = dv_sk dv" "dv_typ dv' = dv_typ dv"
    using assms(2,3) by (auto simp: dv_inv_def)
  have "dv_inv B cnt s a dv'"
    using assms(2) dv' by (simp add: dv_inv_def content_def algebra_simps flip: curve_lawD(3) [OF assms(1)])
  then show ?thesis
    using add by blast
qed

lemma dv_inv_Reset:
  assumes "curve_law B" and "dv_inv B cnt s a dv"
  shows "\<exists>dv'. DataVerifier_Reset dv = (Inr (), dv') \<and> dv_inv B cnt s a dv'"
  using assms(2) by (auto simp: dv_inv_def DataVerifier_Reset_def Let_def mul1_zero [OF assms(1)])

lemma dv_inv_Result:
  assumes "curve_law B" and "dv_inv B cnt s a dv"
  shows "DataVerifier_Result B dv = (Inr True, dv)"
  using assms(2) dv_Result_run [OF assms(1), of dv cnt s a] by (auto simp: dv_inv_def keyset_def)

definition coder_ok :: "('f :: comm_ring_1, 'p :: ab_group_add, 'q :: ab_group_add) curve \<Rightarrow> i64 \<Rightarrow> 'f \<Rightarrow> 'f \<Rightarrow> ('f, 'p, 'q) DataCoder \<Rightarrow> bool" where
  "coder_ok B cnt s a d \<longleftrightarrow> cd_blsKey d = keyset B cnt s a \<and> dv_inv B cnt s a (cd_dv d) \<and> px_TagFlag (cd_Prefix d) = 5 \<and>
     cd_prefixSize d = 24 \<and> cd_chunkCount d = cd_dc d + cd_pc d \<and> cd_tagSize d = 48 \<and> cd_tagCount d = 2 + (cd_pc d - 1) div cd_dc d \<and>
     cd_fragmentSize d = 24 + cd_seg d + 48 * cd_tagCount d \<and> 1 \<le> cd_dc d \<and> 1 \<le> cd_pc d \<and> 0 < cd_seg d \<and>
     (cd_seg d - 1) div 31 < nat (sint cnt)"

lemma coder_ok_dv: "coder_ok B cnt s a d \<Longrightarrow> dv_inv B cnt s a dv \<Longrightarrow> coder_ok B cnt s a (d\<lparr>cd_dv := dv\<rparr>)"
  by (simp add: coder_ok_def)

lemma fits_seg: "coder_ok B cnt s a d \<Longrightarrow> length seg = cd_seg d \<Longrightarrow> fits (nat (sint cnt)) seg"
  by (auto simp: coder_ok_def fits_def)

text \<open>A chunk as \<open>Encode\<close> writes it for position \<open>j\<close>.\<close>

definition good_chunk :: "('f :: comm_ring_1, 'p, 'q) curve \<Rightarrow> 'f \<Rightarrow> 'f \<Rightarrow> ('f, 'p, 'q) DataCoder \<Rightarrow> bytes \<Rightarrow> nat \<Rightarrow> bytes \<Rightarrow> bool" where
  "good_chunk B s a d nm j c \<longleftrightarrow> length c = cd_fragmentSize d \<and> DeserializePrefix c = Inr (cd_Prefix d) \<and> length (segPart d c) = cd_seg d \<and>
     tagPart d c = honestTag B s a (SetChunkID (word_of_nat j) nm) (segPart d c)"

definition good_at :: "('f :: comm_ring_1, 'p, 'q) curve \<Rightarrow> 'f \<Rightarrow> 'f \<Rightarrow> ('f, 'p, 'q) DataCoder \<Rightarrow> bytes \<Rightarrow> bytes option list \<Rightarrow> nat \<Rightarrow> bool" where
  "good_at B s a d nm st j \<longleftrightarrow> (\<forall>c. st ! j = Some c \<longrightarrow> good_chunk B s a d nm j c)"

lemma parts_dv [simp]: "segPart (d\<lparr>cd_dv := dv\<rparr>) c = segPart d c" "tagPart (d\<lparr>cd_dv := dv\<rparr>) c = tagPart d c"
  "VerifyPrefix (d\<lparr>cd_dv := dv\<rparr>) p = VerifyPrefix d p" "good_at B s a (d\<lparr>cd_dv := dv\<rparr>) nm st j = good_at B s a d nm st j"
  by (simp_all add: segPart_def tagPart_def VerifyPrefix_def good_at_def good_chunk_def)

lemma setNil_same: "st ! j = None \<Longrightarrow> setNil j (d, st) = (Inr (), (d, st))"
  by (simp add: setNil_def) (metis list_update_id)

lemma verifyAt_run:
  assumes "curve_law (cl_B E)" and ok: "coder_ok (cl_B E) cnt s a d" and st: "good_at (cl_B E) s a d nm st j" and nm: "name = None \<or> name = Some nm"
  shows "\<exists>dv. verifyAt E name j good (d, st) = (Inr (if st ! j = None then good else good + 1), (d\<lparr>cd_dv := dv\<rparr>, st)) \<and> dv_inv (cl_B E) cnt s a dv"
proof (cases "st ! j")
  case None
  have "0 \<noteq> cd_fragmentSize d" "dv_inv (cl_B E) cnt s a (cd_dv d)"
    using ok by (auto simp: coder_ok_def)
  then show ?thesis
    using None by (auto simp: verifyAt_def chunkAt_def setNil_same intro!: exI [of _ "cd_dv d"])
next
  case (Some c)
  let ?i = "SetChunkID (word_of_nat j) nm"
  have c: "good_chunk (cl_B E) s a d nm j c" and inv: "dv_inv (cl_B E) cnt s a (cd_dv d)"
    using st Some ok by (auto simp: good_at_def coder_ok_def)
  have tag: "tagPart d c = honestTag (cl_B E) s a ?i (segPart d c)" and seg: "fits (nat (sint cnt)) (segPart d c)"
    using c fits_seg [OF ok] by (auto simp: good_chunk_def)
  obtain dv where dv: "DataVerifier_Add (cl_B E) ?i (segPart d c) (tagPart d c) (cd_dv d) = (Inr (), dv)" "dv_inv (cl_B E) cnt s a dv"
    using dv_inv_Add [OF assms(1) inv seg, of ?i] tag by auto
  have "pdp_CheckTag (cl_B E) PDPV2 (tagPart d c) (d, st) = (Inr (), (d, st))"
    by (simp add: tag honestTag_def pdp_CheckTag_def CheckTag_def G1Deserialize_def curve_lawD(11) [OF assms(1)])
  then show ?thesis
    using nm c dv inv Some
    by (intro exI [of _ "if name = None then cd_dv d else dv"])
      (auto simp: verifyAt_def chunkAt_def good_chunk_def VerifyPrefix_def onBad_def onDv_def)
qed

lemma verify_loop:
  assumes "curve_law (cl_B E)" and ok: "coder_ok (cl_B E) cnt s a d" and st: "\<forall>j < length st. good_at (cl_B E) s a d nm st j" and nm: "name = None \<or> name = Some nm"
  shows "k \<le> length st \<Longrightarrow> \<exists>dv. foldM [0..<k] 0 (verifyAt E name) (d, st) = (Inr (present (take k st)), (d\<lparr>cd_dv := dv\<rparr>, st)) \<and> dv_inv (cl_B E) cnt s a dv"
proof (induction k)
  case 0
  then show ?case
    using ok by (auto simp: coder_ok_def intro!: exI [of _ "cd_dv d"])
next
  case (Suc k)
  then obtain dv where dv: "foldM [0..<k] 0 (verifyAt E name) (d, st) = (Inr (present (take k st)), (d\<lparr>cd_dv := dv\<rparr>, st))" "dv_inv (cl_B E) cnt s a dv"
    by auto
  have "good_at (cl_B E) s a (d\<lparr>cd_dv := dv\<rparr>) nm st k"
    using st Suc.prems by simp
  from verifyAt_run [OF assms(1) coder_ok_dv [OF ok dv(2)] this nm, of "present (take k st)"] obtain dv' where
    "verifyAt E name k (present (take k st)) (d\<lparr>cd_dv := dv\<rparr>, st) = (Inr (if st ! k = None then present (take k st) else present (take k st) + 1), (d\<lparr>cd_dv := dv'\<rparr>, st))"
    "dv_inv (cl_B E) cnt s a dv'"
    by auto
  then show ?case
    using dv(1) Suc.prems by (auto simp: foldM_append take_Suc_conv_app_nth)
qed

lemma VerifyStripe_run:
  assumes "curve_law (cl_B E)" and ok: "coder_ok (cl_B E) cnt s a d" and st: "\<forall>j < length st. good_at (cl_B E) s a d nm st j" and nm: "name = None \<or> name = Some nm"
    and enough: "cd_dc d \<le> present st"
  shows "\<exists>dv. VerifyStripe E name (d, st) = (Inr (\<forall>j < cd_dc d. st ! j \<noteq> None, present st), (d\<lparr>cd_dv := dv\<rparr>, st)) \<and> dv_inv (cl_B E) cnt s a dv"
proof -
  have len: "cd_dc d \<le> length st"
    using enough present_le [of st] by linarith
  obtain dv0 where reset: "DataVerifier_Reset (cd_dv d) = (Inr (), dv0)" "dv_inv (cl_B E) cnt s a dv0"
    using dv_inv_Reset [OF assms(1)] ok unfolding coder_ok_def by blast
  have "\<forall>j < length st. good_at (cl_B E) s a (d\<lparr>cd_dv := dv0\<rparr>) nm st j"
    using st by simp
  from verify_loop [OF assms(1) coder_ok_dv [OF ok reset(2)] this nm, of "length st"] obtain dv where
    loop: "foldM [0..<length st] 0 (verifyAt E name) (d\<lparr>cd_dv := dv0\<rparr>, st) = (Inr (present st), (d\<lparr>cd_dv := dv\<rparr>, st))" "dv_inv (cl_B E) cnt s a dv"
    by auto
  have "chunkAt (d', st) j \<noteq> [] \<longleftrightarrow> st ! j \<noteq> None" if "j < cd_dc d" for d' :: "('a, 'b, 'c) DataCoder" and j
  proof (cases "st ! j")
    case (Some c)
    then have "length c = cd_fragmentSize d"
      using less_le_trans [OF that len] st unfolding good_at_def good_chunk_def by blast
    then show ?thesis
      using ok Some by (auto simp: chunkAt_def coder_ok_def)
  qed (simp add: chunkAt_def)
  then have direct: "list_all (\<lambda>j. chunkAt (d', st) j \<noteq> []) [0..<cd_dc d] = (\<forall>j < cd_dc d. st ! j \<noteq> None)" for d' :: "('a, 'b, 'c) DataCoder"
    by (auto simp: list_all_iff)
  have not: "\<not> length st < cd_dc d" "\<not> present st < cd_dc d"
    using len enough by auto
  show ?thesis
    using nm loop reset not
    by (auto simp: VerifyStripe_def onDv_def onBad_def direct dv_inv_Result [OF assms(1) loop(2)])
qed

section \<open>Stripes\<close>

text \<open>The segments and the tags of an encoded stripe.\<close>

definition stripe_ok :: "('f :: comm_ring_1, 'p :: ab_group_add, 'q :: ab_group_add) codeLib \<Rightarrow> 'f \<Rightarrow> 'f \<Rightarrow> ('f, 'p, 'q) DataCoder \<Rightarrow> bytes \<Rightarrow> bytes list \<Rightarrow> bytes list \<Rightarrow> bool" where
  "stripe_ok E s a d nm segs tg \<longleftrightarrow>
     length segs = cd_chunkCount d \<and> (\<forall>x \<in> set segs. length x = cd_seg d) \<and>
     length tg = cd_tagCount d * cd_chunkCount d \<and> (\<forall>x \<in> set tg. length x = 48) \<and>
     (\<forall>i < cd_chunkCount d. tg ! i = honestTag (cl_B E) s a (SetChunkID (word_of_nat i) nm) (segs ! i)) \<and>
     coded E (cd_chunkCount d) (cd_chunkCount d * (cd_tagCount d - 1)) tg \<and>
     (if cd_dc d > 1 then coded E (cd_dc d) (cd_pc d) segs else segs = replicate (cd_chunkCount d) (segs ! 0))"

abbreviation chunks :: "('f, 'p, 'q) DataCoder \<Rightarrow> bytes list \<Rightarrow> bytes list \<Rightarrow> bytes list" where
  "chunks d segs tg \<equiv> map (chunkOf d segs tg) [0..<cd_chunkCount d]"

definition tagsAt :: "('f, 'p, 'q) DataCoder \<Rightarrow> bytes list \<Rightarrow> nat \<Rightarrow> bytes list" where
  "tagsAt d tg i = map (\<lambda>j. tg ! (j * cd_chunkCount d + i)) [0..<cd_tagCount d]"

lemma chunkOf_parts:
  "cd_prefixSize d = 24 \<Longrightarrow> chunkOf d segs tg i = Prefix_Serialize (cd_Prefix d) @ segs ! i @ concat (tagsAt d tg i)"
  by (simp add: chunkOf_def tagsAt_def copy_into_id)

lemma index_less: "j < (m :: nat) \<Longrightarrow> i < n \<Longrightarrow> j * n + i < m * n"
proof -
  assume "j < m" "i < n"
  then have "j * n + i < Suc j * n" "Suc j * n \<le> m * n"
    by (auto simp del: mult_Suc intro: mult_le_mono1) simp
  then show ?thesis
    by linarith
qed

lemma tagsAt_lengths:
  assumes "stripe_ok E s a d nm segs tg" and "i < cd_chunkCount d"
  shows "\<forall>x \<in> set (tagsAt d tg i). length x = 48" and "length (concat (tagsAt d tg i)) = cd_tagCount d * 48"
proof -
  show all: "\<forall>x \<in> set (tagsAt d tg i). length x = 48"
    using assms index_less [OF _ assms(2), of _ "cd_tagCount d"] by (auto simp: tagsAt_def stripe_ok_def)
  show "length (concat (tagsAt d tg i)) = cd_tagCount d * 48"
    using length_concat_same [OF all] by (simp add: tagsAt_def)
qed

lemma chunk_facts:
  assumes ok: "coder_ok (cl_B E) cnt s a d" and st: "stripe_ok E s a d nm segs tg" and i: "i < cd_chunkCount d"
  shows "length (chunkOf d segs tg i) = cd_fragmentSize d" and "DeserializePrefix (chunkOf d segs tg i) = Inr (cd_Prefix d)"
    and "segPart d (chunkOf d segs tg i) = segs ! i" and "sub (cd_prefixSize d) (cd_fragmentSize d) (chunkOf d segs tg i) = segs ! i @ concat (tagsAt d tg i)"
    and "j < cd_tagCount d \<Longrightarrow> sub (cd_seg d + j * cd_tagSize d) (cd_seg d + (j + 1) * cd_tagSize d) (segs ! i @ concat (tagsAt d tg i)) = tg ! (j * cd_chunkCount d + i)"
    and "good_chunk (cl_B E) s a d nm i (chunkOf d segs tg i)"
proof -
  have d: "cd_prefixSize d = 24" "cd_tagSize d = 48" "cd_fragmentSize d = 24 + cd_seg d + 48 * cd_tagCount d" "0 < cd_tagCount d"
    using ok by (auto simp: coder_ok_def)
  have seg: "length (segs ! i) = cd_seg d"
    using st i by (auto simp: stripe_ok_def)
  note tl = tagsAt_lengths [OF st i]
  note parts = chunkOf_parts [OF d(1), of segs tg i]
  show len: "length (chunkOf d segs tg i) = cd_fragmentSize d"
    using seg tl(2) d by (simp add: parts)
  show pre: "DeserializePrefix (chunkOf d segs tg i) = Inr (cd_Prefix d)"
    by (simp add: parts)
  show sp: "segPart d (chunkOf d segs tg i) = segs ! i"
    using seg d(1) by (simp add: parts segPart_def sub_def)
  show "sub (cd_prefixSize d) (cd_fragmentSize d) (chunkOf d segs tg i) = segs ! i @ concat (tagsAt d tg i)"
    using seg tl(2) d(1,3) by (simp add: parts sub_def)
  have tag: "sub (cd_seg d + j * 48) (cd_seg d + (j + 1) * 48) (segs ! i @ concat (tagsAt d tg i)) = tg ! (j * cd_chunkCount d + i)" if "j < cd_tagCount d" for j
    using sub_concat [OF tl(1), of j "[]"] that sub_drop [OF seg, of "j * 48" "(j + 1) * 48"] by (simp add: tagsAt_def)
  then show "j < cd_tagCount d \<Longrightarrow> sub (cd_seg d + j * cd_tagSize d) (cd_seg d + (j + 1) * cd_tagSize d) (segs ! i @ concat (tagsAt d tg i)) = tg ! (j * cd_chunkCount d + i)"
    by (simp add: d(2))
  have "tagPart d (chunkOf d segs tg i) = sub (cd_seg d) (cd_seg d + 48) (segs ! i @ concat (tagsAt d tg i))"
    using sub_drop [of "Prefix_Serialize (cd_Prefix d)" 24 "cd_seg d" "cd_seg d + 48"] d(1,2) by (simp add: parts tagPart_def add.assoc)
  also have "\<dots> = tg ! i"
    using tag [OF d(4)] by simp
  finally show "good_chunk (cl_B E) s a d nm i (chunkOf d segs tg i)"
    using len pre sp seg st i by (simp add: good_chunk_def stripe_ok_def)
qed

lemma holes_good:
  assumes "coder_ok (cl_B E) cnt s a d" and "stripe_ok E s a d nm segs tg" and "list_all2 hole st (chunks d segs tg)"
  shows "\<forall>j < length st. good_at (cl_B E) s a d nm st j"
proof (intro allI impI)
  fix j
  assume "j < length st"
  then have j: "j < cd_chunkCount d" "hole (st ! j) (chunkOf d segs tg j)"
    using assms(3) by (auto simp: list_all2_conv_all_nth)
  then show "good_at (cl_B E) s a d nm st j"
    using chunk_facts(6) [OF assms(1,2) j(1)] by (auto simp: good_at_def hole_def)
qed

lemma holes_map: "list_all2 hole xs cs \<Longrightarrow> list_all2 hole (map (map_option f) xs) (map f cs)"
  by (induction rule: list_all2_induct) (auto simp: hole_def)

section \<open>Recovery\<close>

definition field :: "('f, 'p, 'q) DataCoder \<Rightarrow> bytes \<Rightarrow> bytes" where
  "field d c = sub (cd_prefixSize d) (cd_fragmentSize d) c"

lemma seg_shards:
  assumes "coder_ok (cl_B E) cnt s a d" and "stripe_ok E s a d nm segs tg"
  shows "map (take (cd_seg d)) (map (field d) (chunks d segs tg)) = segs"
proof (rule nth_equalityI)
  show "length (map (take (cd_seg d)) (map (field d) (chunks d segs tg))) = length segs"
    using assms(2) by (simp add: stripe_ok_def)
  fix i
  assume "i < length (map (take (cd_seg d)) (map (field d) (chunks d segs tg)))"
  then have "i < cd_chunkCount d"
    by simp
  moreover have "length (segs ! i) = cd_seg d"
    using assms(2) \<open>i < cd_chunkCount d\<close> by (simp add: stripe_ok_def)
  ultimately show "map (take (cd_seg d)) (map (field d) (chunks d segs tg)) ! i = segs ! i"
    using chunk_facts(4) [OF assms, of i] by (simp add: field_def)
qed

lemma tag_shards:
  assumes ok: "coder_ok (cl_B E) cnt s a d" and st: "stripe_ok E s a d nm segs tg" and kept: "list_all2 hole kept (chunks d segs tg)"
  shows "list_all2 hole (tagShards d (map (map_option (field d)) kept)) tg"
    and "present (tagShards d (map (map_option (field d)) kept)) = cd_tagCount d * present kept"
proof -
  let ?f = "\<lambda>j c. sub (cd_seg d + j * cd_tagSize d) (cd_seg d + (j + 1) * cd_tagSize d) (field d c)"
  have tags: "tagShards d (map (map_option (field d)) kept) = concat (map (\<lambda>j. map (map_option (?f j)) kept) [0..<cd_tagCount d])"
    by (simp add: tagShards_def comp_def option.map_comp)
  have row: "map (?f j) (chunks d segs tg) = map (\<lambda>i. tg ! (j * cd_chunkCount d + i)) [0..<cd_chunkCount d]" if "j < cd_tagCount d" for j
    using chunk_facts(4,5) [OF ok st] that by (simp add: field_def)
  have "list_all2 hole (map (map_option (?f j)) kept) (map (\<lambda>i. tg ! (j * cd_chunkCount d + i)) [0..<cd_chunkCount d])" if "j < cd_tagCount d" for j
    using holes_map [OF kept, of "?f j"] unfolding row [OF that] .
  then have "list_all2 (list_all2 hole) (map (\<lambda>j. map (map_option (?f j)) kept) [0..<cd_tagCount d])
      (map (\<lambda>j. map (\<lambda>i. tg ! (j * cd_chunkCount d + i)) [0..<cd_chunkCount d]) [0..<cd_tagCount d])"
    by (simp add: list_all2_conv_all_nth [of "list_all2 hole"])
  from holes_concat [OF this] show "list_all2 hole (tagShards d (map (map_option (field d)) kept)) tg"
    unfolding tags using st by (simp add: group_concat stripe_ok_def)
  show "present (tagShards d (map (map_option (field d)) kept)) = cd_tagCount d * present kept"
    unfolding tags present_concat by (simp add: comp_def sum_list_triv)
qed

lemma enough_tags:
  assumes "coder_ok B cnt s a d" and "cd_dc d \<le> k"
  shows "cd_chunkCount d \<le> cd_tagCount d * k"
proof -
  have "cd_pc d - 1 < ((cd_pc d - 1) div cd_dc d + 1) * cd_dc d" and d: "1 \<le> cd_pc d" "cd_chunkCount d = cd_dc d + cd_pc d" "cd_tagCount d = 2 + (cd_pc d - 1) div cd_dc d"
    using assms(1) by (auto simp: coder_ok_def dividend_less_div_times)
  then have "cd_chunkCount d \<le> cd_tagCount d * cd_dc d"
    by (simp add: algebra_simps)
  also have "\<dots> \<le> cd_tagCount d * k"
    using assms(2) by simp
  finally show ?thesis .
qed

lemma check_faults:
  assumes law: "curve_law (cl_B E)" and ok: "coder_ok (cl_B E) cnt s a d" and st: "stripe_ok E s a d nm segs tg" and fault: "\<forall>i \<in> set fault. i < cd_chunkCount d"
  shows "checkFault E None sg (map Some tg) fault t = (Inr (), t)"
proof -
  have "pdp_CheckTag (cl_B E) PDPV2 (shardAt (map Some tg) i) t = (Inr (), t)" if "i < cd_chunkCount d" for i
  proof -
    have "i < length tg"
      using ok st that index_less [of 0 "cd_tagCount d" i "cd_chunkCount d"] by (simp add: stripe_ok_def coder_ok_def)
    then show ?thesis
      using st that by (simp add: shardAt_def stripe_ok_def honestTag_def pdp_CheckTag_def CheckTag_def G1Deserialize_def curve_lawD(11) [OF law])
  qed
  with fault have "forM fault (\<lambda>i. pdp_CheckTag (cl_B E) PDPV2 (shardAt (map Some tg) i)) t = (Inr (), t)"
    by (induction fault) auto
  then show ?thesis
    by (simp add: checkFault_def)
qed

lemma recoverSegs:
  assumes ok: "coder_ok (cl_B E) cnt s a d" and st: "stripe_ok E s a d nm segs tg" and kept: "list_all2 hole kept (chunks d segs tg)" and enough: "cd_dc d \<le> present kept"
  shows "recoverData E (cd_chunkCount d) (map (map_option (take (cd_seg d))) (map (map_option (field d)) kept)) (cd_dc d) (cd_pc d) = Inr (map Some segs)"
proof -
  let ?ds = "map (map_option (take (cd_seg d))) (map (map_option (field d)) kept)"
  have holes: "list_all2 hole ?ds segs"
    using holes_map [OF holes_map [OF kept, of "field d"], of "take (cd_seg d)"] seg_shards [OF ok st] by simp
  have dc: "1 \<le> cd_dc d"
    using ok by (simp add: coder_ok_def)
  show ?thesis
  proof (cases "1 < cd_dc d")
    case True
    then have "coded E (cd_dc d) (cd_pc d) segs"
      using st by (simp add: stripe_ok_def)
    from recoverData_coded [OF this True holes] show ?thesis
      using enough by (simp del: map_map)
  next
    case False
    then have "cd_dc d = 1" and segs: "segs = replicate (cd_chunkCount d) (segs ! 0)"
      using dc st by (auto simp: stripe_ok_def)
    moreover have "recoverData E (cd_chunkCount d) ?ds 1 (cd_pc d) = Inr (map Some (replicate (cd_chunkCount d) (segs ! 0)))"
      using holes segs enough dc by (intro recoverData_copies) (auto simp del: map_map)
    ultimately show ?thesis
      by simp
  qed
qed

lemma recoverField_run:
  assumes law: "curve_law (cl_B E)" and ok: "coder_ok (cl_B E) cnt s a d" and st: "stripe_ok E s a d nm segs tg"
    and kept: "list_all2 hole kept (chunks d segs tg)" and enough: "cd_dc d \<le> present kept"
  shows "recoverField E None (map (map_option (field d)) kept) (d, st0) = (Inr (map (\<lambda>i. Some (field d (chunkOf d segs tg i))) [0..<cd_chunkCount d]), (d, st0))"
proof -
  let ?n = "cd_chunkCount d" and ?flds = "map (map_option (field d)) kept"
  have n: "1 < ?n" "length kept = ?n"
    using ok list_all2_lengthD [OF kept] by (auto simp: coder_ok_def)
  have tags: "recoverData E ?n (tagShards d ?flds) ?n (?n * (cd_tagCount d - 1)) = Inr (map Some tg)"
    using st tag_shards [OF ok st kept] enough_tags [OF ok enough] by (intro recoverData_coded [OF _ n(1)]) (auto simp: stripe_ok_def)
  have len: "length segs = ?n" "length tg = cd_tagCount d * ?n"
    using st by (auto simp: stripe_ok_def)
  have "(case ?flds ! i of Some c \<Rightarrow> Some c | None \<Rightarrow> Some (shardAt (map Some segs) i @ concat (map (\<lambda>j. shardAt (map Some tg) (j * ?n + i)) [0..<cd_tagCount d])))
      = Some (field d (chunkOf d segs tg i))" if i: "i < ?n" for i
  proof (cases "kept ! i")
    case None
    have "map (\<lambda>j. shardAt (map Some tg) (j * ?n + i)) [0..<cd_tagCount d] = tagsAt d tg i"
      using index_less [OF _ i, of _ "cd_tagCount d"] len by (simp add: tagsAt_def shardAt_def)
    then show ?thesis
      using None i n len chunk_facts(4) [OF ok st i] by (simp add: field_def shardAt_def)
  next
    case (Some c)
    then have "c = chunkOf d segs tg i"
      using kept i n by (auto simp: list_all2_conv_all_nth hole_def)
    then show ?thesis
      using Some i n by simp
  qed
  then have "map (\<lambda>i. case ?flds ! i of Some c \<Rightarrow> Some c | None \<Rightarrow> Some (shardAt (map Some segs) i @ concat (map (\<lambda>j. shardAt (map Some tg) (j * ?n + i)) [0..<cd_tagCount d]))) [0..<?n]
      = map (\<lambda>i. Some (field d (chunkOf d segs tg i))) [0..<?n]"
    by (intro map_cong) auto
  then show ?thesis
    using recoverSegs [OF ok st kept enough] tags check_faults [OF law ok st, of "filter (\<lambda>i. ?flds ! i = None) [0..<?n]"]
    by (simp add: recoverField_def Let_def del: map_map)
qed

lemma Recover_run:
  assumes law: "curve_law (cl_B E)" and ok: "coder_ok (cl_B E) cnt s a d" and st: "stripe_ok E s a d nm segs tg"
    and kept: "list_all2 hole kept (chunks d segs tg)" and enough: "cd_dc d \<le> present kept"
  shows "\<exists>dv. Recover E None (d, kept) = (Inr (), (d\<lparr>cd_dv := dv\<rparr>, map Some (chunks d segs tg)))"
proof -
  let ?n = "cd_chunkCount d"
  obtain dv where ver: "VerifyStripe E None (d, kept) = (Inr (\<forall>j < cd_dc d. kept ! j \<noteq> None, present kept), (d\<lparr>cd_dv := dv\<rparr>, kept))" and inv: "dv_inv (cl_B E) cnt s a dv"
    using VerifyStripe_run [OF law ok holes_good [OF ok st kept] _ enough] by blast
  let ?d = "d\<lparr>cd_dv := dv\<rparr>"
  have n: "length kept = ?n"
    using list_all2_lengthD [OF kept] by simp
  have st': "stripe_ok E s a ?d nm segs tg" and chunk: "chunkOf ?d segs tg = chunkOf d segs tg" and fld: "field ?d = field d"
    using st by (auto simp: stripe_ok_def chunkOf_def fun_eq_iff field_def)
  have norm: "normAt (?d, kept) i = kept ! i" if "i < ?n" for i
    using that n kept chunk_facts(1) [OF ok st that] by (auto simp: list_all2_conv_all_nth hole_def chunkAt_def normAt_def split: option.splits)
  have rec: "recoverField E None (map (map_option (field d)) kept) (?d, kept) = (Inr (map (\<lambda>i. Some (field d (chunkOf d segs tg i))) [0..<?n]), (?d, kept))"
    using recoverField_run [OF law coder_ok_dv [OF ok inv] st' _ _, of kept kept] kept enough by (simp add: chunk fld)
  have flds: "map (\<lambda>i. map_option (sub (cd_prefixSize d) (cd_fragmentSize d)) (normAt (?d, kept) i)) [0..<?n] = map (map_option (field d)) kept"
    using norm n by (intro nth_equalityI) (simp_all add: field_def [abs_def])
  have "restored (?d, kept) (map (\<lambda>i. Some (field d (chunkOf d segs tg i))) [0..<?n]) i = Some (chunkOf d segs tg i)" if i: "i < ?n" for i
  proof (cases "kept ! i")
    case None
    then show ?thesis
      using i n norm [OF i] chunk_facts(4) [OF ok st i] ok by (simp add: restored_def shardAt_def field_def chunkOf_parts coder_ok_def)
  next
    case (Some c)
    then have "c = chunkOf d segs tg i"
      using kept i n by (auto simp: list_all2_conv_all_nth hole_def)
    then show ?thesis
      using Some i n norm [OF i] by (simp add: restored_def)
  qed
  then have "map (restored (?d, kept) (map (\<lambda>i. Some (field d (chunkOf d segs tg i))) [0..<?n])) [0..<length kept] = map Some (chunks d segs tg)"
    using n by simp
  then show ?thesis
    using ver enough rec flds by (auto simp: Recover_def Let_def)
qed

section \<open>Decoding and encoding\<close>

lemma collect_segs:
  "\<forall>j < k. st ! j = Some (ch j) \<Longrightarrow>
     foldM [0..<k] [] (\<lambda>j res. case st ! j of None \<Rightarrow> fail (Panic ''slice bounds out of range'') | Some c \<Rightarrow> ret (res @ segPart d c)) t =
     (Inr (concat (map (\<lambda>j. segPart d (ch j)) [0..<k])), t)"
  by (induction k) (auto simp: foldM_append)

lemma Decode_run:
  assumes law: "curve_law (cl_B E)" and ok: "coder_ok (cl_B E) cnt s a d" and st: "stripe_ok E s a d nm segs tg"
    and kept: "list_all2 hole kept (chunks d segs tg)" and enough: "cd_dc d \<le> present kept" and name: "name = None \<or> name = Some nm"
  shows "\<exists>t. Decode E name (d, kept) = (Inr (concat (take (cd_dc d) segs)), t)"
proof -
  let ?direct = "\<forall>j < cd_dc d. kept ! j \<noteq> None"
  obtain dv where ver: "VerifyStripe E name (d, kept) = (Inr (?direct, present kept), (d\<lparr>cd_dv := dv\<rparr>, kept))" and inv: "dv_inv (cl_B E) cnt s a dv"
    using VerifyStripe_run [OF law ok holes_good [OF ok st kept] name enough] by blast
  let ?d = "d\<lparr>cd_dv := dv\<rparr>"
  have st': "stripe_ok E s a ?d nm segs tg" and chunk: "chunkOf ?d segs tg = chunkOf d segs tg"
    using st by (auto simp: stripe_ok_def chunkOf_def fun_eq_iff)
  have dc: "cd_dc d \<le> cd_chunkCount d" "length segs = cd_chunkCount d" "length kept = cd_chunkCount d"
    using ok st list_all2_lengthD [OF kept] by (auto simp: coder_ok_def stripe_ok_def)
  have "\<exists>d' st''. (if ?direct then ret () else Recover E None) (?d, kept) = (Inr (), (d', st'')) \<and> (\<forall>c. segPart d' c = segPart d c) \<and> (\<forall>j < cd_dc d. st'' ! j = Some (chunkOf d segs tg j))"
  proof (cases ?direct)
    case True
    then have "\<forall>j < cd_dc d. kept ! j = Some (chunkOf d segs tg j)"
      using kept less_le_trans [OF _ dc(1)] by (fastforce simp: list_all2_conv_all_nth hole_def)
    then show ?thesis
      unfolding if_P [OF True] by (intro exI [of _ ?d] exI [of _ kept]) simp
  next
    case False
    have "cd_dc ?d \<le> present kept" "list_all2 hole kept (chunks ?d segs tg)"
      using enough kept by (simp_all add: chunk)
    from Recover_run [OF law coder_ok_dv [OF ok inv] st' this(2,1)] obtain dv' where
      "Recover E None (?d, kept) = (Inr (), (d\<lparr>cd_dv := dv'\<rparr>, map Some (chunks d segs tg)))"
      by (auto simp: chunk)
    then show ?thesis
      unfolding if_not_P [OF False] using dc by auto
  qed
  then obtain d' st'' where run: "(if ?direct then ret () else Recover E None) (?d, kept) = (Inr (), (d', st''))"
    and d': "\<forall>c. segPart d' c = segPart d c" "\<forall>j < cd_dc d. st'' ! j = Some (chunkOf d segs tg j)"
    by blast
  have "map (\<lambda>j. segPart d' (chunkOf d segs tg j)) [0..<cd_dc d] = take (cd_dc d) segs"
    using d'(1) chunk_facts(3) [OF ok st] dc by (auto intro!: nth_equalityI)
  then show ?thesis
    using ver run enough collect_segs [OF d'(2), of d' "(d', st'')"] by (simp add: Decode_def)
qed

lemma genTags_run:
  assumes "curve_law (cl_B E)" and "coder_ok (cl_B E) cnt s a d" and "\<forall>x \<in> set segs. x \<noteq> []"
  shows "genTags E d name j segs t = (Inr (map (\<lambda>(i, seg). honestTag (cl_B E) s a (SetChunkID (word_of_nat i) name) seg) (enumerate j segs)), t)"
  using assms(3)
proof (induction segs arbitrary: j)
  case (Cons seg segs)
  have d: "px_TagFlag (cd_Prefix d) = 5" "cd_blsKey d = keyset (cl_B E) cnt s a" "cd_tagSize d = 48"
    using assms(2) by (auto simp: coder_ok_def)
  have "copy_into 48 (honestTag (cl_B E) s a i seg) = honestTag (cl_B E) s a i seg" for i
    by (simp add: honestTag_def copy_into_id curve_lawD(12) [OF assms(1)])
  then show ?case
    using Cons d by (simp add: DataCoder_GenTag_def GenTag_run [OF assms(1)] honestTag_def)
qed simp

lemma segsOf_facts:
  assumes "length b = cd_dc d * cd_seg d" and "cd_dc d \<le> cd_chunkCount d"
  shows "length (segsOf d b) = cd_chunkCount d" and "\<forall>x \<in> set (segsOf d b). length x = cd_seg d" and "concat (take (cd_dc d) (segsOf d b)) = b"
proof -
  show "length (segsOf d b) = cd_chunkCount d"
    by (simp add: segsOf_def)
  have "length (sub (i * cd_seg d) ((i + 1) * cd_seg d) b) = cd_seg d" if "i < cd_dc d" for i
  proof -
    have "(i + 1) * cd_seg d \<le> length b"
      using that assms(1) by (simp only: assms(1)) (intro mult_le_mono1, simp)
    then show ?thesis
      by (simp add: sub_def)
  qed
  then show "\<forall>x \<in> set (segsOf d b). length x = cd_seg d"
    by (auto simp: segsOf_def)
  have "take (cd_dc d) (segsOf d b) = map (\<lambda>i. sub (i * cd_seg d) ((i + 1) * cd_seg d) b) [0..<cd_dc d]"
    using assms(2) by (auto simp: segsOf_def take_map intro!: nth_equalityI)
  then show "concat (take (cd_dc d) (segsOf d b)) = b"
    using concat_subs [OF assms(1)] by simp
qed

lemma encodeSegs_run:
  assumes policy: "px_Policy (cd_Prefix d) = MulPolicy \<and> cd_dc d = 1 \<or> px_Policy (cd_Prefix d) = RsPolicy \<and> 1 < cd_dc d"
    and rs: "rs_code E (cd_dc d) (cd_pc d)" and n: "cd_chunkCount d = cd_dc d + cd_pc d" "0 < cd_seg d"
    and segs0: "length xs = cd_chunkCount d" "\<forall>x \<in> set xs. length x = cd_seg d"
  shows "\<exists>segs. encodeSegs E d xs t = (Inr segs, t) \<and> length segs = cd_chunkCount d \<and> (\<forall>x \<in> set segs. length x = cd_seg d) \<and>
    take (cd_dc d) segs = take (cd_dc d) xs \<and> (if cd_dc d > 1 then coded E (cd_dc d) (cd_pc d) segs else segs = replicate (cd_chunkCount d) (segs ! 0))"
  using policy
proof (elim disjE conjE)
  assume mul: "px_Policy (cd_Prefix d) = MulPolicy" and dc: "cd_dc d = 1"
  obtain y ys where xs: "xs = y # ys"
    using segs0(1) n(1) dc by (cases xs) auto
  have "map (\<lambda>j. if j < 1 then xs ! j else xs ! 0) [0..<cd_chunkCount d] = replicate (cd_chunkCount d) y"
    by (rule nth_equalityI) (auto simp: xs)
  then have "encodeSegs E d xs t = (Inr (replicate (cd_chunkCount d) y), t)"
    using mul dc by (simp add: encodeSegs_def)
  then show ?thesis
    using dc n(1) xs segs0(2) by (auto simp: take_replicate)
next
  assume "px_Policy (cd_Prefix d) = RsPolicy" and "1 < cd_dc d"
  then show ?thesis
    using rs_codeD [OF rs _ n(2) segs0(2)] segs0(1) n(1) by (auto simp: encodeSegs_def RsPolicy_def MulPolicy_def)
qed

lemma Encode_run:
  assumes law: "curve_law (cl_B E)" and ok: "coder_ok (cl_B E) cnt s a d"
    and policy: "px_Policy (cd_Prefix d) = MulPolicy \<and> cd_dc d = 1 \<or> px_Policy (cd_Prefix d) = RsPolicy \<and> 1 < cd_dc d"
    and rs: "rs_code E (cd_dc d) (cd_pc d)" and rs': "rs_code E (cd_chunkCount d) (cd_chunkCount d * (cd_tagCount d - 1))"
    and data: "data \<noteq> []" "length data \<le> cd_dc d * cd_seg d"
  shows "\<exists>segs tg. Encode E d name data t = (Inr (chunks d segs tg), t) \<and> stripe_ok E s a d name segs tg \<and>
    concat (take (cd_dc d) segs) = data @ replicate (cd_dc d * cd_seg d - length data) 0"
proof -
  let ?data = "data @ replicate (cd_dc d * cd_seg d - length data) 0" and ?n = "cd_chunkCount d" and ?L = "cd_seg d"
  have d: "?n = cd_dc d + cd_pc d" "cd_tagCount d \<ge> 2" "0 < ?L" "1 \<le> cd_dc d" "cd_tagSize d = 48"
    using ok by (auto simp: coder_ok_def)
  have segs0: "length (segsOf d ?data) = ?n" "\<forall>x \<in> set (segsOf d ?data). length x = ?L" "concat (take (cd_dc d) (segsOf d ?data)) = ?data"
    using data(2) d(1) by (intro segsOf_facts; simp)+
  obtain segs where enc: "encodeSegs E d (segsOf d ?data) t = (Inr segs, t)" and segs: "length segs = ?n" "\<forall>x \<in> set segs. length x = ?L"
    "take (cd_dc d) segs = take (cd_dc d) (segsOf d ?data)" "if cd_dc d > 1 then coded E (cd_dc d) (cd_pc d) segs else segs = replicate ?n (segs ! 0)"
    by (rule exE [OF encodeSegs_run [OF policy rs d(1,3) segs0(1,2), of t]]) blast
  let ?tags = "map (\<lambda>(i, seg). honestTag (cl_B E) s a (SetChunkID (word_of_nat i) name) seg) (enumerate 0 segs)"
  have tags: "genTags E d name 0 segs t = (Inr ?tags, t)"
    using segs(2) d(3) by (intro genTags_run [OF law ok]) auto
  have len: "length (?tags @ replicate (?n * (cd_tagCount d - 1)) (replicate 48 0)) = ?n + ?n * (cd_tagCount d - 1)"
    and all: "\<forall>x \<in> set (?tags @ replicate (?n * (cd_tagCount d - 1)) (replicate 48 0)). length x = 48"
    using segs(1) by (auto simp: honestTag_def curve_lawD(12) [OF law])
  obtain tg where
    tg: "cl_Encode E ?n (?n * (cd_tagCount d - 1)) (?tags @ replicate (?n * (cd_tagCount d - 1)) (replicate 48 0)) = Inr tg"
    "length tg = ?n + ?n * (cd_tagCount d - 1)" "take ?n tg = take ?n (?tags @ replicate (?n * (cd_tagCount d - 1)) (replicate 48 0))" "\<forall>x \<in> set tg. length x = 48" "coded E ?n (?n * (cd_tagCount d - 1)) tg"
    by (rule rs_codeD [OF rs' len zero_less_numeral all])
  have "tg ! i = honestTag (cl_B E) s a (SetChunkID (word_of_nat i) name) (segs ! i)" if "i < ?n" for i
    using that segs(1) arg_cong [OF tg(3), of "\<lambda>xs. xs ! i"] by (simp add: nth_enumerate_eq nth_append)
  then have "stripe_ok E s a d name segs tg"
    using segs tg d by (cases "cd_tagCount d") (auto simp: stripe_ok_def)
  moreover have "Encode E d name data t = (Inr (chunks d segs tg), t)"
    using data rs rs' enc tags tg(1) d(5) by (simp add: Encode_def Let_def rs_code_def)
  ultimately show ?thesis
    using segs(3) segs0(3) by (intro exI [of _ segs] exI [of _ tg]) simp
qed

section \<open>The stripe survives\<close>

lemma NewDataCoder_ok:
  assumes law: "curve_law B" and keys: "GenerateKeyWithSeed B PDPV2 seed () = (Inr ks, ())"
    and new: "NewDataCoder ks v policy dcn pcn 5 sz () = (Inr d, ())"
  obtains s a where "coder_ok B 8192 s a d" and "policy = 1 \<or> policy = 2" and "px_Policy (cd_Prefix d) = word_of_int policy"
    and "policy = 2 \<Longrightarrow> cd_dc d = 1"
proof -
  obtain s a where ks: "ks = keyset B 8192 s a"
    using GenKeySetWithSeed_Inr [OF law, of seed 8192 "()" ks "()"] keys by (auto simp: GenerateKeyWithSeed_def SCount_def)
  have d: "coder_ok B 8192 s a d"
    using new by (auto simp: NewDataCoder_def NewDataCoderWithPrefix_def NewDataVerifier_def ks makeFrs_def preCompute_def Let_def go_simps
        TagMap_def DefaultPrefixLen_def DefaultSegSize_def coder_ok_def dv_inv_def mul1_zero [OF law] split: if_splits)
  show ?thesis
    using new by (intro that [OF d]) (auto simp: NewDataCoder_def NewDataCoderWithPrefix_def preCompute_def Let_def go_simps split: if_splits)
qed

text \<open>
  C38: A stripe survives the loss of chunks.  Take a coder for the Reed-Solomon policy with at least two data
  chunks, or for the copying policy, and data that fits: \<open>Encode\<close> returns one chunk per position, and
  whichever chunks are lost, as long as there are as many left as data chunks, \<open>Decode\<close> returns the data
  filled up with zeros, with and without the check of the tags.
\<close>

theorem stripe_survives_losses:
  assumes law: "curve_law (cl_B E)" and keys: "GenerateKeyWithSeed (cl_B E) PDPV2 seed () = (Inr ks, ())"
    and new: "NewDataCoder ks v policy dcn pcn 5 sz () = (Inr d, ())" and policy: "policy = 1 \<longrightarrow> 1 < cd_dc d"
    and rs: "rs_code E (cd_dc d) (cd_pc d)" "rs_code E (cd_chunkCount d) (cd_chunkCount d * (cd_tagCount d - 1))"
    and data: "data \<noteq> []" "length data \<le> cd_dc d * cd_seg d"
  shows "\<exists>stripe. Encode E d name data () = (Inr stripe, ()) \<and> length stripe = cd_chunkCount d \<and>
    (\<forall>kept check. list_all2 hole kept stripe \<and> cd_dc d \<le> present kept \<and> check \<in> {None, Some name} \<longrightarrow>
      (\<exists>t. Decode E check (d, kept) = (Inr (data @ replicate (cd_dc d * cd_seg d - length data) 0), t)))"
proof -
  obtain s a where d: "coder_ok (cl_B E) 8192 s a d" and p: "policy = 1 \<or> policy = 2" "px_Policy (cd_Prefix d) = word_of_int policy" "policy = 2 \<Longrightarrow> cd_dc d = 1"
    using NewDataCoder_ok [OF law keys new] by metis
  then have "px_Policy (cd_Prefix d) = MulPolicy \<and> cd_dc d = 1 \<or> px_Policy (cd_Prefix d) = RsPolicy \<and> 1 < cd_dc d"
    using policy by (auto simp: MulPolicy_def RsPolicy_def)
  from Encode_run [OF law d this rs data, of name "()"] obtain segs tg where
    enc: "Encode E d name data () = (Inr (chunks d segs tg), ())" and st: "stripe_ok E s a d name segs tg"
    and segs: "concat (take (cd_dc d) segs) = data @ replicate (cd_dc d * cd_seg d - length data) 0"
    by metis
  have "\<exists>t. Decode E check (d, kept) = (Inr (data @ replicate (cd_dc d * cd_seg d - length data) 0), t)"
    if "list_all2 hole kept (chunks d segs tg)" "cd_dc d \<le> present kept" "check \<in> {None, Some name}" for kept check
    using Decode_run [OF law d st that(1,2), of check] that(3) unfolding segs by blast
  with enc show ?thesis
    by (intro exI [of _ "chunks d segs tg"]) auto
qed

section \<open>An example\<close>

text \<open>A code of two data and two parity shards over the field of four elements, two bits of a byte each:
  the parity shards are \<open>x + y\<close> and \<open>x + \<omega>y\<close>.  One data and one parity shard are copies.\<close>

definition times_omega :: "u8 \<Rightarrow> u8" where
  "times_omega v = horner_sum of_bool 2 [bit v 1, bit v 1 \<noteq> bit v 0, bit v 3, bit v 3 \<noteq> bit v 2, bit v 5, bit v 5 \<noteq> bit v 4, bit v 7, bit v 7 \<noteq> bit v 6]"

lemma bits8: "(\<And>n. n \<in> {0, Suc 0, 2, 3, 4, 5, 6, 7} \<Longrightarrow> bit v n = bit w n) \<Longrightarrow> v = (w :: u8)"
  by (rule bit_word_eqI) (auto simp: less_Suc_eq numeral_eq_Suc)

lemma omega_bits:
  "bit (times_omega v) 0 = bit v (Suc 0)" "bit (times_omega v) 2 = bit v 3" "bit (times_omega v) 4 = bit v 5" "bit (times_omega v) 6 = bit v 7"
  "bit (times_omega v) (Suc 0) = (bit v (Suc 0) \<noteq> bit v 0)" "bit (times_omega v) 3 = (bit v 3 \<noteq> bit v 2)" "bit (times_omega v) 5 = (bit v 5 \<noteq> bit v 4)" "bit (times_omega v) 7 = (bit v 7 \<noteq> bit v 6)"
  unfolding times_omega_def bit_horner_sum_bit_word_iff by (simp_all add: nth_Cons')

lemma omega_cubed: "times_omega (times_omega (times_omega v)) = v"
  by (rule bits8) (auto simp: omega_bits)

lemma omega_inverse: "times_omega (v XOR times_omega v) = v"
  by (rule bits8) (auto simp: omega_bits bit_simps)

definition xorb :: "bytes \<Rightarrow> bytes \<Rightarrow> bytes" where "xorb xs ys = map2 (XOR) xs ys"
definition omegas :: "bytes \<Rightarrow> bytes" where "omegas xs = map times_omega xs"

lemma xorb_simps:
  "length x = length y \<Longrightarrow> xorb x (xorb x y) = y" "length x = length y \<Longrightarrow> xorb y (xorb x y) = x"
  "length x = length y \<Longrightarrow> xorb (xorb x y) y = x"
  "length x = length y \<Longrightarrow> omegas (omegas (xorb x (xorb x (omegas y)))) = y"
  "length x = length y \<Longrightarrow> omegas (xorb (xorb x y) (xorb x (omegas y))) = y"
  by (induction x y rule: list_induct2) (auto simp: xorb_def omegas_def omega_cubed omega_inverse bit.xor_left_self xor.assoc xor.commute xor.left_commute)

definition code4 :: "bytes \<Rightarrow> bytes \<Rightarrow> bytes list" where
  "code4 x y = [x, y, xorb x y, xorb x (omegas y)]"

definition solve4 :: "bytes option list \<Rightarrow> bytes option list" where
  "solve4 ds = map Some (case ds of
      [Some x, Some y, _, _] \<Rightarrow> code4 x y
    | [Some x, None, Some p, _] \<Rightarrow> code4 x (xorb x p)
    | [Some x, None, None, Some q] \<Rightarrow> code4 x (omegas (omegas (xorb x q)))
    | [None, Some y, Some p, _] \<Rightarrow> code4 (xorb y p) y
    | [None, Some y, None, Some q] \<Rightarrow> code4 (xorb q (omegas y)) y
    | [None, None, Some p, Some q] \<Rightarrow> code4 (xorb (omegas (xorb p q)) p) (omegas (xorb p q))
    | _ \<Rightarrow> [])"

definition ex_encode :: "nat \<Rightarrow> bytes list \<Rightarrow> bytes list" where
  "ex_encode dc xs = (if dc = 1 then [xs ! 0, xs ! 0] else code4 (xs ! 0) (xs ! 1))"

definition ex_code :: "(u64, u64, u64) codeLib" where
  "ex_code = \<lparr>cl_B = word_curve, cl_New = (\<lambda>dc pc. dc = pc \<and> (dc = 1 \<or> dc = 2)),
     cl_Encode = (\<lambda>dc pc xs. Inr (ex_encode dc xs)),
     cl_Verify = (\<lambda>dc pc ds. if None \<in> set ds then Inl (Err ''shard sizes do not match'') else Inr (map the ds = ex_encode dc (map the ds))),
     cl_Reconstruct = (\<lambda>dc pc ds. Inr (if dc = 1 then (case find (\<lambda>x. x \<noteq> None) ds of Some c \<Rightarrow> [c, c] | None \<Rightarrow> []) else solve4 ds)),
     cl_crc32 = (\<lambda>_. 0)\<rparr>"

lemma length_code4: "length x = length y \<Longrightarrow> \<forall>z \<in> set (code4 x y). length z = length y"
  by (simp add: code4_def xorb_def omegas_def)

lemma solve4_code:
  assumes "length x = length y" and "list_all2 hole ds (code4 x y)" and "2 \<le> present ds"
  shows "solve4 ds = map Some (code4 x y)"
proof -
  obtain d1 d2 d3 d4 where ds: "ds = [d1, d2, d3, d4]" and h: "hole d1 x" "hole d2 y" "hole d3 (xorb x y)" "hole d4 (xorb x (omegas y))"
    using assms(2) by (auto simp: code4_def list_all2_Cons2)
  have "length (omegas y) = length y"
    by (simp add: omegas_def)
  then show ?thesis
    using h assms(1,3) xorb_simps [of x y] xorb_simps(3) [of x "omegas y"] unfolding ds hole_def
    by (elim disjE) (simp_all add: solve4_def)
qed

lemma ex_rs2: "rs_code ex_code 2 2"
proof -
  have "\<exists>es. cl_Encode ex_code 2 2 shards = Inr es \<and> length es = 2 + 2 \<and> take 2 es = take 2 shards \<and> (\<forall>x \<in> set es. length x = k) \<and>
      cl_Verify ex_code 2 2 (map Some es) = Inr True \<and> (\<forall>ds. list_all2 hole ds es \<and> 2 \<le> present ds \<longrightarrow>
        (None \<in> set ds \<longrightarrow> cl_Verify ex_code 2 2 ds = Inl (Err ''shard sizes do not match'')) \<and> cl_Reconstruct ex_code 2 2 ds = Inr (map Some es))"
    if "length shards = 2 + 2" "\<forall>x \<in> set shards. length x = k" for shards k
  proof -
    have "length shards = Suc (Suc (Suc (Suc 0)))"
      using that(1) by simp
    then obtain x y z w where sh: "shards = [x, y, z, w]"
      unfolding length_Suc_conv by auto
    then have "length x = length y" "length y = k"
      using that(2) by auto
    then show ?thesis
      using length_code4 [of x y] solve4_code [of x y] sh
      by (intro exI [of _ "code4 x y"]) (simp add: ex_code_def ex_encode_def comp_def, simp add: code4_def)
  qed
  moreover have "cl_New ex_code 2 2"
    by (simp add: ex_code_def)
  ultimately show ?thesis
    unfolding rs_code_def by blast
qed

lemma ex_rs1: "rs_code ex_code 1 1"
proof -
  have "\<exists>es. cl_Encode ex_code 1 1 shards = Inr es \<and> length es = 1 + 1 \<and> take 1 es = take 1 shards \<and> (\<forall>x \<in> set es. length x = k) \<and>
      cl_Verify ex_code 1 1 (map Some es) = Inr True \<and> (\<forall>ds. list_all2 hole ds es \<and> 1 \<le> present ds \<longrightarrow>
        (None \<in> set ds \<longrightarrow> cl_Verify ex_code 1 1 ds = Inl (Err ''shard sizes do not match'')) \<and> cl_Reconstruct ex_code 1 1 ds = Inr (map Some es))"
    if "length shards = 1 + 1" "\<forall>x \<in> set shards. length x = k" for shards k
  proof -
    have "length shards = Suc (Suc 0)"
      using that(1) by simp
    then obtain x y where sh: "shards = [x, y]"
      unfolding length_Suc_conv by auto
    then show ?thesis
      using that(2) present_find [where n = "Suc (Suc 0)" and c = x]
      by (intro exI [of _ "[x, x]"]) (simp add: ex_code_def ex_encode_def comp_def)
  qed
  moreover have "cl_New ex_code 1 1"
    by (simp add: ex_code_def)
  ultimately show ?thesis
    unfolding rs_code_def by blast
qed

definition ex_ks8 :: "(u64, u64, u64) KeySet" where "ex_ks8 = keyset word_curve 8192 ex_s ex_a"

definition ex_coder :: "(u64, u64, u64) DataCoder" where
  "ex_coder = \<lparr>cd_Prefix = \<lparr>px_Version = 1, px_Policy = 2, px_DataCount = 1, px_ParityCount = 1, px_TagFlag = 5, px_SegSize = 253952\<rparr>,
     cd_blsKey = ex_ks8, cd_dv = \<lparr>dv_pk = pubOf word_curve 8192 ex_s ex_a, dv_sk = ks_Sk ex_ks8, dv_typ = DefaultType,
       dv_sums = replicate 8192 0, dv_delta = 0, dv_HWi = 0\<rparr>,
     cd_chunkCount = 2, cd_prefixSize = 24, cd_tagCount = 2, cd_tagSize = 48, cd_fragmentSize = 254072\<rparr>"

lemma ex_keys8: "GenerateKeyWithSeed word_curve PDPV2 [3] () = (Inr ex_ks8, ())"
  unfolding GenerateKeyWithSeed_def GenKeySetWithSeed_def Let_def ex_ks8_def ex_s_def ex_a_def
  using newKeys_run [OF word_curve_law, of 8192] by (simp add: word_sless_alt SCount_def)

lemma ex_coder_new: "NewDataCoder ex_ks8 1 2 1 1 5 0 () = (Inr ex_coder, ())"
  by (simp add: NewDataCoder_def NewDataCoderWithPrefix_def NewDataVerifier_def ex_ks8_def makeFrs_def word_sless_alt preCompute_def Let_def
      DefaultPrefixLen_def TagMap_def DefaultSegSize_def ex_coder_def)

theorem stripe_survives_losses_witness:
  "\<exists>stripe. Encode ex_code ex_coder (replicate 40 0) [7] () = (Inr stripe, ()) \<and> length stripe = cd_chunkCount ex_coder \<and>
    (\<forall>kept check. list_all2 hole kept stripe \<and> cd_dc ex_coder \<le> present kept \<and> check \<in> {None, Some (replicate 40 0)} \<longrightarrow>
      (\<exists>t. Decode ex_code check (ex_coder, kept) = (Inr ([7] @ replicate (cd_dc ex_coder * cd_seg ex_coder - length [7 :: u8]) 0), t)))"
proof (rule stripe_survives_losses)
  show "curve_law (cl_B ex_code)" "GenerateKeyWithSeed (cl_B ex_code) PDPV2 [3] () = (Inr ex_ks8, ())"
    using word_curve_law ex_keys8 by (simp_all add: ex_code_def)
  show "NewDataCoder ex_ks8 1 2 1 1 5 0 () = (Inr ex_coder, ())"
    by (rule ex_coder_new)
  show "rs_code ex_code (cd_dc ex_coder) (cd_pc ex_coder)" "rs_code ex_code (cd_chunkCount ex_coder) (cd_chunkCount ex_coder * (cd_tagCount ex_coder - 1))"
    using ex_rs1 ex_rs2 by (simp_all add: ex_coder_def)
qed (simp_all add: ex_coder_def)

section \<open>A slice that is too short\<close>

text \<open>Missing chunks of the caller's slice, of length \<open>n\<close>, for a coder with the numbers \<open>m\<close> of all chunks and of data chunks.\<close>

definition lacks :: "nat \<Rightarrow> nat \<times> nat \<Rightarrow> nat set \<Rightarrow> ('f, 'p, 'q) coding \<Rightarrow> bool" where
  "lacks n m J s \<longleftrightarrow> length (snd s) = n \<and> (cd_chunkCount (fst s), cd_dc (fst s)) = m \<and> (\<forall>j \<in> J. j < n \<and> snd s ! j = None)"

lemma keeps_onDv: "keeps (lacks n m J) (onDv f)"
  by (auto simp: keeps_def lacks_def onDv_def Let_def split: prod.splits)

lemma keeps_setNil: "keeps (lacks n m J) (setNil j)"
  by (auto simp: keeps_def lacks_def setNil_def) (metis nth_list_update nth_list_update_neq)

lemma keeps_onBad:
  assumes "keeps P f" and "\<And>x. keeps P (g x)" and "keeps P h"
  shows "keeps P (onBad f g h)"
proof (rule keepsI)
  fix s
  assume "P s"
  then have "P (snd (f s))"
    by (rule keepsD [OF assms(1)])
  then show "P (snd (onBad f g h s))"
    using keepsD [OF assms(2)] keepsD [OF assms(3)] by (cases "f s") (auto simp: onBad_def split: sum.splits err.splits)
qed

lemma keeps_case_sum: "(\<And>x. keeps P (f x)) \<Longrightarrow> (\<And>x. keeps P (g x)) \<Longrightarrow> keeps P (case r of Inl x \<Rightarrow> f x | Inr x \<Rightarrow> g x)"
  by (cases r) auto

lemma keeps_VerifyTag: "keeps P (KeySet_VerifyTag B k i seg tag)"
  unfolding KeySet_VerifyTag_def splitSegmentToAtoms_def G1MulVec_def G1Deserialize_def
  by (intro keeps_rules)

lemma keeps_CheckTag: "keeps P (pdp_CheckTag B ver tag)"
  unfolding pdp_CheckTag_def CheckTag_def G1Deserialize_def by (intro keeps_rules)

lemma keeps_verifyAt: "keeps (lacks n m J) (verifyAt E name j good)"
  unfolding verifyAt_def by (intro keeps_rules keeps_onDv keeps_setNil keeps_onBad keeps_case_sum keeps_CheckTag)

lemma keeps_recheckAt: "keeps (lacks n m J) (recheckAt E nm j acc)"
  unfolding recheckAt_def VerifyChunk_def Let_def by (intro keeps_rules keeps_setNil keeps_onBad keeps_VerifyTag)

lemma keeps_VerifyStripe: "keeps (lacks n m J) (VerifyStripe E name)"
  unfolding VerifyStripe_def by (intro keeps_rules keeps_onDv keeps_onBad keeps_verifyAt keeps_recheckAt)

lemma keeps_recoverField: "keeps (lacks n m J) (recoverField E name flds)"
  unfolding recoverField_def checkFault_def by (intro keeps_rules keeps_onDv keeps_CheckTag)

lemma keeps_Recover:
  assumes "n < fst m"
  shows "keeps (lacks n m J) (Recover E name)"
proof -
  have "lacks n m J (fst s, map (restored s flds) [0..<length (snd s)])" if "lacks n m J s" for s :: "('a, 'b, 'c) coding" and flds
    using that assms by (auto simp: lacks_def restored_def normAt_def)
  then show ?thesis
    unfolding Recover_def by (intro keeps_rules keeps_VerifyStripe keeps_recoverField)
qed

lemma collect_missing:
  "j < k \<Longrightarrow> st ! j = None \<Longrightarrow> foldM [0..<k] acc (\<lambda>j res. case st ! j of None \<Rightarrow> fail (Panic ''slice bounds out of range'') | Some c \<Rightarrow> ret (res @ segPart d c)) t \<noteq> (Inr r, t')"
  by (induction k arbitrary: r t') (auto simp: foldM_append go_simps less_Suc_eq split: option.splits)



end
