(* ===== verification/Keeper.thy ===== *)
theory Keeper
  imports PushPool ProOrder
begin

text \<open>
  The services of a keeper, \<open>service/keeper\<close>: rounds of the timers that move the challenge epoch on,
  confirm the incomes of the providers and retire orders on the settlement chain, and the handler
  of metadata that nodes publish.

  The node is its push pool (and through it the state manager and the roles), its metadata store and
  the loop variables.  The settlement chain is a parameter; the orders handed to it are recorded.
\<close>

record KeeperNode =
  kn_roleID :: u64
  kn_push :: PushPool
  kn_ds :: kvs
  kn_latest :: u64
  kn_inProcess :: bool
  kn_subbed :: "SignedOrder list"
  kn_clock :: "nat \<Rightarrow> i64"
  kn_reads :: nat

record kenv =
  ke_env :: env
  ke_lru :: lru
  ke_storeInfo :: "u64 \<Rightarrow> u64 \<Rightarrow> StoreInfo option"
  ke_subOrder :: "SignedOrder \<Rightarrow> bool"
  ke_cEpochParams :: "(u64 \<times> MsgID) codec"
  ke_cRecord :: "(bytes \<times> bytes) codec"

type_synonym 'a kgo = "(KeeperNode, 'a) go"

abbreviation on_push :: "'a ppgo \<Rightarrow> 'a kgo" where
  "on_push m \<equiv> zoom kn_push (\<lambda>p k. k\<lparr>kn_push := p\<rparr>) m"

abbreviation kn_role :: "'a rgo \<Rightarrow> 'a kgo" where
  "kn_role m \<equiv> on_push (on_sp (on_rm m))"

abbreviation kn_state :: "KeeperNode \<Rightarrow> StateMgr" where
  "kn_state k \<equiv> sp_st (pp_sync (kn_push k))"

definition kn_now :: "i64 kgo" where
  "kn_now k = (Inr (kn_clock k (kn_reads k)), k\<lparr>kn_reads := Suc (kn_reads k)\<rparr>)"

section \<open>Pushing a message\<close>

text \<open>Sixty attempts; what became of the message is only logged.\<close>

fun pushTimes :: "nat \<Rightarrow> lib \<Rightarrow> kenv \<Rightarrow> Message \<Rightarrow> unit kgo" where
  "pushTimes 0 L K msg = ret ()"
| "pushTimes (Suc n) L K msg =
     bnd (attempt (on_push (PushMessage L (ke_env K) (ke_lru K) msg))) (\<lambda>res. case res of
       Inl _ \<Rightarrow> pushTimes n L K msg | Inr _ \<Rightarrow> ret ())"

definition pushMsg :: "lib \<Rightarrow> kenv \<Rightarrow> Message \<Rightarrow> unit kgo" where
  "pushMsg L K msg = pushTimes 60 L K msg"

definition keeperMsg :: "u64 \<Rightarrow> u32 \<Rightarrow> bytes \<Rightarrow> Message" where
  "keeperMsg i method data = \<lparr>msg_Version = 0, msg_From = i, msg_To = i, msg_Nonce = 0, msg_Value = None, msg_GasLimit = 0, msg_GasPrice = None,
     msg_Method = method, msg_Params = data\<rparr>"

text \<open>A round that fails with an error is given up; the loop goes on.\<close>

definition roundOf :: "unit kgo \<Rightarrow> unit kgo" where
  "roundOf m = dropErr m"

section \<open>The challenge epoch\<close>

definition EpochParams_Hash :: "lib \<Rightarrow> kenv \<Rightarrow> u64 \<Rightarrow> MsgID \<Rightarrow> MsgID" where
  "EpochParams_Hash L K e prev = (case marshal (ke_cEpochParams K) (e, prev) of None \<Rightarrow> MsgIDUndef | Some b \<Rightarrow> MsgIDOf L b)"

text \<open>The message a round makes, if the epoch has lasted long enough.\<close>

definition epochMsg :: "lib \<Rightarrow> kenv \<Rightarrow> Message option kgo" where
  "epochMsg L K =
     bnd (gets (\<lambda>k. (StateGetInfo (kn_state k), StateGetChalEpochInfo (kn_state k), kn_roleID k))) (\<lambda>(sgi, ce, me).
     bnd (orErr ''no duration'' (map_of (ChalDurMap (lb_build L)) (si_Version sgi))) (\<lambda>dur.
     if ce_Slot ce < si_Slot sgi \<and> si_Slot sgi - ce_Slot ce > dur then
       bnd (kn_role (RoleSign L (ke_env K) me (EpochParams_Hash L K (si_Epoch sgi) (ce_Seed ce)) SigSecp256k1)) (\<lambda>sig.
       bnd (gets (\<lambda>_. MultiSignature_Add (lb_sigAggregate L) (NewMultiSignature SigSecp256k1) me sig)) (\<lambda>added.
       bnd (Serialize (lb_cSignedEpochParams L) \<lparr>sep_Epoch = si_Epoch sgi, sep_Prev = ce_Seed ce,
              sep_Sig = (case added of Inr ms \<Rightarrow> ms | Inl _ \<Rightarrow> NewMultiSignature SigSecp256k1)\<rparr>) (\<lambda>data.
       ret (Some (keeperMsg me UpdateChalEpoch data)))))
     else ret None))"

definition pushNew :: "lib \<Rightarrow> kenv \<Rightarrow> Message option kgo \<Rightarrow> unit kgo" where
  "pushNew L K m = roundOf (bnd m (\<lambda>mm. case mm of None \<Rightarrow> ret () | Some msg \<Rightarrow> pushMsg L K msg))"

definition epochTick :: "lib \<Rightarrow> kenv \<Rightarrow> unit kgo" where
  "epochTick L K = pushNew L K (epochMsg L K)"

section \<open>Incomes\<close>

definition MT_ConfirmPayKey :: nat where "MT_ConfirmPayKey = 73"

definition confirmPayKey :: bytes where "confirmPayKey = skey MT_ConfirmPayKey []"

text \<open>The first epoch: \<open>if err != nil\<close> takes the epoch of the chain only when there is none to take, so it is zero unless stored.\<close>

definition payStart :: "KeeperNode \<Rightarrow> KeeperNode" where
  "payStart k = k\<lparr>kn_latest := (case kn_ds k confirmPayKey of Some v \<Rightarrow> if length v \<ge> 8 then Uint64 v else 0 | None \<Rightarrow> 0)\<rparr>"

definition payMsg :: "lib \<Rightarrow> kenv \<Rightarrow> u64 \<Rightarrow> u64 \<Rightarrow> Message option kgo" where
  "payMsg L K payEpoch pid =
     bnd (gets (\<lambda>k. (StateGetUsersAt L pid (kn_state k), StateGetAccPostIncomeAt L pid payEpoch (kn_state k), kn_roleID k))) (\<lambda>(users, mspi, me).
     if users = [] then ret None
     else
       bnd (orErr ''not have challenge'' mspi) (\<lambda>spi.
       bnd (AccPostIncome_Hash (lb_keccak L) (lb_build L) spi) (\<lambda>h.
       bnd (kn_role (RoleSign L (ke_env K) me h SigSecp256k1)) (\<lambda>sig.
       bnd (Serialize (lb_cPostIncomeParams L) \<lparr>pip_Epoch = payEpoch, pip_Income = spi, pip_Sig = sig\<rparr>) (\<lambda>data.
       ret (Some (keeperMsg me ConfirmPostIncome data)))))))"

definition payOne :: "lib \<Rightarrow> kenv \<Rightarrow> u64 \<Rightarrow> u64 \<Rightarrow> unit kgo" where
  "payOne L K payEpoch pid = pushNew L K (payMsg L K payEpoch pid)"

definition payTick :: "lib \<Rightarrow> kenv \<Rightarrow> unit kgo" where
  "payTick L K =
     bnd (gets (\<lambda>k. (si_Epoch (StateGetInfo (kn_state k)), kn_latest k, StateGetAllProviders (kn_state k)))) (\<lambda>(epoch, latest, pros).
     if epoch \<le> latest then ret ()
     else
       seq (modify (\<lambda>k. k\<lparr>kn_latest := epoch\<rparr>))
      (if epoch < 2 then ret ()
       else
         seq (forM pros (payOne L K (epoch - 2)))
             (modify (\<lambda>k. k\<lparr>kn_ds := (if lb_putFail L confirmPayKey (PutUint64 epoch) then kn_ds k
                else ds_put (kn_ds k) confirmPayKey (PutUint64 epoch))\<rparr>))))"

section \<open>Retiring orders\<close>

text \<open>\<open>(int(userID+proID) + int(nt)) % len(keepers)\<close>: the sum wraps and the remainder has its sign.\<close>

definition keeperIndex :: "u64 \<Rightarrow> u64 \<Rightarrow> i64 \<Rightarrow> nat \<Rightarrow> int" where
  "keeperIndex u p nt n = (let a = sint (u + p + nt) in sgn a * (\<bar>a\<bar> mod int n))"

definition unixDiv :: "i64 \<Rightarrow> int \<Rightarrow> i64" where
  "unixDiv t d = word_of_int (sgn (sint t) * (\<bar>sint t\<bar> div d))"

definition chosenKeeper :: "u64 \<Rightarrow> u64 \<Rightarrow> i64 \<Rightarrow> u64 list \<Rightarrow> ('s, u64) go" where
  "chosenKeeper u p nt ks =
     (if ks = [] then fail (Panic ''integer divide by zero'')
      else let i = keeperIndex u p nt (length ks)
           in if i < 0 then fail (Panic ''index out of range'') else ret (ks ! nat i))"

text \<open>The two balances that are asked for at the end are only logged.\<close>

definition subOne :: "lib \<Rightarrow> kenv \<Rightarrow> u64 \<Rightarrow> u64 \<Rightarrow> unit kgo" where
  "subOne L K u p =
     bnd (gets (\<lambda>k. (StateGetAllKeepers (kn_state k), kn_roleID k))) (\<lambda>(ks, me).
     bnd kn_now (\<lambda>t.
     bnd (chosenKeeper u p (unixDiv t 600) ks) (\<lambda>ch.
     if ch \<noteq> me then ret ()
     else case ke_storeInfo K u p of
       None \<Rightarrow> ret ()
     | Some si \<Rightarrow>
         bnd (gets (\<lambda>k. (ns_Nonce (StateGetOrderNonce L u p (- 1) (kn_state k)), StateGetOrder L u p (sti_SubNonce si) (kn_state k)))) (\<lambda>(n, mof).
         if sti_Nonce si = sti_SubNonce si \<or> sti_SubNonce si \<ge> n then ret ()
         else case mof of
           None \<Rightarrow> ret ()
         | Some f \<Rightarrow>
             bnd kn_now (\<lambda>t2.
             if sint (so_End (of_SignedOrder f)) \<ge> sint t2 then ret ()
             else if ke_subOrder K (of_SignedOrder f) then modify (\<lambda>k. k\<lparr>kn_subbed := kn_subbed k @ [of_SignedOrder f]\<rparr>)
             else ret ())))))"

definition keeperSubOrder :: "lib \<Rightarrow> kenv \<Rightarrow> u64 \<Rightarrow> unit kgo" where
  "keeperSubOrder L K u = bnd (gets (\<lambda>k. StateGetProsAt L u (kn_state k))) (\<lambda>pros. forM pros (subOne L K u))"

definition subOrderAll :: "lib \<Rightarrow> kenv \<Rightarrow> unit kgo" where
  "subOrderAll L K =
     bnd (gets kn_inProcess) (\<lambda>busy.
     if busy then ret ()
     else
       seq (modify (\<lambda>k. k\<lparr>kn_inProcess := True\<rparr>))
      (bnd (gets (\<lambda>k. StateGetAllUsers (kn_state k))) (\<lambda>us.
       seq (forM us (\<lambda>u. dropErr (keeperSubOrder L K u)))
           (modify (\<lambda>k. k\<lparr>kn_inProcess := False\<rparr>)))))"

section \<open>Published metadata\<close>

text \<open>The record is stored under the key it names; neither its signature nor the key is looked at.\<close>

definition putLfsMetaHandler :: "lib \<Rightarrow> kenv \<Rightarrow> bytes \<Rightarrow> unit kgo" where
  "putLfsMetaHandler L K b =
     bnd (orErr ''unmarshal'' (decode (ke_cRecord K) ([], []) b)) (\<lambda>(key, _).
     seq (reject (lb_putFail L key b) ''put'') (modify (\<lambda>k. k\<lparr>kn_ds := ds_put (kn_ds k) key b\<rparr>)))"

section \<open>A keeper and the chain agree on the epochs\<close>

lemma epochMsg_SomeD:
  assumes "epochMsg L K k = (Inr (Some m), k')"
  shows "\<exists>dur sep. map_of (ChalDurMap (lb_build L)) (version (kn_state k)) = Some dur \<and>
    ce_Slot (cei_current (ceInfo (kn_state k))) < slot (kn_state k) \<and>
    dur < slot (kn_state k) - ce_Slot (cei_current (ceInfo (kn_state k))) \<and>
    marshal (lb_cSignedEpochParams L) sep = Some (msg_Params m) \<and>
    sep_Epoch sep = cei_epoch (ceInfo (kn_state k)) \<and> sep_Prev sep = ce_Seed (cei_current (ceInfo (kn_state k)))"
  using assms
  by (auto simp: epochMsg_def bnd_Inr gets_def ret_def orErr_def Serialize_def fail_def StateGetInfo_def StateGetChalEpochInfo_def keeperMsg_def
      split: if_splits option.splits) (metis SignedEpochParams.select_convs)+

lemma checkEpoch_accepts:
  assumes "decode (lb_cSignedEpochParams L) zero_SignedEpochParams (msg_Params m) = Some sep"
    and "sep_Epoch sep = cei_epoch (ce s)" "sep_Prev sep = ce_Seed (cei_current (ce s))"
    and "map_of (ChalDurMap (lb_build L)) (ver s) = Some dur" "dur \<le> sl s - ce_Slot (cei_current (ce s))"
  shows "checkEpoch L ce ver sl m s = (Inr sep, s)"
  using assms by (simp add: checkEpoch_def bnd_def seq_def gets_def ret_def orErr_def reject_def not_less)

lemma updateChalEpoch_moves:
  assumes "checkEpoch L ceInfo version slot m s = (Inr sep, s)"
  shows "ceInfo (snd (updateChalEpoch L m s)) = next_epoch (ceInfo s) (sep_Epoch sep) (slot s) (MsgIDOf L (msg_Params m))
    \<and> slot (snd (updateChalEpoch L m s)) = slot s"
proof -
  let ?P = "\<lambda>t. ceInfo t = next_epoch (ceInfo s) (sep_Epoch sep) (slot s) (MsgIDOf L (msg_Params m)) \<and> slot t = slot s"
  define rest where "rest = bnd (gets ceInfo) (\<lambda>c.
     bnd (Serialize (lb_cChalEpoch L) (cei_current c)) (\<lambda>data.
     seq (sput L (skey ST_ChalEpochKey [unat (ce_Epoch (cei_current c))]) data)
         (sput L (skey ST_ChalEpochKey []) (PutUint64 (cei_epoch c)))))"
  have "keeps ?P rest"
    unfolding rest_def Serialize_def by (intro keeps_rules keeps_sput_stable) auto
  from keepsD [OF this, of "s\<lparr>ceInfo := next_epoch (ceInfo s) (sep_Epoch sep) (slot s) (MsgIDOf L (msg_Params m))\<rparr>"] show ?thesis
    unfolding updateChalEpoch_def rest_def [symmetric] by (simp add: assms seq_def modify_def)
qed

lemma later_slot:
  fixes dur c a b :: u64
  assumes "c < a" "dur < a - c" "a \<le> b"
  shows "dur \<le> b - c"
  using assms by (simp add: word_less_nat_alt word_le_nat_alt unat_sub_if_size word_size)

section \<open>An example\<close>

definition ex_sep :: SignedEpochParams where
  "ex_sep = \<lparr>sep_Epoch = 3, sep_Prev = [9], sep_Sig = \<lparr>ms_Type = SigSecp256k1, ms_Signer = [1], ms_Data = [7]\<rparr>\<rparr>"

definition ex_klib :: lib where
  "ex_klib = ex0_lib\<lparr>lb_cSignedEpochParams := tab_codec [ex_sep]\<rparr>"

definition ex_kstate :: StateMgr where
  "ex_kstate = ex0_state\<lparr>slot := 200, ceInfo := \<lparr>cei_epoch = 3, cei_current = \<lparr>ce_Epoch = 2, ce_Slot = 10, ce_Seed = [9]\<rparr>,
     cei_previous = zero_ChalEpoch\<rparr>\<rparr>"

definition ex_keeper :: "StateMgr \<Rightarrow> KeeperNode" where
  "ex_keeper s = \<lparr>kn_roleID = 1, kn_push = ex_push\<lparr>pp_sync := (pp_sync ex_push)\<lparr>sp_st := s\<rparr>\<rparr>, kn_ds = (\<lambda>_. None), kn_latest = 0,
     kn_inProcess = False, kn_subbed = [], kn_clock = (\<lambda>_. 0), kn_reads = 0\<rparr>"

definition ex_kenv :: kenv where
  "ex_kenv = \<lparr>ke_env = ex_push_env, ke_lru = ex_lru, ke_storeInfo = (\<lambda>_ _. None), ke_subOrder = (\<lambda>_. True), ke_cEpochParams = tab_codec [],
     ke_cRecord = tab_codec []\<rparr>"

lemma ex_epochMsg:
  "epochMsg ex_klib ex_kenv (ex_keeper ex_kstate) = (Inr (Some (keeperMsg 1 UpdateChalEpoch [0])), ex_keeper ex_kstate)"
proof -
  have "rm_get ex_klib ex_push_env 1 ex_pool_rm = (Inr (zero_RoleInfo\<lparr>ri_Type := RoleInfo_Keeper,
     ri_RoleID := 1, ri_GroupID := 1, ri_ChainVerifyKey := [7], ri_BlsVerifyKey := [8]\<rparr>), ex_pool_rm)"
    by (simp add: rm_get_def ex_pool_rm_fields)
  moreover have "en_walletSign ex_push_env = (\<lambda>a m. Some a)"
    by (simp add: ex_push_env_def ex_pool_env_def)
  ultimately have "RoleSign ex_klib ex_push_env 1 b SigSecp256k1 ex_pool_rm = (Inr \<lparr>sig_Type = SigSecp256k1, sig_Data = [7]\<rparr>, ex_pool_rm)" for b
    by (simp add: RoleSign_def keyTypeOf_def GetPubKey_def ex_pool_fns)
  then show ?thesis
    by (simp add: epochMsg_def ex_keeper_def ex_kenv_def ex_push_fields zoom_def gets_def StateGetInfo_def StateGetChalEpochInfo_def
        ex_kstate_def ex_klib_def ex0_lib_def lib0_def build_init_def bnd_def orErr_def ret_def Serialize_def MultiSignature_Add_def
        NewMultiSignature_def ex_sep_def SigSecp256k1_def SigBLS_def)
qed

section \<open>The properties of the component\<close>



end
