(* ===== verification/Spec2Isabelle.thy ===== *)
theory Spec2Isabelle
  imports HotStuffPool ProServeSafe ProChalSafe UserProps ErasureSafe Keeper
begin

text \<open>
  A verification of go-mefs-v2, a decentralised storage network.

  \<^bold>\<open>The program.\<close>  Users buy space at providers; keepers run a chain (the ``data chain'') whose
  messages register roles, buckets and orders, add the segments that were stored, and pay the
  providers for their proofs of storage.  Every node applies the blocks of that chain with a
  state manager.  The parts that are modelled, from the store upwards:

  \<^item> the key-value store, its transactions, the reference-counting store and the wrapper of the
    sparse Merkle tree (\<open>lib/types/store\<close>, \<open>lib/backend/kv\<close>, \<open>lib/backend/smt\<close>): theory \<open>Store\<close>;
  \<^item> the constants and structs of the chain, the hashes that are signed, the run-length queues and
    the segments (\<open>build\<close>, \<open>lib/types\<close>, \<open>lib/tx\<close>, \<open>lib/segment\<close>): theories \<open>Types\<close>, \<open>SegQueue\<close>, \<open>Segment\<close>;
  \<^item> the state manager (\<open>submodule/state\<close>): its record, caches and roots in \<open>StateBase\<close>, roles, users,
    buckets and metadata in \<open>StateUser\<close>, orders in \<open>StateOrder\<close>, epochs, proofs and incomes in
    \<open>StateChal\<close>, blocks and validation in \<open>StateBlock\<close>, queries in \<open>StateApi\<close>.  Each message has its
    handler and the validating twin of the source;
  \<^item> the role manager (\<open>submodule/role\<close>): theory \<open>RoleMgr\<close>; the store of blocks and messages
    (\<open>lib/tx/store.go\<close>): theory \<open>TxStore\<close>;
  \<^item> the three pools around the state manager (\<open>submodule/txPool\<close>): following the chain in \<open>SyncPool\<close>
    (\<open>sync.go\<close>), sending messages in \<open>PushPool\<close> (\<open>push.go\<close>), proposing blocks in \<open>InPool\<close> (\<open>process.go\<close>);
  \<^item> the consensus of the keepers (\<open>submodule/consensus\<close>, \<open>lib/hotstuff\<close>): messages in \<open>HsMsg\<close>, every
    handler and the mining loops in \<open>HotStuff\<close>;
  \<^item> the orders of a provider and its white list (\<open>service/provider/order\<close>, \<open>submodule/control/access.go\<close>):
    theory \<open>ProOrder\<close>;
  \<^item> the payments for reading (\<open>submodule/connect/readpay\<close>): theory \<open>ReadPay\<close>; the requests that a provider
    answers and the service for segments on both sides (\<open>service/provider/handler.go\<close>, \<open>service/data\<close>):
    theory \<open>ProServe\<close>;
  \<^item> the challenge driver of a provider (\<open>service/provider/challenge\<close>), which keeps the orders it has to
    prove, builds the proof of an epoch and pushes it: theory \<open>ProChal\<close>;
  \<^item> the orders of a user (\<open>check.go\<close>, \<open>net.go\<close>, and of \<open>data.go\<close> and \<open>inst.go\<close> the sending of chunks and the new
    instance, of \<open>service/user/order\<close>): the instance for a provider and its state machine in \<open>UserOrder\<close>,
    chunks, requests and events in \<open>UserSend\<close>;
  \<^item> the proofs of data possession (\<open>lib/crypto/pdp\<close>) over the curve layer (\<open>lib/crypto/bls12_381\<close>): theories
    \<open>Bls\<close> and \<open>Pdp\<close>; the erasure coding of stripes (\<open>lib/code\<close>): theory \<open>ErasureCode\<close>;
  \<^item> the timers of a keeper for epochs, incomes and expired orders (\<open>service/keeper\<close>): theory \<open>Keeper\<close>.

  \<^bold>\<open>How code becomes definitions.\<close>  A method is a function of the effect type of \<open>Prelude\<close>: it returns
  an error, a panic or a value, and in each case the state it left, because Go does not undo
  assignments on an early return.  A struct is a record whose fields carry a prefix of their own, an
  unsigned or signed machine integer is a word, \<open>*big.Int\<close> is \<open>int option\<close> (\<open>None\<close> is nil, and reading
  through it panics), a map is a partial function, a dictionary of the store is a map from bytes to
  bytes.  A method of an embedded struct is lifted with \<open>zoom\<close> (\<open>NodeBase\<close>).  A loop with a channel or
  a timer is given by one round of it; the clock and random numbers are read from the state; a lock
  makes a handler atomic (sending a chunk is two steps, with the other handlers in between), and the lock of the push pool is a flag because the code forgets it.
  Third-party code is a parameter: the record \<open>lib\<close> of \<open>Outside\<close> (encodings, hashes, signatures, the
  tree, PDP), \<open>env\<close> of \<open>NodeBase\<close> (settlement chain, wallet, network), \<open>penv\<close> of \<open>ProOrder\<close>, \<open>rpenv\<close> of \<open>ReadPay\<close>,
  \<open>uenv\<close> of \<open>UserOrder\<close>, \<open>cenv\<close> of \<open>ProChal\<close>, \<open>kenv\<close> of \<open>Keeper\<close>, \<open>curve\<close> of \<open>Bls\<close> and \<open>codeLib\<close> of \<open>ErasureCode\<close>.  The chain and
  the provider see the scheme of \<open>Pdp\<close> through the fields of \<open>lib\<close>.  Laws such as \<open>codec_law\<close>, \<open>trie_law\<close>,
  \<open>curve_law\<close> and \<open>rs_code\<close> are hypotheses where they are used; \<open>Instances\<close>, \<open>Bls\<close>, \<open>ErasureSafe\<close> and \<open>UserProps\<close> have concrete
  functions that satisfy them, on which the examples run.

  \<^bold>\<open>What is shown.\<close>
  \<^item> Blocks (\<open>StateChain\<close>, \<open>StateRun\<close>; C1--C7): what an accepted block changes, that a refused one leaves
    the committed store alone, that its signers are a quorum of keepers, that nonces are consumed in
    order, that a restarted manager resumes where it stopped, that validation never touches the applied
    state, and the invariant of the manager over all runs.  \<open>StateFrame\<close> holds the frames of the handlers
    as locales, interpreted for every handler.
  \<^item> Orders (\<open>OrderLife\<close>; C8--C10): every message moves the order of a pair along an abstract step
    relation, so the handlers refine it; a proof of an epoch is paid once.
  \<^item> Roles and blocks on disk (\<open>RoleMgr\<close>, \<open>TxStore\<close>; C11--C13): the lists of the role manager are consistent;
    what is stored is found; when the lookup of a message returns.
  \<^item> Pools (C14--C22): the pool follows the chain and stops at a refused block; an accepted block is
    signed; pending messages are numbered without gaps, and how the code deadlocks on a wrong nonce;
    a proposed block is accepted by the validation of every node in the same state and is bounded;
    leaders rotate.
  \<^item> Consensus (\<open>HotStuffSafe\<close>, \<open>HotStuffPool\<close>; C23--C25): with the triples of \<open>GoHoare\<close> and the locale
    \<open>consensus_app\<close>, interpreted on the pool of a keeper: one vote per phase and slot, a quorum behind
    every delivered block, and a commit vote that is not checked.
  \<^item> Provider orders (\<open>ProOrderSafe\<close>, \<open>ProOrderState\<close>; C26--C28): what a provider signs, the handlers of
    the data chain accept; the states an order can be in; what a restart finds.
  \<^item> User orders (\<open>UserOrderSafe\<close>, \<open>UserRun\<close>, \<open>UserProps\<close>; C29--C30): over all runs of an instance, the messages
    a user pushes for a provider are the ones the chain can accept next, unless an order is stopped in the
    middle of a sequence; stopped there, it pushes a commit that the chain refuses.  The counter of the
    jobs is right in every run.
  \<^item> Requests and reads (\<open>ReadPaySafe\<close>, \<open>ProServeSafe\<close>; C31--C32): a request changes the order of the
    signer only, except for the creation of an order; a segment that is paid for arrives; a payment stays
    within its check.
  \<^item> Challenges (\<open>ProChalSafe\<close>; C33): what the driver of a provider puts into the proof of an epoch is
    what the chain checks, so the proof is accepted.
  \<^item> Proofs of storage (\<open>PdpSafe\<close>, \<open>PdpBytes\<close>; C34--C37): honest tags give an accepted proof; the check of a
    tag decides; the aggregated check sees sums only; keys and proofs survive their encoding.
  \<^item> Erasure coding (\<open>ErasureSafe\<close>; C38--C39): a stripe survives the loss of chunks; a short stripe is not
    recovered.
  \<^item> Keeper (\<open>Keeper\<close>; C40): the message for the next epoch is accepted by the chain and made once.

  \<^bold>\<open>Bounds and termination.\<close>  Two loops use fuel.  The recursion of \<open>GetTxMsgState\<close> follows
  stored data: enough fuel gives its result exactly when the stored records have no cycle (C13).
  The challenge driver pushes a message until the pool takes it, for ever if it never does: the field
  \<open>cv_tries\<close> bounds the attempts, and running out is a panic of the model, never a result.
  Every other loop is a recursion on a list or has a measure; the loops over words of the provider
  end because the distance to the bound shrinks.  The count of the segments of one sequence is
  bounded by \<open>maxSegs\<close>, which the size guard of the handler implies, so that sizes and prices do not
  wrap.

  \<^bold>\<open>Not modelled.\<close>  Badger and the file system, the arithmetic of the pairing curves and of Reed-Solomon codes,
  the Ethereum contracts, libp2p and the RPC layer, command line and configuration: third-party code
  or input and output.  Of the program's own logic what is left is on the user's side: choosing providers
  for the buckets, the bookkeeping of segment jobs, paying and repairing orders (\<open>bucket.go\<close>, \<open>msg.go\<close>, \<open>fix.go\<close>
  and parts of \<open>data.go\<close>, \<open>inst.go\<close> and \<open>service.go\<close> of \<open>service/user/order\<close>) and the file system (\<open>service/user/lfs\<close>).
\<close>

end
